(* ===== verification/Prelude.thy ===== *)
theory Prelude
  imports Main "HOL-Library.Word" "HOL-Library.Monad_Syntax"
begin

text \<open>
  The vocabulary of the development. A C object of known size (a \<open>malloc\<close> block or a
  fixed array) is a \<open>block\<close>: its size and a partial map from offsets to bytes, where a
  missing byte was never written. Reading outside the object or reading an unwritten byte,
  and writing outside it, has no defined result in C: such an operation is \<open>None\<close>, and
  so is every operation of the model that would have to perform it. A function that returns
  \<open>Some\<close> therefore touched only memory it owns.

  A pointer into a block is the offset from its start. The modelled build is the LP64,
  little-endian one, where plain \<open>char\<close> is signed: a \<open>char\<close> read as a number is
  sign-extended (\<open>scast\<close>), an \<open>unsigned char\<close> zero-extended (\<open>ucast\<close>).
\<close>

unbundle bit_operations_syntax

type_synonym byte = "8 word"
type_synonym uint16 = "16 word"
type_synonym uint32 = "32 word"
type_synonym uint64 = "64 word"

named_theorems blk_simps \<open>reading a block back after an operation on it\<close>

section \<open>Options as possibly failing computations\<close>

lemma bind_Some_iff: "(Option.bind x f = Some y) = (\<exists>z. x = Some z \<and> f z = Some y)"
  by (cases x) auto

lemma bind_SomeE:
  assumes "Option.bind x f = Some y"
  obtains z where "x = Some z" "f z = Some y"
  using assms by (auto simp: bind_Some_iff)

section \<open>Subtraction on size_t\<close>

text \<open>
  Sizes and offsets are natural numbers below \<open>2 ^ 64\<close>; a subtraction that goes below
  zero wraps around, as it does on \<open>size_t\<close>.
\<close>

definition size_sub :: "nat \<Rightarrow> nat \<Rightarrow> nat" where
  "size_sub a b = nat ((int a - int b) mod 2 ^ 64)"

lemma size_sub_exact: "b \<le> a \<Longrightarrow> a - b < 2 ^ 64 \<Longrightarrow> size_sub a b = a - b"
  by (simp add: size_sub_def flip: of_nat_diff)

lemma size_sub_le: "b \<le> a \<Longrightarrow> a < 2 ^ 64 \<Longrightarrow> size_sub a b = a - b"
  by (rule size_sub_exact) auto

lemma size_sub_wraps:
  assumes "a < b" "b \<le> 2 ^ 64"
  shows "size_sub a b = 2 ^ 64 + a - b"
proof -
  have "(int a - int b) mod 2 ^ 64 = (int a - int b + 2 ^ 64) mod 2 ^ 64" by simp
  also have "\<dots> = int a - int b + 2 ^ 64" using assms by (intro mod_pos_pos_trivial) auto
  finally show ?thesis using assms by (simp add: size_sub_def)
qed

lemma size_sub_less: "size_sub a b < 2 ^ 64"
  by (simp add: size_sub_def nat_less_iff)

text \<open>Advancing the subtrahend by at most the difference takes that much off it.\<close>

lemma size_sub_advance:
  assumes "k \<le> size_sub a b"
  shows "size_sub a (b + k) = size_sub a b - k"
proof -
  let ?d = "(int a - int b) mod 2 ^ 64"
  have d: "int k \<le> ?d" "?d < 2 ^ 64" using assms by (auto simp: size_sub_def le_nat_iff)
  have "(int a - int (b + k)) mod 2 ^ 64 = (?d - int k) mod 2 ^ 64"
    by (simp add: mod_diff_left_eq algebra_simps)
  also have "\<dots> = ?d - int k" using d by (intro mod_pos_pos_trivial) auto
  finally show ?thesis using d by (simp add: size_sub_def nat_diff_distrib)
qed

section \<open>Blocks of memory\<close>

record block =
  blk_size :: nat
  blk_mem :: "nat \<Rightarrow> byte option"

definition blk_alloc :: "nat \<Rightarrow> block" where
  "blk_alloc n = \<lparr>blk_size = n, blk_mem = Map.empty\<rparr>"

definition blk_get :: "block \<Rightarrow> nat \<Rightarrow> byte option" where
  "blk_get b i = (if i < blk_size b then blk_mem b i else None)"

definition blk_put :: "block \<Rightarrow> nat \<Rightarrow> byte \<Rightarrow> block option" where
  "blk_put b i v = (if i < blk_size b then Some (b\<lparr>blk_mem := (blk_mem b)(i \<mapsto> v)\<rparr>) else None)"

text \<open>\<open>realloc\<close>: the bytes that fit are kept, the new ones are indeterminate.\<close>

definition blk_realloc :: "block \<Rightarrow> nat \<Rightarrow> block" where
  "blk_realloc b n = \<lparr>blk_size = n, blk_mem = (\<lambda>i. if i < n then blk_get b i else None)\<rparr>"

text \<open>\<open>memcpy\<close> and \<open>memset\<close> of known bytes.\<close>

fun blk_write :: "block \<Rightarrow> nat \<Rightarrow> byte list \<Rightarrow> block option" where
  "blk_write b p [] = Some b"
| "blk_write b p (x # xs) = do { b' \<leftarrow> blk_put b p x; blk_write b' (Suc p) xs }"

fun blk_read :: "block \<Rightarrow> nat \<Rightarrow> nat \<Rightarrow> byte list option" where
  "blk_read b p 0 = Some []"
| "blk_read b p (Suc n) = do { x \<leftarrow> blk_get b p; xs \<leftarrow> blk_read b (Suc p) n; Some (x # xs) }"

text \<open>\<open>memmove\<close> inside one object: the bytes may be indeterminate, the ranges not outside.\<close>

definition blk_move :: "block \<Rightarrow> nat \<Rightarrow> nat \<Rightarrow> nat \<Rightarrow> block option" where
  "blk_move b d s n =
     (if s + n \<le> blk_size b \<and> d + n \<le> blk_size b
      then Some (b\<lparr>blk_mem := (\<lambda>i. if d \<le> i \<and> i < d + n then blk_mem b (s + (i - d)) else blk_mem b i)\<rparr>)
      else None)"

text \<open>A C string: the bytes up to the terminating NUL, at most \<open>n\<close> of them.\<close>

fun blk_cstr :: "block \<Rightarrow> nat \<Rightarrow> nat \<Rightarrow> byte list option" where
  "blk_cstr b p 0 = Some []"
| "blk_cstr b p (Suc n) =
     do { x \<leftarrow> blk_get b p;
          if x = 0 then Some [] else do { xs \<leftarrow> blk_cstr b (Suc p) n; Some (x # xs) } }"

text \<open>\<open>blk_has b p xs\<close>: the bytes \<open>xs\<close> lie at offset \<open>p\<close>.\<close>

fun blk_has :: "block \<Rightarrow> nat \<Rightarrow> byte list \<Rightarrow> bool" where
  "blk_has b p [] = True"
| "blk_has b p (x # xs) = (blk_get b p = Some x \<and> blk_has b (Suc p) xs)"

lemma blk_has_append: "blk_has b p (xs @ ys) = (blk_has b p xs \<and> blk_has b (p + length xs) ys)"
  by (induction xs arbitrary: p) auto

lemma blk_has_nth: "blk_has b p xs = (\<forall>i < length xs. blk_get b (p + i) = Some (xs ! i))"
proof (induction xs arbitrary: p)
  case (Cons x xs)
  have "(\<forall>i < length (x # xs). blk_get b (p + i) = Some ((x # xs) ! i)) =
        (blk_get b p = Some x \<and> (\<forall>i < length xs. blk_get b (Suc p + i) = Some (xs ! i)))"
    by (auto simp: less_Suc_eq_0_disj)
  then show ?case using Cons[of "Suc p"] by simp
qed simp

lemma blk_has_bound: "blk_has b p xs \<Longrightarrow> xs \<noteq> [] \<Longrightarrow> p + length xs \<le> blk_size b"
proof -
  assume has: "blk_has b p xs" and ne: "xs \<noteq> []"
  then have "blk_get b (p + (length xs - 1)) = Some (xs ! (length xs - 1))"
    by (simp add: blk_has_nth)
  then have "p + (length xs - 1) < blk_size b" by (simp add: blk_get_def split: if_splits)
  then show ?thesis using ne by (cases xs) auto
qed

lemma blk_read_has: "blk_has b p xs \<Longrightarrow> n = length xs \<Longrightarrow> blk_read b p n = Some xs"
  by (induction xs arbitrary: p n) auto

lemma blk_read_Some: "blk_read b p n = Some xs \<Longrightarrow> length xs = n \<and> blk_has b p xs"
  by (induction n arbitrary: p xs) (auto simp: bind_Some_iff)

lemma blk_cstr_terminated:
  "blk_has b p (xs @ [0]) \<Longrightarrow> 0 \<notin> set xs \<Longrightarrow> length xs < n \<Longrightarrow> blk_cstr b p n = Some xs"
proof (induction xs arbitrary: p n)
  case Nil
  then show ?case by (cases n) auto
next
  case (Cons x xs)
  then show ?case by (cases n) auto
qed

lemma blk_cstr_cut:
  "blk_has b p xs \<Longrightarrow> 0 \<notin> set xs \<Longrightarrow> n \<le> length xs \<Longrightarrow> blk_cstr b p n = Some (take n xs)"
proof (induction xs arbitrary: p n)
  case Nil
  then show ?case by simp
next
  case (Cons x xs)
  then show ?case by (cases n) auto
qed

lemma blk_put_eq [blk_simps]:
  "blk_put b i v = Some b' \<Longrightarrow> blk_get b' j = (if j = i then Some v else blk_get b j)"
  by (auto simp: blk_put_def blk_get_def split: if_splits)

lemma blk_put_size: "blk_put b i v = Some b' \<Longrightarrow> blk_size b' = blk_size b"
  by (auto simp: blk_put_def split: if_splits)

lemma blk_put_total: "p < blk_size b \<Longrightarrow> \<exists>b'. blk_put b p x = Some b' \<and> blk_size b' = blk_size b"
  by (simp add: blk_put_def)

lemma blk_write_size: "blk_write b p xs = Some b' \<Longrightarrow> blk_size b' = blk_size b"
  by (induction xs arbitrary: b p) (auto simp: bind_Some_iff blk_put_size)

lemma blk_write_total: "p + length xs \<le> blk_size b \<Longrightarrow> \<exists>b'. blk_write b p xs = Some b'"
proof (induction xs arbitrary: b p)
  case (Cons x xs)
  then obtain b1 where b1: "blk_put b p x = Some b1" by (auto simp: blk_put_def)
  then show ?case using Cons.IH[of "Suc p" b1] Cons.prems blk_put_size[OF b1] by auto
qed simp

lemma blk_write_get [blk_simps]:
  "blk_write b p xs = Some b' \<Longrightarrow>
   blk_get b' i = (if p \<le> i \<and> i < p + length xs then Some (xs ! (i - p)) else blk_get b i)"
proof (induction xs arbitrary: b p)
  case (Cons x xs)
  then obtain b1 where b1: "blk_put b p x = Some b1" and w: "blk_write b1 (Suc p) xs = Some b'"
    by (auto elim: bind_SomeE)
  show ?case using Cons.IH[OF w] blk_put_eq[OF b1, of i] by (auto simp: nth_Cons' Suc_diff_le)
qed auto

lemma blk_write_has: "blk_write b p xs = Some b' \<Longrightarrow> blk_has b' p xs"
  by (auto simp: blk_has_nth blk_write_get)

lemma blk_write_fits:
  "blk_write b p xs = Some b' \<Longrightarrow> xs \<noteq> [] \<Longrightarrow> p + length xs \<le> blk_size b"
  using blk_has_bound[OF blk_write_has] blk_write_size by metis

lemma blk_write_overflow:
  "xs \<noteq> [] \<Longrightarrow> blk_size b < p + length xs \<Longrightarrow> blk_write b p xs = None"
  by (meson blk_write_fits leD not_Some_eq)

lemma blk_write_frame:
  "blk_write b p xs = Some b' \<Longrightarrow> q + length ys \<le> p \<or> p + length xs \<le> q \<Longrightarrow>
   blk_has b' q ys = blk_has b q ys"
proof -
  assume w: "blk_write b p xs = Some b'" and out: "q + length ys \<le> p \<or> p + length xs \<le> q"
  have "blk_get b' (q + i) = blk_get b (q + i)" if "i < length ys" for i
    using out that by (subst blk_write_get[OF w]) auto
  then show ?thesis by (simp add: blk_has_nth)
qed

lemma blk_write_append:
  "blk_write b p (xs @ ys) = do { b' \<leftarrow> blk_write b p xs; blk_write b' (p + length xs) ys }"
proof (induction xs arbitrary: b p)
  case (Cons x xs)
  then show ?case by (cases "blk_put b p x") auto
qed simp

text \<open>
  \<open>writes_at b p xs b'\<close>: going from \<open>b\<close> to \<open>b'\<close> stored exactly the bytes \<open>xs\<close> at \<open>p\<close>. This is
  how the effect of a packing routine is stated, whatever order it stores its bytes in.
\<close>

definition writes_at :: "block \<Rightarrow> nat \<Rightarrow> byte list \<Rightarrow> block \<Rightarrow> bool" where
  "writes_at b p xs b' \<longleftrightarrow> blk_size b' = blk_size b \<and>
     (\<forall>i. blk_get b' i = (if p \<le> i \<and> i < p + length xs then Some (xs ! (i - p)) else blk_get b i))"

lemma writes_at_size: "writes_at b p xs b' \<Longrightarrow> blk_size b' = blk_size b"
  by (simp add: writes_at_def)

lemma writes_at_get:
  "writes_at b p xs b' \<Longrightarrow>
   blk_get b' i = (if p \<le> i \<and> i < p + length xs then Some (xs ! (i - p)) else blk_get b i)"
  by (simp add: writes_at_def)

lemma writes_at_has: "writes_at b p xs b' \<Longrightarrow> blk_has b' p xs"
  by (auto simp: blk_has_nth writes_at_def)

lemma writes_at_frame:
  "writes_at b p xs b' \<Longrightarrow> q + length ys \<le> p \<or> p + length xs \<le> q \<Longrightarrow> blk_has b' q ys = blk_has b q ys"
  by (fastforce simp: blk_has_nth writes_at_def)

lemma blk_write_writes_at: "blk_write b p xs = Some b' \<Longrightarrow> writes_at b p xs b'"
  by (auto simp: writes_at_def blk_write_size blk_write_get)

lemma blk_put_writes_at: "blk_put b p x = Some b' \<Longrightarrow> writes_at b p [x] b'"
  by (auto simp: writes_at_def blk_put_size blk_put_eq)

lemma writes_at_Nil [simp]: "writes_at b p [] b"
  by (auto simp: writes_at_def)

lemma writes_at_append:
  assumes "writes_at b p xs b1" "writes_at b1 (p + length xs) ys b2"
  shows "writes_at b p (xs @ ys) b2"
  using assms by (auto simp: writes_at_def nth_append)

lemma writes_at_overwrite:
  assumes "writes_at b q xs b1" "writes_at b1 p ys b2" "p \<le> q" "q + length xs \<le> p + length ys"
  shows "writes_at b p ys b2"
  using assms by (auto simp: writes_at_def)

text \<open>A later write just before an earlier one extends it to the left.\<close>

lemma writes_at_prepend:
  assumes "writes_at b (p + length xs) ys b1" "writes_at b1 p xs b2"
  shows "writes_at b p (xs @ ys) b2"
proof -
  have "i - (p + length xs) = i - p - length xs" for i by simp
  then show ?thesis using assms by (auto simp: writes_at_def nth_append)
qed

lemma blk_realloc_size [simp]: "blk_size (blk_realloc b n) = n"
  by (simp add: blk_realloc_def)

lemma blk_realloc_get [blk_simps]: "blk_get (blk_realloc b n) i = (if i < n then blk_get b i else None)"
  by (simp add: blk_realloc_def blk_get_def)

lemma blk_realloc_has: "blk_has b p xs \<Longrightarrow> p + length xs \<le> n \<Longrightarrow> blk_has (blk_realloc b n) p xs"
  by (auto simp: blk_has_nth blk_realloc_get)

lemma blk_alloc_size [simp]: "blk_size (blk_alloc n) = n"
  by (simp add: blk_alloc_def)

text \<open>A block that holds a given byte list.\<close>

definition blk_of :: "byte list \<Rightarrow> block" where
  "blk_of xs = \<lparr>blk_size = length xs, blk_mem = (\<lambda>i. if i < length xs then Some (xs ! i) else None)\<rparr>"

lemma blk_of_get [blk_simps]: "blk_get (blk_of xs) i = (if i < length xs then Some (xs ! i) else None)"
  by (simp add: blk_of_def blk_get_def)

lemma blk_of_has: "blk_has (blk_of xs) 0 xs"
  by (simp add: blk_has_nth blk_of_get)

lemma blk_of_size [simp]: "blk_size (blk_of xs) = length xs"
  by (simp add: blk_of_def)

text \<open>Single bytes and stretches of a byte list that is known to lie somewhere.\<close>

lemma blk_has_get: "blk_has b p xs \<Longrightarrow> i < length xs \<Longrightarrow> blk_get b (p + i) = Some (xs ! i)"
  by (simp add: blk_has_nth)

lemma blk_has_sub: "blk_has b p xs \<Longrightarrow> take n (drop i xs) = ys \<Longrightarrow> blk_has b (p + i) ys"
  by (auto simp: blk_has_nth add.assoc)

section \<open>Little-endian byte sequences\<close>

fun le_bytes :: "nat \<Rightarrow> 'a::len word \<Rightarrow> byte list" where
  "le_bytes 0 v = []"
| "le_bytes (Suc n) v = ucast v # le_bytes n (drop_bit 8 v)"

fun le_word :: "byte list \<Rightarrow> 'a::len word" where
  "le_word [] = 0"
| "le_word (x # xs) = ucast x OR push_bit 8 (le_word xs)"

lemma ucast_mask8 [simp]: "(ucast (v AND 0xFF :: 'a::len word) :: byte) = ucast v"
proof -
  have "v AND 0xFF = take_bit 8 v" by (simp add: take_bit_eq_mask mask_numeral)
  then show ?thesis by (auto intro!: bit_word_eqI simp: bit_simps)
qed

lemma length_le_bytes [simp]: "length (le_bytes n v) = n"
  by (induction n arbitrary: v) auto

lemma le_bytes_2: "le_bytes 2 v = [ucast v, ucast (drop_bit 8 v)]"
  by (simp add: eval_nat_numeral)

lemma le_bytes_3: "le_bytes 3 v = [ucast v, ucast (drop_bit 8 v), ucast (drop_bit 16 v)]"
  by (simp add: eval_nat_numeral drop_bit_drop_bit)

lemma le_bytes_4:
  "le_bytes 4 v = [ucast v, ucast (drop_bit 8 v), ucast (drop_bit 16 v), ucast (drop_bit 24 v)]"
  by (simp add: eval_nat_numeral drop_bit_drop_bit)

lemma le_bytes_8:
  "le_bytes 8 v = [ucast v, ucast (drop_bit 8 v), ucast (drop_bit 16 v), ucast (drop_bit 24 v),
     ucast (drop_bit 32 v), ucast (drop_bit 40 v), ucast (drop_bit 48 v), ucast (drop_bit 56 v)]"
  by (simp add: eval_nat_numeral drop_bit_drop_bit)

lemma le_word_le_bytes: "le_word (le_bytes n v) = (take_bit (8 * n) v :: 'a::len word)"
proof (induction n arbitrary: v)
  case (Suc n)
  have "ucast (ucast v :: byte) OR push_bit 8 (take_bit (8 * n) (drop_bit 8 v)) =
        take_bit (8 * Suc n) v"
    by (rule bit_word_eqI) (auto simp: bit_simps)
  then show ?case using Suc[of "drop_bit 8 v"] by simp
qed simp

lemma le_word_le_bytes_full: "LENGTH('a) \<le> 8 * n \<Longrightarrow> le_word (le_bytes n v) = (v :: 'a::len word)"
  by (simp add: le_word_le_bytes take_bit_word_eq_self)

text \<open>Reading the bytes at a wider type reads the number.\<close>

lemma le_word_bit:
  "bit (le_word xs :: 'a::len word) i =
     (i < LENGTH('a) \<and> i div 8 < length xs \<and> bit (xs ! (i div 8)) (i mod 8))"
proof (induction xs arbitrary: i)
  case (Cons x xs)
  show ?case
  proof (cases "i < 8")
    case True
    then show ?thesis by (auto simp: bit_simps)
  next
    case False
    then have "i div 8 = Suc ((i - 8) div 8)" "i mod 8 = (i - 8) mod 8"
      by (auto simp: le_div_geq le_mod_geq)
    then show ?thesis using False Cons[of "i - 8"]
      by (auto simp: bit_simps dest: bit_imp_le_length)
  qed
qed simp

lemma le_bytes_nth:
  "k < n \<Longrightarrow> le_bytes n v ! k = ucast (drop_bit (8 * k) v)"
  by (induction n arbitrary: k v) (auto simp: nth_Cons drop_bit_drop_bit algebra_simps split: nat.splits)

lemma le_word_le_bytes_ucast:
  "le_word (le_bytes n v) = (ucast (take_bit (8 * n) (v :: 'b::len word)) :: 'a::len word)"
proof (rule bit_word_eqI)
  fix i assume "i < LENGTH('a)"
  moreover have "i div 8 < n \<longleftrightarrow> i < 8 * n" by (auto simp: less_mult_imp_div_less mult.commute)
  moreover have "8 * (i div 8) + i mod 8 = i" by simp
  ultimately show "bit (le_word (le_bytes n v) :: 'a word) i = bit (ucast (take_bit (8 * n) v) :: 'a word) i"
    by (auto simp: le_word_bit le_bytes_nth bit_simps dest: bit_imp_le_length)
qed

section \<open>Text\<close>

definition str :: "string \<Rightarrow> byte list" where
  "str s = map (\<lambda>c. word_of_nat (of_char c)) s"

end
