(* ===== verification/Ctypes.thy ===== *)
theory Ctypes
  imports Prelude
begin

text \<open>
  The enumerations and size limits of \<open>src/constants.h\<close>, \<open>src/return.h\<close>,
  \<open>src/pack.h\<close> and \<open>libattachsql2/constants.h\<close>, with the source's names. Sets of flags
  (capabilities, server status, column flags) are words, as in the code, and their members are
  abbreviations of the bit. A column type comes from one byte of a packet and may be a value
  the enumeration does not list: \<open>ATTACHSQL_COLUMN_TYPE_UNLISTED\<close> holds that byte.
\<close>

section \<open>Limits\<close>

abbreviation (input) ATTACHSQL_ERROR_BUFFER_SIZE :: nat where "ATTACHSQL_ERROR_BUFFER_SIZE \<equiv> 255"
abbreviation (input) ATTACHSQL_MAX_SERVER_VERSION_LEN :: nat where "ATTACHSQL_MAX_SERVER_VERSION_LEN \<equiv> 32"
abbreviation (input) ATTACHSQL_MAX_USER_SIZE :: nat where "ATTACHSQL_MAX_USER_SIZE \<equiv> 16"
abbreviation (input) ATTACHSQL_MAX_SCHEMA_SIZE :: nat where "ATTACHSQL_MAX_SCHEMA_SIZE \<equiv> 64"
abbreviation (input) ATTACHSQL_MAX_TABLE_SIZE :: nat where "ATTACHSQL_MAX_TABLE_SIZE \<equiv> 64"
abbreviation (input) ATTACHSQL_MAX_COLUMN_SIZE :: nat where "ATTACHSQL_MAX_COLUMN_SIZE \<equiv> 64"
abbreviation (input) ATTACHSQL_MAX_DEFAULT_VALUE_SIZE :: nat where "ATTACHSQL_MAX_DEFAULT_VALUE_SIZE \<equiv> 2048"
abbreviation (input) ATTACHSQL_MAX_MESSAGE_LEN :: nat where "ATTACHSQL_MAX_MESSAGE_LEN \<equiv> 2048"
abbreviation (input) ATTACHSQL_WRITE_BUFFER_SIZE :: nat where "ATTACHSQL_WRITE_BUFFER_SIZE \<equiv> 1024"
abbreviation (input) ATTACHSQL_MINIMUM_COMPRESS_SIZE :: nat where "ATTACHSQL_MINIMUM_COMPRESS_SIZE \<equiv> 50"
abbreviation (input) ATTACHSQL_STMT_EXEC_DEFAULT_SIZE :: nat where "ATTACHSQL_STMT_EXEC_DEFAULT_SIZE \<equiv> 16384"
abbreviation (input) ATTACHSQL_DEFAULT_PACKET_QUEUE_SIZE :: nat where "ATTACHSQL_DEFAULT_PACKET_QUEUE_SIZE \<equiv> 64"
abbreviation (input) ATTACHSQL_SQLSTATE_SIZE :: nat where "ATTACHSQL_SQLSTATE_SIZE \<equiv> 6"
abbreviation (input) ATTACHSQL_MESSAGE_SIZE :: nat where "ATTACHSQL_MESSAGE_SIZE \<equiv> 256"
abbreviation (input) ATTACHSQL_DEFAULT_BUFFER_SIZE :: nat where "ATTACHSQL_DEFAULT_BUFFER_SIZE \<equiv> 1048576"
abbreviation (input) ATTACHSQL_BUFFER_ROW_ALLOC_SIZE :: nat where "ATTACHSQL_BUFFER_ROW_ALLOC_SIZE \<equiv> 100"
abbreviation (input) ATTACHSQL_STMT_CHAR_BUFFER_SIZE :: nat where "ATTACHSQL_STMT_CHAR_BUFFER_SIZE \<equiv> 40"

section \<open>Status and result codes\<close>

datatype attachsql_ret_t =
    ATTACHSQL_RET_OK
  | ATTACHSQL_RET_PARAMETER_ERROR
  | ATTACHSQL_RET_CONNECTING
  | ATTACHSQL_RET_DNS_ERROR
  | ATTACHSQL_RET_CONNECT_ERROR
  | ATTACHSQL_RET_OUT_OF_MEMORY_ERROR
  | ATTACHSQL_RET_NO_SCRAMBLE
  | ATTACHSQL_RET_USER_TOO_LONG
  | ATTACHSQL_RET_SCHEMA_TOO_LONG
  | ATTACHSQL_RET_NET_READ_ERROR
  | ATTACHSQL_RET_NET_SSL_ERROR
  | ATTACHSQL_RET_NET_WRITE_ERROR
  | ATTACHSQL_RET_PACKET_OUT_OF_SEQUENCE
  | ATTACHSQL_RET_BAD_PROTOCOL
  | ATTACHSQL_RET_NO_OLD_AUTH
  | ATTACHSQL_RET_BAD_SCRAMBLE
  | ATTACHSQL_RET_COMPRESSION_FAILURE
  | ATTACHSQL_RET_BAD_STMT_PARAMETER

datatype attachsql_con_protocol_t =
    ATTACHSQL_CON_PROTOCOL_UNKNOWN
  | ATTACHSQL_CON_PROTOCOL_UDS
  | ATTACHSQL_CON_PROTOCOL_TCP

datatype attachsql_con_status_t =
    ATTACHSQL_CON_STATUS_PARAMETER_ERROR
  | ATTACHSQL_CON_STATUS_NOT_CONNECTED
  | ATTACHSQL_CON_STATUS_CONNECTING
  | ATTACHSQL_CON_STATUS_CONNECT_FAILED
  | ATTACHSQL_CON_STATUS_BUSY
  | ATTACHSQL_CON_STATUS_IDLE
  | ATTACHSQL_CON_STATUS_SSL_ERROR
  | ATTACHSQL_CON_STATUS_NET_ERROR

datatype attachsql_packet_type_t =
    ATTACHSQL_PACKET_TYPE_NONE
  | ATTACHSQL_PACKET_TYPE_HANDSHAKE
  | ATTACHSQL_PACKET_TYPE_HANDSHAKE_SSL
  | ATTACHSQL_PACKET_TYPE_RESPONSE
  | ATTACHSQL_PACKET_TYPE_PREPARE_RESPONSE
  | ATTACHSQL_PACKET_TYPE_PREPARE_PARAMETER
  | ATTACHSQL_PACKET_TYPE_PREPARE_COLUMN
  | ATTACHSQL_PACKET_TYPE_COLUMN
  | ATTACHSQL_PACKET_TYPE_ROW
  | ATTACHSQL_PACKET_TYPE_STMT_ROW

datatype attachsql_command_status_t =
    ATTACHSQL_COMMAND_STATUS_EOF
  | ATTACHSQL_COMMAND_STATUS_CONNECTED
  | ATTACHSQL_COMMAND_STATUS_SEND
  | ATTACHSQL_COMMAND_STATUS_SEND_FAILED
  | ATTACHSQL_COMMAND_STATUS_READ_RESPONSE
  | ATTACHSQL_COMMAND_STATUS_READ_COLUMN
  | ATTACHSQL_COMMAND_STATUS_READ_ROW
  | ATTACHSQL_COMMAND_STATUS_READ_FAILED
  | ATTACHSQL_COMMAND_STATUS_ROW_IN_BUFFER
  | ATTACHSQL_COMMAND_STATUS_READ_STMT_PARAM
  | ATTACHSQL_COMMAND_STATUS_READ_STMT_COLUMN
  | ATTACHSQL_COMMAND_STATUS_READ_STMT_ROW

datatype attachsql_stmt_state_t =
    ATTACHSQL_STMT_STATE_NONE
  | ATTACHSQL_STMT_STATE_PREPARED
  | ATTACHSQL_STMT_STATE_EXECUTED

datatype attachsql_events_t =
    ATTACHSQL_EVENT_NONE
  | ATTACHSQL_EVENT_CONNECTED
  | ATTACHSQL_EVENT_ERROR
  | ATTACHSQL_EVENT_EOF
  | ATTACHSQL_EVENT_ROW_READY

datatype attachsql_return_t =
    ATTACHSQL_RETURN_NONE
  | ATTACHSQL_RETURN_NOT_CONNECTED
  | ATTACHSQL_RETURN_CONNECTING
  | ATTACHSQL_RETURN_PROCESSING
  | ATTACHSQL_RETURN_ROW_READY
  | ATTACHSQL_RETURN_ERROR
  | ATTACHSQL_RETURN_EOF

datatype attachsql_options_t =
    ATTACHSQL_OPTION_NONE
  | ATTACHSQL_OPTION_COMPRESS
  | ATTACHSQL_OPTION_FOUND_ROWS
  | ATTACHSQL_OPTION_IGNORE_SIGPIPE
  | ATTACHSQL_OPTION_INTERACTIVE
  | ATTACHSQL_OPTION_LOCAL_FILES
  | ATTACHSQL_OPTION_MULTI_STATEMENTS
  | ATTACHSQL_OPTION_NO_SCHEMA
  | ATTACHSQL_OPTION_SSL_NO_VERIFY
  | ATTACHSQL_OPTION_SEMI_BLOCKING

datatype attachsql_error_level_t =
    ATTACHSQL_ERROR_LEVEL_NOTICE
  | ATTACHSQL_ERROR_LEVEL_WARNING
  | ATTACHSQL_ERROR_LEVEL_ERROR

datatype attachsql_query_parameter_type_t =
    ATTACHSQL_ESCAPE_TYPE_NONE
  | ATTACHSQL_ESCAPE_TYPE_CHAR
  | ATTACHSQL_ESCAPE_TYPE_CHAR_LIKE
  | ATTACHSQL_ESCAPE_TYPE_INT
  | ATTACHSQL_ESCAPE_TYPE_BIGINT
  | ATTACHSQL_ESCAPE_TYPE_FLOAT
  | ATTACHSQL_ESCAPE_TYPE_DOUBLE

datatype attachsql_pack_status_t =
    ATTACHSQL_PACK_OK
  | ATTACHSQL_PACK_INVALID_ARGUMENT
  | ATTACHSQL_PACK_NULL

section \<open>Commands\<close>

datatype attachsql_command_t =
    ATTACHSQL_COMMAND_SLEEP
  | ATTACHSQL_COMMAND_QUIT
  | ATTACHSQL_COMMAND_INITDB
  | ATTACHSQL_COMMAND_QUERY
  | ATTACHSQL_COMMAND_FIELD_LIST
  | ATTACHSQL_COMMAND_CREATE_DB
  | ATTACHSQL_COMMAND_DROP_DB
  | ATTACHSQL_COMMAND_REFRESH
  | ATTACHSQL_COMMAND_SHUTDOWN
  | ATTACHSQL_COMMAND_STATISTICS
  | ATTACHSQL_COMMAND_PROCESS_INFO
  | ATTACHSQL_COMMAND_CONNECT
  | ATTACHSQL_COMMAND_PROCESS_KILL
  | ATTACHSQL_COMMAND_DEBUG
  | ATTACHSQL_COMMAND_PING
  | ATTACHSQL_COMMAND_TIME
  | ATTACHSQL_COMMAND_DELAYED_INSERT
  | ATTACHSQL_COMMAND_CHANGE_USER
  | ATTACHSQL_COMMAND_BINLOG_DUMP
  | ATTACHSQL_COMMAND_TABLE_DUMP
  | ATTACHSQL_COMMAND_CONNECT_OUT
  | ATTACHSQL_COMMAND_REGISTER_SLAVE
  | ATTACHSQL_COMMAND_STMT_PREPARE
  | ATTACHSQL_COMMAND_STMT_EXECUTE
  | ATTACHSQL_COMMAND_STMT_SEND_LONG_DATA
  | ATTACHSQL_COMMAND_STMT_CLOSE
  | ATTACHSQL_COMMAND_STMT_RESET
  | ATTACHSQL_COMMAND_SET_OPTION
  | ATTACHSQL_COMMAND_STMT_FETCH
  | ATTACHSQL_COMMAND_DAEMON
  | ATTACHSQL_COMMAND_BINLOG_DUMP_GTID
  | ATTACHSQL_COMMAND_RESET_CONNECTION

fun command_code :: "attachsql_command_t \<Rightarrow> byte" where
    "command_code ATTACHSQL_COMMAND_SLEEP = 0x00"
  | "command_code ATTACHSQL_COMMAND_QUIT = 0x01"
  | "command_code ATTACHSQL_COMMAND_INITDB = 0x02"
  | "command_code ATTACHSQL_COMMAND_QUERY = 0x03"
  | "command_code ATTACHSQL_COMMAND_FIELD_LIST = 0x04"
  | "command_code ATTACHSQL_COMMAND_CREATE_DB = 0x05"
  | "command_code ATTACHSQL_COMMAND_DROP_DB = 0x06"
  | "command_code ATTACHSQL_COMMAND_REFRESH = 0x07"
  | "command_code ATTACHSQL_COMMAND_SHUTDOWN = 0x08"
  | "command_code ATTACHSQL_COMMAND_STATISTICS = 0x09"
  | "command_code ATTACHSQL_COMMAND_PROCESS_INFO = 0x0a"
  | "command_code ATTACHSQL_COMMAND_CONNECT = 0x0b"
  | "command_code ATTACHSQL_COMMAND_PROCESS_KILL = 0x0c"
  | "command_code ATTACHSQL_COMMAND_DEBUG = 0x0d"
  | "command_code ATTACHSQL_COMMAND_PING = 0x0e"
  | "command_code ATTACHSQL_COMMAND_TIME = 0x0f"
  | "command_code ATTACHSQL_COMMAND_DELAYED_INSERT = 0x10"
  | "command_code ATTACHSQL_COMMAND_CHANGE_USER = 0x11"
  | "command_code ATTACHSQL_COMMAND_BINLOG_DUMP = 0x12"
  | "command_code ATTACHSQL_COMMAND_TABLE_DUMP = 0x13"
  | "command_code ATTACHSQL_COMMAND_CONNECT_OUT = 0x14"
  | "command_code ATTACHSQL_COMMAND_REGISTER_SLAVE = 0x15"
  | "command_code ATTACHSQL_COMMAND_STMT_PREPARE = 0x16"
  | "command_code ATTACHSQL_COMMAND_STMT_EXECUTE = 0x17"
  | "command_code ATTACHSQL_COMMAND_STMT_SEND_LONG_DATA = 0x18"
  | "command_code ATTACHSQL_COMMAND_STMT_CLOSE = 0x19"
  | "command_code ATTACHSQL_COMMAND_STMT_RESET = 0x1a"
  | "command_code ATTACHSQL_COMMAND_SET_OPTION = 0x1b"
  | "command_code ATTACHSQL_COMMAND_STMT_FETCH = 0x1c"
  | "command_code ATTACHSQL_COMMAND_DAEMON = 0x1d"
  | "command_code ATTACHSQL_COMMAND_BINLOG_DUMP_GTID = 0x1e"
  | "command_code ATTACHSQL_COMMAND_RESET_CONNECTION = 0x1f"

section \<open>Column types\<close>

datatype attachsql_column_type_t =
    ATTACHSQL_COLUMN_TYPE_DECIMAL
  | ATTACHSQL_COLUMN_TYPE_TINY
  | ATTACHSQL_COLUMN_TYPE_SHORT
  | ATTACHSQL_COLUMN_TYPE_LONG
  | ATTACHSQL_COLUMN_TYPE_FLOAT
  | ATTACHSQL_COLUMN_TYPE_DOUBLE
  | ATTACHSQL_COLUMN_TYPE_NULL
  | ATTACHSQL_COLUMN_TYPE_TIMESTAMP
  | ATTACHSQL_COLUMN_TYPE_LONGLONG
  | ATTACHSQL_COLUMN_TYPE_INT24
  | ATTACHSQL_COLUMN_TYPE_DATE
  | ATTACHSQL_COLUMN_TYPE_TIME
  | ATTACHSQL_COLUMN_TYPE_DATETIME
  | ATTACHSQL_COLUMN_TYPE_YEAR
  | ATTACHSQL_COLUMN_TYPE_VARCHAR
  | ATTACHSQL_COLUMN_TYPE_BIT
  | ATTACHSQL_COLUMN_TYPE_NEWDECIMAL
  | ATTACHSQL_COLUMN_TYPE_ENUM
  | ATTACHSQL_COLUMN_TYPE_SET
  | ATTACHSQL_COLUMN_TYPE_TINY_BLOB
  | ATTACHSQL_COLUMN_TYPE_MEDIUM_BLOB
  | ATTACHSQL_COLUMN_TYPE_LONG_BLOB
  | ATTACHSQL_COLUMN_TYPE_BLOB
  | ATTACHSQL_COLUMN_TYPE_VARSTRING
  | ATTACHSQL_COLUMN_TYPE_STRING
  | ATTACHSQL_COLUMN_TYPE_GEOMETRY
  | ATTACHSQL_COLUMN_TYPE_ERROR
  | ATTACHSQL_COLUMN_TYPE_UNLISTED byte

fun column_type_code :: "attachsql_column_type_t \<Rightarrow> uint16" where
    "column_type_code ATTACHSQL_COLUMN_TYPE_DECIMAL = 0x00"
  | "column_type_code ATTACHSQL_COLUMN_TYPE_TINY = 0x01"
  | "column_type_code ATTACHSQL_COLUMN_TYPE_SHORT = 0x02"
  | "column_type_code ATTACHSQL_COLUMN_TYPE_LONG = 0x03"
  | "column_type_code ATTACHSQL_COLUMN_TYPE_FLOAT = 0x04"
  | "column_type_code ATTACHSQL_COLUMN_TYPE_DOUBLE = 0x05"
  | "column_type_code ATTACHSQL_COLUMN_TYPE_NULL = 0x06"
  | "column_type_code ATTACHSQL_COLUMN_TYPE_TIMESTAMP = 0x07"
  | "column_type_code ATTACHSQL_COLUMN_TYPE_LONGLONG = 0x08"
  | "column_type_code ATTACHSQL_COLUMN_TYPE_INT24 = 0x09"
  | "column_type_code ATTACHSQL_COLUMN_TYPE_DATE = 0x0a"
  | "column_type_code ATTACHSQL_COLUMN_TYPE_TIME = 0x0b"
  | "column_type_code ATTACHSQL_COLUMN_TYPE_DATETIME = 0x0c"
  | "column_type_code ATTACHSQL_COLUMN_TYPE_YEAR = 0x0d"
  | "column_type_code ATTACHSQL_COLUMN_TYPE_VARCHAR = 0x0f"
  | "column_type_code ATTACHSQL_COLUMN_TYPE_BIT = 0x10"
  | "column_type_code ATTACHSQL_COLUMN_TYPE_NEWDECIMAL = 0xf6"
  | "column_type_code ATTACHSQL_COLUMN_TYPE_ENUM = 0xf7"
  | "column_type_code ATTACHSQL_COLUMN_TYPE_SET = 0xf8"
  | "column_type_code ATTACHSQL_COLUMN_TYPE_TINY_BLOB = 0xf9"
  | "column_type_code ATTACHSQL_COLUMN_TYPE_MEDIUM_BLOB = 0xfa"
  | "column_type_code ATTACHSQL_COLUMN_TYPE_LONG_BLOB = 0xfb"
  | "column_type_code ATTACHSQL_COLUMN_TYPE_BLOB = 0xfc"
  | "column_type_code ATTACHSQL_COLUMN_TYPE_VARSTRING = 0xfd"
  | "column_type_code ATTACHSQL_COLUMN_TYPE_STRING = 0xfe"
  | "column_type_code ATTACHSQL_COLUMN_TYPE_GEOMETRY = 0xff"
  | "column_type_code ATTACHSQL_COLUMN_TYPE_ERROR = 0xffff"
  | "column_type_code (ATTACHSQL_COLUMN_TYPE_UNLISTED b) = ucast b"

definition column_type_of_byte :: "byte \<Rightarrow> attachsql_column_type_t" where
  "column_type_of_byte b =
    (if b = 0x00 then ATTACHSQL_COLUMN_TYPE_DECIMAL else
     if b = 0x01 then ATTACHSQL_COLUMN_TYPE_TINY else
     if b = 0x02 then ATTACHSQL_COLUMN_TYPE_SHORT else
     if b = 0x03 then ATTACHSQL_COLUMN_TYPE_LONG else
     if b = 0x04 then ATTACHSQL_COLUMN_TYPE_FLOAT else
     if b = 0x05 then ATTACHSQL_COLUMN_TYPE_DOUBLE else
     if b = 0x06 then ATTACHSQL_COLUMN_TYPE_NULL else
     if b = 0x07 then ATTACHSQL_COLUMN_TYPE_TIMESTAMP else
     if b = 0x08 then ATTACHSQL_COLUMN_TYPE_LONGLONG else
     if b = 0x09 then ATTACHSQL_COLUMN_TYPE_INT24 else
     if b = 0x0a then ATTACHSQL_COLUMN_TYPE_DATE else
     if b = 0x0b then ATTACHSQL_COLUMN_TYPE_TIME else
     if b = 0x0c then ATTACHSQL_COLUMN_TYPE_DATETIME else
     if b = 0x0d then ATTACHSQL_COLUMN_TYPE_YEAR else
     if b = 0x0f then ATTACHSQL_COLUMN_TYPE_VARCHAR else
     if b = 0x10 then ATTACHSQL_COLUMN_TYPE_BIT else
     if b = 0xf6 then ATTACHSQL_COLUMN_TYPE_NEWDECIMAL else
     if b = 0xf7 then ATTACHSQL_COLUMN_TYPE_ENUM else
     if b = 0xf8 then ATTACHSQL_COLUMN_TYPE_SET else
     if b = 0xf9 then ATTACHSQL_COLUMN_TYPE_TINY_BLOB else
     if b = 0xfa then ATTACHSQL_COLUMN_TYPE_MEDIUM_BLOB else
     if b = 0xfb then ATTACHSQL_COLUMN_TYPE_LONG_BLOB else
     if b = 0xfc then ATTACHSQL_COLUMN_TYPE_BLOB else
     if b = 0xfd then ATTACHSQL_COLUMN_TYPE_VARSTRING else
     if b = 0xfe then ATTACHSQL_COLUMN_TYPE_STRING else
     if b = 0xff then ATTACHSQL_COLUMN_TYPE_GEOMETRY else
     ATTACHSQL_COLUMN_TYPE_UNLISTED b)"

lemma column_type_of_byte_code: "column_type_code (column_type_of_byte b) = ucast b"
  by (simp add: column_type_of_byte_def)

section \<open>Flags\<close>

abbreviation (input) ATTACHSQL_CAPABILITY_NONE :: uint32 where "ATTACHSQL_CAPABILITY_NONE \<equiv> 0x0"
abbreviation (input) ATTACHSQL_CAPABILITY_LONG_PASSWORD :: uint32 where "ATTACHSQL_CAPABILITY_LONG_PASSWORD \<equiv> 0x1"
abbreviation (input) ATTACHSQL_CAPABILITY_FOUND_ROWS :: uint32 where "ATTACHSQL_CAPABILITY_FOUND_ROWS \<equiv> 0x2"
abbreviation (input) ATTACHSQL_CAPABILITY_LONG_FLAG :: uint32 where "ATTACHSQL_CAPABILITY_LONG_FLAG \<equiv> 0x4"
abbreviation (input) ATTACHSQL_CAPABILITY_CONNECT_WITH_DB :: uint32 where "ATTACHSQL_CAPABILITY_CONNECT_WITH_DB \<equiv> 0x8"
abbreviation (input) ATTACHSQL_CAPABILITY_NO_SCHEMA :: uint32 where "ATTACHSQL_CAPABILITY_NO_SCHEMA \<equiv> 0x10"
abbreviation (input) ATTACHSQL_CAPABILITY_COMPRESS :: uint32 where "ATTACHSQL_CAPABILITY_COMPRESS \<equiv> 0x20"
abbreviation (input) ATTACHSQL_CAPABILITY_ODBC :: uint32 where "ATTACHSQL_CAPABILITY_ODBC \<equiv> 0x40"
abbreviation (input) ATTACHSQL_CAPABILITY_LOCAL_FILES :: uint32 where "ATTACHSQL_CAPABILITY_LOCAL_FILES \<equiv> 0x80"
abbreviation (input) ATTACHSQL_CAPABILITY_IGNORE_SPACE :: uint32 where "ATTACHSQL_CAPABILITY_IGNORE_SPACE \<equiv> 0x100"
abbreviation (input) ATTACHSQL_CAPABILITY_PROTOCOL_41 :: uint32 where "ATTACHSQL_CAPABILITY_PROTOCOL_41 \<equiv> 0x200"
abbreviation (input) ATTACHSQL_CAPABILITY_INTERACTIVE :: uint32 where "ATTACHSQL_CAPABILITY_INTERACTIVE \<equiv> 0x400"
abbreviation (input) ATTACHSQL_CAPABILITY_SSL :: uint32 where "ATTACHSQL_CAPABILITY_SSL \<equiv> 0x800"
abbreviation (input) ATTACHSQL_CAPABILITY_IGNORE_SIGPIPE :: uint32 where "ATTACHSQL_CAPABILITY_IGNORE_SIGPIPE \<equiv> 0x1000"
abbreviation (input) ATTACHSQL_CAPABILITY_TRANSACTIONS :: uint32 where "ATTACHSQL_CAPABILITY_TRANSACTIONS \<equiv> 0x2000"
abbreviation (input) ATTACHSQL_CAPABILITY_RESERVED :: uint32 where "ATTACHSQL_CAPABILITY_RESERVED \<equiv> 0x4000"
abbreviation (input) ATTACHSQL_CAPABILITY_SERCURE_CONNECTION :: uint32 where "ATTACHSQL_CAPABILITY_SERCURE_CONNECTION \<equiv> 0x8000"
abbreviation (input) ATTACHSQL_CAPABILITY_MULTI_STATEMENTS :: uint32 where "ATTACHSQL_CAPABILITY_MULTI_STATEMENTS \<equiv> 0x10000"
abbreviation (input) ATTACHSQL_CAPABILITY_MULTI_RESULTS :: uint32 where "ATTACHSQL_CAPABILITY_MULTI_RESULTS \<equiv> 0x20000"
abbreviation (input) ATTACHSQL_CAPABILITY_PLUGIN_AUTH :: uint32 where "ATTACHSQL_CAPABILITY_PLUGIN_AUTH \<equiv> 0x80000"

definition ATTACHSQL_CAPABILITY_CLIENT :: uint32 where
  "ATTACHSQL_CAPABILITY_CLIENT =
     ATTACHSQL_CAPABILITY_LONG_PASSWORD OR ATTACHSQL_CAPABILITY_FOUND_ROWS OR
     ATTACHSQL_CAPABILITY_LONG_FLAG OR ATTACHSQL_CAPABILITY_CONNECT_WITH_DB OR
     ATTACHSQL_CAPABILITY_PLUGIN_AUTH OR ATTACHSQL_CAPABILITY_TRANSACTIONS OR
     ATTACHSQL_CAPABILITY_PROTOCOL_41 OR ATTACHSQL_CAPABILITY_SERCURE_CONNECTION"

abbreviation (input) ATTACHSQL_SERVER_STATUS_NONE :: uint16 where "ATTACHSQL_SERVER_STATUS_NONE \<equiv> 0x0"
abbreviation (input) ATTACHSQL_SERVER_STATUS_IN_TRANSACTION :: uint16 where "ATTACHSQL_SERVER_STATUS_IN_TRANSACTION \<equiv> 0x1"
abbreviation (input) ATTACHSQL_SERVER_STATUS_AUTOCOMMIT :: uint16 where "ATTACHSQL_SERVER_STATUS_AUTOCOMMIT \<equiv> 0x2"
abbreviation (input) ATTACHSQL_SERVER_STATUS_MORE_RESULTS :: uint16 where "ATTACHSQL_SERVER_STATUS_MORE_RESULTS \<equiv> 0x8"
abbreviation (input) ATTACHSQL_SERVER_STATUS_NO_GOOD_INDEX :: uint16 where "ATTACHSQL_SERVER_STATUS_NO_GOOD_INDEX \<equiv> 0x10"
abbreviation (input) ATTACHSQL_SERVER_STATUS_NO_INDEX :: uint16 where "ATTACHSQL_SERVER_STATUS_NO_INDEX \<equiv> 0x20"
abbreviation (input) ATTACHSQL_SERVER_STATUS_CURSOR_EXISTS :: uint16 where "ATTACHSQL_SERVER_STATUS_CURSOR_EXISTS \<equiv> 0x40"
abbreviation (input) ATTACHSQL_SERVER_STATUS_LAST_ROW_SENT :: uint16 where "ATTACHSQL_SERVER_STATUS_LAST_ROW_SENT \<equiv> 0x80"
abbreviation (input) ATTACHSQL_SERVER_STATUS_DB_DROPPED :: uint16 where "ATTACHSQL_SERVER_STATUS_DB_DROPPED \<equiv> 0x100"
abbreviation (input) ATTACHSQL_SERVER_STATUS_NO_BACKSLASH_ESCAPES :: uint16 where "ATTACHSQL_SERVER_STATUS_NO_BACKSLASH_ESCAPES \<equiv> 0x200"
abbreviation (input) ATTACHSQL_SERVER_STATUS_METADATA_CHANGED :: uint16 where "ATTACHSQL_SERVER_STATUS_METADATA_CHANGED \<equiv> 0x400"
abbreviation (input) ATTACHSQL_SERVER_STATUS_QUERY_WAS_SLOW :: uint16 where "ATTACHSQL_SERVER_STATUS_QUERY_WAS_SLOW \<equiv> 0x800"
abbreviation (input) ATTACHSQL_SERVER_STATUS_PS_OUT_PARAMS :: uint16 where "ATTACHSQL_SERVER_STATUS_PS_OUT_PARAMS \<equiv> 0x1000"
abbreviation (input) ATTACHSQL_SERVER_STATUS_IN_TRANSACTION_READ_ONLY :: uint16 where "ATTACHSQL_SERVER_STATUS_IN_TRANSACTION_READ_ONLY \<equiv> 0x2000"

abbreviation (input) ATTACHSQL_COLUMN_FLAGS_UNSIGNED :: uint16 where "ATTACHSQL_COLUMN_FLAGS_UNSIGNED \<equiv> 0x20"
abbreviation (input) ATTACHSQL_STMT_PARAM_UNSIGNED_BIT :: uint16 where "ATTACHSQL_STMT_PARAM_UNSIGNED_BIT \<equiv> 0x8000"
abbreviation (input) ATTACHSQL_STMT_CURSOR_NONE :: byte where "ATTACHSQL_STMT_CURSOR_NONE \<equiv> 0"

section \<open>Error codes\<close>

abbreviation (input) ATTACHSQL_ERROR_CODE_UNKNOWN :: int where "ATTACHSQL_ERROR_CODE_UNKNOWN \<equiv> 2000"
abbreviation (input) ATTACHSQL_ERROR_CODE_CONNECT :: int where "ATTACHSQL_ERROR_CODE_CONNECT \<equiv> 2002"
abbreviation (input) ATTACHSQL_ERROR_CODE_HOST_UNKNOWN :: int where "ATTACHSQL_ERROR_CODE_HOST_UNKNOWN \<equiv> 2005"
abbreviation (input) ATTACHSQL_ERROR_CODE_SERVER_GONE :: int where "ATTACHSQL_ERROR_CODE_SERVER_GONE \<equiv> 2006"
abbreviation (input) ATTACHSQL_ERROR_CODE_VERSION_MISMATCH :: int where "ATTACHSQL_ERROR_CODE_VERSION_MISMATCH \<equiv> 2007"
abbreviation (input) ATTACHSQL_ERROR_CODE_ALLOC :: int where "ATTACHSQL_ERROR_CODE_ALLOC \<equiv> 2008"
abbreviation (input) ATTACHSQL_ERROR_CODE_WRONG_HOST_INFO :: int where "ATTACHSQL_ERROR_CODE_WRONG_HOST_INFO \<equiv> 2009"
abbreviation (input) ATTACHSQL_ERROR_CODE_HANDSHAKE :: int where "ATTACHSQL_ERROR_CODE_HANDSHAKE \<equiv> 2012"
abbreviation (input) ATTACHSQL_ERROR_CODE_SERVER_LOST :: int where "ATTACHSQL_ERROR_CODE_SERVER_LOST \<equiv> 2013"
abbreviation (input) ATTACHSQL_ERROR_CODE_OUT_OF_SYNC :: int where "ATTACHSQL_ERROR_CODE_OUT_OF_SYNC \<equiv> 2014"
abbreviation (input) ATTACHSQL_ERROR_CODE_OVERSIZED_PACKET :: int where "ATTACHSQL_ERROR_CODE_OVERSIZED_PACKET \<equiv> 2020"
abbreviation (input) ATTACHSQL_ERROR_CODE_SLAVE_STATUS :: int where "ATTACHSQL_ERROR_CODE_SLAVE_STATUS \<equiv> 2022"
abbreviation (input) ATTACHSQL_ERROR_CODE_SLAVE_HOSTS :: int where "ATTACHSQL_ERROR_CODE_SLAVE_HOSTS \<equiv> 2023"
abbreviation (input) ATTACHSQL_ERROR_CODE_SLAVE_CONNECT :: int where "ATTACHSQL_ERROR_CODE_SLAVE_CONNECT \<equiv> 2024"
abbreviation (input) ATTACHSQL_ERROR_CODE_MASTER_CONNECT :: int where "ATTACHSQL_ERROR_CODE_MASTER_CONNECT \<equiv> 2025"
abbreviation (input) ATTACHSQL_ERROR_CODE_SSL_CONNECT :: int where "ATTACHSQL_ERROR_CODE_SSL_CONNECT \<equiv> 2026"
abbreviation (input) ATTACHSQL_ERROR_CODE_MALFORMED_PACKET :: int where "ATTACHSQL_ERROR_CODE_MALFORMED_PACKET \<equiv> 2027"
abbreviation (input) ATTACHSQL_ERROR_CODE_NULL_POINTER :: int where "ATTACHSQL_ERROR_CODE_NULL_POINTER \<equiv> 2029"
abbreviation (input) ATTACHSQL_ERROR_CODE_STATEMENT_NOT_PREPARED :: int where "ATTACHSQL_ERROR_CODE_STATEMENT_NOT_PREPARED \<equiv> 2030"
abbreviation (input) ATTACHSQL_ERROR_CODE_PARAMS_NOT_BOUND :: int where "ATTACHSQL_ERROR_CODE_PARAMS_NOT_BOUND \<equiv> 2031"
abbreviation (input) ATTACHSQL_ERROR_CODE_DATA_TRUNCATED :: int where "ATTACHSQL_ERROR_CODE_DATA_TRUNCATED \<equiv> 2032"
abbreviation (input) ATTACHSQL_ERROR_CODE_NO_PARAMETERS_EXIST :: int where "ATTACHSQL_ERROR_CODE_NO_PARAMETERS_EXIST \<equiv> 2033"
abbreviation (input) ATTACHSQL_ERROR_CODE_INVALID_PARAMETER_NUMBER :: int where "ATTACHSQL_ERROR_CODE_INVALID_PARAMETER_NUMBER \<equiv> 2034"
abbreviation (input) ATTACHSQL_ERROR_CODE_INVALID_BUFFER_USE :: int where "ATTACHSQL_ERROR_CODE_INVALID_BUFFER_USE \<equiv> 2035"
abbreviation (input) ATTACHSQL_ERROR_CODE_INVALID_PARAMETER_TYPE :: int where "ATTACHSQL_ERROR_CODE_INVALID_PARAMETER_TYPE \<equiv> 2036"
abbreviation (input) ATTACHSQL_ERROR_CODE_UNKNOWN_PROTOCOL :: int where "ATTACHSQL_ERROR_CODE_UNKNOWN_PROTOCOL \<equiv> 2047"
abbreviation (input) ATTACHSQL_ERROR_CODE_INVALID_CON_HANDLE :: int where "ATTACHSQL_ERROR_CODE_INVALID_CON_HANDLE \<equiv> 2048"
abbreviation (input) ATTACHSQL_ERROR_CODE_NO_DATA :: int where "ATTACHSQL_ERROR_CODE_NO_DATA \<equiv> 2051"
abbreviation (input) ATTACHSQL_ERROR_CODE_NO_METADATA :: int where "ATTACHSQL_ERROR_CODE_NO_METADATA \<equiv> 2052"
abbreviation (input) ATTACHSQL_ERROR_CODE_NO_RESULT_SET :: int where "ATTACHSQL_ERROR_CODE_NO_RESULT_SET \<equiv> 2053"
abbreviation (input) ATTACHSQL_ERROR_CODE_NOT_IMPLEMENTED :: int where "ATTACHSQL_ERROR_CODE_NOT_IMPLEMENTED \<equiv> 2054"
abbreviation (input) ATTACHSQL_ERROR_CODE_SERVER_LOST_EXTENDED :: int where "ATTACHSQL_ERROR_CODE_SERVER_LOST_EXTENDED \<equiv> 2055"
abbreviation (input) ATTACHSQL_ERROR_CODE_NEW_STMT_METADATA :: int where "ATTACHSQL_ERROR_CODE_NEW_STMT_METADATA \<equiv> 2057"
abbreviation (input) ATTACHSQL_ERROR_CODE_ALREADY_CONNECTED :: int where "ATTACHSQL_ERROR_CODE_ALREADY_CONNECTED \<equiv> 2058"
abbreviation (input) ATTACHSQL_ERROR_CODE_AUTH_PLUGIN_LOAD :: int where "ATTACHSQL_ERROR_CODE_AUTH_PLUGIN_LOAD \<equiv> 2059"
abbreviation (input) ATTACHSQL_ERROR_CODE_CONNECTION_ATTR :: int where "ATTACHSQL_ERROR_CODE_CONNECTION_ATTR \<equiv> 2060"
abbreviation (input) ATTACHSQL_ERROR_CODE_AUTH_PLUGIN :: int where "ATTACHSQL_ERROR_CODE_AUTH_PLUGIN \<equiv> 2061"
abbreviation (input) ATTACHSQL_ERROR_CODE_PARAMETER :: int where "ATTACHSQL_ERROR_CODE_PARAMETER \<equiv> 3000"
abbreviation (input) ATTACHSQL_ERROR_CODE_BUFFERED_MODE :: int where "ATTACHSQL_ERROR_CODE_BUFFERED_MODE \<equiv> 3001"
abbreviation (input) ATTACHSQL_ERROR_CODE_NO_SSL :: int where "ATTACHSQL_ERROR_CODE_NO_SSL \<equiv> 3002"
abbreviation (input) ATTACHSQL_ERROR_CODE_SSL :: int where "ATTACHSQL_ERROR_CODE_SSL \<equiv> 3003"

end
