(* ===== verification/Buffer.thy ===== *)
theory Buffer
  imports Ctypes
begin

text \<open>
  \<open>src/buffer.cc\<close>: the read buffer of a connection. Received bytes are stored at the write
  pointer, packets are taken from the read pointer, and the space is reused only when
  everything has been read. The locale \<open>byte_queue\<close> states the promise of such a buffer, that the
  bytes come out in the order they went in, and is interpreted on the operations below.
\<close>

section \<open>The buffer and its operations\<close>

text \<open>
  Pointers into the buffer are offsets; \<open>buffer_gen\<close> counts the calls of \<open>realloc\<close>, after
  which the pointers taken before are dangling. \<open>packet_end_ptr\<close> may be NULL.
\<close>

record buffer_st =
  buffer_gen :: nat
  buffer :: block
  buffer_size :: nat
  buffer_used :: nat
  buffer_write_ptr :: nat
  buffer_read_ptr :: nat
  packet_end_ptr :: "nat option"

text \<open>\<open>attachsql_buffer_create\<close>, by the outcome of its two allocations.\<close>

definition attachsql_buffer_create :: "bool \<Rightarrow> bool \<Rightarrow> buffer_st option" where
  "attachsql_buffer_create new_ok malloc_ok =
     (if new_ok \<and> malloc_ok then
        Some \<lparr>buffer_gen = 0, buffer = blk_alloc ATTACHSQL_DEFAULT_BUFFER_SIZE,
              buffer_size = ATTACHSQL_DEFAULT_BUFFER_SIZE, buffer_used = 0,
              buffer_write_ptr = 0, buffer_read_ptr = 0, packet_end_ptr = None\<rparr>
      else None)"

definition attachsql_buffer_get_available :: "buffer_st option \<Rightarrow> nat" where
  "attachsql_buffer_get_available buf =
     (case buf of
        None \<Rightarrow> 0
      | Some b \<Rightarrow> size_sub (buffer_size b) (buffer_read_ptr b + buffer_used b))"

text \<open>
  \<open>attachsql_buffer_increase\<close>, by the outcome of \<open>realloc\<close>. After it a NULL \<open>packet_end_ptr\<close>
  points to the start of the buffer.
\<close>

definition attachsql_buffer_increase ::
  "bool \<Rightarrow> buffer_st option \<Rightarrow> (attachsql_ret_t \<times> buffer_st option) option" where
  "attachsql_buffer_increase realloc_ok buf =
     (case buf of
        None \<Rightarrow> Some (ATTACHSQL_RET_PARAMETER_ERROR, None)
      | Some b \<Rightarrow>
          let buffer_available = attachsql_buffer_get_available (Some b) in
          if (buffer_available + buffer_used b) mod 2 ^ 64 < buffer_size b div 2 then
            do { mem \<leftarrow> blk_move (buffer b) 0 (buffer_read_ptr b) (buffer_used b);
                 Some (ATTACHSQL_RET_OK,
                       Some (b\<lparr>buffer := mem, buffer_write_ptr := buffer_used b\<rparr>)) }
          else
            let packet_end_size = (case packet_end_ptr b of Some p \<Rightarrow> p | None \<Rightarrow> 0);
                new_size = buffer_size b * 2
            in if \<not> realloc_ok then Some (ATTACHSQL_RET_OUT_OF_MEMORY_ERROR, Some b)
               else Some (ATTACHSQL_RET_OK,
                          Some (b\<lparr>buffer_gen := Suc (buffer_gen b),
                                  buffer := blk_realloc (buffer b) new_size,
                                  buffer_size := new_size,
                                  packet_end_ptr := Some packet_end_size\<rparr>)))"

definition attachsql_buffer_move_write_ptr :: "buffer_st \<Rightarrow> nat \<Rightarrow> buffer_st" where
  "attachsql_buffer_move_write_ptr b len =
     b\<lparr>buffer_write_ptr := buffer_write_ptr b + len, buffer_used := buffer_used b + len\<rparr>"

definition attachsql_buffer_unread_data :: "buffer_st \<Rightarrow> nat" where
  "attachsql_buffer_unread_data b = size_sub (buffer_write_ptr b) (buffer_read_ptr b)"

text \<open>A NULL \<open>packet_end_ptr\<close> would become the read pointer; nothing can be read from it.\<close>

definition attachsql_buffer_packet_read_end :: "buffer_st \<Rightarrow> buffer_st option" where
  "attachsql_buffer_packet_read_end b =
     (if packet_end_ptr b = Some (buffer_write_ptr b) then
        Some (b\<lparr>buffer_read_ptr := 0, buffer_write_ptr := 0, buffer_used := 0,
                packet_end_ptr := Some 0\<rparr>)
      else
        case packet_end_ptr b of
          Some p \<Rightarrow> Some (b\<lparr>buffer_read_ptr := p\<rparr>)
        | None \<Rightarrow> None)"

text \<open>
  What its callers do with it: store bytes at the write pointer and move it, and take a packet
  of known size by marking its end.
\<close>

definition buffer_store :: "byte list \<Rightarrow> buffer_st \<Rightarrow> buffer_st option" where
  "buffer_store xs b =
     do { mem \<leftarrow> blk_write (buffer b) (buffer_write_ptr b) xs;
          Some (attachsql_buffer_move_write_ptr (b\<lparr>buffer := mem\<rparr>) (length xs)) }"

definition buffer_take :: "nat \<Rightarrow> buffer_st \<Rightarrow> (byte list \<times> buffer_st) option" where
  "buffer_take n b =
     do { xs \<leftarrow> blk_read (buffer b) (buffer_read_ptr b) n;
          b \<leftarrow> attachsql_buffer_packet_read_end (b\<lparr>packet_end_ptr := Some (buffer_read_ptr b + n)\<rparr>);
          Some (xs, b) }"

section \<open>The promise of a byte queue\<close>

datatype queue_op = Store "byte list" | Take nat | Grow

locale byte_queue =
  fixes unread :: "'b \<Rightarrow> byte list"
    and invar :: "'b \<Rightarrow> bool"
    and room :: "'b \<Rightarrow> nat"
    and store :: "byte list \<Rightarrow> 'b \<Rightarrow> 'b option"
    and take_front :: "nat \<Rightarrow> 'b \<Rightarrow> (byte list \<times> 'b) option"
    and grow :: "'b \<Rightarrow> 'b option"
    and can_grow :: "'b \<Rightarrow> bool"
  assumes store: "invar b \<Longrightarrow> length xs \<le> room b \<Longrightarrow>
      \<exists>b'. store xs b = Some b' \<and> invar b' \<and> unread b' = unread b @ xs"
    and take_front: "invar b \<Longrightarrow> n \<le> length (unread b) \<Longrightarrow>
      \<exists>b'. take_front n b = Some (take n (unread b), b') \<and> invar b' \<and> unread b' = drop n (unread b)"
    and grow: "invar b \<Longrightarrow> can_grow b \<Longrightarrow>
      \<exists>b'. grow b = Some b' \<and> invar b' \<and> unread b' = unread b"
begin

text \<open>A run of operations, each within what the queue allows, and the bytes it takes out.\<close>

fun run :: "queue_op list \<Rightarrow> 'b \<Rightarrow> (byte list \<times> 'b) option" where
  "run [] b = Some ([], b)"
| "run (Store xs # ops) b =
     (if length xs \<le> room b then do { b \<leftarrow> store xs b; run ops b } else None)"
| "run (Take n # ops) b =
     (if n \<le> length (unread b) then
        do { (xs, b) \<leftarrow> take_front n b; (ys, b) \<leftarrow> run ops b; Some (xs @ ys, b) }
      else None)"
| "run (Grow # ops) b = (if can_grow b then do { b \<leftarrow> grow b; run ops b } else None)"

fun stored :: "queue_op list \<Rightarrow> byte list" where
  "stored [] = []"
| "stored (Store xs # ops) = xs @ stored ops"
| "stored (_ # ops) = stored ops"

theorem run_fifo:
  "invar b \<Longrightarrow> run ops b = Some (out, b') \<Longrightarrow> invar b' \<and> unread b @ stored ops = out @ unread b'"
proof (induction ops b arbitrary: out b' rule: run.induct)
  case (2 xs ops b)
  then obtain b1 where "store xs b = Some b1" "run ops b1 = Some (out, b')" "length xs \<le> room b"
    by (auto split: if_splits elim: bind_SomeE)
  then show ?case using 2(1)[of b1] 2(2) store[of b xs] append_assoc by fastforce
next
  case (3 n ops b)
  then obtain ys b1 xs where t: "take_front n b = Some (xs, b1)" and r: "run ops b1 = Some (ys, b')"
    and n: "n \<le> length (unread b)" and out: "out = xs @ ys"
    by (auto simp: bind_Some_iff split: if_splits)
  from take_front[OF 3(2) n] t have "invar b1" "unread b1 = drop n (unread b)" "xs = take n (unread b)"
    by auto
  moreover have "invar b' \<and> unread b1 @ stored ops = ys @ unread b'"
    using 3(1)[OF n t refl \<open>invar b1\<close> r] .
  ultimately show ?case using out by (metis append.assoc append_take_drop_id stored.simps(3))
next
  case (4 ops b)
  then obtain b1 where "grow b = Some b1" "run ops b1 = Some (out, b')" "can_grow b"
    by (auto split: if_splits elim: bind_SomeE)
  then show ?case using 4(1)[of b1] 4(2) grow[of b] by fastforce
qed auto

corollary run_prefix: "invar b \<Longrightarrow> unread b = [] \<Longrightarrow> run ops b = Some (out, b') \<Longrightarrow>
  out = take (length out) (stored ops)"
  using run_fifo by (metis append_Nil append_eq_conv_conj)

end

section \<open>The invariant\<close>

text \<open>
  \<open>buffer_used\<close> counts every byte stored since the pointers were last reset: it is the write
  offset, not the number of unread bytes.
\<close>

definition buffer_ok :: "buffer_st \<Rightarrow> bool" where
  "buffer_ok b \<longleftrightarrow> blk_size (buffer b) = buffer_size b \<and> buffer_size b < 2 ^ 62 \<and>
     buffer_used b = buffer_write_ptr b \<and> buffer_read_ptr b \<le> buffer_write_ptr b \<and>
     buffer_write_ptr b \<le> buffer_size b \<and>
     (\<forall>i. buffer_read_ptr b \<le> i \<and> i < buffer_write_ptr b \<longrightarrow> blk_get (buffer b) i \<noteq> None)"

definition buffer_bytes :: "buffer_st \<Rightarrow> byte list" where
  "buffer_bytes b =
     map (\<lambda>i. the (blk_get (buffer b) i)) [buffer_read_ptr b ..< buffer_write_ptr b]"

definition buffer_room :: "buffer_st \<Rightarrow> nat" where
  "buffer_room b = buffer_size b - buffer_write_ptr b"

text \<open>The growing branch of \<open>attachsql_buffer_increase\<close> is taken up to half of the buffer read.\<close>

definition buffer_can_grow :: "buffer_st \<Rightarrow> bool" where
  "buffer_can_grow b \<longleftrightarrow> buffer_read_ptr b \<le> buffer_size b - buffer_size b div 2 \<and>
     buffer_size b * 2 < 2 ^ 62"

definition buffer_grow :: "buffer_st \<Rightarrow> buffer_st option" where
  "buffer_grow b = Option.bind (attachsql_buffer_increase True (Some b)) snd"

lemma buffer_ok_has: "buffer_ok b \<Longrightarrow> blk_has (buffer b) (buffer_read_ptr b) (buffer_bytes b)"
  by (auto simp: blk_has_nth buffer_ok_def buffer_bytes_def)

lemma buffer_bytes_length: "length (buffer_bytes b) = buffer_write_ptr b - buffer_read_ptr b"
  by (simp add: buffer_bytes_def)

lemma unread_data_length: "buffer_ok b \<Longrightarrow> attachsql_buffer_unread_data b = length (buffer_bytes b)"
  by (simp add: attachsql_buffer_unread_data_def buffer_ok_def buffer_bytes_length size_sub_le)

lemma buffer_store_ok:
  assumes ok: "buffer_ok b" and fits: "length xs \<le> buffer_room b"
  shows "\<exists>b'. buffer_store xs b = Some b' \<and> buffer_ok b' \<and> buffer_bytes b' = buffer_bytes b @ xs"
proof -
  have sz: "buffer_write_ptr b + length xs \<le> blk_size (buffer b)"
    using ok fits by (auto simp: buffer_ok_def buffer_room_def)
  then obtain mem where w: "blk_write (buffer b) (buffer_write_ptr b) xs = Some mem"
    using blk_write_total by blast
  let ?b' = "attachsql_buffer_move_write_ptr (b\<lparr>buffer := mem\<rparr>) (length xs)"
  have "buffer_ok ?b'" using ok sz
    by (auto simp: buffer_ok_def attachsql_buffer_move_write_ptr_def blk_write_size[OF w]
        blk_write_get[OF w])
  moreover have "buffer_bytes ?b' = buffer_bytes b @ xs"
    using ok by (intro nth_equalityI)
      (auto simp: buffer_bytes_def attachsql_buffer_move_write_ptr_def buffer_ok_def nth_append
        blk_write_get[OF w] add.commute)
  ultimately show ?thesis using w by (simp add: buffer_store_def)
qed

lemma buffer_take_ok:
  assumes ok: "buffer_ok b" and n: "n \<le> length (buffer_bytes b)"
  shows "\<exists>b'. buffer_take n b = Some (take n (buffer_bytes b), b') \<and> buffer_ok b' \<and>
              buffer_bytes b' = drop n (buffer_bytes b)"
proof -
  have "blk_has (buffer b) (buffer_read_ptr b) (take n (buffer_bytes b))"
    using blk_has_sub[OF buffer_ok_has[OF ok], of n 0] by simp
  then have r: "blk_read (buffer b) (buffer_read_ptr b) n = Some (take n (buffer_bytes b))"
    using n by (intro blk_read_has) simp_all
  show ?thesis
  proof (cases "n = length (buffer_bytes b)")
    case True
    then show ?thesis using ok r n
      by (auto simp: buffer_take_def attachsql_buffer_packet_read_end_def buffer_bytes_length
          buffer_ok_def buffer_bytes_def)
  next
    case False
    then show ?thesis using ok r n
      by (auto simp: buffer_take_def attachsql_buffer_packet_read_end_def buffer_bytes_length
          buffer_ok_def buffer_bytes_def drop_map)
  qed
qed

lemma increase_shift_test:
  assumes "buffer_ok b"
  shows "(attachsql_buffer_get_available (Some b) + buffer_used b) mod 2 ^ 64 =
         buffer_size b - buffer_read_ptr b"
proof -
  have "int ((attachsql_buffer_get_available (Some b) + buffer_used b) mod 2 ^ 64) =
        ((int (buffer_size b) - int (buffer_read_ptr b + buffer_used b)) mod 2 ^ 64
           + int (buffer_used b)) mod 2 ^ 64"
    by (simp add: attachsql_buffer_get_available_def size_sub_def zmod_int)
  also have "\<dots> = (int (buffer_size b) - int (buffer_read_ptr b)) mod 2 ^ 64"
    by (simp add: mod_add_left_eq)
  also have "\<dots> = int (buffer_size b - buffer_read_ptr b)"
    using assms by (subst mod_pos_pos_trivial) (auto simp: buffer_ok_def)
  finally show ?thesis by linarith
qed

lemma increase_grows:
  assumes "buffer_ok b" "buffer_read_ptr b \<le> buffer_size b - buffer_size b div 2"
  shows "attachsql_buffer_increase realloc_ok (Some b) =
     (if realloc_ok then
        Some (ATTACHSQL_RET_OK, Some (b\<lparr>buffer_gen := Suc (buffer_gen b),
           buffer := blk_realloc (buffer b) (buffer_size b * 2), buffer_size := buffer_size b * 2,
           packet_end_ptr := Some (case packet_end_ptr b of Some p \<Rightarrow> p | None \<Rightarrow> 0)\<rparr>))
      else Some (ATTACHSQL_RET_OUT_OF_MEMORY_ERROR, Some b))"
proof -
  have "\<not> buffer_size b - buffer_read_ptr b < buffer_size b div 2" using assms(2) by linarith
  then show ?thesis
    using increase_shift_test[OF assms(1)]
    by (simp add: attachsql_buffer_increase_def Let_def)
qed

lemma buffer_grow_ok:
  assumes ok: "buffer_ok b" and can: "buffer_can_grow b"
  shows "\<exists>b'. buffer_grow b = Some b' \<and> buffer_ok b' \<and> buffer_bytes b' = buffer_bytes b"
proof -
  let ?b' = "b\<lparr>buffer_gen := Suc (buffer_gen b), buffer := blk_realloc (buffer b) (buffer_size b * 2),
      buffer_size := buffer_size b * 2,
      packet_end_ptr := Some (case packet_end_ptr b of Some p \<Rightarrow> p | None \<Rightarrow> 0)\<rparr>"
  have "buffer_grow b = Some ?b'"
    using increase_grows[OF ok, of True] can by (simp add: buffer_grow_def buffer_can_grow_def)
  moreover have "buffer_ok ?b'" using ok can
    by (auto simp: buffer_ok_def buffer_can_grow_def blk_realloc_get)
  moreover have "buffer_bytes ?b' = buffer_bytes b" using ok
    by (auto simp: buffer_ok_def buffer_bytes_def blk_realloc_get)
  ultimately show ?thesis by blast
qed

interpretation bq: byte_queue buffer_bytes buffer_ok buffer_room buffer_store buffer_take buffer_grow
  buffer_can_grow
  by unfold_locales (fact buffer_store_ok buffer_take_ok buffer_grow_ok)+

lemma buffer_create_ok: "attachsql_buffer_create True True = Some b \<Longrightarrow> buffer_ok b \<and> buffer_bytes b = []"
  by (auto simp: attachsql_buffer_create_def buffer_ok_def buffer_bytes_def)

section \<open>Properties\<close>

text \<open>
  C24. Bytes leave a new buffer in the order they were stored in it, none lost or repeated,
  whatever the interleaving of stores, takes and growing steps that each fit.
\<close>

theorem buffer_fifo:
  assumes "attachsql_buffer_create True True = Some b" "bq.run ops b = Some (out, b')"
  shows "bq.stored ops = out @ buffer_bytes b' \<and> buffer_ok b'"
  using bq.run_fifo[OF _ assms(2)] buffer_create_ok[OF assms(1)] by simp

theorem buffer_fifo_witness:
  "\<exists>b out b'. attachsql_buffer_create True True = Some b \<and>
     bq.run [Store [1, 2, 3], Take 2, Take 1] b = Some (out, b') \<and>
     [1, 2, 3] = out @ buffer_bytes b' \<and> length out = 3"
proof -
  let ?ops = "[Store [1, 2, 3], Take 2, Take 1]"
  obtain b where b: "attachsql_buffer_create True True = Some b"
    by (auto simp: attachsql_buffer_create_def)
  then have i: "buffer_ok b" "buffer_bytes b = []" "3 \<le> buffer_room b"
    using buffer_create_ok by (auto simp: attachsql_buffer_create_def buffer_room_def)
  obtain b1 where 1: "buffer_store [1, 2, 3] b = Some b1" "buffer_ok b1" "buffer_bytes b1 = [1, 2, 3]"
    using buffer_store_ok[OF i(1), of "[1, 2, 3]"] i by auto
  obtain b2 where 2: "buffer_take 2 b1 = Some ([1, 2], b2)" "buffer_ok b2" "buffer_bytes b2 = [3]"
    using buffer_take_ok[OF 1(2), of 2] 1(3) by (auto simp: numeral_2_eq_2)
  obtain b3 where 3: "buffer_take 1 b2 = Some ([3], b3)"
    using buffer_take_ok[OF 2(2), of 1] 2(3) by auto
  have r: "bq.run ?ops b = Some ([1, 2, 3], b3)" using i 1 2 3 by simp
  then show ?thesis using b buffer_fifo[OF b r] by simp
qed

text \<open>
  C38. Once more than half of the buffer has been read, \<open>attachsql_buffer_increase\<close> moves
  \<open>buffer_used\<close> bytes from the read pointer, which by then is more than the buffer holds: the
  call always reads past the end of the allocation.
\<close>

theorem buffer_increase_shift_overruns:
  assumes ok: "buffer_ok b" and half: "buffer_size b - buffer_size b div 2 < buffer_read_ptr b"
  shows "attachsql_buffer_increase realloc_ok (Some b) = None"
proof -
  have lt: "buffer_size b - buffer_read_ptr b < buffer_size b div 2"
    using ok half by (auto simp: buffer_ok_def)
  have "\<not> buffer_read_ptr b + buffer_used b \<le> blk_size (buffer b)"
    using ok half by (auto simp: buffer_ok_def)
  then show ?thesis using lt increase_shift_test[OF ok]
    by (simp add: attachsql_buffer_increase_def blk_move_def)
qed

definition half_read :: buffer_st where
  "half_read = \<lparr>buffer_gen = 0, buffer = blk_of [1, 2, 3, 4, 5, 6, 7, 8], buffer_size = 8,
     buffer_used = 6, buffer_write_ptr = 6, buffer_read_ptr = 5, packet_end_ptr = Some 5\<rparr>"

lemma half_read_ok: "buffer_ok half_read"
  by (auto simp: buffer_ok_def half_read_def blk_of_get)

theorem buffer_increase_shift_overruns_witness:
  "attachsql_buffer_increase True (Some half_read) = None"
  by (rule buffer_increase_shift_overruns[OF half_read_ok]) (simp add: half_read_def)

text \<open>
  C39. The space reported by \<open>attachsql_buffer_get_available\<close> fits behind the write pointer as
  long as the read and write offsets together are within the buffer; from there on it wraps
  around and exceeds the whole buffer.
\<close>

theorem buffer_available_bound:
  assumes ok: "buffer_ok b"
  shows "if buffer_read_ptr b + buffer_write_ptr b \<le> buffer_size b
         then buffer_write_ptr b + attachsql_buffer_get_available (Some b) \<le> buffer_size b
         else buffer_size b < attachsql_buffer_get_available (Some b)"
  using ok by (auto simp: buffer_ok_def attachsql_buffer_get_available_def size_sub_le size_sub_wraps)

theorem buffer_available_bound_witness:
  "8 < attachsql_buffer_get_available (Some half_read)"
  using buffer_available_bound[OF half_read_ok] by (simp add: half_read_def)

end
