(* ===== verification/Pack.thy ===== *)
theory Pack
  imports Ctypes
begin

text \<open>
  \<open>src/pack_macros.h\<close> and \<open>src/pack.cc\<close>: the wire encoding of integers, length-encoded
  numbers and strings, dates and times. A \<open>char *buffer\<close> is a block and an offset; a routine
  that returns the advanced pointer returns the new block and the new offset. The abstract
  encodings (\<open>enc_...\<close>) say which bytes a value is on the wire; the locale \<open>block_codec\<close>
  states what a packing and an unpacking routine owe to such an encoding, and is interpreted
  for each pair of routines.
\<close>

section \<open>Fixed-width integers: src/pack_macros.h\<close>

definition attachsql_pack_int2 :: "block \<Rightarrow> nat \<Rightarrow> 'a::len word \<Rightarrow> block option" where
  "attachsql_pack_int2 b p v =
     do { b \<leftarrow> blk_put b p (ucast (v AND 0xFF));
          blk_put b (p + 1) (ucast (drop_bit 8 v AND 0xFF)) }"

definition attachsql_pack_int3 :: "block \<Rightarrow> nat \<Rightarrow> 'a::len word \<Rightarrow> block option" where
  "attachsql_pack_int3 b p v =
     do { b \<leftarrow> blk_put b p (ucast (v AND 0xFF));
          b \<leftarrow> blk_put b (p + 1) (ucast (drop_bit 8 v AND 0xFF));
          blk_put b (p + 2) (ucast (drop_bit 16 v AND 0xFF)) }"

definition attachsql_pack_int4 :: "block \<Rightarrow> nat \<Rightarrow> 'a::len word \<Rightarrow> block option" where
  "attachsql_pack_int4 b p v =
     do { b \<leftarrow> blk_put b p (ucast (v AND 0xFF));
          b \<leftarrow> blk_put b (p + 1) (ucast (drop_bit 8 v AND 0xFF));
          b \<leftarrow> blk_put b (p + 2) (ucast (drop_bit 16 v AND 0xFF));
          blk_put b (p + 3) (ucast (drop_bit 24 v AND 0xFF)) }"

definition attachsql_pack_int8 :: "block \<Rightarrow> nat \<Rightarrow> 'a::len word \<Rightarrow> block option" where
  "attachsql_pack_int8 b p v =
     do { b \<leftarrow> blk_put b p (ucast (v AND 0xFF));
          b \<leftarrow> blk_put b (p + 1) (ucast (drop_bit 8 v AND 0xFF));
          b \<leftarrow> blk_put b (p + 2) (ucast (drop_bit 16 v AND 0xFF));
          b \<leftarrow> blk_put b (p + 3) (ucast (drop_bit 24 v AND 0xFF));
          b \<leftarrow> blk_put b (p + 4) (ucast (drop_bit 32 v AND 0xFF));
          b \<leftarrow> blk_put b (p + 5) (ucast (drop_bit 40 v AND 0xFF));
          b \<leftarrow> blk_put b (p + 6) (ucast (drop_bit 48 v AND 0xFF));
          blk_put b (p + 7) (ucast (drop_bit 56 v AND 0xFF)) }"

definition attachsql_unpack_int2 :: "block \<Rightarrow> nat \<Rightarrow> uint16 option" where
  "attachsql_unpack_int2 b p =
     do { x0 \<leftarrow> blk_get b p; x1 \<leftarrow> blk_get b (p + 1);
          Some (ucast x0 OR push_bit 8 (ucast x1)) }"

definition attachsql_unpack_int3 :: "block \<Rightarrow> nat \<Rightarrow> uint32 option" where
  "attachsql_unpack_int3 b p =
     do { x0 \<leftarrow> blk_get b p; x1 \<leftarrow> blk_get b (p + 1); x2 \<leftarrow> blk_get b (p + 2);
          Some (ucast x0 OR push_bit 8 (ucast x1) OR push_bit 16 (ucast x2)) }"

definition attachsql_unpack_int4 :: "block \<Rightarrow> nat \<Rightarrow> uint32 option" where
  "attachsql_unpack_int4 b p =
     do { x0 \<leftarrow> blk_get b p; x1 \<leftarrow> blk_get b (p + 1);
          x2 \<leftarrow> blk_get b (p + 2); x3 \<leftarrow> blk_get b (p + 3);
          Some (ucast x0 OR push_bit 8 (ucast x1) OR push_bit 16 (ucast x2)
                OR push_bit 24 (ucast x3)) }"

definition attachsql_unpack_int8 :: "block \<Rightarrow> nat \<Rightarrow> uint64 option" where
  "attachsql_unpack_int8 b p =
     do { lo \<leftarrow> attachsql_unpack_int4 b p; hi \<leftarrow> attachsql_unpack_int4 b (p + 4);
          Some (ucast lo OR push_bit 32 (ucast hi)) }"

section \<open>Length-encoded numbers and data: src/pack.cc\<close>

text \<open>
  \<open>attachsql_unpack_length(buffer, bytes, status)\<close>: the value, what is stored through
  \<open>bytes\<close> (nothing when the arguments are rejected) and through \<open>status\<close>. The one-byte form
  returns \<open>(uint64_t) buffer[0]\<close>, a signed \<open>char\<close> widened to 64 bits.
\<close>

definition attachsql_unpack_length ::
  "(block \<times> nat) option \<Rightarrow> bool \<Rightarrow> (uint64 \<times> nat option \<times> attachsql_pack_status_t) option" where
  "attachsql_unpack_length buffer bytes =
     (case buffer of
        None \<Rightarrow> Some (0, None, ATTACHSQL_PACK_INVALID_ARGUMENT)
      | Some (b, p) \<Rightarrow>
          if \<not> bytes then Some (0, None, ATTACHSQL_PACK_INVALID_ARGUMENT)
          else do {
            c \<leftarrow> blk_get b p;
            if c < 0xfb then Some (scast c, Some 1, ATTACHSQL_PACK_OK)
            else if c = 0xfb then Some (0, Some 1, ATTACHSQL_PACK_NULL)
            else if c = 0xfc then
              do { v \<leftarrow> attachsql_unpack_int2 b (p + 1); Some (ucast v, Some 3, ATTACHSQL_PACK_OK) }
            else if c = 0xfd then
              do { v \<leftarrow> attachsql_unpack_int3 b (p + 1); Some (ucast v, Some 4, ATTACHSQL_PACK_OK) }
            else
              do { v \<leftarrow> attachsql_unpack_int8 b (p + 1); Some (v, Some 9, ATTACHSQL_PACK_OK) } })"

text \<open>The calls \<open>attachsql_unpack_length(ptr, &bytes, NULL)\<close> of the library.\<close>

definition unpack_length_at :: "block \<Rightarrow> nat \<Rightarrow> (uint64 \<times> nat) option" where
  "unpack_length_at b p =
     (case attachsql_unpack_length (Some (b, p)) True of
        Some (v, Some n, _) \<Rightarrow> Some (v, n) | _ \<Rightarrow> None)"

definition attachsql_pack_length :: "block \<Rightarrow> nat \<Rightarrow> uint64 \<Rightarrow> (block \<times> nat) option" where
  "attachsql_pack_length b p len =
     (if len \<le> 0xfa then do { b \<leftarrow> blk_put b p (ucast len); Some (b, p + 1) }
      else if len \<le> 0xffff then
        do { b \<leftarrow> blk_put b p 0xfc; b \<leftarrow> attachsql_pack_int2 b (p + 1) len; Some (b, p + 3) }
      else if len \<le> 0xffffff then
        do { b \<leftarrow> blk_put b p 0xfd; b \<leftarrow> attachsql_pack_int3 b (p + 1) len; Some (b, p + 4) }
      else
        do { b \<leftarrow> blk_put b p 0xfe; b \<leftarrow> attachsql_pack_int8 b (p + 1) len; Some (b, p + 9) })"

text \<open>\<open>data\<close> is the object the caller's pointer is the start of; reading past it is a fault.\<close>

definition attachsql_pack_data :: "block \<Rightarrow> nat \<Rightarrow> uint64 \<Rightarrow> byte list \<Rightarrow> (block \<times> nat) option" where
  "attachsql_pack_data b p len data =
     do { (b, p) \<leftarrow> attachsql_pack_length b p len;
          if 0 < len then
            (if unat len \<le> length data
             then do { b \<leftarrow> blk_write b p (take (unat len) data); Some (b, p + unat len) }
             else None)
          else Some (b, p) }"

section \<open>Dates and times: src/pack.cc\<close>

record attachsql_datetime_st =
  year :: uint16
  month :: byte
  day :: uint32
  hour :: byte
  minute :: byte
  second :: byte
  microsecond :: uint32
  is_negative :: bool

definition datetime_init :: attachsql_datetime_st where
  "datetime_init = \<lparr>year = 0, month = 0, day = 0, hour = 0, minute = 0, second = 0,
                    microsecond = 0, is_negative = False\<rparr>"

definition attachsql_pack_datetime ::
  "block \<Rightarrow> nat \<Rightarrow> attachsql_datetime_st \<Rightarrow> bool \<Rightarrow> (block \<times> nat) option" where
  "attachsql_pack_datetime b p dt date_only =
     do { (b, len) \<leftarrow>
            (if \<not> date_only then
               do { (b, len) \<leftarrow>
                      (if 0 < microsecond dt then
                         do { b \<leftarrow> attachsql_pack_int4 b (p + 8) (microsecond dt); Some (b, 11) }
                       else Some (b, 0::nat));
                    if 0 < len \<or> 0 < hour dt \<or> 0 < minute dt \<or> 0 < second dt then
                      do { b \<leftarrow> blk_put b (p + 5) (hour dt);
                           b \<leftarrow> blk_put b (p + 6) (minute dt);
                           b \<leftarrow> blk_put b (p + 7) (second dt);
                           Some (b, if len = 0 then 7 else len) }
                    else Some (b, len) }
             else Some (b, 0));
          (b, len) \<leftarrow>
            (if 0 < len \<or> 0 < year dt \<or> 0 < month dt \<or> 0 < day dt then
               do { b \<leftarrow> attachsql_pack_int2 b (p + 1) (year dt);
                    b \<leftarrow> blk_put b (p + 3) (month dt);
                    b \<leftarrow> blk_put b (p + 4) (ucast (day dt));
                    Some (b, if len = 0 then 4 else len) }
             else Some (b, len));
          b \<leftarrow> blk_put b p (of_nat len);
          Some (b, p + len + 1) }"

definition attachsql_unpack_datetime ::
  "block \<Rightarrow> nat \<Rightarrow> nat \<Rightarrow> attachsql_datetime_st \<Rightarrow> attachsql_datetime_st option" where
  "attachsql_unpack_datetime b p len dt =
     (if len \<noteq> 0 then
        do { y \<leftarrow> attachsql_unpack_int2 b p;
             mo \<leftarrow> blk_get b (p + 2);
             d \<leftarrow> blk_get b (p + 3);
             let dt = dt\<lparr>is_negative := False, year := y, month := mo, day := scast d\<rparr>;
             if 4 < len then
               do { h \<leftarrow> blk_get b (p + 4);
                    mi \<leftarrow> blk_get b (p + 5);
                    se \<leftarrow> blk_get b (p + 6);
                    let dt = dt\<lparr>hour := h, minute := mi, second := se\<rparr>;
                    if 7 < len then
                      do { us \<leftarrow> attachsql_unpack_int4 b (p + 7); Some (dt\<lparr>microsecond := us\<rparr>) }
                    else Some dt }
             else Some dt }
      else Some dt)"

definition attachsql_unpack_time ::
  "block \<Rightarrow> nat \<Rightarrow> nat \<Rightarrow> attachsql_datetime_st \<Rightarrow> attachsql_datetime_st option" where
  "attachsql_unpack_time b p len dt =
     (if len \<noteq> 0 then
        do { ng \<leftarrow> blk_get b p;
             d \<leftarrow> attachsql_unpack_int4 b (p + 1);
             h \<leftarrow> blk_get b (p + 5);
             mi \<leftarrow> blk_get b (p + 6);
             se \<leftarrow> blk_get b (p + 7);
             let dt = dt\<lparr>is_negative := ng \<noteq> 0, day := d, hour := h, minute := mi, second := se\<rparr>;
             if 8 < len then
               do { us \<leftarrow> attachsql_unpack_int4 b (p + 8); Some (dt\<lparr>microsecond := us\<rparr>) }
             else Some dt }
      else Some dt)"

definition attachsql_pack_time ::
  "block \<Rightarrow> nat \<Rightarrow> attachsql_datetime_st \<Rightarrow> (block \<times> nat) option" where
  "attachsql_pack_time b p t =
     do { (b, len) \<leftarrow>
            (if 0 < microsecond t then
               do { b \<leftarrow> attachsql_pack_int4 b (p + 9) (microsecond t); Some (b, 12) }
             else Some (b, 0::nat));
          (b, len) \<leftarrow>
            (if 0 < len \<or> 0 < day t \<or> 0 < minute t \<or> 0 < second t then
               do { b \<leftarrow> blk_put b (p + 1) (if is_negative t then 1 else 0);
                    b \<leftarrow> attachsql_pack_int4 b (p + 2) (day t);
                    b \<leftarrow> blk_put b (p + 6) (hour t);
                    b \<leftarrow> blk_put b (p + 7) (minute t);
                    b \<leftarrow> blk_put b (p + 8) (second t);
                    Some (b, if len = 0 then 8 else len) }
             else Some (b, len));
          b \<leftarrow> blk_put b p (of_nat len);
          Some (b, p + len + 1) }"

section \<open>What the macros store and read\<close>

named_theorems pack_eqs \<open>a packing routine as one write\<close>

lemma pack_int2_eq [pack_eqs]: "attachsql_pack_int2 b p v = blk_write b p (le_bytes 2 v)"
  by (simp add: attachsql_pack_int2_def le_bytes_2)

lemma pack_int3_eq [pack_eqs]: "attachsql_pack_int3 b p v = blk_write b p (le_bytes 3 v)"
  by (simp add: attachsql_pack_int3_def le_bytes_3 numeral_2_eq_2)

lemma pack_int4_eq [pack_eqs]: "attachsql_pack_int4 b p v = blk_write b p (le_bytes 4 v)"
  by (simp add: attachsql_pack_int4_def le_bytes_4 numeral_2_eq_2 numeral_3_eq_3)

lemma pack_int8_eq [pack_eqs]: "attachsql_pack_int8 b p v = blk_write b p (le_bytes 8 v)"
  by (simp add: attachsql_pack_int8_def le_bytes_8 eval_nat_numeral)

lemma unpack_int2_has: "blk_has b p [x0, x1] \<Longrightarrow> attachsql_unpack_int2 b p = Some (le_word [x0, x1])"
  by (simp add: attachsql_unpack_int2_def)

lemma unpack_int3_has:
  "blk_has b p [x0, x1, x2] \<Longrightarrow> attachsql_unpack_int3 b p = Some (le_word [x0, x1, x2])"
  by (simp add: attachsql_unpack_int3_def push_bit_or push_bit_push_bit or.assoc numeral_2_eq_2)

lemma unpack_int4_has:
  "blk_has b p [x0, x1, x2, x3] \<Longrightarrow> attachsql_unpack_int4 b p = Some (le_word [x0, x1, x2, x3])"
  by (simp add: attachsql_unpack_int4_def push_bit_or push_bit_push_bit or.assoc numeral_2_eq_2
      numeral_3_eq_3)

lemma unpack_int2_le: "blk_has b p (le_bytes 2 v) \<Longrightarrow> attachsql_unpack_int2 b p = Some (v :: uint16)"
  using unpack_int2_has[of b p] le_word_le_bytes_full[of 2 v] by (simp add: le_bytes_2)

lemma unpack_int3_le: "blk_has b p (le_bytes 3 v) \<Longrightarrow> attachsql_unpack_int3 b p = Some (ucast (take_bit 24 v))"
  using unpack_int3_has[of b p] le_word_le_bytes_ucast[of 3 v] by (simp add: le_bytes_3)

lemma unpack_int4_le: "blk_has b p (le_bytes 4 v) \<Longrightarrow> attachsql_unpack_int4 b p = Some (v :: uint32)"
  using unpack_int4_has[of b p] le_word_le_bytes_full[of 4 v] by (simp add: le_bytes_4)

lemma unpack_int8_le:
  assumes "blk_has b p (le_bytes 8 v)"
  shows "attachsql_unpack_int8 b p = Some (v :: uint64)"
proof -
  let ?lo = "ucast v :: uint32" and ?hi = "ucast (drop_bit 32 v) :: uint32"
  have "le_bytes 8 v = le_bytes 4 ?lo @ le_bytes 4 ?hi"
    by (auto simp: le_bytes_8 le_bytes_4 drop_bit_drop_bit intro!: bit_word_eqI simp: bit_simps)
  then have "blk_has b p (le_bytes 4 ?lo)" "blk_has b (p + 4) (le_bytes 4 ?hi)"
    using assms by (simp_all add: blk_has_append)
  then have "attachsql_unpack_int4 b p = Some ?lo" "attachsql_unpack_int4 b (p + 4) = Some ?hi"
    by (simp_all add: unpack_int4_le)
  then have "attachsql_unpack_int8 b p = Some (ucast ?lo OR push_bit 32 (ucast ?hi))"
    by (simp add: attachsql_unpack_int8_def)
  also have "ucast ?lo OR push_bit 32 (ucast ?hi) = v"
    by (rule bit_word_eqI) (auto simp: bit_simps)
  finally show ?thesis .
qed

section \<open>The contract of a pair of packing routines\<close>

text \<open>
  \<open>enc\<close> gives the bytes of a value on the wire. Packing stores exactly these bytes, fails only
  when they do not fit, and returns the offset after them; unpacking them gives the value back,
  for the values \<open>good\<close> holds of, and the number of bytes taken.
\<close>

locale block_codec =
  fixes enc :: "'a \<Rightarrow> byte list"
    and pack :: "block \<Rightarrow> nat \<Rightarrow> 'a \<Rightarrow> (block \<times> nat) option"
    and unpack :: "block \<Rightarrow> nat \<Rightarrow> ('a \<times> nat) option"
    and good :: "'a \<Rightarrow> bool"
  assumes pack_writes:
      "pack b p x = Some (b', q) \<Longrightarrow> writes_at b p (enc x) b' \<and> q = p + length (enc x)"
    and pack_total: "p + length (enc x) \<le> blk_size b \<Longrightarrow> pack b p x \<noteq> None"
    and unpack_enc:
      "good x \<Longrightarrow> blk_has b p (enc x) \<Longrightarrow> unpack b p = Some (x, length (enc x))"
begin

lemma roundtrip:
  assumes "good x" "pack b p x = Some (b', q)"
  shows "unpack b' p = Some (x, q - p)"
  using pack_writes[OF assms(2)] unpack_enc[OF assms(1)] writes_at_has by fastforce

text \<open>A value packed earlier survives what is packed behind it.\<close>

lemma roundtrip_behind:
  assumes "good x" "pack b p x = Some (b1, q)" "pack b1 q y = Some (b2, r)"
  shows "unpack b2 p = Some (x, q - p)"
proof -
  have "blk_has b1 p (enc x)" "q = p + length (enc x)"
    using pack_writes[OF assms(2)] writes_at_has by blast+
  moreover from this have "blk_has b2 p (enc x)"
    using pack_writes[OF assms(3)] writes_at_frame[of b1 q "enc y" b2 p "enc x"] by auto
  ultimately show ?thesis using unpack_enc[OF assms(1)] by simp
qed

text \<open>The encoding is uniquely decodable: no encoding is a prefix of another one.\<close>

lemma prefix_free:
  assumes "good x" "good y" "enc x @ r = enc y @ s"
  shows "x = y \<and> r = s"
proof -
  have "blk_has (blk_of (enc x @ r)) 0 (enc x)" "blk_has (blk_of (enc y @ s)) 0 (enc y)"
    using blk_of_has blk_has_append by blast+
  then have "unpack (blk_of (enc x @ r)) 0 = Some (x, length (enc x))"
    "unpack (blk_of (enc y @ s)) 0 = Some (y, length (enc y))"
    using assms unpack_enc by blast+
  with assms(3) show ?thesis by simp
qed

lemma frame:
  assumes "pack b p x = Some (b', q)" "i < p \<or> q \<le> i"
  shows "blk_get b' i = blk_get b i"
  using pack_writes[OF assms(1)] assms(2) by (auto simp: writes_at_get)

end

section \<open>Integers and length-encoded numbers meet the contract\<close>

definition pack_int2_at :: "block \<Rightarrow> nat \<Rightarrow> uint16 \<Rightarrow> (block \<times> nat) option" where
  "pack_int2_at b p v = map_option (\<lambda>b'. (b', p + 2)) (attachsql_pack_int2 b p v)"

definition pack_int3_at :: "block \<Rightarrow> nat \<Rightarrow> uint32 \<Rightarrow> (block \<times> nat) option" where
  "pack_int3_at b p v = map_option (\<lambda>b'. (b', p + 3)) (attachsql_pack_int3 b p v)"

definition pack_int4_at :: "block \<Rightarrow> nat \<Rightarrow> uint32 \<Rightarrow> (block \<times> nat) option" where
  "pack_int4_at b p v = map_option (\<lambda>b'. (b', p + 4)) (attachsql_pack_int4 b p v)"

definition pack_int8_at :: "block \<Rightarrow> nat \<Rightarrow> uint64 \<Rightarrow> (block \<times> nat) option" where
  "pack_int8_at b p v = map_option (\<lambda>b'. (b', p + 8)) (attachsql_pack_int8 b p v)"

interpretation int2: block_codec "le_bytes 2" pack_int2_at
  "\<lambda>b p. map_option (\<lambda>v. (v, 2)) (attachsql_unpack_int2 b p)" "\<lambda>_. True"
  by unfold_locales
    (auto simp: pack_int2_at_def pack_eqs unpack_int2_le blk_write_writes_at intro!: blk_write_total)

interpretation int4: block_codec "le_bytes 4" pack_int4_at
  "\<lambda>b p. map_option (\<lambda>v. (v, 4)) (attachsql_unpack_int4 b p)" "\<lambda>_. True"
  by unfold_locales
    (auto simp: pack_int4_at_def pack_eqs unpack_int4_le blk_write_writes_at intro!: blk_write_total)

interpretation int8: block_codec "le_bytes 8" pack_int8_at
  "\<lambda>b p. map_option (\<lambda>v. (v, 8)) (attachsql_unpack_int8 b p)" "\<lambda>_. True"
  by unfold_locales
    (auto simp: pack_int8_at_def pack_eqs unpack_int8_le blk_write_writes_at intro!: blk_write_total)

lemma take_bit_small: "v < 2 ^ n \<Longrightarrow> n < LENGTH('a) \<Longrightarrow> take_bit n v = (v :: 'a::len word)"
  by (simp add: less_mask_eq take_bit_eq_mask)

interpretation int3: block_codec "le_bytes 3" pack_int3_at
  "\<lambda>b p. map_option (\<lambda>v. (v, 3)) (attachsql_unpack_int3 b p)" "\<lambda>v. v < 2 ^ 24"
  by unfold_locales
    (auto simp: pack_int3_at_def pack_eqs blk_write_writes_at unpack_int3_le take_bit_small
      intro!: blk_write_total)

definition enc_length :: "uint64 \<Rightarrow> byte list" where
  "enc_length len =
     (if len \<le> 0xfa then [ucast len]
      else if len \<le> 0xffff then 0xfc # le_bytes 2 len
      else if len \<le> 0xffffff then 0xfd # le_bytes 3 len
      else 0xfe # le_bytes 8 len)"

text \<open>The numbers that \<open>attachsql_unpack_length\<close> reads back unchanged.\<close>

definition len_good :: "uint64 \<Rightarrow> bool" where
  "len_good len \<longleftrightarrow> len < 0x80 \<or> 0xfa < len"

lemma le_bytes_ucast: "8 * n \<le> LENGTH('b) \<Longrightarrow> le_bytes n v = le_bytes n (ucast (v :: 'a::len word) :: 'b::len word)"
  by (auto intro!: nth_equalityI bit_word_eqI simp: le_bytes_nth bit_simps)

lemma pack_length_write:
  "attachsql_pack_length b p len =
     map_option (\<lambda>b'. (b', p + length (enc_length len))) (blk_write b p (enc_length len))"
  by (auto simp: attachsql_pack_length_def enc_length_def pack_eqs split: bind_splits option.splits)

lemma scast_low_byte:
  assumes "len < 0x80" shows "scast (ucast len :: byte) = (len :: uint64)"
proof -
  have "len = take_bit 7 len" using assms take_bit_small[of len 7] by simp
  then obtain v where v: "len = take_bit 7 v" by blast
  show ?thesis unfolding v by (rule bit_word_eqI) (auto simp: bit_simps)
qed

lemma ucast_below:
  assumes "len \<le> (0xfa :: uint64)" shows "ucast len < (0xfb :: byte)"
  using assms by (simp add: word_less_nat_alt word_le_nat_alt unsigned_ucast_eq take_bit_nat_eq_self)

lemma unpack_enc_length_byte:
  assumes "len \<le> 0xfa" "blk_has b p (enc_length len)"
  shows "unpack_length_at b p = Some (scast (ucast len :: byte), 1)"
  using assms ucast_below[OF assms(1)]
  by (simp add: unpack_length_at_def attachsql_unpack_length_def enc_length_def)

lemma unpack_enc_length:
  assumes good: "len_good len" and has: "blk_has b p (enc_length len)"
  shows "unpack_length_at b p = Some (len, length (enc_length len))"
proof -
  consider (b1) "len < 0x80" | (b2) "0xfa < len" "len \<le> 0xffff"
    | (b3) "0xffff < len" "len \<le> 0xffffff" | (b8) "0xffffff < len"
    using good unfolding len_good_def by fastforce
  then show ?thesis
  proof cases
    case b1
    then have "len \<le> 0xfa" by (simp add: word_le_nat_alt word_less_nat_alt)
    then show ?thesis using unpack_enc_length_byte[OF _ has] scast_low_byte[OF b1]
      by (simp add: enc_length_def)
  next
    case b2
    then have "take_bit 16 len = len" using take_bit_small[of len 16]
      by (simp add: word_le_nat_alt word_less_nat_alt)
    moreover have "le_bytes 2 len = le_bytes 2 (ucast len :: uint16)" by (rule le_bytes_ucast) simp
    moreover have "ucast (ucast len :: uint16) = take_bit 16 len"
      by (auto intro!: bit_word_eqI simp: bit_simps)
    moreover have "\<not> len \<le> 0xfa" using b2 by simp
    ultimately have has': "blk_has b p (0xfc # le_bytes 2 (ucast len :: uint16))"
      and cast: "ucast (ucast len :: uint16) = len"
      using b2 has by (simp_all add: enc_length_def)
    have "attachsql_unpack_int2 b (Suc p) = Some (ucast len)"
      by (rule unpack_int2_le) (use has' in simp)
    then show ?thesis using b2 \<open>\<not> len \<le> 0xfa\<close> has' cast
      by (simp add: unpack_length_at_def attachsql_unpack_length_def enc_length_def)
  next
    case b3
    then have "take_bit 24 len = len" using take_bit_small[of len 24]
      by (simp add: word_le_nat_alt word_less_nat_alt)
    moreover have "ucast (ucast (take_bit 24 len) :: uint32) = take_bit 24 len"
      by (auto intro!: bit_word_eqI simp: bit_simps)
    moreover have "\<not> len \<le> 0xffff" "\<not> len \<le> 0xfa" using b3
      by (simp_all add: word_le_nat_alt word_less_nat_alt)
    ultimately show ?thesis using b3 has unpack_int3_le[of b "Suc p" len]
      by (simp add: unpack_length_at_def attachsql_unpack_length_def enc_length_def)
  next
    case b8
    then have big: "\<not> len \<le> 0xffffff" "\<not> len \<le> 0xffff" "\<not> len \<le> 0xfa"
      by (simp_all add: word_le_nat_alt word_less_nat_alt)
    then have "blk_has b p (0xfe # le_bytes 8 len)" using has by (simp add: enc_length_def)
    then show ?thesis using big unpack_int8_le[of b "Suc p" len]
      by (simp add: unpack_length_at_def attachsql_unpack_length_def enc_length_def)
  qed
qed

interpretation lenc: block_codec enc_length attachsql_pack_length unpack_length_at len_good
  by unfold_locales
    (auto simp: pack_length_write unpack_enc_length blk_write_writes_at intro!: blk_write_total)

text \<open>A byte count followed by that many bytes of data.\<close>

definition enc_data :: "byte list \<Rightarrow> byte list" where
  "enc_data xs = enc_length (of_nat (length xs)) @ xs"

lemma pack_data_writes:
  assumes "attachsql_pack_data b p len data = Some (b', q)"
  shows "writes_at b p (enc_length len @ take (unat len) data) b' \<and>
         q = p + length (enc_length len) + unat len \<and> unat len \<le> length data"
proof -
  from assms obtain b1 p1 where 1: "attachsql_pack_length b p len = Some (b1, p1)"
    and 2: "(if 0 < len then (if unat len \<le> length data
        then do { b \<leftarrow> blk_write b1 p1 (take (unat len) data); Some (b, p1 + unat len) } else None)
       else Some (b1, p1)) = Some (b', q)"
    by (auto simp: attachsql_pack_data_def elim!: bind_SomeE)
  note w1 = lenc.pack_writes[OF 1]
  show ?thesis
  proof (cases "0 < len")
    case True
    with 2 have "blk_write b1 p1 (take (unat len) data) = Some b'" "q = p1 + unat len"
      "unat len \<le> length data"
      by (auto split: if_splits elim!: bind_SomeE)
    with w1 show ?thesis using writes_at_append blk_write_writes_at by fastforce
  next
    case False
    then have "len = 0" by (simp flip: word_neq_0_conv)
    then show ?thesis using 2 w1 by auto
  qed
qed

section \<open>Dates and times meet the contract\<close>

definition enc_datetime :: "bool \<Rightarrow> attachsql_datetime_st \<Rightarrow> byte list" where
  "enc_datetime date_only dt =
     (if \<not> date_only \<and> 0 < microsecond dt then
        11 # le_bytes 2 (year dt) @ [month dt, ucast (day dt)] @ [hour dt, minute dt, second dt]
           @ le_bytes 4 (microsecond dt)
      else if \<not> date_only \<and> (0 < hour dt \<or> 0 < minute dt \<or> 0 < second dt) then
        7 # le_bytes 2 (year dt) @ [month dt, ucast (day dt)] @ [hour dt, minute dt, second dt]
      else if 0 < year dt \<or> 0 < month dt \<or> 0 < day dt then
        4 # le_bytes 2 (year dt) @ [month dt, ucast (day dt)]
      else [0])"

definition enc_time :: "attachsql_datetime_st \<Rightarrow> byte list" where
  "enc_time t =
     (let body = [if is_negative t then 1 else 0] @ le_bytes 4 (day t) @ [hour t, minute t, second t]
      in if 0 < microsecond t then 12 # body @ le_bytes 4 (microsecond t)
         else if 0 < day t \<or> 0 < minute t \<or> 0 < second t then 8 # body
         else [0])"

lemmas put_intros = blk_put_writes_at blk_write_writes_at

lemma writes_at_prepend':
  "writes_at b r ys b1 \<Longrightarrow> writes_at b1 p xs b2 \<Longrightarrow> r = p + length xs \<Longrightarrow> writes_at b p (xs @ ys) b2"
  by (simp add: writes_at_prepend)

lemma writes_at_append':
  "writes_at b p xs b1 \<Longrightarrow> writes_at b1 r ys b2 \<Longrightarrow> r = p + length xs \<Longrightarrow> writes_at b p (xs @ ys) b2"
  by (simp add: writes_at_append)

lemma put3_writes:
  assumes "blk_put b p x = Some b1" "blk_put b1 p1 y = Some b2" "blk_put b2 p2 z = Some b3"
    and "p1 = p + 1" "p2 = p + 2"
  shows "writes_at b p [x, y, z] b3"
proof -
  have "writes_at b p ([x] @ [y]) b2"
    by (rule writes_at_append'[OF put_intros(1)[OF assms(1)] put_intros(1)[OF assms(2)]]) (simp add: assms)
  from writes_at_append'[OF this put_intros(1)[OF assms(3)]] show ?thesis by (simp add: assms)
qed

lemma date_part_writes:
  assumes "attachsql_pack_int2 b (p + 1) y = Some b1" "blk_put b1 (p + 3) m = Some b2"
    "blk_put b2 (p + 4) d = Some b3" "blk_put b3 p n = Some b4"
  shows "writes_at b p (n # le_bytes 2 y @ [m, d]) b4"
proof -
  have "writes_at b (p + 1) (le_bytes 2 y @ [m]) b2"
    by (rule writes_at_append'[OF put_intros(2) put_intros(1)[OF assms(2)]])
      (use assms(1) in \<open>simp_all add: pack_eqs\<close>)
  from writes_at_append'[OF this put_intros(1)[OF assms(3)]]
  have "writes_at b (p + 1) ((le_bytes 2 y @ [m]) @ [d]) b3" by simp
  from writes_at_prepend'[OF this put_intros(1)[OF assms(4)]] show ?thesis by simp
qed

lemma pack_datetime_writes:
  assumes "attachsql_pack_datetime b p dt date_only = Some (b', q)"
  shows "writes_at b p (enc_datetime date_only dt) b' \<and> q = p + length (enc_datetime date_only dt)"
proof -
  consider (us) "\<not> date_only" "0 < microsecond dt"
    | (hms) "\<not> date_only" "\<not> 0 < microsecond dt" "0 < hour dt \<or> 0 < minute dt \<or> 0 < second dt"
    | (ymd) "date_only \<or> \<not> 0 < microsecond dt \<and> \<not> (0 < hour dt \<or> 0 < minute dt \<or> 0 < second dt)"
      "0 < year dt \<or> 0 < month dt \<or> 0 < day dt"
    | (zero) "date_only \<or> \<not> 0 < microsecond dt \<and> \<not> (0 < hour dt \<or> 0 < minute dt \<or> 0 < second dt)"
      "\<not> (0 < year dt \<or> 0 < month dt \<or> 0 < day dt)" by blast
  then show ?thesis
  proof cases
    case us
    with assms obtain b1 b2 b3 b4 b5 b6 b7 where
      us': "attachsql_pack_int4 b (p + 8) (microsecond dt) = Some b1"
      and h: "blk_put b1 (p + 5) (hour dt) = Some b2" "blk_put b2 (p + 6) (minute dt) = Some b3"
      "blk_put b3 (p + 7) (second dt) = Some b4"
      and date: "attachsql_pack_int2 b4 (p + 1) (year dt) = Some b5"
      "blk_put b5 (p + 3) (month dt) = Some b6" "blk_put b6 (p + 4) (ucast (day dt)) = Some b7"
      "blk_put b7 p 11 = Some b'" and q: "q = p + 12"
      by (auto simp: attachsql_pack_datetime_def bind_Some_iff)
    have "writes_at b (p + 5) ([hour dt, minute dt, second dt] @ le_bytes 4 (microsecond dt)) b4"
      by (rule writes_at_prepend'[OF put_intros(2)[OF us'[unfolded pack_eqs]] put3_writes[OF h]]) simp_all
    from writes_at_prepend'[OF this date_part_writes[OF date]] q us show ?thesis
      by (simp add: enc_datetime_def)
  next
    case hms
    with assms obtain b2 b3 b4 b5 b6 b7 where
      h: "blk_put b (p + 5) (hour dt) = Some b2" "blk_put b2 (p + 6) (minute dt) = Some b3"
      "blk_put b3 (p + 7) (second dt) = Some b4"
      and date: "attachsql_pack_int2 b4 (p + 1) (year dt) = Some b5"
      "blk_put b5 (p + 3) (month dt) = Some b6" "blk_put b6 (p + 4) (ucast (day dt)) = Some b7"
      "blk_put b7 p 7 = Some b'" and q: "q = p + 8"
      by (auto simp: attachsql_pack_datetime_def bind_Some_iff)
    have "writes_at b (p + 5) [hour dt, minute dt, second dt] b4"
      by (rule put3_writes[OF h]) simp_all
    from writes_at_prepend'[OF this date_part_writes[OF date]] q hms show ?thesis
      by (auto simp: enc_datetime_def)
  next
    case ymd
    with assms obtain b5 b6 b7 where
      date: "attachsql_pack_int2 b (p + 1) (year dt) = Some b5"
      "blk_put b5 (p + 3) (month dt) = Some b6" "blk_put b6 (p + 4) (ucast (day dt)) = Some b7"
      "blk_put b7 p 4 = Some b'" and q: "q = p + 5"
      by (auto simp: attachsql_pack_datetime_def bind_Some_iff split: if_splits)
    from date_part_writes[OF date] q ymd show ?thesis by (auto simp: enc_datetime_def)
  next
    case zero
    with assms have "blk_put b p 0 = Some b'" "q = p + 1"
      by (auto simp: attachsql_pack_datetime_def bind_Some_iff split: if_splits)
    then show ?thesis using zero put_intros(1) by (auto simp: enc_datetime_def)
  qed
qed

lemma pack_datetime_total:
  "p + length (enc_datetime date_only dt) \<le> blk_size b \<Longrightarrow> attachsql_pack_datetime b p dt date_only \<noteq> None"
  by (cases date_only; cases "0 < microsecond dt"; cases "0 < hour dt \<or> 0 < minute dt \<or> 0 < second dt";
      cases "0 < year dt \<or> 0 < month dt \<or> 0 < day dt")
    (simp_all add: attachsql_pack_datetime_def enc_datetime_def attachsql_pack_int4_def
      attachsql_pack_int2_def blk_put_def)

lemma pack_time_writes:
  assumes "attachsql_pack_time b p t = Some (b', q)"
  shows "writes_at b p (enc_time t) b' \<and> q = p + length (enc_time t)"
proof -
  have body: "writes_at b0 p (n # [s] @ le_bytes 4 (day t) @ [hour t, minute t, second t]) b6"
    if "blk_put b0 (p + 1) s = Some b1" "attachsql_pack_int4 b1 (p + 2) (day t) = Some b2"
      and hms: "blk_put b2 (p + 6) (hour t) = Some b3" "blk_put b3 (p + 7) (minute t) = Some b4"
      "blk_put b4 (p + 8) (second t) = Some b5" and n: "blk_put b5 p n = Some b6"
    for b0 b1 b2 b3 b4 b5 b6 s n
  proof -
    have "writes_at b0 (p + 1) ([s] @ le_bytes 4 (day t)) b2"
      by (rule writes_at_append'[OF put_intros(1)[OF that(1)] put_intros(2)[OF that(2)[unfolded pack_eqs]]]) simp
    from writes_at_append'[OF this put3_writes[OF hms]]
    have "writes_at b0 (p + 1) (([s] @ le_bytes 4 (day t)) @ [hour t, minute t, second t]) b5" by simp
    from writes_at_prepend'[OF this put_intros(1)[OF n]] show ?thesis by simp
  qed
  consider (us) "0 < microsecond t"
    | (hms) "\<not> 0 < microsecond t" "0 < day t \<or> 0 < minute t \<or> 0 < second t"
    | (zero) "\<not> 0 < microsecond t" "\<not> (0 < day t \<or> 0 < minute t \<or> 0 < second t)" by blast
  then show ?thesis
  proof cases
    case us
    with assms obtain b1 b2 b3 b4 b5 b6 where
      1: "attachsql_pack_int4 b (p + 9) (microsecond t) = Some b1"
      and 2: "blk_put b1 (p + 1) (if is_negative t then 1 else 0) = Some b2"
      "attachsql_pack_int4 b2 (p + 2) (day t) = Some b3"
      "blk_put b3 (p + 6) (hour t) = Some b4" "blk_put b4 (p + 7) (minute t) = Some b5"
      "blk_put b5 (p + 8) (second t) = Some b6" "blk_put b6 p 12 = Some b'" and q: "q = p + 13"
      by (auto simp: attachsql_pack_time_def bind_Some_iff)
    from writes_at_prepend'[OF put_intros(2)[OF 1[unfolded pack_eqs]] body[OF 2]] q us
    show ?thesis by (simp add: enc_time_def)
  next
    case hms
    with assms obtain b2 b3 b4 b5 b6 where
      2: "blk_put b (p + 1) (if is_negative t then 1 else 0) = Some b2"
      "attachsql_pack_int4 b2 (p + 2) (day t) = Some b3"
      "blk_put b3 (p + 6) (hour t) = Some b4" "blk_put b4 (p + 7) (minute t) = Some b5"
      "blk_put b5 (p + 8) (second t) = Some b6" "blk_put b6 p 8 = Some b'" and q: "q = p + 9"
      by (auto simp: attachsql_pack_time_def bind_Some_iff)
    from body[OF 2] q hms show ?thesis by (auto simp: enc_time_def)
  next
    case zero
    with assms have "blk_put b p 0 = Some b'" "q = p + 1"
      by (auto simp: attachsql_pack_time_def bind_Some_iff)
    then show ?thesis using zero put_intros(1) by (auto simp: enc_time_def)
  qed
qed

lemma pack_time_total:
  "p + length (enc_time t) \<le> blk_size b \<Longrightarrow> attachsql_pack_time b p t \<noteq> None"
  by (cases "0 < microsecond t"; cases "0 < day t \<or> 0 < minute t \<or> 0 < second t")
    (simp_all add: attachsql_pack_time_def enc_time_def attachsql_pack_int4_def blk_put_def)

text \<open>Reading a packed value: the byte count, then that many bytes.\<close>

definition unpack_datetime_at :: "block \<Rightarrow> nat \<Rightarrow> (attachsql_datetime_st \<times> nat) option" where
  "unpack_datetime_at b p =
     do { n \<leftarrow> blk_get b p;
          dt \<leftarrow> attachsql_unpack_datetime b (p + 1) (unat n) datetime_init;
          Some (dt, unat n + 1) }"

definition unpack_time_at :: "block \<Rightarrow> nat \<Rightarrow> (attachsql_datetime_st \<times> nat) option" where
  "unpack_time_at b p =
     do { n \<leftarrow> blk_get b p;
          t \<leftarrow> attachsql_unpack_time b (p + 1) (unat n) datetime_init;
          Some (t, unat n + 1) }"

text \<open>
  The values the formats can carry: a day of at most seven bits and no sign in a date, no part
  of a day in a date-only value; no date in a time, and not hours alone.
\<close>

definition datetime_good :: "bool \<Rightarrow> attachsql_datetime_st \<Rightarrow> bool" where
  "datetime_good date_only dt \<longleftrightarrow> day dt < 0x80 \<and> \<not> is_negative dt \<and>
     (date_only \<longrightarrow> hour dt = 0 \<and> minute dt = 0 \<and> second dt = 0 \<and> microsecond dt = 0)"

definition time_good :: "attachsql_datetime_st \<Rightarrow> bool" where
  "time_good t \<longleftrightarrow> year t = 0 \<and> month t = 0 \<and>
     (day t = 0 \<and> minute t = 0 \<and> second t = 0 \<and> microsecond t = 0 \<longrightarrow> hour t = 0 \<and> \<not> is_negative t)"

lemma scast_low_byte32:
  assumes "d < 0x80" shows "scast (ucast d :: byte) = (d :: uint32)"
proof -
  have "d = take_bit 7 d" using assms take_bit_small[of d 7] by simp
  then obtain v where v: "d = take_bit 7 v" by blast
  show ?thesis unfolding v by (rule bit_word_eqI) (auto simp: bit_simps)
qed

text \<open>The reading routines on the bytes after the count, by the number of bytes.\<close>

lemma date_read:
  assumes "blk_has b p (le_bytes 2 y @ m # d # ys)"
  shows "attachsql_unpack_int2 b p = Some y" "blk_get b (p + 2) = Some m" "blk_get b (p + 3) = Some d"
    "blk_has b (p + 4) ys"
  using assms blk_has_get[OF assms, of 3] blk_has_get[OF assms, of 2]
    unpack_int2_le[OF blk_has_sub[OF assms, of 2 0]] blk_has_sub[OF assms, of "length ys" 4]
  by (simp_all add: le_bytes_2)

lemma hms_read:
  assumes "blk_has b q (h # m # s # ys)"
  shows "q = p + k \<Longrightarrow> blk_get b (p + k) = Some h"
    "q + 1 = p + k \<Longrightarrow> blk_get b (p + k) = Some m"
    "q + 2 = p + k \<Longrightarrow> blk_get b (p + k) = Some s"
    "q + 3 = p + k \<Longrightarrow> blk_has b (p + k) ys"
  using assms blk_has_get[OF assms, of 1] blk_has_get[OF assms, of 2]
    blk_has_sub[OF assms, of "length ys" 3] by auto

lemma unpack_datetime_4:
  assumes "blk_has b p (le_bytes 2 y @ [m, d])"
  shows "attachsql_unpack_datetime b p 4 dt =
    Some (dt\<lparr>is_negative := False, year := y, month := m, day := scast d\<rparr>)"
  using date_read[OF assms] by (simp add: attachsql_unpack_datetime_def)

lemma unpack_datetime_7:
  assumes "blk_has b p (le_bytes 2 y @ m # d # [h, mi, s])"
  shows "attachsql_unpack_datetime b p 7 dt =
    Some (dt\<lparr>is_negative := False, year := y, month := m, day := scast d,
             hour := h, minute := mi, second := s\<rparr>)"
proof -
  note rd = date_read[OF assms]
  have "blk_get b (p + 4) = Some h" "blk_get b (p + 5) = Some mi" "blk_get b (p + 6) = Some s"
    by (rule hms_read[OF rd(4)]; simp)+
  then show ?thesis using rd(1-3) by (simp add: attachsql_unpack_datetime_def)
qed

lemma unpack_datetime_11:
  assumes "blk_has b p (le_bytes 2 y @ m # d # h # mi # s # le_bytes 4 us)"
  shows "attachsql_unpack_datetime b p 11 dt =
    Some (dt\<lparr>is_negative := False, year := y, month := m, day := scast d,
             hour := h, minute := mi, second := s, microsecond := us\<rparr>)"
proof -
  note rd = date_read[OF assms]
  have "blk_get b (p + 4) = Some h" "blk_get b (p + 5) = Some mi" "blk_get b (p + 6) = Some s"
    by (rule hms_read[OF rd(4)]; simp)+
  moreover have "attachsql_unpack_int4 b (p + 7) = Some us"
    by (rule unpack_int4_le, rule hms_read(4)[OF rd(4)]) simp
  ultimately show ?thesis using rd(1-3) by (simp add: attachsql_unpack_datetime_def)
qed

lemma time_read:
  assumes "blk_has b p (s # le_bytes 4 d @ ys)"
  shows "blk_get b p = Some s" "attachsql_unpack_int4 b (p + 1) = Some d" "blk_has b (p + 5) ys"
  using assms unpack_int4_le[OF blk_has_sub[OF assms, of 4 1]] blk_has_sub[OF assms, of "length ys" 5]
  by (simp_all add: le_bytes_4)

lemma unpack_time_8:
  assumes "blk_has b p (ng # le_bytes 4 d @ [h, mi, s])"
  shows "attachsql_unpack_time b p 8 dt =
    Some (dt\<lparr>is_negative := ng \<noteq> 0, day := d, hour := h, minute := mi, second := s\<rparr>)"
proof -
  note rd = time_read[OF assms]
  have "blk_get b (p + 5) = Some h" "blk_get b (p + 6) = Some mi" "blk_get b (p + 7) = Some s"
    by (rule hms_read[OF rd(3)]; simp)+
  then show ?thesis using rd(1-2) by (simp add: attachsql_unpack_time_def)
qed

lemma unpack_time_12:
  assumes "blk_has b p (ng # le_bytes 4 d @ h # mi # s # le_bytes 4 us)"
  shows "attachsql_unpack_time b p 12 dt =
    Some (dt\<lparr>is_negative := ng \<noteq> 0, day := d, hour := h, minute := mi, second := s, microsecond := us\<rparr>)"
proof -
  note rd = time_read[OF assms]
  have "blk_get b (p + 5) = Some h" "blk_get b (p + 6) = Some mi" "blk_get b (p + 7) = Some s"
    by (rule hms_read[OF rd(3)]; simp)+
  moreover have "attachsql_unpack_int4 b (p + 8) = Some us"
    by (rule unpack_int4_le, rule hms_read(4)[OF rd(3)]) simp
  ultimately show ?thesis using rd(1-2) by (simp add: attachsql_unpack_time_def)
qed

lemma unpack_datetime_at_Cons:
  assumes "blk_has b p (n # xs)" "attachsql_unpack_datetime b (Suc p) (unat n) datetime_init = Some dt"
  shows "unpack_datetime_at b p = Some (dt, unat n + 1)"
  using assms by (simp add: unpack_datetime_at_def)

lemma unpack_time_at_Cons:
  assumes "blk_has b p (n # xs)" "attachsql_unpack_time b (Suc p) (unat n) datetime_init = Some t"
  shows "unpack_time_at b p = Some (t, unat n + 1)"
  using assms by (simp add: unpack_time_at_def)

lemma unpack_datetime_enc:
  assumes good: "datetime_good date_only dt" and has: "blk_has b p (enc_datetime date_only dt)"
  shows "unpack_datetime_at b p = Some (dt, length (enc_datetime date_only dt))"
proof -
  have d: "scast (ucast (day dt) :: byte) = day dt" "\<not> is_negative dt"
    using good scast_low_byte32 by (auto simp: datetime_good_def)
  consider (us) "\<not> date_only" "0 < microsecond dt"
    | (hms) "\<not> date_only" "microsecond dt = 0" "0 < hour dt \<or> 0 < minute dt \<or> 0 < second dt"
    | (ymd) "microsecond dt = 0" "hour dt = 0" "minute dt = 0" "second dt = 0"
      "0 < year dt \<or> 0 < month dt \<or> 0 < day dt"
    | (zero) "microsecond dt = 0" "hour dt = 0" "minute dt = 0" "second dt = 0"
      "year dt = 0" "month dt = 0" "day dt = 0"
    using good by (auto simp: datetime_good_def simp flip: word_neq_0_conv)
  then show ?thesis
  proof cases
    case us
    then have e: "enc_datetime date_only dt = 11 # le_bytes 2 (year dt) @ month dt # ucast (day dt) #
        hour dt # minute dt # second dt # le_bytes 4 (microsecond dt)"
      by (simp add: enc_datetime_def)
    from has have "blk_has b (Suc p) (le_bytes 2 (year dt) @ month dt # ucast (day dt) #
        hour dt # minute dt # second dt # le_bytes 4 (microsecond dt))" by (simp add: e)
    from unpack_datetime_at_Cons[OF has[unfolded e]] unpack_datetime_11[OF this] d
    show ?thesis by (simp add: e datetime_init_def)
  next
    case hms
    then have e: "enc_datetime date_only dt = 7 # le_bytes 2 (year dt) @ month dt # ucast (day dt) #
        [hour dt, minute dt, second dt]"
      by (auto simp: enc_datetime_def)
    from has have "blk_has b (Suc p) (le_bytes 2 (year dt) @ month dt # ucast (day dt) #
        [hour dt, minute dt, second dt])" by (simp add: e)
    from unpack_datetime_at_Cons[OF has[unfolded e]] unpack_datetime_7[OF this] d hms(2)
    show ?thesis by (simp add: e datetime_init_def)
  next
    case ymd
    then have e: "enc_datetime date_only dt = 4 # le_bytes 2 (year dt) @ [month dt, ucast (day dt)]"
      by (auto simp: enc_datetime_def)
    from has have "blk_has b (Suc p) (le_bytes 2 (year dt) @ [month dt, ucast (day dt)])"
      by (simp add: e)
    from unpack_datetime_at_Cons[OF has[unfolded e]] unpack_datetime_4[OF this] d ymd(1-4)
    show ?thesis by (simp add: e datetime_init_def)
  next
    case zero
    then have "enc_datetime date_only dt = [0]" by (simp add: enc_datetime_def)
    with has good zero show ?thesis
      by (simp add: unpack_datetime_at_def attachsql_unpack_datetime_def datetime_good_def
          datetime_init_def)
  qed
qed

lemma unpack_time_enc:
  assumes good: "time_good t" and has: "blk_has b p (enc_time t)"
  shows "unpack_time_at b p = Some (t, length (enc_time t))"
proof -
  have ym: "year t = 0" "month t = 0" using good by (auto simp: time_good_def)
  consider (us) "0 < microsecond t"
    | (hms) "microsecond t = 0" "0 < day t \<or> 0 < minute t \<or> 0 < second t"
    | (zero) "microsecond t = 0" "day t = 0" "minute t = 0" "second t = 0"
    by (auto simp flip: word_neq_0_conv)
  then show ?thesis
  proof cases
    case us
    then have e: "enc_time t = 12 # (if is_negative t then 1 else 0) # le_bytes 4 (day t) @
        hour t # minute t # second t # le_bytes 4 (microsecond t)"
      by (simp add: enc_time_def)
    from has have "blk_has b (Suc p) ((if is_negative t then 1 else 0) # le_bytes 4 (day t) @
        hour t # minute t # second t # le_bytes 4 (microsecond t))" by (simp add: e)
    from unpack_time_at_Cons[OF has[unfolded e]] unpack_time_12[OF this] ym
    show ?thesis by (simp add: e datetime_init_def)
  next
    case hms
    then have e: "enc_time t = 8 # (if is_negative t then 1 else 0) # le_bytes 4 (day t) @
        [hour t, minute t, second t]"
      by (auto simp: enc_time_def)
    from has have "blk_has b (Suc p) ((if is_negative t then 1 else 0) # le_bytes 4 (day t) @
        [hour t, minute t, second t])" by (simp add: e)
    from unpack_time_at_Cons[OF has[unfolded e]] unpack_time_8[OF this] ym hms(1)
    show ?thesis by (simp add: e datetime_init_def)
  next
    case zero
    then have "enc_time t = [0]" by (simp add: enc_time_def)
    with has good zero show ?thesis
      by (simp add: unpack_time_at_def attachsql_unpack_time_def time_good_def datetime_init_def)
  qed
qed

interpretation dtc: block_codec "enc_datetime date_only" "\<lambda>b p dt. attachsql_pack_datetime b p dt date_only"
  unpack_datetime_at "datetime_good date_only" for date_only
  by unfold_locales (use pack_datetime_writes pack_datetime_total unpack_datetime_enc in blast)+

interpretation tmc: block_codec enc_time attachsql_pack_time unpack_time_at time_good
  by unfold_locales (use pack_time_writes pack_time_total unpack_time_enc in blast)+

lemma scast_high_byte:
  assumes "0x80 \<le> len" "len \<le> (0xfa :: uint64)"
  shows "scast (ucast len :: byte) = len - 256"
proof -
  obtain n where n: "len = of_nat n" "128 \<le> n" "n \<le> 250"
    using assms by (cases len) (auto simp: word_le_nat_alt unat_of_nat)
  have m: "(int n + 128) mod 256 = int n - 128"
    using n(2,3) by (simp add: mod_pos_geq)
  have u: "ucast len = (word_of_int (int n) :: byte)" using n
    by (simp add: unsigned_of_nat take_bit_nat_eq_self)
  have "sint (word_of_int (int n) :: byte) = int n - 256"
    unfolding int_word_sint using m by simp
  then show ?thesis unfolding u scast_eq using n(1) by simp
qed

section \<open>Properties\<close>

text \<open>
  C31. A number packed by \<open>attachsql_pack_length\<close> is read back by \<open>attachsql_unpack_length\<close>, with
  the number of bytes that were stored, whenever it is below 128 or above 250.
\<close>

theorem pack_length_roundtrip:
  assumes "len_good len" "attachsql_pack_length b p len = Some (b', q)"
  shows "unpack_length_at b' p = Some (len, q - p)"
  using assms by (rule lenc.roundtrip)

theorem pack_length_roundtrip_witness:
  "unpack_length_at (fst (the (attachsql_pack_length (blk_alloc 16) 2 70000))) 2 = Some (70000, 4)"
proof -
  have good: "len_good 70000" by (simp add: len_good_def)
  obtain b' q where p: "attachsql_pack_length (blk_alloc 16) 2 70000 = Some (b', q)"
    using lenc.pack_total[of 2 70000 "blk_alloc 16"] by (auto simp: enc_length_def)
  then have "q = 6" using lenc.pack_writes[OF p] by (simp add: enc_length_def)
  with p pack_length_roundtrip[OF good p] show ?thesis by simp
qed

text \<open>
  The one-byte form is read through a signed \<open>char\<close>: the lengths 128 to 250, which
  \<open>attachsql_pack_length\<close> stores in one byte, come back 256 smaller, modulo 2 to the 64.
\<close>

theorem unpack_length_sign_extends:
  assumes "0x80 \<le> len" "len \<le> 0xfa" "attachsql_pack_length b p len = Some (b', q)"
  shows "unpack_length_at b' p = Some (len - 256, 1)"
proof -
  have has: "blk_has b' p (enc_length len)"
    using lenc.pack_writes[OF assms(3)] writes_at_has by blast
  then have "unpack_length_at b' p = Some (scast (ucast len :: byte), 1)"
    using assms(2) unpack_enc_length_byte by blast
  then show ?thesis using scast_high_byte[OF assms(1,2)] by simp
qed

theorem unpack_length_sign_extends_witness:
  "\<exists>b' q. attachsql_pack_length (blk_alloc 16) 2 200 = Some (b', q) \<and>
     unpack_length_at b' 2 = Some (0xFFFFFFFFFFFFFFC8, 1)"
proof -
  obtain b' q where p: "attachsql_pack_length (blk_alloc 16) 2 200 = Some (b', q)"
    using lenc.pack_total[of 2 200 "blk_alloc 16"] by (auto simp: enc_length_def)
  from p unpack_length_sign_extends[OF _ _ p] show ?thesis by simp
qed

text \<open>
  A date or a timestamp packed for a statement parameter is read back field by field, for
  every value whose day is below 128, whichever of the four lengths it is packed in.
\<close>

theorem pack_datetime_roundtrip:
  assumes "datetime_good date_only dt" "attachsql_pack_datetime b p dt date_only = Some (b', q)"
  shows "unpack_datetime_at b' p = Some (dt, q - p)"
  using assms by (rule dtc.roundtrip)

theorem pack_datetime_roundtrip_witness:
  "\<exists>b' q. attachsql_pack_datetime (blk_alloc 20) 3
       \<lparr>year = 2014, month = 11, day = 28, hour = 23, minute = 59, second = 7,
        microsecond = 123456, is_negative = False\<rparr> False = Some (b', q) \<and> q = 15 \<and>
     unpack_datetime_at b' 3 = Some
       (\<lparr>year = 2014, month = 11, day = 28, hour = 23, minute = 59, second = 7,
        microsecond = 123456, is_negative = False\<rparr>, 12)"
proof -
  let ?dt = "\<lparr>year = 2014, month = 11, day = 28, hour = 23, minute = 59, second = 7,
        microsecond = 123456, is_negative = False\<rparr>"
  have e: "length (enc_datetime False ?dt) = 12" by (simp add: enc_datetime_def)
  obtain b' q where p: "attachsql_pack_datetime (blk_alloc 20) 3 ?dt False = Some (b', q)"
    using dtc.pack_total[of 3 False ?dt "blk_alloc 20"] e by auto
  have "q = 15" using dtc.pack_writes[OF p] e by simp
  moreover have "datetime_good False ?dt" by (simp add: datetime_good_def)
  ultimately show ?thesis using p pack_datetime_roundtrip[OF _ p] by simp
qed

text \<open>
  C32. A time packed for a statement parameter is read back field by field, sign and
  microseconds included, unless its only non-zero field is the hour.
\<close>

theorem pack_time_roundtrip:
  assumes "time_good t" "attachsql_pack_time b p t = Some (b', q)"
  shows "unpack_time_at b' p = Some (t, q - p)"
  using assms by (rule tmc.roundtrip)

theorem pack_time_roundtrip_witness:
  "\<exists>b' q. attachsql_pack_time (blk_alloc 16) 1
       \<lparr>year = 0, month = 0, day = 3, hour = 4, minute = 5, second = 6,
        microsecond = 0, is_negative = True\<rparr> = Some (b', q) \<and> q = 10 \<and>
     unpack_time_at b' 1 = Some
       (\<lparr>year = 0, month = 0, day = 3, hour = 4, minute = 5, second = 6,
        microsecond = 0, is_negative = True\<rparr>, 9)"
proof -
  let ?t = "\<lparr>year = 0, month = 0, day = 3, hour = 4, minute = 5, second = 6,
        microsecond = 0, is_negative = True\<rparr>"
  have e: "length (enc_time ?t) = 9" by (simp add: enc_time_def)
  obtain b' q where p: "attachsql_pack_time (blk_alloc 16) 1 ?t = Some (b', q)"
    using tmc.pack_total[of 1 ?t "blk_alloc 16"] e by auto
  have "q = 10" using tmc.pack_writes[OF p] e by simp
  moreover have "time_good ?t" by (simp add: time_good_def)
  ultimately show ?thesis using p pack_time_roundtrip[OF _ p] by simp
qed

text \<open>
  \<open>attachsql_pack_time\<close> does not look at the hour when it decides whether there is a time to
  pack: a whole number of hours below a day is packed as the empty time, and is read back as zero.
\<close>

theorem pack_time_drops_hours:
  assumes "day t = 0" "minute t = 0" "second t = 0" "microsecond t = 0"
    and "attachsql_pack_time b p t = Some (b', q)"
  shows "unpack_time_at b' p = Some (datetime_init, 1)"
proof -
  have "enc_time t = [0]" using assms(1-4) by (simp add: enc_time_def)
  then have "blk_get b' p = Some 0" using pack_time_writes[OF assms(5)] writes_at_has by fastforce
  then show ?thesis by (simp add: unpack_time_at_def attachsql_unpack_time_def)
qed

theorem pack_time_drops_hours_witness:
  "\<exists>b' q. attachsql_pack_time (blk_alloc 16) 0
       \<lparr>year = 0, month = 0, day = 0, hour = 12, minute = 0, second = 0,
        microsecond = 0, is_negative = False\<rparr> = Some (b', q) \<and>
     unpack_time_at b' 0 = Some (datetime_init, 1)"
proof -
  let ?t = "\<lparr>year = 0, month = 0, day = 0, hour = 12, minute = 0, second = 0,
        microsecond = 0, is_negative = False\<rparr>"
  have e: "length (enc_time ?t) = 1" by (simp add: enc_time_def)
  obtain b' q where p: "attachsql_pack_time (blk_alloc 16) 0 ?t = Some (b', q)"
    using tmc.pack_total[of 0 ?t "blk_alloc 16"] e by auto
  with pack_time_drops_hours[OF _ _ _ _ p] show ?thesis by simp
qed

end
