(* ===== verification/Conn.thy ===== *)
theory Conn
  imports Buffer Pack
begin

text \<open>
  The state of a connection, \<open>src/structs.h\<close>, in two records: \<open>con_core\<close> holds what the network
  code works on, \<open>attachsql_connect_t\<close> adds the fields of the query and pool layer (in the source
  one struct, since the struct merge it mentions). Network operations are stated on the record
  scheme \<open>'a con_core_scheme\<close>, so they cannot touch the fields added later.

  The last fields of \<open>con_core\<close> are not in the source: they stand for the libraries and the
  machine the code runs on. \<open>lib\<close> holds the functions of zlib and libuv that the code calls,
  \<open>allocs\<close> the outcomes of the next allocations (all succeed when the list is used up),
  \<open>uv_results\<close> the outcomes of the next calls into libuv (0, success, when the list is used
  up), \<open>sent\<close> the byte strings handed to \<open>uv_write\<close> so far, one per successful call, and
  \<open>stream_closed\<close> is set by \<open>uv_close\<close>.
\<close>

record libraries =
  zlib_compressBound :: "nat \<Rightarrow> nat"
  zlib_compress :: "byte list \<Rightarrow> byte list option"
  zlib_uncompress :: "byte list \<Rightarrow> byte list option"
  uv_err_name :: "int \<Rightarrow> byte list"

text \<open>A \<open>char\<close> array holds the bytes stored in it, without the terminating NUL.\<close>

record column_t =
  c_schema :: "byte list"
  c_table :: "byte list"
  c_origin_table :: "byte list"
  c_column :: "byte list"
  c_origin_column :: "byte list"
  c_charset :: uint16
  c_length :: uint32
  c_type :: attachsql_column_type_t
  c_flags :: uint16
  c_decimals :: byte
  c_default_value :: "byte list"
  c_default_size :: nat

text \<open>
  A pointer into the read buffer is the number of reallocations the buffer has seen and an
  offset; after the next reallocation it dangles.
\<close>

type_synonym buffer_ptr = "nat \<times> nat"

text \<open>An array of columns from \<open>new\<close>: \<open>None\<close> entries have not been filled in.\<close>

record result_t =
  column_count :: uint16
  result_columns :: "column_t option list option"
  current_column :: uint16
  row_data :: "buffer_ptr option"
  row_length :: nat

definition result_init :: result_t where
  "result_init = \<lparr>column_count = 0, result_columns = None, current_column = 0, row_data = None,
                  row_length = 0\<rparr>"

text \<open>The \<open>union data_t\<close> of a bound parameter, by the member last stored; pointers may be NULL.\<close>

datatype data_t =
    NoData
  | TinyintData byte
  | SmallintData uint16
  | IntData uint32
  | BigintData uint64
  | FloatData uint32
  | DoubleData uint64
  | DatetimeData "attachsql_datetime_st option"
  | StringData "byte list option"

record attachsql_stmt_param_st =
  param_type :: attachsql_column_type_t
  param_length :: nat
  is_long_data :: bool
  is_unsigned :: bool
  datetime_alloc :: bool
  param_value :: data_t

definition param_init :: attachsql_stmt_param_st where
  "param_init = \<lparr>param_type = ATTACHSQL_COLUMN_TYPE_NULL, param_length = 0, is_long_data = False,
                 is_unsigned = False, datetime_alloc = False, param_value = NoData\<rparr>"

record attachsql_stmt_st =
  stmt_id :: uint32
  stmt_column_count :: uint16
  stmt_current_column :: uint16
  param_count :: uint16
  stmt_params :: "column_t option list option"
  current_param :: uint16
  stmt_state :: attachsql_stmt_state_t
  exec_buffer :: "block option"
  exec_buffer_length :: nat
  param_data :: "attachsql_stmt_param_st list option"
  new_bind :: bool

definition stmt_init :: attachsql_stmt_st where
  "stmt_init = \<lparr>stmt_id = 0, stmt_column_count = 0, stmt_current_column = 0, param_count = 0,
     stmt_params = None, current_param = 0, stmt_state = ATTACHSQL_STMT_STATE_NONE,
     exec_buffer = None, exec_buffer_length = 0, param_data = None, new_bind = True\<rparr>"

text \<open>
  \<open>next_packet_queue\<close> is the allocated array, its length the number of whole elements allocated.
  \<open>opt_compression\<close>, \<open>opt_protocol\<close> and \<open>opt_semi_block\<close> are the members of \<open>options\<close>.
\<close>

record con_core =
  con_host :: "byte list option"
  con_port :: uint16
  con_user :: "byte list option"
  con_pass :: "byte list option"
  con_schema :: "byte list option"
  opt_compression :: bool
  opt_protocol :: attachsql_con_protocol_t
  opt_semi_block :: bool
  con_status :: attachsql_con_status_t
  errmsg :: "byte list"
  local_errcode :: attachsql_ret_t
  read_buffer :: "buffer_st option"
  read_buffer_compress :: "buffer_st option"
  write_buffer :: block
  write_buffer_extra :: byte
  packet_number :: byte
  thread_id :: uint32
  connection_id :: uint32
  server_version :: "byte list"
  scramble_buffer :: block
  packet_header :: block
  server_capabilities :: uint32
  client_capabilities :: uint32
  packet_size :: uint32
  affected_rows :: uint64
  insert_id :: uint64
  server_status :: uint16
  warning_count :: uint16
  server_errno :: uint16
  server_message :: "byte list"
  con_sqlstate :: block
  con_charset :: byte
  con_result :: result_t
  command_status :: attachsql_command_status_t
  next_packet_queue :: "attachsql_packet_type_t option list option"
  next_packet_queue_size :: nat
  next_packet_queue_used :: nat
  uncompressed_buffer :: block
  uncompressed_buffer_len :: nat
  compressed_buffer :: block
  compressed_buffer_len :: nat
  compressed_packet_header :: block
  compressed_packet_number :: byte
  in_statement :: bool
  con_stmt :: "attachsql_stmt_st option"
  lib :: libraries
  allocs :: "bool list"
  uv_results :: "int list"
  sent :: "byte list list"
  stream_closed :: bool

text \<open>An array of \<open>char\<close> that the constructor makes the empty string.\<close>

definition char_array :: "nat \<Rightarrow> block" where
  "char_array n = (blk_alloc n)\<lparr>blk_mem := [0 \<mapsto> 0]\<rparr>"

lemma char_array_size [simp]: "blk_size (char_array n) = n"
  by (simp add: char_array_def)

text \<open>The constructor \<open>attachsql_connect_t()\<close>, with the environment it finds.\<close>

definition core_init :: "libraries \<Rightarrow> bool list \<Rightarrow> int list \<Rightarrow> con_core" where
  "core_init l as rs =
     \<lparr>con_host = None, con_port = 0, con_user = None, con_pass = None, con_schema = None,
      opt_compression = False, opt_protocol = ATTACHSQL_CON_PROTOCOL_UNKNOWN, opt_semi_block = False,
      con_status = ATTACHSQL_CON_STATUS_NOT_CONNECTED, errmsg = [], local_errcode = ATTACHSQL_RET_OK,
      read_buffer = None, read_buffer_compress = None,
      write_buffer = char_array ATTACHSQL_WRITE_BUFFER_SIZE, write_buffer_extra = 0,
      packet_number = 0, thread_id = 0, connection_id = 0, server_version = [],
      scramble_buffer = char_array 20, packet_header = char_array 4,
      server_capabilities = ATTACHSQL_CAPABILITY_NONE, client_capabilities = 0, packet_size = 0,
      affected_rows = 0, insert_id = 0, server_status = 0, warning_count = 0, server_errno = 0,
      server_message = [], con_sqlstate = char_array ATTACHSQL_SQLSTATE_SIZE, con_charset = 0,
      con_result = result_init, command_status = ATTACHSQL_COMMAND_STATUS_EOF,
      next_packet_queue = None, next_packet_queue_size = 0, next_packet_queue_used = 0,
      uncompressed_buffer = blk_alloc 0, uncompressed_buffer_len = 0,
      compressed_buffer = blk_alloc 0, compressed_buffer_len = 0,
      compressed_packet_header = char_array 7, compressed_packet_number = 0,
      in_statement = False, con_stmt = None, lib = l, allocs = as, uv_results = rs, sent = [],
      stream_closed = False\<rparr>"

section \<open>The environment\<close>

definition alloc :: "'a con_core_scheme \<Rightarrow> bool \<times> 'a con_core_scheme" where
  "alloc con = (case allocs con of [] \<Rightarrow> (True, con) | a # as \<Rightarrow> (a, con\<lparr>allocs := as\<rparr>))"

definition uv_call :: "'a con_core_scheme \<Rightarrow> int \<times> 'a con_core_scheme" where
  "uv_call con = (case uv_results con of [] \<Rightarrow> (0, con) | r # rs \<Rightarrow> (r, con\<lparr>uv_results := rs\<rparr>))"

text \<open>
  \<open>new uv_write_t\<close> and \<open>uv_write\<close>: a negative result is an error and nothing is sent. The request
  is dereferenced without a check.
\<close>

definition uv_write :: "byte list list \<Rightarrow> 'a con_core_scheme \<Rightarrow> (int \<times> 'a con_core_scheme) option" where
  "uv_write bufs con =
     (let (ok, con) = alloc con;
          (r, con) = uv_call con
      in if \<not> ok then None
         else if r < 0 then Some (r, con)
         else Some (r, con\<lparr>sent := sent con @ [concat bufs]\<rparr>))"

section \<open>C strings\<close>

text \<open>\<open>snprintf(array, size, "...%s", ...)\<close> into an array of \<open>char\<close>.\<close>

definition text_array :: "nat \<Rightarrow> byte list \<Rightarrow> byte list" where
  "text_array n txt = take (n - 1) txt"

text \<open>
  \<open>"%.*s"\<close> of a pointer into a block: a negative precision, as an \<open>int\<close>, means none. Bytes are
  read up to the precision or a NUL.
\<close>

definition precision_string :: "block \<Rightarrow> nat \<Rightarrow> uint32 \<Rightarrow> byte list option" where
  "precision_string b p prec =
     (if 0 \<le> sint prec then blk_cstr b p (unat prec)
      else blk_cstr b p (blk_size b - p + 1))"

lemma text_array_length: "0 < n \<Longrightarrow> length (text_array n txt) < n"
  by (simp add: text_array_def)

section \<open>Reading at the read pointer\<close>

text \<open>The reads of the packet parsers, all through \<open>con->read_buffer\<close>.\<close>


definition with_rb :: "(buffer_st \<Rightarrow> 'b option) \<Rightarrow> 'a con_core_scheme \<Rightarrow> 'b option" where
  "with_rb f con = Option.bind (read_buffer con) f"

definition get_byte :: "buffer_st \<Rightarrow> byte option" where
  "get_byte b = blk_get (buffer b) (buffer_read_ptr b)"

definition skip :: "nat \<Rightarrow> buffer_st \<Rightarrow> buffer_st" where
  "skip n b = b\<lparr>buffer_read_ptr := buffer_read_ptr b + n\<rparr>"

definition get_int2 :: "buffer_st \<Rightarrow> uint16 option" where
  "get_int2 b = attachsql_unpack_int2 (buffer b) (buffer_read_ptr b)"

definition get_int3 :: "buffer_st \<Rightarrow> uint32 option" where
  "get_int3 b = attachsql_unpack_int3 (buffer b) (buffer_read_ptr b)"

definition get_int4 :: "buffer_st \<Rightarrow> uint32 option" where
  "get_int4 b = attachsql_unpack_int4 (buffer b) (buffer_read_ptr b)"

text \<open>\<open>attachsql_unpack_length\<close> at the read pointer, and the pointer moved behind it.\<close>

definition get_length :: "buffer_st \<Rightarrow> (uint64 \<times> nat \<times> buffer_st) option" where
  "get_length b =
     do { (v, bytes) \<leftarrow> unpack_length_at (buffer b) (buffer_read_ptr b);
          Some (v, bytes, skip bytes b) }"

definition get_bytes :: "nat \<Rightarrow> buffer_st \<Rightarrow> byte list option" where
  "get_bytes n b = blk_read (buffer b) (buffer_read_ptr b) n"

lemmas get_defs = get_byte_def get_int2_def get_int3_def get_int4_def get_length_def get_bytes_def

text \<open>The bytes \<open>xs\<close> lie at the read pointer; what each read then returns, and what is left.\<close>

definition ahead :: "buffer_st \<Rightarrow> byte list \<Rightarrow> bool" where
  "ahead b xs = blk_has (buffer b) (buffer_read_ptr b) xs"

named_theorems reads \<open>results of reading what is ahead\<close>

lemma skip_skip [simp]: "skip n (skip m b) = skip (m + n) b"
  by (simp add: skip_def add.assoc)

lemma skip_0 [simp]: "skip 0 b = b"
  by (simp add: skip_def)

lemma skip_fields [simp]:
  "buffer (skip n b) = buffer b" "buffer_read_ptr (skip n b) = buffer_read_ptr b + n"
  "buffer_write_ptr (skip n b) = buffer_write_ptr b" "packet_end_ptr (skip n b) = packet_end_ptr b"
  "buffer_gen (skip n b) = buffer_gen b" "buffer_used (skip n b) = buffer_used b"
  "buffer_size (skip n b) = buffer_size b"
  by (simp_all add: skip_def)

lemma ahead_skip: "ahead b (xs @ ys) \<Longrightarrow> ahead (skip (length xs) b) ys"
  by (simp add: ahead_def blk_has_append)

lemma ahead_append: "ahead b (xs @ ys) \<Longrightarrow> ahead b xs"
  by (simp add: ahead_def blk_has_append)

lemma ahead_byte [reads]: "ahead b (x # ys) \<Longrightarrow> get_byte b = Some x"
  by (simp add: ahead_def get_byte_def)

lemma ahead_Cons: "ahead b (x # ys) \<Longrightarrow> ahead (skip (Suc 0) b) ys"
  by (simp add: ahead_def)

lemma ahead_int2 [reads]: "ahead b (le_bytes 2 v @ ys) \<Longrightarrow> get_int2 b = Some v"
  by (simp add: ahead_def get_int2_def blk_has_append unpack_int2_le)

lemma ahead_int3 [reads]: "ahead b (le_bytes 3 v @ ys) \<Longrightarrow> get_int3 b = Some (ucast (take_bit 24 v))"
  by (simp add: ahead_def get_int3_def blk_has_append unpack_int3_le)

lemma ahead_int4 [reads]: "ahead b (le_bytes 4 v @ ys) \<Longrightarrow> get_int4 b = Some v"
  by (simp add: ahead_def get_int4_def blk_has_append unpack_int4_le)

lemma ahead_length [reads]:
  "ahead b (enc_length v @ ys) \<Longrightarrow> len_good v \<Longrightarrow>
   get_length b = Some (v, length (enc_length v), skip (length (enc_length v)) b)"
  by (simp add: ahead_def get_length_def blk_has_append unpack_enc_length)

lemma ahead_bytes [reads]: "ahead b (xs @ ys) \<Longrightarrow> n = length xs \<Longrightarrow> get_bytes n b = Some xs"
  by (simp add: ahead_def get_bytes_def blk_has_append blk_read_has)

lemma ahead_take: "ahead b xs \<Longrightarrow> n \<le> length xs \<Longrightarrow> get_bytes n b = Some (take n xs)"
  using ahead_bytes[of b "take n xs" "drop n xs" n] by simp

end
