(* ===== verification/Packet_Queue.thy ===== *)
theory Packet_Queue
  imports Conn
begin

text \<open>
  The expected-packet queue of a connection, the last functions of \<open>src/net.cc\<close>. It says which
  kind of packet the next one from the server is taken for. Despite its name it is a stack: the
  locale \<open>packet_stack\<close> states that, and is interpreted on the functions.
\<close>

section \<open>The functions\<close>

text \<open>
  The element is 4 bytes wide; the first allocation is of \<open>64 * 4\<close> bytes, the reallocation of
  \<open>next_packet_queue_size * 2\<close> bytes.
\<close>

definition queue_create :: "'a con_core_scheme \<Rightarrow> bool \<times> 'a con_core_scheme" where
  "queue_create con =
     (if next_packet_queue_size con = 0 then
        let (ok, con) = alloc con
        in (ok, con\<lparr>next_packet_queue :=
                      (if ok then Some (replicate ATTACHSQL_DEFAULT_PACKET_QUEUE_SIZE None) else None),
                    next_packet_queue_size := ATTACHSQL_DEFAULT_PACKET_QUEUE_SIZE\<rparr>)
      else (True, con))"

definition queue_enlarge :: "'a con_core_scheme \<Rightarrow> bool \<times> 'a con_core_scheme" where
  "queue_enlarge con =
     (if next_packet_queue_size con \<le> next_packet_queue_used con then
        let (ok, con) = alloc con
        in if \<not> ok then (False, con)
           else let n = next_packet_queue_size con * 2 div 4;
                    old = (case next_packet_queue con of Some q \<Rightarrow> q | None \<Rightarrow> [])
                in (True, con\<lparr>next_packet_queue := Some (take n old @ replicate (n - length old) None),
                              next_packet_queue_size := next_packet_queue_size con * 2\<rparr>)
      else (True, con))"

definition attachsql_packet_queue_push ::
  "attachsql_packet_type_t \<Rightarrow> 'a con_core_scheme \<Rightarrow> (bool \<times> 'a con_core_scheme) option" where
  "attachsql_packet_queue_push packet_type con =
     (let (ok, con) = queue_create con
      in if \<not> ok then Some (False, con)
         else
           let (ok, con) = queue_enlarge con
           in if \<not> ok then Some (False, con)
              else case next_packet_queue con of
                     Some q \<Rightarrow>
                       if next_packet_queue_used con < length q then
                         Some (True, con\<lparr>next_packet_queue := Some (q[next_packet_queue_used con := Some packet_type]),
                                         next_packet_queue_used := next_packet_queue_used con + 1\<rparr>)
                       else None
                   | None \<Rightarrow> None)"

definition queue_at :: "'a con_core_scheme \<Rightarrow> nat \<Rightarrow> attachsql_packet_type_t option" where
  "queue_at con i =
     (case next_packet_queue con of Some q \<Rightarrow> if i < length q then q ! i else None | None \<Rightarrow> None)"

definition attachsql_packet_queue_pop ::
  "'a con_core_scheme \<Rightarrow> (attachsql_packet_type_t \<times> 'a con_core_scheme) option" where
  "attachsql_packet_queue_pop con =
     (if next_packet_queue_used con = 0 then Some (ATTACHSQL_PACKET_TYPE_NONE, con)
      else do { let con = con\<lparr>next_packet_queue_used := next_packet_queue_used con - 1\<rparr>;
                t \<leftarrow> queue_at con (next_packet_queue_used con);
                Some (t, con) })"

definition attachsql_packet_queue_peek :: "'a con_core_scheme \<Rightarrow> attachsql_packet_type_t option" where
  "attachsql_packet_queue_peek con =
     (if next_packet_queue_used con = 0 then Some ATTACHSQL_PACKET_TYPE_NONE
      else queue_at con (next_packet_queue_used con - 1))"

text \<open>Calls that ignore the result.\<close>

definition queue_push :: "attachsql_packet_type_t \<Rightarrow> 'a con_core_scheme \<Rightarrow> 'a con_core_scheme option" where
  "queue_push t con = map_option snd (attachsql_packet_queue_push t con)"

text \<open>Allocations and pushes touch only the queue and the environment.\<close>

definition queue_only :: "'a con_core_scheme \<Rightarrow> 'a con_core_scheme \<Rightarrow> bool" where
  "queue_only con con' \<longleftrightarrow>
     (\<exists>q n u as. con' = con\<lparr>next_packet_queue := q, next_packet_queue_size := n,
                            next_packet_queue_used := u, allocs := as\<rparr>)"

lemma queue_only_refl: "queue_only con con"
  unfolding queue_only_def
  by (rule exI[of _ "next_packet_queue con"], rule exI[of _ "next_packet_queue_size con"],
      rule exI[of _ "next_packet_queue_used con"], rule exI[of _ "allocs con"]) simp

lemma queue_only_update:
  assumes "queue_only con c"
  shows "queue_only con (c\<lparr>next_packet_queue := q\<rparr>)" "queue_only con (c\<lparr>next_packet_queue_size := n\<rparr>)"
    "queue_only con (c\<lparr>next_packet_queue_used := u\<rparr>)" "queue_only con (c\<lparr>allocs := as\<rparr>)"
proof -
  from assms obtain q0 n0 u0 as0 where c: "c = con\<lparr>next_packet_queue := q0, next_packet_queue_size := n0,
      next_packet_queue_used := u0, allocs := as0\<rparr>" unfolding queue_only_def by blast
  show "queue_only con (c\<lparr>next_packet_queue := q\<rparr>)" unfolding queue_only_def c 
    by (rule exI[of _ q], rule exI[of _ n0], rule exI[of _ u0], rule exI[of _ as0]) simp
  show "queue_only con (c\<lparr>next_packet_queue_size := n\<rparr>)" unfolding queue_only_def c 
    by (rule exI[of _ q0], rule exI[of _ n], rule exI[of _ u0], rule exI[of _ as0]) simp
  show "queue_only con (c\<lparr>next_packet_queue_used := u\<rparr>)" unfolding queue_only_def c 
    by (rule exI[of _ q0], rule exI[of _ n0], rule exI[of _ u], rule exI[of _ as0]) simp
  show "queue_only con (c\<lparr>allocs := as\<rparr>)" unfolding queue_only_def c 
    by (rule exI[of _ q0], rule exI[of _ n0], rule exI[of _ u0], rule exI[of _ as]) simp
qed

lemma queue_only_alloc:
  assumes "queue_only con c" "alloc c = (ok, c')" shows "queue_only con c'"
  using assms queue_only_update(4)[OF assms(1)] by (auto simp: alloc_def split: list.splits)

lemma queue_create_only: "queue_create con = (ok, c) \<Longrightarrow> queue_only con c"
  using queue_only_alloc[OF queue_only_refl, of con]
  by (auto simp: queue_create_def Let_def split: if_splits prod.splits
      intro!: queue_only_refl queue_only_update)

lemma queue_enlarge_only: "queue_only con c \<Longrightarrow> queue_enlarge c = (ok, c') \<Longrightarrow> queue_only con c'"
  using queue_only_alloc[of con c]
  by (auto simp: queue_enlarge_def Let_def split: if_splits prod.splits
      intro!: queue_only_refl queue_only_update)

lemma queue_push_only:
  assumes "queue_push t con = Some con'" shows "queue_only con con'"
proof -
  obtain ok1 c1 where 1: "queue_create con = (ok1, c1)" by fastforce
  obtain ok2 c2 where 2: "queue_enlarge c1 = (ok2, c2)" by fastforce
  note s1 = queue_create_only[OF 1]
  note s2 = queue_enlarge_only[OF s1 2]
  show ?thesis using assms s1 s2
    by (auto simp: queue_push_def attachsql_packet_queue_push_def 1 2 split: if_splits option.splits
        intro!: queue_only_update)
qed

lemma queue_push_frame:
  assumes "queue_push t con = Some con'"
  shows "con_host con' = con_host con" "con_port con' = con_port con" "con_user con' = con_user con"
    "con_pass con' = con_pass con" "con_schema con' = con_schema con"
    "opt_compression con' = opt_compression con" "opt_protocol con' = opt_protocol con"
    "opt_semi_block con' = opt_semi_block con" "con_status con' = con_status con"
    "errmsg con' = errmsg con" "local_errcode con' = local_errcode con"
    "read_buffer con' = read_buffer con" "read_buffer_compress con' = read_buffer_compress con"
    "write_buffer con' = write_buffer con" "write_buffer_extra con' = write_buffer_extra con"
    "packet_number con' = packet_number con" "thread_id con' = thread_id con"
    "connection_id con' = connection_id con" "server_version con' = server_version con"
    "scramble_buffer con' = scramble_buffer con" "packet_header con' = packet_header con"
    "server_capabilities con' = server_capabilities con"
    "client_capabilities con' = client_capabilities con" "packet_size con' = packet_size con"
    "affected_rows con' = affected_rows con" "insert_id con' = insert_id con"
    "server_status con' = server_status con" "warning_count con' = warning_count con"
    "server_errno con' = server_errno con" "server_message con' = server_message con"
    "con_sqlstate con' = con_sqlstate con" "con_charset con' = con_charset con"
    "con_result con' = con_result con" "command_status con' = command_status con"
    "uncompressed_buffer con' = uncompressed_buffer con"
    "uncompressed_buffer_len con' = uncompressed_buffer_len con"
    "compressed_buffer con' = compressed_buffer con"
    "compressed_buffer_len con' = compressed_buffer_len con"
    "compressed_packet_header con' = compressed_packet_header con"
    "compressed_packet_number con' = compressed_packet_number con"
    "in_statement con' = in_statement con" "con_stmt con' = con_stmt con" "lib con' = lib con"
    "uv_results con' = uv_results con" "sent con' = sent con"
    "stream_closed con' = stream_closed con"
proof -
  obtain q n u as where "con' = con\<lparr>next_packet_queue := q, next_packet_queue_size := n,
      next_packet_queue_used := u, allocs := as\<rparr>"
    using queue_push_only[OF assms] unfolding queue_only_def by blast
  then show "con_host con' = con_host con" "con_port con' = con_port con" "con_user con' = con_user con"
    "con_pass con' = con_pass con" "con_schema con' = con_schema con"
    "opt_compression con' = opt_compression con" "opt_protocol con' = opt_protocol con"
    "opt_semi_block con' = opt_semi_block con" "con_status con' = con_status con"
    "errmsg con' = errmsg con" "local_errcode con' = local_errcode con"
    "read_buffer con' = read_buffer con" "read_buffer_compress con' = read_buffer_compress con"
    "write_buffer con' = write_buffer con" "write_buffer_extra con' = write_buffer_extra con"
    "packet_number con' = packet_number con" "thread_id con' = thread_id con"
    "connection_id con' = connection_id con" "server_version con' = server_version con"
    "scramble_buffer con' = scramble_buffer con" "packet_header con' = packet_header con"
    "server_capabilities con' = server_capabilities con"
    "client_capabilities con' = client_capabilities con" "packet_size con' = packet_size con"
    "affected_rows con' = affected_rows con" "insert_id con' = insert_id con"
    "server_status con' = server_status con" "warning_count con' = warning_count con"
    "server_errno con' = server_errno con" "server_message con' = server_message con"
    "con_sqlstate con' = con_sqlstate con" "con_charset con' = con_charset con"
    "con_result con' = con_result con" "command_status con' = command_status con"
    "uncompressed_buffer con' = uncompressed_buffer con"
    "uncompressed_buffer_len con' = uncompressed_buffer_len con"
    "compressed_buffer con' = compressed_buffer con"
    "compressed_buffer_len con' = compressed_buffer_len con"
    "compressed_packet_header con' = compressed_packet_header con"
    "compressed_packet_number con' = compressed_packet_number con"
    "in_statement con' = in_statement con" "con_stmt con' = con_stmt con" "lib con' = lib con"
    "uv_results con' = uv_results con" "sent con' = sent con"
    "stream_closed con' = stream_closed con"
    by simp_all
qed

section \<open>What a push leaves alone\<close>

lemma alloc_more: "alloc con = (ok, con') \<Longrightarrow> con_core.more con' = con_core.more con"
  by (auto simp: alloc_def split: list.splits)

lemma queue_push_more: "queue_push t con = Some con' \<Longrightarrow> con_core.more con' = con_core.more con"
  by (auto simp: queue_push_def attachsql_packet_queue_push_def queue_create_def queue_enlarge_def Let_def
      split: bind_splits if_splits prod.splits option.splits dest!: alloc_more)

lemma queue_push_allocs: "queue_push t con = Some con' \<Longrightarrow> allocs con = [] \<Longrightarrow> allocs con' = []"
  by (auto simp: queue_push_def attachsql_packet_queue_push_def queue_create_def queue_enlarge_def Let_def alloc_def
      split: bind_splits if_splits prod.splits option.splits)

text \<open>
  What stays the same while packets of an answer are read: what the next command will be written with,
  what the client layer keeps, and no allocation fails that did not have to.
\<close>

definition writer ::
  "'a con_core_scheme \<Rightarrow> uint32 \<times> block \<times> byte \<times> block \<times> block \<times> (block \<times> nat) \<times> (block \<times> nat) \<times>
     int list \<times> byte list list \<times> bool \<times> libraries" where
  "writer con = (client_capabilities con, write_buffer con, write_buffer_extra con, packet_header con,
     compressed_packet_header con, (uncompressed_buffer con, uncompressed_buffer_len con),
     (compressed_buffer con, compressed_buffer_len con), uv_results con, sent con, stream_closed con, lib con)"

text \<open>The size of the read buffer.\<close>

definition capacity :: "'a con_core_scheme \<Rightarrow> nat" where
  "capacity con = (case read_buffer con of None \<Rightarrow> 0 | Some b \<Rightarrow> buffer_size b)"

definition same_core :: "'a con_core_scheme \<Rightarrow> 'b con_core_scheme \<Rightarrow> bool" where
  "same_core con con' \<longleftrightarrow> opt_compression con' = opt_compression con \<and> server_errno con' = server_errno con \<and>
     writer con' = writer con \<and> capacity con' = capacity con \<and> (allocs con = [] \<longrightarrow> allocs con' = [])"

definition same_but_stmt :: "'a con_core_scheme \<Rightarrow> 'a con_core_scheme \<Rightarrow> bool" where
  "same_but_stmt con con' \<longleftrightarrow> same_core con con' \<and> con_core.more con' = con_core.more con"

definition same_client :: "'a con_core_scheme \<Rightarrow> 'a con_core_scheme \<Rightarrow> bool" where
  "same_client con con' \<longleftrightarrow> same_but_stmt con con' \<and> con_stmt con' = con_stmt con"

lemmas same_defs = same_client_def same_but_stmt_def same_core_def writer_def capacity_def

lemma queue_push_same:
  assumes "queue_push t con = Some con'" shows "same_client con con'"
proof -
  have "allocs con = [] \<longrightarrow> allocs con' = []" using queue_push_allocs[OF assms] by blast
  then show ?thesis using queue_push_frame[OF assms] queue_push_more[OF assms] by (simp add: same_defs)
qed

lemma same_client_trans: "same_client a b \<Longrightarrow> same_client b c \<Longrightarrow> same_client a c"
  by (simp add: same_client_def same_but_stmt_def same_core_def)

lemma same_but_stmt_trans: "same_but_stmt a b \<Longrightarrow> same_but_stmt b c \<Longrightarrow> same_but_stmt a c"
  by (simp add: same_but_stmt_def same_core_def)

section \<open>A stack\<close>

locale packet_stack =
  fixes items :: "'c \<Rightarrow> attachsql_packet_type_t list"
    and invar :: "'c \<Rightarrow> bool"
    and room :: "'c \<Rightarrow> bool"
    and push :: "attachsql_packet_type_t \<Rightarrow> 'c \<Rightarrow> 'c option"
    and pop :: "'c \<Rightarrow> (attachsql_packet_type_t \<times> 'c) option"
    and peek :: "'c \<Rightarrow> attachsql_packet_type_t option"
  assumes push: "invar c \<Longrightarrow> room c \<Longrightarrow> \<exists>c'. push t c = Some c' \<and> invar c' \<and> items c' = t # items c"
    and pop: "invar c \<Longrightarrow> \<exists>c'. pop c = Some (case items c of [] \<Rightarrow> ATTACHSQL_PACKET_TYPE_NONE | t # _ \<Rightarrow> t, c') \<and>
                invar c' \<and> items c' = tl (items c)"
    and peek: "invar c \<Longrightarrow> peek c = Some (case items c of [] \<Rightarrow> ATTACHSQL_PACKET_TYPE_NONE | t # _ \<Rightarrow> t)"
begin

lemma push_pop:
  "invar c \<Longrightarrow> room c \<Longrightarrow> push t c = Some c1 \<Longrightarrow> \<exists>c2. pop c1 = Some (t, c2) \<and> items c2 = items c \<and> invar c2"
  using push[of c t] pop[of c1] by auto

lemma peek_pop: "invar c \<Longrightarrow> pop c = Some (t, c') \<Longrightarrow> peek c = Some t"
  using pop[of c] peek[of c] by auto

lemma pop_empty: "invar c \<Longrightarrow> items c = [] \<Longrightarrow> \<exists>c'. pop c = Some (ATTACHSQL_PACKET_TYPE_NONE, c') \<and> items c' = []"
  using pop[of c] by auto

end

definition queue_ok :: "'a con_core_scheme \<Rightarrow> bool" where
  "queue_ok con \<longleftrightarrow>
     (next_packet_queue_size con = 0 \<and> next_packet_queue_used con = 0) \<or>
     (next_packet_queue_size con = ATTACHSQL_DEFAULT_PACKET_QUEUE_SIZE \<and>
      (\<exists>q. next_packet_queue con = Some q \<and> length q = ATTACHSQL_DEFAULT_PACKET_QUEUE_SIZE \<and>
           next_packet_queue_used con \<le> length q \<and>
           (\<forall>i < next_packet_queue_used con. q ! i \<noteq> None)))"

definition expected :: "'a con_core_scheme \<Rightarrow> attachsql_packet_type_t list" where
  "expected con =
     (case next_packet_queue con of
        Some q \<Rightarrow> rev (map the (take (next_packet_queue_used con) q)) | None \<Rightarrow> [])"

definition queue_room :: "'a con_core_scheme \<Rightarrow> bool" where
  "queue_room con \<longleftrightarrow>
     (if next_packet_queue_size con = 0 then fst (alloc con)
      else next_packet_queue_used con < ATTACHSQL_DEFAULT_PACKET_QUEUE_SIZE)"

definition queue_fields :: "'a con_core_scheme \<Rightarrow> attachsql_packet_type_t option list option \<times> nat \<times> nat" where
  "queue_fields con = (next_packet_queue con, next_packet_queue_size con, next_packet_queue_used con)"

lemma alloc_queue:
  "queue_fields (snd (alloc con)) = queue_fields con"
  by (simp add: alloc_def queue_fields_def split: list.split)

text \<open>An operation that leaves the three fields alone leaves the queue alone.\<close>

lemma queue_frame:
  assumes "queue_fields con' = queue_fields con"
  shows "expected con' = expected con" "queue_ok con' = queue_ok con"
    "attachsql_packet_queue_peek con' = attachsql_packet_queue_peek con"
  using assms
  by (auto simp: queue_fields_def expected_def queue_ok_def attachsql_packet_queue_peek_def queue_at_def
      split: option.splits)

lemma take_snoc_update:
  "n < length q \<Longrightarrow> take (Suc n) (q[n := x]) = take n q @ [x]"
  by (simp add: take_Suc_conv_app_nth)

lemma queue_push_ok:
  assumes ok: "queue_ok con" and room: "queue_room con"
  shows "\<exists>con'. queue_push t con = Some con' \<and> queue_ok con' \<and> expected con' = t # expected con"
proof (cases "next_packet_queue_size con = 0")
  case True
  then have used: "next_packet_queue_used con = 0" using ok by (simp add: queue_ok_def)
  obtain con1 where a: "alloc con = (True, con1)"
    using room True by (cases "alloc con") (simp add: queue_room_def)
  then have f: "next_packet_queue_used con1 = 0"
    using alloc_queue[of con] used by (simp add: queue_fields_def)
  let ?q = "(replicate ATTACHSQL_DEFAULT_PACKET_QUEUE_SIZE None)[0 := Some t]"
  let ?con' = "con1\<lparr>next_packet_queue := Some ?q,
      next_packet_queue_size := ATTACHSQL_DEFAULT_PACKET_QUEUE_SIZE, next_packet_queue_used := 1\<rparr>"
  have "queue_push t con = Some ?con'"
    using True a f by (simp add: queue_push_def attachsql_packet_queue_push_def queue_create_def queue_enlarge_def)
  moreover have "queue_ok ?con'" by (simp add: queue_ok_def)
  moreover have "expected ?con' = t # expected con"
    using used by (simp add: expected_def numeral_eq_Suc split: option.split)
  ultimately show ?thesis by blast
next
  case False
  with ok obtain q where q: "next_packet_queue con = Some q" "length q = ATTACHSQL_DEFAULT_PACKET_QUEUE_SIZE"
    "next_packet_queue_size con = ATTACHSQL_DEFAULT_PACKET_QUEUE_SIZE"
    "\<forall>i < next_packet_queue_used con. q ! i \<noteq> None"
    by (auto simp: queue_ok_def)
  have u: "next_packet_queue_used con < ATTACHSQL_DEFAULT_PACKET_QUEUE_SIZE"
    using room False by (simp add: queue_room_def)
  let ?con' = "con\<lparr>next_packet_queue := Some (q[next_packet_queue_used con := Some t]),
      next_packet_queue_used := next_packet_queue_used con + 1\<rparr>"
  have "queue_push t con = Some ?con'"
    using q u by (simp add: queue_push_def attachsql_packet_queue_push_def queue_create_def queue_enlarge_def)
  moreover have "queue_ok ?con'" using q u by (auto simp: queue_ok_def nth_list_update less_Suc_eq)
  moreover have "expected ?con' = t # expected con"
    using q u by (simp add: expected_def take_snoc_update)
  ultimately show ?thesis by blast
qed

lemma expected_top:
  assumes "queue_ok con" "next_packet_queue_used con \<noteq> 0"
  obtains t where "queue_at con (next_packet_queue_used con - 1) = Some t"
    "expected con = t # expected (con\<lparr>next_packet_queue_used := next_packet_queue_used con - 1\<rparr>)"
proof -
  from assms obtain q where q: "next_packet_queue con = Some q" "next_packet_queue_used con \<le> length q"
    "\<forall>i < next_packet_queue_used con. q ! i \<noteq> None" by (auto simp: queue_ok_def)
  let ?n = "next_packet_queue_used con - 1"
  have n: "next_packet_queue_used con = Suc ?n" using assms(2) by simp
  then obtain t where t: "q ! ?n = Some t" using q(3) by fastforce
  have "take (Suc ?n) q = take ?n q @ [Some t]" using q(2) n t take_Suc_conv_app_nth[of ?n q] by simp
  then have "expected con = t # expected (con\<lparr>next_packet_queue_used := ?n\<rparr>)"
    using q(1) n by (simp add: expected_def)
  moreover have "queue_at con ?n = Some t" using q n t by (simp add: queue_at_def)
  ultimately show ?thesis using that by blast
qed

lemma queue_ok_less: "queue_ok con \<Longrightarrow> n \<le> next_packet_queue_used con \<Longrightarrow> queue_ok (con\<lparr>next_packet_queue_used := n\<rparr>)"
  by (auto simp: queue_ok_def)

lemma expected_empty: "next_packet_queue_used con = 0 \<Longrightarrow> expected con = []"
  by (simp add: expected_def split: option.split)

lemma queue_pop_ok:
  assumes "queue_ok con"
  shows "\<exists>con'. attachsql_packet_queue_pop con =
      Some (case expected con of [] \<Rightarrow> ATTACHSQL_PACKET_TYPE_NONE | t # _ \<Rightarrow> t, con') \<and>
    queue_ok con' \<and> expected con' = tl (expected con)"
proof (cases "next_packet_queue_used con = 0")
  case True
  then show ?thesis using assms by (simp add: attachsql_packet_queue_pop_def expected_empty)
next
  case False
  let ?con' = "con\<lparr>next_packet_queue_used := next_packet_queue_used con - 1\<rparr>"
  obtain t where t: "queue_at con (next_packet_queue_used con - 1) = Some t" "expected con = t # expected ?con'"
    using expected_top[OF assms False] by blast
  have "queue_at ?con' (next_packet_queue_used con - 1) = Some t" using t(1) by (simp add: queue_at_def)
  then have "attachsql_packet_queue_pop con = Some (t, ?con')"
    using False by (simp add: attachsql_packet_queue_pop_def Let_def)
  then show ?thesis using t(2) queue_ok_less[OF assms, of "next_packet_queue_used con - 1"] by simp
qed

lemma queue_peek_ok:
  assumes "queue_ok con"
  shows "attachsql_packet_queue_peek con =
    Some (case expected con of [] \<Rightarrow> ATTACHSQL_PACKET_TYPE_NONE | t # _ \<Rightarrow> t)"
proof (cases "next_packet_queue_used con = 0")
  case True
  then show ?thesis by (simp add: attachsql_packet_queue_peek_def expected_empty)
next
  case False
  then show ?thesis using expected_top[OF assms False]
    by (metis attachsql_packet_queue_peek_def list.simps(5))
qed

interpretation pq: packet_stack expected queue_ok queue_room queue_push attachsql_packet_queue_pop
  attachsql_packet_queue_peek
  by unfold_locales (fact queue_push_ok queue_pop_ok queue_peek_ok)+

section \<open>Properties\<close>

text \<open>
  The expected-packet queue is last in, first out: what is pushed is what the next peek
  and the next pop return, and the pop restores the queue.
\<close>

theorem packet_queue_lifo:
  assumes "queue_ok con" "queue_room con" "queue_push t con = Some con1"
  shows "attachsql_packet_queue_peek con1 = Some t \<and>
    (\<exists>con2. attachsql_packet_queue_pop con1 = Some (t, con2) \<and> expected con2 = expected con \<and> queue_ok con2)"
proof -
  from pq.push[OF assms(1,2), of t] assms(3) have "queue_ok con1" by auto
  then show ?thesis using pq.push_pop[OF assms] pq.peek_pop by blast
qed

definition one_expected :: con_core where
  "one_expected = (core_init \<lparr>zlib_compressBound = id, zlib_compress = Some, zlib_uncompress = Some,
      uv_err_name = (\<lambda>_. [])\<rparr> [] [])
     \<lparr>next_packet_queue := Some (Some ATTACHSQL_PACKET_TYPE_RESPONSE # replicate 63 None),
      next_packet_queue_size := 64, next_packet_queue_used := 1\<rparr>"

lemma one_expected_ok: "queue_ok one_expected" "queue_room one_expected"
  by (simp_all add: queue_ok_def queue_room_def one_expected_def)

theorem packet_queue_lifo_witness:
  "\<exists>con1. queue_push ATTACHSQL_PACKET_TYPE_ROW one_expected = Some con1 \<and>
    attachsql_packet_queue_peek con1 = Some ATTACHSQL_PACKET_TYPE_ROW"
proof -
  obtain con1 where p: "queue_push ATTACHSQL_PACKET_TYPE_ROW one_expected = Some con1"
    using pq.push[OF one_expected_ok] by blast
  with packet_queue_lifo[OF one_expected_ok p] show ?thesis by blast
qed

text \<open>
  The queue grows by bytes where it should grow by elements: when it is full, the push that
  enlarges it stores outside the new, smaller allocation.
\<close>

theorem packet_queue_growth_overflows:
  assumes "queue_ok con" "next_packet_queue_used con = ATTACHSQL_DEFAULT_PACKET_QUEUE_SIZE" "fst (alloc con)"
  shows "attachsql_packet_queue_push t con = None"
proof -
  obtain con1 where a: "alloc con = (True, con1)" using assms(3) by (cases "alloc con") auto
  have q: "next_packet_queue_size con = ATTACHSQL_DEFAULT_PACKET_QUEUE_SIZE"
    using assms(1,2) by (simp add: queue_ok_def)
  obtain q where "next_packet_queue con = Some q" "length q = ATTACHSQL_DEFAULT_PACKET_QUEUE_SIZE"
    using assms(1,2) by (auto simp: queue_ok_def)
  moreover have "queue_fields con1 = queue_fields con" using alloc_queue[of con] a by simp
  ultimately show ?thesis using q assms(2) a
    by (simp add: attachsql_packet_queue_push_def queue_create_def queue_enlarge_def queue_fields_def Let_def)
qed

theorem packet_queue_growth_overflows_witness:
  "attachsql_packet_queue_push ATTACHSQL_PACKET_TYPE_ROW
     (one_expected\<lparr>next_packet_queue := Some (replicate 64 (Some ATTACHSQL_PACKET_TYPE_ROW)),
                   next_packet_queue_used := 64\<rparr>) = None"
  by (rule packet_queue_growth_overflows)
    (simp_all add: queue_ok_def one_expected_def alloc_def core_init_def)

end
