(* ===== verification/Column.thy ===== *)
theory Column
  imports Conn
begin

text \<open>
  \<open>attachsql_packet_get_column\<close> of \<open>src/net.cc\<close>: a column definition packet becomes a \<open>column_t\<close>.
  The wire format is the server's: six length-encoded strings, a fixed part, and a default value,
  which the server only sends for a field list, never for a result set or a prepared statement.
\<close>

section \<open>The function\<close>

text \<open>
  One string of the packet, stored in an array of \<open>limit\<close> bytes: what does not fit is cut off,
  and the pointer goes behind the whole string.
\<close>

definition get_string :: "nat \<Rightarrow> buffer_st \<Rightarrow> (byte list \<times> buffer_st) option" where
  "get_string limit b =
     do { (str_len, _, b) \<leftarrow> get_length b;
          let str_read = (if limit \<le> unat str_len then limit - 1 else unat str_len);
          xs \<leftarrow> get_bytes str_read b;
          Some (xs, skip (unat str_len) b) }"

definition packet_get_column :: "buffer_st \<Rightarrow> (column_t \<times> buffer_st) option" where
  "packet_get_column b =
     do { (str_len, _, b) \<leftarrow> get_length b;
          let b = skip (unat str_len) b;
          (schema, b) \<leftarrow> get_string ATTACHSQL_MAX_SCHEMA_SIZE b;
          (table, b) \<leftarrow> get_string ATTACHSQL_MAX_TABLE_SIZE b;
          (origin_table, b) \<leftarrow> get_string ATTACHSQL_MAX_TABLE_SIZE b;
          (col, b) \<leftarrow> get_string ATTACHSQL_MAX_COLUMN_SIZE b;
          (origin_column, b) \<leftarrow> get_string ATTACHSQL_MAX_COLUMN_SIZE b;
          let b = skip 1 b;
          charset \<leftarrow> get_int2 b;
          let b = skip 2 b;
          len \<leftarrow> get_int4 b;
          let b = skip 4 b;
          type \<leftarrow> get_byte b;
          let b = skip 1 b;
          flags \<leftarrow> get_int2 b;
          let b = skip 2 b;
          decimals \<leftarrow> get_byte b;
          let b = skip 1 b;
          let b = skip 2 b;
          (default_value, b) \<leftarrow> get_string ATTACHSQL_MAX_DEFAULT_VALUE_SIZE b;
          b \<leftarrow> attachsql_buffer_packet_read_end b;
          Some (\<lparr>c_schema = schema, c_table = table, c_origin_table = origin_table, c_column = col,
                 c_origin_column = origin_column, c_charset = charset, c_length = len,
                 c_type = column_type_of_byte type, c_flags = flags, c_decimals = decimals,
                 c_default_value = default_value, c_default_size = length default_value\<rparr>, b) }"

definition attachsql_packet_get_column ::
  "'a con_core_scheme \<Rightarrow> (column_t \<times> 'a con_core_scheme) option" where
  "attachsql_packet_get_column con =
     do { b \<leftarrow> read_buffer con;
          (col, b) \<leftarrow> packet_get_column b;
          Some (col, con\<lparr>read_buffer := Some b\<rparr>) }"

section \<open>The wire format\<close>

definition enc_string :: "byte list \<Rightarrow> byte list" where
  "enc_string xs = enc_length (of_nat (length xs)) @ xs"

definition string_good :: "byte list \<Rightarrow> bool" where
  "string_good xs \<longleftrightarrow> length xs < 2 ^ 64 \<and> len_good (of_nat (length xs))"

definition enc_column_head :: "byte list \<Rightarrow> column_t \<Rightarrow> byte list" where
  "enc_column_head catalog c =
     enc_string catalog @ enc_string (c_schema c) @ enc_string (c_table c) @
     enc_string (c_origin_table c) @ enc_string (c_column c) @ enc_string (c_origin_column c) @
     0x0C # le_bytes 2 (c_charset c) @ le_bytes 4 (c_length c) @
     ucast (column_type_code (c_type c)) # le_bytes 2 (c_flags c) @ c_decimals c # 0 # 0 # []"

text \<open>What the arrays of a \<open>column_t\<close> keep of it.\<close>

definition column_cut :: "column_t \<Rightarrow> column_t" where
  "column_cut c = \<lparr>c_schema = take (ATTACHSQL_MAX_SCHEMA_SIZE - 1) (c_schema c),
     c_table = take (ATTACHSQL_MAX_TABLE_SIZE - 1) (c_table c),
     c_origin_table = take (ATTACHSQL_MAX_TABLE_SIZE - 1) (c_origin_table c),
     c_column = take (ATTACHSQL_MAX_COLUMN_SIZE - 1) (c_column c),
     c_origin_column = take (ATTACHSQL_MAX_COLUMN_SIZE - 1) (c_origin_column c),
     c_charset = c_charset c, c_length = c_length c, c_type = c_type c, c_flags = c_flags c,
     c_decimals = c_decimals c,
     c_default_value = take (ATTACHSQL_MAX_DEFAULT_VALUE_SIZE - 1) (c_default_value c),
     c_default_size = length (take (ATTACHSQL_MAX_DEFAULT_VALUE_SIZE - 1) (c_default_value c))\<rparr>"

definition column_good :: "byte list \<Rightarrow> column_t \<Rightarrow> bool" where
  "column_good catalog c \<longleftrightarrow> string_good catalog \<and> string_good (c_schema c) \<and> string_good (c_table c) \<and>
     string_good (c_origin_table c) \<and> string_good (c_column c) \<and> string_good (c_origin_column c) \<and>
     column_type_code (c_type c) < 0x100 \<and>
     column_type_of_byte (ucast (column_type_code (c_type c))) = c_type c"

lemma get_string_ahead:
  assumes "ahead b (enc_string xs @ ys)" "string_good xs" "0 < limit"
  shows "get_string limit b = Some (take (limit - 1) xs, skip (length (enc_string xs)) b)"
proof -
  let ?v = "of_nat (length xs) :: uint64"
  have a: "ahead b (enc_length ?v @ xs @ ys)" using assms(1) by (simp add: enc_string_def)
  have l: "unat ?v = length xs" using assms(2) by (simp add: string_good_def unat_of_nat)
  note len = ahead_length[OF a]
  have bytes: "n \<le> length xs \<Longrightarrow> get_bytes n (skip (length (enc_length ?v)) b) = Some (take n xs)" for n
    using ahead_take[OF ahead_skip[OF a], of n] by simp
  show ?thesis using len bytes[of "limit - 1"] bytes[of "length xs"] assms(2,3) l
    by (cases "limit \<le> length xs") (simp_all add: get_string_def string_good_def enc_string_def Let_def)
qed

lemma catalog_ahead:
  assumes "ahead b (enc_string xs @ ys)" "string_good xs"
  shows "\<exists>v n b'. get_length b = Some (v, n, b') \<and> skip (unat v) b' = skip (length (enc_string xs)) b"
  using ahead_length[of b "of_nat (length xs)" "xs @ ys"] assms
  by (auto simp: enc_string_def string_good_def unat_of_nat)

text \<open>Everything up to the default value.\<close>

lemma column_head_read:
  assumes good: "column_good catalog c" and a: "ahead b (enc_column_head catalog c @ ys)"
  shows "packet_get_column b =
    do { (default_value, b) \<leftarrow> get_string ATTACHSQL_MAX_DEFAULT_VALUE_SIZE
            (skip (length (enc_column_head catalog c)) b);
         b \<leftarrow> attachsql_buffer_packet_read_end b;
         Some ((column_cut c)\<lparr>c_default_value := default_value, c_default_size := length default_value\<rparr>, b) }"
proof -
  have g: "string_good catalog" "string_good (c_schema c)" "string_good (c_table c)"
    "string_good (c_origin_table c)" "string_good (c_column c)" "string_good (c_origin_column c)"
    using good by (auto simp: column_good_def)
  let ?ty = "ucast (column_type_code (c_type c)) :: byte"
  define r7 where "r7 = le_bytes 2 (c_flags c) @ c_decimals c # 0 # 0 # ys"
  define r6 where "r6 = 0x0C # le_bytes 2 (c_charset c) @ le_bytes 4 (c_length c) @ ?ty # r7"
  define b0 where "b0 = skip (length (enc_string catalog)) b"
  define b1 where "b1 = skip (length (enc_string (c_schema c))) b0"
  define b2 where "b2 = skip (length (enc_string (c_table c))) b1"
  define b3 where "b3 = skip (length (enc_string (c_origin_table c))) b2"
  define b4 where "b4 = skip (length (enc_string (c_column c))) b3"
  define b5 where "b5 = skip (length (enc_string (c_origin_column c))) b4"
  have a0: "ahead b (enc_string catalog @ enc_string (c_schema c) @ enc_string (c_table c) @
      enc_string (c_origin_table c) @ enc_string (c_column c) @ enc_string (c_origin_column c) @ r6)"
    using a by (simp add: enc_column_head_def r6_def r7_def)
  note a1 = ahead_skip[OF a0, folded b0_def]
  note a2 = ahead_skip[OF a1, folded b1_def]
  note a3 = ahead_skip[OF a2, folded b2_def]
  note a4 = ahead_skip[OF a3, folded b3_def]
  note a5 = ahead_skip[OF a4, folded b4_def]
  note a6 = ahead_skip[OF a5, folded b5_def]
  have a7: "ahead (skip 1 b5) (le_bytes 2 (c_charset c) @ le_bytes 4 (c_length c) @ ?ty # r7)"
    using ahead_Cons[of b5] a6 by (simp add: r6_def)
  have a8: "ahead (skip 3 b5) (le_bytes 4 (c_length c) @ ?ty # r7)"
    using ahead_skip[OF a7] by (simp add: numeral_3_eq_3)
  have a9: "ahead (skip 7 b5) (?ty # r7)" using ahead_skip[OF a8] by simp
  have a10: "ahead (skip 8 b5) (le_bytes 2 (c_flags c) @ c_decimals c # 0 # 0 # ys)"
    using ahead_Cons[OF a9] by (simp add: r7_def)
  have a11: "ahead (skip 10 b5) (c_decimals c # 0 # 0 # ys)" using ahead_skip[OF a10] by simp
  obtain v n b' where cat: "get_length b = Some (v, n, b')" "skip (unat v) b' = b0"
    using catalog_ahead[OF a0 g(1)] by (auto simp: b0_def)
  note st = get_string_ahead[OF a1 g(2), of ATTACHSQL_MAX_SCHEMA_SIZE, folded b1_def]
    get_string_ahead[OF a2 g(3), of ATTACHSQL_MAX_TABLE_SIZE, folded b2_def]
    get_string_ahead[OF a3 g(4), of ATTACHSQL_MAX_TABLE_SIZE, folded b3_def]
    get_string_ahead[OF a4 g(5), of ATTACHSQL_MAX_COLUMN_SIZE, folded b4_def]
    get_string_ahead[OF a5 g(6), of ATTACHSQL_MAX_COLUMN_SIZE, folded b5_def]
  note fx = ahead_int2[OF a7] ahead_int4[OF a8] ahead_byte[OF a9] ahead_int2[OF a10] ahead_byte[OF a11]
  have last: "skip 13 b5 = skip (length (enc_column_head catalog c)) b"
    by (simp add: b5_def b4_def b3_def b2_def b1_def b0_def enc_column_head_def add.assoc)
  have ty: "column_type_of_byte ?ty = c_type c" using good by (simp add: column_good_def)
  show ?thesis
    using fx ahead_int4[OF a8, unfolded numeral_3_eq_3] last
    by (simp add: packet_get_column_def Let_def cat st ty column_cut_def)
qed

text \<open>A packet on its own in a buffer, received up to \<open>extra\<close> bytes behind it.\<close>

definition packet_buffer :: "byte list \<Rightarrow> byte list \<Rightarrow> buffer_st" where
  "packet_buffer xs extra =
     \<lparr>buffer_gen = 0, buffer = blk_realloc (blk_of (xs @ extra)) 4096, buffer_size = 4096,
      buffer_used = length (xs @ extra), buffer_write_ptr = length (xs @ extra), buffer_read_ptr = 0,
      packet_end_ptr = Some (length xs)\<rparr>"

lemma packet_buffer_ahead: "length (xs @ extra) \<le> 4096 \<Longrightarrow> ahead (packet_buffer xs extra) (xs @ extra)"
  using blk_realloc_has[OF blk_of_has[of "xs @ extra"], of 4096] by (simp add: ahead_def packet_buffer_def)

definition sample_column :: column_t where
  "sample_column = \<lparr>c_schema = [0x64], c_table = [0x74], c_origin_table = [0x74], c_column = [0x61, 0x62],
     c_origin_column = [0x61], c_charset = 33, c_length = 11, c_type = ATTACHSQL_COLUMN_TYPE_LONG,
     c_flags = 1, c_decimals = 0, c_default_value = [0x30], c_default_size = 1\<rparr>"

lemma sample_column_good: "column_good [0x64, 0x65, 0x66] sample_column" "string_good (c_default_value sample_column)"
proof -
  have s: "string_good xs" if "length xs < 128" for xs
    using that by (simp add: string_good_def len_good_def word_less_nat_alt unat_of_nat)
  have "column_type_of_byte (ucast (column_type_code (c_type sample_column))) = c_type sample_column"
    by (simp add: sample_column_def column_type_of_byte_def)
  moreover have "column_type_code (c_type sample_column) < 0x100" by (simp add: sample_column_def)
  ultimately show "column_good [0x64, 0x65, 0x66] sample_column"
    unfolding column_good_def by (intro conjI s) (simp_all add: sample_column_def)
  show "string_good (c_default_value sample_column)" by (rule s) (simp add: sample_column_def)
qed

lemma sample_column_length: "length (enc_column_head [0x64, 0x65, 0x66] sample_column) = 28"
  by (simp add: enc_column_head_def sample_column_def enc_string_def enc_length_def)

section \<open>Properties\<close>

text \<open>
  A column definition packet with a default value behind it, as in a field list, is read
  field by field, each string cut to its array, and the read pointer ends at the end of the
  packet.
\<close>

theorem column_packet_read:
  assumes "column_good catalog c" "string_good (c_default_value c)"
    and "ahead b (enc_column_head catalog c @ enc_string (c_default_value c))"
    and "packet_end_ptr b = Some e" "e \<noteq> buffer_write_ptr b"
  shows "\<exists>b'. packet_get_column b = Some (column_cut c, b') \<and> buffer_read_ptr b' = e \<and>
    buffer b' = buffer b \<and> buffer_write_ptr b' = buffer_write_ptr b"
proof -
  have "ahead (skip (length (enc_column_head catalog c)) b) (enc_string (c_default_value c) @ [])"
    using ahead_skip[OF assms(3)] by simp
  from get_string_ahead[OF this assms(2), of ATTACHSQL_MAX_DEFAULT_VALUE_SIZE] show ?thesis
    using column_head_read[OF assms(1,3)] assms(4,5)
    by (simp add: attachsql_buffer_packet_read_end_def column_cut_def)
qed

theorem column_packet_read_witness:
  "\<exists>b'. packet_get_column (packet_buffer (enc_column_head [0x64, 0x65, 0x66] sample_column @ [1, 0x30]) [7])
      = Some (column_cut sample_column, b') \<and> buffer_read_ptr b' = 30"
proof -
  let ?xs = "enc_column_head [0x64, 0x65, 0x66] sample_column @ [1, 0x30]"
  have "ahead (packet_buffer ?xs [7]) (?xs @ [7])"
    by (rule packet_buffer_ahead) (simp add: sample_column_length)
  then have "ahead (packet_buffer ?xs [7]) (enc_column_head [0x64, 0x65, 0x66] sample_column @
      enc_string (c_default_value sample_column))"
    using ahead_append[of _ ?xs "[7]"] by (simp add: sample_column_def enc_string_def enc_length_def)
  from column_packet_read[OF sample_column_good this, of 30] show ?thesis
    by (auto simp: packet_buffer_def sample_column_length)
qed

text \<open>
  A column definition packet as the server sends it for a result set, without a default
  value, is read past its end: if nothing has ever been received behind the packet, the bytes
  read there are indeterminate.
\<close>

theorem column_packet_overread:
  assumes "column_good catalog c" "ahead b (enc_column_head catalog c)"
    and "blk_get (buffer b) (buffer_read_ptr b + length (enc_column_head catalog c)) = None"
  shows "packet_get_column b = None"
proof -
  have a: "ahead b (enc_column_head catalog c @ [])" using assms(2) by simp
  have "get_string l (skip (length (enc_column_head catalog c)) b) = None" for l
    using assms(3)
    by (simp add: get_string_def get_length_def unpack_length_at_def attachsql_unpack_length_def)
  then show ?thesis using column_head_read[OF assms(1) a] by simp
qed

theorem column_packet_overread_witness:
  "packet_get_column (packet_buffer (enc_column_head [0x64, 0x65, 0x66] sample_column) []) = None"
proof (rule column_packet_overread[OF sample_column_good(1)])
  let ?xs = "enc_column_head [0x64, 0x65, 0x66] sample_column"
  show "ahead (packet_buffer ?xs []) ?xs"
    using packet_buffer_ahead[of ?xs "[]"] by (simp add: sample_column_length)
  show "blk_get (buffer (packet_buffer ?xs [])) (buffer_read_ptr (packet_buffer ?xs []) + length ?xs) = None"
    by (simp add: packet_buffer_def blk_realloc_get blk_of_get)
qed

end
