(* ===== verification/Response.thy ===== *)
theory Response
  imports Packet_Queue Column
begin

text \<open>
  The readers of the packets a server sends after the handshake, \<open>src/net.cc\<close>: OK, error, EOF and
  result set header, the answers to a statement preparation, column definitions and rows. Each
  is called with the read pointer on the payload of a packet and \<open>packet_end_ptr\<close> behind it.
\<close>

section \<open>The readers\<close>

definition attachsql_packet_read_end :: "'a con_core_scheme \<Rightarrow> 'a con_core_scheme option" where
  "attachsql_packet_read_end con =
     do { b \<leftarrow> read_buffer con;
          b \<leftarrow> attachsql_buffer_packet_read_end b;
          Some (con\<lparr>read_buffer := Some b\<rparr>) }"

text \<open>
  The server message of an OK or error packet, from the read pointer to the end of the packet by
  the count \<open>data_read\<close> of the bytes read so far, and the pointer moved.
\<close>

definition read_message :: "uint32 \<Rightarrow> buffer_st \<Rightarrow> 'a con_core_scheme \<Rightarrow> 'a con_core_scheme option" where
  "read_message data_read b con =
     do { let rest = packet_size con - data_read;
          msg \<leftarrow> precision_string (buffer b) (buffer_read_ptr b) rest;
          Some (con\<lparr>server_message := text_array ATTACHSQL_MAX_MESSAGE_LEN msg,
                    read_buffer := Some (skip (unat rest) b)\<rparr>) }"

definition read_ok_packet :: "buffer_st \<Rightarrow> 'a con_core_scheme \<Rightarrow> 'a con_core_scheme option" where
  "read_ok_packet b con =
     do { let b = skip 1 b;
          (affected, bytes1, b) \<leftarrow> get_length b;
          (insert, bytes2, b) \<leftarrow> get_length b;
          sstatus \<leftarrow> get_int2 b;
          let b = skip 2 b;
          warnings \<leftarrow> get_int2 b;
          let b = skip 2 b;
          let con = con\<lparr>affected_rows := affected, insert_id := insert, server_status := sstatus,
                        warning_count := warnings\<rparr>;
          con \<leftarrow> read_message (1 + of_nat bytes1 + of_nat bytes2 + 4) b con;
          let con =
            (if con_status con = ATTACHSQL_CON_STATUS_CONNECTING then
               (if client_capabilities con AND ATTACHSQL_CAPABILITY_COMPRESS \<noteq> 0
                then con\<lparr>command_status := ATTACHSQL_COMMAND_STATUS_CONNECTED, opt_compression := True\<rparr>
                else con\<lparr>command_status := ATTACHSQL_COMMAND_STATUS_CONNECTED\<rparr>)
             else con\<lparr>command_status := ATTACHSQL_COMMAND_STATUS_EOF\<rparr>);
          attachsql_packet_read_end (con\<lparr>con_status := ATTACHSQL_CON_STATUS_IDLE\<rparr>) }"

definition read_error_packet :: "buffer_st \<Rightarrow> 'a con_core_scheme \<Rightarrow> 'a con_core_scheme option" where
  "read_error_packet b con =
     do { let b = skip 1 b;
          errno \<leftarrow> get_int2 b;
          let b = skip 3 b;
          state \<leftarrow> get_bytes 5 b;
          sqlstate \<leftarrow> blk_write (con_sqlstate con) 0 state;
          let b = skip 5 b;
          con \<leftarrow> read_message (1 + 3 + 5) b (con\<lparr>server_errno := errno, con_sqlstate := sqlstate\<rparr>);
          attachsql_packet_read_end
            (con\<lparr>con_status := (if command_status con = ATTACHSQL_COMMAND_STATUS_READ_RESPONSE
                               then ATTACHSQL_CON_STATUS_CONNECT_FAILED
                               else ATTACHSQL_CON_STATUS_IDLE),
                 next_packet_queue_used := 0,
                 command_status := ATTACHSQL_COMMAND_STATUS_EOF\<rparr>) }"

definition read_eof_packet :: "buffer_st \<Rightarrow> 'a con_core_scheme \<Rightarrow> 'a con_core_scheme option" where
  "read_eof_packet b con =
     do { let b = skip 1 b;
          warnings \<leftarrow> get_int2 b;
          let b = skip 2 b;
          sstatus \<leftarrow> get_int2 b;
          let b = skip 2 b;
          let con = con\<lparr>warning_count := warnings, server_status := sstatus, read_buffer := Some b\<rparr>;
          if command_status con = ATTACHSQL_COMMAND_STATUS_READ_COLUMN then
            do { con \<leftarrow> queue_push ATTACHSQL_PACKET_TYPE_ROW
                          (con\<lparr>command_status := ATTACHSQL_COMMAND_STATUS_READ_ROW\<rparr>);
                 attachsql_packet_read_end con }
          else if command_status con = ATTACHSQL_COMMAND_STATUS_READ_STMT_PARAM then
            do { stmt \<leftarrow> con_stmt con;
                 if 0 < stmt_column_count stmt then
                   do { con \<leftarrow> queue_push ATTACHSQL_PACKET_TYPE_PREPARE_COLUMN
                                 (con\<lparr>command_status := ATTACHSQL_COMMAND_STATUS_READ_STMT_COLUMN\<rparr>);
                        attachsql_packet_read_end con }
                 else attachsql_packet_read_end
                        (con\<lparr>command_status := ATTACHSQL_COMMAND_STATUS_EOF,
                             con_status := ATTACHSQL_CON_STATUS_IDLE\<rparr>) }
          else attachsql_packet_read_end
                 (con\<lparr>command_status := ATTACHSQL_COMMAND_STATUS_EOF,
                      con_status := ATTACHSQL_CON_STATUS_IDLE\<rparr>) }"

text \<open>The number of columns is cut to 16 bits; the array from \<open>new\<close> may be NULL.\<close>

definition read_result_packet :: "buffer_st \<Rightarrow> 'a con_core_scheme \<Rightarrow> 'a con_core_scheme option" where
  "read_result_packet b con =
     do { (n, _, b) \<leftarrow> get_length b;
          let (ok, con) = alloc (con\<lparr>read_buffer := Some b\<rparr>);
          let count = ucast n;
          let con = con\<lparr>con_result := (con_result con)\<lparr>column_count := count,
                result_columns := (if ok then Some (replicate (unat count) None) else None)\<rparr>\<rparr>;
          con \<leftarrow> attachsql_packet_read_end con;
          con \<leftarrow> queue_push ATTACHSQL_PACKET_TYPE_COLUMN con;
          Some (con\<lparr>command_status := ATTACHSQL_COMMAND_STATUS_READ_COLUMN\<rparr>) }"

definition attachsql_packet_read_response :: "'a con_core_scheme \<Rightarrow> 'a con_core_scheme option" where
  "attachsql_packet_read_response con =
     do { b \<leftarrow> read_buffer con;
          c \<leftarrow> get_byte b;
          if c = 0x00 then read_ok_packet b con
          else if c = 0xff then read_error_packet b con
          else if c = 0xfe then read_eof_packet b con
          else read_result_packet b con }"

definition attachsql_packet_read_row :: "'a con_core_scheme \<Rightarrow> 'a con_core_scheme option" where
  "attachsql_packet_read_row con =
     do { b \<leftarrow> read_buffer con;
          c \<leftarrow> get_byte b;
          if c = 0xfe then
            attachsql_packet_read_response
              (con\<lparr>con_result := (con_result con)\<lparr>row_data := None, row_length := 0\<rparr>\<rparr>)
          else
            Some (con\<lparr>con_result := (con_result con)\<lparr>row_data := Some (buffer_gen b, buffer_read_ptr b),
                                                    row_length := unat (packet_size con)\<rparr>,
                      command_status := ATTACHSQL_COMMAND_STATUS_ROW_IN_BUFFER,
                      con_status := ATTACHSQL_CON_STATUS_IDLE\<rparr>) }"

text \<open>
  The answer to a preparation. Both arrays come from \<open>new\<close> and may be NULL; a parameter's
  constructor has run in \<open>param_data\<close>.
\<close>

definition prepare_arrays :: "attachsql_stmt_st \<Rightarrow> 'a con_core_scheme \<Rightarrow> attachsql_stmt_st \<times> 'a con_core_scheme" where
  "prepare_arrays stmt con =
     (if param_count stmt \<noteq> 0 then
        let (ok1, con) = alloc con; (ok2, con) = alloc con; n = unat (param_count stmt)
        in (stmt\<lparr>stmt_params := (if ok1 then Some (replicate n None) else None),
                 param_data := (if ok2 then Some (replicate n param_init) else None)\<rparr>, con)
      else (stmt, con))"

definition prepare_expect :: "attachsql_stmt_st \<Rightarrow> 'a con_core_scheme \<Rightarrow> 'a con_core_scheme option" where
  "prepare_expect stmt con =
     (if 0 < param_count stmt then
        do { con \<leftarrow> queue_push ATTACHSQL_PACKET_TYPE_PREPARE_PARAMETER con;
             Some (con\<lparr>command_status := ATTACHSQL_COMMAND_STATUS_READ_STMT_PARAM\<rparr>) }
      else if 0 < stmt_column_count stmt then
        do { con \<leftarrow> queue_push ATTACHSQL_PACKET_TYPE_PREPARE_COLUMN con;
             Some (con\<lparr>command_status := ATTACHSQL_COMMAND_STATUS_READ_STMT_COLUMN\<rparr>) }
      else attachsql_packet_read_end
             (con\<lparr>command_status := ATTACHSQL_COMMAND_STATUS_EOF, con_status := ATTACHSQL_CON_STATUS_IDLE\<rparr>))"

definition attachsql_packet_read_prepare_response :: "'a con_core_scheme \<Rightarrow> 'a con_core_scheme option" where
  "attachsql_packet_read_prepare_response con =
     do { b \<leftarrow> read_buffer con;
          c \<leftarrow> get_byte b;
          if c \<noteq> 0x00 then attachsql_packet_read_response con
          else do {
            let b = skip 1 b;
            stmt \<leftarrow> con_stmt con;
            sid \<leftarrow> get_int4 b;
            let b = skip 4 b;
            columns \<leftarrow> get_int2 b;
            let b = skip 2 b;
            params \<leftarrow> get_int2 b;
            let b = skip 3 b;
            warnings \<leftarrow> get_int2 b;
            let b = skip 2 b;
            let (stmt, con) = prepare_arrays
              (stmt\<lparr>stmt_id := sid, stmt_column_count := columns, param_count := params\<rparr>)
              (con\<lparr>warning_count := warnings, read_buffer := Some b\<rparr>);
            con \<leftarrow> prepare_expect stmt (con\<lparr>con_stmt := Some stmt\<rparr>);
            b \<leftarrow> read_buffer con;
            let b = skip (unat (packet_size con - 12)) b;
            attachsql_packet_read_end
              (con\<lparr>read_buffer := Some b, con_stmt := Some (stmt\<lparr>stmt_state := ATTACHSQL_STMT_STATE_PREPARED\<rparr>)\<rparr>) } }"

text \<open>Storing a column definition in an array of them.\<close>

definition set_column :: "nat \<Rightarrow> column_t \<Rightarrow> column_t option list option \<Rightarrow> column_t option list option option" where
  "set_column i col columns =
     (case columns of
        Some cs \<Rightarrow> if i < length cs then Some (Some (cs[i := Some col])) else None
      | None \<Rightarrow> None)"

definition attachsql_packet_read_prepare_parameter :: "'a con_core_scheme \<Rightarrow> 'a con_core_scheme option" where
  "attachsql_packet_read_prepare_parameter con =
     do { stmt \<leftarrow> con_stmt con;
          (col, con) \<leftarrow> attachsql_packet_get_column con;
          params \<leftarrow> set_column (unat (current_param stmt)) col (stmt_params stmt);
          let stmt = stmt\<lparr>stmt_params := params, current_param := current_param stmt + 1\<rparr>;
          let con = con\<lparr>con_stmt := Some stmt\<rparr>;
          queue_push (if current_param stmt = param_count stmt then ATTACHSQL_PACKET_TYPE_RESPONSE
                      else ATTACHSQL_PACKET_TYPE_PREPARE_PARAMETER) con }"

definition attachsql_packet_read_prepare_column :: "'a con_core_scheme \<Rightarrow> 'a con_core_scheme option" where
  "attachsql_packet_read_prepare_column con =
     do { con \<leftarrow> attachsql_packet_read_end con;
          stmt \<leftarrow> con_stmt con;
          let stmt = stmt\<lparr>stmt_current_column := stmt_current_column stmt + 1\<rparr>;
          let con = con\<lparr>con_stmt := Some stmt\<rparr>;
          queue_push (if stmt_current_column stmt = stmt_column_count stmt then ATTACHSQL_PACKET_TYPE_RESPONSE
                      else ATTACHSQL_PACKET_TYPE_PREPARE_COLUMN) con }"

definition attachsql_packet_read_column :: "'a con_core_scheme \<Rightarrow> 'a con_core_scheme option" where
  "attachsql_packet_read_column con =
     do { (col, con) \<leftarrow> attachsql_packet_get_column con;
          let res = con_result con;
          columns \<leftarrow> set_column (unat (current_column res)) col (result_columns res);
          let res = res\<lparr>result_columns := columns, current_column := current_column res + 1\<rparr>;
          let con = con\<lparr>con_result := res\<rparr>;
          queue_push (if current_column res = column_count res then ATTACHSQL_PACKET_TYPE_RESPONSE
                      else ATTACHSQL_PACKET_TYPE_COLUMN) con }"

section \<open>A packet in the read buffer\<close>

text \<open>The payload of a packet at the read pointer, its end marked, and the bytes received behind it.\<close>

definition packet_in :: "buffer_st \<Rightarrow> byte list \<Rightarrow> byte list \<Rightarrow> bool" where
  "packet_in b payload rest \<longleftrightarrow> buffer_ok b \<and> buffer_bytes b = payload @ rest \<and>
     packet_end_ptr b = Some (buffer_read_ptr b + length payload)"

definition at_packet :: "'a con_core_scheme \<Rightarrow> byte list \<Rightarrow> byte list \<Rightarrow> bool" where
  "at_packet con payload rest \<longleftrightarrow>
     (\<exists>b. read_buffer con = Some b \<and> packet_in b payload rest) \<and>
     packet_size con = of_nat (length payload) \<and> length payload < 2 ^ 24"

lemma packet_buffer_in:
  assumes "length (xs @ extra) \<le> 4096" shows "packet_in (packet_buffer xs extra) xs extra"
proof -
  let ?b = "packet_buffer xs extra"
  have g: "blk_get (buffer ?b) i = Some ((xs @ extra) ! i)" if "i < length (xs @ extra)" for i
    using that assms by (simp add: packet_buffer_def blk_realloc_get blk_of_get)
  have "buffer_ok ?b" using g assms by (auto simp: buffer_ok_def) (auto simp: packet_buffer_def)
  moreover have "buffer_bytes ?b = xs @ extra"
    using g by (intro nth_equalityI) (auto simp: buffer_bytes_def packet_buffer_def)
  ultimately show ?thesis by (simp add: packet_in_def) (simp add: packet_buffer_def)
qed

text \<open>The buffer after the packet: everything behind it is still unread.\<close>

definition past_packet :: "buffer_st \<Rightarrow> buffer_st" where
  "past_packet b =
     (if packet_end_ptr b = Some (buffer_write_ptr b)
      then b\<lparr>buffer_read_ptr := 0, buffer_write_ptr := 0, buffer_used := 0, packet_end_ptr := Some 0\<rparr>
      else b\<lparr>buffer_read_ptr := the (packet_end_ptr b)\<rparr>)"

lemma packet_in_ahead: "packet_in b payload rest \<Longrightarrow> ahead b (payload @ rest)"
  using buffer_ok_has[of b] by (simp add: packet_in_def ahead_def)

lemma read_end_past:
  "packet_in b payload rest \<Longrightarrow> attachsql_buffer_packet_read_end (skip n b) = Some (past_packet b)"
  by (auto simp: packet_in_def attachsql_buffer_packet_read_end_def past_packet_def skip_def)

text \<open>A buffer that has been read to its end begins anew.\<close>

definition rewound :: "buffer_st \<Rightarrow> bool" where
  "rewound b \<longleftrightarrow> (buffer_read_ptr b = buffer_write_ptr b \<longrightarrow> buffer_write_ptr b = 0)"

lemma packet_buffer_rewound [simp]: "rewound (packet_buffer xs extra)"
  by (simp add: rewound_def packet_buffer_def)

lemma past_packet_size [simp]: "buffer_size (past_packet b) = buffer_size b"
  by (simp add: past_packet_def)

lemma past_packet_ok:
  assumes "packet_in b payload rest"
  shows "buffer_ok (past_packet b)" "buffer_bytes (past_packet b) = rest" "rewound (past_packet b)"
proof -
  let ?n = "length payload"
  have b: "buffer_ok b" "buffer_bytes b = payload @ rest" "packet_end_ptr b = Some (buffer_read_ptr b + ?n)"
    using assms by (simp_all add: packet_in_def)
  obtain b' where "buffer_take ?n b = Some (payload, b')" "buffer_ok b'" "buffer_bytes b' = rest"
    using bq.take_front[OF b(1), of ?n] b(2) by auto
  moreover have "b\<lparr>packet_end_ptr := Some (buffer_read_ptr b + ?n)\<rparr> = b" using b(3) by simp
  then have "b' = past_packet b" if "buffer_take ?n b = Some (payload, b')" for b'
    using that read_end_past[OF assms, of 0] by (auto simp: buffer_take_def split: bind_splits)
  ultimately show "buffer_ok (past_packet b)" "buffer_bytes (past_packet b) = rest" by metis+
  show "rewound (past_packet b)" using b(3) by (auto simp: rewound_def past_packet_def)
qed

lemma read_end_at:
  assumes "read_buffer con = Some (skip n b)" "packet_in b payload rest"
  shows "attachsql_packet_read_end con = Some (con\<lparr>read_buffer := Some (past_packet b)\<rparr>)"
  using assms read_end_past[OF assms(2)] by (simp add: attachsql_packet_read_end_def)

section \<open>OK, error and EOF packets\<close>

definition ok_payload :: "uint64 \<Rightarrow> uint64 \<Rightarrow> uint16 \<Rightarrow> uint16 \<Rightarrow> byte list \<Rightarrow> byte list" where
  "ok_payload affected inserted sstatus warnings msg =
     0x00 # enc_length affected @ enc_length inserted @ le_bytes 2 sstatus @ le_bytes 2 warnings @ msg"

definition error_payload :: "uint16 \<Rightarrow> byte list \<Rightarrow> byte list \<Rightarrow> byte list" where
  "error_payload code state msg = 0xff # le_bytes 2 code @ 0x23 # state @ msg"

definition eof_payload :: "uint16 \<Rightarrow> uint16 \<Rightarrow> byte list" where
  "eof_payload warnings sstatus = 0xfe # le_bytes 2 warnings @ le_bytes 2 sstatus"

text \<open>The message, as much of the packet as is left.\<close>

lemma read_message_ok:
  assumes a: "ahead b (msg @ rest)" and nul: "0 \<notin> set msg"
    and size: "packet_size con = data_read + of_nat (length msg)" "length msg < 2 ^ 31"
  shows "read_message data_read b con = Some (con\<lparr>server_message := take (ATTACHSQL_MAX_MESSAGE_LEN - 1) msg,
     read_buffer := Some (skip (length msg) b)\<rparr>)"
proof -
  have d: "packet_size con - data_read = of_nat (length msg)" using size(1) by simp
  have n: "unat (of_nat (length msg) :: uint32) = length msg"
    using size(2) by (simp add: unat_of_nat take_bit_nat_eq_self)
  have "int (length msg) < 2 ^ 31" using size(2) by simp
  then have "sint (of_nat (length msg) :: uint32) = int (length msg)"
    by (simp add: signed_of_nat signed_take_bit_int_eq_self)
  then have s: "0 \<le> sint (of_nat (length msg) :: uint32)" by simp
  have "blk_cstr (buffer b) (buffer_read_ptr b) (length msg) = Some msg"
    using blk_cstr_cut[of "buffer b" "buffer_read_ptr b" msg "length msg"] ahead_append[OF a] nul
    by (simp add: ahead_def)
  then show ?thesis using s
    by (simp add: read_message_def Let_def d n precision_string_def text_array_def)
qed

definition ok_received :: "uint64 \<Rightarrow> uint64 \<Rightarrow> uint16 \<Rightarrow> uint16 \<Rightarrow> byte list \<Rightarrow> 'a con_core_scheme \<Rightarrow> 'a con_core_scheme" where
  "ok_received affected inserted sstatus warnings msg con =
     con\<lparr>affected_rows := affected, insert_id := inserted, server_status := sstatus, warning_count := warnings,
        server_message := take (ATTACHSQL_MAX_MESSAGE_LEN - 1) msg,
        command_status := (if con_status con = ATTACHSQL_CON_STATUS_CONNECTING
                           then ATTACHSQL_COMMAND_STATUS_CONNECTED else ATTACHSQL_COMMAND_STATUS_EOF),
        opt_compression := (opt_compression con \<or> (con_status con = ATTACHSQL_CON_STATUS_CONNECTING \<and>
                            client_capabilities con AND ATTACHSQL_CAPABILITY_COMPRESS \<noteq> 0)),
        con_status := ATTACHSQL_CON_STATUS_IDLE,
        read_buffer := map_option past_packet (read_buffer con)\<rparr>"

lemma ok_head_read:
  assumes a: "ahead b (ok_payload affected inserted sstatus warnings msg @ rest)"
    and good: "len_good affected" "len_good inserted"
  shows "\<exists>b1 b2 b3. b1 = skip 1 b \<and> get_length b1 = Some (affected, length (enc_length affected), b2) \<and>
     get_length b2 = Some (inserted, length (enc_length inserted), b3) \<and> get_int2 b3 = Some sstatus \<and>
     get_int2 (skip 2 b3) = Some warnings \<and> ahead (skip 4 b3) (msg @ rest) \<and>
     b3 = skip (1 + length (enc_length affected) + length (enc_length inserted)) b"
proof -
  have a1: "ahead (skip 1 b) (enc_length affected @ enc_length inserted @ le_bytes 2 sstatus @ le_bytes 2 warnings @ msg @ rest)"
    using a ahead_Cons by (simp add: ok_payload_def)
  let ?b2 = "skip (length (enc_length affected)) (skip 1 b)"
  let ?b3 = "skip (length (enc_length inserted)) ?b2"
  have a2: "ahead ?b2 (enc_length inserted @ le_bytes 2 sstatus @ le_bytes 2 warnings @ msg @ rest)"
    using ahead_skip[OF a1] by simp
  have a3: "ahead ?b3 (le_bytes 2 sstatus @ le_bytes 2 warnings @ msg @ rest)"
    using ahead_skip[OF a2] by simp
  have a4: "ahead (skip 2 ?b3) (le_bytes 2 warnings @ msg @ rest)" using ahead_skip[OF a3] by simp
  have "skip 2 (skip 2 ?b3) = skip 4 ?b3" by simp
  then have a5: "ahead (skip 4 ?b3) (msg @ rest)" using ahead_skip[OF a4] by (simp only: length_le_bytes)
  note f = ahead_length[OF a1 good(1)] ahead_length[OF a2 good(2)] ahead_int2[OF a3] ahead_int2[OF a4] a5
  show ?thesis
    by (rule exI[of _ "skip 1 b"], rule exI[of _ ?b2], rule exI[of _ ?b3]) (use f in \<open>simp add: add.assoc\<close>)
qed

lemma enc_length_length: "length (enc_length v) \<le> 9"
  by (simp add: enc_length_def)

lemma read_ok_packet_ok:
  assumes b: "read_buffer con = Some b" "packet_in b (ok_payload affected inserted sstatus warnings msg) rest"
    and size: "packet_size con = of_nat (length (ok_payload affected inserted sstatus warnings msg))"
      "length (ok_payload affected inserted sstatus warnings msg) < 2 ^ 24"
    and good: "len_good affected" "len_good inserted" "0 \<notin> set msg"
  shows "attachsql_packet_read_response con = Some (ok_received affected inserted sstatus warnings msg con)"
proof -
  let ?n1 = "length (enc_length affected)" and ?n2 = "length (enc_length inserted)"
  note a = packet_in_ahead[OF b(2)]
  obtain b1 b2 b3 where r: "b1 = skip 1 b" "get_length b1 = Some (affected, ?n1, b2)"
    "get_length b2 = Some (inserted, ?n2, b3)" "get_int2 b3 = Some sstatus" "get_int2 (skip 2 b3) = Some warnings"
    "ahead (skip 4 b3) (msg @ rest)" "b3 = skip (1 + ?n1 + ?n2) b"
    using ok_head_read[OF a good(1,2)] by blast
  let ?c = "con\<lparr>affected_rows := affected, insert_id := inserted, server_status := sstatus, warning_count := warnings\<rparr>"
  let ?d = "1 + of_nat ?n1 + of_nat ?n2 + 4 :: uint32"
  have "packet_size ?c = ?d + of_nat (length msg)" using size(1) by (simp add: ok_payload_def)
  moreover have "length msg < 2 ^ 31" using size(2) by (simp add: ok_payload_def)
  ultimately have m: "read_message ?d (skip 4 b3) ?c = Some (?c\<lparr>server_message := take (ATTACHSQL_MAX_MESSAGE_LEN - 1) msg,
     read_buffer := Some (skip (length msg) (skip 4 b3))\<rparr>)"
    by (rule read_message_ok[OF r(6) good(3)])
  have s22: "skip 2 (skip 2 b3) = skip 4 b3" by simp
  have z: "get_byte b = Some 0" using ahead_byte a by (simp add: ok_payload_def)
  have past: "attachsql_buffer_packet_read_end (skip n b) = Some (past_packet b)" for n
    using read_end_past[OF b(2)] .
  have "attachsql_packet_read_response con = read_ok_packet b con"
    using b(1) z by (simp add: attachsql_packet_read_response_def)
  also have "\<dots> = Some (ok_received affected inserted sstatus warnings msg con)"
    unfolding read_ok_packet_def Let_def r(1)[symmetric] r(2,3,4) Option.bind.simps prod.case r(5) s22 m
    using b(1) r(7) past
    by (simp add: attachsql_packet_read_end_def ok_received_def)
  finally show ?thesis .
qed

text \<open>Error packets. A later command's error is told from a failed connection by the command status.\<close>

definition error_received :: "uint16 \<Rightarrow> byte list \<Rightarrow> byte list \<Rightarrow> block \<Rightarrow> 'a con_core_scheme \<Rightarrow> 'a con_core_scheme" where
  "error_received code state msg sqlstate con =
     con\<lparr>server_errno := code, con_sqlstate := sqlstate,
        server_message := take (ATTACHSQL_MAX_MESSAGE_LEN - 1) msg,
        con_status := (if command_status con = ATTACHSQL_COMMAND_STATUS_READ_RESPONSE
                       then ATTACHSQL_CON_STATUS_CONNECT_FAILED else ATTACHSQL_CON_STATUS_IDLE),
        next_packet_queue_used := 0, command_status := ATTACHSQL_COMMAND_STATUS_EOF,
        read_buffer := map_option past_packet (read_buffer con)\<rparr>"

lemma read_error_packet_ok:
  assumes b: "read_buffer con = Some b" "packet_in b (error_payload code state msg) rest"
    and size: "packet_size con = of_nat (length (error_payload code state msg))"
      "length (error_payload code state msg) < 2 ^ 24"
    and good: "length state = 5" "0 \<notin> set msg" "blk_size (con_sqlstate con) = ATTACHSQL_SQLSTATE_SIZE"
  shows "\<exists>sqlstate. attachsql_packet_read_response con = Some (error_received code state msg sqlstate con) \<and>
     blk_write (con_sqlstate con) 0 state = Some sqlstate \<and> blk_has sqlstate 0 state"
proof -
  note a = packet_in_ahead[OF b(2)]
  have a0: "ahead b (0xff # le_bytes 2 code @ 0x23 # state @ msg @ rest)" using a by (simp add: error_payload_def)
  have a1: "ahead (skip 1 b) (le_bytes 2 code @ 0x23 # state @ msg @ rest)" using ahead_Cons[OF a0] by simp
  have a2: "ahead (skip 4 b) (state @ msg @ rest)"
    using ahead_skip[of "skip 1 b" "le_bytes 2 code @ [0x23]" "state @ msg @ rest"] a1 by simp
  have a3: "ahead (skip 9 b) (msg @ rest)" using ahead_skip[OF a2] good(1) by simp
  obtain sq where sq: "blk_write (con_sqlstate con) 0 state = Some sq"
    using blk_write_total[of 0 state "con_sqlstate con"] good by auto
  let ?c = "con\<lparr>server_errno := code, con_sqlstate := sq\<rparr>"
  have "packet_size ?c = 1 + 3 + 5 + of_nat (length msg)" using size(1) good(1) by (simp add: error_payload_def)
  moreover have "length msg < 2 ^ 31" using size(2) by (simp add: error_payload_def)
  ultimately have m: "read_message (1 + 3 + 5) (skip 9 b) ?c = Some (?c\<lparr>server_message := take (ATTACHSQL_MAX_MESSAGE_LEN - 1) msg,
     read_buffer := Some (skip (length msg) (skip 9 b))\<rparr>)"
    by (rule read_message_ok[OF a3 good(2)])
  have past: "attachsql_buffer_packet_read_end (skip n b) = Some (past_packet b)" for n
    using read_end_past[OF b(2)] .
  have "attachsql_packet_read_response con = read_error_packet b con"
    using b(1) ahead_byte[OF a0] by (simp add: attachsql_packet_read_response_def)
  also have "\<dots> = Some (error_received code state msg sq con)"
    unfolding read_error_packet_def Let_def ahead_int2[OF a1] Option.bind.simps
    using m b(1) past ahead_bytes[OF a2, of 5] good(1) sq
    by (simp add: attachsql_packet_read_end_def error_received_def)
  finally show ?thesis using sq blk_write_has[OF sq] by blast
qed

end
