(* ===== verification/Send.thy ===== *)
theory Send
  imports Packet_Queue
begin

text \<open>
  Sending, from \<open>src/net.cc\<close> and \<open>src/command.cc\<close>: packets, compressed packets and commands. The
  buffers handed to \<open>uv_write\<close> are taken to be written at the time of the call. A command is a
  byte, as it is on the wire; a compressed packet without one is sent with 0.
\<close>

section \<open>Compressed packets\<close>

text \<open>Enlarging one of the two buffers to a multiple of \<open>ATTACHSQL_WRITE_BUFFER_SIZE\<close>.\<close>

definition enlarged :: "nat \<Rightarrow> nat" where
  "enlarged required =
     required + ATTACHSQL_WRITE_BUFFER_SIZE - required mod ATTACHSQL_WRITE_BUFFER_SIZE"

definition send_failed :: "attachsql_ret_t \<Rightarrow> 'a con_core_scheme \<Rightarrow> 'a con_core_scheme" where
  "send_failed code con = con\<lparr>local_errcode := code,
     command_status := ATTACHSQL_COMMAND_STATUS_SEND_FAILED, next_packet_queue_used := 0\<rparr>"

definition grow_uncompressed :: "nat \<Rightarrow> 'a con_core_scheme \<Rightarrow> bool \<times> 'a con_core_scheme" where
  "grow_uncompressed required con =
     (if uncompressed_buffer_len con < required then
        let (ok, con) = alloc con
        in if ok then (True, con\<lparr>uncompressed_buffer := blk_realloc (uncompressed_buffer con) (enlarged required),
                                 uncompressed_buffer_len := enlarged required\<rparr>)
           else (False, send_failed ATTACHSQL_RET_OUT_OF_MEMORY_ERROR con)
      else (True, con))"

definition grow_compressed :: "nat \<Rightarrow> 'a con_core_scheme \<Rightarrow> bool \<times> 'a con_core_scheme" where
  "grow_compressed required con =
     (if compressed_buffer_len con < required then
        let (ok, con) = alloc con
        in if ok then (True, con\<lparr>compressed_buffer := blk_realloc (compressed_buffer con) (enlarged required),
                                 compressed_buffer_len := enlarged required\<rparr>)
           else (False, send_failed ATTACHSQL_RET_OUT_OF_MEMORY_ERROR con)
      else (True, con))"

text \<open>The header, the command byte with its extra bytes, and the data, in the uncompressed buffer.\<close>

definition fill_uncompressed :: "byte list \<Rightarrow> byte \<Rightarrow> 'a con_core_scheme \<Rightarrow> 'a con_core_scheme option" where
  "fill_uncompressed data command con =
     do { header \<leftarrow> blk_read (packet_header con) 0 4;
          u \<leftarrow> blk_write (uncompressed_buffer con) 0 header;
          if command \<noteq> 0 then
            do { u \<leftarrow> blk_put u 4 command;
                 let extra = unat (write_buffer_extra con);
                 u \<leftarrow> (if extra \<noteq> 0 then
                        do { xs \<leftarrow> blk_read (write_buffer con) 1 extra; blk_write u 5 xs }
                      else Some u);
                 u \<leftarrow> blk_write u (5 + extra) data;
                 Some (con\<lparr>uncompressed_buffer := u, write_buffer_extra := 0\<rparr>) }
          else
            do { u \<leftarrow> blk_write u 4 data; Some (con\<lparr>uncompressed_buffer := u\<rparr>) } }"

text \<open>The 7-byte header of a compressed packet.\<close>

definition compressed_header :: "nat \<Rightarrow> nat \<Rightarrow> 'a con_core_scheme \<Rightarrow> 'a con_core_scheme option" where
  "compressed_header len uncompressed_len con =
     do { h \<leftarrow> attachsql_pack_int3 (compressed_packet_header con) 0 (of_nat len :: uint64);
          h \<leftarrow> blk_put h 3 (compressed_packet_number con);
          h \<leftarrow> attachsql_pack_int3 h 4 (of_nat uncompressed_len :: uint64);
          Some (con\<lparr>compressed_packet_header := h\<rparr>) }"

text \<open>The end of the function: the write and its outcome.\<close>

definition write_packet :: "byte list list \<Rightarrow> 'a con_core_scheme \<Rightarrow> 'a con_core_scheme option" where
  "write_packet bufs con =
     do { (r, con) \<leftarrow> uv_write bufs (con\<lparr>command_status := ATTACHSQL_COMMAND_STATUS_READ_RESPONSE\<rparr>);
          Some (if r < 0 then send_failed ATTACHSQL_RET_NET_WRITE_ERROR con else con) }"

text \<open>
  The last part of the function, after the uncompressed buffer has been filled: what is to be
  written, or nothing after a failure. \<open>compress\<close> fails when its output does not fit into the buffer; so
  does the code when the output is larger than the uncompressed buffer.
\<close>

definition compress_packet ::
  "byte list \<Rightarrow> bool \<Rightarrow> nat \<Rightarrow> 'a con_core_scheme \<Rightarrow> (byte list list option \<times> 'a con_core_scheme) option" where
  "compress_packet src large required con =
     (if large then
        let (ok, con) = grow_compressed (zlib_compressBound (lib con) required) con
        in if \<not> ok then Some (None, con)
           else case zlib_compress (lib con) src of
             None \<Rightarrow> Some (None, send_failed ATTACHSQL_RET_COMPRESSION_FAILURE con)
           | Some out \<Rightarrow>
               if compressed_buffer_len con < length out \<or> uncompressed_buffer_len con < length out then
                 Some (None, send_failed ATTACHSQL_RET_COMPRESSION_FAILURE con)
               else do {
                 c \<leftarrow> blk_write (compressed_buffer con) 0 out;
                 con \<leftarrow> compressed_header (length out) required (con\<lparr>compressed_buffer := c\<rparr>);
                 h \<leftarrow> blk_read (compressed_packet_header con) 0 7;
                 Some (Some [h, out], con) }
      else
        do { con \<leftarrow> compressed_header required 0 con;
             h \<leftarrow> blk_read (compressed_packet_header con) 0 7;
             Some (Some [h, src], con) })"

definition compress_and_write :: "byte list \<Rightarrow> bool \<Rightarrow> nat \<Rightarrow> 'a con_core_scheme \<Rightarrow> 'a con_core_scheme option" where
  "compress_and_write src large required con =
     do { (bufs, con) \<leftarrow> compress_packet src large required con;
          case bufs of None \<Rightarrow> Some con | Some bufs \<Rightarrow> write_packet bufs con }"

definition prepare_compressed ::
  "byte list \<Rightarrow> byte \<Rightarrow> 'a con_core_scheme \<Rightarrow> (byte list list option \<times> 'a con_core_scheme) option" where
  "prepare_compressed data command con =
     (let required = length data + 4 + (if command \<noteq> 0 then 1 + unat (write_buffer_extra con) else 0);
          con = (if command \<noteq> 0 then con\<lparr>compressed_packet_number := 0\<rparr> else con);
          (ok, con) = grow_uncompressed required con
      in if \<not> ok then Some (None, con)
         else do {
           con \<leftarrow> fill_uncompressed data command con;
           src \<leftarrow> blk_read (uncompressed_buffer con) 0 required;
           compress_packet src (ATTACHSQL_MINIMUM_COMPRESS_SIZE < length data) required con })"

definition attachsql_send_compressed_packet ::
  "byte list \<Rightarrow> byte \<Rightarrow> 'a con_core_scheme \<Rightarrow> 'a con_core_scheme option" where
  "attachsql_send_compressed_packet data command con =
     do { (bufs, con) \<leftarrow> prepare_compressed data command con;
          case bufs of None \<Rightarrow> Some con | Some bufs \<Rightarrow> write_packet bufs con }"

lemma compress_and_write_unfold:
  "compress_and_write src large required con =
     (if large then
        let (ok, con) = grow_compressed (zlib_compressBound (lib con) required) con
        in if \<not> ok then Some con
           else case zlib_compress (lib con) src of
             None \<Rightarrow> Some (send_failed ATTACHSQL_RET_COMPRESSION_FAILURE con)
           | Some out \<Rightarrow>
               if compressed_buffer_len con < length out \<or> uncompressed_buffer_len con < length out then
                 Some (send_failed ATTACHSQL_RET_COMPRESSION_FAILURE con)
               else do {
                 c \<leftarrow> blk_write (compressed_buffer con) 0 out;
                 con \<leftarrow> compressed_header (length out) required (con\<lparr>compressed_buffer := c\<rparr>);
                 h \<leftarrow> blk_read (compressed_packet_header con) 0 7;
                 write_packet [h, out] con }
      else
        do { con \<leftarrow> compressed_header required 0 con;
             h \<leftarrow> blk_read (compressed_packet_header con) 0 7;
             write_packet [h, src] con })"
  by (simp add: compress_and_write_def compress_packet_def Let_def bind_assoc split: prod.split option.split)

lemma send_compressed_packet_unfold:
  "attachsql_send_compressed_packet data command con =
     (let required = length data + 4 + (if command \<noteq> 0 then 1 + unat (write_buffer_extra con) else 0);
          con = (if command \<noteq> 0 then con\<lparr>compressed_packet_number := 0\<rparr> else con);
          (ok, con) = grow_uncompressed required con
      in if \<not> ok then Some con
         else do {
           con \<leftarrow> fill_uncompressed data command con;
           src \<leftarrow> blk_read (uncompressed_buffer con) 0 required;
           compress_and_write src (ATTACHSQL_MINIMUM_COMPRESS_SIZE < length data) required con })"
  by (simp add: attachsql_send_compressed_packet_def prepare_compressed_def compress_and_write_def Let_def bind_assoc
      split: prod.split)

section \<open>Packets\<close>

definition attachsql_send_data :: "byte list \<Rightarrow> 'a con_core_scheme \<Rightarrow> 'a con_core_scheme option" where
  "attachsql_send_data data con =
     do { h \<leftarrow> attachsql_pack_int3 (packet_header con) 0 (of_nat (length data) :: uint64);
          let con = con\<lparr>packet_number := packet_number con + 1\<rparr>;
          h \<leftarrow> blk_put h 3 (packet_number con);
          let con = con\<lparr>packet_header := h\<rparr>;
          if client_capabilities con AND ATTACHSQL_CAPABILITY_COMPRESS \<noteq> 0 \<and>
             con_status con \<noteq> ATTACHSQL_CON_STATUS_CONNECTING
          then attachsql_send_compressed_packet data 0 con
          else do { header \<leftarrow> blk_read (packet_header con) 0 4; write_packet [header, data] con } }"

section \<open>Commands\<close>

text \<open>What follows a command sent compressed.\<close>

definition compressed_command_end ::
  "attachsql_command_t \<Rightarrow> 'a con_core_scheme \<Rightarrow> (attachsql_command_status_t \<times> 'a con_core_scheme) option" where
  "compressed_command_end command con =
     (if con_status con = ATTACHSQL_CON_STATUS_IDLE then
        do { con \<leftarrow> queue_push (if command = ATTACHSQL_COMMAND_STMT_PREPARE
                               then ATTACHSQL_PACKET_TYPE_PREPARE_RESPONSE
                               else ATTACHSQL_PACKET_TYPE_RESPONSE) con;
             Some (ATTACHSQL_COMMAND_STATUS_SEND,
                   con\<lparr>command_status := ATTACHSQL_COMMAND_STATUS_SEND,
                       con_status := ATTACHSQL_CON_STATUS_BUSY\<rparr>) }
      else Some (command_status con, con))"

definition attachsql_command_send_compressed ::
  "attachsql_command_t \<Rightarrow> byte list \<Rightarrow> 'a con_core_scheme \<Rightarrow>
   (attachsql_command_status_t \<times> 'a con_core_scheme) option" where
  "attachsql_command_send_compressed command data con =
     do { con \<leftarrow> attachsql_send_compressed_packet data (command_code command) con;
          compressed_command_end command con }"

text \<open>The counters of the last command, reset.\<close>

definition reset_result :: "'a con_core_scheme \<Rightarrow> 'a con_core_scheme" where
  "reset_result con = con\<lparr>con_result := (con_result con)\<lparr>current_column := 0\<rparr>,
     affected_rows := 0, insert_id := 0, server_status := 0, warning_count := 0, server_errno := 0\<rparr>"

text \<open>The start of a command: the header of its packet, which counts the command byte.\<close>

definition command_start :: "byte list \<Rightarrow> 'a con_core_scheme \<Rightarrow> 'a con_core_scheme option" where
  "command_start data con =
     do { let con = (reset_result con)\<lparr>local_errcode := ATTACHSQL_RET_OK, errmsg := []\<rparr>;
          h \<leftarrow> attachsql_pack_int3 (packet_header con) 0
                 (of_nat (length data + 1 + unat (write_buffer_extra con)) :: uint64);
          h \<leftarrow> blk_put h 3 0;
          Some (con\<lparr>packet_number := 0, packet_header := h\<rparr>) }"

text \<open>What is to be written of a command.\<close>

definition command_bufs ::
  "attachsql_command_t \<Rightarrow> byte list \<Rightarrow> 'a con_core_scheme \<Rightarrow> (byte list list \<times> 'a con_core_scheme) option" where
  "command_bufs command data con =
     do { w \<leftarrow> blk_put (write_buffer con) 0 (command_code command);
          header \<leftarrow> blk_read (packet_header con) 0 4;
          body \<leftarrow> blk_read w 0 (1 + unat (write_buffer_extra con));
          Some (if 0 < length data then [header, body, data] else [header, body],
                con\<lparr>write_buffer := w, write_buffer_extra := 0\<rparr>) }"

text \<open>What follows the write: the answer is expected.\<close>

definition command_end ::
  "attachsql_command_t \<Rightarrow> int \<Rightarrow> 'a con_core_scheme \<Rightarrow> (attachsql_command_status_t \<times> 'a con_core_scheme) option" where
  "command_end command ret con =
     (if ret < 0 then
        Some (ATTACHSQL_COMMAND_STATUS_SEND_FAILED,
              (send_failed ATTACHSQL_RET_NET_WRITE_ERROR con)
                \<lparr>errmsg := text_array ATTACHSQL_ERROR_BUFFER_SIZE
                            (str ''Query send failed: '' @ uv_err_name (lib con) ret)\<rparr>)
      else
        do { con \<leftarrow>
               (if command = ATTACHSQL_COMMAND_STMT_PREPARE
                then queue_push ATTACHSQL_PACKET_TYPE_PREPARE_RESPONSE con
                else if command = ATTACHSQL_COMMAND_STMT_RESET \<or> command = ATTACHSQL_COMMAND_STMT_CLOSE
                then Some con
                else queue_push ATTACHSQL_PACKET_TYPE_RESPONSE con);
             Some (ATTACHSQL_COMMAND_STATUS_SEND,
                   con\<lparr>command_status := ATTACHSQL_COMMAND_STATUS_SEND,
                       con_status := ATTACHSQL_CON_STATUS_BUSY\<rparr>) })"

definition attachsql_command_send ::
  "attachsql_command_t \<Rightarrow> byte list \<Rightarrow> 'a con_core_scheme \<Rightarrow>
   (attachsql_command_status_t \<times> 'a con_core_scheme) option" where
  "attachsql_command_send command data con =
     do { con \<leftarrow> command_start data con;
          if client_capabilities con AND ATTACHSQL_CAPABILITY_COMPRESS \<noteq> 0
          then attachsql_command_send_compressed command data con
          else do { (bufs, con) \<leftarrow> command_bufs command data con;
                    (ret, con) \<leftarrow> uv_write bufs con;
                    command_end command ret con } }"

lemma command_send_unfold:
  "attachsql_command_send command data con =
     do { let con = (reset_result con)\<lparr>local_errcode := ATTACHSQL_RET_OK, errmsg := []\<rparr>;
          h \<leftarrow> attachsql_pack_int3 (packet_header con) 0
                 (of_nat (length data + 1 + unat (write_buffer_extra con)) :: uint64);
          h \<leftarrow> blk_put h 3 0;
          let con = con\<lparr>packet_number := 0, packet_header := h\<rparr>;
          if client_capabilities con AND ATTACHSQL_CAPABILITY_COMPRESS \<noteq> 0
          then attachsql_command_send_compressed command data con
          else do {
            w \<leftarrow> blk_put (write_buffer con) 0 (command_code command);
            header \<leftarrow> blk_read (packet_header con) 0 4;
            body \<leftarrow> blk_read w 0 (1 + unat (write_buffer_extra con));
            (ret, con) \<leftarrow> uv_write (if 0 < length data then [header, body, data] else [header, body])
                            (con\<lparr>write_buffer := w, write_buffer_extra := 0\<rparr>);
            if ret < 0 then
              Some (ATTACHSQL_COMMAND_STATUS_SEND_FAILED,
                    (send_failed ATTACHSQL_RET_NET_WRITE_ERROR con)
                      \<lparr>errmsg := text_array ATTACHSQL_ERROR_BUFFER_SIZE
                                  (str ''Query send failed: '' @ uv_err_name (lib con) ret)\<rparr>)
            else
              do { con \<leftarrow>
                     (if command = ATTACHSQL_COMMAND_STMT_PREPARE
                      then queue_push ATTACHSQL_PACKET_TYPE_PREPARE_RESPONSE con
                      else if command = ATTACHSQL_COMMAND_STMT_RESET \<or> command = ATTACHSQL_COMMAND_STMT_CLOSE
                      then Some con
                      else queue_push ATTACHSQL_PACKET_TYPE_RESPONSE con);
                   Some (ATTACHSQL_COMMAND_STATUS_SEND,
                         con\<lparr>command_status := ATTACHSQL_COMMAND_STATUS_SEND,
                             con_status := ATTACHSQL_CON_STATUS_BUSY\<rparr>) } } }"
  by (simp add: attachsql_command_send_def command_start_def command_bufs_def command_end_def Let_def bind_assoc cong: if_cong)

lemmas command_send_compressed_unfold = attachsql_command_send_compressed_def compressed_command_end_def

text \<open>The write callback of libuv; on an error the connection is closed.\<close>

definition net_error :: "attachsql_ret_t \<Rightarrow> attachsql_command_status_t \<Rightarrow> byte list \<Rightarrow> 'a con_core_scheme \<Rightarrow> 'a con_core_scheme" where
  "net_error code cstatus msg con =
     con\<lparr>local_errcode := code, command_status := cstatus, next_packet_queue_used := 0,
         con_status := ATTACHSQL_CON_STATUS_NET_ERROR,
         errmsg := text_array ATTACHSQL_ERROR_BUFFER_SIZE msg, stream_closed := True\<rparr>"

definition on_write :: "int \<Rightarrow> 'a con_core_scheme \<Rightarrow> 'a con_core_scheme option" where
  "on_write status con =
     do { next \<leftarrow> attachsql_packet_queue_peek con;
          let con = (if next = ATTACHSQL_PACKET_TYPE_NONE
                     then con\<lparr>con_status := ATTACHSQL_CON_STATUS_IDLE,
                              command_status := ATTACHSQL_COMMAND_STATUS_EOF\<rparr>
                     else con);
          Some (if status < 0
                then net_error ATTACHSQL_RET_NET_WRITE_ERROR ATTACHSQL_COMMAND_STATUS_SEND_FAILED
                       (str ''Net write failure: '' @ uv_err_name (lib con) status) con
                else con) }"

section \<open>What is on the wire\<close>

text \<open>A packet of the protocol, and a compressed packet around some packets as the server opens it.\<close>

definition packet :: "byte \<Rightarrow> byte list \<Rightarrow> byte list" where
  "packet seq payload = le_bytes 3 (of_nat (length payload) :: uint64) @ [seq] @ payload"

definition open_compressed :: "libraries \<Rightarrow> byte list \<Rightarrow> (byte \<times> byte list) option" where
  "open_compressed l xs =
     (let len = unat (le_word (take 3 xs) :: uint32);
          uncompressed_len = unat (le_word (take 3 (drop 4 xs)) :: uint32);
          body = drop 7 xs
      in if length xs < 7 \<or> len \<noteq> length body then None
         else if uncompressed_len = 0 then Some (xs ! 3, body)
         else do { ys \<leftarrow> zlib_uncompress l body;
                   if length ys = uncompressed_len then Some (xs ! 3, ys) else None })"

text \<open>What a compression library owes: what it packs it unpacks, and it keeps its own bound.\<close>

definition zlib_ok :: "libraries \<Rightarrow> bool" where
  "zlib_ok l \<longleftrightarrow> (\<forall>xs ys. zlib_compress l xs = Some ys \<longrightarrow>
     zlib_uncompress l ys = Some xs \<and> length ys \<le> zlib_compressBound l (length xs))"

lemma header_write:
  assumes "blk_size h = 4"
  shows "\<exists>h1 h2. attachsql_pack_int3 h 0 v = Some h1 \<and> blk_put h1 3 x = Some h2 \<and> blk_size h2 = 4 \<and>
    blk_read h2 0 4 = Some (le_bytes 3 v @ [x])"
proof -
  obtain h1 where h1: "blk_write h 0 (le_bytes 3 v) = Some h1"
    using blk_write_total[of 0 "le_bytes 3 v" h] assms by auto
  obtain h2 where h2: "blk_put h1 3 x = Some h2" "blk_size h2 = 4"
    using blk_put_total[of 3 h1 x] blk_write_size[OF h1] assms by auto
  have "writes_at h 0 (le_bytes 3 v @ [x]) h2"
    using writes_at_append[OF blk_write_writes_at[OF h1]] blk_put_writes_at[OF h2(1)] by simp
  from blk_read_has[OF writes_at_has[OF this], of 4] h1 h2 show ?thesis by (simp add: pack_int3_eq)
qed

lemma header7_write:
  assumes "blk_size h = 7"
  shows "\<exists>h1 h2 h3. attachsql_pack_int3 h 0 v = Some h1 \<and> blk_put h1 3 x = Some h2 \<and>
    attachsql_pack_int3 h2 4 w = Some h3 \<and> blk_size h3 = 7 \<and>
    blk_read h3 0 7 = Some (le_bytes 3 v @ [x] @ le_bytes 3 w)"
proof -
  obtain h1 where h1: "blk_write h 0 (le_bytes 3 v) = Some h1"
    using blk_write_total[of 0 "le_bytes 3 v" h] assms by auto
  obtain h2 where h2: "blk_put h1 3 x = Some h2" "blk_size h2 = 7"
    using blk_put_total[of 3 h1 x] blk_write_size[OF h1] assms by auto
  obtain h3 where h3: "blk_write h2 4 (le_bytes 3 w) = Some h3"
    using blk_write_total[of 4 "le_bytes 3 w" h2] h2 by auto
  have "writes_at h 0 (le_bytes 3 v @ [x]) h2"
    using writes_at_append[OF blk_write_writes_at[OF h1]] blk_put_writes_at[OF h2(1)] by simp
  then have "writes_at h 0 ((le_bytes 3 v @ [x]) @ le_bytes 3 w) h3"
    using writes_at_append blk_write_writes_at[OF h3] by fastforce
  from blk_read_has[OF writes_at_has[OF this], of 7] h1 h2 h3 blk_write_size[OF h3] show ?thesis
    by (simp add: pack_int3_eq)
qed

text \<open>A machine on which the next calls succeed.\<close>

definition calm :: "'a con_core_scheme \<Rightarrow> bool" where
  "calm con \<longleftrightarrow> allocs con = [] \<and> uv_results con = []"

lemma calm_alloc [simp]: "calm con \<Longrightarrow> alloc con = (True, con)"
  by (simp add: calm_def alloc_def)

lemma calm_uv_write [simp]: "calm con \<Longrightarrow> uv_write bufs con = Some (0, con\<lparr>sent := sent con @ [concat bufs]\<rparr>)"
  by (simp add: calm_def uv_write_def uv_call_def alloc_def Let_def)

text \<open>The fixed buffers of a connection.\<close>

definition buffers_ok :: "'a con_core_scheme \<Rightarrow> bool" where
  "buffers_ok con \<longleftrightarrow> blk_size (packet_header con) = 4 \<and> blk_size (write_buffer con) = ATTACHSQL_WRITE_BUFFER_SIZE \<and>
     blk_size (compressed_packet_header con) = 7 \<and>
     blk_size (uncompressed_buffer con) = uncompressed_buffer_len con \<and>
     blk_size (compressed_buffer con) = compressed_buffer_len con"

text \<open>The extra bytes behind the command byte, which the statement code leaves in the write buffer.\<close>

definition extra_bytes :: "'a con_core_scheme \<Rightarrow> byte list \<Rightarrow> bool" where
  "extra_bytes con extra \<longleftrightarrow> length extra = unat (write_buffer_extra con) \<and> blk_has (write_buffer con) 1 extra"

definition response_of :: "attachsql_command_t \<Rightarrow> attachsql_packet_type_t list" where
  "response_of command =
     (if command = ATTACHSQL_COMMAND_STMT_PREPARE then [ATTACHSQL_PACKET_TYPE_PREPARE_RESPONSE]
      else if command = ATTACHSQL_COMMAND_STMT_RESET \<or> command = ATTACHSQL_COMMAND_STMT_CLOSE then []
      else [ATTACHSQL_PACKET_TYPE_RESPONSE])"

definition push_expected :: "attachsql_command_t \<Rightarrow> 'a con_core_scheme \<Rightarrow> 'a con_core_scheme option" where
  "push_expected command con =
     (if command = ATTACHSQL_COMMAND_STMT_PREPARE
      then queue_push ATTACHSQL_PACKET_TYPE_PREPARE_RESPONSE con
      else if command = ATTACHSQL_COMMAND_STMT_RESET \<or> command = ATTACHSQL_COMMAND_STMT_CLOSE
      then Some con
      else queue_push ATTACHSQL_PACKET_TYPE_RESPONSE con)"

lemma push_expected_ok:
  assumes "queue_ok con" "queue_room con"
  shows "\<exists>con'. push_expected command con = Some con' \<and> queue_only con con' \<and>
     expected con' = response_of command @ expected con \<and> queue_ok con'"
proof -
  consider (prep) "command = ATTACHSQL_COMMAND_STMT_PREPARE"
    | (none) "command = ATTACHSQL_COMMAND_STMT_RESET \<or> command = ATTACHSQL_COMMAND_STMT_CLOSE"
    | (other) "command \<noteq> ATTACHSQL_COMMAND_STMT_PREPARE"
      "\<not> (command = ATTACHSQL_COMMAND_STMT_RESET \<or> command = ATTACHSQL_COMMAND_STMT_CLOSE)" by blast
  then show ?thesis
  proof cases
    case prep
    with queue_push_ok[OF assms] queue_push_only show ?thesis
      by (fastforce simp: push_expected_def response_of_def)
  next
    case none
    then show ?thesis using assms(1) queue_only_refl
      by (auto simp: push_expected_def response_of_def)
  next
    case other
    with queue_push_ok[OF assms] queue_push_only show ?thesis
      by (fastforce simp: push_expected_def response_of_def)
  qed
qed

lemma queue_only_keeps:
  assumes "queue_only con con'"
  shows "sent con' = sent con" "con_status con' = con_status con" "command_status con' = command_status con"
    "lib con' = lib con" "uv_results con' = uv_results con" "read_buffer con' = read_buffer con"
    "packet_number con' = packet_number con" "con_result con' = con_result con" "con_stmt con' = con_stmt con"
proof -
  from assms obtain q n u as where "con' = con\<lparr>next_packet_queue := q, next_packet_queue_size := n,
      next_packet_queue_used := u, allocs := as\<rparr>" unfolding queue_only_def by blast
  then show "sent con' = sent con" "con_status con' = con_status con" "command_status con' = command_status con"
    "lib con' = lib con" "uv_results con' = uv_results con" "read_buffer con' = read_buffer con"
    "packet_number con' = packet_number con" "con_result con' = con_result con" "con_stmt con' = con_stmt con"
    by simp_all
qed

text \<open>The command byte and the extra bytes in the write buffer.\<close>

lemma command_body:
  assumes "buffers_ok con" "extra_bytes con extra"
  shows "\<exists>w. blk_put (write_buffer con) 0 c = Some w \<and> blk_size w = ATTACHSQL_WRITE_BUFFER_SIZE \<and>
    blk_read w 0 (1 + unat (write_buffer_extra con)) = Some (c # extra)"
proof -
  obtain w where w: "blk_put (write_buffer con) 0 c = Some w" "blk_size w = ATTACHSQL_WRITE_BUFFER_SIZE"
    using assms(1) blk_put_total[of 0 "write_buffer con" c] by (auto simp: buffers_ok_def)
  have "blk_has w 1 extra"
    using writes_at_frame[OF blk_put_writes_at[OF w(1)], of 1 extra] assms(2) by (simp add: extra_bytes_def)
  then have has: "blk_has w 0 (c # extra)" using writes_at_has[OF blk_put_writes_at[OF w(1)]] by simp
  have "blk_read w 0 (1 + unat (write_buffer_extra con)) = Some (c # extra)"
    using blk_read_has[OF has, of "1 + unat (write_buffer_extra con)"] assms(2) by (simp add: extra_bytes_def)
  then show ?thesis using w by blast
qed

lemma push_expected_same:
  assumes "push_expected command con = Some con'" shows "same_client con con'"
  using assms queue_push_same by (auto simp: push_expected_def same_defs split: if_splits)

text \<open>The connection after a command: ready for the next, the counters of the last one reset.\<close>

definition command_written :: "'a con_core_scheme \<Rightarrow> 'a con_core_scheme \<Rightarrow> bool" where
  "command_written con con' \<longleftrightarrow> calm con' \<and> buffers_ok con' \<and> extra_bytes con' [] \<and>
     read_buffer con' = read_buffer con \<and> opt_compression con' = opt_compression con \<and>
     con_result con' = (con_result con)\<lparr>current_column := 0\<rparr> \<and> server_errno con' = 0 \<and>
     client_capabilities con' = client_capabilities con \<and> stream_closed con' = stream_closed con \<and>
     con_stmt con' = con_stmt con \<and> con_core.more con' = con_core.more con"

lemma command_send_plain:
  assumes plain: "client_capabilities con AND ATTACHSQL_CAPABILITY_COMPRESS = 0"
    and calm: "calm con" and bufs: "buffers_ok con" and extra: "extra_bytes con extra"
    and queue: "queue_ok con" "queue_room con"
  shows "\<exists>con'. attachsql_command_send command data con = Some (ATTACHSQL_COMMAND_STATUS_SEND, con') \<and>
     sent con' = sent con @ [packet 0 (command_code command # extra @ data)] \<and>
     con_status con' = ATTACHSQL_CON_STATUS_BUSY \<and> command_status con' = ATTACHSQL_COMMAND_STATUS_SEND \<and>
     expected con' = response_of command @ expected con \<and> queue_ok con' \<and> packet_number con' = 0 \<and>
     command_written con con'"
proof -
  let ?n = "length data + 1 + unat (write_buffer_extra con)"
  let ?c0 = "(reset_result con)\<lparr>local_errcode := ATTACHSQL_RET_OK, errmsg := []\<rparr>"
  obtain h1 h2 where h: "attachsql_pack_int3 (packet_header con) 0 (of_nat ?n :: uint64) = Some h1"
    "blk_put h1 3 0 = Some h2" "blk_read h2 0 4 = Some (le_bytes 3 (of_nat ?n :: uint64) @ [0])"
    "blk_size h2 = 4"
    using header_write[of "packet_header con" "of_nat ?n :: uint64" 0] bufs by (auto simp: buffers_ok_def)
  obtain w where w: "blk_put (write_buffer con) 0 (command_code command) = Some w"
    "blk_read w 0 (1 + unat (write_buffer_extra con)) = Some (command_code command # extra)"
    "blk_size w = ATTACHSQL_WRITE_BUFFER_SIZE"
    using command_body[OF bufs extra] by blast
  let ?c1 = "?c0\<lparr>packet_number := 0, packet_header := h2, write_buffer := w, write_buffer_extra := 0\<rparr>"
  let ?p = "packet 0 (command_code command # extra @ data)"
  let ?c2 = "?c1\<lparr>sent := sent con @ [?p]\<rparr>"
  have len: "?n = length (command_code command # extra @ data)" using extra by (simp add: extra_bytes_def)
  have calm1: "calm ?c1" using calm by (simp add: calm_def reset_result_def)
  have wr: "uv_write (if 0 < length data then [le_bytes 3 (of_nat ?n :: uint64) @ [0], command_code command # extra, data]
      else [le_bytes 3 (of_nat ?n :: uint64) @ [0], command_code command # extra]) ?c1 = Some (0, ?c2)"
    unfolding calm_uv_write[OF calm1] len by (simp add: packet_def reset_result_def)
  have f: "queue_fields ?c2 = queue_fields con" by (simp add: queue_fields_def reset_result_def)
  have "queue_ok ?c2" using queue_frame(2)[OF f] queue(1) by simp
  moreover have "queue_room ?c2" using queue(2) calm calm1
    by (simp add: queue_room_def calm_def alloc_def reset_result_def)
  ultimately obtain c3 where c3: "push_expected command ?c2 = Some c3" "queue_only ?c2 c3"
    "expected c3 = response_of command @ expected con" "queue_ok c3"
    using push_expected_ok[of ?c2 command] queue_frame(1)[OF f] by auto
  let ?c4 = "c3\<lparr>command_status := ATTACHSQL_COMMAND_STATUS_SEND, con_status := ATTACHSQL_CON_STATUS_BUSY\<rparr>"
  have f4: "queue_fields ?c4 = queue_fields c3" by (simp add: queue_fields_def)
  have "attachsql_command_send command data con = Some (ATTACHSQL_COMMAND_STATUS_SEND, ?c4)"
  proof -
    have r: "packet_header ?c0 = packet_header con" "write_buffer_extra ?c0 = write_buffer_extra con"
      "client_capabilities (?c0\<lparr>packet_number := 0, packet_header := h2\<rparr>) = client_capabilities con"
      "write_buffer (?c0\<lparr>packet_number := 0, packet_header := h2\<rparr>) = write_buffer con"
      "write_buffer_extra (?c0\<lparr>packet_number := 0, packet_header := h2\<rparr>) = write_buffer_extra con"
      "packet_header (?c0\<lparr>packet_number := 0, packet_header := h2\<rparr>) = h2"
      by (simp_all add: reset_result_def)
    show ?thesis
      unfolding command_send_unfold Let_def r h(1) Option.bind.simps h(2) plain w(1) h(3) w(2)
      using wr c3(1) by (simp add: push_expected_def plain)
  qed
  moreover have "sent ?c4 = sent con @ [?p]" "packet_number ?c4 = 0"
    using queue_only_keeps[OF c3(2)] by simp_all
  moreover have "expected ?c4 = response_of command @ expected con" "queue_ok ?c4"
    using queue_frame(1,2)[OF f4] c3(3,4) by simp_all
  moreover have "command_written con ?c4"
  proof -
    have "calm ?c2" "buffers_ok ?c2" "extra_bytes ?c2 []"
      using calm1 bufs h(4) w(3) by (simp_all add: calm_def buffers_ok_def extra_bytes_def reset_result_def)
    moreover have "con_result ?c2 = (con_result con)\<lparr>current_column := 0\<rparr>" "server_errno ?c2 = 0"
      "read_buffer ?c2 = read_buffer con" by (simp_all add: reset_result_def)
    ultimately show ?thesis using push_expected_same[OF c3(1)] queue_only_keeps[OF c3(2)]
      by (auto simp: command_written_def same_defs calm_def buffers_ok_def extra_bytes_def reset_result_def)
  qed
  ultimately show ?thesis by auto
qed

section \<open>Compressed packets on the wire\<close>

lemma le3_nat:
  assumes "n < 2 ^ 24"
  shows "unat (le_word (le_bytes 3 (of_nat n :: uint64)) :: uint32) = n"
proof -
  let ?v = "of_nat n :: uint64"
  have v: "unat ?v = n" using assms by (simp add: unat_of_nat)
  then have "?v < 2 ^ 24" using assms by (simp add: word_less_nat_alt)
  then have "take_bit 24 ?v = ?v" by (intro take_bit_small) simp_all
  then show ?thesis using v assms by (simp add: le_word_le_bytes_ucast unsigned_ucast_eq take_bit_eq_mod)
qed

lemma nth_header: "(le_bytes 3 v @ x # xs) ! 3 = x"
  by (simp add: nth_append)

text \<open>What the receiver makes of a header and a body.\<close>

lemma open_compressed_packet:
  assumes "length body < 2 ^ 24" "n < 2 ^ 24"
  shows "open_compressed l (le_bytes 3 (of_nat (length body) :: uint64) @ [seq] @
      le_bytes 3 (of_nat n :: uint64) @ body) =
    (if n = 0 then Some (seq, body)
     else do { ys \<leftarrow> zlib_uncompress l body; if length ys = n then Some (seq, ys) else None })"
  using assms le3_nat[of "length body"] le3_nat[of n]
  by (simp add: open_compressed_def Let_def nth_header cong: if_cong)

definition payload_of :: "byte list \<Rightarrow> byte \<Rightarrow> byte list \<Rightarrow> byte list" where
  "payload_of extra command data = (if command = 0 then data else command # extra @ data)"

definition seq_of :: "byte \<Rightarrow> 'a con_core_scheme \<Rightarrow> byte" where
  "seq_of command con = (if command = 0 then compressed_packet_number con else 0)"

text \<open>Filling the uncompressed buffer touches only it and the count of extra bytes.\<close>

lemma fill_uncompressed_ok:
  assumes room: "4 + length (payload_of extra command data) \<le> blk_size (uncompressed_buffer con)"
    and h: "blk_read (packet_header con) 0 4 = Some header"
    and extra: "command \<noteq> 0 \<Longrightarrow> extra_bytes con extra"
  shows "\<exists>u e. fill_uncompressed data command con = Some (con\<lparr>uncompressed_buffer := u, write_buffer_extra := e\<rparr>) \<and>
    blk_size u = blk_size (uncompressed_buffer con) \<and>
    blk_read u 0 (4 + length (payload_of extra command data)) = Some (header @ payload_of extra command data)"
proof -
  let ?n = "length (payload_of extra command data)"
  let ?u0 = "uncompressed_buffer con"
  have len: "length header = 4" using blk_read_Some[OF h] by simp
  obtain u1 where u1: "blk_write ?u0 0 header = Some u1"
    using blk_write_total[of 0 header ?u0] room len by auto
  note w1 = blk_write_writes_at[OF u1]
  have s1: "blk_size u1 = blk_size ?u0" using blk_write_size[OF u1] .
  have fin: ?thesis if w: "writes_at ?u0 0 (header @ payload_of extra command data) u"
    and f: "fill_uncompressed data command con = Some (con\<lparr>uncompressed_buffer := u, write_buffer_extra := e\<rparr>)" for u e
    using f writes_at_size[OF w] blk_read_has[OF writes_at_has[OF w], of "4 + ?n"] len by auto
  show ?thesis
  proof (cases "command = 0")
    case True
    obtain u2 where u2: "blk_write u1 4 data = Some u2"
      using blk_write_total[of 4 data u1] room s1 True by (auto simp: payload_of_def)
    have w: "writes_at ?u0 0 (header @ payload_of extra command data) u2"
      using writes_at_append[OF w1, of data u2] blk_write_writes_at[OF u2] len True by (simp add: payload_of_def)
    have "con\<lparr>uncompressed_buffer := u2, write_buffer_extra := write_buffer_extra con\<rparr> = con\<lparr>uncompressed_buffer := u2\<rparr>"
      by simp
    moreover have "fill_uncompressed data command con = Some (con\<lparr>uncompressed_buffer := u2\<rparr>)"
      using h u1 u2 True by (simp add: fill_uncompressed_def)
    ultimately show ?thesis using fin[OF w, of "write_buffer_extra con"] by metis
  next
    case False
    then have extra: "extra_bytes con extra" using assms(3) by simp
    then have n: "length extra = unat (write_buffer_extra con)" and has: "blk_has (write_buffer con) 1 extra"
      by (simp_all add: extra_bytes_def)
    have r: "blk_read (write_buffer con) 1 (unat (write_buffer_extra con)) = Some extra"
      using blk_read_has[OF has] n by simp
    obtain u2 where u2: "blk_put u1 4 command = Some u2" "blk_size u2 = blk_size u1"
      using blk_put_total[of 4 u1 command] room s1 False by (auto simp: payload_of_def)
    obtain u3 where u3: "blk_write u2 5 extra = Some u3"
      using blk_write_total[of 5 extra u2] room s1 u2 False by (auto simp: payload_of_def)
    obtain u4 where u4: "blk_write u3 (5 + length extra) data = Some u4"
      using blk_write_total[of "5 + length extra" data u3] room s1 u2 blk_write_size[OF u3] False
      by (auto simp: payload_of_def)
    have w2: "writes_at ?u0 0 (header @ [command]) u2"
      using writes_at_append[OF w1, of "[command]" u2] blk_put_writes_at[OF u2(1)] len by simp
    have w3: "writes_at ?u0 0 ((header @ [command]) @ extra) u3"
      using writes_at_append[OF w2, of extra u3] blk_write_writes_at[OF u3] len by simp
    have w4: "writes_at ?u0 0 (((header @ [command]) @ extra) @ data) u4"
      using writes_at_append[OF w3, of data u4] blk_write_writes_at[OF u4] len by simp
    have skip_copy: "(if unat (write_buffer_extra con) \<noteq> 0 then
        do { xs \<leftarrow> blk_read (write_buffer con) 1 (unat (write_buffer_extra con)); blk_write u2 5 xs }
        else Some u2) = Some u3"
      using r u3 n by auto
    have f: "fill_uncompressed data command con = Some (con\<lparr>uncompressed_buffer := u4, write_buffer_extra := 0\<rparr>)"
      unfolding fill_uncompressed_def Let_def h Option.bind.simps u1 u2(1) skip_copy
      using False u4 n by simp
    have "writes_at ?u0 0 (header @ payload_of extra command data) u4"
      using w4 False by (simp add: payload_of_def)
    then show ?thesis by (rule fin[OF _ f])
  qed
qed

text \<open>The header of a compressed packet.\<close>

lemma compressed_header_ok:
  assumes "buffers_ok con"
  shows "\<exists>h. compressed_header n m con = Some (con\<lparr>compressed_packet_header := h\<rparr>) \<and>
    blk_read h 0 7 = Some (le_bytes 3 (of_nat n :: uint64) @ [compressed_packet_number con] @
                            le_bytes 3 (of_nat m :: uint64))"
proof -
  have "blk_size (compressed_packet_header con) = 7" using assms by (simp add: buffers_ok_def)
  from header7_write[OF this, of "of_nat n :: uint64" "compressed_packet_number con" "of_nat m :: uint64"]
  show ?thesis by (auto simp: compressed_header_def)
qed

lemma enlarged_room: "n \<le> enlarged n"
  unfolding enlarged_def by (simp add: trans_le_add1)

lemma grow_uncompressed_ok:
  assumes "calm con" "buffers_ok con"
  shows "\<exists>u n. grow_uncompressed required con =
      (True, con\<lparr>uncompressed_buffer := u, uncompressed_buffer_len := n\<rparr>) \<and> blk_size u = n \<and> required \<le> n"
proof (cases "uncompressed_buffer_len con < required")
  case True
  then have "grow_uncompressed required con =
      (True, con\<lparr>uncompressed_buffer := blk_realloc (uncompressed_buffer con) (enlarged required),
                 uncompressed_buffer_len := enlarged required\<rparr>)"
    using assms by (simp add: grow_uncompressed_def Let_def)
  then show ?thesis using enlarged_room[of required] by (intro exI) auto
next
  case False
  have "con = con\<lparr>uncompressed_buffer := uncompressed_buffer con, uncompressed_buffer_len := uncompressed_buffer_len con\<rparr>"
    by simp
  then show ?thesis using False assms unfolding grow_uncompressed_def buffers_ok_def
    by (metis not_less)
qed

lemma grow_compressed_ok:
  assumes "calm con" "buffers_ok con"
  shows "\<exists>u n. grow_compressed required con =
      (True, con\<lparr>compressed_buffer := u, compressed_buffer_len := n\<rparr>) \<and> blk_size u = n \<and> required \<le> n"
proof (cases "compressed_buffer_len con < required")
  case True
  then have "grow_compressed required con =
      (True, con\<lparr>compressed_buffer := blk_realloc (compressed_buffer con) (enlarged required),
                 compressed_buffer_len := enlarged required\<rparr>)"
    using assms by (simp add: grow_compressed_def Let_def)
  then show ?thesis using enlarged_room[of required] by (intro exI) auto
next
  case False
  have "con = con\<lparr>compressed_buffer := compressed_buffer con, compressed_buffer_len := compressed_buffer_len con\<rparr>"
    by simp
  then show ?thesis using False assms unfolding grow_compressed_def buffers_ok_def
    by (metis not_less)
qed

text \<open>What it does: it fails, or it sends one packet, which opens to the source.\<close>

definition sends_or_fails :: "byte \<Rightarrow> byte list \<Rightarrow> 'a con_core_scheme \<Rightarrow> 'a con_core_scheme \<Rightarrow> bool" where
  "sends_or_fails seq src con con' \<longleftrightarrow>
     con_status con' = con_status con \<and> calm con' \<and>
     ((sent con' = sent con \<and> command_status con' = ATTACHSQL_COMMAND_STATUS_SEND_FAILED \<and>
       local_errcode con' = ATTACHSQL_RET_COMPRESSION_FAILURE \<and>
       queue_fields con' = (next_packet_queue con, next_packet_queue_size con, 0)) \<or>
      (command_status con' = ATTACHSQL_COMMAND_STATUS_READ_RESPONSE \<and> queue_fields con' = queue_fields con \<and>
       local_errcode con' = local_errcode con \<and>
       (\<exists>wire. sent con' = sent con @ [wire] \<and> open_compressed (lib con) wire = Some (seq, src))))"

lemma calm_update [simp]:
  "calm (con\<lparr>uncompressed_buffer := u\<rparr>) = calm con" "calm (con\<lparr>uncompressed_buffer_len := n\<rparr>) = calm con"
  "calm (con\<lparr>compressed_buffer := u\<rparr>) = calm con" "calm (con\<lparr>compressed_buffer_len := n\<rparr>) = calm con"
  "calm (con\<lparr>compressed_packet_header := u\<rparr>) = calm con" "calm (con\<lparr>command_status := s\<rparr>) = calm con"
  "calm (con\<lparr>sent := ps\<rparr>) = calm con" "calm (send_failed code con) = calm con"
  "calm (con\<lparr>compressed_packet_number := x\<rparr>) = calm con" "calm (con\<lparr>write_buffer_extra := x\<rparr>) = calm con"
  by (simp_all add: calm_def send_failed_def)

lemma send_failed_keeps:
  "sent (send_failed code con) = sent con" "con_status (send_failed code con) = con_status con"
  "command_status (send_failed code con) = ATTACHSQL_COMMAND_STATUS_SEND_FAILED"
  "local_errcode (send_failed code con) = code" "next_packet_queue_used (send_failed code con) = 0"
  "next_packet_queue (send_failed code con) = next_packet_queue con"
  "next_packet_queue_size (send_failed code con) = next_packet_queue_size con"
  by (simp_all add: send_failed_def)

lemma write_packet_calm:
  "calm con \<Longrightarrow> write_packet bufs con =
     Some (con\<lparr>command_status := ATTACHSQL_COMMAND_STATUS_READ_RESPONSE, sent := sent con @ [concat bufs]\<rparr>)"
  by (simp add: write_packet_def)

lemma compress_and_write_ok:
  assumes calm: "calm con" and bufs: "buffers_ok con" and z: "zlib_ok (lib con)"
    and req: "required = length src" "required \<noteq> 0"
    and small: "length src < 2 ^ 24" "uncompressed_buffer_len con < 2 ^ 24"
  shows "\<exists>con'. compress_and_write src large required con = Some con' \<and>
     sends_or_fails (compressed_packet_number con) src con con'"
proof (cases large)
  case False
  obtain h where h: "compressed_header required 0 con = Some (con\<lparr>compressed_packet_header := h\<rparr>)"
    "blk_read h 0 7 = Some (le_bytes 3 (of_nat (length src) :: uint64) @ [compressed_packet_number con] @
                            le_bytes 3 (of_nat 0 :: uint64))"
    using compressed_header_ok[OF bufs, of required 0] req(1) by auto
  then show ?thesis
    using False calm open_compressed_packet[OF small(1), of 0 "lib con" "compressed_packet_number con"]
    by (simp add: compress_and_write_unfold write_packet_calm sends_or_fails_def queue_fields_def)
next
  case True
  obtain c0 n where g: "grow_compressed (zlib_compressBound (lib con) required) con =
      (True, con\<lparr>compressed_buffer := c0, compressed_buffer_len := n\<rparr>)" "blk_size c0 = n"
    using grow_compressed_ok[OF calm bufs] by blast
  let ?c = "con\<lparr>compressed_buffer := c0, compressed_buffer_len := n\<rparr>"
  show ?thesis
  proof (cases "zlib_compress (lib con) src")
    case None
    then show ?thesis using True g(1) calm
      by (simp add: compress_and_write_unfold sends_or_fails_def send_failed_keeps queue_fields_def)
  next
    case (Some out)
    show ?thesis
    proof (cases "n < length out \<or> uncompressed_buffer_len con < length out")
      case fail: True
      then show ?thesis using True g(1) Some calm
        by (simp add: compress_and_write_unfold sends_or_fails_def send_failed_keeps queue_fields_def)
    next
      case fits: False
      obtain c1 where c1: "blk_write c0 0 out = Some c1"
        using blk_write_total[of 0 out c0] fits g(2) by auto
      let ?c1 = "con\<lparr>compressed_buffer_len := n, compressed_buffer := c1\<rparr>"
      have "buffers_ok ?c1" using bufs blk_write_size[OF c1] g(2) by (simp add: buffers_ok_def)
      from compressed_header_ok[OF this, of "length out" required]
      obtain h where h: "compressed_header (length out) required ?c1 = Some (?c1\<lparr>compressed_packet_header := h\<rparr>)"
        "blk_read h 0 7 = Some (le_bytes 3 (of_nat (length out) :: uint64) @ [compressed_packet_number con] @
                            le_bytes 3 (of_nat required :: uint64))"
        by auto
      have "zlib_uncompress (lib con) out = Some src" using z Some by (simp add: zlib_ok_def)
      then have "open_compressed (lib con) (le_bytes 3 (of_nat (length out) :: uint64) @ [compressed_packet_number con] @
                            le_bytes 3 (of_nat required :: uint64) @ out) = Some (compressed_packet_number con, src)"
        using open_compressed_packet[of out required "lib con" "compressed_packet_number con"] fits small req by simp
      then show ?thesis using True g(1) Some fits c1 h calm
        by (simp add: compress_and_write_unfold write_packet_calm sends_or_fails_def queue_fields_def)
    qed
  qed
qed

lemma send_compressed_ok:
  assumes calm: "calm con" and bufs: "buffers_ok con" and z: "zlib_ok (lib con)"
    and header: "blk_read (packet_header con) 0 4 = Some header"
    and extra: "command \<noteq> 0 \<Longrightarrow> extra_bytes con extra"
    and small: "enlarged (4 + length (payload_of extra command data)) < 2 ^ 24" "uncompressed_buffer_len con < 2 ^ 24"
  shows "\<exists>con'. attachsql_send_compressed_packet data command con = Some con' \<and>
     sends_or_fails (seq_of command con) (header @ payload_of extra command data) con con'"
proof -
  let ?src = "header @ payload_of extra command data"
  let ?req = "length data + 4 + (if command \<noteq> 0 then 1 + unat (write_buffer_extra con) else 0)"
  let ?c0 = "if command \<noteq> 0 then con\<lparr>compressed_packet_number := 0\<rparr> else con"
  have len: "length header = 4" using blk_read_Some[OF header] by simp
  have req: "?req = 4 + length (payload_of extra command data)"
    using extra by (auto simp: payload_of_def extra_bytes_def)
  have c0: "calm ?c0" "buffers_ok ?c0" using calm bufs by (auto simp: buffers_ok_def)
  obtain u n where g: "grow_uncompressed ?req ?c0 = (True, ?c0\<lparr>uncompressed_buffer := u, uncompressed_buffer_len := n\<rparr>)"
    "blk_size u = n" "?req \<le> n" using grow_uncompressed_ok[OF c0] by blast
  have n: "n < 2 ^ 24"
    using arg_cong[OF g(1), of "\<lambda>x. uncompressed_buffer_len (snd x)"] small req calm
    by (auto simp: grow_uncompressed_def Let_def split: if_splits)
  let ?c1 = "?c0\<lparr>uncompressed_buffer := u, uncompressed_buffer_len := n\<rparr>"
  have 1: "4 + length (payload_of extra command data) \<le> blk_size (uncompressed_buffer ?c1)" using g req by simp
  have 2: "blk_read (packet_header ?c1) 0 4 = Some header" using header by simp
  have 3: "command \<noteq> 0 \<Longrightarrow> extra_bytes ?c1 extra" using extra by (simp add: extra_bytes_def)
  obtain u2 e where f: "fill_uncompressed data command ?c1 = Some (?c1\<lparr>uncompressed_buffer := u2, write_buffer_extra := e\<rparr>)"
    "blk_size u2 = n" "blk_read u2 0 ?req = Some ?src"
    using fill_uncompressed_ok[OF 1 2 3] g(2) req by auto
  let ?c2 = "?c1\<lparr>uncompressed_buffer := u2, write_buffer_extra := e\<rparr>"
  have c2: "calm ?c2" "buffers_ok ?c2" "zlib_ok (lib ?c2)"
    using c0 z f(2) by (auto simp: buffers_ok_def split: if_splits)
  have "length ?src < 2 ^ 24" using small(1) enlarged_room[of "4 + length (payload_of extra command data)"] len by simp
  moreover have "uncompressed_buffer_len ?c2 < 2 ^ 24" using n by simp
  moreover have "?req = length ?src" using req len by simp
  ultimately obtain con' where con': "compress_and_write ?src (ATTACHSQL_MINIMUM_COMPRESS_SIZE < length data) ?req ?c2 = Some con'"
    "sends_or_fails (compressed_packet_number ?c2) ?src ?c2 con'"
    using compress_and_write_ok[OF c2, of ?req ?src] by fastforce
  have "blk_read (uncompressed_buffer ?c2) 0 ?req = Some ?src" using f(3) by simp
  then have "attachsql_send_compressed_packet data command con = Some con'"
    unfolding send_compressed_packet_unfold Let_def g(1) prod.case using f(1) con'(1) by simp
  moreover have "sends_or_fails (seq_of command con) ?src con con'"
    using con'(2) by (cases "command = 0") (simp_all add: sends_or_fails_def seq_of_def queue_fields_def)
  ultimately show ?thesis by blast
qed

text \<open>A compressed command, sent while the connection is idle.\<close>

definition compressed_response_of :: "attachsql_command_t \<Rightarrow> attachsql_packet_type_t" where
  "compressed_response_of command =
     (if command = ATTACHSQL_COMMAND_STMT_PREPARE then ATTACHSQL_PACKET_TYPE_PREPARE_RESPONSE
      else ATTACHSQL_PACKET_TYPE_RESPONSE)"

lemma command_code_nonzero: "command \<noteq> ATTACHSQL_COMMAND_SLEEP \<Longrightarrow> command_code command \<noteq> 0"
  by (cases command) simp_all

lemma compressed_expect:
  assumes ok: "queue_ok con" "queue_room con" and calm: "calm con"
    and s: "sends_or_fails seq src con con1"
  shows "\<exists>con2. queue_push (compressed_response_of command) con1 = Some con2 \<and> queue_only con1 con2 \<and> queue_ok con2 \<and>
     ((local_errcode con1 = ATTACHSQL_RET_COMPRESSION_FAILURE \<and> sent con1 = sent con \<and>
       expected con2 = [compressed_response_of command]) \<or>
      (local_errcode con1 = local_errcode con \<and>
       (\<exists>wire. sent con1 = sent con @ [wire] \<and> open_compressed (lib con) wire = Some (seq, src)) \<and>
       expected con2 = compressed_response_of command # expected con))"
proof -
  have c1: "calm con1" using s by (simp add: sends_or_fails_def)
  from s consider (fail) "sent con1 = sent con" "local_errcode con1 = ATTACHSQL_RET_COMPRESSION_FAILURE"
      "queue_fields con1 = queue_fields (con\<lparr>next_packet_queue_used := 0\<rparr>)"
    | (good) "local_errcode con1 = local_errcode con" "queue_fields con1 = queue_fields con"
      "\<exists>wire. sent con1 = sent con @ [wire] \<and> open_compressed (lib con) wire = Some (seq, src)"
    by (auto simp: sends_or_fails_def queue_fields_def)
  then show ?thesis
  proof cases
    case fail
    let ?c0 = "con\<lparr>next_packet_queue_used := 0\<rparr>"
    have "queue_ok con1" "expected con1 = []"
      using queue_frame[OF fail(3)] queue_ok_less[OF ok(1), of 0] expected_empty[of ?c0] by simp_all
    moreover have "queue_room con1" using ok(2) fail(3) calm c1
      by (simp add: queue_room_def queue_fields_def)
    ultimately obtain con2 where "queue_push (compressed_response_of command) con1 = Some con2" "queue_ok con2"
      "expected con2 = [compressed_response_of command]"
      using queue_push_ok by metis
    then show ?thesis using queue_push_only fail by blast
  next
    case good
    have "queue_ok con1" "expected con1 = expected con" using queue_frame[OF good(2)] ok(1) by simp_all
    moreover have "queue_room con1" using ok(2) good(2) calm c1
      by (simp add: queue_room_def queue_fields_def)
    ultimately obtain con2 where "queue_push (compressed_response_of command) con1 = Some con2" "queue_ok con2"
      "expected con2 = compressed_response_of command # expected con"
      using queue_push_ok by metis
    then show ?thesis using queue_push_only good by blast
  qed
qed

section \<open>Properties\<close>

text \<open>
  C22. Without compression a command is sent as one packet with sequence number 0: the command
  byte, the extra bytes left in the write buffer and the data. The connection is busy
  afterwards, and the packet type the server answers the command with is expected first.
\<close>

theorem command_sent:
  assumes "client_capabilities con AND ATTACHSQL_CAPABILITY_COMPRESS = 0"
    and "calm con" "buffers_ok con" "extra_bytes con extra" "queue_ok con" "queue_room con"
  shows "\<exists>con'. attachsql_command_send command data con = Some (ATTACHSQL_COMMAND_STATUS_SEND, con') \<and>
     sent con' = sent con @ [packet 0 (command_code command # extra @ data)] \<and>
     con_status con' = ATTACHSQL_CON_STATUS_BUSY \<and> command_status con' = ATTACHSQL_COMMAND_STATUS_SEND \<and>
     expected con' = response_of command @ expected con \<and> queue_ok con' \<and> packet_number con' = 0"
  using command_send_plain[OF assms] by blast

definition idle_con :: "bool \<Rightarrow> con_core" where
  "idle_con compressed = one_expected\<lparr>con_status := ATTACHSQL_CON_STATUS_IDLE,
     client_capabilities := (if compressed then ATTACHSQL_CAPABILITY_COMPRESS else 0)\<rparr>"

lemma idle_con_ok:
  "calm (idle_con x)" "buffers_ok (idle_con x)" "extra_bytes (idle_con x) []" "queue_ok (idle_con x)"
  "queue_room (idle_con x)" "zlib_ok (lib (idle_con x))" "uncompressed_buffer_len (idle_con x) = 0"
  "con_status (idle_con x) = ATTACHSQL_CON_STATUS_IDLE" "sent (idle_con x) = []"
  using one_expected_ok queue_frame(2)[of "idle_con x" one_expected]
  by (simp_all add: idle_con_def calm_def buffers_ok_def extra_bytes_def zlib_ok_def queue_fields_def
      queue_room_def alloc_def one_expected_def core_init_def)

theorem command_sent_witness:
  "\<exists>con'. attachsql_command_send ATTACHSQL_COMMAND_QUERY (str ''COMMIT'') (idle_con False) =
      Some (ATTACHSQL_COMMAND_STATUS_SEND, con') \<and>
    sent con' = [[7, 0, 0, 0, 3] @ str ''COMMIT'']"
  using command_sent[of "idle_con False" "[]" ATTACHSQL_COMMAND_QUERY "str ''COMMIT''"] idle_con_ok[of False]
  by (auto simp: packet_def le_bytes_3 str_def idle_con_def)

text \<open>
  C23. With compression the command is sent in one compressed packet that the server opens to the
  same packet, unless the compression fails, and then nothing is sent. Either way the caller is
  told that the command has been sent, the connection is busy and a response is expected, which
  the server never sends after a failure, nor for a closed statement.
\<close>

theorem compressed_command_sent:
  assumes "client_capabilities con AND ATTACHSQL_CAPABILITY_COMPRESS \<noteq> 0"
    and "con_status con = ATTACHSQL_CON_STATUS_IDLE" "command \<noteq> ATTACHSQL_COMMAND_SLEEP"
    and "calm con" "buffers_ok con" "extra_bytes con extra" "queue_ok con" "queue_room con" "zlib_ok (lib con)"
    and "enlarged (5 + length (extra @ data)) < 2 ^ 24" "uncompressed_buffer_len con < 2 ^ 24"
  shows "\<exists>con'. attachsql_command_send command data con = Some (ATTACHSQL_COMMAND_STATUS_SEND, con') \<and>
     con_status con' = ATTACHSQL_CON_STATUS_BUSY \<and> command_status con' = ATTACHSQL_COMMAND_STATUS_SEND \<and>
     ((local_errcode con' = ATTACHSQL_RET_COMPRESSION_FAILURE \<and> sent con' = sent con \<and>
       expected con' = [compressed_response_of command]) \<or>
      (local_errcode con' = ATTACHSQL_RET_OK \<and>
       (\<exists>wire. sent con' = sent con @ [wire] \<and>
          open_compressed (lib con) wire = Some (0, packet 0 (command_code command # extra @ data))) \<and>
       expected con' = compressed_response_of command # expected con))"
proof -
  note calm = assms(4) and bufs = assms(5) and extra = assms(6)
  let ?code = "command_code command"
  let ?n = "length data + 1 + unat (write_buffer_extra con)"
  let ?c0 = "(reset_result con)\<lparr>local_errcode := ATTACHSQL_RET_OK, errmsg := []\<rparr>"
  obtain h1 h2 where h: "attachsql_pack_int3 (packet_header con) 0 (of_nat ?n :: uint64) = Some h1"
    "blk_put h1 3 0 = Some h2" "blk_size h2 = 4" "blk_read h2 0 4 = Some (le_bytes 3 (of_nat ?n :: uint64) @ [0])"
    using header_write[of "packet_header con" "of_nat ?n :: uint64" 0] bufs by (auto simp: buffers_ok_def)
  let ?c1 = "?c0\<lparr>packet_number := 0, packet_header := h2\<rparr>"
  have code: "?code \<noteq> 0" using command_code_nonzero[OF assms(3)] .
  then have pay: "payload_of extra ?code data = ?code # extra @ data" by (simp add: payload_of_def)
  have c1: "calm ?c1" "buffers_ok ?c1" "zlib_ok (lib ?c1)" "extra_bytes ?c1 extra"
    "blk_read (packet_header ?c1) 0 4 = Some (le_bytes 3 (of_nat ?n :: uint64) @ [0])"
    using calm bufs assms(9) extra h(3,4)
    by (simp_all add: calm_def buffers_ok_def extra_bytes_def reset_result_def)
  have small: "enlarged (4 + length (payload_of extra ?code data)) < 2 ^ 24" "uncompressed_buffer_len ?c1 < 2 ^ 24"
    using assms(10,11) pay by (simp_all add: reset_result_def algebra_simps)
  obtain con1 where con1: "attachsql_send_compressed_packet data ?code ?c1 = Some con1"
    "sends_or_fails (seq_of ?code ?c1) ((le_bytes 3 (of_nat ?n :: uint64) @ [0]) @ payload_of extra ?code data) ?c1 con1"
    using send_compressed_ok[OF c1(1-3,5,4) small] by blast
  have src: "(le_bytes 3 (of_nat ?n :: uint64) @ [0]) @ payload_of extra ?code data = packet 0 (?code # extra @ data)"
    using extra pay by (simp add: packet_def extra_bytes_def add.commute)
  have seq: "seq_of ?code ?c1 = 0" using code by (simp add: seq_of_def)
  have q1: "queue_ok ?c1" "expected ?c1 = expected con" "queue_room ?c1"
    using assms(7,8) calm c1(1) queue_frame[of ?c1 con]
    by (simp_all add: queue_fields_def queue_room_def reset_result_def)
  obtain con2 where con2: "queue_push (compressed_response_of command) con1 = Some con2" "queue_only con1 con2"
    "(local_errcode con1 = ATTACHSQL_RET_COMPRESSION_FAILURE \<and> sent con1 = sent ?c1 \<and>
       expected con2 = [compressed_response_of command]) \<or>
      (local_errcode con1 = local_errcode ?c1 \<and>
       (\<exists>wire. sent con1 = sent ?c1 @ [wire] \<and> open_compressed (lib ?c1) wire = Some (0, packet 0 (?code # extra @ data))) \<and>
       expected con2 = compressed_response_of command # expected ?c1)"
    using compressed_expect[OF q1(1,3) c1(1) con1(2)[unfolded seq src], of command] by blast
  let ?c3 = "con2\<lparr>command_status := ATTACHSQL_COMMAND_STATUS_SEND, con_status := ATTACHSQL_CON_STATUS_BUSY\<rparr>"
  have idle: "con_status con1 = ATTACHSQL_CON_STATUS_IDLE"
    using con1(2) assms(2) by (simp add: sends_or_fails_def reset_result_def)
  have keep: "local_errcode con2 = local_errcode con1" "sent con2 = sent con1"
    using queue_push_frame[OF con2(1)] by simp_all
  have f3: "queue_fields ?c3 = queue_fields con2" by (simp add: queue_fields_def)
  have "attachsql_command_send command data con = Some (ATTACHSQL_COMMAND_STATUS_SEND, ?c3)"
  proof -
    have r: "packet_header ?c0 = packet_header con" "write_buffer_extra ?c0 = write_buffer_extra con"
      "client_capabilities ?c1 = client_capabilities con" by (simp_all add: reset_result_def)
    have cap: "(client_capabilities con AND ATTACHSQL_CAPABILITY_COMPRESS \<noteq> 0) = True" using assms(1) by simp
    show ?thesis
      unfolding command_send_unfold Let_def r h(1) Option.bind.simps h(2) cap if_True
        command_send_compressed_unfold con1(1) idle
      using con2(1) by (simp add: compressed_response_of_def)
  qed
  moreover have "expected ?c3 = expected con2" using queue_frame(1)[OF f3] .
  moreover have "sent ?c1 = sent con" "lib ?c1 = lib con" "local_errcode ?c1 = ATTACHSQL_RET_OK"
    by (simp_all add: reset_result_def)
  ultimately show ?thesis using con2(3) q1(2) keep by (intro exI[of _ ?c3]) auto
qed

theorem compressed_command_sent_witness:
  "\<exists>con'. attachsql_command_send ATTACHSQL_COMMAND_STMT_CLOSE (replicate 60 0) (idle_con True) =
      Some (ATTACHSQL_COMMAND_STATUS_SEND, con') \<and> con_status con' = ATTACHSQL_CON_STATUS_BUSY \<and>
    ATTACHSQL_PACKET_TYPE_RESPONSE \<in> set (expected con')"
  using compressed_command_sent[of "idle_con True" ATTACHSQL_COMMAND_STMT_CLOSE "[]" "replicate 60 0"] idle_con_ok[of True]
  by (auto simp: enlarged_def idle_con_def compressed_response_of_def)

end
