(* ===== verification/Sha1.thy ===== *)
theory Sha1
  imports Prelude
begin

text \<open>
  \<open>src/sha1.cc\<close>, the hash the authentication uses, and the standard it implements. The code keeps
  sixteen words of the message schedule in a circular array that it updates in place and rotates
  the roles of the five working variables instead of moving them; the standard has eighty words
  and moves the variables. The code hashes a message that arrives in pieces; the standard hashes
  it in one. Both differences are proved away.
\<close>

section \<open>The code\<close>

record SHA1_CTX =
  sha_state :: "uint32 list"
  sha_count :: uint64
  sha_buffer :: block

definition rol :: "uint32 \<Rightarrow> nat \<Rightarrow> uint32" where
  "rol value bits = push_bit bits value OR drop_bit (32 - bits) value"

definition blk0 :: "uint32 list \<Rightarrow> nat \<Rightarrow> uint32 list" where
  "blk0 l i = l[i := (rol (l ! i) 24 AND 0xFF00FF00) OR (rol (l ! i) 8 AND 0x00FF00FF)]"

definition blk :: "uint32 list \<Rightarrow> nat \<Rightarrow> uint32 list" where
  "blk l i = l[i mod 16 := rol (l ! ((i + 13) mod 16) XOR l ! ((i + 8) mod 16)
                                 XOR l ! ((i + 2) mod 16) XOR l ! (i mod 16)) 1]"

text \<open>
  The rounds work on the variables \<open>a\<close> to \<open>e\<close>, here a list; \<open>v\<close>, \<open>w\<close>, \<open>x\<close>, \<open>y\<close>, \<open>z\<close> say which
  variable each argument of the macro is. \<open>blk\<close> has stored the word of the round in the array.
\<close>

definition mix ::
  "(uint32 \<Rightarrow> uint32 \<Rightarrow> uint32 \<Rightarrow> uint32) \<Rightarrow> uint32 \<Rightarrow> uint32 \<Rightarrow>
   nat \<Rightarrow> nat \<Rightarrow> nat \<Rightarrow> nat \<Rightarrow> nat \<Rightarrow> uint32 list \<Rightarrow> uint32 list" where
  "mix f k word v w x y z s =
     (let s = s[z := s ! z + (f (s ! w) (s ! x) (s ! y) + word + k + rol (s ! v) 5)]
      in s[w := rol (s ! w) 30])"

type_synonym round_macro =
  "nat \<Rightarrow> nat \<Rightarrow> nat \<Rightarrow> nat \<Rightarrow> nat \<Rightarrow> nat \<Rightarrow> uint32 list \<times> uint32 list \<Rightarrow> uint32 list \<times> uint32 list"

definition R0 :: round_macro where
  "R0 v w x y z i = (\<lambda>(s, l). let l = blk0 l i in
     (mix (\<lambda>w x y. (w AND (x XOR y)) XOR y) 0x5A827999 (l ! i) v w x y z s, l))"

definition R1 :: round_macro where
  "R1 v w x y z i = (\<lambda>(s, l). let l = blk l i in
     (mix (\<lambda>w x y. (w AND (x XOR y)) XOR y) 0x5A827999 (l ! (i mod 16)) v w x y z s, l))"

definition R2 :: round_macro where
  "R2 v w x y z i = (\<lambda>(s, l). let l = blk l i in
     (mix (\<lambda>w x y. w XOR x XOR y) 0x6ED9EBA1 (l ! (i mod 16)) v w x y z s, l))"

definition R3 :: round_macro where
  "R3 v w x y z i = (\<lambda>(s, l). let l = blk l i in
     (mix (\<lambda>w x y. ((w OR x) AND y) OR (w AND x)) 0x8F1BBCDC (l ! (i mod 16)) v w x y z s, l))"

definition R4 :: round_macro where
  "R4 v w x y z i = (\<lambda>(s, l). let l = blk l i in
     (mix (\<lambda>w x y. w XOR x XOR y) 0xCA62C1D6 (l ! (i mod 16)) v w x y z s, l))"

text \<open>
  The eighty unrolled rounds: round \<open>i\<close> has the variables from number \<open>-i\<close> modulo 5 on as its
  arguments.
\<close>

definition sha_round :: "nat \<Rightarrow> uint32 list \<times> uint32 list \<Rightarrow> uint32 list \<times> uint32 list" where
  "sha_round i =
     (let v = (5 - i mod 5) mod 5
      in (if i < 16 then R0 else if i < 20 then R1 else if i < 40 then R2
          else if i < 60 then R3 else R4)
         v ((v + 1) mod 5) ((v + 2) mod 5) ((v + 3) mod 5) ((v + 4) mod 5) i)"

definition SHA1Transform :: "uint32 list \<Rightarrow> byte list \<Rightarrow> uint32 list" where
  "SHA1Transform state buffer =
     (let l = map (\<lambda>i. le_word (take 4 (drop (4 * i) buffer))) [0..<16];
          (s, _) = fold sha_round [0..<80] (state, l)
      in map2 (+) state s)"

definition SHA1Init :: "SHA1_CTX \<Rightarrow> SHA1_CTX" where
  "SHA1Init context = context\<lparr>sha_count := 0,
     sha_state := [0x67452301, 0xEFCDAB89, 0x98BADCFE, 0x10325476, 0xC3D2E1F0]\<rparr>"

text \<open>
  The loop of \<open>SHA1Update\<close> over whole blocks of the data. Its 32-bit counter does not wrap
  around for data of less than 4 GB; longer data is outside the model.
\<close>

function sha_blocks :: "uint32 list \<Rightarrow> byte list \<Rightarrow> nat \<Rightarrow> uint32 list \<times> nat" where
  "sha_blocks state data i =
     (if i + 63 < length data
      then sha_blocks (SHA1Transform state (take 64 (drop i data))) data (i + 64)
      else (state, i))"
  by pat_completeness auto
termination by (relation "measure (\<lambda>(_, data, i). length data - i)") auto

declare sha_blocks.simps [simp del]

definition SHA1Update :: "SHA1_CTX \<Rightarrow> byte list \<Rightarrow> SHA1_CTX option" where
  "SHA1Update context data =
     (let len = length data;
          j = unat (drop_bit 3 (sha_count context) AND 63);
          context = context\<lparr>sha_count := sha_count context + push_bit 3 (of_nat len)\<rparr>
      in if 2 ^ 32 - 64 < len then None
         else if 63 < j + len then
           do { let i = 64 - j;
                buffer \<leftarrow> blk_write (sha_buffer context) j (take i data);
                whole \<leftarrow> blk_read buffer 0 64;
                let (state, i) = sha_blocks (SHA1Transform (sha_state context) whole) data i;
                buffer \<leftarrow> blk_write buffer 0 (drop i data);
                Some (context\<lparr>sha_state := state, sha_buffer := buffer\<rparr>) }
         else
           do { buffer \<leftarrow> blk_write (sha_buffer context) j data;
                Some (context\<lparr>sha_buffer := buffer\<rparr>) })"

lemma update_count:
  "SHA1Update c data = Some c' \<Longrightarrow> sha_count c' = sha_count c + push_bit 3 (of_nat (length data))"
  by (auto simp: SHA1Update_def Let_def bind_Some_iff case_prod_unfold split: if_splits)

text \<open>The padding loop: zero bytes until 56 bytes of the block are filled.\<close>

definition pad_need :: "nat \<Rightarrow> nat" where
  "pad_need k = (if k \<le> 56 then 56 - k else 120 - k)"

definition pad_left :: "SHA1_CTX \<Rightarrow> nat" where
  "pad_left context = pad_need (unat (sha_count context) div 8 mod 64)"

lemma pad_need_step: "k < 64 \<Longrightarrow> k \<noteq> 56 \<Longrightarrow> pad_need k = Suc (pad_need ((k + 1) mod 64))"
  by (cases "k = 63") (auto simp: pad_need_def)

lemma pad_need_zero: "k < 64 \<Longrightarrow> (pad_need k = 0) = (k = 56)"
  by (auto simp: pad_need_def)

lemma count_bytes: "unat (drop_bit 3 v) = unat (v :: uint64) div 8"
  using unat_drop_bit_eq[of 3 v] drop_bit_eq_div[of 3 "unat v"] by simp

lemma count_masked: "v AND 504 = push_bit 3 (of_nat (unat (v :: uint64) div 8 mod 64))"
proof -
  have "take_bit 6 (drop_bit 3 v) = of_nat (unat v div 8 mod 64)"
    by (rule word_unat_eq_iff[THEN iffD2])
      (simp add: unsigned_take_bit_eq count_bytes unat_of_nat take_bit_eq_mod[of 6 "unat v div 8"])
  moreover have "v AND 504 = push_bit 3 (take_bit 6 (drop_bit 3 v))"
  proof -
    have e: "(504 :: uint64) = push_bit 3 (mask 6)" by (simp add: mask_numeral)
    show ?thesis unfolding e by (auto intro!: bit_word_eqI simp: bit_simps)
  qed
  ultimately show ?thesis by simp
qed

lemma pad_done: "(v AND 504 = 448) = (unat (v :: uint64) div 8 mod 64 = 56)"
proof -
  have "unat (push_bit 3 (of_nat (k :: nat)) :: uint64) = 8 * k" if "k < 64" for k
    using that by (simp add: push_bit_eq_mult unat_word_ariths unat_of_nat)
  from this[of "unat v div 8 mod 64"] show ?thesis
    unfolding count_masked by (auto simp: word_unat_eq_iff)
qed

lemma count_step: "unat (v + 8 :: uint64) div 8 mod 64 = (unat v div 8 mod 64 + 1) mod 64"
proof -
  have "n mod (8 * M) div 8 mod 64 = n div 8 mod (64::nat)" if "64 dvd M" for n M
    by (simp add: mod_mult2_eq mod_mod_cancel[OF that])
  from this[of 2305843009213693952 "unat v + 8"] show ?thesis
    by (simp add: unat_word_ariths mod_Suc_eq div_add_self2)
qed

lemma pad_left_decreases:
  assumes "sha_count c AND 504 \<noteq> 448" "SHA1Update c [0] = Some c'"
  shows "pad_left c' < pad_left c"
proof -
  have "sha_count c' = sha_count c + 8" using update_count[OF assms(2)] by simp
  then have "unat (sha_count c') div 8 mod 64 = (unat (sha_count c) div 8 mod 64 + 1) mod 64"
    using count_step by simp
  moreover have "unat (sha_count c) div 8 mod 64 \<noteq> 56" using assms(1) pad_done by blast
  ultimately show ?thesis using pad_need_step[of "unat (sha_count c) div 8 mod 64"] by (simp add: pad_left_def)
qed

function sha_pad_loop :: "SHA1_CTX \<Rightarrow> SHA1_CTX option" where
  "sha_pad_loop context =
     (if sha_count context AND 504 \<noteq> 448
      then do { context \<leftarrow> SHA1Update context [0]; sha_pad_loop context }
      else Some context)"
  by pat_completeness auto
termination
  by (relation "measure pad_left") (auto simp: pad_left_decreases)

declare sha_pad_loop.simps [simp del]

definition SHA1Pad :: "SHA1_CTX \<Rightarrow> SHA1_CTX option" where
  "SHA1Pad context =
     do { let finalcount = map (\<lambda>i. ucast (drop_bit ((7 - i mod 8) * 8) (sha_count context) AND 255)) [0..<8];
          context \<leftarrow> SHA1Update context [0x80];
          context \<leftarrow> sha_pad_loop context;
          SHA1Update context finalcount }"

text \<open>The digest, and the context wiped.\<close>

definition SHA1Final :: "SHA1_CTX \<Rightarrow> (byte list \<times> SHA1_CTX) option" where
  "SHA1Final context =
     do { context \<leftarrow> SHA1Pad context;
          Some (map (\<lambda>i. ucast (drop_bit ((3 - i mod 4) * 8) (sha_state context ! (i div 4)) AND 255)) [0..<20],
                \<lparr>sha_state = replicate 5 0, sha_count = 0, sha_buffer = blk_of (replicate 64 0)\<rparr>) }"

section \<open>The standard\<close>

type_synonym vars = "uint32 \<times> uint32 \<times> uint32 \<times> uint32 \<times> uint32"

definition be_word :: "byte list \<Rightarrow> uint32" where
  "be_word xs = le_word (rev xs)"

fun sha1_W :: "byte list \<Rightarrow> nat \<Rightarrow> uint32" where
  "sha1_W m t =
     (if t < 16 then be_word (take 4 (drop (4 * t) m))
      else word_rotl 1 (sha1_W m (t - 3) XOR sha1_W m (t - 8) XOR sha1_W m (t - 14) XOR sha1_W m (t - 16)))"

declare sha1_W.simps [simp del]

definition sha1_f :: "nat \<Rightarrow> uint32 \<Rightarrow> uint32 \<Rightarrow> uint32 \<Rightarrow> uint32" where
  "sha1_f t b c d =
     (if t < 20 then (b AND c) OR (NOT b AND d)
      else if 40 \<le> t \<and> t < 60 then (b AND c) OR (b AND d) OR (c AND d)
      else b XOR c XOR d)"

definition sha1_K :: "nat \<Rightarrow> uint32" where
  "sha1_K t = (if t < 20 then 0x5A827999 else if t < 40 then 0x6ED9EBA1
               else if t < 60 then 0x8F1BBCDC else 0xCA62C1D6)"

definition sha1_step :: "byte list \<Rightarrow> nat \<Rightarrow> vars \<Rightarrow> vars" where
  "sha1_step m t = (\<lambda>(a, b, c, d, e).
     (word_rotl 5 a + sha1_f t b c d + e + sha1_W m t + sha1_K t, a, word_rotl 30 b, c, d))"

definition sha1_block :: "vars \<Rightarrow> byte list \<Rightarrow> vars" where
  "sha1_block = (\<lambda>(h0, h1, h2, h3, h4) m.
     case fold (sha1_step m) [0..<80] (h0, h1, h2, h3, h4) of
       (a, b, c, d, e) \<Rightarrow> (h0 + a, h1 + b, h2 + c, h3 + d, h4 + e))"

definition sha1_init :: vars where
  "sha1_init = (0x67452301, 0xEFCDAB89, 0x98BADCFE, 0x10325476, 0xC3D2E1F0)"

function sha1_run :: "vars \<Rightarrow> byte list \<Rightarrow> vars" where
  "sha1_run h m = (if length m < 64 then h else sha1_run (sha1_block h (take 64 m)) (drop 64 m))"
  by pat_completeness auto
termination by (relation "measure (\<lambda>(_, m). length m)") auto

declare sha1_run.simps [simp del]

definition be_bytes64 :: "uint64 \<Rightarrow> byte list" where
  "be_bytes64 v = rev (le_bytes 8 v)"

definition sha1_pad :: "byte list \<Rightarrow> byte list" where
  "sha1_pad m = m @ [0x80] @ replicate (nat ((55 - int (length m)) mod 64)) 0
                  @ be_bytes64 (of_nat (8 * length m))"

definition sha1 :: "byte list \<Rightarrow> byte list" where
  "sha1 m = (case sha1_run sha1_init (sha1_pad m) of (a, b, c, d, e) \<Rightarrow>
     concat (map (\<lambda>w. rev (le_bytes 4 w)) [a, b, c, d, e]))"

section \<open>One block\<close>

definition vars_at :: "nat \<Rightarrow> vars \<Rightarrow> uint32 list" where
  "vars_at t = (\<lambda>(a, b, c, d, e). map (\<lambda>k. [a, b, c, d, e] ! ((k + t) mod 5)) [0..<5])"

lemma rol_rotl: "0 < n \<Longrightarrow> n < 32 \<Longrightarrow> rol w n = word_rotl n w"
proof (rule bit_word_eqI)
  fix i assume n: "0 < n" "n < 32" and i: "i < LENGTH(32)"
  show "bit (rol w n) i = bit (word_rotl n w) i"
  proof (cases "n \<le> i")
    case True
    then have "(i + (32 - n)) mod 32 = i - n" "32 \<le> i + (32 - n)" using n i by (auto simp: mod_if)
    then show ?thesis using n i True
      by (auto simp: rol_def bit_simps bit_word_rotl_iff dest: bit_imp_le_length)
  next
    case False
    obtain k where k: "n = 32 - k" "0 < k" "k < 32" "32 - n = k"
      using n by (metis diff_diff_cancel diff_less less_imp_le_nat zero_less_diff zero_less_numeral)
    then have "(i + k) mod 32 = i + k" "i + k < 32" "(32 - k) mod 32 = 32 - k" using n i False by auto
    then have "bit (word_rotl n w) i = bit w (i + k)" using i k by (simp add: bit_word_rotl_iff)
    moreover have "bit (rol w n) i = bit w (i + k)"
      using False i unfolding rol_def k(4) by (simp add: bit_simps add.commute)
    ultimately show ?thesis by simp
  qed
qed

lemma all32: "(\<forall>i < 32. P (i::nat)) \<longleftrightarrow> (\<forall>j < 8. P j \<and> P (8 + j) \<and> P (16 + j) \<and> P (24 + j))"
proof -
  have "P i" if "\<forall>j < 8. P j \<and> P (8 + j) \<and> P (16 + j) \<and> P (24 + j)" "i < 32" for i
  proof -
    have "i div 8 < 4" "i mod 8 < 8" "i = 8 * (i div 8) + i mod 8" using that(2) by auto
    then obtain k r where "i = 8 * k + r" "k < 4" "r < 8" by blast
    then have "P (8 * 0 + r)" "P (8 * 1 + r)" "P (8 * 2 + r)" "P (8 * 3 + r)" using that(1) by simp_all
    moreover have "k = 0 \<or> k = 1 \<or> k = 2 \<or> k = 3" using \<open>k < 4\<close> by linarith
    ultimately show ?thesis using \<open>i = 8 * k + r\<close> by blast
  qed
  moreover have "P j \<and> P (8 + j) \<and> P (16 + j) \<and> P (24 + j)" if "\<forall>i < 32. P i" "j < 8" for j
    using that(2) by (intro conjI that(1)[rule_format]) linarith+
  ultimately show ?thesis by meson
qed

lemma swap_masks:
  "(0xFF00FF00 :: uint32) = push_bit 8 (mask 8) OR push_bit 24 (mask 8)"
  "(0x00FF00FF :: uint32) = mask 8 OR push_bit 16 (mask 8)"
  by (simp_all add: mask_numeral)

lemma swap_be:
  assumes "length xs = 4"
  shows "(rol (le_word xs) 24 AND 0xFF00FF00) OR (rol (le_word xs) 8 AND 0x00FF00FF) = be_word xs"
proof -
  obtain a b c d where xs: "xs = [a, b, c, d]"
    using assms by (auto simp: eval_nat_numeral length_Suc_conv)
  have hi: "\<not> bit v (8 + j)" "\<not> bit v (16 + j)" "\<not> bit v (24 + j)" for v :: byte and j
    by (auto dest: bit_imp_le_length)
  have "\<forall>i < 32. bit ((rol (le_word xs) 24 AND 0xFF00FF00) OR (rol (le_word xs) 8 AND 0x00FF00FF)) i =
        bit (be_word xs) i"
    unfolding all32 swap_masks
   by (auto simp: xs be_word_def rol_def le_word_bit bit_simps div_add1_eq nth_Cons' hi)
  then show ?thesis by (auto intro!: bit_word_eqI)
qed

lemma ch_eq: "(w AND (x XOR y)) XOR y = (w AND x) OR (NOT w AND (y :: 'a::len word))"
  by (rule bit_word_eqI) (auto simp: bit_simps)

lemma maj_eq: "((w OR x) AND y) OR (w AND x) = (w AND x) OR (w AND y) OR (x AND (y :: 'a::len word))"
  by (rule bit_word_eqI) (auto simp: bit_simps)

lemma vars_at_cases:
  "t mod 5 = 0 \<Longrightarrow> vars_at t (a, b, c, d, e) = [a, b, c, d, e]"
  "t mod 5 = 1 \<Longrightarrow> vars_at t (a, b, c, d, e) = [b, c, d, e, a]"
  "t mod 5 = 2 \<Longrightarrow> vars_at t (a, b, c, d, e) = [c, d, e, a, b]"
  "t mod 5 = 3 \<Longrightarrow> vars_at t (a, b, c, d, e) = [d, e, a, b, c]"
  "t mod 5 = 4 \<Longrightarrow> vars_at t (a, b, c, d, e) = [e, a, b, c, d]"
  using mod_add_right_eq[of _ t 5, symmetric]
  by (simp_all add: vars_at_def upt_rec)

lemma mix_vars:
  assumes "v = (5 - t mod 5) mod 5"
  shows "mix f k word v ((v + 1) mod 5) ((v + 2) mod 5) ((v + 3) mod 5) ((v + 4) mod 5)
      (vars_at t (a, b, c, d, e)) =
    vars_at (Suc t) (word_rotl 5 a + f b c d + e + word + k, a, word_rotl 30 b, c, d)"
proof -
  have "t mod 5 < 5" by simp
  then consider "t mod 5 = 0" | "t mod 5 = 1" | "t mod 5 = 2" | "t mod 5 = 3" | "t mod 5 = 4"
    by linarith
  then show ?thesis
    by cases (simp_all add: assms vars_at_cases mod_Suc mix_def rol_rotl add_ac)
qed

text \<open>After \<open>t\<close> rounds the array holds the last sixteen words of the schedule.\<close>

definition window :: "byte list \<Rightarrow> nat \<Rightarrow> uint32 list \<Rightarrow> bool" where
  "window m t l \<longleftrightarrow> length l = 16 \<and>
     (\<forall>s. s < t \<and> t \<le> s + 16 \<longrightarrow> l ! (s mod 16) = sha1_W m s) \<and>
     (\<forall>s. t \<le> s \<and> s < 16 \<longrightarrow> l ! s = le_word (take 4 (drop (4 * s) m)))"

lemma window_blk0:
  assumes "window m t l" "t < 16" "length m = 64"
  shows "window m (Suc t) (blk0 l t) \<and> blk0 l t ! t = sha1_W m t"
proof -
  have "l ! t = le_word (take 4 (drop (4 * t) m))" using assms by (simp add: window_def)
  then have "blk0 l t = l[t := sha1_W m t]"
    using assms by (simp add: blk0_def swap_be sha1_W.simps)
  then show ?thesis using assms by (auto simp: window_def nth_list_update less_Suc_eq)
qed

lemma window_blk:
  assumes "window m t l" "16 \<le> t"
  shows "window m (Suc t) (blk l t) \<and> blk l t ! (t mod 16) = sha1_W m t"
proof -
  have w: "l ! (s mod 16) = sha1_W m s" if "s < t" "t \<le> s + 16" for s
    using assms(1) that by (simp add: window_def)
  have bk: "(t - k) mod 16 = (t + (16 - k)) mod 16" if "k \<le> 16" for k
  proof -
    have "t + (16 - k) = t - k + 16" using that assms(2) by simp
    then show ?thesis by simp
  qed
  have e: "(t - 3) mod 16 = (t + 13) mod 16" "(t - 8) mod 16 = (t + 8) mod 16"
    "(t - 14) mod 16 = (t + 2) mod 16" "(t - 16) mod 16 = t mod 16"
    using bk[of 3] bk[of 8] bk[of 14] bk[of 16] by simp_all
  have "l ! ((t + 13) mod 16) = sha1_W m (t - 3)" "l ! ((t + 8) mod 16) = sha1_W m (t - 8)"
    "l ! ((t + 2) mod 16) = sha1_W m (t - 14)" "l ! (t mod 16) = sha1_W m (t - 16)"
    using assms(2) w[of "t - 3", unfolded e] w[of "t - 8", unfolded e] w[of "t - 14", unfolded e]
      w[of "t - 16", unfolded e] by simp_all
  then have l': "blk l t = l[t mod 16 := sha1_W m t]"
    using assms(2) by (simp add: blk_def sha1_W.simps[of m t] rol_rotl)
  have ne: "s mod 16 \<noteq> t mod 16" if "s < t" "Suc t \<le> s + 16" for s
    using that mod_eq_dvd_iff_nat[of s t 16] dvd_imp_le[of 16 "t - s"] by fastforce
  have len: "length l = 16" using assms(1) by (simp add: window_def)
  have "blk l t ! (s mod 16) = sha1_W m s" if "s < Suc t" "Suc t \<le> s + 16" for s
    using that ne[of s] w[of s] by (cases "s = t") (simp_all add: l' len)
  moreover have "blk l t ! (t mod 16) = sha1_W m t" by (simp add: l' len)
  moreover have "\<forall>s. Suc t \<le> s \<and> s < 16 \<longrightarrow> False" using assms(2) by auto
  ultimately show ?thesis using len by (auto simp: window_def l')
qed

lemma sha_round_step:
  assumes "window m t l" "t < 80" "length m = 64"
  shows "\<exists>l'. sha_round t (vars_at t x, l) = (vars_at (Suc t) (sha1_step m t x), l') \<and> window m (Suc t) l'"
proof -
  obtain a b c d e where x: "x = (a, b, c, d, e)" by (cases x) auto
  note mv = mix_vars[OF refl, of _ _ _ t a b c d e]
  show ?thesis
  proof (cases "t < 16")
    case True
    then show ?thesis using window_blk0[OF assms(1) True assms(3)]
      by (simp add: x sha_round_def R0_def Let_def mv sha1_step_def sha1_f_def sha1_K_def ch_eq
          del: One_nat_def add_2_eq_Suc add_2_eq_Suc')
  next
    case False
    then have "16 \<le> t" by simp
    from window_blk[OF assms(1) this] False assms(2) show ?thesis
      by (auto simp: x sha_round_def R1_def R2_def R3_def R4_def Let_def mv sha1_step_def sha1_f_def
          sha1_K_def ch_eq maj_eq simp del: One_nat_def add_2_eq_Suc add_2_eq_Suc')
  qed
qed

lemma sha_rounds:
  assumes "length m = 64" "n \<le> 80" "window m 0 l"
  shows "\<exists>l'. fold sha_round [0..<n] (vars_at 0 x, l) = (vars_at n (fold (sha1_step m) [0..<n] x), l') \<and>
              window m n l'"
  using assms(2)
proof (induction n)
  case 0
  then show ?case using assms by simp
next
  case (Suc n)
  then obtain l1 where f: "fold sha_round [0..<n] (vars_at 0 x, l) = (vars_at n (fold (sha1_step m) [0..<n] x), l1)"
    and w: "window m n l1" by auto
  from sha_round_step[OF w _ assms(1), of "fold (sha1_step m) [0..<n] x"] Suc(2) f
  show ?case by auto
qed

fun vlist :: "vars \<Rightarrow> uint32 list" where
  "vlist (a, b, c, d, e) = [a, b, c, d, e]"

lemma transform_block:
  assumes "length m = 64"
  shows "SHA1Transform (vlist h) m = vlist (sha1_block h m)"
proof -
  obtain a b c d e where h: "h = (a, b, c, d, e)" by (cases h) auto
  let ?l = "map (\<lambda>i. le_word (take 4 (drop (4 * i) m))) [0..<16]"
  have "window m 0 ?l" by (auto simp: window_def)
  from sha_rounds[OF assms order_refl this, of h] obtain l' where
    "fold sha_round [0..<80] (vars_at 0 h, ?l) = (vars_at 80 (fold (sha1_step m) [0..<80] h), l')" by blast
  moreover have "vars_at 0 h = vlist h" "vars_at 80 y = vlist y" for y
    by (cases y; simp add: h vars_at_def upt_rec)+
  ultimately show ?thesis
    by (cases "fold (sha1_step m) [0..<80] h") (simp add: SHA1Transform_def sha1_block_def h)
qed

section \<open>Messages in pieces\<close>

definition pending :: "byte list \<Rightarrow> byte list" where
  "pending m = drop (64 * (length m div 64)) m"

lemma pending_length [simp]: "length (pending m) = length m mod 64"
  by (simp add: pending_def minus_mult_div_eq_mod)

lemma sha1_run_block: "length w = 64 \<Longrightarrow> sha1_run h (w @ xs) = sha1_run (sha1_block h w) xs"
  by (subst sha1_run.simps) simp

lemma sha1_run_append: "sha1_run h (m @ xs) = sha1_run (sha1_run h m) (pending m @ xs)"
proof (induction h m rule: sha1_run.induct)
  case (1 h m)
  show ?case
  proof (cases "length m < 64")
    case True
    then show ?thesis by (simp add: sha1_run.simps[of h m] pending_def)
  next
    case False
    then have "pending m = pending (drop 64 m)"
      by (simp add: pending_def le_div_geq add.commute)
    then show ?thesis using 1[OF False] False
      by (simp add: sha1_run.simps[of h m] sha1_run.simps[of h "m @ xs"])
  qed
qed

lemma drop_past: "drop (length as + k) (as @ bs) = drop k bs"
  by simp

lemma pending_append: "pending (m @ xs) = pending (pending m @ xs)"
proof -
  let ?k = "length m div 64"
  have m: "m @ xs = take (64 * ?k) m @ pending m @ xs" by (simp add: pending_def)
  have l: "length (take (64 * ?k) m) = 64 * ?k" by simp
  have "length m + length xs = length m mod 64 + length xs + ?k * 64" by simp
  then have "length (m @ xs) div 64 = ?k + length (pending m @ xs) div 64"
    by (simp only: length_append pending_length div_mult_self1 zero_neq_numeral[symmetric] simp_thms)
  then show ?thesis unfolding pending_def[of "m @ xs"] pending_def[of "pending m @ xs"]
    by (subst m) (simp add: drop_append add_mult_distrib2 del: append_take_drop_id)
qed

text \<open>The context after the bytes \<open>m\<close> have been hashed.\<close>

definition ctx_of :: "byte list \<Rightarrow> SHA1_CTX \<Rightarrow> bool" where
  "ctx_of m c \<longleftrightarrow> sha_state c = vlist (sha1_run sha1_init m) \<and>
     sha_count c = of_nat (8 * length m) \<and> blk_size (sha_buffer c) = 64 \<and>
     blk_has (sha_buffer c) 0 (pending m)"

lemma sha_blocks_run:
  assumes "i \<le> length data"
  shows "sha_blocks (vlist h) data i =
    (vlist (sha1_run h (drop i data)), length data - (length data - i) mod 64)"
  using assms
proof (induction "length data - i" arbitrary: h i rule: less_induct)
  case less
  show ?case
  proof (cases "i + 63 < length data")
    case True
    then have "64 \<le> length data - i" by linarith
    from True have "sha_blocks (vlist h) data i = sha_blocks (vlist (sha1_block h (take 64 (drop i data)))) data (i + 64)"
      by (simp add: sha_blocks.simps[of "vlist h" data i] transform_block)
    also have "\<dots> = (vlist (sha1_run (sha1_block h (take 64 (drop i data))) (drop (i + 64) data)),
        length data - (length data - (i + 64)) mod 64)"
      using True by (intro less(1)) auto
    also have "(length data - (i + 64)) mod 64 = (length data - i) mod 64"
      using True le_mod_geq[of 64 "length data - i"] by simp
    finally show ?thesis using sha1_run.simps[of h "drop i data"] \<open>64 \<le> length data - i\<close>
      by (simp add: add.commute)
  next
    case False
    then have "length data - i < 64" by linarith
    with False show ?thesis using less(2)
      by (simp add: sha_blocks.simps[of "vlist h" data i] sha1_run.simps[of h "drop i data"])
  qed
qed

lemma count_offset:
  "unat (drop_bit 3 (of_nat (8 * n) :: uint64) AND 63) = n mod 64"
proof -
  have e: "(63 :: uint64) = mask 6" by (simp add: mask_numeral)
  have "unat (drop_bit 3 (of_nat (8 * n) :: uint64) AND 63) = unat (of_nat (8 * n) :: uint64) div 8 mod 64"
    unfolding e take_bit_eq_mask[symmetric] unsigned_take_bit_eq count_bytes
    by (simp add: take_bit_eq_mod)
  also have "unat (of_nat (8 * n) :: uint64) = 8 * (n mod 2305843009213693952)"
    by (simp only: unat_of_nat) (simp add: mult_mod_right)
  finally show ?thesis by (simp add: mod_mod_cancel)
qed

lemma update_ctx:
  assumes c: "ctx_of m c" and len: "length xs \<le> 2 ^ 32 - 64"
  shows "\<exists>c'. SHA1Update c xs = Some c' \<and> ctx_of (m @ xs) c'"
proof -
  let ?j = "length m mod 64"
  let ?st = "sha1_run sha1_init m"
  have j: "unat (drop_bit 3 (sha_count c) AND 63) = ?j"
    using c count_offset by (simp add: ctx_of_def)
  have cnt: "sha_count c + push_bit 3 (of_nat (length xs)) = of_nat (8 * length (m @ xs))"
    using c by (simp add: ctx_of_def push_bit_eq_mult algebra_simps)
  have sz: "blk_size (sha_buffer c) = 64" and has: "blk_has (sha_buffer c) 0 (pending m)"
    and st: "sha_state c = vlist ?st" using c by (auto simp: ctx_of_def)
  have upd: "sha_buffer (c\<lparr>sha_count := k\<rparr>) = sha_buffer c" "sha_state (c\<lparr>sha_count := k\<rparr>) = sha_state c" for k
    by simp_all
  show ?thesis
  proof (cases "63 < ?j + length xs")
    case False
    then obtain b where b: "blk_write (sha_buffer c) ?j xs = Some b"
      using blk_write_total[of ?j xs "sha_buffer c"] sz by auto
    have "blk_has b 0 (pending m @ xs)"
      using blk_write_has[OF b] blk_write_frame[OF b, of 0 "pending m"] has by (simp add: blk_has_append)
    moreover have "pending (m @ xs) = pending m @ xs"
      using False by (subst pending_append) (simp add: pending_def[of "pending m @ xs"])
    moreover have "sha1_run sha1_init (m @ xs) = ?st"
      using False by (simp add: sha1_run_append[of sha1_init m] sha1_run.simps[of ?st "pending m @ xs"])
    ultimately have "ctx_of (m @ xs) (c\<lparr>sha_count := of_nat (8 * length (m @ xs)), sha_buffer := b\<rparr>)"
      using sz st blk_write_size[OF b] by (simp add: ctx_of_def)
    moreover have "\<not> 2 ^ 32 - 64 < length xs" using len by simp
    then have "SHA1Update c xs = Some (c\<lparr>sha_count := of_nat (8 * length (m @ xs)), sha_buffer := b\<rparr>)"
      unfolding SHA1Update_def Let_def j cnt
      by (simp only: if_False False b option.simps Option.bind.simps upd)
    ultimately show ?thesis by blast
  next
    case True
    let ?i = "64 - ?j"
    have i: "?i \<le> length xs" using True by linarith
    let ?whole = "pending m @ take ?i xs"
    have lw: "length ?whole = 64" using i by (simp add: min_absorb2)
    obtain b where b: "blk_write (sha_buffer c) ?j (take ?i xs) = Some b"
      using blk_write_total[of ?j "take ?i xs" "sha_buffer c"] sz i by auto
    have "blk_has b 0 ?whole"
      using blk_write_has[OF b] blk_write_frame[OF b, of 0 "pending m"] has by (simp add: blk_has_append)
    then have r: "blk_read b 0 64 = Some ?whole" using lw by (intro blk_read_has) simp_all
    let ?h = "sha1_block ?st ?whole"
    have run: "sha1_run sha1_init (m @ xs) = sha1_run ?h (drop ?i xs)"
    proof -
      have "pending m @ xs = ?whole @ drop ?i xs" by simp
      moreover have "sha1_run ?st (?whole @ drop ?i xs) = sha1_run ?h (drop ?i xs)"
        by (rule sha1_run_block[OF lw])
      ultimately show ?thesis by (simp only: sha1_run_append[of sha1_init m xs])
    qed
    let ?e = "length xs - (length xs - ?i) mod 64"
    have bl: "sha_blocks (SHA1Transform (vlist ?st) ?whole) xs ?i = (vlist (sha1_run ?h (drop ?i xs)), ?e)"
      using sha_blocks_run[OF i] by (simp add: transform_block[OF lw])
    have pend: "pending (m @ xs) = drop ?e xs"
    proof -
      have "(length xs - ?i) mod 64 = (?j + length xs) mod 64"
        using True le_mod_geq[of 64 "?j + length xs"] by (simp add: add.commute)
      moreover have "(length xs - ?i) mod 64 \<le> length xs" by (meson diff_le_self le_trans mod_less_eq_dividend)
      ultimately have "64 * ((?j + length xs) div 64) = ?j + ?e"
        using minus_mod_eq_mult_div[of "?j + length xs" 64, symmetric]
        by (metis Nat.add_diff_assoc mult.commute)
      then have "pending (pending m @ xs) = drop (length (pending m) + ?e) (pending m @ xs)"
        unfolding pending_def[of "pending m @ xs"] length_append pending_length by (rule arg_cong)
      also have "\<dots> = drop ?e xs" by (rule drop_past)
      finally show ?thesis using pending_append by simp
    qed
    have "length (drop ?e xs) \<le> 64" by simp
    then obtain b2 where b2: "blk_write b 0 (drop ?e xs) = Some b2"
      using blk_write_total[of 0 "drop ?e xs" b] blk_write_size[OF b] sz by auto
    let ?c = "c\<lparr>sha_count := of_nat (8 * length (m @ xs)),
        sha_state := vlist (sha1_run ?h (drop ?i xs)), sha_buffer := b2\<rparr>"
    have "\<not> 2 ^ 32 - 64 < length xs" using len by simp
    then have "SHA1Update c xs = Some ?c"
      unfolding SHA1Update_def Let_def j cnt st
      by (simp only: if_False True if_True b option.simps Option.bind.simps upd st r bl b2 prod.case)
    moreover have "ctx_of (m @ xs) ?c"
      using blk_write_has[OF b2] blk_write_size[OF b] blk_write_size[OF b2] sz
      by (simp add: ctx_of_def run pend)
    ultimately show ?thesis by blast
  qed
qed

lemma init_ctx: "blk_size (sha_buffer c) = 64 \<Longrightarrow> ctx_of [] (SHA1Init c)"
  by (simp add: ctx_of_def SHA1Init_def pending_def sha1_init_def sha1_run.simps)

lemma count_bytes_of: "ctx_of m c \<Longrightarrow> unat (sha_count c) div 8 mod 64 = length m mod 64"
proof -
  assume "ctx_of m c"
  then have "unat (sha_count c) = 8 * (length m mod 2305843009213693952)"
    by (simp only: ctx_of_def unat_of_nat) (simp add: mult_mod_right)
  then show ?thesis by (simp add: mod_mod_cancel)
qed

lemma pad_loop_ctx:
  "ctx_of m c \<Longrightarrow> n = pad_need (length m mod 64) \<Longrightarrow>
   \<exists>c'. sha_pad_loop c = Some c' \<and> ctx_of (m @ replicate n 0) c'"
proof (induction n arbitrary: m c)
  case 0
  have "length m mod 64 = 56"
    using 0(2) pad_need_zero[of "length m mod 64"] by simp
  then have "sha_count c AND 504 = 448" using count_bytes_of[OF 0(1)] pad_done by simp
  then show ?case using 0 by (simp add: sha_pad_loop.simps[of c])
next
  case (Suc n)
  have k: "length m mod 64 \<noteq> 56" using Suc(3) pad_need_zero[of "length m mod 64"] by auto
  then have ne: "sha_count c AND 504 \<noteq> 448" using count_bytes_of[OF Suc(2)] pad_done by simp
  obtain c1 where c1: "SHA1Update c [0] = Some c1" "ctx_of (m @ [0]) c1"
    using update_ctx[OF Suc(2), of "[0]"] by auto
  have "n = pad_need (length (m @ [0]) mod 64)"
    using Suc(3) pad_need_step[OF _ k] by (simp add: mod_Suc_eq)
  from Suc(1)[OF c1(2) this] obtain c' where "sha_pad_loop c1 = Some c'"
    "ctx_of ((m @ [0]) @ replicate n 0) c'" by blast
  then show ?case using ne c1(1) by (simp add: sha_pad_loop.simps[of c])
qed

lemma pad_need_int: "nat ((55 - int n) mod 64) = pad_need (Suc n mod 64)"
proof -
  let ?k = "Suc n mod 64"
  have "int n = int (Suc n) - 1" by simp
  then have "(55 - int n) mod 64 = (56 - int (Suc n)) mod 64" by simp
  also have "\<dots> = (56 - int ?k) mod 64" by (simp add: zmod_int mod_diff_right_eq)
  also have "\<dots> = int (pad_need ?k)"
  proof (cases "?k \<le> 56")
    case True
    then show ?thesis by (simp add: pad_need_def)
  next
    case False
    have "(56 - int ?k) mod 64 = (56 - int ?k + 64) mod 64" by (simp only: mod_add_self2)
    also have "\<dots> = 120 - int ?k" using False by (subst mod_pos_pos_trivial) auto
    finally show ?thesis using False by (simp add: pad_need_def)
  qed
  finally show ?thesis by simp
qed

lemma finalcount_eq:
  "map (\<lambda>i. ucast (drop_bit ((7 - i mod 8) * 8) v)) [0..<8] = be_bytes64 v"
  by (simp add: upt_rec be_bytes64_def le_bytes_8)

lemma digest_eq:
  "map (\<lambda>i. ucast (drop_bit ((3 - i mod 4) * 8) ([a, b, c, d, e] ! (i div 4)))) [0..<20] =
   concat (map (\<lambda>w. rev (le_bytes 4 w)) [a, b, c, d, e])"
  by (simp add: upt_rec le_bytes_4)

lemma final_ctx:
  assumes c: "ctx_of m c"
  shows "\<exists>c'. SHA1Final c = Some (sha1 m, c')"
proof -
  let ?n = "nat ((55 - int (length m)) mod 64)"
  obtain c1 where c1: "SHA1Update c [0x80] = Some c1" "ctx_of (m @ [0x80]) c1"
    using update_ctx[OF c, of "[0x80]"] by auto
  have "?n = pad_need (length (m @ [0x80]) mod 64)" using pad_need_int by simp
  from pad_loop_ctx[OF c1(2) this] obtain c2 where c2: "sha_pad_loop c1 = Some c2"
    "ctx_of ((m @ [0x80]) @ replicate ?n 0) c2" by blast
  obtain c3 where c3: "SHA1Update c2 (be_bytes64 (sha_count c)) = Some c3"
    "ctx_of (((m @ [0x80]) @ replicate ?n 0) @ be_bytes64 (sha_count c)) c3"
    using update_ctx[OF c2(2), of "be_bytes64 (sha_count c)"] by (auto simp: be_bytes64_def)
  have "((m @ [0x80]) @ replicate ?n 0) @ be_bytes64 (sha_count c) = sha1_pad m"
    using c by (simp add: sha1_pad_def ctx_of_def)
  then have st: "sha_state c3 = vlist (sha1_run sha1_init (sha1_pad m))" using c3(2) by (simp add: ctx_of_def)
  have "SHA1Pad c = Some c3" using c1(1) c2(1) c3(1) by (simp add: SHA1Pad_def finalcount_eq)
  then show ?thesis
    by (cases "sha1_run sha1_init (sha1_pad m)")
      (simp add: SHA1Final_def sha1_def st digest_eq)
qed

text \<open>Hashing the pieces \<open>xss\<close> one after the other with a context.\<close>

fun SHA1Updates :: "SHA1_CTX \<Rightarrow> byte list list \<Rightarrow> SHA1_CTX option" where
  "SHA1Updates c [] = Some c"
| "SHA1Updates c (xs # xss) = do { c \<leftarrow> SHA1Update c xs; SHA1Updates c xss }"

lemma updates_ctx:
  "ctx_of m c \<Longrightarrow> \<forall>xs \<in> set xss. length xs \<le> 2 ^ 32 - 64 \<Longrightarrow>
   \<exists>c'. SHA1Updates c xss = Some c' \<and> ctx_of (m @ concat xss) c'"
proof (induction xss arbitrary: m c)
  case (Cons xs xss)
  then obtain c1 where "SHA1Update c xs = Some c1" "ctx_of (m @ xs) c1" using update_ctx by fastforce
  then show ?case using Cons.IH[of "m @ xs" c1] Cons.prems by auto
qed auto

text \<open>A context on the stack: the state and the buffer are indeterminate before \<open>SHA1Init\<close>.\<close>

definition ctx_new :: SHA1_CTX where
  "ctx_new = \<lparr>sha_state = [], sha_count = 0, sha_buffer = blk_alloc 64\<rparr>"

definition sha1_of :: "byte list list \<Rightarrow> byte list option" where
  "sha1_of xss = do { c \<leftarrow> SHA1Updates (SHA1Init ctx_new) xss; (d, _) \<leftarrow> SHA1Final c; Some d }"

lemma sha1_of_eq: "\<forall>xs \<in> set xss. length xs \<le> 2 ^ 32 - 64 \<Longrightarrow> sha1_of xss = Some (sha1 (concat xss))"
proof -
  assume l: "\<forall>xs \<in> set xss. length xs \<le> 2 ^ 32 - 64"
  have "ctx_of [] (SHA1Init ctx_new)" by (rule init_ctx) (simp add: ctx_new_def)
  from updates_ctx[OF this l] obtain c' where "SHA1Updates (SHA1Init ctx_new) xss = Some c'"
    "ctx_of (concat xss) c'" by auto
  with final_ctx show ?thesis by (fastforce simp: sha1_of_def)
qed

lemma sha1_length: "length (sha1 m) = 20"
  by (cases "sha1_run sha1_init (sha1_pad m)") (simp add: sha1_def)

section \<open>Properties\<close>

text \<open>
  C26. The block transform, with its in-place circular message schedule and its rotating
  variables, is the compression function of the standard.
\<close>

theorem sha1_transform_standard:
  assumes "length m = 64"
  shows "SHA1Transform [a, b, c, d, e] m =
    (case sha1_block (a, b, c, d, e) m of (a', b', c', d', e') \<Rightarrow> [a', b', c', d', e'])"
  using transform_block[OF assms, of "(a, b, c, d, e)"]
  by (cases "sha1_block (a, b, c, d, e) m") simp

theorem sha1_transform_standard_witness:
  "SHA1Transform [1, 2, 3, 4, 5] (replicate 64 7) =
    (case sha1_block (1, 2, 3, 4, 5) (replicate 64 7) of (a', b', c', d', e') \<Rightarrow> [a', b', c', d', e'])"
  by (rule sha1_transform_standard) simp

text \<open>
  C25. \<open>SHA1Init\<close>, any number of \<open>SHA1Update\<close> calls and \<open>SHA1Final\<close> return, with every access
  inside the 64-byte buffer, the SHA-1 of the concatenation of the pieces; in particular the
  padding loop ends.
\<close>

theorem sha1_streaming:
  assumes "\<forall>xs \<in> set xss. length xs \<le> 2 ^ 32 - 64"
  shows "\<exists>c d c'. SHA1Updates (SHA1Init ctx_new) xss = Some c \<and> SHA1Final c = Some (d, c') \<and>
     d = sha1 (concat xss) \<and> length d = 20"
proof -
  have "ctx_of [] (SHA1Init ctx_new)" by (rule init_ctx) (simp add: ctx_new_def)
  from updates_ctx[OF this assms] obtain c where "SHA1Updates (SHA1Init ctx_new) xss = Some c"
    "ctx_of (concat xss) c" by auto
  with final_ctx show ?thesis using sha1_length by fastforce
qed

theorem sha1_streaming_witness:
  "\<exists>c d c'. SHA1Updates (SHA1Init ctx_new) [str ''a'', str ''bc''] = Some c \<and>
     SHA1Final c = Some (d, c') \<and> d = sha1 (str ''abc'') \<and> length d = 20"
  using sha1_streaming[of "[str ''a'', str ''bc'']"] by (simp add: str_def)

end
