(* ===== verification/Handshake.thy ===== *)
theory Handshake
  imports Response Send Sha1
begin

text \<open>
  The connection phase, from \<open>src/connect.cc\<close>: the handshake packet of the server, the response
  with the scrambled password, and the check a server makes of it.
\<close>

section \<open>The scrambled password\<close>

fun xor_bytes :: "block \<Rightarrow> nat \<Rightarrow> byte list \<Rightarrow> block option" where
  "xor_bytes b p [] = Some b"
| "xor_bytes b p (x # xs) =
     do { y \<leftarrow> blk_get b p; b \<leftarrow> blk_put b p (y XOR x); xor_bytes b (Suc p) xs }"

text \<open>The block and the offset stand for the pointer to store the result at.\<close>

definition scramble_password ::
  "'a con_core_scheme \<Rightarrow> block \<Rightarrow> nat \<Rightarrow> (attachsql_ret_t \<times> block) option" where
  "scramble_password con w p =
     do { c0 \<leftarrow> blk_get (scramble_buffer con) 0;
          if c0 = 0 then Some (ATTACHSQL_RET_NO_SCRAMBLE, w)
          else do {
            pass \<leftarrow> con_pass con;
            ctx \<leftarrow> SHA1Update (SHA1Init ctx_new) pass;
            (stage1, ctx) \<leftarrow> SHA1Final ctx;
            ctx \<leftarrow> SHA1Update (SHA1Init ctx) stage1;
            (stage2, ctx) \<leftarrow> SHA1Final ctx;
            scramble \<leftarrow> blk_read (scramble_buffer con) 0 20;
            ctx \<leftarrow> SHA1Update (SHA1Init ctx) scramble;
            ctx \<leftarrow> SHA1Update ctx stage2;
            (digest, _) \<leftarrow> SHA1Final ctx;
            w \<leftarrow> blk_write w p digest;
            w \<leftarrow> xor_bytes w p stage1;
            Some (ATTACHSQL_RET_OK, w) } }"

section \<open>The response\<close>

text \<open>The part before the user name.\<close>

definition response_head :: "'a con_core_scheme \<Rightarrow> block option" where
  "response_head con =
     do { let capabilities = server_capabilities con AND ATTACHSQL_CAPABILITY_CLIENT;
          let capabilities = capabilities OR ATTACHSQL_CAPABILITY_MULTI_RESULTS;
          let capabilities = capabilities OR client_capabilities con;
          w \<leftarrow> attachsql_pack_int4 (write_buffer con) 0 capabilities;
          w \<leftarrow> attachsql_pack_int4 w 4 (of_nat ATTACHSQL_DEFAULT_BUFFER_SIZE :: uint32);
          w \<leftarrow> blk_put w 8 0;
          blk_write w 9 (replicate 23 0) }"

text \<open>
  The part behind it: user, password, schema. The result is what is to be sent, or nothing
  without a scramble of the server.
\<close>

definition response_rest :: "block \<Rightarrow> 'a con_core_scheme \<Rightarrow> (byte list option \<times> block) option" where
  "response_rest w con =
     do { user \<leftarrow> con_user con;
          w \<leftarrow> blk_write w 32 user;
          let p = 32 + length user;
          w \<leftarrow> blk_put w p 0;
          let p = p + 1;
          pass \<leftarrow> con_pass con;
          (ret, w, p) \<leftarrow>
            (if pass \<noteq> [] then
               do { w \<leftarrow> blk_put w p 20;
                    (ret, w) \<leftarrow> scramble_password con w (p + 1);
                    Some (ret, w, p + 21) }
             else do { w \<leftarrow> blk_put w p 0; Some (ATTACHSQL_RET_OK, w, p + 1) });
          if ret \<noteq> ATTACHSQL_RET_OK then Some (None, w)
          else do {
            (w, p) \<leftarrow> (case con_schema con of
               Some schema \<Rightarrow> do { w \<leftarrow> blk_write w p schema; Some (w, p + length schema) }
             | None \<Rightarrow> Some (w, p));
            w \<leftarrow> blk_put w p 0;
            data \<leftarrow> blk_read w 0 (p + 1);
            Some (Some data, w) } }"

definition attachsql_handshake_response :: "'a con_core_scheme \<Rightarrow> 'a con_core_scheme option" where
  "attachsql_handshake_response con =
     do { w \<leftarrow> response_head con;
          (data, w) \<leftarrow> response_rest w con;
          case data of
            None \<Rightarrow> Some (con\<lparr>write_buffer := w, local_errcode := ATTACHSQL_RET_BAD_SCRAMBLE\<rparr>)
          | Some data \<Rightarrow>
              do { con \<leftarrow> attachsql_send_data data (con\<lparr>write_buffer := w\<rparr>);
                   queue_push ATTACHSQL_PACKET_TYPE_RESPONSE con } }"

section \<open>The handshake packet\<close>

text \<open>
  The error packet of a server that rejects the connection is read as a response, and then its
  successor in the buffer as a handshake. Messages are cut to \<open>ATTACHSQL_ERROR_BUFFER_SIZE\<close>.
\<close>

definition read_greeting :: "'a con_core_scheme \<Rightarrow> (bool \<times> 'a con_core_scheme) option" where
  "read_greeting con =
     do { b \<leftarrow> read_buffer con;
          c \<leftarrow> get_byte b;
          con \<leftarrow> (if c = 0xff then attachsql_packet_read_response con else Some con);
          b \<leftarrow> read_buffer con;
          protocol \<leftarrow> get_byte b;
          if protocol \<noteq> 10 then
            Some (False, con\<lparr>local_errcode := ATTACHSQL_RET_BAD_PROTOCOL,
                      errmsg := text_array ATTACHSQL_ERROR_BUFFER_SIZE (str ''Incompatible protocol version'')\<rparr>)
          else do {
            let b = skip 1 b;
            version \<leftarrow> blk_cstr (buffer b) (buffer_read_ptr b) ATTACHSQL_MAX_SERVER_VERSION_LEN;
            let version = text_array ATTACHSQL_MAX_SERVER_VERSION_LEN version;
            let b = skip (length version + 1) b;
            tid \<leftarrow> get_int4 b;
            let b = skip 4 b;
            scramble1 \<leftarrow> get_bytes 8 b;
            sb \<leftarrow> blk_write (scramble_buffer con) 0 scramble1;
            let b = skip 9 b;
            caps \<leftarrow> get_int2 b;
            let b = skip 2 b;
            let con = con\<lparr>server_version := version, thread_id := tid, server_capabilities := ucast caps\<rparr>;
            let con = (if server_capabilities con AND ATTACHSQL_CAPABILITY_PROTOCOL_41 = 0
                       then con\<lparr>local_errcode := ATTACHSQL_RET_NO_OLD_AUTH,
                                errmsg := text_array ATTACHSQL_ERROR_BUFFER_SIZE
                                            (str ''MySQL 4.1 protocol and higher required'')\<rparr>
                       else con);
            cs \<leftarrow> get_byte b;
            let b = skip 1 b;
            sstatus \<leftarrow> get_int2 b;
            let b = skip 15 b;
            scramble2 \<leftarrow> get_bytes 12 b;
            sb \<leftarrow> blk_write sb 8 scramble2;
            let b = skip 13 b;
            con \<leftarrow> attachsql_packet_read_end
              (con\<lparr>con_charset := cs, server_status := sstatus, scramble_buffer := sb,
                  read_buffer := Some b\<rparr>);
            Some (True, con) } }"

definition attachsql_packet_read_handshake :: "'a con_core_scheme \<Rightarrow> 'a con_core_scheme option" where
  "attachsql_packet_read_handshake con =
     do { (answer, con) \<leftarrow> read_greeting con;
          if answer then attachsql_handshake_response con else Some con }"

lemma packet_read_handshake_unfold:
  "attachsql_packet_read_handshake con =
     do { b \<leftarrow> read_buffer con;
          c \<leftarrow> get_byte b;
          con \<leftarrow> (if c = 0xff then attachsql_packet_read_response con else Some con);
          b \<leftarrow> read_buffer con;
          protocol \<leftarrow> get_byte b;
          if protocol \<noteq> 10 then
            Some (con\<lparr>local_errcode := ATTACHSQL_RET_BAD_PROTOCOL,
                      errmsg := text_array ATTACHSQL_ERROR_BUFFER_SIZE (str ''Incompatible protocol version'')\<rparr>)
          else do {
            let b = skip 1 b;
            version \<leftarrow> blk_cstr (buffer b) (buffer_read_ptr b) ATTACHSQL_MAX_SERVER_VERSION_LEN;
            let version = text_array ATTACHSQL_MAX_SERVER_VERSION_LEN version;
            let b = skip (length version + 1) b;
            tid \<leftarrow> get_int4 b;
            let b = skip 4 b;
            scramble1 \<leftarrow> get_bytes 8 b;
            sb \<leftarrow> blk_write (scramble_buffer con) 0 scramble1;
            let b = skip 9 b;
            caps \<leftarrow> get_int2 b;
            let b = skip 2 b;
            let con = con\<lparr>server_version := version, thread_id := tid, server_capabilities := ucast caps\<rparr>;
            let con = (if server_capabilities con AND ATTACHSQL_CAPABILITY_PROTOCOL_41 = 0
                       then con\<lparr>local_errcode := ATTACHSQL_RET_NO_OLD_AUTH,
                                errmsg := text_array ATTACHSQL_ERROR_BUFFER_SIZE
                                            (str ''MySQL 4.1 protocol and higher required'')\<rparr>
                       else con);
            cs \<leftarrow> get_byte b;
            let b = skip 1 b;
            sstatus \<leftarrow> get_int2 b;
            let b = skip 15 b;
            scramble2 \<leftarrow> get_bytes 12 b;
            sb \<leftarrow> blk_write sb 8 scramble2;
            let b = skip 13 b;
            con \<leftarrow> attachsql_packet_read_end
              (con\<lparr>con_charset := cs, server_status := sstatus, scramble_buffer := sb,
                  read_buffer := Some b\<rparr>);
            attachsql_handshake_response con } }"
  by (simp add: attachsql_packet_read_handshake_def read_greeting_def Let_def bind_assoc if_distrib[of "\<lambda>x. Option.bind x _"] cong: if_cong)

section \<open>The check of the server\<close>

text \<open>
  A server keeps the double hash of the password. It hashes the scramble it sent with it, removes
  the result from the token, and the hash of what is left is the double hash again.
\<close>

definition server_accepts :: "byte list \<Rightarrow> byte list \<Rightarrow> byte list \<Rightarrow> bool" where
  "server_accepts stored scramble token \<longleftrightarrow> length token = 20 \<and>
     sha1 (map2 (\<lambda>x y. x XOR y) token (sha1 (scramble @ stored))) = stored"

definition password_token :: "byte list \<Rightarrow> byte list \<Rightarrow> byte list" where
  "password_token pass scramble =
     map2 (\<lambda>x y. x XOR y) (sha1 (scramble @ sha1 (sha1 pass))) (sha1 pass)"

lemma map2_xor_cancel:
  "length xs = length ys \<Longrightarrow> map2 (\<lambda>x y. x XOR y) (map2 (\<lambda>x y. x XOR y) xs ys) xs = (ys :: byte list)"
proof (induction xs ys rule: list_induct2)
  case (Cons x xs y ys)
  have "(x XOR y) XOR x = y" by (simp add: xor.commute xor.left_commute)
  then show ?case using Cons by simp
qed simp

lemma token_accepted: "server_accepts (sha1 (sha1 pass)) scramble (password_token pass scramble)"
  by (simp add: server_accepts_def password_token_def map2_xor_cancel sha1_length)

lemma final_ctx_size: "SHA1Final c = Some (d, c') \<Longrightarrow> blk_size (sha_buffer c') = 64"
  by (auto simp: SHA1Final_def split: bind_splits)

text \<open>One hash with a context that has been used before.\<close>

lemma hash_again:
  assumes "blk_size (sha_buffer c) = 64" "length m \<le> 2 ^ 32 - 64"
  shows "\<exists>c1 c2. SHA1Update (SHA1Init c) m = Some c1 \<and> SHA1Final c1 = Some (sha1 m, c2) \<and> blk_size (sha_buffer c2) = 64"
proof -
  obtain c1 where c1: "SHA1Update (SHA1Init c) m = Some c1" "ctx_of ([] @ m) c1"
    using update_ctx[OF init_ctx[OF assms(1)] assms(2)] by blast
  obtain c2 where c2: "SHA1Final c1 = Some (sha1 m, c2)" using final_ctx[OF c1(2)] by auto
  show ?thesis using c1(1) c2 final_ctx_size[OF c2] by blast
qed

lemma xor_bytes_writes:
  "length xs = length ys \<Longrightarrow> blk_has b p ys \<Longrightarrow>
   \<exists>b'. xor_bytes b p xs = Some b' \<and> writes_at b p (map2 (\<lambda>x y. x XOR y) ys xs) b'"
proof (induction xs ys arbitrary: b p rule: list_induct2)
  case (Cons x xs y ys)
  have y: "blk_get b p = Some y" "blk_has b (Suc p) ys" using Cons.prems by simp_all
  then have "p < blk_size b" by (simp add: blk_get_def split: if_splits)
  then obtain b1 where b1: "blk_put b p (y XOR x) = Some b1" using blk_put_total by blast
  note w = blk_put_writes_at[OF b1]
  have "blk_has b1 (Suc p) ys" using writes_at_frame[OF w, of "Suc p" ys] y(2) by simp
  then obtain b2 where b2: "xor_bytes b1 (Suc p) xs = Some b2"
    "writes_at b1 (Suc p) (map2 (\<lambda>x y. x XOR y) ys xs) b2" using Cons.IH by blast
  have "writes_at b p ([y XOR x] @ map2 (\<lambda>x y. x XOR y) ys xs) b2"
    using writes_at_append[OF w] b2(2) by simp
  then show ?case using y(1) b1 b2(1) by simp
qed simp

lemma scramble_password_ok:
  assumes sc: "blk_read (scramble_buffer con) 0 20 = Some scramble" "scramble ! 0 \<noteq> 0"
    and pass: "con_pass con = Some pass" "length pass \<le> 2 ^ 32 - 64"
    and room: "p + 20 \<le> blk_size w"
  shows "\<exists>w'. scramble_password con w p = Some (ATTACHSQL_RET_OK, w') \<and>
     writes_at w p (password_token pass scramble) w'"
proof -
  have len: "length scramble = 20" "blk_has (scramble_buffer con) 0 scramble"
    using blk_read_Some[OF sc(1)] by simp_all
  have c0: "blk_get (scramble_buffer con) 0 = Some (scramble ! 0)"
    using blk_has_get[OF len(2), of 0] len(1) by simp
  have small: "length (sha1 m) \<le> 2 ^ 32 - 64" for m by (simp add: sha1_length)
  have "blk_size (sha_buffer ctx_new) = 64" by (simp add: ctx_new_def)
  then obtain a1 a2 where a: "SHA1Update (SHA1Init ctx_new) pass = Some a1" "SHA1Final a1 = Some (sha1 pass, a2)"
    "blk_size (sha_buffer a2) = 64" using hash_again pass(2) by blast
  obtain b1 b2 where b: "SHA1Update (SHA1Init a2) (sha1 pass) = Some b1" "SHA1Final b1 = Some (sha1 (sha1 pass), b2)"
    "blk_size (sha_buffer b2) = 64" using hash_again[OF a(3) small] by blast
  obtain c1 where c1: "SHA1Update (SHA1Init b2) scramble = Some c1" "ctx_of ([] @ scramble) c1"
    using update_ctx[OF init_ctx[OF b(3)], of scramble] len(1) by auto
  obtain c2 where c2: "SHA1Update c1 (sha1 (sha1 pass)) = Some c2" "ctx_of (scramble @ sha1 (sha1 pass)) c2"
    using update_ctx[OF c1(2) small[of "sha1 pass"]] by auto
  let ?d = "sha1 (scramble @ sha1 (sha1 pass))"
  obtain c3 where c3: "SHA1Final c2 = Some (?d, c3)" using final_ctx[OF c2(2)] by blast
  obtain w1 where w1: "blk_write w p ?d = Some w1" using blk_write_total[of p ?d w] room by (auto simp: sha1_length)
  note wr1 = blk_write_writes_at[OF w1]
  obtain w2 where w2: "xor_bytes w1 p (sha1 pass) = Some w2" "writes_at w1 p (password_token pass scramble) w2"
    using xor_bytes_writes[of "sha1 pass" ?d w1 p] writes_at_has[OF wr1] by (auto simp: sha1_length password_token_def)
  have "writes_at w p (password_token pass scramble) w2"
    using writes_at_overwrite[OF wr1 w2(2)] by (simp add: password_token_def sha1_length)
  then show ?thesis using sc(2) c0 pass(1) a(1,2) b(1,2) sc(1) c1(1) c2(1) c3 w1 w2(1)
    by (simp add: scramble_password_def)
qed

section \<open>The response on the wire\<close>

definition capabilities_sent :: "'a con_core_scheme \<Rightarrow> uint32" where
  "capabilities_sent con = (server_capabilities con AND ATTACHSQL_CAPABILITY_CLIENT) OR
     ATTACHSQL_CAPABILITY_MULTI_RESULTS OR client_capabilities con"

definition response_payload :: "uint32 \<Rightarrow> byte list \<Rightarrow> byte list \<Rightarrow> byte list \<Rightarrow> byte list" where
  "response_payload caps user auth schema =
     le_bytes 4 caps @ le_bytes 4 (0x100000 :: uint32) @ [0] @ replicate 23 0 @ user @ [0] @ auth @ schema @ [0]"

definition schema_bytes :: "'a con_core_scheme \<Rightarrow> byte list" where
  "schema_bytes con = (case con_schema con of Some s \<Rightarrow> s | None \<Rightarrow> [])"

text \<open>Outside a compressed connection data goes out as one packet.\<close>

lemma send_data_ok:
  assumes "calm con" "blk_size (packet_header con) = 4"
    and "client_capabilities con AND ATTACHSQL_CAPABILITY_COMPRESS = 0 \<or> con_status con = ATTACHSQL_CON_STATUS_CONNECTING"
  shows "\<exists>h. attachsql_send_data data con = Some (con\<lparr>packet_number := packet_number con + 1, packet_header := h,
     command_status := ATTACHSQL_COMMAND_STATUS_READ_RESPONSE,
     sent := sent con @ [packet (packet_number con + 1) data]\<rparr>) \<and> blk_size h = 4"
proof -
  obtain h1 h2 where h: "attachsql_pack_int3 (packet_header con) 0 (of_nat (length data) :: uint64) = Some h1"
    "blk_put h1 3 (packet_number con + 1) = Some h2" "blk_size h2 = 4"
    "blk_read h2 0 4 = Some (le_bytes 3 (of_nat (length data) :: uint64) @ [packet_number con + 1])"
    using header_write[OF assms(2)] by blast
  have "calm (con\<lparr>packet_number := packet_number con + 1, packet_header := h2\<rparr>)" using assms(1) by (simp add: calm_def)
  then show ?thesis using h assms(3)
    by (auto simp: attachsql_send_data_def write_packet_calm packet_def)
qed

text \<open>Writing several pieces one behind the other.\<close>

lemma response_head_ok:
  assumes "blk_size (write_buffer con) = ATTACHSQL_WRITE_BUFFER_SIZE"
  shows "\<exists>w. response_head con = Some w \<and>
     writes_at (write_buffer con) 0 (le_bytes 4 (capabilities_sent con) @ le_bytes 4 (0x100000 :: uint32) @ [0] @ replicate 23 0) w"
proof -
  let ?w0 = "write_buffer con" and ?c = "capabilities_sent con"
  obtain w1 where w1: "blk_write ?w0 0 (le_bytes 4 ?c) = Some w1"
    using blk_write_total[of 0 "le_bytes 4 ?c" ?w0] assms by auto
  note s1 = blk_write_size[OF w1]
  obtain w2 where w2: "blk_write w1 4 (le_bytes 4 (0x100000 :: uint32)) = Some w2"
    using blk_write_total[of 4 "le_bytes 4 (0x100000 :: uint32)" w1] assms s1 by auto
  note s2 = blk_write_size[OF w2]
  obtain w3 where w3: "blk_put w2 8 0 = Some w3" "blk_size w3 = blk_size w2"
    using blk_put_total[of 8 w2 0] assms s1 s2 by auto
  obtain w4 where w4: "blk_write w3 9 (replicate 23 0) = Some w4"
    using blk_write_total[of 9 "replicate 23 0" w3] assms s1 s2 w3(2) by auto
  have "writes_at ?w0 0 (le_bytes 4 ?c @ le_bytes 4 (0x100000 :: uint32)) w2"
    using writes_at_append[OF blk_write_writes_at[OF w1]] blk_write_writes_at[OF w2] by simp
  from writes_at_append[OF this, of "[0]" w3] blk_put_writes_at[OF w3(1)]
  have a3: "writes_at ?w0 0 ((le_bytes 4 ?c @ le_bytes 4 (0x100000 :: uint32)) @ [0]) w3" by simp
  have a4: "writes_at ?w0 0 (((le_bytes 4 ?c @ le_bytes 4 (0x100000 :: uint32)) @ [0]) @ replicate 23 0) w4"
    using writes_at_append[OF a3, of "replicate 23 0" w4] blk_write_writes_at[OF w4] by simp
  have c: "(server_capabilities con AND ATTACHSQL_CAPABILITY_CLIENT OR ATTACHSQL_CAPABILITY_MULTI_RESULTS) OR
      client_capabilities con = ?c" by (simp add: capabilities_sent_def or.assoc)
  show ?thesis using w1 w2 w3(1) w4 a4 c by (simp add: response_head_def pack_int4_eq)
qed

text \<open>What has been written at the front grows by the next write.\<close>

lemma write_next:
  assumes "writes_at b0 0 xs b" "length xs = p" "p + length ys \<le> blk_size b0"
  shows "\<exists>b'. blk_write b p ys = Some b' \<and> writes_at b0 0 (xs @ ys) b'"
proof -
  obtain b' where "blk_write b p ys = Some b'"
    using blk_write_total[of p ys b] assms(3) writes_at_size[OF assms(1)] by auto
  then show ?thesis using writes_at_append[OF assms(1), of ys b'] blk_write_writes_at assms(2) by auto
qed

lemma put_next:
  assumes "writes_at b0 0 xs b" "length xs = p" "p < blk_size b0"
  shows "\<exists>b'. blk_put b p y = Some b' \<and> writes_at b0 0 (xs @ [y]) b'"
proof -
  obtain b' where "blk_put b p y = Some b'"
    using blk_put_total[of p b y] assms(3) writes_at_size[OF assms(1)] by auto
  then show ?thesis using writes_at_append[OF assms(1), of "[y]" b'] blk_put_writes_at assms(2) by auto
qed

text \<open>What the connection looks like after the response.\<close>

definition login_frame :: "'a con_core_scheme \<Rightarrow> 'a con_core_scheme \<Rightarrow> bool" where
  "login_frame con con' \<longleftrightarrow> calm con' \<and> blk_size (packet_header con') = 4 \<and>
     blk_size (write_buffer con') = blk_size (write_buffer con) \<and> write_buffer_extra con' = write_buffer_extra con \<and>
     compressed_packet_header con' = compressed_packet_header con \<and>
     uncompressed_buffer con' = uncompressed_buffer con \<and> uncompressed_buffer_len con' = uncompressed_buffer_len con \<and>
     compressed_buffer con' = compressed_buffer con \<and> compressed_buffer_len con' = compressed_buffer_len con \<and>
     client_capabilities con' = client_capabilities con \<and> opt_compression con' = opt_compression con \<and>
     stream_closed con' = stream_closed con \<and> server_errno con' = server_errno con"

definition responded :: "byte list \<Rightarrow> 'a con_core_scheme \<Rightarrow> 'a con_core_scheme \<Rightarrow> bool" where
  "responded payload con con' \<longleftrightarrow>
     sent con' = sent con @ [packet (packet_number con + 1) payload] \<and> packet_number con' = packet_number con + 1 \<and>
     expected con' = ATTACHSQL_PACKET_TYPE_RESPONSE # expected con \<and> queue_ok con' \<and>
     command_status con' = ATTACHSQL_COMMAND_STATUS_READ_RESPONSE \<and> con_status con' = con_status con \<and>
     read_buffer con' = read_buffer con \<and> server_version con' = server_version con \<and> thread_id con' = thread_id con \<and>
     login_frame con con' \<and> con_core.more con' = con_core.more con"

text \<open>What a connection attempt needs: the limits are those of \<open>attachsql_connect_create\<close>.\<close>

definition auth_of :: "byte list \<Rightarrow> byte list \<Rightarrow> byte list" where
  "auth_of pass scramble = (if pass = [] then [0] else 20 # password_token pass scramble)"

definition connecting :: "byte list \<Rightarrow> byte list \<Rightarrow> 'a con_core_scheme \<Rightarrow> bool" where
  "connecting user pass con \<longleftrightarrow> calm con \<and> blk_size (packet_header con) = 4 \<and>
     blk_size (write_buffer con) = ATTACHSQL_WRITE_BUFFER_SIZE \<and> blk_size (scramble_buffer con) = 20 \<and>
     con_status con = ATTACHSQL_CON_STATUS_CONNECTING \<and> queue_ok con \<and> queue_room con \<and>
     con_user con = Some user \<and> length user \<le> 16 \<and> con_pass con = Some pass \<and> length pass \<le> 2 ^ 32 - 64 \<and>
     length (schema_bytes con) \<le> 64"

lemma password_token_length: "length (password_token pass scramble) = 20"
  by (simp add: password_token_def sha1_length)

text \<open>The login behind a head of 32 bytes.\<close>

lemma response_rest_ok:
  assumes c: "blk_size b0 = ATTACHSQL_WRITE_BUFFER_SIZE" "con_user con = Some user" "length user \<le> 16"
      "con_pass con = Some pass" "length pass \<le> 2 ^ 32 - 64" "length (schema_bytes con) \<le> 64"
    and w0: "writes_at b0 0 head w0" "length head = 32"
    and sc: "blk_read (scramble_buffer con) 0 20 = Some scramble" "pass \<noteq> [] \<Longrightarrow> scramble ! 0 \<noteq> 0"
  shows "\<exists>w. response_rest w0 con =
      Some (Some (head @ user @ [0] @ auth_of pass scramble @ schema_bytes con @ [0]), w) \<and> blk_size w = blk_size b0"
proof -
  let ?s = "schema_bytes con" and ?a = "auth_of pass scramble" and ?p = "32 + length user + 1"
  obtain w1 where w1: "blk_write w0 32 user = Some w1" "writes_at b0 0 (head @ user) w1"
    using write_next[OF w0, of user] c by auto
  obtain w2 where w2: "blk_put w1 (32 + length user) 0 = Some w2" "writes_at b0 0 ((head @ user) @ [0]) w2"
    using put_next[OF w1(2), of "32 + length user" 0] w0(2) c by auto
  obtain w3 where w3: "(if pass \<noteq> [] then
         do { w \<leftarrow> blk_put w2 ?p 20; (ret, w) \<leftarrow> scramble_password con w (?p + 1); Some (ret, w, ?p + 21) }
       else do { w \<leftarrow> blk_put w2 ?p 0; Some (ATTACHSQL_RET_OK, w, ?p + 1) }) = Some (ATTACHSQL_RET_OK, w3, ?p + length ?a)"
    and a3: "writes_at b0 0 (((head @ user) @ [0]) @ ?a) w3"
  proof (cases "pass = []")
    case True
    obtain w where "blk_put w2 ?p 0 = Some w" "writes_at b0 0 (((head @ user) @ [0]) @ [0]) w"
      using put_next[OF w2(2), of ?p 0] w0(2) c by auto
    then show ?thesis using that[of w] True by (simp add: auth_of_def)
  next
    case False
    obtain w where w: "blk_put w2 ?p 20 = Some w" "writes_at b0 0 (((head @ user) @ [0]) @ [20]) w"
      using put_next[OF w2(2), of ?p 20] w0(2) c by auto
    have "?p + 1 + 20 \<le> blk_size w" using writes_at_size[OF w(2)] c by simp
    from scramble_password_ok[OF sc(1) sc(2)[OF False] c(4,5) this]
    obtain w4 where w4: "scramble_password con w (?p + 1) = Some (ATTACHSQL_RET_OK, w4)"
      "writes_at w (?p + 1) (password_token pass scramble) w4" by blast
    have "writes_at b0 0 ((((head @ user) @ [0]) @ [20]) @ password_token pass scramble) w4"
      using writes_at_append[OF w(2), of "password_token pass scramble" w4] w4(2) w0(2) by simp
    then show ?thesis using that[of w4] False w(1) w4(1) by (simp add: auth_of_def password_token_length)
  qed
  have l: "length ?a \<le> 21" by (simp add: auth_of_def password_token_length)
  obtain w4 where w4: "(case con_schema con of
       Some schema \<Rightarrow> do { w \<leftarrow> blk_write w3 (?p + length ?a) schema; Some (w, ?p + length ?a + length schema) }
     | None \<Rightarrow> Some (w3, ?p + length ?a)) = Some (w4, ?p + length ?a + length ?s)"
    "writes_at b0 0 ((((head @ user) @ [0]) @ ?a) @ ?s) w4"
  proof (cases "con_schema con")
    case None
    then show ?thesis using that a3 by (simp add: schema_bytes_def)
  next
    case (Some schema)
    then obtain w where "blk_write w3 (?p + length ?a) schema = Some w"
      "writes_at b0 0 ((((head @ user) @ [0]) @ ?a) @ schema) w"
      using write_next[OF a3, of "?p + length ?a" schema] w0(2) c l by (auto simp: schema_bytes_def)
    then show ?thesis using that[of w] Some by (simp add: schema_bytes_def)
  qed
  let ?q = "?p + length ?a + length ?s"
  obtain w5 where w5: "blk_put w4 ?q 0 = Some w5" "writes_at b0 0 (((((head @ user) @ [0]) @ ?a) @ ?s) @ [0]) w5"
    using put_next[OF w4(2), of ?q 0] w0(2) c l by auto
  have r: "blk_read w5 0 (?q + 1) = Some (head @ user @ [0] @ ?a @ ?s @ [0])"
    using blk_read_has[OF writes_at_has[OF w5(2)]] w0(2) by simp
  show ?thesis
    unfolding response_rest_def c(2,4) w1(1) Option.bind.simps Let_def w2(1) w3 prod.case w4(1) w5(1) r
    using writes_at_size[OF w5(2)] by simp
qed

lemma handshake_response_ok:
  assumes c: "connecting user pass con"
    and sc: "blk_read (scramble_buffer con) 0 20 = Some scramble" "pass \<noteq> [] \<Longrightarrow> scramble ! 0 \<noteq> 0"
  shows "\<exists>con'. attachsql_handshake_response con = Some con' \<and>
     responded (response_payload (capabilities_sent con) user (auth_of pass scramble) (schema_bytes con)) con con'"
proof -
  let ?head = "le_bytes 4 (capabilities_sent con) @ le_bytes 4 (0x100000 :: uint32) @ [0] @ replicate 23 0"
  let ?pay = "response_payload (capabilities_sent con) user (auth_of pass scramble) (schema_bytes con)"
  have sz: "blk_size (write_buffer con) = ATTACHSQL_WRITE_BUFFER_SIZE" using c by (simp add: connecting_def)
  obtain w0 where w0: "response_head con = Some w0" "writes_at (write_buffer con) 0 ?head w0"
    using response_head_ok[OF sz] by blast
  obtain w where w: "response_rest w0 con = Some (Some ?pay, w)" "blk_size w = blk_size (write_buffer con)"
    using response_rest_ok[OF sz _ _ _ _ _ w0(2) _ sc] c by (auto simp: connecting_def response_payload_def)
  let ?c1 = "con\<lparr>write_buffer := w\<rparr>"
  have c1: "calm ?c1" "blk_size (packet_header ?c1) = 4" "client_capabilities ?c1 AND ATTACHSQL_CAPABILITY_COMPRESS = 0 \<or>
      con_status ?c1 = ATTACHSQL_CON_STATUS_CONNECTING" using c by (simp_all add: calm_def connecting_def)
  obtain h where h: "attachsql_send_data ?pay ?c1 = Some (?c1\<lparr>packet_number := packet_number con + 1, packet_header := h,
     command_status := ATTACHSQL_COMMAND_STATUS_READ_RESPONSE, sent := sent con @ [packet (packet_number con + 1) ?pay]\<rparr>)"
    "blk_size h = 4"
    using send_data_ok[OF c1] by auto
  let ?c2 = "?c1\<lparr>packet_number := packet_number con + 1, packet_header := h,
     command_status := ATTACHSQL_COMMAND_STATUS_READ_RESPONSE, sent := sent con @ [packet (packet_number con + 1) ?pay]\<rparr>"
  have f: "queue_fields ?c2 = queue_fields con" by (simp add: queue_fields_def)
  have q: "queue_ok con" "queue_room con" "calm con" using c by (simp_all add: connecting_def)
  then have "queue_room ?c2" by (simp add: queue_room_def alloc_def calm_def)
  then obtain c3 where c3: "queue_push ATTACHSQL_PACKET_TYPE_RESPONSE ?c2 = Some c3" "queue_ok c3"
    "expected c3 = ATTACHSQL_PACKET_TYPE_RESPONSE # expected con"
    using queue_push_ok[of ?c2] queue_frame(1,2)[OF f] q(1) by metis
  have "attachsql_handshake_response con = Some c3"
    unfolding attachsql_handshake_response_def w0(1) Option.bind.simps w(1) using h(1) c3(1) by simp
  moreover have "login_frame con c3"
    using queue_push_frame[OF c3(1)] queue_push_more[OF c3(1)] queue_push_allocs[OF c3(1)] q(3) w(2) h(2)
    by (simp add: login_frame_def calm_def)
  moreover have "responded ?pay con c3" if "login_frame con c3"
    unfolding responded_def using that c3(2,3) queue_push_frame[OF c3(1)] queue_push_more[OF c3(1)] by simp
  ultimately show ?thesis by blast
qed

section \<open>The handshake packet on the wire\<close>

definition handshake_body ::
  "uint32 \<Rightarrow> byte list \<Rightarrow> byte \<Rightarrow> uint16 \<Rightarrow> byte \<Rightarrow> uint16 \<Rightarrow> byte list \<Rightarrow> byte list \<Rightarrow> byte list \<Rightarrow> byte list" where
  "handshake_body tid part1 z caps cs sstatus filler part2 extra =
     le_bytes 4 tid @ part1 @ z # le_bytes 2 caps @ cs # le_bytes 2 sstatus @ filler @ part2 @ extra"

definition handshake_payload ::
  "byte list \<Rightarrow> uint32 \<Rightarrow> byte list \<Rightarrow> uint16 \<Rightarrow> byte \<Rightarrow> uint16 \<Rightarrow> byte list \<Rightarrow> byte list \<Rightarrow> byte list" where
  "handshake_payload version tid scramble caps cs sstatus filler extra =
     10 # version @ 0 # handshake_body tid (take 8 scramble) 0 caps cs sstatus filler (drop 8 scramble) (0 # extra)"

text \<open>What is read from it, into the fields of the connection.\<close>

definition handshake_received ::
  "byte list \<Rightarrow> uint32 \<Rightarrow> block \<Rightarrow> uint16 \<Rightarrow> byte \<Rightarrow> uint16 \<Rightarrow> 'a con_core_scheme \<Rightarrow> 'a con_core_scheme" where
  "handshake_received version tid sb caps cs sstatus con =
     con\<lparr>server_version := version, thread_id := tid, server_capabilities := ucast caps, con_charset := cs,
        server_status := sstatus, scramble_buffer := sb, read_buffer := map_option past_packet (read_buffer con)\<rparr>"

text \<open>The version string ends with a NUL, or where its array is full.\<close>

lemma read_handshake_fields:
  assumes b: "read_buffer con = Some b"
      "packet_in b (10 # stored @ sep # handshake_body tid part1 z caps cs sstatus filler part2 extra) rest"
    and v: "blk_cstr (buffer b) (Suc (buffer_read_ptr b)) ATTACHSQL_MAX_SERVER_VERSION_LEN = Some version"
      "text_array ATTACHSQL_MAX_SERVER_VERSION_LEN version = stored"
    and l: "length part1 = 8" "length part2 = 12" "length filler = 13" "blk_size (scramble_buffer con) = 20"
    and caps: "(ucast caps :: uint32) AND ATTACHSQL_CAPABILITY_PROTOCOL_41 \<noteq> 0"
  shows "\<exists>sb. attachsql_packet_read_handshake con =
      attachsql_handshake_response (handshake_received stored tid sb caps cs sstatus con) \<and>
      blk_read sb 0 20 = Some (part1 @ part2) \<and> blk_size sb = 20"
proof -
  let ?n = "length stored"
  have a0: "ahead b (10 # stored @ sep # le_bytes 4 tid @ part1 @ z # le_bytes 2 caps @ cs # le_bytes 2 sstatus @
     filler @ part2 @ extra @ rest)"
    using packet_in_ahead[OF b(2)] by (simp add: handshake_body_def)
  have a1: "ahead (skip 1 b) ((stored @ [sep]) @ le_bytes 4 tid @ part1 @ z # le_bytes 2 caps @ cs # le_bytes 2 sstatus @
     filler @ part2 @ extra @ rest)" using ahead_Cons[OF a0] by simp
  have ver: "blk_cstr (buffer (skip 1 b)) (buffer_read_ptr (skip 1 b)) ATTACHSQL_MAX_SERVER_VERSION_LEN = Some version"
    using v(1) by simp
  define b2 where "b2 = skip (?n + 1) (skip 1 b)"
  have a2: "ahead b2 (le_bytes 4 tid @ part1 @ z # le_bytes 2 caps @ cs # le_bytes 2 sstatus @
     filler @ part2 @ extra @ rest)" using ahead_skip[OF a1] by (simp add: b2_def)
  define b3 where "b3 = skip 4 b2"
  have a3: "ahead b3 (part1 @ z # le_bytes 2 caps @ cs # le_bytes 2 sstatus @ filler @ part2 @ extra @ rest)"
    using ahead_skip[OF a2] by (simp add: b3_def)
  define b4 where "b4 = skip 9 b3"
  have a4: "ahead b4 (le_bytes 2 caps @ cs # le_bytes 2 sstatus @ filler @ part2 @ extra @ rest)"
    using ahead_skip[of b3 "part1 @ [z]"] a3 l(1) by (simp add: b4_def)
  define b5 where "b5 = skip 2 b4"
  have a5: "ahead b5 (cs # le_bytes 2 sstatus @ filler @ part2 @ extra @ rest)"
    using ahead_skip[OF a4] by (simp add: b5_def)
  define b6 where "b6 = skip 1 b5"
  have a6: "ahead b6 (le_bytes 2 sstatus @ filler @ part2 @ extra @ rest)"
    using ahead_Cons[OF a5] by (simp add: b6_def)
  define b7 where "b7 = skip 15 b6"
  have a7: "ahead b7 (part2 @ extra @ rest)"
    using ahead_skip[of b6 "le_bytes 2 sstatus @ filler"] a6 l(3) by (simp add: b7_def)
  obtain s1 where s1: "blk_write (scramble_buffer con) 0 part1 = Some s1"
    using blk_write_total[of 0 part1 "scramble_buffer con"] l by auto
  obtain s2 where s2: "blk_write s1 8 part2 = Some s2"
    using blk_write_total[of 8 part2 s1] blk_write_size[OF s1] l by auto
  have "writes_at (scramble_buffer con) 0 (part1 @ part2) s2"
    using writes_at_append[OF blk_write_writes_at[OF s1]] blk_write_writes_at[OF s2] l(1) by simp
  then have sb: "blk_read s2 0 20 = Some (part1 @ part2)" "blk_size s2 = 20"
    using blk_read_has[OF writes_at_has] writes_at_size l by fastforce+
  have first: "((10 :: byte) = 0xff) = False" and ten: "((10 :: byte) \<noteq> 10) = False" by simp_all
  have l8: "8 = length part1" and l12: "12 = length part2" using l by simp_all
  have past: "attachsql_buffer_packet_read_end (skip n b) = Some (past_packet b)" for n
    using read_end_past[OF b(2)] .
  have "attachsql_packet_read_handshake con =
      attachsql_handshake_response (handshake_received stored tid s2 caps cs sstatus con)"
    unfolding packet_read_handshake_unfold b(1) Option.bind.simps ahead_byte[OF a0] Let_def
      first if_False b(1) Option.bind.simps ahead_byte[OF a0] ten if_False ver v(2) Option.bind.simps
      b2_def[symmetric] ahead_int4[OF a2] b3_def[symmetric] ahead_bytes[OF a3 l8] s1 b4_def[symmetric]
      ahead_int2[OF a4] b5_def[symmetric] ahead_byte[OF a5] b6_def[symmetric] ahead_int2[OF a6]
      b7_def[symmetric] ahead_bytes[OF a7 l12] s2
    using caps past[of "46 + length stored"] by (simp add: attachsql_packet_read_end_def handshake_received_def b(1)
      b7_def b6_def b5_def b4_def b3_def b2_def)
  then show ?thesis using sb by blast
qed

text \<open>A packet read this way is answered.\<close>

lemma handshake_read_answered:
  assumes c: "connecting user pass con" and b: "read_buffer con = Some b"
      "packet_in b (10 # stored @ sep # handshake_body tid part1 z caps cs sstatus filler part2 extra) rest"
    and v: "blk_cstr (buffer b) (Suc (buffer_read_ptr b)) ATTACHSQL_MAX_SERVER_VERSION_LEN = Some version"
      "text_array ATTACHSQL_MAX_SERVER_VERSION_LEN version = stored"
    and l: "length part1 = 8" "length part2 = 12" "length filler = 13" "pass \<noteq> [] \<Longrightarrow> part1 ! 0 \<noteq> 0"
    and caps: "(ucast caps :: uint32) AND ATTACHSQL_CAPABILITY_PROTOCOL_41 \<noteq> 0"
  shows "\<exists>con'. attachsql_packet_read_handshake con = Some con' \<and>
     sent con' = sent con @ [packet (packet_number con + 1)
       (response_payload ((ucast caps AND ATTACHSQL_CAPABILITY_CLIENT) OR ATTACHSQL_CAPABILITY_MULTI_RESULTS OR
                          client_capabilities con) user (auth_of pass (part1 @ part2)) (schema_bytes con))] \<and>
     server_version con' = stored \<and> thread_id con' = tid \<and>
     expected con' = ATTACHSQL_PACKET_TYPE_RESPONSE # expected con \<and> queue_ok con' \<and>
     con_status con' = ATTACHSQL_CON_STATUS_CONNECTING \<and> read_buffer con' = Some (past_packet b) \<and>
     packet_number con' = packet_number con + 1 \<and> login_frame con con' \<and> con_core.more con' = con_core.more con"
proof -
  have sz: "blk_size (scramble_buffer con) = 20" using c by (simp add: connecting_def)
  obtain sb where sb: "attachsql_packet_read_handshake con =
      attachsql_handshake_response (handshake_received stored tid sb caps cs sstatus con)"
    "blk_read sb 0 20 = Some (part1 @ part2)" "blk_size sb = 20"
    using read_handshake_fields[OF b v l(1-3) sz caps] by blast
  let ?c = "handshake_received stored tid sb caps cs sstatus con"
  have q: "queue_fields ?c = queue_fields con" by (simp add: queue_fields_def handshake_received_def)
  have f: "connecting user pass ?c"
    using c sb(3) queue_frame(2)[OF q] unfolding connecting_def
    by (simp add: handshake_received_def calm_def schema_bytes_def queue_room_def alloc_def)
  have s0: "pass \<noteq> [] \<Longrightarrow> (part1 @ part2) ! 0 \<noteq> 0" using l(1,4) by (simp add: nth_append)
  have "scramble_buffer ?c = sb" by (simp add: handshake_received_def)
  then obtain con' where "attachsql_handshake_response ?c = Some con'"
    "responded (response_payload (capabilities_sent ?c) user (auth_of pass (part1 @ part2)) (schema_bytes ?c)) ?c con'"
    using handshake_response_ok[OF f _ s0] sb(2) by auto
  moreover have "con_core.more ?c = con_core.more con" by (simp add: handshake_received_def)
  ultimately show ?thesis
    using sb(1) b(1) queue_frame(1)[OF q] c
    by (simp add: responded_def handshake_received_def capabilities_sent_def schema_bytes_def connecting_def login_frame_def)
qed

section \<open>Properties\<close>

text \<open>
  C14. A handshake packet is answered by one packet with the next sequence number that carries
  the capabilities, the user, the schema and, for a non-empty password, a token the server
  accepts against the double hash of the password; then a response is expected.
\<close>

theorem handshake_answered:
  assumes "connecting user pass con" "pass \<noteq> []" "read_buffer con = Some b"
    and "packet_in b (handshake_payload version tid scramble caps cs sstatus filler extra) rest"
    and "length version < ATTACHSQL_MAX_SERVER_VERSION_LEN" "0 \<notin> set version"
    and "length scramble = 20" "scramble ! 0 \<noteq> 0" "length filler = 13"
    and "(ucast caps :: uint32) AND ATTACHSQL_CAPABILITY_PROTOCOL_41 \<noteq> 0"
  shows "\<exists>con' token. attachsql_packet_read_handshake con = Some con' \<and>
     sent con' = sent con @ [packet (packet_number con + 1)
       (response_payload ((ucast caps AND ATTACHSQL_CAPABILITY_CLIENT) OR ATTACHSQL_CAPABILITY_MULTI_RESULTS OR
                          client_capabilities con) user (20 # token) (schema_bytes con))] \<and>
     server_accepts (sha1 (sha1 pass)) scramble token \<and>
     server_version con' = version \<and> thread_id con' = tid \<and>
     expected con' = ATTACHSQL_PACKET_TYPE_RESPONSE # expected con \<and> queue_ok con' \<and>
     con_status con' = ATTACHSQL_CON_STATUS_CONNECTING \<and> read_buffer con' = Some (past_packet b)"
proof -
  let ?p = "handshake_body tid (take 8 scramble) 0 caps cs sstatus filler (drop 8 scramble) (0 # extra)"
  have p: "packet_in b (10 # version @ 0 # ?p) rest" using assms(4) by (simp add: handshake_payload_def)
  have "ahead (skip 1 b) ((version @ [0]) @ ?p @ rest)" using ahead_Cons[of b 10] packet_in_ahead[OF p] by simp
  then have v: "blk_cstr (buffer b) (Suc (buffer_read_ptr b)) ATTACHSQL_MAX_SERVER_VERSION_LEN = Some version"
    using blk_cstr_terminated[OF _ assms(6,5)] ahead_append by (fastforce simp: ahead_def)
  have t: "text_array ATTACHSQL_MAX_SERVER_VERSION_LEN version = version" using assms(5) by (simp add: text_array_def)
  have l: "length (take 8 scramble) = 8" "length (drop 8 scramble) = 12" "take 8 scramble ! 0 \<noteq> 0"
    using assms(7,8) by simp_all
  from handshake_read_answered[OF assms(1,3) p v t l(1,2) assms(9) l(3) assms(10)] show ?thesis
    using token_accepted[of pass scramble] assms(2) by (auto simp: auth_of_def)
qed

definition greeting :: "byte list \<Rightarrow> byte list" where
  "greeting version = handshake_payload version 7 (replicate 20 0x42) 0xf7ff 8 2 (replicate 13 0) []"

definition greeted :: "byte list \<Rightarrow> con_core" where
  "greeted payload = (core_init (lib one_expected) [] [])
     \<lparr>con_user := Some (str ''root''), con_pass := Some (str ''secret''), con_schema := Some [],
      con_status := ATTACHSQL_CON_STATUS_CONNECTING, read_buffer := Some (packet_buffer payload [])\<rparr>"

lemma greeted_ok: "connecting (str ''root'') (str ''secret'') (greeted payload)"
  by (simp add: connecting_def greeted_def core_init_def calm_def queue_ok_def queue_room_def alloc_def
      schema_bytes_def str_def)

theorem handshake_answered_witness:
  "\<exists>con' token. attachsql_packet_read_handshake (greeted (greeting (str ''5.5''))) = Some con' \<and>
     server_accepts (sha1 (sha1 (str ''secret''))) (replicate 20 0x42) token \<and> thread_id con' = 7"
proof -
  have b: "packet_in (packet_buffer (greeting (str ''5.5'')) []) (greeting (str ''5.5'')) []"
    by (rule packet_buffer_in) (simp add: greeting_def handshake_payload_def handshake_body_def str_def)
  have r: "read_buffer (greeted (greeting (str ''5.5''))) = Some (packet_buffer (greeting (str ''5.5'')) [])"
    by (simp add: greeted_def)
  have "packet_in (packet_buffer (greeting (str ''5.5'')) [])
      (handshake_payload (str ''5.5'') 7 (replicate 20 0x42) 0xf7ff 8 2 (replicate 13 0) []) []"
    using b by (simp add: greeting_def)
  from handshake_answered[OF greeted_ok _ r this] show ?thesis
    by (fastforce simp: str_def)
qed

text \<open>
  A packet of another protocol version is not answered and leaves the connection in the state
  it was in: it stays connecting for ever, since nothing reports the error code set.
\<close>

theorem handshake_bad_protocol:
  assumes "read_buffer con = Some b" "packet_in b (version # payload) rest" "version \<noteq> 10" "version \<noteq> 0xff"
  shows "attachsql_packet_read_handshake con = Some (con\<lparr>local_errcode := ATTACHSQL_RET_BAD_PROTOCOL,
     errmsg := str ''Incompatible protocol version''\<rparr>)"
proof -
  have "get_byte b = Some version" using ahead_byte packet_in_ahead[OF assms(2)] by simp
  then show ?thesis using assms by (simp add: packet_read_handshake_unfold text_array_def str_def)
qed

theorem handshake_bad_protocol_witness:
  "\<exists>con'. attachsql_packet_read_handshake (greeted [9, 0]) = Some con' \<and>
     con_status con' = ATTACHSQL_CON_STATUS_CONNECTING \<and> expected con' = []"
proof -
  have b: "packet_in (packet_buffer [9, 0] []) (9 # [0]) []" by (rule packet_buffer_in) simp
  have r: "read_buffer (greeted [9, 0]) = Some (packet_buffer [9, 0] [])" by (simp add: greeted_def)
  show ?thesis unfolding handshake_bad_protocol[OF r b, simplified]
    by (simp add: greeted_def core_init_def expected_def)
qed

text \<open>
  A server version of 36 bytes or more, as some servers send, is cut to 31 bytes and the rest
  of the packet is then read from inside it: the thread identifier is part of the version, and
  the password is scrambled with bytes that are not the scramble of the server.
\<close>

theorem handshake_long_version:
  assumes "connecting user pass con" "read_buffer con = Some b" "packet_in b (10 # version @ 0 # body) rest"
    and "36 \<le> length version" "0 \<notin> set version"
    and "drop 32 version @ 0 # body = handshake_body tid part1 z caps cs sstatus filler part2 extra"
    and "length part1 = 8" "length part2 = 12" "length filler = 13" "pass \<noteq> [] \<Longrightarrow> part1 ! 0 \<noteq> 0"
    and "(ucast caps :: uint32) AND ATTACHSQL_CAPABILITY_PROTOCOL_41 \<noteq> 0"
  shows "\<exists>con'. attachsql_packet_read_handshake con = Some con' \<and> server_version con' = take 31 version \<and>
     thread_id con' = le_word (take 4 (drop 32 version)) \<and>
     sent con' = sent con @ [packet (packet_number con + 1)
       (response_payload ((ucast caps AND ATTACHSQL_CAPABILITY_CLIENT) OR ATTACHSQL_CAPABILITY_MULTI_RESULTS OR
                          client_capabilities con) user (auth_of pass (part1 @ part2)) (schema_bytes con))]"
proof -
  have v31: "version = take 31 version @ version ! 31 # drop 32 version"
    using id_take_nth_drop[of 31 version] assms(4) by simp
  have "version @ 0 # body = (take 31 version @ version ! 31 # drop 32 version) @ 0 # body" using v31 by simp
  then have s: "10 # version @ 0 # body = 10 # take 31 version @ version ! 31 # handshake_body tid part1 z caps cs sstatus filler part2 extra"
    unfolding assms(6)[symmetric] by simp
  note p = assms(3)[unfolded s]
  have "ahead (skip 1 b) (version @ 0 # body @ rest)" using ahead_Cons[of b 10] packet_in_ahead[OF assms(3)] by simp
  from ahead_append[OF this] have "blk_has (buffer b) (Suc (buffer_read_ptr b)) version" by (simp add: ahead_def)
  then have v: "blk_cstr (buffer b) (Suc (buffer_read_ptr b)) ATTACHSQL_MAX_SERVER_VERSION_LEN = Some (take 32 version)"
    by (rule blk_cstr_cut) (use assms(4,5) in simp_all)
  have t: "text_array ATTACHSQL_MAX_SERVER_VERSION_LEN (take 32 version) = take 31 version" by (simp add: text_array_def)
  have "take 4 (drop 32 version) = take 4 (drop 32 version @ 0 # body)" using assms(4) by simp
  also have "\<dots> = le_bytes 4 tid" unfolding assms(6) by (simp add: handshake_body_def)
  finally have "le_word (take 4 (drop 32 version)) = tid" using le_word_le_bytes_full[of 4 tid] by simp
  then show ?thesis using handshake_read_answered[OF assms(1,2) p v t assms(7-9) assms(10,11)] by auto
qed

theorem handshake_long_version_witness:
  "\<exists>con'. attachsql_packet_read_handshake (greeted (greeting (replicate 40 0x31))) = Some con' \<and>
     thread_id con' = 0x31313131"
proof -
  let ?v = "replicate 40 0x31 :: byte list" and ?c = "greeted (greeting (replicate 40 0x31))"
  let ?body = "handshake_body 7 (take 8 (replicate 20 0x42)) 0 0xf7ff 8 2 (replicate 13 0) (drop 8 (replicate 20 0x42)) [0]"
  have b: "packet_in (packet_buffer (greeting ?v) []) (10 # ?v @ 0 # ?body) []"
    using packet_buffer_in[of "greeting ?v" "[]"] by (simp add: greeting_def handshake_payload_def handshake_body_def)
  have r: "read_buffer ?c = Some (packet_buffer (greeting ?v) [])" by (simp add: greeted_def)
  have d: "drop 32 ?v @ 0 # ?body = handshake_body 0x31313131 [0x31, 0x31, 0x31, 0x31, 0, 7, 0, 0] 0 0x4242 0x42 0x4242
      ([0x42, 0x42, 0x42, 0, 0xff, 0xf7, 8, 2, 0, 0, 0, 0, 0]) (replicate 9 0 @ replicate 3 0x42) (replicate 9 0x42 @ [0])"
  proof -
    have "ucast (0x31313131 :: uint32) = (0x31 :: byte)" "ucast (drop_bit 8 0x31313131 :: uint32) = (0x31 :: byte)"
      "ucast (drop_bit 16 0x31313131 :: uint32) = (0x31 :: byte)" "ucast (drop_bit 24 0x31313131 :: uint32) = (0x31 :: byte)"
      by simp_all
    then have w: "le_bytes 4 (0x31313131 :: uint32) = [0x31, 0x31, 0x31, 0x31]" "le_bytes 4 (7 :: uint32) = [7, 0, 0, 0]"
      "le_bytes 2 (0x4242 :: uint16) = [0x42, 0x42]" "le_bytes 2 (0xf7ff :: uint16) = [0xff, 0xf7]"
      "le_bytes 2 (2 :: uint16) = [2, 0]" unfolding le_bytes_2 le_bytes_4 by simp_all
    have r: "replicate 4 x = [x, x, x, x]" "replicate 3 x = [x, x, x]" "replicate 8 x = [x, x, x, x, x, x, x, x]"
      "replicate 9 x = [x, x, x, x, x, x, x, x, x]" "replicate 12 x = [x, x, x, x, x, x, x, x, x, x, x, x]"
      "replicate 13 x = [x, x, x, x, x, x, x, x, x, x, x, x, x]" for x :: byte
      by (simp_all add: numeral_eq_Suc)
    show ?thesis by (simp add: handshake_body_def w r)
  qed
  have "take 4 (drop 32 ?v) = le_bytes 4 (0x31313131 :: uint32)"
    using arg_cong[OF d, of "take 4"] by (simp add: handshake_body_def)
  then have t: "le_word (take 4 (drop 32 ?v)) = (0x31313131 :: uint32)" using le_word_le_bytes_full[of 4 "0x31313131 :: uint32"] by simp
  have f: "[0x31, 0x31, 0x31, 0x31, 0, 7, 0, 0] ! 0 \<noteq> (0 :: byte)" by simp
  have "\<exists>con'. attachsql_packet_read_handshake ?c = Some con' \<and> thread_id con' = le_word (take 4 (drop 32 ?v))"
    using handshake_long_version[OF greeted_ok r b _ _ d _ _ _ f] by auto
  then show ?thesis unfolding t .
qed

end
