(* ===== verification/Process.thy ===== *)
theory Process
  imports Handshake
begin

text \<open>
  Receiving, from \<open>src/net.cc\<close> and \<open>src/connect.cc\<close>: the read callbacks of libuv, the decompression
  of compressed packets into the read buffer, and the loop that takes packets out of the read
  buffer and hands each to the reader for the packet type expected next.
\<close>

section \<open>Buffers for reading\<close>

definition buffer_new :: "'a con_core_scheme \<Rightarrow> buffer_st option \<times> 'a con_core_scheme" where
  "buffer_new con =
     (let (new_ok, con) = alloc con
      in if \<not> new_ok then (None, con)
         else let (malloc_ok, con) = alloc con in (attachsql_buffer_create new_ok malloc_ok, con))"

text \<open>
  Making room: the buffer is created when there is none, and enlarged once when it has less room
  than asked for, whatever the outcome. The result is the free space reported.
\<close>

definition buffer_prepare ::
  "nat \<Rightarrow> buffer_st option \<Rightarrow> 'a con_core_scheme \<Rightarrow> (nat \<times> buffer_st \<times> 'a con_core_scheme) option" where
  "buffer_prepare wanted buf con =
     (let (buf, con) = (case buf of None \<Rightarrow> buffer_new con | Some b \<Rightarrow> (Some b, con))
      in if attachsql_buffer_get_available buf < wanted then
           let (ok, con) = alloc con
           in do { (_, buf) \<leftarrow> attachsql_buffer_increase ok buf;
                   b \<leftarrow> buf;
                   Some (attachsql_buffer_get_available (Some b), b, con) }
         else do { b \<leftarrow> buf; Some (attachsql_buffer_get_available (Some b), b, con) })"

text \<open>The allocation callback: where libuv may store what it has received, and how much.\<close>

definition on_alloc :: "nat \<Rightarrow> 'a con_core_scheme \<Rightarrow> (nat \<times> 'a con_core_scheme) option" where
  "on_alloc suggested_size con =
     (if \<not> opt_compression con then
        do { (buffer_free, b, con) \<leftarrow> buffer_prepare suggested_size (read_buffer con) con;
             Some (buffer_free, con\<lparr>read_buffer := Some b\<rparr>) }
      else
        do { (buffer_free, b, con) \<leftarrow> buffer_prepare suggested_size (read_buffer_compress con) con;
             Some (buffer_free, con\<lparr>read_buffer_compress := Some b\<rparr>) })"

section \<open>Decompression\<close>

definition out_of_sequence :: "'a con_core_scheme \<Rightarrow> 'a con_core_scheme" where
  "out_of_sequence con = con\<lparr>local_errcode := ATTACHSQL_RET_PACKET_OUT_OF_SEQUENCE,
     command_status := ATTACHSQL_COMMAND_STATUS_READ_FAILED, next_packet_queue_used := 0\<rparr>"

text \<open>
  A packet number is a \<open>uint8_t\<close>, the byte in the buffer a \<open>char\<close>, which is signed; both are
  compared as \<open>int\<close>.
\<close>

definition number_matches :: "byte \<Rightarrow> byte \<Rightarrow> bool" where
  "number_matches n c \<longleftrightarrow> uint n = sint c"

text \<open>The body of a compressed packet, once its header has been read.\<close>

definition decompress_body ::
  "nat \<Rightarrow> nat \<Rightarrow> nat \<Rightarrow> 'a con_core_scheme \<Rightarrow> (bool \<times> 'a con_core_scheme) option" where
  "decompress_body buffer_free compressed_packet_size uncompressed_packet_size con =
     do { rc \<leftarrow> read_buffer_compress con;
          b \<leftarrow> read_buffer con;
          src \<leftarrow> get_bytes compressed_packet_size rc;
          if uncompressed_packet_size = 0 then
            do { mem \<leftarrow> blk_write (buffer b) (buffer_write_ptr b) src;
                 Some (True, con\<lparr>read_buffer_compress := Some (skip compressed_packet_size rc),
                   read_buffer := Some (attachsql_buffer_move_write_ptr (b\<lparr>buffer := mem\<rparr>) compressed_packet_size)\<rparr>) }
          else
            case zlib_uncompress (lib con) src of
              Some out \<Rightarrow>
                if length out \<le> buffer_free then
                  do { mem \<leftarrow> blk_write (buffer b) (buffer_write_ptr b) out;
                       Some (True, con\<lparr>read_buffer_compress := Some (skip compressed_packet_size rc),
                         read_buffer := Some (attachsql_buffer_move_write_ptr (b\<lparr>buffer := mem\<rparr>) (length out))\<rparr>) }
                else Some (True, con\<lparr>local_errcode := ATTACHSQL_RET_COMPRESSION_FAILURE,
                       command_status := ATTACHSQL_COMMAND_STATUS_READ_FAILED, next_packet_queue_used := 0\<rparr>)
            | None \<Rightarrow> Some (True, con\<lparr>local_errcode := ATTACHSQL_RET_COMPRESSION_FAILURE,
                       command_status := ATTACHSQL_COMMAND_STATUS_READ_FAILED, next_packet_queue_used := 0\<rparr>) }"

definition attachsql_con_decompress_read_buffer ::
  "'a con_core_scheme \<Rightarrow> (bool \<times> 'a con_core_scheme) option" where
  "attachsql_con_decompress_read_buffer con =
     do { rc \<leftarrow> read_buffer_compress con;
          let data_size = attachsql_buffer_unread_data rc;
          if data_size < 7 then Some (False, con)
          else do {
            compressed_packet_size \<leftarrow> get_int3 rc;
            if data_size < unat (compressed_packet_size + 7) then Some (False, con)
            else do {
              let con = con\<lparr>compressed_packet_number := compressed_packet_number con + 1\<rparr>;
              c \<leftarrow> get_byte (skip 3 rc);
              if \<not> number_matches (compressed_packet_number con) c then Some (True, out_of_sequence con)
              else do {
                uncompressed_packet_size \<leftarrow> get_int3 (skip 4 rc);
                let rc = skip 7 rc;
                (buffer_free, b, con) \<leftarrow> buffer_prepare (unat uncompressed_packet_size) (read_buffer con) con;
                let rc = rc\<lparr>packet_end_ptr := Some (buffer_read_ptr rc + unat compressed_packet_size)\<rparr>;
                decompress_body buffer_free (unat compressed_packet_size) (unat uncompressed_packet_size)
                  (con\<lparr>read_buffer_compress := Some rc, read_buffer := Some b\<rparr>) } } } }"

section \<open>The packet loop\<close>

fun read_packet :: "attachsql_packet_type_t \<Rightarrow> 'a con_core_scheme \<Rightarrow> 'a con_core_scheme option" where
  "read_packet ATTACHSQL_PACKET_TYPE_NONE con = Some con"
| "read_packet ATTACHSQL_PACKET_TYPE_HANDSHAKE con = attachsql_packet_read_handshake con"
| "read_packet ATTACHSQL_PACKET_TYPE_HANDSHAKE_SSL con = attachsql_handshake_response con"
| "read_packet ATTACHSQL_PACKET_TYPE_RESPONSE con = attachsql_packet_read_response con"
| "read_packet ATTACHSQL_PACKET_TYPE_PREPARE_RESPONSE con = attachsql_packet_read_prepare_response con"
| "read_packet ATTACHSQL_PACKET_TYPE_PREPARE_PARAMETER con = attachsql_packet_read_prepare_parameter con"
| "read_packet ATTACHSQL_PACKET_TYPE_PREPARE_COLUMN con = attachsql_packet_read_prepare_column con"
| "read_packet ATTACHSQL_PACKET_TYPE_COLUMN con = attachsql_packet_read_column con"
| "read_packet ATTACHSQL_PACKET_TYPE_STMT_ROW con = attachsql_packet_read_row con"
| "read_packet ATTACHSQL_PACKET_TYPE_ROW con = attachsql_packet_read_row con"

text \<open>The types after which the function returns.\<close>

definition stops :: "attachsql_packet_type_t \<Rightarrow> bool" where
  "stops t \<longleftrightarrow> t \<in> {ATTACHSQL_PACKET_TYPE_NONE, ATTACHSQL_PACKET_TYPE_STMT_ROW, ATTACHSQL_PACKET_TYPE_ROW}"

text \<open>The read pointer behind the header of a packet, and its end marked.\<close>

definition packet_body :: "uint32 \<Rightarrow> buffer_st \<Rightarrow> buffer_st" where
  "packet_body packet_len b =
     (let b = skip 4 b in b\<lparr>packet_end_ptr := Some (buffer_read_ptr b + unat packet_len)\<rparr>)"

text \<open>
  The beginning of one turn of the loop: the value the function returns, or the type of the packet
  that the read buffer now holds.
\<close>

definition packet_head :: "'a con_core_scheme \<Rightarrow> ((bool + attachsql_packet_type_t) \<times> 'a con_core_scheme) option" where
  "packet_head con =
     do { next_packet_type \<leftarrow> attachsql_packet_queue_peek con;
          if next_packet_type = ATTACHSQL_PACKET_TYPE_NONE then Some (Inl False, con)
          else do {
            b \<leftarrow> read_buffer con;
            let data_size = attachsql_buffer_unread_data b;
            if data_size < 4 then Some (Inl False, con)
            else do {
              packet_len \<leftarrow> get_int3 b;
              let con = con\<lparr>packet_size := packet_len\<rparr>;
              if data_size < unat (packet_len + 4) then Some (Inl False, con)
              else do {
                let con = (if next_packet_type \<noteq> ATTACHSQL_PACKET_TYPE_HANDSHAKE
                           then con\<lparr>packet_number := packet_number con + 1\<rparr> else con);
                (_, con) \<leftarrow> attachsql_packet_queue_pop con;
                c \<leftarrow> get_byte (skip 3 b);
                if \<not> number_matches (packet_number con) c then Some (Inl True, out_of_sequence con)
                else Some (Inr next_packet_type, con\<lparr>read_buffer := Some (packet_body packet_len b)\<rparr>) } } } }"

text \<open>One turn of the loop: the value the function returns, or none when it goes on.\<close>

definition process_packet :: "'a con_core_scheme \<Rightarrow> (bool option \<times> 'a con_core_scheme) option" where
  "process_packet con =
     do { (head, con) \<leftarrow> packet_head con;
          case head of
            Inl r \<Rightarrow> Some (Some r, con)
          | Inr t \<Rightarrow> do { con \<leftarrow> read_packet t con; Some (if stops t then Some True else None, con) } }"

lemma process_packet_unfold:
  "process_packet con =
     do { next_packet_type \<leftarrow> attachsql_packet_queue_peek con;
          if next_packet_type = ATTACHSQL_PACKET_TYPE_NONE then Some (Some False, con)
          else do {
            b \<leftarrow> read_buffer con;
            let data_size = attachsql_buffer_unread_data b;
            if data_size < 4 then Some (Some False, con)
            else do {
              packet_len \<leftarrow> get_int3 b;
              let con = con\<lparr>packet_size := packet_len\<rparr>;
              if data_size < unat (packet_len + 4) then Some (Some False, con)
              else do {
                let con = (if next_packet_type \<noteq> ATTACHSQL_PACKET_TYPE_HANDSHAKE
                           then con\<lparr>packet_number := packet_number con + 1\<rparr> else con);
                (_, con) \<leftarrow> attachsql_packet_queue_pop con;
                c \<leftarrow> get_byte (skip 3 b);
                if \<not> number_matches (packet_number con) c then Some (Some True, out_of_sequence con)
                else do {
                  con \<leftarrow> read_packet next_packet_type (con\<lparr>read_buffer := Some (packet_body packet_len b)\<rparr>);
                  Some (if stops next_packet_type then Some True else None, con) } } } } }"
  by (simp add: process_packet_def packet_head_def Let_def bind_assoc if_distrib[of "\<lambda>x. Option.bind x _"] case_prod_unfold cong: if_cong)

section \<open>The loop ends\<close>

text \<open>
  A reader leaves the read pointer behind the header of the packet, or at the end of the packet,
  or the buffer has been emptied.
\<close>

definition emptied :: "buffer_st \<Rightarrow> bool" where
  "emptied b \<longleftrightarrow> buffer_write_ptr b = 0 \<and> packet_end_ptr b = Some 0"

definition beyond :: "nat \<Rightarrow> nat \<Rightarrow> buffer_st \<Rightarrow> bool" where
  "beyond p m b \<longleftrightarrow> blk_size (buffer b) = m \<and> p \<le> buffer_read_ptr b \<and> (\<exists>e. packet_end_ptr b = Some e \<and> p \<le> e)"

definition reading :: "nat \<Rightarrow> nat \<Rightarrow> buffer_st \<Rightarrow> bool" where
  "reading p m b \<longleftrightarrow> emptied b \<or> beyond p m b"

definition settled :: "nat \<Rightarrow> nat \<Rightarrow> buffer_st \<Rightarrow> bool" where
  "settled p m b \<longleftrightarrow> (emptied b \<and> buffer_read_ptr b = 0) \<or> beyond p m b"

definition rb :: "(buffer_st \<Rightarrow> bool) \<Rightarrow> 'a con_core_scheme \<Rightarrow> bool" where
  "rb P con \<longleftrightarrow> (\<exists>b. read_buffer con = Some b \<and> P b)"

lemma settled_reading: "settled p m b \<Longrightarrow> reading p m b"
  by (auto simp: settled_def reading_def)

lemma reading_skip: "reading p m b \<Longrightarrow> reading p m (skip n b)"
  by (auto simp: reading_def emptied_def beyond_def skip_def)

lemma reading_end: "reading p m b \<Longrightarrow> attachsql_buffer_packet_read_end b = Some b' \<Longrightarrow> settled p m b'"
  by (auto simp: reading_def settled_def emptied_def beyond_def attachsql_buffer_packet_read_end_def
      split: if_splits option.splits)

lemma read_end_settled: "attachsql_packet_read_end con = Some con' \<Longrightarrow> rb (reading p m) con \<Longrightarrow> rb (settled p m) con'"
  by (auto simp: attachsql_packet_read_end_def rb_def dest: reading_end split: bind_splits)

lemma get_length_reading: "get_length b = Some (v, n, b') \<Longrightarrow> reading p m b \<Longrightarrow> reading p m b'"
  by (auto simp: get_length_def reading_skip split: bind_splits)

lemma get_string_reading: "get_string n b = Some (xs, b') \<Longrightarrow> reading p m b \<Longrightarrow> reading p m b'"
  by (auto simp: get_string_def Let_def reading_skip split: bind_splits dest!: get_length_reading[where p = p and m = m])

text \<open>The frame of a function: the read buffer is the same afterwards.\<close>

named_theorems rb_frames \<open>functions that leave the read buffer alone\<close>

lemma alloc_rb [rb_frames]: "alloc con = (ok, con') \<Longrightarrow> read_buffer con' = read_buffer con"
  by (auto simp: alloc_def split: list.splits)

lemma queue_push_rb [rb_frames]: "queue_push t con = Some con' \<Longrightarrow> read_buffer con' = read_buffer con"
  by (erule queue_push_frame)

lemma uv_write_rb [rb_frames]: "uv_write bufs con = Some (r, con') \<Longrightarrow> read_buffer con' = read_buffer con"
  by (auto simp: uv_write_def uv_call_def alloc_def Let_def split: list.splits if_splits)

lemma write_packet_rb [rb_frames]: "write_packet bufs con = Some con' \<Longrightarrow> read_buffer con' = read_buffer con"
  by (auto simp: write_packet_def send_failed_def split: bind_splits dest: uv_write_rb)

lemma grow_rb [rb_frames]:
  "grow_uncompressed n con = (ok, con') \<Longrightarrow> read_buffer con' = read_buffer con"
  "grow_compressed n con = (ok, con') \<Longrightarrow> read_buffer con' = read_buffer con"
  by (auto simp: grow_uncompressed_def grow_compressed_def send_failed_def split: if_splits prod.splits dest: alloc_rb)

lemma fill_uncompressed_rb [rb_frames]: "fill_uncompressed d c con = Some con' \<Longrightarrow> read_buffer con' = read_buffer con"
  by (auto simp: fill_uncompressed_def Let_def split: bind_splits if_splits)

lemma compressed_header_rb [rb_frames]: "compressed_header n k con = Some con' \<Longrightarrow> read_buffer con' = read_buffer con"
  by (auto simp: compressed_header_def split: bind_splits)

lemma compress_and_write_rb [rb_frames]:
  "compress_and_write src large n con = Some con' \<Longrightarrow> read_buffer con' = read_buffer con"
  by (auto simp: compress_and_write_unfold send_failed_def Let_def split: bind_splits if_splits prod.splits option.splits
      dest!: rb_frames)

lemma send_compressed_rb [rb_frames]:
  "attachsql_send_compressed_packet d c con = Some con' \<Longrightarrow> read_buffer con' = read_buffer con"
  by (auto simp: send_compressed_packet_unfold Let_def split: bind_splits if_splits prod.splits dest!: rb_frames)

lemma send_data_rb [rb_frames]: "attachsql_send_data d con = Some con' \<Longrightarrow> read_buffer con' = read_buffer con"
  by (auto simp: attachsql_send_data_def Let_def split: bind_splits if_splits dest!: rb_frames)

lemma handshake_response_rb [rb_frames]: "attachsql_handshake_response con = Some con' \<Longrightarrow> read_buffer con' = read_buffer con"
  by (auto simp: attachsql_handshake_response_def split: bind_splits option.splits dest!: rb_frames)

lemma queue_pop_rb [rb_frames]: "attachsql_packet_queue_pop con = Some (t, con') \<Longrightarrow> read_buffer con' = read_buffer con"
  by (auto simp: attachsql_packet_queue_pop_def Let_def split: bind_splits if_splits)

text \<open>The readers.\<close>

lemma rb_queue_push: "queue_push t con = Some con' \<Longrightarrow> rb P con' = rb P con"
  by (simp add: rb_def queue_push_rb)

lemma rb_update:
  "read_buffer con' = read_buffer con \<Longrightarrow> rb P con' = rb P con"
  by (simp add: rb_def)

lemma rb_some [simp]: "rb P (con\<lparr>read_buffer := Some b\<rparr>) = P b"
  by (simp add: rb_def)

lemma rb_settled: "rb (settled p m) con \<Longrightarrow> rb (reading p m) con"
  by (auto simp: rb_def settled_reading)

lemma read_message_reading:
  "read_message n b con = Some con' \<Longrightarrow> reading p m b \<Longrightarrow> rb (reading p m) con'"
  by (auto simp: read_message_def Let_def reading_skip split: bind_splits)

lemma read_end_reading:
  "attachsql_packet_read_end con = Some con' \<Longrightarrow> read_buffer con = Some b \<Longrightarrow> reading p m b \<Longrightarrow> rb (settled p m) con'"
  by (erule read_end_settled) (simp add: rb_def)

lemma read_ok_settled:
  assumes "read_ok_packet b con = Some con'" "reading p m b" shows "rb (settled p m) con'"
proof -
  from assms(1) obtain a n1 b1 i n2 b2 s w con1 con2 where
    b1: "get_length (skip 1 b) = Some (a, n1, b1)" and b2: "get_length b1 = Some (i, n2, b2)"
    and con1: "read_message (1 + of_nat n1 + of_nat n2 + 4) (skip 2 (skip 2 b2))
        (con\<lparr>affected_rows := a, insert_id := i, server_status := s, warning_count := w\<rparr>) = Some con1"
    and con2: "attachsql_packet_read_end con2 = Some con'" "read_buffer con2 = read_buffer con1"
    unfolding read_ok_packet_def Let_def by (auto split: bind_splits if_splits)
  have "reading p m (skip 2 (skip 2 b2))"
    using get_length_reading[OF b2 get_length_reading[OF b1 reading_skip[OF assms(2)]]] reading_skip by metis
  from read_message_reading[OF con1 this] have "rb (reading p m) con2" using con2(2) by (simp add: rb_def)
  then show ?thesis using read_end_settled[OF con2(1)] by blast
qed

lemma read_error_settled:
  assumes "read_error_packet b con = Some con'" "reading p m b" shows "rb (settled p m) con'"
proof -
  from assms(1) obtain code sq con1 where
    con1: "read_message (1 + 3 + 5) (skip 5 (skip 3 (skip 1 b))) (con\<lparr>server_errno := code, con_sqlstate := sq\<rparr>) = Some con1"
    and con2: "attachsql_packet_read_end (con1\<lparr>con_status := (if command_status con1 = ATTACHSQL_COMMAND_STATUS_READ_RESPONSE
                               then ATTACHSQL_CON_STATUS_CONNECT_FAILED else ATTACHSQL_CON_STATUS_IDLE),
                 next_packet_queue_used := 0, command_status := ATTACHSQL_COMMAND_STATUS_EOF\<rparr>) = Some con'"
    unfolding read_error_packet_def Let_def by (elim bind_SomeE)
  have "reading p m (skip 5 (skip 3 (skip 1 b)))" using assms(2) reading_skip by metis
  from read_message_reading[OF con1 this] show ?thesis by (intro read_end_settled[OF con2]) (simp add: rb_def)
qed

lemma read_end_same: "attachsql_packet_read_end con = Some con' \<Longrightarrow> rb (reading p m) con \<Longrightarrow> rb (settled p m) con'"
  by (rule read_end_settled)

lemma read_eof_settled:
  assumes "read_eof_packet b con = Some con'" "reading p m b" shows "rb (settled p m) con'"
proof -
  have r: "reading p m (skip 2 (skip 2 (skip 1 b)))" using assms(2) reading_skip by metis
  from assms(1) obtain c1 where c1: "attachsql_packet_read_end c1 = Some con'"
    "read_buffer c1 = Some (skip 2 (skip 2 (skip 1 b)))"
    unfolding read_eof_packet_def Let_def
    by (auto split: bind_splits if_splits dest!: queue_push_rb)
  then show ?thesis using read_end_reading[OF c1 r] by blast
qed

lemma read_result_settled:
  assumes "read_result_packet b con = Some con'" "reading p m b" shows "rb (settled p m) con'"
proof -
  obtain n k b1 where b1: "get_length b = Some (n, k, b1)"
    using assms(1) by (auto simp: read_result_packet_def split: bind_splits)
  obtain ok ca where a: "alloc (con\<lparr>read_buffer := Some b1\<rparr>) = (ok, ca)" by fastforce
  let ?c1 = "ca\<lparr>con_result := (con_result ca)\<lparr>column_count := ucast n,
      result_columns := (if ok then Some (replicate (unat (ucast n :: uint16)) None) else None)\<rparr>\<rparr>"
  have r: "read_buffer ?c1 = Some b1" using alloc_rb[OF a] by simp
  from assms(1) obtain c2 c3 where c: "attachsql_packet_read_end ?c1 = Some c2"
    "queue_push ATTACHSQL_PACKET_TYPE_COLUMN c2 = Some c3"
    "con' = c3\<lparr>command_status := ATTACHSQL_COMMAND_STATUS_READ_COLUMN\<rparr>"
    by (auto simp: read_result_packet_def b1 a Let_def split: bind_splits)
  have "rb (settled p m) c2" using read_end_reading[OF c(1) r get_length_reading[OF b1 assms(2)]] .
  then show ?thesis using c by (simp add: rb_def queue_push_rb)
qed

lemma read_response_settled:
  assumes "attachsql_packet_read_response con = Some con'" "rb (reading p m) con" shows "rb (settled p m) con'"
  using assms read_ok_settled read_error_settled read_eof_settled read_result_settled
  by (fastforce simp: attachsql_packet_read_response_def rb_def split: bind_splits if_splits)

lemma read_greeting_settled:
  assumes "read_greeting con = Some (answer, con')" "rb (settled p m) con" shows "rb (settled p m) con'"
proof -
  from assms(1) obtain b c con1 b1 protocol where b: "read_buffer con = Some b" "get_byte b = Some c"
    and con1: "(if c = 0xff then attachsql_packet_read_response con else Some con) = Some con1"
    and b1: "read_buffer con1 = Some b1" "get_byte b1 = Some protocol"
    unfolding read_greeting_def by (auto split: bind_splits)
  have s: "rb (settled p m) con1"
    using con1 assms(2) read_response_settled[OF _ rb_settled] by (auto split: if_splits)
  show ?thesis
  proof (cases "protocol = 10")
    case False
    then show ?thesis using assms(1) b con1 b1 s
      by (auto simp: read_greeting_def rb_def)
  next
    case True
    have r: "reading p m b1" using s b1(1) settled_reading by (auto simp: rb_def)
    from assms(1) b con1 b1 True obtain n c2 where
      c2: "attachsql_packet_read_end c2 = Some con'" "read_buffer c2 = Some (skip n b1)"
      unfolding read_greeting_def Let_def
      by (auto split: bind_splits simp del: skip_skip) (auto simp: skip_skip)
    then show ?thesis using read_end_reading[OF c2 reading_skip[OF r]] by simp
  qed
qed

lemma read_handshake_settled:
  assumes "attachsql_packet_read_handshake con = Some con'" "rb (settled p m) con" shows "rb (settled p m) con'"
  using assms by (auto simp: attachsql_packet_read_handshake_def rb_def split: bind_splits if_splits
      dest!: handshake_response_rb read_greeting_settled[unfolded rb_def, where p = p and m = m])

lemma get_column_settled:
  assumes "attachsql_packet_get_column con = Some (col, con')" "rb (reading p m) con" shows "rb (settled p m) con'"
proof -
  obtain b b' where b: "read_buffer con = Some b" "packet_get_column b = Some (col, b')"
    "con' = con\<lparr>read_buffer := Some b'\<rparr>"
    using assms(1) by (auto simp: attachsql_packet_get_column_def split: bind_splits)
  have r: "reading p m b" using assms(2) b(1) by (simp add: rb_def)
  note step = get_string_reading[where p = p and m = m] get_length_reading[where p = p and m = m] reading_skip
  from b(2) obtain n k b0 s1 b1 s2 b2 s3 b3 s4 b4 s5 b5 s6 b6 where
    g: "get_length b = Some (n, k, b0)" "get_string ATTACHSQL_MAX_SCHEMA_SIZE (skip (unat n) b0) = Some (s1, b1)"
      "get_string ATTACHSQL_MAX_TABLE_SIZE b1 = Some (s2, b2)" "get_string ATTACHSQL_MAX_TABLE_SIZE b2 = Some (s3, b3)"
      "get_string ATTACHSQL_MAX_COLUMN_SIZE b3 = Some (s4, b4)" "get_string ATTACHSQL_MAX_COLUMN_SIZE b4 = Some (s5, b5)"
    and e: "get_string ATTACHSQL_MAX_DEFAULT_VALUE_SIZE
        (skip 2 (skip 1 (skip 2 (skip 1 (skip 4 (skip 2 (skip 1 b5))))))) = Some (s6, b6)"
      "attachsql_buffer_packet_read_end b6 = Some b'"
    unfolding packet_get_column_def Let_def by (elim bind_SomeE) (auto elim!: bind_SomeE simp del: skip_skip)
  have "reading p m b5"
    using step(1)[OF g(6) step(1)[OF g(5) step(1)[OF g(4) step(1)[OF g(3) step(1)[OF g(2) reading_skip[OF step(2)[OF g(1) r]]]]]]] .
  then have "reading p m b6" by (intro step(1)[OF e(1)] reading_skip)
  then show ?thesis using reading_end[OF _ e(2)] b(3) by simp
qed

lemma read_column_settled:
  assumes "attachsql_packet_read_column con = Some con'" "rb (reading p m) con" shows "rb (settled p m) con'"
  using assms get_column_settled[OF _ assms(2)]
  by (auto simp: attachsql_packet_read_column_def Let_def rb_queue_push rb_update[of "con_result_update _ _"]
      split: bind_splits)

lemma read_prepare_parameter_settled:
  assumes "attachsql_packet_read_prepare_parameter con = Some con'" "rb (reading p m) con" shows "rb (settled p m) con'"
  using assms get_column_settled[OF _ assms(2)]
  by (auto simp: attachsql_packet_read_prepare_parameter_def Let_def rb_queue_push rb_update[of "con_stmt_update _ _"]
      split: bind_splits)

lemma read_prepare_column_settled:
  assumes "attachsql_packet_read_prepare_column con = Some con'" "rb (reading p m) con" shows "rb (settled p m) con'"
  using assms read_end_settled[OF _ assms(2)]
  by (auto simp: attachsql_packet_read_prepare_column_def Let_def rb_queue_push rb_update[of "con_stmt_update _ _"]
      split: bind_splits)

lemma prepare_arrays_rb: "prepare_arrays stmt con = (stmt', con') \<Longrightarrow> read_buffer con' = read_buffer con"
  by (auto simp: prepare_arrays_def Let_def split: if_splits prod.splits dest!: alloc_rb)

lemma prepare_expect_reading:
  assumes "prepare_expect stmt con = Some con'" "rb (reading p m) con" shows "rb (reading p m) con'"
proof -
  have *: "rb (reading p m) (con\<lparr>command_status := ATTACHSQL_COMMAND_STATUS_EOF, con_status := ATTACHSQL_CON_STATUS_IDLE\<rparr>)"
    using assms(2) by (simp add: rb_def)
  show ?thesis using assms read_end_settled[OF _ *]
    by (auto simp: prepare_expect_def rb_queue_push rb_update[of "command_status_update _ _"] rb_settled
        split: if_splits bind_splits)
qed

lemma read_prepare_response_settled:
  assumes "attachsql_packet_read_prepare_response con = Some con'" "rb (reading p m) con" shows "rb (settled p m) con'"
proof -
  obtain b c where b: "read_buffer con = Some b" "get_byte b = Some c"
    using assms(1) by (auto simp: attachsql_packet_read_prepare_response_def split: bind_splits)
  have r: "reading p m (skip n b)" for n using assms(2) b(1) reading_skip by (auto simp: rb_def)
  show ?thesis
  proof (cases "c = 0")
    case False
    then show ?thesis using assms b read_response_settled by (auto simp: attachsql_packet_read_prepare_response_def)
  next
    case True
    from assms(1) b True obtain s w s1 c1 c2 b2 where
      a: "prepare_arrays s (con\<lparr>warning_count := w, read_buffer := Some (skip 12 b)\<rparr>) = (s1, c1)"
      and e: "prepare_expect s1 (c1\<lparr>con_stmt := Some s1\<rparr>) = Some c2" "read_buffer c2 = Some b2"
      and f: "attachsql_packet_read_end (c2\<lparr>read_buffer := Some (skip (unat (packet_size c2 - 12)) b2),
        con_stmt := Some (s1\<lparr>stmt_state := ATTACHSQL_STMT_STATE_PREPARED\<rparr>)\<rparr>) = Some con'"
      by (auto simp: attachsql_packet_read_prepare_response_def Let_def split: bind_splits prod.splits)
    have "rb (reading p m) (c1\<lparr>con_stmt := Some s1\<rparr>)" using prepare_arrays_rb[OF a] r[of 12] by (simp add: rb_def)
    from prepare_expect_reading[OF e(1) this] have "reading p m b2" using e(2) by (simp add: rb_def)
    then show ?thesis using reading_skip by (intro read_end_settled[OF f]) (simp add: rb_def)
  qed
qed

text \<open>A reader that the loop continues after.\<close>

lemma read_packet_settled:
  assumes "read_packet t con = Some con'" "\<not> stops t" "rb (settled p m) con" shows "rb (settled p m) con'"
proof -
  note r = rb_settled[OF assms(3)]
  show ?thesis
    using assms(1,2)
    by (cases t) (auto simp: stops_def rb_update[OF handshake_response_rb] assms(3)
      intro: read_handshake_settled[OF _ assms(3)] read_response_settled[OF _ r] read_prepare_response_settled[OF _ r]
        read_prepare_parameter_settled[OF _ r] read_prepare_column_settled[OF _ r] read_column_settled[OF _ r])
qed

definition loop_measure :: "'a con_core_scheme \<Rightarrow> nat" where
  "loop_measure con =
     (case read_buffer con of
        Some b \<Rightarrow> if buffer_read_ptr b = buffer_write_ptr b then 0 else Suc (blk_size (buffer b) - buffer_read_ptr b)
      | None \<Rightarrow> 0)"

lemma packet_head_decreases:
  fixes con :: "'a con_core_scheme"
  assumes "packet_head con = Some (Inr t, con1)"
  obtains p m where "rb (settled p m) con1" "\<And>con' :: 'a con_core_scheme. rb (settled p m) con' \<Longrightarrow> loop_measure con' < loop_measure con"
proof -
  from assms obtain b packet_len c where b: "read_buffer con = Some b"
    and n: "\<not> attachsql_buffer_unread_data b < 4" and c: "get_byte (skip 3 b) = Some c"
    and con1: "read_buffer con1 = Some (packet_body packet_len b)"
    unfolding packet_head_def Let_def
    by (auto split: bind_splits if_splits prod.splits simp del: skip_fields)
  let ?p = "buffer_read_ptr b + 4" and ?m = "blk_size (buffer b)"
  have "settled ?p ?m (packet_body packet_len b)"
    by (simp add: settled_def beyond_def packet_body_def Let_def)
  then have "rb (settled ?p ?m) con1" using con1 by (simp add: rb_def)
  moreover have "loop_measure con' < loop_measure con" if "rb (settled ?p ?m) con'" for con' :: "'a con_core_scheme"
  proof -
    from that obtain b' where b': "read_buffer con' = Some b'" "settled ?p ?m b'" by (auto simp: rb_def)
    have "buffer_read_ptr b \<noteq> buffer_write_ptr b"
      using n by (auto simp: attachsql_buffer_unread_data_def size_sub_def)
    moreover have "buffer_read_ptr b + 3 < ?m" using c by (auto simp: get_byte_def blk_get_def split: if_splits)
    ultimately show ?thesis using b b' by (auto simp: loop_measure_def settled_def emptied_def beyond_def)
  qed
  ultimately show ?thesis using that by blast
qed

lemma process_packet_decreases:
  assumes "process_packet con = Some (None, con')"
  shows "loop_measure con' < loop_measure con"
proof -
  from assms obtain t con1 where h: "packet_head con = Some (Inr t, con1)" and r: "read_packet t con1 = Some con'"
    and t: "\<not> stops t"
    by (auto simp: process_packet_def split: bind_splits sum.splits if_splits)
  obtain p m where "rb (settled p m) con1" "rb (settled p m) con' \<Longrightarrow> loop_measure con' < loop_measure con"
    using packet_head_decreases[OF h] by metis
  then show ?thesis using read_packet_settled[OF r t] by blast
qed

function process_loop :: "'a con_core_scheme \<Rightarrow> (bool \<times> 'a con_core_scheme) option" where
  "process_loop con =
     do { (r, con') \<leftarrow> process_packet con;
          case r of Some x \<Rightarrow> Some (x, con') | None \<Rightarrow> process_loop con' }"
  by pat_completeness auto
termination
  by (relation "measure loop_measure") (auto dest: process_packet_decreases)

declare process_loop.simps [simp del]

definition attachsql_con_process_packets :: "'a con_core_scheme \<Rightarrow> (bool \<times> 'a con_core_scheme) option" where
  "attachsql_con_process_packets con =
     (if \<not> opt_compression con then
        if read_buffer con = None then Some (False, con) else process_loop con
      else if read_buffer_compress con = None then Some (False, con)
      else do { (done, con) \<leftarrow> attachsql_con_decompress_read_buffer con;
                if \<not> done \<and> read_buffer con = None then Some (False, con) else process_loop con })"

section \<open>The callbacks\<close>

text \<open>The write pointer moved behind what has been received.\<close>

definition data_received :: "int \<Rightarrow> 'a con_core_scheme \<Rightarrow> 'a con_core_scheme option" where
  "data_received read_size con =
     (if opt_compression con then
        do { b \<leftarrow> read_buffer_compress con;
             Some (con\<lparr>read_buffer_compress := Some (attachsql_buffer_move_write_ptr b (nat read_size))\<rparr>) }
      else
        do { b \<leftarrow> read_buffer con;
             Some (con\<lparr>read_buffer := Some (attachsql_buffer_move_write_ptr b (nat read_size))\<rparr>) })"

text \<open>The read callback: the size is negative for an error. libuv has stored the bytes before.\<close>

definition attachsql_read_data_cb :: "int \<Rightarrow> 'a con_core_scheme \<Rightarrow> 'a con_core_scheme option" where
  "attachsql_read_data_cb read_size con =
     (if read_size < 0 then
        Some (net_error ATTACHSQL_RET_NET_READ_ERROR ATTACHSQL_COMMAND_STATUS_READ_FAILED
                (str ''Net read failure: '' @ uv_err_name (lib con) read_size) con)
      else do {
        con \<leftarrow> data_received read_size con;
        (_, con) \<leftarrow> attachsql_con_process_packets con;
        Some con })"

text \<open>libuv storing received bytes where the allocation callback has told it to.\<close>

definition uv_store :: "byte list \<Rightarrow> 'a con_core_scheme \<Rightarrow> 'a con_core_scheme option" where
  "uv_store xs con =
     (if opt_compression con then
        do { b \<leftarrow> read_buffer_compress con;
             mem \<leftarrow> blk_write (buffer b) (buffer_write_ptr b) xs;
             Some (con\<lparr>read_buffer_compress := Some (b\<lparr>buffer := mem\<rparr>)\<rparr>) }
      else
        do { b \<leftarrow> read_buffer con;
             mem \<leftarrow> blk_write (buffer b) (buffer_write_ptr b) xs;
             Some (con\<lparr>read_buffer := Some (b\<lparr>buffer := mem\<rparr>)\<rparr>) })"

definition attachsql_check_for_data_cb :: "'a con_core_scheme \<Rightarrow> 'a con_core_scheme option" where
  "attachsql_check_for_data_cb con = map_option snd (attachsql_con_process_packets con)"

end
