(* ===== verification/Command.thy ===== *)
theory Command
  imports Process
begin

text \<open>
  The commands that ask for more of a result, from \<open>src/command.cc\<close> and \<open>src/statement.cc\<close>: the next
  row, the next result of a multiple result, and the end of a result.
\<close>

definition attachsql_get_next_row ::
  "'a con_core_scheme \<Rightarrow> (attachsql_command_status_t \<times> 'a con_core_scheme) option" where
  "attachsql_get_next_row con =
     do { con \<leftarrow> attachsql_packet_read_end con;
          con \<leftarrow> queue_push ATTACHSQL_PACKET_TYPE_ROW con;
          (_, con) \<leftarrow> attachsql_con_process_packets (con\<lparr>command_status := ATTACHSQL_COMMAND_STATUS_READ_ROW\<rparr>);
          Some (command_status con, con) }"

definition attachsql_stmt_fetch ::
  "'a con_core_scheme \<Rightarrow> (attachsql_command_status_t \<times> 'a con_core_scheme) option" where
  "attachsql_stmt_fetch con =
     do { con \<leftarrow> attachsql_packet_read_end con;
          con \<leftarrow> queue_push ATTACHSQL_PACKET_TYPE_STMT_ROW con;
          (_, con) \<leftarrow> attachsql_con_process_packets (con\<lparr>command_status := ATTACHSQL_COMMAND_STATUS_READ_STMT_ROW\<rparr>);
          Some (command_status con, con) }"

text \<open>The connection may be NULL.\<close>

definition attachsql_command_next_result ::
  "'a con_core_scheme option \<Rightarrow> (bool \<times> 'a con_core_scheme option) option" where
  "attachsql_command_next_result c =
     (case c of
        None \<Rightarrow> Some (False, None)
      | Some con \<Rightarrow>
          if server_status con AND ATTACHSQL_SERVER_STATUS_MORE_RESULTS \<noteq> 0 then
            do { con \<leftarrow> queue_push ATTACHSQL_PACKET_TYPE_RESPONSE (reset_result con);
                 Some (True, Some (con\<lparr>command_status := ATTACHSQL_COMMAND_STATUS_READ_RESPONSE,
                                       con_status := ATTACHSQL_CON_STATUS_BUSY\<rparr>)) }
          else Some (False, Some con))"

definition attachsql_command_free :: "'a con_core_scheme \<Rightarrow> 'a con_core_scheme" where
  "attachsql_command_free con = con\<lparr>con_result := (con_result con)\<lparr>result_columns := None\<rparr>\<rparr>"

end
