(* ===== verification/Error.thy ===== *)
theory Error
  imports Conn
begin

text \<open>
  The error objects handed to the caller, \<open>src/error.cc\<close>. An \<open>attachsql_error_t **\<close> is either NULL,
  then no error is reported, or the address of a pointer that is NULL or has been set.
\<close>

record attachsql_error_t =
  err_code :: int
  err_msg :: "byte list"
  err_sqlstate :: "byte list"
  err_level :: attachsql_error_level_t

definition error_init :: attachsql_error_t where
  "error_init = \<lparr>err_code = 0, err_msg = [], err_sqlstate = [], err_level = ATTACHSQL_ERROR_LEVEL_NOTICE\<rparr>"

type_synonym error_ptr = "attachsql_error_t option option"

text \<open>
  The message is a format without arguments: two percent signs stand for one, any other
  conversion reads an argument that is not there.
\<close>

fun format_plain :: "byte list \<Rightarrow> byte list option" where
  "format_plain [] = Some []"
| "format_plain (c # xs) =
     (if c \<noteq> 0x25 then map_option (Cons c) (format_plain xs)
      else case xs of
             d # ys \<Rightarrow> if d = 0x25 then map_option (Cons c) (format_plain ys) else None
           | [] \<Rightarrow> None)"

text \<open>\<open>ok\<close> is the outcome of \<open>new\<close>; the state is NULL or has five characters.\<close>

definition attachsql_error_client_create ::
  "bool \<Rightarrow> error_ptr \<Rightarrow> int \<Rightarrow> attachsql_error_level_t \<Rightarrow> byte list option \<Rightarrow> byte list \<Rightarrow> error_ptr option" where
  "attachsql_error_client_create ok error code level sqlstate msg =
     (if error = None then Some error
      else if \<not> ok then Some error
      else do { m \<leftarrow> format_plain msg;
                Some (Some (Some (error_init\<lparr>err_code := code, err_level := level,
                  err_msg := text_array ATTACHSQL_MESSAGE_SIZE m,
                  err_sqlstate := (case sqlstate of Some s \<Rightarrow> take (ATTACHSQL_SQLSTATE_SIZE - 1) s | None \<Rightarrow> [])\<rparr>))) })"

definition attachsql_error_server_create ::
  "'a con_core_scheme option \<Rightarrow> error_ptr \<Rightarrow> (error_ptr \<times> 'a con_core_scheme option) option" where
  "attachsql_error_server_create c error =
     (case c of
        None \<Rightarrow> Some (error, None)
      | Some con \<Rightarrow>
          if error = None then Some (error, Some con)
          else
            let (ok, con) = alloc con
            in if \<not> ok then Some (error, Some con)
               else do { state \<leftarrow> blk_read (con_sqlstate con) 0 (ATTACHSQL_SQLSTATE_SIZE - 1);
                         Some (Some (Some (error_init\<lparr>err_code := uint (server_errno con),
                                 err_msg := take (ATTACHSQL_MESSAGE_SIZE - 1) (server_message con),
                                 err_sqlstate := state\<rparr>)), Some con) })"

text \<open>The accessors; the error may be NULL.\<close>

definition attachsql_error_code :: "attachsql_error_t option \<Rightarrow> int" where
  "attachsql_error_code err = (case err of Some e \<Rightarrow> err_code e | None \<Rightarrow> 0)"

definition attachsql_error_message :: "attachsql_error_t option \<Rightarrow> byte list option" where
  "attachsql_error_message err = map_option err_msg err"

definition attachsql_error_sqlstate :: "attachsql_error_t option \<Rightarrow> byte list option" where
  "attachsql_error_sqlstate err = map_option err_sqlstate err"

text \<open>
  The two ways the library calls it: with a connection, whose environment the allocation is
  taken from, and without one, when the allocation is taken to succeed.
\<close>

definition client_error ::
  "int \<Rightarrow> string \<Rightarrow> byte list \<Rightarrow> error_ptr \<Rightarrow> 'a con_core_scheme \<Rightarrow> (error_ptr \<times> 'a con_core_scheme) option" where
  "client_error code sqlstate msg error con =
     (if error = None then Some (error, con)
      else let (ok, con) = alloc con
           in do { e \<leftarrow> attachsql_error_client_create ok error code ATTACHSQL_ERROR_LEVEL_ERROR (Some (str sqlstate)) msg;
                   Some (e, con) })"

definition null_error :: "int \<Rightarrow> string \<Rightarrow> string \<Rightarrow> error_ptr \<Rightarrow> error_ptr option" where
  "null_error code sqlstate msg error =
     attachsql_error_client_create True error code ATTACHSQL_ERROR_LEVEL_ERROR (Some (str sqlstate)) (str msg)"

lemma format_plain_text: "0x25 \<notin> set xs \<Longrightarrow> format_plain xs = Some xs"
  by (induction xs) auto

lemma format_plain_percent: "format_plain (concat (map (\<lambda>c. if c = 0x25 then [c, c] else [c]) xs)) = Some xs"
  by (induction xs) auto

end
