(* ===== verification/Client.thy ===== *)
theory Client
  imports Command Error
begin

text \<open>
  The second layer of a connection: the rest of \<open>attachsql_connect_t\<close>, what it holds for queries,
  buffered rows, statement rows and the pool. The last fields are again the environment:
  \<open>uv_events\<close> are the events the next runs of the event loop deliver, one list per run, and
  \<open>callbacks\<close> the calls of the pool's callback function so far, which is taken not to call back
  into the library.
\<close>

datatype uv_event =
    Resolved int
  | Connected int
  | Received nat "byte list"
  | ReadError int
  | Written int
  | Checked

text \<open>A column description handed out points into the columns of the result.\<close>

record attachsql_query_column_st =
  qc_schema :: "byte list"
  qc_table :: "byte list"
  qc_origin_table :: "byte list"
  qc_column :: "byte list option"
  qc_origin_column :: "byte list option"
  qc_charset :: uint16
  qc_length :: uint32
  qc_type :: attachsql_column_type_t
  qc_flags :: uint16
  qc_decimals :: byte
  qc_default_value :: "byte list"
  qc_default_size :: nat

text \<open>A value of a row: where it starts in the read buffer, and its length.\<close>

record attachsql_query_row_st =
  row_value :: buffer_ptr
  row_value_length :: nat

record attachsql_stmt_row_st =
  sr_data :: "buffer_ptr option"
  sr_length :: nat
  sr_type :: attachsql_column_type_t

text \<open>
  The array of buffered rows: its elements from \<open>realloc\<close>, those not stored yet \<open>None\<close>. Closing
  a query frees the array and leaves the pointer to it.
\<close>

datatype rows_ptr =
    NullRows
  | FreedRows
  | Rows "attachsql_query_row_st list option list"

definition stmt_row_init :: attachsql_stmt_row_st where
  "stmt_row_init = \<lparr>sr_data = None, sr_length = 0, sr_type = ATTACHSQL_COLUMN_TYPE_NULL\<rparr>"

text \<open>
  \<open>con_pool\<close> is the pool, if any, by whether it has a callback function; \<open>query_buffer\<close> is the text
  to send, allocated or the caller's.
\<close>

record attachsql_connect_t = con_core +
  con_pool :: "bool option"
  loop_present :: bool
  stream_present :: bool
  query_buffer :: "block option"
  query_buffer_length :: nat
  query_buffer_alloc :: bool
  query_buffer_statement :: bool
  in_query :: bool
  buffer_rows :: bool
  con_columns :: "attachsql_query_column_st list option"
  con_row :: "attachsql_query_row_st list option"
  row_buffer :: rows_ptr
  row_buffer_alloc_size :: nat
  row_buffer_count :: nat
  row_buffer_position :: nat
  all_rows_buffered :: bool
  stmt_row :: "attachsql_stmt_row_st list option"
  stmt_null_bitmap :: "buffer_ptr option"
  stmt_null_bitmap_length :: nat
  stmt_tmp_buffer :: block
  last_callback :: attachsql_events_t
  uv_events :: "uv_event list list"
  callbacks :: "(attachsql_events_t \<times> attachsql_error_t option) list"

definition connect_init :: "libraries \<Rightarrow> bool list \<Rightarrow> int list \<Rightarrow> uv_event list list \<Rightarrow> attachsql_connect_t" where
  "connect_init l as rs events =
     con_core.extend (core_init l as rs)
       \<lparr>con_pool = None, loop_present = False, stream_present = False, query_buffer = None,
        query_buffer_length = 0, query_buffer_alloc = False, query_buffer_statement = False, in_query = False,
        buffer_rows = False, con_columns = None, con_row = None, row_buffer = NullRows, row_buffer_alloc_size = 0,
        row_buffer_count = 0, row_buffer_position = 0, all_rows_buffered = False, stmt_row = None,
        stmt_null_bitmap = None, stmt_null_bitmap_length = 0,
        stmt_tmp_buffer = char_array ATTACHSQL_STMT_CHAR_BUFFER_SIZE, last_callback = ATTACHSQL_EVENT_NONE,
        uv_events = events, callbacks = []\<rparr>"

section \<open>Events for the pool's callback\<close>

definition attachsql_send_callback ::
  "attachsql_connect_t \<Rightarrow> attachsql_events_t \<Rightarrow> attachsql_error_t option \<Rightarrow> attachsql_connect_t" where
  "attachsql_send_callback con event error =
     (if event = last_callback con then con
      else if con_pool con = Some True
      then con\<lparr>last_callback := event, callbacks := callbacks con @ [(event, error)]\<rparr>
      else con)"

text \<open>The callers pass \<open>*error\<close>, so the pointer must not be NULL.\<close>

definition send_event :: "attachsql_events_t \<Rightarrow> error_ptr \<Rightarrow> attachsql_connect_t \<Rightarrow> attachsql_connect_t option" where
  "send_event event error con = do { e \<leftarrow> error; Some (attachsql_send_callback con event e) }"

text \<open>An error reported to the caller and to the callback.\<close>

definition report_error ::
  "int \<Rightarrow> string \<Rightarrow> byte list \<Rightarrow> error_ptr \<Rightarrow> attachsql_connect_t \<Rightarrow> (error_ptr \<times> attachsql_connect_t) option" where
  "report_error code sqlstate msg error con =
     do { (error, con) \<leftarrow> client_error code sqlstate msg error con;
          con \<leftarrow> send_event ATTACHSQL_EVENT_ERROR error con;
          Some (error, con) }"

definition server_error :: "error_ptr \<Rightarrow> attachsql_connect_t \<Rightarrow> (error_ptr \<times> attachsql_connect_t) option" where
  "server_error error con =
     do { (error, c) \<leftarrow> attachsql_error_server_create (Some con) error;
          con \<leftarrow> c;
          con \<leftarrow> send_event ATTACHSQL_EVENT_ERROR error con;
          Some (error, con) }"

text \<open>The report of a failed connection, the same in \<open>attachsql_connect\<close> and \<open>attachsql_connect_poll\<close>.\<close>

definition report_connect_failed :: "error_ptr \<Rightarrow> attachsql_connect_t \<Rightarrow> (error_ptr \<times> attachsql_connect_t) option" where
  "report_connect_failed error con =
     (if local_errcode con = ATTACHSQL_RET_DNS_ERROR then
        report_error ATTACHSQL_ERROR_CODE_HOST_UNKNOWN ''08000'' (errmsg con) error con
      else if server_errno con \<noteq> 0 then server_error error con
      else if errmsg con \<noteq> [] then report_error ATTACHSQL_ERROR_CODE_CONNECT ''08000'' (errmsg con) error con
      else report_error ATTACHSQL_ERROR_CODE_CONNECT ''08000'' (str ''Unknown connection failure'') error con)"

section \<open>Closing a query\<close>

text \<open>
  Frees everything held for a query. The buffered rows that are deleted must be there.
\<close>

definition free_rows :: "attachsql_connect_t \<Rightarrow> rows_ptr option" where
  "free_rows con =
     (if 0 < row_buffer_alloc_size con then
        (case row_buffer con of
           Rows rows \<Rightarrow>
             if row_buffer_count con \<le> length rows \<and> list_all (\<lambda>r. r \<noteq> None) (take (row_buffer_count con) rows)
             then Some FreedRows else None
         | NullRows \<Rightarrow> if row_buffer_count con = 0 then Some NullRows else None
         | FreedRows \<Rightarrow> None)
      else Some (row_buffer con))"

definition attachsql_query_close :: "attachsql_connect_t \<Rightarrow> attachsql_connect_t option" where
  "attachsql_query_close con =
     (let con = (if query_buffer_alloc con \<and> query_buffer_length con \<noteq> 0 then con\<lparr>query_buffer := None\<rparr> else con);
          con = con\<lparr>query_buffer_alloc := False, query_buffer_length := 0, con_columns := None, con_row := None\<rparr>;
          con = (if server_status con AND ATTACHSQL_SERVER_STATUS_MORE_RESULTS = 0 then con\<lparr>in_query := False\<rparr> else con);
          con = attachsql_command_free con
      in do { rows \<leftarrow> free_rows con;
              Some (con\<lparr>row_buffer := rows, row_buffer_alloc_size := 0, row_buffer_count := 0,
                        row_buffer_position := 0, all_rows_buffered := False\<rparr>) })"

end
