(* ===== verification/Connect.thy ===== *)
theory Connect
  imports Client
begin

text \<open>
  Making and polling a connection, \<open>src/connect.cc\<close>: the event loop as the model sees it, the
  callbacks of the resolver and of the connect request, and the calls that create, connect,
  configure and destroy a connection. A connection argument that may be NULL is an option.
\<close>

type_synonym con_ptr = "attachsql_connect_t option"

text \<open>What a call of the interface returns: its value, the caller's error and the connection.\<close>

type_synonym 'r call = "('r \<times> error_ptr \<times> con_ptr) option"

definition null_con :: "'r \<Rightarrow> int \<Rightarrow> string \<Rightarrow> string \<Rightarrow> error_ptr \<Rightarrow> 'r call" where
  "null_con r code sqlstate msg error = do { e \<leftarrow> null_error code sqlstate msg error; Some (r, e, None) }"

definition fail_with :: "'r \<Rightarrow> int \<Rightarrow> string \<Rightarrow> byte list \<Rightarrow> error_ptr \<Rightarrow> attachsql_connect_t \<Rightarrow> 'r call" where
  "fail_with r code sqlstate msg error con =
     do { (e, con) \<leftarrow> client_error code sqlstate msg error con; Some (r, e, Some con) }"

section \<open>The event loop\<close>

definition on_resolved :: "int \<Rightarrow> attachsql_connect_t \<Rightarrow> attachsql_connect_t" where
  "on_resolved status con =
     (if status < 0 then
        con\<lparr>con_status := ATTACHSQL_CON_STATUS_CONNECT_FAILED, local_errcode := ATTACHSQL_RET_DNS_ERROR,
            errmsg := text_array ATTACHSQL_ERROR_BUFFER_SIZE
                        (str ''DNS lookup failure: '' @ uv_err_name (lib con) status)\<rparr>
      else con)"

definition on_connect :: "int \<Rightarrow> attachsql_connect_t \<Rightarrow> attachsql_connect_t option" where
  "on_connect status con =
     (if status < 0 then
        Some (con\<lparr>local_errcode := ATTACHSQL_RET_CONNECT_ERROR, con_status := ATTACHSQL_CON_STATUS_CONNECT_FAILED,
                  errmsg := text_array ATTACHSQL_ERROR_BUFFER_SIZE
                              (str ''Connection failed: '' @ uv_err_name (lib con) status)\<rparr>)
      else do { con \<leftarrow> queue_push ATTACHSQL_PACKET_TYPE_HANDSHAKE con;
                Some (con\<lparr>stream_present := True\<rparr>) })"

text \<open>
  One event. Received bytes go where the allocation callback says, as many as fit, and the rest
  is read again; without any room libuv calls the read callback with \<open>UV_ENOBUFS\<close>, \<open>-105\<close>. Nothing
  is read from a stream that has been closed.
\<close>

definition receive :: "nat \<Rightarrow> byte list \<Rightarrow> attachsql_connect_t \<Rightarrow> (byte list \<times> attachsql_connect_t) option" where
  "receive suggested_size xs con =
     do { (room, con) \<leftarrow> on_alloc suggested_size con;
          if room = 0 then do { con \<leftarrow> attachsql_read_data_cb (- 105) con; Some ([], con) }
          else do { con \<leftarrow> uv_store (take room xs) con;
                    con \<leftarrow> attachsql_read_data_cb (int (length (take room xs))) con;
                    Some (drop room xs, con) } }"

lemma receive_less: "receive n xs con = Some (ys, con') \<Longrightarrow> xs \<noteq> [] \<Longrightarrow> length ys < length xs"
  by (auto simp: receive_def split: bind_splits if_splits)

function receive_all :: "nat \<Rightarrow> byte list \<Rightarrow> attachsql_connect_t \<Rightarrow> attachsql_connect_t option" where
  "receive_all n xs con =
     (if xs = [] \<or> stream_closed con then Some con
      else do { (ys, con') \<leftarrow> receive n xs con; receive_all n ys con' })"
  by pat_completeness auto
termination
  by (relation "measure (\<lambda>(n, xs, con). length xs)") (auto dest: receive_less)

declare receive_all.simps [simp del]

fun dispatch :: "uv_event \<Rightarrow> attachsql_connect_t \<Rightarrow> attachsql_connect_t option" where
  "dispatch (Resolved status) con = Some (on_resolved status con)"
| "dispatch (Connected status) con = on_connect status con"
| "dispatch (Received n xs) con = receive_all n xs con"
| "dispatch (ReadError n) con = (if stream_closed con then Some con else attachsql_read_data_cb n con)"
| "dispatch (Written status) con = on_write status con"
| "dispatch Checked con = attachsql_check_for_data_cb con"

fun dispatch_all :: "uv_event list \<Rightarrow> attachsql_connect_t \<Rightarrow> attachsql_connect_t option" where
  "dispatch_all [] con = Some con"
| "dispatch_all (e # es) con = do { con \<leftarrow> dispatch e con; dispatch_all es con }"

definition uv_run :: "attachsql_connect_t \<Rightarrow> attachsql_connect_t option" where
  "uv_run con =
     (case uv_events con of
        [] \<Rightarrow> Some con
      | batch # later \<Rightarrow> dispatch_all batch (con\<lparr>uv_events := later\<rparr>))"

text \<open>
  A pool runs the loop of its connections itself. Blocking until there is an event or not makes
  no difference to what one run delivers.
\<close>

definition attachsql_run_uv_loop :: "attachsql_connect_t \<Rightarrow> attachsql_connect_t option" where
  "attachsql_run_uv_loop con = (if con_pool con = None then uv_run con else Some con)"

section \<open>Connecting\<close>

definition attachsql_do_poll :: "attachsql_connect_t \<Rightarrow> (attachsql_con_status_t \<times> attachsql_connect_t) option" where
  "attachsql_do_poll con =
     (if con_status con \<in> {ATTACHSQL_CON_STATUS_NOT_CONNECTED, ATTACHSQL_CON_STATUS_CONNECT_FAILED,
                            ATTACHSQL_CON_STATUS_IDLE, ATTACHSQL_CON_STATUS_SSL_ERROR}
      then Some (con_status con, con)
      else do { con \<leftarrow> attachsql_run_uv_loop con; Some (con_status con, con) })"

text \<open>The loop of a connection without a pool; the object from \<open>new\<close> is used without a check.\<close>

definition loop_init :: "attachsql_connect_t \<Rightarrow> (int \<times> attachsql_connect_t) option" where
  "loop_init con =
     (if con_pool con \<noteq> None then Some (0, con)
      else let (ok, con) = alloc con
           in if \<not> ok then None
              else let (ret, con) = uv_call con in Some (ret, con\<lparr>loop_present := True\<rparr>))"

definition connect_failed :: "attachsql_ret_t \<Rightarrow> byte list \<Rightarrow> attachsql_connect_t \<Rightarrow> attachsql_connect_t" where
  "connect_failed code msg con =
     con\<lparr>local_errcode := code, errmsg := text_array ATTACHSQL_ERROR_BUFFER_SIZE msg,
         con_status := ATTACHSQL_CON_STATUS_CONNECT_FAILED\<rparr>"

definition start_connect :: "attachsql_connect_t \<Rightarrow> attachsql_connect_t option" where
  "start_connect con =
     (case opt_protocol con of
        ATTACHSQL_CON_PROTOCOL_TCP \<Rightarrow>
          let (ret, con) = uv_call con
          in if ret < 0 then
               Some (connect_failed ATTACHSQL_RET_DNS_ERROR
                       (str ''DNS lookup failure: '' @ uv_err_name (lib con) ret) con)
             else attachsql_run_uv_loop (con\<lparr>con_status := ATTACHSQL_CON_STATUS_CONNECTING\<rparr>)
      | ATTACHSQL_CON_PROTOCOL_UDS \<Rightarrow>
          attachsql_run_uv_loop (con\<lparr>con_status := ATTACHSQL_CON_STATUS_CONNECTING\<rparr>)
      | ATTACHSQL_CON_PROTOCOL_UNKNOWN \<Rightarrow> Some (con\<lparr>con_status := ATTACHSQL_CON_STATUS_CONNECT_FAILED\<rparr>))"

definition attachsql_do_connect :: "attachsql_connect_t \<Rightarrow> (attachsql_con_status_t \<times> attachsql_connect_t) option" where
  "attachsql_do_connect con =
     (if con_status con \<noteq> ATTACHSQL_CON_STATUS_NOT_CONNECTED then Some (con_status con, con)
      else do {
        (ret, con) \<leftarrow> loop_init con;
        if ret < 0 then
          do { let con = connect_failed ATTACHSQL_RET_OUT_OF_MEMORY_ERROR
                 (str ''Loop initialization failure, either out of memory or out of file descripitors (usually the latter)'') con;
               Some (con_status con, con) }
        else do {
          let con = (if opt_protocol con = ATTACHSQL_CON_PROTOCOL_UNKNOWN
                     then con\<lparr>opt_protocol := (if con_port con = 0 then ATTACHSQL_CON_PROTOCOL_UDS
                                               else ATTACHSQL_CON_PROTOCOL_TCP)\<rparr>
                     else con);
          con \<leftarrow> start_connect con;
          Some (con_status con, con) } })"

text \<open>A NULL connection is reported, and then dereferenced for the callback.\<close>

definition attachsql_connect :: "con_ptr \<Rightarrow> error_ptr \<Rightarrow> bool call" where
  "attachsql_connect c error =
     do { con \<leftarrow> c;
          (status, con) \<leftarrow> attachsql_do_connect con;
          case status of
            ATTACHSQL_CON_STATUS_PARAMETER_ERROR \<Rightarrow>
              do { (error, con) \<leftarrow> report_error ATTACHSQL_ERROR_CODE_PARAMETER ''22023'' (str ''Bad parameter'') error con;
                   Some (False, error, Some con) }
          | ATTACHSQL_CON_STATUS_NOT_CONNECTED \<Rightarrow> Some (True, error, Some con)
          | ATTACHSQL_CON_STATUS_CONNECTING \<Rightarrow> Some (True, error, Some con)
          | ATTACHSQL_CON_STATUS_CONNECT_FAILED \<Rightarrow>
              do { (error, con) \<leftarrow> report_connect_failed error con; Some (False, error, Some con) }
          | ATTACHSQL_CON_STATUS_BUSY \<Rightarrow> Some (False, error, Some con)
          | ATTACHSQL_CON_STATUS_IDLE \<Rightarrow>
              if command_status con = ATTACHSQL_COMMAND_STATUS_CONNECTED
              then do { con \<leftarrow> send_event ATTACHSQL_EVENT_CONNECTED error con; Some (True, error, Some con) }
              else Some (True, error, Some con)
          | ATTACHSQL_CON_STATUS_SSL_ERROR \<Rightarrow>
              do { (error, con) \<leftarrow> report_error ATTACHSQL_ERROR_CODE_SSL ''08000'' (errmsg con) error con;
                   Some (False, error, Some con) }
          | ATTACHSQL_CON_STATUS_NET_ERROR \<Rightarrow>
              do { (error, con) \<leftarrow> report_error ATTACHSQL_ERROR_CODE_SERVER_LOST ''08006'' (errmsg con) error con;
                   Some (False, error, Some con) } }"

text \<open>The build without OpenSSL; the switch has no case for the last option there.\<close>

definition attachsql_connect_set_option :: "con_ptr \<Rightarrow> attachsql_options_t \<Rightarrow> bool \<times> con_ptr" where
  "attachsql_connect_set_option c opt =
     (case c of
        None \<Rightarrow> (False, None)
      | Some con \<Rightarrow>
         (let flag = (\<lambda>bits. (True, Some (con\<lparr>client_capabilities := client_capabilities con OR bits\<rparr>)))
          in case opt of
            ATTACHSQL_OPTION_COMPRESS \<Rightarrow> flag ATTACHSQL_CAPABILITY_COMPRESS
          | ATTACHSQL_OPTION_FOUND_ROWS \<Rightarrow> flag ATTACHSQL_CAPABILITY_FOUND_ROWS
          | ATTACHSQL_OPTION_IGNORE_SIGPIPE \<Rightarrow> flag ATTACHSQL_CAPABILITY_IGNORE_SIGPIPE
          | ATTACHSQL_OPTION_INTERACTIVE \<Rightarrow> flag ATTACHSQL_CAPABILITY_INTERACTIVE
          | ATTACHSQL_OPTION_LOCAL_FILES \<Rightarrow> flag ATTACHSQL_CAPABILITY_LOCAL_FILES
          | ATTACHSQL_OPTION_MULTI_STATEMENTS \<Rightarrow> flag ATTACHSQL_CAPABILITY_MULTI_STATEMENTS
          | ATTACHSQL_OPTION_NO_SCHEMA \<Rightarrow> flag ATTACHSQL_CAPABILITY_NO_SCHEMA
          | ATTACHSQL_OPTION_SSL_NO_VERIFY \<Rightarrow> (False, Some con)
          | ATTACHSQL_OPTION_SEMI_BLOCKING \<Rightarrow> (True, Some (con\<lparr>opt_semi_block := True\<rparr>))
          | ATTACHSQL_OPTION_NONE \<Rightarrow> (False, Some con)))"

definition attachsql_connect_set_ssl :: "con_ptr \<Rightarrow> error_ptr \<Rightarrow> bool call" where
  "attachsql_connect_set_ssl c error =
     do { e \<leftarrow> null_error ATTACHSQL_ERROR_CODE_NO_SSL ''22023'' ''SSL support has not been compiled in'' error;
          Some (False, e, c) }"

section \<open>Creating and destroying\<close>

text \<open>
  \<open>uv_loop_close\<close> of a NULL loop has no result, and its outcome must be 0. With a pool the object
  stays until the pool frees it; otherwise it is gone.
\<close>

definition attachsql_connect_destroy :: "con_ptr \<Rightarrow> con_ptr option" where
  "attachsql_connect_destroy c =
     (case c of
        None \<Rightarrow> Some None
      | Some con \<Rightarrow>
          do { con \<leftarrow> (if in_query con then attachsql_query_close con else Some con);
               if con_pool con \<noteq> None then Some (Some con)
               else if \<not> loop_present con then None
               else let (ret, con) = uv_call con in if ret = 0 then Some None else None })"

text \<open>\<open>fresh\<close> is the object \<open>new\<close> delivers, with the constructor run.\<close>

definition attachsql_connect_create ::
  "attachsql_connect_t \<Rightarrow> byte list option \<Rightarrow> uint16 \<Rightarrow> byte list option \<Rightarrow> byte list option \<Rightarrow> byte list option
   \<Rightarrow> error_ptr \<Rightarrow> (error_ptr \<times> con_ptr) option" where
  "attachsql_connect_create fresh host port user pass schema error =
     (let (ok, con) = alloc fresh
      in if \<not> ok then
           do { e \<leftarrow> null_error ATTACHSQL_ERROR_CODE_ALLOC ''82100'' ''Allocation failure for connection object'' error;
                Some (e, None) }
         else do {
           let con = con\<lparr>con_host := host, con_port := port\<rparr>;
           let bad = (\<lambda>limit s. case s of None \<Rightarrow> True | Some xs \<Rightarrow> limit < length xs);
           let reject = (\<lambda>code msg con.
             do { (e, con) \<leftarrow> client_error ATTACHSQL_ERROR_CODE_PARAMETER ''22023'' (str msg) error
                    (con\<lparr>local_errcode := code, con_status := ATTACHSQL_CON_STATUS_PARAMETER_ERROR\<rparr>);
                  _ \<leftarrow> attachsql_connect_destroy (Some con);
                  Some (e, None) });
           if bad ATTACHSQL_MAX_USER_SIZE user then reject ATTACHSQL_RET_USER_TOO_LONG ''User name too long'' con
           else do {
             let con = con\<lparr>con_user := user, con_pass := pass\<rparr>;
             if bad ATTACHSQL_MAX_SCHEMA_SIZE schema then reject ATTACHSQL_RET_SCHEMA_TOO_LONG ''Schema too long'' con
             else Some (error, Some (con\<lparr>con_schema := schema\<rparr>)) } })"

text \<open>The accessors.\<close>

definition attachsql_connect_get_server_version :: "con_ptr \<Rightarrow> byte list option" where
  "attachsql_connect_get_server_version c = map_option server_version c"

definition attachsql_connect_get_connection_id :: "con_ptr \<Rightarrow> uint32" where
  "attachsql_connect_get_connection_id c = (case c of None \<Rightarrow> 0 | Some con \<Rightarrow> thread_id con)"

end
