(* ===== verification/Query_Text.thy ===== *)
theory Query_Text
  imports Ctypes
begin

text \<open>
  The text of a query, from \<open>src/query.cc\<close>: the two escaping routines and the loop of
  \<open>attachsql_query\<close> that replaces the question marks of a statement by its parameters. The locale
  \<open>quoting\<close> states what an escaping routine owes to the server's lexer; it is interpreted for both
  routines. The lexer works on single bytes, as the server does in a character set where the bytes
  of a quote and a backslash only ever stand for themselves.
\<close>

section \<open>Escaping\<close>

text \<open>The \<open>switch\<close> of \<open>attachsql_query_escape_data\<close>; 0 is the \<open>newchar\<close> that replaces nothing.\<close>

definition escape_newchar :: "byte \<Rightarrow> byte" where
  "escape_newchar c =
     (if c AND 0x80 = 0 then
        (if c = 0 then 0x30 else if c = 0x0A then 0x6E else if c = 0x0D then 0x72
         else if c = 0x1A then 0x5A else if c = 0x5C then 0x5C else if c = 0x27 then 0x27
         else if c = 0x22 then 0x22 else 0)
      else 0)"

fun attachsql_query_escape_data :: "block \<Rightarrow> nat \<Rightarrow> byte list \<Rightarrow> (block \<times> nat) option" where
  "attachsql_query_escape_data b p [] = Some (b, 0)"
| "attachsql_query_escape_data b p (c # data) =
     (let newchar = escape_newchar c
      in if newchar \<noteq> 0 then
           do { b \<leftarrow> blk_put b p 0x5C;
                b \<leftarrow> blk_put b (Suc p) newchar;
                (b, n) \<leftarrow> attachsql_query_escape_data b (Suc (Suc p)) data;
                Some (b, n + 2) }
         else
           do { b \<leftarrow> blk_put b p c;
                (b, n) \<leftarrow> attachsql_query_escape_data b (Suc p) data;
                Some (b, n + 1) })"

fun attachsql_query_no_backslash_escape_data :: "block \<Rightarrow> nat \<Rightarrow> byte list \<Rightarrow> (block \<times> nat) option" where
  "attachsql_query_no_backslash_escape_data b p [] = Some (b, 0)"
| "attachsql_query_no_backslash_escape_data b p (c # data) =
     (if c = 0x27 then
        do { b \<leftarrow> blk_put b p 0x27;
             b \<leftarrow> blk_put b (Suc p) c;
             (b, n) \<leftarrow> attachsql_query_no_backslash_escape_data b (Suc (Suc p)) data;
             Some (b, n + 2) }
      else
        do { b \<leftarrow> blk_put b p c;
             (b, n) \<leftarrow> attachsql_query_no_backslash_escape_data b (Suc p) data;
             Some (b, n + 1) })"

text \<open>The bytes the routines store.\<close>

definition esc1 :: "byte \<Rightarrow> byte list" where
  "esc1 c = (if escape_newchar c \<noteq> 0 then [0x5C, escape_newchar c] else [c])"

definition quo1 :: "byte \<Rightarrow> byte list" where
  "quo1 c = (if c = 0x27 then [0x27, 0x27] else [c])"

definition escaped :: "bool \<Rightarrow> byte list \<Rightarrow> byte list" where
  "escaped no_backslash data = concat (map (if no_backslash then quo1 else esc1) data)"

lemma escaped_simps [simp]:
  "escaped nb [] = []" "escaped nb (c # cs) = (if nb then quo1 c else esc1 c) @ escaped nb cs"
  by (simp_all add: escaped_def)

lemma escape_data_writes:
  "attachsql_query_escape_data b p data =
     do { b \<leftarrow> blk_write b p (escaped False data); Some (b, length (escaped False data)) }"
proof (induction data arbitrary: b p)
  case (Cons c data)
  then show ?case
    by (cases "blk_put b p c"; cases "blk_put b p 0x5C")
      (auto simp: esc1_def Let_def blk_put_def)
qed simp

lemma no_backslash_escape_data_writes:
  "attachsql_query_no_backslash_escape_data b p data =
     do { b \<leftarrow> blk_write b p (escaped True data); Some (b, length (escaped True data)) }"
proof (induction data arbitrary: b p)
  case (Cons c data)
  then show ?case by (auto simp: quo1_def blk_put_def)
qed simp

lemma escaped_length: "length data \<le> length (escaped nb data) \<and> length (escaped nb data) \<le> 2 * length data"
  by (induction data) (auto simp: esc1_def quo1_def)

section \<open>What the server reads back\<close>

text \<open>
  A string literal, from behind its opening quote: the value and what follows the closing quote.
  A doubled quote stands for a quote; a backslash, unless the server's mode takes it literally,
  starts an escape sequence.
\<close>

definition unescape1 :: "byte \<Rightarrow> byte" where
  "unescape1 c =
     (if c = 0x30 then 0 else if c = 0x6E then 0x0A else if c = 0x72 then 0x0D
      else if c = 0x5A then 0x1A else if c = 0x74 then 0x09 else if c = 0x62 then 0x08 else c)"

fun lex_literal :: "bool \<Rightarrow> byte list \<Rightarrow> (byte list \<times> byte list) option" where
  "lex_literal nb [] = None"
| "lex_literal nb (c # cs) =
     (if c = 0x27 then
        (case cs of
           c' # cs' \<Rightarrow> if c' = 0x27 then map_option (apfst ((#) 0x27)) (lex_literal nb cs')
                      else Some ([], cs)
         | [] \<Rightarrow> Some ([], cs))
      else if c = 0x5C \<and> \<not> nb then
        (case cs of
           c' # cs' \<Rightarrow> map_option (apfst ((#) (unescape1 c'))) (lex_literal nb cs')
         | [] \<Rightarrow> None)
      else map_option (apfst ((#) c)) (lex_literal nb cs))"

definition no_quote :: "byte list \<Rightarrow> bool" where
  "no_quote rest \<longleftrightarrow> (rest = [] \<or> hd rest \<noteq> 0x27)"

text \<open>
  What the server's lexer owes to each byte a routine stores, and to the closing quote; that it reads
  back all of the data follows from these laws.
\<close>

locale quoting =
  fixes quote1 :: "byte \<Rightarrow> byte list"
    and lex :: "byte list \<Rightarrow> (byte list \<times> byte list) option"
  assumes lex_byte: "lex (quote1 c @ xs) = map_option (apfst ((#) c)) (lex xs)"
    and lex_end: "no_quote rest \<Longrightarrow> lex (0x27 # rest) = Some ([], rest)"
begin

lemma lex_quoted:
  assumes "no_quote rest"
  shows "lex (concat (map quote1 data) @ 0x27 # rest) = Some (data, rest)"
proof (induction data)
  case Nil
  then show ?case using lex_end[OF assms] by simp
next
  case (Cons c data)
  then show ?case by (simp add: lex_byte)
qed

text \<open>No data ends the literal early, and different data are different literals.\<close>

lemma not_ended_early:
  "no_quote rest \<Longrightarrow> lex (concat (map quote1 data) @ 0x27 # rest) = Some (v, r) \<Longrightarrow> v = data \<and> r = rest"
  using lex_quoted by simp

lemma quote_inj: "concat (map quote1 d) = concat (map quote1 d') \<Longrightarrow> d = d'"
  by (metis lex_quoted no_quote_def Pair_inject option.inject)

text \<open>A whole list of literals, each followed by a separator that is not a quote.\<close>

fun literals :: "byte list list \<Rightarrow> byte \<Rightarrow> byte list" where
  "literals [] sep = []"
| "literals (d # ds) sep = 0x27 # concat (map quote1 d) @ 0x27 # sep # literals ds sep"

fun lex_literals :: "nat \<Rightarrow> byte list \<Rightarrow> byte list list option" where
  "lex_literals 0 xs = (if xs = [] then Some [] else None)"
| "lex_literals (Suc n) xs =
     (case xs of
        q # ys \<Rightarrow> if q = 0x27
          then (case lex ys of
                  Some (v, r) \<Rightarrow> (case r of s # r' \<Rightarrow> map_option ((#) v) (lex_literals n r') | [] \<Rightarrow> None)
                | None \<Rightarrow> None)
          else None
      | [] \<Rightarrow> None)"

lemma lex_literals: "sep \<noteq> 0x27 \<Longrightarrow> lex_literals (length ds) (literals ds sep) = Some ds"
  by (induction ds) (simp_all add: lex_quoted no_quote_def)

end

lemma lex_esc1:
  "lex_literal False (esc1 c @ xs) = map_option (apfst ((#) c)) (lex_literal False xs)"
proof (cases "escape_newchar c \<noteq> 0")
  case True
  then have "unescape1 (escape_newchar c) = c"
    by (auto simp: escape_newchar_def unescape1_def split: if_splits)
  then show ?thesis using True by (simp add: esc1_def)
next
  case False
  then have "c \<noteq> 0x27 \<and> c \<noteq> 0x5C" by (auto simp: escape_newchar_def)
  then show ?thesis using False by (simp add: esc1_def)
qed

lemma lex_quo1:
  "lex_literal True (quo1 c @ xs) = map_option (apfst ((#) c)) (lex_literal True xs)"
  by (auto simp: quo1_def)

lemma lex_close: "no_quote rest \<Longrightarrow> lex_literal nb (0x27 # rest) = Some ([], rest)"
  by (cases rest) (auto simp: no_quote_def)

interpretation mode: quoting "if nb then quo1 else esc1" "lex_literal nb" for nb
  by unfold_locales (simp_all add: lex_esc1 lex_quo1 lex_close del: lex_literal.simps)

lemma lex_escaped: "no_quote rest \<Longrightarrow> lex_literal nb (escaped nb data @ 0x27 # rest) = Some (data, rest)"
  unfolding escaped_def by (rule mode.lex_quoted)

section \<open>Numbers as text\<close>

text \<open>The conversions of \<open>sprintf\<close> the code uses: \<open>%u\<close>, \<open>%d\<close>, \<open>%PRIu64\<close>, \<open>%PRId64\<close> and \<open>%.nf\<close>.\<close>

function dec_digits :: "nat \<Rightarrow> byte list" where
  "dec_digits n = (if n < 10 then [0x30 + of_nat n] else dec_digits (n div 10) @ [0x30 + of_nat (n mod 10)])"
  by pat_completeness auto
termination by (relation "measure id") auto

declare dec_digits.simps [simp del]

definition dec_int :: "int \<Rightarrow> byte list" where
  "dec_int i = (if i < 0 then 0x2D # dec_digits (nat (- i)) else dec_digits (nat i))"

definition round_even :: "nat \<Rightarrow> nat \<Rightarrow> nat" where
  "round_even a b =
     (let q = a div b; r = a mod b in if b < 2 * r \<or> (2 * r = b \<and> odd q) then q + 1 else q)"

text \<open>
  An IEEE 754 number of \<open>ebits\<close> exponent and \<open>mbits\<close> fraction bits with \<open>prec\<close> digits after the
  point, rounded to nearest, ties to even.
\<close>

definition fp_text :: "nat \<Rightarrow> nat \<Rightarrow> nat \<Rightarrow> nat \<Rightarrow> byte list" where
  "fp_text prec mbits ebits w =
     (let sign = odd (w div 2 ^ (mbits + ebits));
          e = w div 2 ^ mbits mod 2 ^ ebits;
          f = w mod 2 ^ mbits;
          m = (if e = 0 then f else 2 ^ mbits + f);
          x = (if e = 0 then 1 else e);
          bias = 2 ^ (ebits - 1) - 1 + mbits;
          scaled = (if bias \<le> x then m * 2 ^ (x - bias) * 10 ^ prec
                    else round_even (m * 10 ^ prec) (2 ^ (bias - x)));
          frac = dec_digits (scaled mod 10 ^ prec)
      in (if sign then [0x2D] else []) @
         (if e = 2 ^ ebits - 1 then (if f = 0 then str ''inf'' else str ''nan'')
          else dec_digits (scaled div 10 ^ prec) @ [0x2E] @ replicate (prec - length frac) 0x30 @ frac))"

lemma dec_digits_length: "n < 10 ^ Suc k \<Longrightarrow> length (dec_digits n) \<le> Suc k"
proof (induction k arbitrary: n)
  case 0
  then show ?case by (simp add: dec_digits.simps)
next
  case (Suc k)
  show ?case
  proof (cases "n < 10")
    case False
    have "n div 10 < 10 ^ Suc k" using Suc(2) by (simp add: less_mult_imp_div_less mult.commute)
    then show ?thesis using Suc(1)[of "n div 10"] False by (simp add: dec_digits.simps[of n])
  qed (simp add: dec_digits.simps)
qed

lemma dec_digits_bound: "n < 10 ^ k \<Longrightarrow> 0 < k \<Longrightarrow> length (dec_digits n) \<le> k"
  using dec_digits_length[of n "k - 1"] by simp

section \<open>Replacing the question marks\<close>

abbreviation (input) FLOAT_MAX_LEN :: nat where "FLOAT_MAX_LEN \<equiv> 152"
abbreviation (input) DOUBLE_MAX_LEN :: nat where "DOUBLE_MAX_LEN \<equiv> 1077"

text \<open>A parameter; \<open>q_data\<close> is the object its \<open>data\<close> points to.\<close>

record attachsql_query_parameter_st =
  q_type :: attachsql_query_parameter_type_t
  q_data :: "byte list"
  q_length :: nat
  q_is_unsigned :: bool

definition object_bytes :: "byte list \<Rightarrow> nat \<Rightarrow> byte list option" where
  "object_bytes object n = (if n \<le> length object then Some (take n object) else None)"

text \<open>The first loop of \<open>attachsql_query\<close>: what a parameter adds to the size of the buffer.\<close>

definition param_size :: "attachsql_query_parameter_st \<Rightarrow> nat" where
  "param_size p =
     (case q_type p of
        ATTACHSQL_ESCAPE_TYPE_NONE \<Rightarrow> q_length p
      | ATTACHSQL_ESCAPE_TYPE_CHAR \<Rightarrow> q_length p * 2 + 2
      | ATTACHSQL_ESCAPE_TYPE_CHAR_LIKE \<Rightarrow> q_length p * 2
      | ATTACHSQL_ESCAPE_TYPE_INT \<Rightarrow> 10
      | ATTACHSQL_ESCAPE_TYPE_BIGINT \<Rightarrow> 20
      | ATTACHSQL_ESCAPE_TYPE_FLOAT \<Rightarrow> FLOAT_MAX_LEN
      | ATTACHSQL_ESCAPE_TYPE_DOUBLE \<Rightarrow> DOUBLE_MAX_LEN)"

fun params_size :: "attachsql_query_parameter_st list \<Rightarrow> nat \<Rightarrow> nat option" where
  "params_size parameters 0 = Some 0"
| "params_size [] (Suc count) = None"
| "params_size (p # parameters) (Suc count) =
     do { n \<leftarrow> params_size parameters count; Some (param_size p + n) }"

text \<open>\<open>sprintf\<close> and \<open>snprintf\<close> of a text: the NUL is stored too, the length returned is the full one.\<close>

definition c_sprintf :: "block \<Rightarrow> nat \<Rightarrow> byte list \<Rightarrow> (block \<times> nat) option" where
  "c_sprintf b p text = do { b \<leftarrow> blk_write b p (text @ [0]); Some (b, length text) }"

definition c_snprintf :: "block \<Rightarrow> nat \<Rightarrow> nat \<Rightarrow> byte list \<Rightarrow> (block \<times> nat) option" where
  "c_snprintf b p limit text =
     (if limit = 0 then Some (b, length text)
      else do { b \<leftarrow> blk_write b p (take (limit - 1) text @ [0]); Some (b, length text) })"

definition escape_call :: "bool \<Rightarrow> block \<Rightarrow> nat \<Rightarrow> byte list \<Rightarrow> (block \<times> nat) option" where
  "escape_call no_backslash b p data =
     (if no_backslash then attachsql_query_no_backslash_escape_data b p data
      else attachsql_query_escape_data b p data)"

text \<open>The \<open>switch\<close> of the second loop, from \<open>buffer_pos\<close> to the new \<open>buffer_pos\<close>.\<close>

definition put_param ::
  "bool \<Rightarrow> block \<Rightarrow> nat \<Rightarrow> attachsql_query_parameter_st \<Rightarrow> (block \<times> nat) option" where
  "put_param no_backslash b pos p =
     (case q_type p of
        ATTACHSQL_ESCAPE_TYPE_NONE \<Rightarrow>
          do { data \<leftarrow> object_bytes (q_data p) (q_length p);
               b \<leftarrow> blk_write b pos data; Some (b, pos + q_length p) }
      | ATTACHSQL_ESCAPE_TYPE_CHAR \<Rightarrow>
          do { b \<leftarrow> blk_put b pos 0x27;
               data \<leftarrow> object_bytes (q_data p) (q_length p);
               (b, n) \<leftarrow> escape_call no_backslash b (pos + 1) data;
               b \<leftarrow> blk_put b (pos + 1 + n) 0x27;
               Some (b, pos + 1 + n + 1) }
      | ATTACHSQL_ESCAPE_TYPE_CHAR_LIKE \<Rightarrow>
          do { data \<leftarrow> object_bytes (q_data p) (q_length p);
               (b, n) \<leftarrow> escape_call no_backslash b pos data;
               Some (b, pos + n) }
      | ATTACHSQL_ESCAPE_TYPE_INT \<Rightarrow>
          do { d \<leftarrow> object_bytes (q_data p) 4;
               (b, n) \<leftarrow> c_sprintf b pos
                 (if q_is_unsigned p then dec_int (uint (le_word d :: uint32))
                  else dec_int (sint (le_word d :: uint32)));
               Some (b, pos + n) }
      | ATTACHSQL_ESCAPE_TYPE_BIGINT \<Rightarrow>
          do { d \<leftarrow> object_bytes (q_data p) 8;
               (b, n) \<leftarrow> c_sprintf b pos
                 (if q_is_unsigned p then dec_int (sint (le_word d :: uint64))
                  else dec_int (uint (le_word d :: uint64)));
               Some (b, pos + n) }
      | ATTACHSQL_ESCAPE_TYPE_FLOAT \<Rightarrow>
          do { d \<leftarrow> object_bytes (q_data p) 4;
               (b, n) \<leftarrow> c_snprintf b pos FLOAT_MAX_LEN (fp_text 7 23 8 (unat (le_word d :: uint32)));
               Some (b, pos + n) }
      | ATTACHSQL_ESCAPE_TYPE_DOUBLE \<Rightarrow>
          do { d \<leftarrow> object_bytes (q_data p) 8;
               (b, n) \<leftarrow> c_snprintf b pos DOUBLE_MAX_LEN (fp_text 15 52 11 (unat (le_word d :: uint64)));
               Some (b, pos + n) })"

text \<open>
  The second loop. \<open>param\<close> is a 16-bit counter, never compared with the number of parameters;
  past the end of the parameters there is nothing to read.
\<close>

fun put_statement ::
  "bool \<Rightarrow> attachsql_query_parameter_st list \<Rightarrow> nat \<Rightarrow> block \<Rightarrow> nat \<Rightarrow> byte list \<Rightarrow> (block \<times> nat) option" where
  "put_statement no_backslash parameters param b pos [] = Some (b, pos)"
| "put_statement no_backslash parameters param b pos (c # statement) =
     (if c \<noteq> 0x3F then
        do { b \<leftarrow> blk_put b pos c;
             put_statement no_backslash parameters param b (pos + 1) statement }
      else if param < length parameters then
        do { (b, pos) \<leftarrow> put_param no_backslash b pos (parameters ! param);
             put_statement no_backslash parameters ((param + 1) mod 2 ^ 16) b pos statement }
      else None)"

text \<open>The buffer with the query, and its length; \<open>statement\<close> is the object of at least \<open>length\<close> bytes.\<close>

definition query_text ::
  "bool \<Rightarrow> byte list \<Rightarrow> nat \<Rightarrow> attachsql_query_parameter_st list \<Rightarrow> nat \<Rightarrow> (block \<times> nat) option" where
  "query_text no_backslash statement len parameters parameter_count =
     do { n \<leftarrow> params_size parameters parameter_count;
          text \<leftarrow> object_bytes statement len;
          put_statement no_backslash parameters 0 (blk_alloc (len + 1 + n)) 0 text }"

section \<open>The text that is built\<close>

definition param_ok :: "attachsql_query_parameter_st \<Rightarrow> bool" where
  "param_ok p \<longleftrightarrow>
     (case q_type p of
        ATTACHSQL_ESCAPE_TYPE_NONE \<Rightarrow> q_length p
      | ATTACHSQL_ESCAPE_TYPE_CHAR \<Rightarrow> q_length p
      | ATTACHSQL_ESCAPE_TYPE_CHAR_LIKE \<Rightarrow> q_length p
      | ATTACHSQL_ESCAPE_TYPE_INT \<Rightarrow> 4
      | ATTACHSQL_ESCAPE_TYPE_BIGINT \<Rightarrow> 8
      | ATTACHSQL_ESCAPE_TYPE_FLOAT \<Rightarrow> 4
      | ATTACHSQL_ESCAPE_TYPE_DOUBLE \<Rightarrow> 8) \<le> length (q_data p)"

definition param_text :: "bool \<Rightarrow> attachsql_query_parameter_st \<Rightarrow> byte list" where
  "param_text nb p =
     (case q_type p of
        ATTACHSQL_ESCAPE_TYPE_NONE \<Rightarrow> take (q_length p) (q_data p)
      | ATTACHSQL_ESCAPE_TYPE_CHAR \<Rightarrow> 0x27 # escaped nb (take (q_length p) (q_data p)) @ [0x27]
      | ATTACHSQL_ESCAPE_TYPE_CHAR_LIKE \<Rightarrow> escaped nb (take (q_length p) (q_data p))
      | ATTACHSQL_ESCAPE_TYPE_INT \<Rightarrow>
          (let v = le_word (take 4 (q_data p)) :: uint32
           in dec_int (if q_is_unsigned p then uint v else sint v))
      | ATTACHSQL_ESCAPE_TYPE_BIGINT \<Rightarrow>
          (let v = le_word (take 8 (q_data p)) :: uint64
           in dec_int (if q_is_unsigned p then sint v else uint v))
      | ATTACHSQL_ESCAPE_TYPE_FLOAT \<Rightarrow> fp_text 7 23 8 (unat (le_word (take 4 (q_data p)) :: uint32))
      | ATTACHSQL_ESCAPE_TYPE_DOUBLE \<Rightarrow> fp_text 15 52 11 (unat (le_word (take 8 (q_data p)) :: uint64)))"

fun query_of :: "bool \<Rightarrow> byte list \<Rightarrow> attachsql_query_parameter_st list \<Rightarrow> byte list" where
  "query_of nb [] ps = []"
| "query_of nb (c # cs) ps =
     (if c = 0x3F then (case ps of p # ps' \<Rightarrow> param_text nb p @ query_of nb cs ps' | [] \<Rightarrow> [])
      else c # query_of nb cs ps)"

text \<open>How much of the buffer a parameter may need: its text, and for a number the NUL behind it.\<close>

definition param_store :: "bool \<Rightarrow> attachsql_query_parameter_st \<Rightarrow> byte list" where
  "param_store nb p =
     (if q_type p \<in> {ATTACHSQL_ESCAPE_TYPE_NONE, ATTACHSQL_ESCAPE_TYPE_CHAR, ATTACHSQL_ESCAPE_TYPE_CHAR_LIKE}
      then param_text nb p else param_text nb p @ [0])"

lemma dec_int_length: "- (10 ^ k) < i \<Longrightarrow> i < 10 ^ k \<Longrightarrow> 0 < k \<Longrightarrow> length (dec_int i) \<le> Suc k"
proof -
  assume i: "- (10 ^ k) < i" "i < 10 ^ k" and k: "0 < k"
  have "nat \<bar>i\<bar> < 10 ^ k" using i by (simp add: nat_less_iff)
  from dec_digits_bound[OF this k] show ?thesis by (auto simp: dec_int_def)
qed

lemma uint32_text: "length (dec_int (uint (v :: uint32))) \<le> 11" "length (dec_int (sint (v :: uint32))) \<le> 11"
  using dec_int_length[of 10 "uint v"] dec_int_length[of 10 "sint v"] uint_bounded[of v]
    uint_ge_0[of v] sint_ge[of v] sint_lt[of v] by (auto simp del: uint_ge_0)

lemma uint64_text: "length (dec_int (uint (v :: uint64))) \<le> 21" "length (dec_int (sint (v :: uint64))) \<le> 21"
  using dec_int_length[of 20 "uint v"] dec_int_length[of 20 "sint v"] uint_bounded[of v]
    uint_ge_0[of v] sint_ge[of v] sint_lt[of v] by (auto simp del: uint_ge_0)

lemma round_even_le: "round_even a b \<le> a + 1"
  by (auto simp: round_even_def Let_def intro: le_SucI)

lemma fp_text_length:
  assumes big: "2 ^ (mbits + 1) * 2 ^ (2 ^ ebits - (2 ^ (ebits - 1) - 1 + mbits)) < (10 :: nat) ^ k"
    and pos: "0 < k" "0 < prec"
  shows "length (fp_text prec mbits ebits w) \<le> k + prec + 2"
proof -
  define e where "e = w div 2 ^ mbits mod 2 ^ ebits"
  define f where "f = w mod 2 ^ mbits"
  define m where "m = (if e = 0 then f else 2 ^ mbits + f)"
  define x where "x = (if e = 0 then 1 else e)"
  define bias :: nat where "bias = 2 ^ (ebits - 1) - 1 + mbits"
  define scaled where "scaled = (if bias \<le> x then m * 2 ^ (x - bias) * 10 ^ prec
                    else round_even (m * 10 ^ prec) (2 ^ (bias - x)))"
  have m: "m < 2 ^ (mbits + 1)"
  proof -
    have "f < 2 ^ mbits" by (simp add: f_def)
    then show ?thesis by (auto simp: m_def)
  qed
  have "x \<le> 2 ^ ebits" using mod_less_divisor[of "2 ^ ebits" "w div 2 ^ mbits"]
    by (auto simp: x_def e_def intro: less_imp_le)
  then have "(2::nat) ^ (x - bias) \<le> 2 ^ (2 ^ ebits - bias)" by (intro power_increasing) auto
  with m have "m * 2 ^ (x - bias) < 2 ^ (mbits + 1) * 2 ^ (2 ^ ebits - bias)"
    by (intro mult_less_le_imp_less) auto
  with big have b1: "m * 2 ^ (x - bias) < 10 ^ k" by (simp add: bias_def)
  have "(2::nat) ^ (mbits + 1) \<le> 2 ^ (mbits + 1) * 2 ^ (2 ^ ebits - bias)" by simp
  also have "\<dots> < 10 ^ k" using big by (simp add: bias_def)
  finally have b2: "m + 1 < 10 ^ k" using m by linarith
  have "scaled div 10 ^ prec < 10 ^ k"
  proof (cases "bias \<le> x")
    case True
    then show ?thesis using b1 by (simp add: scaled_def)
  next
    case False
    then have "scaled \<le> m * 10 ^ prec + 1" using round_even_le by (simp add: scaled_def)
    also have "\<dots> \<le> (m + 1) * 10 ^ prec" by simp
    finally have "scaled div 10 ^ prec \<le> m + 1"
      by (metis div_le_mono div_mult_self_is_m zero_less_numeral zero_less_power)
    then show ?thesis using b2 by simp
  qed
  then have l1: "length (dec_digits (scaled div 10 ^ prec)) \<le> k" using dec_digits_bound pos(1) by blast
  have l2: "length (dec_digits (scaled mod 10 ^ prec)) \<le> prec" using dec_digits_bound pos(2) by simp
  show ?thesis
    unfolding fp_text_def Let_def e_def[symmetric] f_def[symmetric] m_def[symmetric] x_def[symmetric]
      bias_def[symmetric] scaled_def[symmetric]
    using l1 l2 pos by (auto simp: str_def)
qed

lemma float_text: "length (fp_text 7 23 8 w) \<le> 49"
  using fp_text_length[of 23 8 40 7 w] by simp

lemma double_text: "length (fp_text 15 52 11 w) \<le> 327"
  using fp_text_length[of 52 11 310 15 w] by simp

lemma write_text: "p + length xs \<le> blk_size b \<Longrightarrow> \<exists>b'. blk_write b p xs = Some b' \<and> writes_at b p xs b'"
  using blk_write_total blk_write_writes_at by blast

lemma escape_call_ok:
  "pos + length (escaped nb d) \<le> blk_size b \<Longrightarrow>
   \<exists>b'. escape_call nb b pos d = Some (b', length (escaped nb d)) \<and> writes_at b pos (escaped nb d) b'"
  using write_text[of pos "escaped nb d" b]
  by (cases nb) (auto simp: escape_call_def escape_data_writes no_backslash_escape_data_writes)

lemma param_text_size:
  assumes "param_ok p" shows "length (param_text nb p) \<le> param_size p + 1"
proof -
  have "length (fp_text 7 23 8 w) \<le> 153" "length (fp_text 15 52 11 w) \<le> 1078" for w
    using float_text[of w] double_text[of w] by linarith+
  then show ?thesis
    using assms escaped_length[of "take (q_length p) (q_data p)" nb] uint32_text uint64_text
    by (cases "q_type p") (auto simp: param_ok_def param_text_def param_size_def Let_def)
qed

lemma put_char_ok:
  assumes "pos + length (escaped nb d) + 2 \<le> blk_size b"
  shows "\<exists>b'. do { b \<leftarrow> blk_put b pos 0x27; (b, n) \<leftarrow> escape_call nb b (pos + 1) d;
              b \<leftarrow> blk_put b (pos + 1 + n) 0x27; Some (b, pos + 1 + n + 1) } =
         Some (b', pos + length (0x27 # escaped nb d @ [0x27])) \<and>
         writes_at b pos (0x27 # escaped nb d @ [0x27]) b'"
proof -
  obtain b1 where b1: "blk_put b pos 0x27 = Some b1" "blk_size b1 = blk_size b"
    using assms blk_put_total[of pos b] by auto
  obtain b2 where b2: "escape_call nb b1 (pos + 1) d = Some (b2, length (escaped nb d))"
    "writes_at b1 (pos + 1) (escaped nb d) b2"
    using escape_call_ok[of "pos + 1" nb d b1] b1 assms by auto
  obtain b3 where b3: "blk_put b2 (pos + 1 + length (escaped nb d)) 0x27 = Some b3"
    using assms writes_at_size[OF b2(2)] b1(2) blk_put_total[of "pos + 1 + length (escaped nb d)" b2] by auto
  have "writes_at b pos ([0x27] @ escaped nb d) b2"
    using writes_at_append[OF blk_put_writes_at[OF b1(1)]] b2(2) by simp
  then have "writes_at b pos (([0x27] @ escaped nb d) @ [0x27]) b3"
    using writes_at_append blk_put_writes_at[OF b3] by fastforce
  then show ?thesis using b1 b2 b3 by simp
qed

lemma put_param_ok:
  assumes ok: "param_ok p" and sz: "pos + param_size p + 2 \<le> blk_size b"
  shows "\<exists>b'. put_param nb b pos p = Some (b', pos + length (param_text nb p)) \<and>
              writes_at b pos (param_store nb p) b'"
proof (cases "q_type p")
  case ATTACHSQL_ESCAPE_TYPE_NONE
  then show ?thesis using ok sz write_text[of pos "take (q_length p) (q_data p)" b]
    by (auto simp: put_param_def param_ok_def param_size_def param_text_def param_store_def
        object_bytes_def min_absorb2)
next
  case ATTACHSQL_ESCAPE_TYPE_CHAR
  then show ?thesis
    using ok sz put_char_ok[of pos nb "take (q_length p) (q_data p)" b]
      escaped_length[of "take (q_length p) (q_data p)" nb]
    by (auto simp: put_param_def param_ok_def param_size_def param_text_def param_store_def
        object_bytes_def min_absorb2 bind_Some_iff)
next
  case ATTACHSQL_ESCAPE_TYPE_CHAR_LIKE
  then show ?thesis
    using ok sz escape_call_ok[of pos nb "take (q_length p) (q_data p)" b]
      escaped_length[of "take (q_length p) (q_data p)" nb]
    by (auto simp: put_param_def param_ok_def param_size_def param_text_def param_store_def
        object_bytes_def min_absorb2)
next
  case ATTACHSQL_ESCAPE_TYPE_INT
  have "length (param_text nb p) \<le> 11" using ATTACHSQL_ESCAPE_TYPE_INT uint32_text
    by (simp add: param_text_def Let_def)
  with ATTACHSQL_ESCAPE_TYPE_INT sz obtain b' where
    "blk_write b pos (param_text nb p @ [0]) = Some b'" "writes_at b pos (param_text nb p @ [0]) b'"
    using write_text[of pos "param_text nb p @ [0]" b] by (auto simp: param_size_def)
  then show ?thesis using ok ATTACHSQL_ESCAPE_TYPE_INT
    by (simp add: put_param_def param_ok_def param_text_def param_store_def object_bytes_def
        c_sprintf_def Let_def split: if_splits)
next
  case ATTACHSQL_ESCAPE_TYPE_BIGINT
  have "length (param_text nb p) \<le> 21" using ATTACHSQL_ESCAPE_TYPE_BIGINT uint64_text
    by (simp add: param_text_def Let_def)
  with ATTACHSQL_ESCAPE_TYPE_BIGINT sz obtain b' where
    "blk_write b pos (param_text nb p @ [0]) = Some b'" "writes_at b pos (param_text nb p @ [0]) b'"
    using write_text[of pos "param_text nb p @ [0]" b] by (auto simp: param_size_def)
  then show ?thesis using ok ATTACHSQL_ESCAPE_TYPE_BIGINT
    by (simp add: put_param_def param_ok_def param_text_def param_store_def object_bytes_def
        c_sprintf_def Let_def split: if_splits)
next
  case ATTACHSQL_ESCAPE_TYPE_FLOAT
  have l: "length (param_text nb p) \<le> 49" using ATTACHSQL_ESCAPE_TYPE_FLOAT float_text
    by (simp add: param_text_def)
  with ATTACHSQL_ESCAPE_TYPE_FLOAT sz obtain b' where
    "blk_write b pos (param_text nb p @ [0]) = Some b'" "writes_at b pos (param_text nb p @ [0]) b'"
    using write_text[of pos "param_text nb p @ [0]" b] by (auto simp: param_size_def)
  then show ?thesis using ok ATTACHSQL_ESCAPE_TYPE_FLOAT l
    by (simp add: put_param_def param_ok_def param_text_def param_store_def object_bytes_def
        c_snprintf_def)
next
  case ATTACHSQL_ESCAPE_TYPE_DOUBLE
  have l: "length (param_text nb p) \<le> 327" using ATTACHSQL_ESCAPE_TYPE_DOUBLE double_text
    by (simp add: param_text_def)
  with ATTACHSQL_ESCAPE_TYPE_DOUBLE sz obtain b' where
    "blk_write b pos (param_text nb p @ [0]) = Some b'" "writes_at b pos (param_text nb p @ [0]) b'"
    using write_text[of pos "param_text nb p @ [0]" b] by (auto simp: param_size_def)
  then show ?thesis using ok ATTACHSQL_ESCAPE_TYPE_DOUBLE l
    by (simp add: put_param_def param_ok_def param_text_def param_store_def object_bytes_def
        c_snprintf_def)
qed

text \<open>The sizes of the parameters from one on, and the question marks left in a text.\<close>

definition questions :: "byte list \<Rightarrow> nat" where
  "questions text = length (filter ((=) 0x3F) text)"

lemma put_statement_ok:
  assumes "\<forall>p \<in> set ps. param_ok p" "length ps < 2 ^ 16" "i + questions st \<le> length ps"
    and "pos + length st + 1 + sum_list (map param_size (drop i ps)) \<le> blk_size b"
  shows "\<exists>b' q. put_statement nb ps i b pos st = Some (b', q) \<and>
     blk_has b' pos (query_of nb st (drop i ps)) \<and> q = pos + length (query_of nb st (drop i ps)) \<and>
     blk_size b' = blk_size b \<and> (\<forall>k < pos. blk_get b' k = blk_get b k)"
  using assms(3,4)
proof (induction st arbitrary: i b pos)
  case Nil
  then show ?case by simp
next
  case (Cons c st)
  show ?case
  proof (cases "c = 0x3F")
    case False
    obtain b1 where b1: "blk_put b pos c = Some b1" "blk_size b1 = blk_size b"
      using Cons.prems blk_put_total[of pos b c] by auto
    have "i + questions st \<le> length ps" using Cons.prems False by (simp add: questions_def)
    moreover have "Suc pos + length st + 1 + sum_list (map param_size (drop i ps)) \<le> blk_size b1"
      using Cons.prems b1 by simp
    ultimately obtain b' q where r: "put_statement nb ps i b1 (Suc pos) st = Some (b', q)"
      "blk_has b' (Suc pos) (query_of nb st (drop i ps))"
      "q = Suc pos + length (query_of nb st (drop i ps))"
      "blk_size b' = blk_size b1" "\<forall>k < Suc pos. blk_get b' k = blk_get b1 k"
      using Cons.IH[of i "Suc pos" b1] by blast
    then show ?thesis using False b1 blk_put_eq[OF b1(1)] by auto
  next
    case True
    have i: "i < length ps" "Suc i + questions st \<le> length ps"
      using Cons.prems True by (auto simp: questions_def)
    let ?p = "ps ! i"
    have d: "drop i ps = ?p # drop (Suc i) ps" using i(1) by (simp add: Cons_nth_drop_Suc)
    have ok: "param_ok ?p" using assms(1) i(1) by simp
    have sz: "pos + param_size ?p + 2 \<le> blk_size b" using Cons.prems(2) d by simp
    from put_param_ok[OF ok sz, of nb] obtain b1 where
      b1: "put_param nb b pos ?p = Some (b1, pos + length (param_text nb ?p))"
      and w: "writes_at b pos (param_store nb ?p) b1" by blast
    let ?pos = "pos + length (param_text nb ?p)"
    have tl: "length (param_text nb ?p) \<le> param_size ?p + 1" by (rule param_text_size[OF ok])
    have "?pos + length st + 1 + sum_list (map param_size (drop (Suc i) ps)) \<le> blk_size b1"
      using Cons.prems(2) d tl writes_at_size[OF w] by simp
    then obtain b' q where r: "put_statement nb ps (Suc i) b1 ?pos st = Some (b', q)"
      "blk_has b' ?pos (query_of nb st (drop (Suc i) ps))"
      "q = ?pos + length (query_of nb st (drop (Suc i) ps))"
      "blk_size b' = blk_size b1" "\<forall>k < ?pos. blk_get b' k = blk_get b1 k"
      using Cons.IH[of "Suc i" ?pos b1] i(2) by blast
    have "blk_has b1 pos (param_text nb ?p)"
      using writes_at_has[OF w] by (auto simp: param_store_def blk_has_append split: if_splits)
    then have "blk_has b' pos (param_text nb ?p)" using r(5) by (simp add: blk_has_nth)
    moreover have "\<forall>k < pos. blk_get b1 k = blk_get b k" using writes_at_get[OF w] by auto
    moreover have "(i + 1) mod 2 ^ 16 = Suc i" using i(1) assms(2) by simp
    ultimately show ?thesis using True i(1) b1 r d writes_at_size[OF w] by (auto simp: blk_has_append)
  qed
qed

lemma params_size_ok:
  "count \<le> length ps \<Longrightarrow> params_size ps count = Some (sum_list (map param_size (take count ps)))"
  by (induction ps count rule: params_size.induct) auto

lemma query_text_ok:
  assumes "\<forall>p \<in> set ps. param_ok p" "length ps < 2 ^ 16" "len \<le> length statement"
    and "questions (take len statement) \<le> length ps"
  shows "\<exists>b. query_text nb statement len ps (length ps) =
       Some (b, length (query_of nb (take len statement) ps)) \<and>
     blk_has b 0 (query_of nb (take len statement) ps)"
proof -
  let ?b = "blk_alloc (len + 1 + sum_list (map param_size ps))"
  have "0 + length (take len statement) + 1 + sum_list (map param_size (drop 0 ps)) \<le> blk_size ?b"
    by simp
  from put_statement_ok[OF assms(1,2) _ this, of nb] assms(4) obtain b' where
    "put_statement nb ps 0 ?b 0 (take len statement) =
       Some (b', length (query_of nb (take len statement) ps))"
    "blk_has b' 0 (query_of nb (take len statement) ps)" by auto
  then show ?thesis using assms(3) params_size_ok[of "length ps" ps]
    by (simp add: query_text_def object_bytes_def)
qed

section \<open>The text the documentation promises\<close>

text \<open>
  A parameter as \<open>docs/api/types.rst\<close> describes it: an integer is the number its object holds, read
  as \<open>is_unsigned\<close> says.
\<close>

definition documented_text :: "bool \<Rightarrow> attachsql_query_parameter_st \<Rightarrow> byte list" where
  "documented_text nb p =
     (let data = take (q_length p) (q_data p);
          u32 = le_word (take 4 (q_data p)) :: uint32;
          u64 = le_word (take 8 (q_data p)) :: uint64
      in case q_type p of
           ATTACHSQL_ESCAPE_TYPE_NONE \<Rightarrow> data
         | ATTACHSQL_ESCAPE_TYPE_CHAR \<Rightarrow> [0x27] @ escaped nb data @ [0x27]
         | ATTACHSQL_ESCAPE_TYPE_CHAR_LIKE \<Rightarrow> escaped nb data
         | ATTACHSQL_ESCAPE_TYPE_INT \<Rightarrow> dec_int (if q_is_unsigned p then uint u32 else sint u32)
         | ATTACHSQL_ESCAPE_TYPE_BIGINT \<Rightarrow> dec_int (if q_is_unsigned p then uint u64 else sint u64)
         | ATTACHSQL_ESCAPE_TYPE_FLOAT \<Rightarrow> fp_text 7 23 8 (unat u32)
         | ATTACHSQL_ESCAPE_TYPE_DOUBLE \<Rightarrow> fp_text 15 52 11 (unat u64))"

text \<open>The statement cut at its question marks, with a parameter in each cut.\<close>

fun documented_query :: "bool \<Rightarrow> byte list \<Rightarrow> attachsql_query_parameter_st list \<Rightarrow> byte list" where
  "documented_query nb statement [] = takeWhile ((\<noteq>) 0x3F) statement"
| "documented_query nb statement (p # ps) =
     takeWhile ((\<noteq>) 0x3F) statement @
     (case dropWhile ((\<noteq>) 0x3F) statement of
        [] \<Rightarrow> [] | _ # rest \<Rightarrow> documented_text nb p @ documented_query nb rest ps)"

text \<open>The top bit of a 64-bit integer, where its signed and its unsigned reading differ.\<close>

definition bigint_top_bit :: "attachsql_query_parameter_st \<Rightarrow> bool" where
  "bigint_top_bit p \<longleftrightarrow> q_type p = ATTACHSQL_ESCAPE_TYPE_BIGINT \<and> 2 ^ 63 \<le> (le_word (take 8 (q_data p)) :: uint64)"

lemma signed_below_top: "(w :: uint64) < 2 ^ 63 \<Longrightarrow> sint w = uint w"
  using signed_take_bit_int_eq_self[of 63 "uint w"] order_trans[OF _ uint_ge_0[of w], of "- (2 ^ 63)"]
  by (simp add: word_less_def sint_uint)

lemma documented_param:
  assumes "\<not> bigint_top_bit p" shows "param_text nb p = documented_text nb p"
proof (cases "q_type p")
  case ATTACHSQL_ESCAPE_TYPE_BIGINT
  then have "(le_word (take 8 (q_data p)) :: uint64) < 2 ^ 63" using assms by (simp add: bigint_top_bit_def not_le)
  then show ?thesis using ATTACHSQL_ESCAPE_TYPE_BIGINT signed_below_top
    by (simp add: param_text_def documented_text_def Let_def)
qed (simp_all add: param_text_def documented_text_def Let_def)

lemma documented_query_Cons:
  "documented_query nb (c # cs) ps =
     (if c = 0x3F then (case ps of p # ps' \<Rightarrow> documented_text nb p @ documented_query nb cs ps' | [] \<Rightarrow> [])
      else c # documented_query nb cs ps)"
  by (cases ps) auto

lemma documented_statement:
  assumes "\<forall>p \<in> set ps. \<not> bigint_top_bit p" shows "query_of nb st ps = documented_query nb st ps"
  using assms
proof (induction st arbitrary: ps)
  case Nil
  then show ?case by (cases ps) simp_all
next
  case (Cons c cs)
  then show ?case by (cases ps) (simp_all add: documented_query_Cons documented_param del: documented_query.simps)
qed

lemma query_of_append:
  "questions before \<le> length ps \<Longrightarrow>
   query_of nb (before @ after) ps = query_of nb before ps @ query_of nb after (drop (questions before) ps)"
proof (induction before arbitrary: ps)
  case (Cons c cs)
  then show ?case by (cases ps) (auto simp: questions_def)
qed (simp add: questions_def)

section \<open>Properties\<close>

text \<open>
  C12. With as many valid parameters as question marks, or more, the buffer computed by the first
  loop of \<open>attachsql_query\<close> is large enough for the second: no store leaves it, and no parameter beyond
  the last is read. The text is the statement with each question mark replaced by its parameter as
  documented, except that a \<open>BIGINT\<close> with its top bit set, whose two readings the code exchanges
  (\<open>bigint_formats_swapped\<close>), is excluded.
\<close>

theorem query_text_built:
  assumes "\<forall>p \<in> set ps. param_ok p" "length ps < 2 ^ 16" "len \<le> length statement"
    and "questions (take len statement) \<le> length ps"
  shows "\<exists>b text. query_text nb statement len ps (length ps) = Some (b, length text) \<and> blk_has b 0 text \<and>
    ((\<forall>p \<in> set ps. \<not> bigint_top_bit p) \<longrightarrow> text = documented_query nb (take len statement) ps)"
  using query_text_ok[OF assms, of nb] documented_statement[of ps nb "take len statement"] by metis

definition sample_params :: "attachsql_query_parameter_st list" where
  "sample_params =
     [\<lparr>q_type = ATTACHSQL_ESCAPE_TYPE_CHAR, q_data = [0x61, 0x27, 0x0A], q_length = 3, q_is_unsigned = False\<rparr>,
      \<lparr>q_type = ATTACHSQL_ESCAPE_TYPE_INT, q_data = [0xF9, 0xFF, 0xFF, 0xFF], q_length = 4,
       q_is_unsigned = False\<rparr>]"

lemma sample_length: "length sample_params = 2"
  by (simp add: sample_params_def)

theorem query_text_built_witness:
  "\<exists>b q. q = [0x28, 0x27, 0x61, 0x5C, 0x27, 0x5C, 0x6E, 0x27, 0x2C, 0x2D, 0x37, 0x29] \<and>
     query_text False [0x28, 0x3F, 0x2C, 0x3F, 0x29] 5 sample_params 2 = Some (b, length q) \<and>
     blk_has b 0 q"
proof -
  let ?st = "[0x28, 0x3F, 0x2C, 0x3F, 0x29]"
  let ?q = "[0x28, 0x27, 0x61, 0x5C, 0x27, 0x5C, 0x6E, 0x27, 0x2C, 0x2D, 0x37, 0x29]"
  have q: "documented_query False (take 5 ?st) sample_params = ?q"
    by (simp add: sample_params_def documented_text_def esc1_def escape_newchar_def dec_int_def
        dec_digits.simps Let_def)
  have ok: "\<forall>p \<in> set sample_params. param_ok p" "\<forall>p \<in> set sample_params. \<not> bigint_top_bit p"
    by (simp_all add: sample_params_def param_ok_def bigint_top_bit_def)
  have n: "questions (take 5 ?st) \<le> length sample_params"
    by (simp add: questions_def sample_length)
  show ?thesis
    using query_text_built[OF ok(1) _ _ n, of False, unfolded q sample_length] ok(2) by auto
qed



text \<open>
  A statement with more question marks than parameters makes the loop read beyond the
  parameter array.
\<close>

theorem query_text_missing_parameter:
  assumes "length ps < questions (take len statement)" "length ps < 2 ^ 16"
  shows "query_text nb statement len ps (length ps) = None"
proof -
  have "put_statement nb ps i b pos st = None" if "length ps < i + questions st" "i \<le> length ps"
    for i b pos st
    using that
  proof (induction st arbitrary: i b pos)
    case (Cons c st)
    then show ?case using assms(2)
      by (auto simp: questions_def Option.bind_eq_None_conv split: prod.split)
  qed (simp add: questions_def)
  from this[of 0 "take len statement"] assms(1) show ?thesis
    by (auto simp: query_text_def object_bytes_def Option.bind_eq_None_conv)
qed

theorem query_text_missing_parameter_witness:
  "query_text False [0x3F, 0x3F, 0x3F] 3 sample_params 2 = None"
proof -
  have "2 < questions [0x3F, 0x3F, 0x3F]" by (simp add: questions_def)
  then show ?thesis
    using query_text_missing_parameter[of sample_params 3 "[0x3F, 0x3F, 0x3F]" False]
    by (simp add: sample_length)
qed

text \<open>
  The formats of the 64-bit integers are exchanged: an unsigned value is printed as the
  signed value with the same bits and the other way round.
\<close>

theorem bigint_formats_swapped:
  assumes "q_type p = ATTACHSQL_ESCAPE_TYPE_BIGINT" "take 8 (q_data p) = le_bytes 8 (v :: uint64)"
  shows "param_text nb p = dec_int (if q_is_unsigned p then sint v else uint v)"
  using assms le_word_le_bytes_full[of 8 v] by (simp add: param_text_def Let_def)

theorem bigint_formats_swapped_witness:
  "param_text False \<lparr>q_type = ATTACHSQL_ESCAPE_TYPE_BIGINT, q_data = le_bytes 8 (- 1 :: uint64),
     q_length = 8, q_is_unsigned = True\<rparr> = [0x2D, 0x31]"
  using bigint_formats_swapped[of "\<lparr>q_type = ATTACHSQL_ESCAPE_TYPE_BIGINT,
     q_data = le_bytes 8 (- 1 :: uint64), q_length = 8, q_is_unsigned = True\<rparr>" "- 1" False]
  by (simp add: dec_int_def dec_digits.simps)

end
