(* ===== verification/Statement.thy ===== *)
theory Statement
  imports Connect Query_Text
begin

text \<open>
  Prepared statements, \<open>src/statement.cc\<close>: prepare, execute, reset and close. \<open>stmt->con\<close> is the
  connection that owns the statement, so the routines on a statement are stated on the connection.
  A parameter's value is read through the member of the union it was stored through; any other
  member would be another type's bytes, and has no result here.
\<close>

section \<open>The execute buffer\<close>

definition set_stmt :: "(attachsql_stmt_st \<Rightarrow> attachsql_stmt_st) \<Rightarrow> 'a con_core_scheme \<Rightarrow> 'a con_core_scheme option" where
  "set_stmt f con = do { stmt \<leftarrow> con_stmt con; Some (con\<lparr>con_stmt := Some (f stmt)\<rparr>) }"

text \<open>The buffer is doubled once when it is smaller than what is asked for, not than what is needed.\<close>

definition attachsql_stmt_check_buffer_size :: "nat \<Rightarrow> 'a con_core_scheme \<Rightarrow> (bool \<times> 'a con_core_scheme) option" where
  "attachsql_stmt_check_buffer_size required con =
     do { stmt \<leftarrow> con_stmt con;
          if exec_buffer_length stmt < required then
            let new_size = (if exec_buffer_length stmt = 0 then ATTACHSQL_STMT_EXEC_DEFAULT_SIZE
                            else exec_buffer_length stmt * 2);
                (ok, con) = alloc con
            in if ok then
                 Some (True, con\<lparr>con_stmt := Some (stmt\<lparr>
                   exec_buffer := Some (case exec_buffer stmt of None \<Rightarrow> blk_alloc new_size
                                        | Some b \<Rightarrow> blk_realloc b new_size),
                   exec_buffer_length := new_size\<rparr>)\<rparr>)
               else Some (False, send_failed ATTACHSQL_RET_OUT_OF_MEMORY_ERROR con)
          else Some (True, con) }"

text \<open>Storing into the buffer at an offset; what the stores return is passed on.\<close>

definition in_exec_buffer :: "(block \<Rightarrow> (block \<times> 'r) option) \<Rightarrow> 'a con_core_scheme \<Rightarrow> ('r \<times> 'a con_core_scheme) option" where
  "in_exec_buffer f con =
     do { stmt \<leftarrow> con_stmt con;
          b \<leftarrow> exec_buffer stmt;
          (b, r) \<leftarrow> f b;
          Some (r, con\<lparr>con_stmt := Some (stmt\<lparr>exec_buffer := Some b\<rparr>)\<rparr>) }"

section \<open>Execute\<close>

definition param_at :: "attachsql_stmt_st \<Rightarrow> nat \<Rightarrow> attachsql_stmt_param_st option" where
  "param_at stmt i = do { ps \<leftarrow> param_data stmt; if i < length ps then Some (ps ! i) else None }"

text \<open>The bits of the NULL parameters, and how many of the others there are, a \<open>uint16_t\<close>.\<close>

fun null_bits :: "attachsql_stmt_st \<Rightarrow> nat \<Rightarrow> nat list \<Rightarrow> uint16 \<Rightarrow> block \<Rightarrow> (block \<times> uint16) option" where
  "null_bits stmt pos [] count b = Some (b, count)"
| "null_bits stmt pos (i # is) count b =
     do { p \<leftarrow> param_at stmt i;
          if param_type p = ATTACHSQL_COLUMN_TYPE_NULL then
            do { x \<leftarrow> blk_get b (pos + i div 8);
                 b \<leftarrow> blk_put b (pos + i div 8) (x OR push_bit (i mod 8) 1);
                 null_bits stmt pos is (count - 1) b }
          else null_bits stmt pos is count b }"

text \<open>Everything before the parameters: the position behind it, and the number of types that follow.\<close>

definition exec_head :: "attachsql_stmt_st \<Rightarrow> block \<Rightarrow> (block \<times> nat \<times> uint16) option" where
  "exec_head stmt b =
     do { b \<leftarrow> attachsql_pack_int4 b 0 (stmt_id stmt);
          b \<leftarrow> blk_put b 4 ATTACHSQL_STMT_CURSOR_NONE;
          b \<leftarrow> attachsql_pack_int4 b 5 (1 :: uint32);
          (b, pos, count) \<leftarrow>
            (if 0 < param_count stmt then
               do { let null_bytes = (unat (param_count stmt) + 7) div 8;
                    b \<leftarrow> blk_write b 9 (replicate null_bytes 0);
                    (b, count) \<leftarrow> null_bits stmt 9 [0..<unat (param_count stmt)] (param_count stmt) b;
                    Some (b, 9 + null_bytes, count) }
             else Some (b, 9, 0));
          b \<leftarrow> blk_put b pos (if new_bind stmt then 1 else 0);
          Some (b, pos + 1, count) }"

text \<open>\<open>sizeof(attachsql_datetime_st)\<close>.\<close>

abbreviation (input) DATETIME_SIZE :: nat where "DATETIME_SIZE \<equiv> 20"

definition string_type :: "attachsql_column_type_t \<Rightarrow> bool" where
  "string_type t \<longleftrightarrow> t \<in> {ATTACHSQL_COLUMN_TYPE_STRING, ATTACHSQL_COLUMN_TYPE_BLOB}"

definition fixed_type :: "attachsql_column_type_t \<Rightarrow> bool" where
  "fixed_type t \<longleftrightarrow> t \<in> {ATTACHSQL_COLUMN_TYPE_TINY, ATTACHSQL_COLUMN_TYPE_SHORT, ATTACHSQL_COLUMN_TYPE_LONG,
     ATTACHSQL_COLUMN_TYPE_LONGLONG, ATTACHSQL_COLUMN_TYPE_FLOAT, ATTACHSQL_COLUMN_TYPE_DOUBLE,
     ATTACHSQL_COLUMN_TYPE_TIME, ATTACHSQL_COLUMN_TYPE_DATE, ATTACHSQL_COLUMN_TYPE_DATETIME,
     ATTACHSQL_COLUMN_TYPE_TIMESTAMP}"

definition put_value :: "attachsql_stmt_param_st \<Rightarrow> nat \<Rightarrow> block \<Rightarrow> (block \<times> nat) option" where
  "put_value p pos b =
     (case param_value p of
        TinyintData v \<Rightarrow> if param_type p = ATTACHSQL_COLUMN_TYPE_TINY
          then do { b \<leftarrow> blk_put b pos v; Some (b, pos + 1) } else None
      | SmallintData v \<Rightarrow> if param_type p = ATTACHSQL_COLUMN_TYPE_SHORT
          then do { b \<leftarrow> attachsql_pack_int2 b pos v; Some (b, pos + 2) } else None
      | IntData v \<Rightarrow> if param_type p = ATTACHSQL_COLUMN_TYPE_LONG
          then do { b \<leftarrow> attachsql_pack_int4 b pos v; Some (b, pos + 4) } else None
      | BigintData v \<Rightarrow> if param_type p = ATTACHSQL_COLUMN_TYPE_LONGLONG
          then do { b \<leftarrow> attachsql_pack_int8 b pos v; Some (b, pos + 8) } else None
      | FloatData v \<Rightarrow> if param_type p = ATTACHSQL_COLUMN_TYPE_FLOAT
          then do { b \<leftarrow> blk_write b pos (le_bytes 4 v); Some (b, pos + 4) } else None
      | DoubleData v \<Rightarrow> if param_type p = ATTACHSQL_COLUMN_TYPE_DOUBLE
          then do { b \<leftarrow> blk_write b pos (le_bytes 8 v); Some (b, pos + 8) } else None
      | DatetimeData dt \<Rightarrow>
          do { t \<leftarrow> dt;
               if param_type p = ATTACHSQL_COLUMN_TYPE_TIME then attachsql_pack_time b pos t
               else if param_type p = ATTACHSQL_COLUMN_TYPE_DATE then attachsql_pack_datetime b pos t True
               else if param_type p \<in> {ATTACHSQL_COLUMN_TYPE_DATETIME, ATTACHSQL_COLUMN_TYPE_TIMESTAMP}
               then attachsql_pack_datetime b pos t False
               else None }
      | StringData s \<Rightarrow>
          if string_type (param_type p) then
            attachsql_pack_data b pos (of_nat (param_length p)) (case s of Some xs \<Rightarrow> xs | None \<Rightarrow> [])
          else None
      | NoData \<Rightarrow> None)"

definition type_word :: "attachsql_stmt_param_st \<Rightarrow> uint16" where
  "type_word p = (if is_unsigned p then column_type_code (param_type p) OR ATTACHSQL_STMT_PARAM_UNSIGNED_BIT
                  else column_type_code (param_type p))"

text \<open>
  One turn of the loop: the new position, or none when the function returns false. The type goes
  to the slot of the parameter's own number.
\<close>

definition bind_param ::
  "nat \<Rightarrow> nat \<Rightarrow> nat \<Rightarrow> 'a con_core_scheme \<Rightarrow> (nat option \<times> 'a con_core_scheme) option" where
  "bind_param type_pos i pos con =
     do { stmt \<leftarrow> con_stmt con;
          p \<leftarrow> param_at stmt i;
          if param_type p = ATTACHSQL_COLUMN_TYPE_NULL then Some (Some pos, con)
          else do {
            (_, con) \<leftarrow> in_exec_buffer (\<lambda>b. map_option (\<lambda>b. (b, ())) (attachsql_pack_int2 b (type_pos + i * 2) (type_word p))) con;
            if is_long_data p then Some (Some pos, con)
            else do {
              (ok, con) \<leftarrow> attachsql_stmt_check_buffer_size DATETIME_SIZE con;
              if \<not> ok then Some (None, con)
              else if string_type (param_type p) then
                do { (ok, con) \<leftarrow> attachsql_stmt_check_buffer_size (param_length p) con;
                     if \<not> ok then Some (None, con)
                     else do { (pos, con) \<leftarrow> in_exec_buffer (put_value p pos) con; Some (Some pos, con) } }
              else if fixed_type (param_type p) then
                do { (pos, con) \<leftarrow> in_exec_buffer (put_value p pos) con; Some (Some pos, con) }
              else Some (None, send_failed ATTACHSQL_RET_BAD_STMT_PARAMETER con) } } }"

fun bind_params ::
  "nat \<Rightarrow> nat list \<Rightarrow> nat \<Rightarrow> 'a con_core_scheme \<Rightarrow> (nat option \<times> 'a con_core_scheme) option" where
  "bind_params type_pos [] pos con = Some (Some pos, con)"
| "bind_params type_pos (i # is) pos con =
     do { (r, con) \<leftarrow> bind_param type_pos i pos con;
          case r of None \<Rightarrow> Some (None, con) | Some pos \<Rightarrow> bind_params type_pos is pos con }"

definition attachsql_stmt_execute :: "'a con_core_scheme \<Rightarrow> (bool \<times> 'a con_core_scheme) option" where
  "attachsql_stmt_execute con =
     do { (ok, con) \<leftarrow> attachsql_stmt_check_buffer_size 2060 con;
          if \<not> ok then Some (False, con)
          else do {
            stmt \<leftarrow> con_stmt con;
            ((type_pos, count), con) \<leftarrow> in_exec_buffer (exec_head stmt) con;
            (r, con) \<leftarrow> bind_params type_pos [0..<unat (param_count stmt)] (type_pos + unat count * 2) con;
            case r of
              None \<Rightarrow> Some (False, con)
            | Some pos \<Rightarrow>
                do { stmt \<leftarrow> con_stmt con;
                     b \<leftarrow> exec_buffer stmt;
                     data \<leftarrow> blk_read b 0 pos;
                     (st, con) \<leftarrow> attachsql_command_send ATTACHSQL_COMMAND_STMT_EXECUTE data con;
                     Some (st = ATTACHSQL_COMMAND_STATUS_SEND, con) } } }"

definition attachsql_statement_execute :: "con_ptr \<Rightarrow> error_ptr \<Rightarrow> bool call" where
  "attachsql_statement_execute c error =
     (case c of
        None \<Rightarrow> null_con False ATTACHSQL_ERROR_CODE_PARAMETER ''22023'' ''No connection provided'' error
      | Some con \<Rightarrow>
          if con_stmt con = None then
            fail_with False ATTACHSQL_ERROR_CODE_PARAMETER ''22023'' (str ''No statement prepared'') error con
          else do {
            (ok, con) \<leftarrow> attachsql_stmt_execute (attachsql_command_free con);
            if ok then Some (True, error, Some con)
            else if local_errcode con = ATTACHSQL_RET_BAD_STMT_PARAMETER then
              fail_with False ATTACHSQL_ERROR_CODE_PARAMETER ''22023'' (str ''Bad parameter bound to statement'') error con
            else fail_with False ATTACHSQL_ERROR_CODE_ALLOC ''82100'' (str ''Allocation failure for statement object'') error con })"

section \<open>Prepare, close, reset\<close>

text \<open>The connection is used without a check for NULL; \<open>statement\<close> is the text of \<open>len\<close> bytes or more.\<close>

definition attachsql_statement_prepare :: "attachsql_connect_t \<Rightarrow> nat \<Rightarrow> byte list \<Rightarrow> error_ptr \<Rightarrow> bool call" where
  "attachsql_statement_prepare con len statement error =
     (if con_status con = ATTACHSQL_CON_STATUS_NOT_CONNECTED then
        attachsql_connect (Some (con\<lparr>query_buffer := Some (blk_of statement), query_buffer_length := len,
                                    query_buffer_alloc := False, query_buffer_statement := True\<rparr>)) error
      else
        let (ok, con) = alloc con
        in if \<not> ok then
             fail_with False ATTACHSQL_ERROR_CODE_ALLOC ''82100'' (str ''Allocation failure for statement object'') error
               (con\<lparr>con_stmt := None, local_errcode := ATTACHSQL_RET_OUT_OF_MEMORY_ERROR,
                    command_status := ATTACHSQL_COMMAND_STATUS_SEND_FAILED\<rparr>)
           else do {
             text \<leftarrow> object_bytes statement len;
             (_, con) \<leftarrow> attachsql_command_send ATTACHSQL_COMMAND_STMT_PREPARE text (con\<lparr>con_stmt := Some stmt_init\<rparr>);
             Some (True, error, Some con) })"

text \<open>What is deleted must have been allocated: the date of each parameter marked so.\<close>

definition param_freed :: "attachsql_stmt_param_st \<Rightarrow> bool" where
  "param_freed p \<longleftrightarrow> (datetime_alloc p \<longrightarrow> (case param_value p of DatetimeData _ \<Rightarrow> True | _ \<Rightarrow> False))"

definition params_freed :: "attachsql_stmt_st \<Rightarrow> bool" where
  "params_freed stmt \<longleftrightarrow>
     (case param_data stmt of
        None \<Rightarrow> True
      | Some ps \<Rightarrow> unat (param_count stmt) \<le> length ps \<and> list_all param_freed (take (unat (param_count stmt)) ps))"

definition attachsql_statement_close :: "con_ptr \<Rightarrow> con_ptr option" where
  "attachsql_statement_close c =
     (case c of
        None \<Rightarrow> Some None
      | Some con \<Rightarrow>
         (let con = con\<lparr>stmt_row := None\<rparr>
          in case con_stmt con of
               None \<Rightarrow> Some (Some con)
             | Some stmt \<Rightarrow>
                 if \<not> params_freed stmt then None
                 else do {
                   let con = attachsql_command_free (con\<lparr>con_stmt := None, write_buffer_extra := 4\<rparr>);
                   w \<leftarrow> attachsql_pack_int4 (write_buffer con) 1 (stmt_id stmt);
                   (_, con) \<leftarrow> attachsql_command_send ATTACHSQL_COMMAND_STMT_CLOSE [] (con\<lparr>write_buffer := w\<rparr>);
                   Some (Some con) }))"

definition attachsql_statement_reset :: "con_ptr \<Rightarrow> error_ptr \<Rightarrow> bool call" where
  "attachsql_statement_reset c error =
     (case c of
        None \<Rightarrow> null_con False ATTACHSQL_ERROR_CODE_PARAMETER ''22023'' ''No connection provided'' error
      | Some con \<Rightarrow>
          case con_stmt con of
            None \<Rightarrow> fail_with False ATTACHSQL_ERROR_CODE_PARAMETER ''22023'' (str ''No statement prepared'') error con
          | Some stmt \<Rightarrow>
              do { w \<leftarrow> attachsql_pack_int4 (write_buffer con) 1 (stmt_id stmt);
                   (st, con) \<leftarrow> attachsql_command_send ATTACHSQL_COMMAND_STMT_RESET []
                     (con\<lparr>write_buffer_extra := 4, write_buffer := w\<rparr>);
                   if st = ATTACHSQL_COMMAND_STATUS_SEND_FAILED then
                     fail_with False ATTACHSQL_ERROR_CODE_SERVER_GONE ''08006'' (errmsg con) error con
                   else Some (True, error, Some con) })"

definition attachsql_statement_send_long_data ::
  "con_ptr \<Rightarrow> uint16 \<Rightarrow> nat \<Rightarrow> byte list \<Rightarrow> error_ptr \<Rightarrow> bool call" where
  "attachsql_statement_send_long_data c param len data error =
     (case c of
        None \<Rightarrow> null_con False ATTACHSQL_ERROR_CODE_PARAMETER ''22023'' ''No statement provided'' error
      | Some con \<Rightarrow>
          case con_stmt con of
            None \<Rightarrow> fail_with False ATTACHSQL_ERROR_CODE_PARAMETER ''22023'' (str ''No statement prepared'') error con
          | Some stmt \<Rightarrow>
              do { w \<leftarrow> attachsql_pack_int4 (write_buffer con) 1 (stmt_id stmt);
                   w \<leftarrow> attachsql_pack_int2 w 5 param;
                   bytes \<leftarrow> object_bytes data len;
                   (st, con) \<leftarrow> attachsql_command_send ATTACHSQL_COMMAND_STMT_SEND_LONG_DATA bytes
                     (con\<lparr>write_buffer_extra := 6, write_buffer := w\<rparr>);
                   if st = ATTACHSQL_COMMAND_STATUS_SEND_FAILED then
                     fail_with False ATTACHSQL_ERROR_CODE_SERVER_GONE ''08006'' (errmsg con) error con
                   else Some (True, error, Some con) })"

end
