(* ===== verification/Query.thy ===== *)
theory Query
  imports Statement
begin

text \<open>
  Queries and their results, \<open>src/query.cc\<close>: sending a query, column descriptions, rows one by one
  and rows buffered by the library.
\<close>

section \<open>Sending\<close>

definition send_query :: "byte list \<Rightarrow> error_ptr \<Rightarrow> attachsql_connect_t \<Rightarrow> bool call" where
  "send_query text error con =
     do { (ret, con) \<leftarrow> attachsql_command_send ATTACHSQL_COMMAND_QUERY text con;
          if ret = ATTACHSQL_COMMAND_STATUS_SEND_FAILED
          then fail_with False ATTACHSQL_ERROR_CODE_SERVER_GONE ''08006'' (errmsg con) error con
          else Some (True, error, Some con) }"

text \<open>
  The text with the parameters comes from \<open>query_text\<close>; the buffer for it is written without a check
  of the allocation, which matters when the statement is not empty.
\<close>

definition attachsql_query ::
  "con_ptr \<Rightarrow> nat \<Rightarrow> byte list \<Rightarrow> uint16 \<Rightarrow> attachsql_query_parameter_st list \<Rightarrow> error_ptr \<Rightarrow> bool call" where
  "attachsql_query c len statement parameter_count parameters error =
     (case c of
        None \<Rightarrow> null_con False ATTACHSQL_ERROR_CODE_PARAMETER ''22023'' ''Connection parameter not valid'' error
      | Some con \<Rightarrow>
          if in_query con then
            fail_with False ATTACHSQL_ERROR_CODE_OUT_OF_SYNC ''08002'' (str ''Connection already used for query'') error con
          else
            let con = con\<lparr>in_query := True\<rparr>
            in if parameter_count = 0 then
                 if con_status con = ATTACHSQL_CON_STATUS_NOT_CONNECTED then
                   attachsql_connect (Some (con\<lparr>query_buffer := Some (blk_of statement), query_buffer_length := len,
                     query_buffer_alloc := False, query_buffer_statement := False\<rparr>)) error
                 else do { text \<leftarrow> object_bytes statement len; send_query text error con }
               else do {
                 let (ok, con) = alloc con;
                 (b, n) \<leftarrow> query_text (server_status con AND ATTACHSQL_SERVER_STATUS_NO_BACKSLASH_ESCAPES \<noteq> 0)
                              statement len parameters (unat parameter_count);
                 if \<not> ok \<and> 0 < n then None
                 else do {
                   let con = con\<lparr>query_buffer := (if ok then Some b else None), query_buffer_length := n,
                                 query_buffer_alloc := True, query_buffer_statement := False\<rparr>;
                   if con_status con = ATTACHSQL_CON_STATUS_NOT_CONNECTED then attachsql_connect (Some con) error
                   else do { text \<leftarrow> blk_read b 0 n; send_query text error con } } })"

section \<open>Columns\<close>

definition attachsql_query_column_count :: "con_ptr \<Rightarrow> uint16" where
  "attachsql_query_column_count c = (case c of None \<Rightarrow> 0 | Some con \<Rightarrow> column_count (con_result con))"

text \<open>The loop stores no name: the members \<open>column\<close> and \<open>origin_column\<close> stay as \<open>new\<close> left them.\<close>

definition describe_column :: "column_t \<Rightarrow> attachsql_query_column_st" where
  "describe_column core_column =
     \<lparr>qc_schema = c_schema core_column, qc_table = c_table core_column, qc_origin_table = c_origin_table core_column,
      qc_column = None, qc_origin_column = None, qc_charset = c_charset core_column, qc_length = c_length core_column,
      qc_type = c_type core_column, qc_flags = c_flags core_column, qc_decimals = c_decimals core_column,
      qc_default_value = c_default_value core_column, qc_default_size = c_default_size core_column\<rparr>"

text \<open>The descriptions read from the result: the columns must be there, and filled in.\<close>

fun describe_columns :: "nat \<Rightarrow> column_t option list \<Rightarrow> attachsql_query_column_st list option" where
  "describe_columns 0 cs = Some []"
| "describe_columns (Suc n) [] = None"
| "describe_columns (Suc n) (c # cs) =
     do { col \<leftarrow> c; ds \<leftarrow> describe_columns n cs; Some (describe_column col # ds) }"

definition attachsql_query_column_get :: "con_ptr \<Rightarrow> uint16 \<Rightarrow> (attachsql_query_column_st option \<times> con_ptr) option" where
  "attachsql_query_column_get c column =
     (case c of
        None \<Rightarrow> Some (None, None)
      | Some con \<Rightarrow>
          let count = column_count (con_result con)
          in if count < column \<or> column < 1 then Some (None, Some con)
             else do {
               cols \<leftarrow> (case con_columns con of
                          Some ds \<Rightarrow> Some ds
                        | None \<Rightarrow> do { cs \<leftarrow> result_columns (con_result con); describe_columns (unat count) cs });
               if unat column - 1 < length cols
               then Some (Some (cols ! (unat column - 1)), Some (con\<lparr>con_columns := Some cols\<rparr>)) else None })"

section \<open>Rows\<close>

text \<open>A pointer into the read buffer, which must not have been reallocated since.\<close>

definition deref :: "'a con_core_scheme \<Rightarrow> buffer_ptr \<Rightarrow> (block \<times> nat) option" where
  "deref con p = do { b \<leftarrow> read_buffer con; if fst p = buffer_gen b then Some (buffer b, snd p) else None }"

text \<open>The values of a row. Adding a length to a pointer wraps around at \<open>2 ^ 64\<close>.\<close>

fun read_values :: "block \<Rightarrow> nat \<Rightarrow> nat \<Rightarrow> nat \<Rightarrow> attachsql_query_row_st list option" where
  "read_values b gen 0 p = Some []"
| "read_values b gen (Suc n) p =
     do { (len, bytes) \<leftarrow> unpack_length_at b p;
          let p = p + bytes;
          vs \<leftarrow> read_values b gen n ((p + unat len) mod 2 ^ 64);
          Some (\<lparr>row_value = (gen, p), row_value_length = unat len\<rparr> # vs) }"

definition row_values :: "'a con_core_scheme \<Rightarrow> attachsql_query_row_st list option" where
  "row_values con =
     (if column_count (con_result con) = 0 then Some []
      else do { p \<leftarrow> row_data (con_result con);
                (b, off) \<leftarrow> deref con p;
                read_values b (fst p) (unat (column_count (con_result con))) off })"

definition attachsql_query_row_get :: "con_ptr \<Rightarrow> error_ptr \<Rightarrow> attachsql_query_row_st list option call" where
  "attachsql_query_row_get c error =
     (case c of
        None \<Rightarrow> null_con None ATTACHSQL_ERROR_CODE_PARAMETER ''22023'' ''Connection parameter not valid'' error
      | Some con \<Rightarrow>
          if buffer_rows con then
            fail_with None ATTACHSQL_ERROR_CODE_BUFFERED_MODE ''42000''
              (str ''Cannot use function whilst buffering mode is enabled'') error con
          else if command_status con \<noteq> ATTACHSQL_COMMAND_STATUS_ROW_IN_BUFFER then
            fail_with None ATTACHSQL_ERROR_CODE_NO_DATA ''02000'' (str ''No more data to retreive'') error con
          else
            let total = unat (column_count (con_result con));
                (ok, con) = (if con_row con = None then alloc con else (True, con))
            in if \<not> ok then
                 fail_with None ATTACHSQL_ERROR_CODE_ALLOC ''82100'' (str ''Allocation failure for row'') error con
               else do {
                 vs \<leftarrow> row_values con;
                 row \<leftarrow> (case con_row con of
                           None \<Rightarrow> Some vs
                         | Some old \<Rightarrow> if total \<le> length old then Some (vs @ drop total old) else None);
                 Some (Some row, error, Some (con\<lparr>con_row := Some row\<rparr>)) })"

definition attachsql_query_row_next :: "con_ptr \<Rightarrow> con_ptr option" where
  "attachsql_query_row_next c =
     (case c of
        None \<Rightarrow> Some None
      | Some con \<Rightarrow>
          let con = con\<lparr>last_callback := ATTACHSQL_EVENT_NONE\<rparr>
          in if buffer_rows con then Some (Some con)
             else map_option (\<lambda>(_, con). Some con) (attachsql_get_next_row con))"

section \<open>Accessors\<close>

definition attachsql_connection_last_insert_id :: "con_ptr \<Rightarrow> uint64" where
  "attachsql_connection_last_insert_id c = (case c of None \<Rightarrow> 0 | Some con \<Rightarrow> insert_id con)"

definition attachsql_query_affected_rows :: "con_ptr \<Rightarrow> uint64" where
  "attachsql_query_affected_rows c = (case c of None \<Rightarrow> 0 | Some con \<Rightarrow> affected_rows con)"

definition attachsql_query_info :: "con_ptr \<Rightarrow> byte list option" where
  "attachsql_query_info c = map_option server_message c"

definition attachsql_query_warning_count :: "con_ptr \<Rightarrow> uint32" where
  "attachsql_query_warning_count c = (case c of None \<Rightarrow> 0 | Some con \<Rightarrow> ucast (warning_count con))"

definition attachsql_query_next_result :: "con_ptr \<Rightarrow> (attachsql_return_t \<times> con_ptr) option" where
  "attachsql_query_next_result c =
     (if c = None then Some (ATTACHSQL_RETURN_ERROR, None)
      else do { (more, c) \<leftarrow> attachsql_command_next_result c;
                Some (if more then ATTACHSQL_RETURN_PROCESSING else ATTACHSQL_RETURN_EOF, c) })"

section \<open>Buffered rows\<close>

definition attachsql_query_buffer_rows :: "con_ptr \<Rightarrow> bool \<Rightarrow> bool \<times> con_ptr" where
  "attachsql_query_buffer_rows c enable =
     (case c of
        None \<Rightarrow> (False, None)
      | Some con \<Rightarrow> if in_query con then (False, Some con) else (True, Some (con\<lparr>buffer_rows := enable\<rparr>)))"

definition attachsql_query_row_count :: "con_ptr \<Rightarrow> nat" where
  "attachsql_query_row_count c =
     (case c of
        None \<Rightarrow> 0
      | Some con \<Rightarrow> if \<not> buffer_rows con then 0 else if \<not> all_rows_buffered con then 0 else row_buffer_count con)"

text \<open>
  Enlarging the array of rows. The recorded size grows before the outcome of \<open>realloc\<close> is known;
  \<open>realloc\<close> of a pointer that has been freed has no result.
\<close>

definition enlarge_rows :: "attachsql_connect_t \<Rightarrow> (bool \<times> attachsql_connect_t) option" where
  "enlarge_rows con =
     (if row_buffer_alloc_size con \<le> row_buffer_count con then
        let size = row_buffer_alloc_size con + ATTACHSQL_BUFFER_ROW_ALLOC_SIZE;
            (ok, con) = alloc (con\<lparr>row_buffer_alloc_size := size\<rparr>)
        in case row_buffer con of
             FreedRows \<Rightarrow> None
           | NullRows \<Rightarrow> Some (if ok then (True, con\<lparr>row_buffer := Rows (replicate size None)\<rparr>) else (False, con))
           | Rows rows \<Rightarrow> Some (if ok then (True, con\<lparr>row_buffer := Rows (take size (rows @ replicate size None))\<rparr>)
                                else (False, con))
      else Some (True, con))"

definition store_row :: "attachsql_query_row_st list \<Rightarrow> attachsql_connect_t \<Rightarrow> attachsql_connect_t option" where
  "store_row row con =
     (case row_buffer con of
        Rows rows \<Rightarrow>
          if row_buffer_count con < length rows
          then Some (con\<lparr>row_buffer := Rows (rows[row_buffer_count con := Some row]),
                         row_buffer_count := row_buffer_count con + 1\<rparr>)
          else None
      | _ \<Rightarrow> None)"

text \<open>One turn of the loop: the value the function returns, or none when it goes on.\<close>

definition buffer_one_row ::
  "error_ptr \<Rightarrow> attachsql_connect_t \<Rightarrow> (attachsql_return_t option \<times> error_ptr \<times> attachsql_connect_t) option" where
  "buffer_one_row error con =
     do { (ok, con) \<leftarrow> enlarge_rows con;
          if \<not> ok then
            do { (e, con) \<leftarrow> client_error ATTACHSQL_ERROR_CODE_ALLOC ''82100'' (str ''Allocation failure for row buffer'') error con;
                 Some (Some ATTACHSQL_RETURN_ERROR, e, con) }
          else
            let (ok, con) = alloc con
            in if \<not> ok then
                 do { (e, con) \<leftarrow> client_error ATTACHSQL_ERROR_CODE_ALLOC ''82100'' (str ''Allocation failure for row'') error con;
                      Some (Some ATTACHSQL_RETURN_ERROR, e, con) }
               else do {
                 row \<leftarrow> row_values con;
                 con \<leftarrow> store_row row con;
                 (_, con) \<leftarrow> attachsql_get_next_row con;
                 (more, con) \<leftarrow> attachsql_con_process_packets con;
                 Some (if more \<and> con_status con \<noteq> ATTACHSQL_CON_STATUS_IDLE then None
                       else Some ATTACHSQL_RETURN_PROCESSING, error, con) } }"

partial_function (option) attachsql_query_row_buffer ::
  "attachsql_connect_t \<Rightarrow> error_ptr \<Rightarrow> (attachsql_return_t \<times> error_ptr \<times> attachsql_connect_t) option" where
  "attachsql_query_row_buffer con error =
     Option.bind (buffer_one_row error con) (\<lambda>x.
       case fst x of
         Some r \<Rightarrow> Some (r, snd x)
       | None \<Rightarrow> attachsql_query_row_buffer (snd (snd x)) (fst (snd x)))"

text \<open>A buffered row, by position; the row must have been stored.\<close>

definition buffered_row :: "nat \<Rightarrow> attachsql_connect_t \<Rightarrow> attachsql_query_row_st list option" where
  "buffered_row i con =
     (case row_buffer con of Rows rows \<Rightarrow> if i < length rows then rows ! i else None | _ \<Rightarrow> None)"

definition attachsql_query_buffer_row_get :: "con_ptr \<Rightarrow> (attachsql_query_row_st list option \<times> con_ptr) option" where
  "attachsql_query_buffer_row_get c =
     (case c of
        None \<Rightarrow> Some (None, None)
      | Some con \<Rightarrow>
          if row_buffer_count con \<le> row_buffer_position con then Some (None, Some con)
          else do { row \<leftarrow> buffered_row (row_buffer_position con) con;
                    Some (Some row, Some (con\<lparr>con_row := Some row, row_buffer_position := row_buffer_position con + 1\<rparr>)) })"

definition attachsql_query_row_get_offset :: "con_ptr \<Rightarrow> nat \<Rightarrow> attachsql_query_row_st list option option" where
  "attachsql_query_row_get_offset c row_number =
     (case c of
        None \<Rightarrow> Some None
      | Some con \<Rightarrow>
          if row_buffer_count con \<le> row_number then Some None
          else map_option Some (buffered_row (row_buffer_position con) con))"

end
