(* ===== verification/Poll.thy ===== *)
theory Poll
  imports Query
begin

text \<open>
  Polling, \<open>src/connect.cc\<close>: running the event loop of a connection, sending the query that waited
  for the connection, and reporting what the connection is ready for. And the pool, \<open>src/pool.cc\<close>,
  which runs one loop for several connections and polls each of them.
\<close>

section \<open>Polling a connection\<close>

definition attachsql_connect_query :: "attachsql_connect_t \<Rightarrow> error_ptr \<Rightarrow> attachsql_return_t call" where
  "attachsql_connect_query con error =
     do { b \<leftarrow> query_buffer con;
          text \<leftarrow> blk_read b 0 (query_buffer_length con);
          (ret, con) \<leftarrow>
            (if query_buffer_statement con then
               do { (_, _, c) \<leftarrow> attachsql_statement_prepare con (query_buffer_length con) text None;
                    con \<leftarrow> c;
                    Some (command_status con, con) }
             else attachsql_command_send ATTACHSQL_COMMAND_QUERY text con);
          if ret = ATTACHSQL_COMMAND_STATUS_SEND_FAILED then
            fail_with ATTACHSQL_RETURN_ERROR ATTACHSQL_ERROR_CODE_SERVER_GONE ''08006'' (errmsg con) error con
          else Some (ATTACHSQL_RETURN_PROCESSING, error, Some con) }"

text \<open>What an idle connection is ready for; anything else fails an assertion.\<close>

definition poll_idle :: "attachsql_connect_t \<Rightarrow> error_ptr \<Rightarrow> attachsql_return_t call" where
  "poll_idle con error =
     (if server_errno con \<noteq> 0 then
        do { (error, con) \<leftarrow> server_error error con; Some (ATTACHSQL_RETURN_ERROR, error, Some con) }
      else if command_status con = ATTACHSQL_COMMAND_STATUS_EOF then
        do { con \<leftarrow> send_event ATTACHSQL_EVENT_EOF error con;
             Some (ATTACHSQL_RETURN_EOF, error,
                   Some (con\<lparr>all_rows_buffered := True, command_status := ATTACHSQL_COMMAND_STATUS_EOF\<rparr>)) }
      else if command_status con = ATTACHSQL_COMMAND_STATUS_ROW_IN_BUFFER then
        if buffer_rows con then
          do { (r, error, con) \<leftarrow> attachsql_query_row_buffer con error; Some (r, error, Some con) }
        else do { con \<leftarrow> send_event ATTACHSQL_EVENT_ROW_READY error con;
                  Some (ATTACHSQL_RETURN_ROW_READY, error, Some con) }
      else if command_status con = ATTACHSQL_COMMAND_STATUS_CONNECTED then
        do { con \<leftarrow> send_event ATTACHSQL_EVENT_CONNECTED error con;
             if 0 < query_buffer_length con then attachsql_connect_query con error
             else Some (ATTACHSQL_RETURN_EOF, error, Some con) }
      else None)"

definition attachsql_connect_poll :: "con_ptr \<Rightarrow> error_ptr \<Rightarrow> attachsql_return_t call" where
  "attachsql_connect_poll c error =
     (case c of
        None \<Rightarrow> null_con ATTACHSQL_RETURN_ERROR ATTACHSQL_ERROR_CODE_PARAMETER ''22023'' ''Invalid connection object'' error
      | Some con \<Rightarrow>
          do { (status, con) \<leftarrow> (if con_pool con = None then attachsql_do_poll con else Some (con_status con, con));
               let report = (\<lambda>code sqlstate msg.
                 do { (error, con) \<leftarrow> report_error code sqlstate msg error con;
                      Some (ATTACHSQL_RETURN_ERROR, error, Some con) });
               case status of
                 ATTACHSQL_CON_STATUS_PARAMETER_ERROR \<Rightarrow>
                   report ATTACHSQL_ERROR_CODE_PARAMETER ''22023'' (str ''Bad parameter'')
               | ATTACHSQL_CON_STATUS_NOT_CONNECTED \<Rightarrow> Some (ATTACHSQL_RETURN_NOT_CONNECTED, error, Some con)
               | ATTACHSQL_CON_STATUS_CONNECTING \<Rightarrow> Some (ATTACHSQL_RETURN_CONNECTING, error, Some con)
               | ATTACHSQL_CON_STATUS_CONNECT_FAILED \<Rightarrow>
                   do { (error, con) \<leftarrow> report_connect_failed error con;
                        Some (ATTACHSQL_RETURN_ERROR, error, Some con) }
               | ATTACHSQL_CON_STATUS_BUSY \<Rightarrow> Some (ATTACHSQL_RETURN_PROCESSING, error, Some con)
               | ATTACHSQL_CON_STATUS_SSL_ERROR \<Rightarrow> report ATTACHSQL_ERROR_CODE_SSL ''08000'' (errmsg con)
               | ATTACHSQL_CON_STATUS_IDLE \<Rightarrow> poll_idle con error
               | ATTACHSQL_CON_STATUS_NET_ERROR \<Rightarrow> report ATTACHSQL_ERROR_CODE_SERVER_LOST ''08006'' (errmsg con) })"

section \<open>The pool\<close>

text \<open>
  \<open>pool_events\<close> are the events of the pool's loop, one list per run, each with the index of its
  connection; the connections of a pool have no events of their own.
\<close>

record attachsql_pool_t =
  pool_connections :: "attachsql_connect_t list"
  pool_callback :: bool
  pool_events :: "(nat \<times> uv_event) list list"

text \<open>\<open>pool_ok\<close> and \<open>loop_ok\<close> are the outcomes of \<open>new\<close>; the loop is initialised before it is checked.\<close>

definition attachsql_pool_create ::
  "bool \<Rightarrow> bool \<Rightarrow> (nat \<times> uv_event) list list \<Rightarrow> bool \<Rightarrow> error_ptr \<Rightarrow> (attachsql_pool_t option \<times> error_ptr) option" where
  "attachsql_pool_create pool_ok loop_ok events has_function error =
     (if \<not> pool_ok then
        do { e \<leftarrow> null_error ATTACHSQL_ERROR_CODE_ALLOC ''82100'' ''Allocation failure for pool object'' error;
             Some (None, e) }
      else if \<not> loop_ok then None
      else Some (Some \<lparr>pool_connections = [], pool_callback = has_function, pool_events = events\<rparr>, error))"

definition attachsql_pool_add_connection ::
  "attachsql_pool_t option \<Rightarrow> con_ptr \<Rightarrow> error_ptr \<Rightarrow> (attachsql_pool_t option \<times> error_ptr) option" where
  "attachsql_pool_add_connection p c error =
     (case (p, c) of
        (Some pool, Some con) \<Rightarrow>
          let (ok, con) = alloc con
          in if ok then
               Some (Some (pool\<lparr>pool_connections := pool_connections pool @
                 [con\<lparr>con_pool := Some (pool_callback pool), loop_present := True,
                      connection_id := of_nat (length (pool_connections pool) + 1)\<rparr>]\<rparr>), error)
             else do { e \<leftarrow> null_error ATTACHSQL_ERROR_CODE_ALLOC ''82100'' ''Allocation failure for pool connection add'' error;
                       Some (Some pool, e) }
      | _ \<Rightarrow> do { e \<leftarrow> null_error ATTACHSQL_ERROR_CODE_PARAMETER ''22023'' ''Bad parameter'' error; Some (p, e) })"

fun pool_dispatch :: "(nat \<times> uv_event) list \<Rightarrow> attachsql_connect_t list \<Rightarrow> attachsql_connect_t list option" where
  "pool_dispatch [] cons = Some cons"
| "pool_dispatch ((i, e) # es) cons =
     (if i < length cons then do { con \<leftarrow> dispatch e (cons ! i); pool_dispatch es (cons[i := con]) }
      else pool_dispatch es cons)"

text \<open>Every connection is polled with the address of the same error variable.\<close>

fun poll_each :: "error_ptr \<Rightarrow> attachsql_connect_t list \<Rightarrow> attachsql_connect_t list option" where
  "poll_each error [] = Some []"
| "poll_each error (con # cons) =
     do { (_, error, c) \<leftarrow> attachsql_connect_poll (Some con) error;
          con \<leftarrow> c;
          cons \<leftarrow> poll_each error cons;
          Some (con # cons) }"

definition attachsql_pool_run :: "attachsql_pool_t option \<Rightarrow> attachsql_pool_t option option" where
  "attachsql_pool_run p =
     (case p of
        None \<Rightarrow> Some None
      | Some pool \<Rightarrow>
          do { cons \<leftarrow> pool_dispatch (case pool_events pool of [] \<Rightarrow> [] | es # _ \<Rightarrow> es) (pool_connections pool);
               cons \<leftarrow> poll_each (Some None) cons;
               Some (Some (pool\<lparr>pool_connections := cons, pool_events := drop 1 (pool_events pool)\<rparr>)) })"

text \<open>\<open>ret\<close> is the outcome of closing the loop, which is asserted to be 0.\<close>

fun destroy_each :: "attachsql_connect_t list \<Rightarrow> unit option" where
  "destroy_each [] = Some ()"
| "destroy_each (con # cons) = do { _ \<leftarrow> attachsql_connect_destroy (Some con); destroy_each cons }"

definition attachsql_pool_destroy :: "int \<Rightarrow> attachsql_pool_t option \<Rightarrow> unit option" where
  "attachsql_pool_destroy ret p =
     (case p of
        None \<Rightarrow> Some ()
      | Some pool \<Rightarrow> do { _ \<leftarrow> destroy_each (pool_connections pool); if ret = 0 then Some () else None })"

end
