(* ===== verification/Exchange.thy ===== *)
theory Exchange
  imports Poll
begin

text \<open>
  What the packet loop does with whole packets in the read buffer: one turn of it per packet
  expected, rows fetched one after the other, a result set from its header to its first row, and the
  end of both for a packet that is not there yet, out of sequence, or an error.
\<close>

section \<open>One turn of the loop\<close>

text \<open>The bytes received and not yet read.\<close>

definition unread :: "'a con_core_scheme \<Rightarrow> byte list \<Rightarrow> bool" where
  "unread con bs \<longleftrightarrow> (\<exists>b. read_buffer con = Some b \<and> buffer_ok b \<and> rewound b \<and> buffer_bytes b = bs)"

text \<open>One packet of type \<open>t\<close> is expected; or none, and there is room to expect one.\<close>

definition expects :: "attachsql_packet_type_t \<Rightarrow> 'a con_core_scheme \<Rightarrow> bool" where
  "expects t con \<longleftrightarrow> queue_ok con \<and> expected con = [t]"

definition expects_none :: "'a con_core_scheme \<Rightarrow> bool" where
  "expects_none con \<longleftrightarrow> queue_ok con \<and> expected con = [] \<and> queue_room con"

definition taken :: "nat \<Rightarrow> byte \<Rightarrow> buffer_st \<Rightarrow> 'a con_core_scheme \<Rightarrow> 'a con_core_scheme" where
  "taken len n b con = con\<lparr>packet_size := of_nat len, packet_number := n,
     next_packet_queue_used := next_packet_queue_used con - 1, read_buffer := Some (packet_body (of_nat len) b)\<rparr>"

definition next_number :: "attachsql_packet_type_t \<Rightarrow> 'a con_core_scheme \<Rightarrow> byte" where
  "next_number t con = (if t = ATTACHSQL_PACKET_TYPE_HANDSHAKE then packet_number con else packet_number con + 1)"

lemma expects_used:
  assumes "expects t con" shows "next_packet_queue_used con = 1 \<and> next_packet_queue_size con \<noteq> 0"
proof -
  have e: "expected con = [t]" "queue_ok con" using assms by (simp_all add: expects_def)
  then obtain q where q: "next_packet_queue con = Some q"
    by (auto simp: expected_def split: option.splits)
  have "length (take (next_packet_queue_used con) q) = 1"
    using e(1) q by (metis expected_def length_Cons length_map length_rev list.size(3) One_nat_def option.simps(5))
  then show ?thesis using e(2) q by (auto simp: queue_ok_def)
qed

lemma expects_room: "expects t con \<Longrightarrow> queue_room con"
  using expects_used[of t con] by (simp add: queue_room_def)

lemma expects_peek: "expects t con \<Longrightarrow> attachsql_packet_queue_peek con = Some t"
  by (simp add: expects_def queue_peek_ok)

lemma expects_pop:
  assumes "expects t con" "queue_fields con' = queue_fields con"
  shows "attachsql_packet_queue_pop con' = Some (t, con'\<lparr>next_packet_queue_used := next_packet_queue_used con' - 1\<rparr>)"
proof -
  have q: "queue_ok con'" "expected con' = [t]" "next_packet_queue_used con' \<noteq> 0"
    using assms queue_frame[OF assms(2)] expects_used[OF assms(1)] by (auto simp: expects_def queue_fields_def)
  obtain t' where "queue_at con' (next_packet_queue_used con' - 1) = Some t'" "expected con' = t' # expected
      (con'\<lparr>next_packet_queue_used := next_packet_queue_used con' - 1\<rparr>)"
    using expected_top[OF q(1,3)] by blast
  then show ?thesis using q by (auto simp: attachsql_packet_queue_pop_def queue_at_def Let_def split: option.splits)
qed

lemma taken_expects: assumes "expects t con" shows "expects_none (taken len n b con)"
proof -
  let ?c = "con\<lparr>next_packet_queue_used := next_packet_queue_used con - 1\<rparr>"
  have "queue_ok ?c" using assms queue_ok_less[of con] by (simp add: expects_def)
  moreover have "expected ?c = []" using expects_used[OF assms] by (simp add: expected_empty)
  moreover have "queue_fields (taken len n b con) = queue_fields ?c" by (simp add: queue_fields_def taken_def)
  moreover have "queue_room (taken len n b con)" using expects_used[OF assms] by (simp add: queue_room_def taken_def)
  ultimately show ?thesis using queue_frame[of "taken len n b con" ?c] by (simp add: expects_none_def)
qed

lemma number_matches_small: "number_matches n n \<longleftrightarrow> n < 0x80"
proof -
  have "sint n = (uint n + 128) mod 256 - 128"
    by (simp add: sint_uint signed_take_bit_eq_take_bit_shift take_bit_eq_mod)
  moreover have "0 \<le> uint n" "uint n < 256" using uint_lt2p[of n] by simp_all
  ultimately have "uint n = sint n \<longleftrightarrow> uint n < 128" by (cases "uint n < 128") auto
  then show ?thesis by (simp add: number_matches_def word_less_def)
qed

lemma packet_head:
  assumes "ahead b (packet n payload @ rest)" "length payload < 2 ^ 24"
  shows "get_int3 b = Some (of_nat (length payload))" "get_byte (skip 3 b) = Some n" "ahead (skip 4 b) (payload @ rest)"
proof -
  have a: "ahead b (le_bytes 3 (of_nat (length payload) :: uint64) @ n # payload @ rest)"
    using assms(1) by (simp add: packet_def)
  have "take_bit 24 (of_nat (length payload) :: uint64) = of_nat (take_bit 24 (length payload))"
    by (rule take_bit_of_nat)
  also have "\<dots> = of_nat (length payload)" using assms(2) by (simp add: take_bit_nat_eq_self)
  finally have "(ucast (take_bit 24 (of_nat (length payload) :: uint64)) :: uint32) = of_nat (length payload)"
    using assms(2) by (simp add: unsigned_of_nat take_bit_nat_eq_self)
  then show "get_int3 b = Some (of_nat (length payload))" using ahead_int3[OF a] by simp
  have a3: "ahead (skip 3 b) (n # payload @ rest)" using ahead_skip[OF a] by simp
  then show "get_byte (skip 3 b) = Some n" by (rule ahead_byte)
  show "ahead (skip 4 b) (payload @ rest)" using ahead_Cons[OF a3] by simp
qed

lemma packet_body_in:
  assumes b: "buffer_ok b" "buffer_bytes b = packet n payload @ rest" and len: "length payload < 2 ^ 24"
  shows "packet_in (packet_body (of_nat (length payload)) b) payload rest"
proof -
  let ?b = "packet_body (of_nat (length payload)) b"
  have u: "unat (of_nat (length payload) :: uint32) = length payload"
    using len by (simp add: unat_of_nat take_bit_nat_eq_self)
  have l: "buffer_write_ptr b - buffer_read_ptr b = 4 + length payload + length rest"
    using b(2) buffer_bytes_length[of b] by (simp add: packet_def)
  have "buffer_bytes (skip 4 b) = drop 4 (buffer_bytes b)"
    by (simp add: buffer_bytes_def drop_map)
  moreover have "buffer_bytes ?b = buffer_bytes (skip 4 b)" by (simp add: packet_body_def Let_def buffer_bytes_def)
  ultimately have "buffer_bytes ?b = payload @ rest" using b(2) by (simp add: packet_def)
  moreover have "buffer_ok ?b" using b(1) l by (auto simp: buffer_ok_def packet_body_def Let_def)
  ultimately show ?thesis by (simp add: packet_in_def packet_body_def Let_def u)
qed

text \<open>A whole packet of the type expected, with the next number.\<close>

lemma turn_packet:
  assumes b: "read_buffer con = Some b" "buffer_ok b" "buffer_bytes b = packet n payload @ rest"
    and len: "length payload < 2 ^ 24" and e: "expects t con" and t: "t \<noteq> ATTACHSQL_PACKET_TYPE_NONE"
    and n: "n = next_number t con"
  shows "process_packet con =
    (if n < 0x80 then do { con' \<leftarrow> read_packet t (taken (length payload) n b con); Some (if stops t then Some True else None, con') }
     else Some (Some True, out_of_sequence
       (con\<lparr>packet_size := of_nat (length payload), packet_number := n, next_packet_queue_used := next_packet_queue_used con - 1\<rparr>)))"
proof -
  have a: "ahead b (packet n payload @ rest)" using buffer_ok_has[OF b(2)] b(3) by (simp add: ahead_def)
  note h = packet_head[OF a len]
  have u: "attachsql_buffer_unread_data b = 4 + length payload + length rest"
    using unread_data_length[OF b(2)] b(3) by (simp add: packet_def)
  have "unat (of_nat (length payload + 4) :: uint32) = length payload + 4"
    using len by (simp add: unat_of_nat take_bit_nat_eq_self del: of_nat_add)
  then have u2: "unat (of_nat (length payload) + 4 :: uint32) = length payload + 4" by simp
  have pop: "attachsql_packet_queue_pop (con\<lparr>packet_size := of_nat (length payload), packet_number := n\<rparr>) =
      Some (t, con\<lparr>packet_size := of_nat (length payload), packet_number := n,
        next_packet_queue_used := next_packet_queue_used con - 1\<rparr>)"
    using expects_pop[OF e, of "con\<lparr>packet_size := of_nat (length payload), packet_number := n\<rparr>"]
    by (simp add: queue_fields_def)
  have num: "(if t \<noteq> ATTACHSQL_PACKET_TYPE_HANDSHAKE
      then con\<lparr>packet_size := of_nat (length payload), packet_number := packet_number con + 1\<rparr>
      else con\<lparr>packet_size := of_nat (length payload)\<rparr>) =
      con\<lparr>packet_size := of_nat (length payload), packet_number := n\<rparr>"
    by (simp add: n next_number_def)
  have "process_packet con =
    do { (_, con) \<leftarrow> attachsql_packet_queue_pop (if t \<noteq> ATTACHSQL_PACKET_TYPE_HANDSHAKE
           then con\<lparr>packet_size := of_nat (length payload), packet_number := packet_number con + 1\<rparr>
           else con\<lparr>packet_size := of_nat (length payload)\<rparr>);
         if \<not> number_matches (packet_number con) n then Some (Some True, out_of_sequence con)
         else do { con \<leftarrow> read_packet t (con\<lparr>read_buffer := Some (packet_body (of_nat (length payload)) b)\<rparr>);
                   Some (if stops t then Some True else None, con) } }"
    by (simp add: process_packet_unfold expects_peek[OF e] t b(1) u h u2 Let_def del: skip_skip cong: if_cong)
  then show ?thesis unfolding num pop by (simp add: number_matches_small taken_def)
qed

text \<open>A packet that has not been received whole: the loop waits.\<close>

lemma turn_partial:
  assumes b: "read_buffer con = Some b" "buffer_ok b" "buffer_bytes b = take k (packet n payload)"
    and k: "k < length (packet n payload)" "length payload < 2 ^ 24"
    and e: "expects t con" and t: "t \<noteq> ATTACHSQL_PACKET_TYPE_NONE"
  shows "\<exists>size. process_packet con = Some (Some False, con\<lparr>packet_size := size\<rparr>)"
proof -
  have u: "attachsql_buffer_unread_data b = k"
    using unread_data_length[OF b(2)] b(3) k(1) by simp
  show ?thesis
  proof (cases "k < 4")
    case True
    then have "process_packet con = Some (Some False, con)"
      by (simp add: process_packet_unfold expects_peek[OF e] t b(1) u)
    then show ?thesis by (intro exI[of _ "packet_size con"]) simp
  next
    case False
    have "take 3 (take k (packet n payload)) = le_bytes 3 (of_nat (length payload) :: uint64)"
      using False by (simp add: packet_def)
    then have "take k (packet n payload) = le_bytes 3 (of_nat (length payload) :: uint64) @ drop 3 (take k (packet n payload))"
      by (metis append_take_drop_id)
    then have "ahead b (le_bytes 3 (of_nat (length payload) :: uint64) @ drop 3 (take k (packet n payload)))"
      using buffer_ok_has[OF b(2)] b(3) by (simp add: ahead_def)
    from ahead_int3[OF this] have g: "get_int3 b = Some (ucast (take_bit 24 (of_nat (length payload) :: uint64)))" .
    have len: "take_bit 24 (of_nat (length payload) :: uint64) = of_nat (length payload)"
      using take_bit_of_nat[of 24 "length payload", where 'a = uint64] k(2) by (simp add: take_bit_nat_eq_self)
    have "(ucast (of_nat (length payload) :: uint64) :: uint32) = of_nat (length payload)"
      using k(2) by (simp add: unsigned_of_nat take_bit_nat_eq_self)
    then have g: "get_int3 b = Some (of_nat (length payload))" using g len by simp
    have "unat (of_nat (length payload + 4) :: uint32) = length payload + 4"
      using k(2) by (simp add: unat_of_nat take_bit_nat_eq_self del: of_nat_add)
    then have "k < unat (of_nat (length payload) + 4 :: uint32)" using k(1) by (simp add: packet_def)
    then have "process_packet con = Some (Some False, con\<lparr>packet_size := of_nat (length payload)\<rparr>)"
      using False by (simp add: process_packet_unfold expects_peek[OF e] t b(1) u g Let_def)
    then show ?thesis by blast
  qed
qed

section \<open>Fetching rows\<close>

text \<open>A row in the buffer, with \<open>rest\<close> received behind it.\<close>

definition row_held :: "byte list \<Rightarrow> byte list \<Rightarrow> 'a con_core_scheme \<Rightarrow> bool" where
  "row_held row rest con \<longleftrightarrow>
     (\<exists>b. read_buffer con = Some b \<and> packet_in b row rest \<and>
          row_data (con_result con) = Some (buffer_gen b, buffer_read_ptr b)) \<and>
     command_status con = ATTACHSQL_COMMAND_STATUS_ROW_IN_BUFFER \<and> con_status con = ATTACHSQL_CON_STATUS_IDLE \<and>
     expects_none con \<and> next_packet_queue_size con \<noteq> 0 \<and> \<not> opt_compression con"

lemma expects_none_frame:
  assumes "queue_fields con' = queue_fields con" "allocs con' = allocs con"
  shows "expects_none con' = expects_none con"
proof -
  have "fst (alloc con') = fst (alloc con)" using assms(2) by (simp add: alloc_def split: list.split)
  then show ?thesis using assms(1) queue_frame[OF assms(1)]
    by (simp add: expects_none_def queue_room_def queue_fields_def)
qed

lemma push_expects:
  assumes "expects_none con"
  obtains con' where "queue_push t con = Some con'" "expects t con'"
  using queue_push_ok[of con t] assms by (auto simp: expects_none_def expects_def)

text \<open>The memory of the read buffer, which pointers to rows point into.\<close>

definition same_memory :: "'a con_core_scheme \<Rightarrow> 'b con_core_scheme \<Rightarrow> bool" where
  "same_memory con con' \<longleftrightarrow>
     map_option (\<lambda>b. (buffer b, buffer_gen b)) (read_buffer con') = map_option (\<lambda>b. (buffer b, buffer_gen b)) (read_buffer con)"

lemma packet_pointers_memory [simp]:
  "buffer (past_packet b) = buffer b" "buffer_gen (past_packet b) = buffer_gen b"
  "buffer (packet_body n b) = buffer b" "buffer_gen (packet_body n b) = buffer_gen b"
  "buffer_size (packet_body n b) = buffer_size b"
  by (simp_all add: past_packet_def packet_body_def Let_def)

text \<open>The end of the row in the buffer: what is left is to take the next packet.\<close>

definition row_awaited :: "'a con_core_scheme \<Rightarrow> buffer_st \<Rightarrow> byte list \<Rightarrow> 'a con_core_scheme \<Rightarrow> bool" where
  "row_awaited con b rest con1 \<longleftrightarrow>
     read_buffer con1 = Some b \<and> buffer_ok b \<and> buffer_bytes b = rest \<and>
     expects ATTACHSQL_PACKET_TYPE_ROW con1 \<and> next_packet_queue_size con1 \<noteq> 0 \<and> packet_number con1 = packet_number con \<and>
     con_status con1 = ATTACHSQL_CON_STATUS_IDLE \<and> con_result con1 = con_result con \<and>
     command_status con1 = ATTACHSQL_COMMAND_STATUS_READ_ROW \<and> \<not> opt_compression con1 \<and> same_client con con1 \<and>
     same_memory con con1 \<and> attachsql_get_next_row con = do { (_, con) \<leftarrow> process_loop con1; Some (command_status con, con) }"

lemma next_row_begins:
  assumes "row_held row rest con"
  obtains b con1 where "row_awaited con b rest con1"
proof -
  obtain b where b: "read_buffer con = Some b" "packet_in b row rest"
    using assms by (auto simp: row_held_def)
  let ?c = "con\<lparr>read_buffer := Some (past_packet b)\<rparr>"
  have "expects_none con" using assms by (simp add: row_held_def)
  moreover have "queue_fields ?c = queue_fields con" by (simp add: queue_fields_def)
  ultimately have "expects_none ?c" using expects_none_frame[of ?c con] by simp
  then obtain con' where p: "queue_push ATTACHSQL_PACKET_TYPE_ROW ?c = Some con'" "expects ATTACHSQL_PACKET_TYPE_ROW con'"
    using push_expects by blast
  note f = queue_push_frame[OF p(1)]
  let ?c1 = "con'\<lparr>command_status := ATTACHSQL_COMMAND_STATUS_READ_ROW\<rparr>"
  have r: "attachsql_packet_read_end con = Some ?c" using read_end_at[of con 0 b] b by simp
  have comp: "\<not> opt_compression ?c1" "con_status ?c1 = ATTACHSQL_CON_STATUS_IDLE"
    using assms f by (simp_all add: row_held_def)
  have "expects ATTACHSQL_PACKET_TYPE_ROW ?c1" using p(2) queue_frame[of ?c1 con']
    by (simp add: expects_def queue_fields_def)
  moreover from expects_used[OF this] have "next_packet_queue_size con' \<noteq> 0" by simp
  moreover have "same_client con ?c1" using queue_push_same[OF p(1)] b(1) by (simp add: same_defs)
  moreover have "same_memory con ?c1" using f b(1) by (simp add: same_memory_def)
  ultimately show ?thesis using past_packet_ok[OF b(2)] r p(1) f comp
    by (intro that[of "past_packet b" ?c1])
       (simp add: row_awaited_def attachsql_get_next_row_def attachsql_con_process_packets_def)
qed

lemma next_row:
  assumes held: "row_held row (packet n row' @ rest) con" and n: "n = packet_number con + 1" "n < 0x80"
    and row: "row' \<noteq> []" "hd row' \<noteq> 0xfe" "length row' < 2 ^ 24"
  shows "\<exists>con'. attachsql_get_next_row con = Some (ATTACHSQL_COMMAND_STATUS_ROW_IN_BUFFER, con') \<and>
    row_held row' rest con' \<and> packet_number con' = n \<and>
    column_count (con_result con') = column_count (con_result con) \<and>
    result_columns (con_result con') = result_columns (con_result con) \<and> same_client con con' \<and> same_memory con con'"
proof -
  obtain b con1 where w: "row_awaited con b (packet n row' @ rest) con1"
    using next_row_begins[OF held] .
  then have c: "read_buffer con1 = Some b" "buffer_ok b" "buffer_bytes b = packet n row' @ rest"
    "expects ATTACHSQL_PACKET_TYPE_ROW con1" "packet_number con1 = packet_number con"
    "attachsql_get_next_row con = do { (_, con) \<leftarrow> process_loop con1; Some (command_status con, con) }"
    by (simp_all add: row_awaited_def)
  let ?b = "packet_body (of_nat (length row')) b" and ?c2 = "taken (length row') n b con1"
  have pin: "packet_in ?b row' rest" by (rule packet_body_in[OF c(2,3) row(3)])
  have byte: "get_byte ?b = Some (hd row')"
    using packet_in_ahead[OF pin] row(1) by (cases row') (auto intro: ahead_byte)
  let ?c3 = "?c2\<lparr>con_result := (con_result ?c2)\<lparr>row_data := Some (buffer_gen ?b, buffer_read_ptr ?b),
      row_length := unat (packet_size ?c2)\<rparr>, command_status := ATTACHSQL_COMMAND_STATUS_ROW_IN_BUFFER,
      con_status := ATTACHSQL_CON_STATUS_IDLE\<rparr>"
  have rb2: "read_buffer ?c2 = Some ?b" by (simp add: taken_def)
  have "attachsql_packet_read_row ?c2 = Some ?c3"
    using byte row(2) by (simp add: attachsql_packet_read_row_def rb2)
  moreover have "n = next_number ATTACHSQL_PACKET_TYPE_ROW con1" using n(1) c(5) by (simp add: next_number_def)
  ultimately have "process_packet con1 = Some (Some True, ?c3)"
    using turn_packet[OF c(1-3) row(3) c(4)] n(2) by (simp add: stops_def)
  then have "attachsql_get_next_row con = Some (ATTACHSQL_COMMAND_STATUS_ROW_IN_BUFFER, ?c3)"
    using c(6) by (simp add: process_loop.simps[of con1])
  moreover have "expects_none ?c3"
    using taken_expects[OF c(4), of "length row'" n b] expects_none_frame[of ?c3 ?c2]
    by (simp add: queue_fields_def)
  ultimately show ?thesis using pin w
    by (intro exI[of _ ?c3]) (auto simp: row_held_def row_awaited_def taken_def same_defs same_memory_def)
qed

lemma eof_fields:
  assumes "ahead b (eof_payload warnings sstatus @ rest)"
  shows "get_byte b = Some 0xfe" "get_int2 (skip (Suc 0) b) = Some warnings" "get_int2 (skip 3 b) = Some sstatus"
proof -
  have a0: "ahead b (0xfe # le_bytes 2 warnings @ le_bytes 2 sstatus @ rest)" using assms by (simp add: eof_payload_def)
  have a1: "ahead (skip 1 b) (le_bytes 2 warnings @ le_bytes 2 sstatus @ rest)" using ahead_Cons[OF a0] by simp
  have a2: "ahead (skip 3 b) (le_bytes 2 sstatus @ rest)" using ahead_skip[OF a1] by (simp add: numeral_3_eq_3)
  show "get_byte b = Some 0xfe" "get_int2 (skip (Suc 0) b) = Some warnings" "get_int2 (skip 3 b) = Some sstatus"
    using ahead_byte[OF a0] ahead_int2[OF a1] ahead_int2[OF a2] by simp_all
qed

text \<open>The EOF packet behind the last row, and a row of which only a part has been received.\<close>

lemma next_row_eof:
  assumes held: "row_held row (packet n (eof_payload warnings sstatus) @ rest) con"
    and n: "n = packet_number con + 1" "n < 0x80"
  shows "\<exists>con'. attachsql_get_next_row con = Some (ATTACHSQL_COMMAND_STATUS_EOF, con') \<and>
    con_status con' = ATTACHSQL_CON_STATUS_IDLE \<and> command_status con' = ATTACHSQL_COMMAND_STATUS_EOF \<and>
    server_status con' = sstatus \<and> warning_count con' = warnings \<and> expects_none con' \<and> unread con' rest \<and>
    same_client con con' \<and> same_memory con con' \<and> column_count (con_result con') = column_count (con_result con)"
proof -
  let ?p = "eof_payload warnings sstatus"
  obtain b con1 where w: "row_awaited con b (packet n ?p @ rest) con1" using next_row_begins[OF held] .
  then have c: "read_buffer con1 = Some b" "buffer_ok b" "buffer_bytes b = packet n ?p @ rest"
    "expects ATTACHSQL_PACKET_TYPE_ROW con1" "packet_number con1 = packet_number con"
    "attachsql_get_next_row con = do { (_, con) \<leftarrow> process_loop con1; Some (command_status con, con) }"
    by (simp_all add: row_awaited_def)
  have len: "length ?p = 5" "length ?p < 2 ^ 24" by (simp_all add: eof_payload_def)
  let ?b = "packet_body (of_nat (length ?p)) b" and ?c2 = "taken (length ?p) n b con1"
  have pin: "packet_in ?b ?p rest" by (rule packet_body_in[OF c(2,3) len(2)])
  note f = eof_fields[OF packet_in_ahead[OF pin]]
  let ?c3 = "?c2\<lparr>con_result := (con_result ?c2)\<lparr>row_data := None, row_length := 0\<rparr>,
      warning_count := warnings, server_status := sstatus, read_buffer := Some (past_packet ?b),
      command_status := ATTACHSQL_COMMAND_STATUS_EOF, con_status := ATTACHSQL_CON_STATUS_IDLE\<rparr>"
  have s3: "skip 2 (skip 1 ?b) = skip 3 ?b" by simp
  have "read_buffer ?c2 = Some ?b" "command_status ?c2 = ATTACHSQL_COMMAND_STATUS_READ_ROW"
    using w by (simp_all add: taken_def row_awaited_def)
  then have "attachsql_packet_read_row ?c2 = Some ?c3"
    using f read_end_past[OF pin]
    by (simp add: attachsql_packet_read_row_def attachsql_packet_read_response_def read_eof_packet_def Let_def
        attachsql_packet_read_end_def s3 numeral_3_eq_3)
  moreover have "n = next_number ATTACHSQL_PACKET_TYPE_ROW con1" using n(1) c(5) by (simp add: next_number_def)
  ultimately have "process_packet con1 = Some (Some True, ?c3)"
    using turn_packet[OF c(1-3) len(2) c(4)] n(2) by (simp add: stops_def)
  then have "attachsql_get_next_row con = Some (ATTACHSQL_COMMAND_STATUS_EOF, ?c3)"
    using c(6) by (simp add: process_loop.simps[of con1])
  moreover have "expects_none ?c3"
    using taken_expects[OF c(4), of "length ?p" n b] expects_none_frame[of ?c3 ?c2] by (simp add: queue_fields_def)
  moreover have "unread ?c3 rest" using past_packet_ok[OF pin] by (simp add: unread_def)
  ultimately show ?thesis using w by (intro exI[of _ ?c3]) (auto simp: row_awaited_def taken_def same_defs same_memory_def)
qed

lemma next_row_partial:
  assumes held: "row_held row (take k (packet n row')) con"
    and k: "k < length (packet n row')" "length row' < 2 ^ 24"
  shows "\<exists>con'. attachsql_get_next_row con = Some (ATTACHSQL_COMMAND_STATUS_READ_ROW, con') \<and>
    con_status con' = ATTACHSQL_CON_STATUS_IDLE \<and> command_status con' = ATTACHSQL_COMMAND_STATUS_READ_ROW \<and>
    same_client con con'"
proof -
  obtain b con1 where w: "row_awaited con b (take k (packet n row')) con1" using next_row_begins[OF held] .
  then have c: "read_buffer con1 = Some b" "buffer_ok b" "buffer_bytes b = take k (packet n row')"
    "expects ATTACHSQL_PACKET_TYPE_ROW con1"
    "attachsql_get_next_row con = do { (_, con) \<leftarrow> process_loop con1; Some (command_status con, con) }"
    by (simp_all add: row_awaited_def)
  obtain size where "process_packet con1 = Some (Some False, con1\<lparr>packet_size := size\<rparr>)"
    using turn_partial[OF c(1-3) k c(4)] by auto
  then show ?thesis using c(5) w
    by (intro exI[of _ "con1\<lparr>packet_size := size\<rparr>"]) (auto simp: process_loop.simps[of con1] row_awaited_def same_defs)
qed

section \<open>The values of a row\<close>

definition value_bytes :: "'a con_core_scheme \<Rightarrow> attachsql_query_row_st \<Rightarrow> byte list option" where
  "value_bytes con v = do { (b, p) \<leftarrow> deref con (row_value v); blk_read b p (row_value_length v) }"

definition row_payload :: "byte list list \<Rightarrow> byte list" where
  "row_payload vs = concat (map enc_string vs)"

lemma read_values_ok:
  assumes "blk_has b p (row_payload vs)" "\<forall>v \<in> set vs. string_good v" "blk_size b < 2 ^ 62"
  shows "\<exists>rs. read_values b gen (length vs) p = Some rs \<and> length rs = length vs \<and>
    list_all2 (\<lambda>v r. fst (row_value r) = gen \<and> blk_read b (snd (row_value r)) (row_value_length r) = Some v) vs rs"
  using assms
proof (induction vs arbitrary: p)
  case (Cons v vs)
  let ?n = "of_nat (length v) :: uint64"
  let ?p = "p + length (enc_length ?n)"
  have h: "blk_has b p (enc_length ?n)" "blk_has b ?p v" "blk_has b (?p + length v) (row_payload vs)"
    using Cons.prems(1) by (simp_all add: row_payload_def enc_string_def blk_has_append add.assoc)
  have good: "len_good ?n" "length v < 2 ^ 64" using Cons.prems(2) by (simp_all add: string_good_def)
  then have u: "unat ?n = length v" by (simp add: unat_of_nat take_bit_nat_eq_self)
  have e: "enc_length ?n \<noteq> []" by (simp add: enc_length_def)
  have "?p + length v \<le> blk_size b"
    using blk_has_bound[OF h(1) e] blk_has_bound[OF h(2)] by (cases "v = []") auto
  then have m: "(?p + unat ?n) mod 2 ^ 64 = ?p + length v" using Cons.prems(3) u by simp
  obtain rs where rs: "read_values b gen (length vs) (?p + length v) = Some rs" "length rs = length vs"
    "list_all2 (\<lambda>v r. fst (row_value r) = gen \<and> blk_read b (snd (row_value r)) (row_value_length r) = Some v) vs rs"
    using Cons.IH[OF h(3)] Cons.prems by auto
  have un: "unpack_length_at b p = Some (?n, length (enc_length ?n))" by (rule unpack_enc_length[OF good(1) h(1)])
  then show ?case using rs m u blk_read_has[OF h(2)]
    by (simp add: Let_def)
qed (simp add: row_payload_def)

lemma alloc_only: "alloc con = (ok, c) \<Longrightarrow> \<exists>as. c = con\<lparr>allocs := as\<rparr>"
  by (auto simp: alloc_def split: list.splits intro: exI[of _ "[]"])

lemma row_held_frame:
  assumes "row_held row rest con" "queue_fields con' = queue_fields con" "read_buffer con' = read_buffer con"
    "con_result con' = con_result con" "command_status con' = command_status con" "con_status con' = con_status con"
    "opt_compression con' = opt_compression con"
  shows "row_held row rest con'"
proof -
  have "queue_room con' = queue_room con" "expects_none con'"
    using assms(1,2) queue_frame[OF assms(2)]
    by (auto simp: row_held_def expects_none_def queue_room_def queue_fields_def)
  then show ?thesis using assms by (simp add: row_held_def queue_fields_def)
qed

lemma held_values:
  assumes held: "row_held (row_payload vs) rest con"
    and vs: "length vs = unat (column_count (con_result con))" "vs \<noteq> []" "\<forall>v \<in> set vs. string_good v"
  obtains rs where "row_values con = Some rs" "length rs = length vs" "map (value_bytes con) rs = map Some vs"
proof -
  obtain b where b: "read_buffer con = Some b" "packet_in b (row_payload vs) rest"
    "row_data (con_result con) = Some (buffer_gen b, buffer_read_ptr b)"
    using held by (auto simp: row_held_def)
  have has: "blk_has (buffer b) (buffer_read_ptr b) (row_payload vs)"
    using packet_in_ahead[OF b(2)] by (simp add: ahead_def blk_has_append)
  have size: "blk_size (buffer b) < 2 ^ 62" using b(2) by (simp add: packet_in_def buffer_ok_def)
  obtain rs where rs: "read_values (buffer b) (buffer_gen b) (length vs) (buffer_read_ptr b) = Some rs" "length rs = length vs"
    "list_all2 (\<lambda>v r. fst (row_value r) = buffer_gen b \<and> blk_read (buffer b) (snd (row_value r)) (row_value_length r) = Some v) vs rs"
    using read_values_ok[OF has vs(3) size] by blast
  have count: "column_count (con_result con) \<noteq> 0" using vs(1,2) by auto
  then have "row_values con = Some rs" using b rs(1) vs(1) by (simp add: row_values_def deref_def)
  moreover have "map (value_bytes con) rs = map Some vs"
    using rs(2,3) b(1) by (auto simp: list_eq_iff_nth_eq list_all2_conv_all_nth value_bytes_def deref_def)
  ultimately show thesis using that rs(2) by blast
qed

lemma values_frame:
  assumes "read_buffer con' = read_buffer con"
  shows "value_bytes con' = value_bytes con" "con_result con' = con_result con \<Longrightarrow> row_values con' = row_values con"
  using assms by (simp_all add: fun_eq_iff value_bytes_def deref_def row_values_def)

text \<open>The caller's array for a row: allocated at the first row, then used again.\<close>

definition row_array_ok :: "nat \<Rightarrow> attachsql_connect_t \<Rightarrow> bool" where
  "row_array_ok n con \<longleftrightarrow> (case con_row con of None \<Rightarrow> fst (alloc con) | Some old \<Rightarrow> length old = n)"

lemma row_get_held:
  assumes held: "row_held (row_payload vs) rest con" and plain: "\<not> buffer_rows con"
    and vs: "length vs = unat (column_count (con_result con))" "vs \<noteq> []" "\<forall>v \<in> set vs. string_good v"
    and arr: "row_array_ok (length vs) con"
  shows "\<exists>row con'. attachsql_query_row_get (Some con) error = Some (Some row, error, Some con') \<and>
    map (value_bytes con') row = map Some vs \<and> row_held (row_payload vs) rest con' \<and>
    con_row con' = Some row \<and> length row = length vs \<and> packet_number con' = packet_number con \<and>
    con_result con' = con_result con \<and> (\<exists>as. con' = con\<lparr>allocs := as, con_row := Some row\<rparr> \<and> (allocs con = [] \<longrightarrow> as = []))"
proof -
  obtain rs where rs: "row_values con = Some rs" "length rs = length vs" "map (value_bytes con) rs = map Some vs"
    using held_values[OF held vs] .
  obtain as where con1: "(if con_row con = None then alloc con else (True, con)) = (True, con\<lparr>allocs := as\<rparr>)"
    "allocs con = [] \<longrightarrow> as = []"
  proof (cases "con_row con")
    case None
    then obtain c where c: "alloc con = (True, c)" using arr by (cases "alloc con") (simp add: row_array_ok_def)
    obtain as where as: "c = con\<lparr>allocs := as\<rparr>" using alloc_only[OF c] by blast
    have "as = []" if "allocs con = []"
      using arg_cong[of _ _ "\<lambda>x. allocs (snd x)", OF c] that by (simp add: alloc_def as)
    then show ?thesis using None that[of as] c as by simp
  next
    case (Some old)
    then show ?thesis using that[of "allocs con"] by simp
  qed
  let ?c1 = "con\<lparr>allocs := as\<rparr>"
  let ?c = "con\<lparr>allocs := as, con_row := Some rs\<rparr>"
  have "row_values ?c1 = Some rs" using rs(1) values_frame(2)[of ?c1 con] by simp
  moreover have "(case con_row ?c1 of None \<Rightarrow> Some rs | Some old \<Rightarrow>
      if length vs \<le> length old then Some (rs @ drop (length vs) old) else None) = Some rs"
    using arr by (auto simp: row_array_ok_def split: option.splits)
  ultimately have "attachsql_query_row_get (Some con) error = Some (Some rs, error, Some ?c)"
    using held plain con1(1)
    by (simp add: attachsql_query_row_get_def row_held_def Let_def split_beta vs(1)[symmetric])
  moreover have "map (value_bytes ?c) rs = map Some vs" using rs(3) values_frame(1)[of ?c con] by simp
  moreover have "row_held (row_payload vs) rest ?c"
    by (rule row_held_frame[OF held]) (simp_all add: queue_fields_def)
  ultimately show ?thesis using rs(2) con1(2) by (intro exI[of _ rs] exI[of _ ?c] conjI exI[of _ as]) simp_all
qed

section \<open>All rows of a result\<close>

text \<open>What a caller does: read the values of the row, ask for the next one.\<close>

fun fetch_rows :: "nat \<Rightarrow> attachsql_connect_t \<Rightarrow> (byte list option list list \<times> attachsql_connect_t) option" where
  "fetch_rows 0 con = Some ([], con)"
| "fetch_rows (Suc k) con =
     do { (row, _, c) \<leftarrow> attachsql_query_row_get (Some con) None;
          row \<leftarrow> row;
          con \<leftarrow> c;
          let vs = map (value_bytes con) row;
          c \<leftarrow> attachsql_query_row_next (Some con);
          con \<leftarrow> c;
          (rs, con) \<leftarrow> fetch_rows k con;
          Some (vs # rs, con) }"

text \<open>The packets behind the first row: the other rows, numbered on, and the EOF packet.\<close>

fun row_stream :: "byte \<Rightarrow> byte list list list \<Rightarrow> byte list \<Rightarrow> byte list" where
  "row_stream n [] eof = packet n eof"
| "row_stream n (r # rs) eof = packet n (row_payload r) @ row_stream (n + 1) rs eof"

definition row_good :: "nat \<Rightarrow> byte list list \<Rightarrow> bool" where
  "row_good n vs \<longleftrightarrow> vs \<noteq> [] \<and> length vs = n \<and> (\<forall>v \<in> set vs. string_good v) \<and> length (row_payload vs) < 2 ^ 24"

lemma row_payload_starts:
  assumes "row_good n vs" shows "row_payload vs \<noteq> [] \<and> hd (row_payload vs) \<noteq> 0xfe"
proof -
  obtain v ws where v: "vs = v # ws" using assms by (cases vs) (auto simp: row_good_def)
  let ?n = "of_nat (length v) :: uint64"
  have l: "length v < 2 ^ 24" using assms by (simp add: row_good_def v row_payload_def enc_string_def)
  then have "unat ?n < 2 ^ 24" by (simp add: unat_of_nat take_bit_nat_eq_self)
  then have "?n \<le> 0xffffff" by (simp add: word_le_nat_alt)
  moreover have "?n < 0x80 \<or> 0xfa < ?n" using assms by (auto simp: row_good_def v string_good_def len_good_def)
  ultimately have "enc_length ?n \<noteq> [] \<and> hd (enc_length ?n) \<noteq> 0xfe"
  proof (cases "?n < 0x80")
    case True
    then have n: "?n \<le> 0xfa" by (simp add: word_less_nat_alt word_le_nat_alt)
    then have "(ucast ?n :: byte) \<noteq> 0xfe" using ucast_below[OF n] by auto
    then show ?thesis using n by (simp add: enc_length_def)
  qed (auto simp: enc_length_def)
  then show ?thesis by (auto simp: row_payload_def v enc_string_def)
qed

lemma unat_plus1:
  assumes "unat n + k + 1 < 128" shows "unat (n + 1 :: byte) = unat n + 1" "n + 1 < (0x80 :: byte)"
proof -
  have "unat n + unat (1 :: byte) < 2 ^ LENGTH(8)" using assms by simp
  then show u: "unat (n + 1 :: byte) = unat n + 1" by (subst unat_add_lem[THEN iffD1]) simp_all
  show "n + 1 < (0x80 :: byte)" using u assms by (simp add: word_less_nat_alt)
qed

text \<open>What a query leaves alone while its rows are fetched.\<close>

definition client_view :: "attachsql_connect_t \<Rightarrow>
    bool option \<times> bool \<times> bool \<times> bool \<times> block option \<times> bool \<times> nat \<times> rows_ptr \<times> nat \<times> nat \<times> nat \<times>
    uv_event list list \<times> (attachsql_events_t \<times> attachsql_error_t option) list \<times> bool" where
  "client_view con = (con_pool con, loop_present con, in_query con, buffer_rows con, query_buffer con, query_buffer_alloc con,
     query_buffer_length con, row_buffer con, row_buffer_alloc_size con, row_buffer_count con,
     row_buffer_position con, uv_events con, callbacks con, query_buffer_statement con)"

definition same_session :: "attachsql_connect_t \<Rightarrow> attachsql_connect_t \<Rightarrow> bool" where
  "same_session con con' \<longleftrightarrow> same_core con con' \<and> client_view con' = client_view con"

lemma same_but_stmt_session: "same_but_stmt con con' \<Longrightarrow> same_session con con'"
  by (cases con; cases con') (simp add: same_but_stmt_def same_session_def client_view_def)

lemma same_client_session: "same_client con con' \<Longrightarrow> same_session con con'"
  by (simp add: same_client_def same_but_stmt_session)

lemma same_session_trans: "same_session a b \<Longrightarrow> same_session b c \<Longrightarrow> same_session a c"
  by (simp add: same_session_def same_core_def)

lemma same_session_row:
  "allocs con = [] \<longrightarrow> as = [] \<Longrightarrow> same_session con (con\<lparr>allocs := as, con_row := row, last_callback := cb\<rparr>)"
  by (simp add: same_session_def client_view_def same_defs)

text \<open>One turn of a caller's loop: the row that is held is read, and the next one is held, or the end is reached.\<close>

lemma row_taken:
  assumes "row_held (row_payload r) rest con" "row_good (unat (column_count (con_result con))) r"
    and "\<not> buffer_rows con" "row_array_ok (length r) con"
  obtains row con1 where "attachsql_query_row_get (Some con) error = Some (Some row, error, Some con1)"
    "map (value_bytes con1) row = map Some r" "con_row con1 = Some row" "length row = length r"
    "column_count (con_result con1) = column_count (con_result con)" "packet_number con1 = packet_number con"
    "row_held (row_payload r) rest (con1\<lparr>last_callback := ATTACHSQL_EVENT_NONE\<rparr>)"
    "same_session con (con1\<lparr>last_callback := ATTACHSQL_EVENT_NONE\<rparr>)" "\<not> buffer_rows con1"
proof -
  have len: "length r = unat (column_count (con_result con))" "r \<noteq> []" "\<forall>v \<in> set r. string_good v"
    using assms(2) by (simp_all add: row_good_def)
  obtain row con1 where g: "attachsql_query_row_get (Some con) error = Some (Some row, error, Some con1)"
    "map (value_bytes con1) row = map Some r" "row_held (row_payload r) rest con1"
    "con_row con1 = Some row" "length row = length r" "packet_number con1 = packet_number con"
    "con_result con1 = con_result con"
    "\<exists>as. con1 = con\<lparr>allocs := as, con_row := Some row\<rparr> \<and> (allocs con = [] \<longrightarrow> as = [])"
    using row_get_held[OF assms(1,3) len assms(4), of error] by blast
  have "row_held (row_payload r) rest (con1\<lparr>last_callback := ATTACHSQL_EVENT_NONE\<rparr>)"
    using row_held_frame[OF g(3), of "con1\<lparr>last_callback := ATTACHSQL_EVENT_NONE\<rparr>"] by (simp add: queue_fields_def)
  moreover have "same_session con (con1\<lparr>last_callback := ATTACHSQL_EVENT_NONE\<rparr>)" "\<not> buffer_rows con1"
    using g(8) same_session_row assms(3) by auto
  ultimately show thesis using that g by simp
qed

lemma row_then_row:
  assumes "row_held (row_payload r) (row_stream (packet_number con + 1) (r' # rs) eof @ rest) con"
    and "row_good (unat (column_count (con_result con))) r" "row_good (unat (column_count (con_result con))) r'"
    and "unat (packet_number con) + length (r' # rs) + 1 < 128" "\<not> buffer_rows con" "row_array_ok (length r) con"
  obtains row con1 con2 where "attachsql_query_row_get (Some con) error = Some (Some row, error, Some con1)"
    "map (value_bytes con1) row = map Some r" "column_count (con_result con1) = column_count (con_result con)"
    "attachsql_query_row_next (Some con1) = Some (Some con2)"
    "row_held (row_payload r') (row_stream (packet_number con2 + 1) rs eof @ rest) con2"
    "column_count (con_result con2) = column_count (con_result con)" "unat (packet_number con2) + length rs + 1 < 128"
    "row_array_ok (length r') con2" "same_session con con2" "\<not> buffer_rows con2"
proof -
  let ?n = "packet_number con + 1"
  obtain row con1 where g: "attachsql_query_row_get (Some con) error = Some (Some row, error, Some con1)"
    "map (value_bytes con1) row = map Some r" "con_row con1 = Some row" "length row = length r"
    "column_count (con_result con1) = column_count (con_result con)" "packet_number con1 = packet_number con"
    "row_held (row_payload r) (row_stream ?n (r' # rs) eof @ rest) (con1\<lparr>last_callback := ATTACHSQL_EVENT_NONE\<rparr>)"
    "same_session con (con1\<lparr>last_callback := ATTACHSQL_EVENT_NONE\<rparr>)" "\<not> buffer_rows con1"
    using row_taken[OF assms(1,2,5,6)] .
  let ?c = "con1\<lparr>last_callback := ATTACHSQL_EVENT_NONE\<rparr>" and ?s = "row_stream (?n + 1) rs eof @ rest"
  have held: "row_held (row_payload r) (packet ?n (row_payload r') @ ?s) ?c" using g(7) by simp
  have n: "?n = packet_number ?c + 1" "?n < 0x80" "unat ?n + length rs + 1 < 128"
    using g(6) unat_plus1[OF assms(4)] assms(4) by simp_all
  have p: "row_payload r' \<noteq> []" "hd (row_payload r') \<noteq> 0xfe" "length (row_payload r') < 2 ^ 24"
    using row_payload_starts[OF assms(3)] assms(3) by (simp_all add: row_good_def)
  obtain con2 where e: "attachsql_get_next_row ?c = Some (ATTACHSQL_COMMAND_STATUS_ROW_IN_BUFFER, con2)"
    "row_held (row_payload r') ?s con2" "packet_number con2 = ?n"
    "column_count (con_result con2) = column_count (con_result ?c)" "same_client ?c con2"
    using next_row[OF held n(1,2) p] by blast
  have more: "buffer_rows con2 = buffer_rows con1" "con_row con2 = Some row"
    using e(5) g(3) by (cases con2; cases con1; simp add: same_client_def same_but_stmt_def)+
  have "row_array_ok (length r') con2" using more(2) g(4) assms(2,3) by (simp add: row_array_ok_def row_good_def)
  moreover have "attachsql_query_row_next (Some con1) = Some (Some con2)"
    using e(1) g(9) by (simp add: attachsql_query_row_next_def Let_def)
  ultimately show thesis
    using that[OF g(1,2,5)] e(2-4) n(3) g(5,9) more(1) same_session_trans[OF g(8) same_client_session[OF e(5)]] by simp
qed

lemma row_then_eof:
  assumes "row_held (row_payload r) (packet (packet_number con + 1) (eof_payload warnings sstatus) @ rest) con"
    and "row_good (unat (column_count (con_result con))) r"
    and "unat (packet_number con) + 1 < 128" "\<not> buffer_rows con" "row_array_ok (length r) con"
  obtains row con1 con2 where "attachsql_query_row_get (Some con) error = Some (Some row, error, Some con1)"
    "map (value_bytes con1) row = map Some r" "column_count (con_result con1) = column_count (con_result con)"
    "attachsql_query_row_next (Some con1) = Some (Some con2)"
    "con_status con2 = ATTACHSQL_CON_STATUS_IDLE" "command_status con2 = ATTACHSQL_COMMAND_STATUS_EOF"
    "server_status con2 = sstatus" "warning_count con2 = warnings" "expects_none con2" "unread con2 rest" "same_session con con2"
proof -
  let ?n = "packet_number con + 1"
  obtain row con1 where g: "attachsql_query_row_get (Some con) error = Some (Some row, error, Some con1)"
    "map (value_bytes con1) row = map Some r" "con_row con1 = Some row" "length row = length r"
    "column_count (con_result con1) = column_count (con_result con)" "packet_number con1 = packet_number con"
    "row_held (row_payload r) (packet ?n (eof_payload warnings sstatus) @ rest) (con1\<lparr>last_callback := ATTACHSQL_EVENT_NONE\<rparr>)"
    "same_session con (con1\<lparr>last_callback := ATTACHSQL_EVENT_NONE\<rparr>)" "\<not> buffer_rows con1"
    using row_taken[OF assms(1,2,4,5)] .
  let ?c = "con1\<lparr>last_callback := ATTACHSQL_EVENT_NONE\<rparr>"
  have n: "?n = packet_number ?c + 1" "?n < 0x80" using g(6) unat_plus1[of "packet_number con" 0] assms(3) by simp_all
  obtain con' where e: "attachsql_get_next_row ?c = Some (ATTACHSQL_COMMAND_STATUS_EOF, con')"
    "con_status con' = ATTACHSQL_CON_STATUS_IDLE" "command_status con' = ATTACHSQL_COMMAND_STATUS_EOF"
    "server_status con' = sstatus" "warning_count con' = warnings" "expects_none con'" "unread con' rest"
    "same_client ?c con'"
    using next_row_eof[OF g(7) n] by blast
  have "attachsql_query_row_next (Some con1) = Some (Some con')"
    using e(1) g(9) by (simp add: attachsql_query_row_next_def Let_def)
  then show thesis using that[OF g(1,2,5)] e(2-7) same_session_trans[OF g(8) same_client_session[OF e(8)]] by simp
qed

lemma fetch_rows_ok:
  assumes "row_held (row_payload r) (row_stream (packet_number con + 1) rs (eof_payload warnings sstatus) @ rest) con"
    and "\<forall>row \<in> set (r # rs). row_good (unat (column_count (con_result con))) row"
    and "unat (packet_number con) + length rs + 1 < 128"
    and "\<not> buffer_rows con" "row_array_ok (length r) con"
  shows "\<exists>con'. fetch_rows (length (r # rs)) con = Some (map (map Some) (r # rs), con') \<and>
    con_status con' = ATTACHSQL_CON_STATUS_IDLE \<and> command_status con' = ATTACHSQL_COMMAND_STATUS_EOF \<and>
    server_status con' = sstatus \<and> warning_count con' = warnings \<and> expects_none con' \<and> unread con' rest \<and>
    same_session con con'"
  using assms
proof (induction rs arbitrary: r con)
  case Nil
  have r: "row_good (unat (column_count (con_result con))) r" "unat (packet_number con) + 1 < 128" using Nil.prems(2,3) by simp_all
  obtain row con1 con2 where "attachsql_query_row_get (Some con) None = Some (Some row, None, Some con1)"
    "map (value_bytes con1) row = map Some r" "column_count (con_result con1) = column_count (con_result con)"
    "attachsql_query_row_next (Some con1) = Some (Some con2)"
    "con_status con2 = ATTACHSQL_CON_STATUS_IDLE" "command_status con2 = ATTACHSQL_COMMAND_STATUS_EOF"
    "server_status con2 = sstatus" "warning_count con2 = warnings" "expects_none con2" "unread con2 rest" "same_session con con2"
    using row_then_eof[OF Nil.prems(1)[unfolded row_stream.simps] r Nil.prems(4,5)] .
  then show ?case by (simp add: Let_def)
next
  case (Cons r' rs)
  have r: "row_good (unat (column_count (con_result con))) r" "row_good (unat (column_count (con_result con))) r'"
    using Cons.prems(2) by simp_all
  obtain row con1 con2 where g: "attachsql_query_row_get (Some con) None = Some (Some row, None, Some con1)"
    "map (value_bytes con1) row = map Some r" "column_count (con_result con1) = column_count (con_result con)"
    "attachsql_query_row_next (Some con1) = Some (Some con2)"
    "row_held (row_payload r') (row_stream (packet_number con2 + 1) rs (eof_payload warnings sstatus) @ rest) con2"
    "column_count (con_result con2) = column_count (con_result con)" "unat (packet_number con2) + length rs + 1 < 128"
    "row_array_ok (length r') con2" "same_session con con2" "\<not> buffer_rows con2"
    using row_then_row[OF Cons.prems(1) r Cons.prems(3-5)] .
  obtain con' where f: "fetch_rows (length (r' # rs)) con2 = Some (map (map Some) (r' # rs), con')"
    "con_status con' = ATTACHSQL_CON_STATUS_IDLE" "command_status con' = ATTACHSQL_COMMAND_STATUS_EOF"
    "server_status con' = sstatus" "warning_count con' = warnings" "expects_none con'" "unread con' rest"
    "same_session con2 con'"
    using Cons.IH[of r' con2] g(5-8,10) Cons.prems(2) by auto
  have "fetch_rows (Suc k) con = do { (rs, con) \<leftarrow> fetch_rows k con2; Some (map Some r # rs, con) }" for k
    using g(1,2,4) by (simp add: Let_def)
  from this[of "length (r' # rs)"] show ?case
    using f same_session_trans[OF g(9) f(8)] by (simp del: fetch_rows.simps)
qed

section \<open>Properties\<close>

text \<open>A connection that holds a row of one column, the second packet of the answer.\<close>

definition plain_lib :: libraries where
  "plain_lib = \<lparr>zlib_compressBound = (\<lambda>n. n), zlib_compress = Some, zlib_uncompress = Some, uv_err_name = (\<lambda>_. [])\<rparr>"

definition row_con :: "byte list \<Rightarrow> byte list \<Rightarrow> attachsql_connect_t" where
  "row_con row rest = (connect_init plain_lib [] [] [])
     \<lparr>con_status := ATTACHSQL_CON_STATUS_IDLE, read_buffer := Some (packet_buffer row rest), packet_number := 2,
      con_result := result_init\<lparr>column_count := 1, row_data := Some (0, 0), row_length := length row\<rparr>,
      command_status := ATTACHSQL_COMMAND_STATUS_ROW_IN_BUFFER,
      next_packet_queue := Some (replicate 64 None), next_packet_queue_size := 64\<rparr>"

lemma connect_init_fields [simp]:
  "opt_compression (connect_init l as rs es) = False" "next_packet_queue_used (connect_init l as rs es) = 0"
  "buffer_rows (connect_init l as rs es) = False" "con_row (connect_init l as rs es) = None"
  "allocs (connect_init l as rs es) = as" "server_errno (connect_init l as rs es) = 0"
  "con_pool (connect_init l as rs es) = None" "con_status (connect_init l as rs es) = ATTACHSQL_CON_STATUS_NOT_CONNECTED"
  "lib (connect_init l as rs es) = l" "uv_events (connect_init l as rs es) = es"
  by (simp_all add: connect_init_def con_core.defs core_init_def)

lemma row_con_held: "length (row @ rest) \<le> 4096 \<Longrightarrow> row_held row rest (row_con row rest)"
  using packet_buffer_in[of row rest]
  by (simp add: row_held_def row_con_def expects_none_def queue_ok_def expected_def queue_room_def)
     (simp add: packet_buffer_def)

text \<open>
  With the rows of a result in the read buffer, up to 126 packets into the answer, the caller's
  loop of \<open>attachsql_query_row_get\<close> and \<open>attachsql_query_row_next\<close> returns the values of every row,
  byte for byte and in order, and ends at EOF with the status of the server's EOF packet and
  nothing expected.
\<close>

theorem rows_fetched:
  assumes "row_held (row_payload r) (row_stream (packet_number con + 1) rs (eof_payload warnings sstatus) @ rest) con"
    and "\<forall>row \<in> set (r # rs). row_good (unat (column_count (con_result con))) row"
    and "unat (packet_number con) + length rs + 1 < 128"
    and "\<not> buffer_rows con" "row_array_ok (length r) con"
  shows "\<exists>con'. fetch_rows (length (r # rs)) con = Some (map (map Some) (r # rs), con') \<and>
    con_status con' = ATTACHSQL_CON_STATUS_IDLE \<and> command_status con' = ATTACHSQL_COMMAND_STATUS_EOF \<and>
    server_status con' = sstatus \<and> warning_count con' = warnings \<and> expects_none con' \<and> unread con' rest"
  using fetch_rows_ok[OF assms] by blast

lemma short_string_good: "length xs < 128 \<Longrightarrow> string_good xs"
  by (simp add: string_good_def len_good_def word_less_nat_alt unat_of_nat)

theorem rows_fetched_witness:
  "\<exists>con'. fetch_rows 2 (row_con (row_payload [[0x61]]) (row_stream 3 [[[0x62, 0x63]]] (eof_payload 0 2)))
     = Some ([[Some [0x61]], [Some [0x62, 0x63]]], con') \<and> server_status con' = 2"
proof -
  let ?r = "[[0x61]] :: byte list list" and ?rs = "[[[0x62, 0x63]]] :: byte list list list"
  let ?c = "row_con (row_payload ?r) (row_stream 3 ?rs (eof_payload 0 2))"
  have l: "length (row_payload ?r @ row_stream 3 ?rs (eof_payload 0 2)) \<le> 4096"
    by (simp add: row_payload_def enc_string_def enc_length_def packet_def eof_payload_def)
  have good: "\<forall>row \<in> set (?r # ?rs). row_good (unat (column_count (con_result ?c))) row"
    by (simp add: row_good_def short_string_good row_con_def row_payload_def enc_string_def enc_length_def)
  have held: "row_held (row_payload ?r) (row_stream (packet_number ?c + 1) ?rs (eof_payload 0 2) @ []) ?c"
    using row_con_held[OF l] by (simp add: row_con_def)
  have num: "unat (packet_number ?c) + length ?rs + 1 < 128" by (simp add: row_con_def)
  have "\<not> buffer_rows ?c" "row_array_ok (length ?r) ?c"
    by (simp_all add: row_con_def row_array_ok_def alloc_def)
  from rows_fetched[OF held good num this] show ?thesis
    by (auto simp: numeral_2_eq_2 simp del: fetch_rows.simps)
qed

text \<open>
  C35. When the next row has not been received whole, \<open>attachsql_query_row_next\<close> leaves the
  connection idle: the next \<open>attachsql_connect_poll\<close> does not wait for the rest of the row but
  fails its assertion.
\<close>

theorem partial_row_aborts:
  assumes "row_held row (take k (packet n row')) con" "k < length (packet n row')" "length row' < 2 ^ 24"
    and "server_errno con = 0" "\<not> buffer_rows con"
  shows "\<exists>con'. attachsql_query_row_next (Some con) = Some (Some con') \<and> attachsql_connect_poll (Some con') error = None"
proof -
  let ?c = "con\<lparr>last_callback := ATTACHSQL_EVENT_NONE\<rparr>"
  have "row_held row (take k (packet n row')) ?c"
    using row_held_frame[OF assms(1), of ?c] by (simp add: queue_fields_def)
  from next_row_partial[OF this assms(2,3)] obtain con' where
    c: "attachsql_get_next_row ?c = Some (ATTACHSQL_COMMAND_STATUS_READ_ROW, con')"
      "con_status con' = ATTACHSQL_CON_STATUS_IDLE" "command_status con' = ATTACHSQL_COMMAND_STATUS_READ_ROW"
      "same_client ?c con'"
    by auto
  then have "server_errno con' = server_errno con" "con_pool con' = con_pool con"
    by (simp_all add: same_defs) (cases con; cases con'; simp)
  then show ?thesis using assms(4,5) c
    by (simp add: attachsql_query_row_next_def Let_def attachsql_connect_poll_def attachsql_do_poll_def poll_idle_def)
qed

theorem partial_row_aborts_witness:
  "\<exists>con'. attachsql_query_row_next (Some (row_con [1, 0x61] [2, 0])) = Some (Some con') \<and>
     attachsql_connect_poll (Some con') (Some None) = None"
proof -
  have "take 2 (packet 3 [1, 0x62]) = [2, 0]" by (simp add: packet_def le_bytes_3)
  then have "row_held [1, 0x61] (take 2 (packet 3 [1, 0x62])) (row_con [1, 0x61] [2, 0])"
    using row_con_held[of "[1, 0x61]" "[2, 0]"] by simp
  from partial_row_aborts[OF this] show ?thesis by (simp add: packet_def row_con_def)
qed

text \<open>A connection that awaits a row.\<close>

definition answer_con :: "byte \<Rightarrow> byte list \<Rightarrow> attachsql_connect_t" where
  "answer_con n bytes = (row_con [] bytes)
     \<lparr>con_status := ATTACHSQL_CON_STATUS_BUSY, packet_number := n, command_status := ATTACHSQL_COMMAND_STATUS_READ_ROW,
      next_packet_queue := Some (Some ATTACHSQL_PACKET_TYPE_ROW # replicate 63 None), next_packet_queue_used := 1\<rparr>"

end
