(* ===== verification/Result_Set.thy ===== *)
theory Result_Set
  imports Exchange
begin

text \<open>
  The beginning of a result set: the header packet with the number of columns, a column definition
  for each, the EOF packet behind them and the first row, taken from the read buffer in one run of the
  packet loop.
\<close>

lemma loop_turn:
  assumes b: "read_buffer con = Some b" "buffer_ok b" "buffer_bytes b = packet n payload @ rest"
    and len: "length payload < 2 ^ 24" and e: "expects t con" and t: "t \<noteq> ATTACHSQL_PACKET_TYPE_NONE" "\<not> stops t"
    and n: "n = next_number t con" "n < 0x80"
    and r: "read_packet t (taken (length payload) n b con) = Some con'"
  shows "process_loop con = process_loop con'"
  using turn_packet[OF b len e t(1) n(1)] n(2) t(2) r by (subst process_loop.simps) simp

section \<open>Column definitions\<close>

text \<open>
  No default value follows a column definition in a result set, so what is read for it is the packet
  behind it: the first byte of its length and as many bytes.
\<close>

definition column_read :: "column_t \<Rightarrow> byte list \<Rightarrow> column_t" where
  "column_read c following =
     (let dv = take (unat (hd following)) (tl following)
      in (column_cut c)\<lparr>c_default_value := dv, c_default_size := length dv\<rparr>)"

lemma packet_as_string:
  assumes "length q < 128"
  shows "unat (hd (packet j q)) = length q"
    "packet j q = enc_string (take (length q) (tl (packet j q))) @ drop (Suc (length q)) (packet j q)"
proof -
  let ?v = "of_nat (length q) :: uint64"
  have v: "unat ?v = length q" using assms by (simp add: unat_of_nat take_bit_nat_eq_self)
  have p: "packet j q = ucast ?v # [ucast (drop_bit 8 ?v), ucast (drop_bit 16 ?v), j] @ q"
    by (simp add: packet_def le_bytes_3)
  show "unat (hd (packet j q)) = length q"
    using assms by (simp add: p unsigned_ucast_eq v take_bit_nat_eq_self)
  define xs where "xs = take (length q) (tl (packet j q))"
  have l: "length xs = length q" by (simp add: xs_def p)
  have "?v \<le> 0xfa" using assms v by (simp add: word_le_nat_alt)
  then have "enc_string xs = ucast ?v # xs" by (simp add: enc_string_def l enc_length_def)
  then have "packet j q = enc_string xs @ drop (Suc (length q)) (packet j q)" by (simp add: p xs_def)
  then show "packet j q = enc_string (take (length q) (tl (packet j q))) @ drop (Suc (length q)) (packet j q)"
    by (simp only: xs_def)
qed

lemma column_before_packet:
  assumes good: "column_good catalog c" and pin: "packet_in b (enc_column_head catalog c) (packet j q @ rest)"
    and q: "length q < 128"
  shows "packet_get_column b = Some (column_read c (packet j q), past_packet b)"
proof -
  let ?h = "enc_column_head catalog c" and ?s = "take (length q) (tl (packet j q))"
  have a: "ahead b (?h @ packet j q @ rest)" using packet_in_ahead[OF pin] .
  have "ahead (skip (length ?h) b) (enc_string ?s @ drop (Suc (length q)) (packet j q) @ rest)"
    using ahead_skip[OF a] packet_as_string(2)[OF q, of j] by (metis append_assoc)
  moreover have l: "length ?s = length q" by (simp add: packet_def)
  then have "string_good ?s" using q by (simp add: short_string_good)
  ultimately have "get_string ATTACHSQL_MAX_DEFAULT_VALUE_SIZE (skip (length ?h) b) =
      Some (?s, skip (length (enc_string ?s)) (skip (length ?h) b))"
    using get_string_ahead[of "skip (length ?h) b" ?s _ ATTACHSQL_MAX_DEFAULT_VALUE_SIZE] q l by simp
  then show ?thesis using column_head_read[OF good a] read_end_past[OF pin]
    by (simp add: column_read_def packet_as_string(1)[OF q] Let_def)
qed

lemma column_turn:
  assumes b: "read_buffer con = Some b" "buffer_ok b" "buffer_bytes b = packet n (enc_column_head catalog c) @ packet j q @ rest"
    and good: "column_good catalog c" "length (enc_column_head catalog c) < 2 ^ 24" "length q < 128"
    and e: "expects ATTACHSQL_PACKET_TYPE_COLUMN con" and n: "n = packet_number con + 1" "n < 0x80"
    and cols: "result_columns (con_result con) = Some cols" "unat (current_column (con_result con)) < length cols"
  shows "\<exists>con'. process_loop con = process_loop con' \<and> unread con' (packet j q @ rest) \<and>
    expects (if current_column (con_result con) + 1 = column_count (con_result con)
             then ATTACHSQL_PACKET_TYPE_RESPONSE else ATTACHSQL_PACKET_TYPE_COLUMN) con' \<and>
    packet_number con' = n \<and> con_status con' = con_status con \<and> command_status con' = command_status con \<and>
    con_result con' = (con_result con)
      \<lparr>result_columns := Some (cols[unat (current_column (con_result con)) := Some (column_read c (packet j q))]),
       current_column := current_column (con_result con) + 1\<rparr> \<and> same_client con con'"
proof -
  let ?h = "enc_column_head catalog c" and ?r = "con_result con"
  let ?b = "packet_body (of_nat (length ?h)) b" and ?c2 = "taken (length ?h) n b con"
  let ?t = "if current_column ?r + 1 = column_count ?r then ATTACHSQL_PACKET_TYPE_RESPONSE else ATTACHSQL_PACKET_TYPE_COLUMN"
  have pin: "packet_in ?b ?h (packet j q @ rest)" by (rule packet_body_in[OF b(2,3) good(2)])
  let ?c3 = "?c2\<lparr>read_buffer := Some (past_packet ?b),
      con_result := ?r\<lparr>result_columns := Some (cols[unat (current_column ?r) := Some (column_read c (packet j q))]),
        current_column := current_column ?r + 1\<rparr>\<rparr>"
  have "expects_none ?c3"
    using taken_expects[OF e, of "length ?h" n b] expects_none_frame[of ?c3 ?c2] by (simp add: queue_fields_def)
  then obtain con' where p: "queue_push ?t ?c3 = Some con'" "expects ?t con'" using push_expects by blast
  have r2: "con_result ?c2 = ?r" by (simp add: taken_def)
  have get: "attachsql_packet_get_column ?c2 = Some (column_read c (packet j q), ?c2\<lparr>read_buffer := Some (past_packet ?b)\<rparr>)"
    using column_before_packet[OF good(1) pin good(3)] by (simp add: attachsql_packet_get_column_def taken_def)
  have "attachsql_packet_read_column ?c2 = Some con'"
    using p(1) cols by (simp add: attachsql_packet_read_column_def get r2 set_column_def Let_def cong: if_cong)
  then have "process_loop con = process_loop con'"
    using loop_turn[OF b good(2) e] n by (simp add: next_number_def stops_def)
  moreover have "unread con' (packet j q @ rest)"
    using past_packet_ok[OF pin] queue_push_rb[OF p(1)] by (simp add: unread_def)
  ultimately show ?thesis using p(2) queue_push_frame[OF p(1)] queue_push_same[OF p(1)] b(1)
    by (intro exI[of _ con']) (simp add: taken_def same_defs)
qed

text \<open>The packets of the column definitions, numbered on.\<close>

fun column_stream :: "byte \<Rightarrow> byte list \<Rightarrow> column_t list \<Rightarrow> byte list \<Rightarrow> byte list" where
  "column_stream n catalog [] rest = rest"
| "column_stream n catalog (c # cs) rest = packet n (enc_column_head catalog c) @ column_stream (n + 1) catalog cs rest"

text \<open>The packet behind the first of some column definitions, the last one an EOF packet.\<close>

fun following :: "byte \<Rightarrow> byte list \<Rightarrow> column_t list \<Rightarrow> byte list \<Rightarrow> byte list" where
  "following n catalog [] eof = packet n eof"
| "following n catalog (c # cs) eof = packet n (enc_column_head catalog c)"

fun columns_read :: "byte \<Rightarrow> byte list \<Rightarrow> column_t list \<Rightarrow> byte list \<Rightarrow> column_t list" where
  "columns_read n catalog [] eof = []"
| "columns_read n catalog (c # cs) eof = column_read c (following (n + 1) catalog cs eof) # columns_read (n + 1) catalog cs eof"

definition column_short :: "byte list \<Rightarrow> column_t \<Rightarrow> bool" where
  "column_short catalog c \<longleftrightarrow> column_good catalog c \<and> length (enc_column_head catalog c) < 128"

text \<open>A counter of 16 bits has come to the last of \<open>n\<close> more.\<close>

lemma count_last:
  assumes "k + n < 128" "0 < n" shows "((of_nat k + 1 :: uint16) = of_nat (k + n)) = (n = 1)"
proof -
  have small: "unat (of_nat m :: uint16) = m" if "m < 128" for m
    using that by (simp add: unat_of_nat take_bit_nat_eq_self)
  have "((of_nat (k + 1) :: uint16) = of_nat (k + n)) = (k + 1 = k + n)"
    unfolding word_unat_eq_iff using small[of "k + 1"] small[of "k + n"] assms by (simp del: of_nat_add of_nat_Suc)
  then show ?thesis by auto
qed

text \<open>
  The reader of one definition, for the columns of a result and for the parameters of a statement:
  it stores the definition at the current position and expects the next one, or the EOF packet
  behind the last. \<open>kept\<close> is what it leaves alone.
\<close>

locale definition_reader =
  fixes kind :: attachsql_packet_type_t
    and defs :: "'a con_core_scheme \<Rightarrow> column_t option list option"
    and current :: "'a con_core_scheme \<Rightarrow> uint16"
    and total :: "'a con_core_scheme \<Rightarrow> uint16"
    and kept :: "'a con_core_scheme \<Rightarrow> 'a con_core_scheme \<Rightarrow> bool"
  assumes turn: "\<lbrakk>unread con (packet (packet_number con + 1) (enc_column_head catalog c) @ packet j q @ rest);
      column_short catalog c; length q < 128; expects kind con; packet_number con + 1 < 0x80;
      defs con = Some cols; unat (current con) < length cols\<rbrakk> \<Longrightarrow>
      \<exists>con'. process_loop con = process_loop con' \<and> unread con' (packet j q @ rest) \<and>
        expects (if current con + 1 = total con then ATTACHSQL_PACKET_TYPE_RESPONSE else kind) con' \<and>
        packet_number con' = packet_number con + 1 \<and>
        defs con' = Some (cols[unat (current con) := Some (column_read c (packet j q))]) \<and>
        current con' = current con + 1 \<and> total con' = total con \<and> kept con con'"
    and kept_trans: "kept con con' \<Longrightarrow> kept con' con'' \<Longrightarrow> kept con con''"
begin

lemma definitions_loop:
  assumes "unread con (column_stream (packet_number con + 1) catalog cs
      (packet (packet_number con + 1 + of_nat (length cs)) eof @ rest))"
    and "cs \<noteq> []" "\<forall>c \<in> set cs. column_short catalog c" "length eof < 128"
    and "expects kind con"
    and "unat (packet_number con) + length cs + 1 < 128"
    and "defs con = Some (map Some old @ replicate (length cs) None)"
    and "current con = of_nat (length old)"
    and "total con = of_nat (length old + length cs)" "length old + length cs < 128"
  shows "\<exists>con'. process_loop con = process_loop con' \<and>
    unread con' (packet (packet_number con + 1 + of_nat (length cs)) eof @ rest) \<and>
    expects ATTACHSQL_PACKET_TYPE_RESPONSE con' \<and> packet_number con' = packet_number con + of_nat (length cs) \<and>
    defs con' = Some (map Some (old @ columns_read (packet_number con + 1) catalog cs eof)) \<and>
    current con' = total con \<and> total con' = total con \<and> kept con con'"
  using assms
proof (induction cs arbitrary: con old)
  case Nil
  then show ?case by simp
next
  case (Cons c cs)
  let ?n = "packet_number con + 1"
  let ?j = "?n + 1" and ?tail = "packet (?n + of_nat (length (c # cs))) eof @ rest"
  have num: "?n < 0x80" "unat ?n = unat (packet_number con) + 1" using unat_plus1[OF Cons.prems(6)] by simp_all
  obtain q rest' where q: "column_stream ?j catalog cs ?tail = packet ?j q @ rest'" "length q < 128"
    "packet ?j q = following ?j catalog cs eof"
  proof (cases cs)
    case Nil
    then show ?thesis using that[of eof rest] Cons.prems(4) by (simp add: add.assoc)
  next
    case (Cons c' cs')
    then show ?thesis using that Cons.prems(3) by (auto simp: column_short_def)
  qed
  have u: "unread con (packet ?n (enc_column_head catalog c) @ packet ?j q @ rest')" using Cons.prems(1) q(1) by simp
  have good: "column_short catalog c" using Cons.prems(3) by simp
  have i: "unat (current con) = length old"
    using Cons.prems(8,10) by (simp add: unat_of_nat take_bit_nat_eq_self)
  let ?cols = "map Some old @ replicate (length (c # cs)) None"
  have upd: "?cols[length old := Some (column_read c (packet ?j q))] =
      map Some (old @ [column_read c (packet ?j q)]) @ replicate (length cs) None"
    by (simp add: list_update_append)
  have last: "(current con + 1 = total con) = (cs = [])"
    unfolding Cons.prems(8,9) using count_last[of "length old" "length (c # cs)"] Cons.prems(10) by simp
  obtain con1 where t: "process_loop con = process_loop con1" "unread con1 (packet ?j q @ rest')"
    "expects (if current con + 1 = total con then ATTACHSQL_PACKET_TYPE_RESPONSE else kind) con1"
    "packet_number con1 = ?n" "defs con1 = Some (?cols[unat (current con) := Some (column_read c (packet ?j q))])"
    "current con1 = current con + 1" "total con1 = total con" "kept con con1"
    using turn[OF u good q(2) Cons.prems(5) num(1) Cons.prems(7)] i by auto
  have cols1: "defs con1 = Some (map Some (old @ [column_read c (packet ?j q)]) @ replicate (length cs) None)"
    using t(5) upd by (simp add: i)
  show ?case
  proof (cases "cs = []")
    case True
    then show ?thesis using t last cols1 q by (intro exI[of _ con1]) (simp add: add.assoc)
  next
    case False
    have "unread con1 (column_stream (packet_number con1 + 1) catalog cs
        (packet (packet_number con1 + 1 + of_nat (length cs)) eof @ rest))"
      using t(2,4) q(1) by (simp add: add.assoc)
    moreover have "expects kind con1" using t(3) last False by simp
    ultimately obtain con' where "process_loop con1 = process_loop con'"
      "unread con' (packet (packet_number con1 + 1 + of_nat (length cs)) eof @ rest)"
      "expects ATTACHSQL_PACKET_TYPE_RESPONSE con'" "packet_number con' = packet_number con1 + of_nat (length cs)"
      "defs con' = Some (map Some ((old @ [column_read c (packet ?j q)]) @ columns_read (packet_number con1 + 1) catalog cs eof))"
      "current con' = total con1" "total con' = total con1" "kept con1 con'"
      using Cons.IH[of con1 "old @ [column_read c (packet ?j q)]"] False Cons.prems(3,4,6,8,9,10) cols1 num t(4,6,7)
      by (auto simp: add.assoc)
    then show ?thesis using t q(3) kept_trans[OF t(8)] by (intro exI[of _ con']) (simp add: add.assoc)
  qed
qed

end

definition same_status :: "'a con_core_scheme \<Rightarrow> 'a con_core_scheme \<Rightarrow> bool" where
  "same_status con con' \<longleftrightarrow> con_status con' = con_status con \<and> command_status con' = command_status con"

interpretation result_columns: definition_reader ATTACHSQL_PACKET_TYPE_COLUMN "\<lambda>con. result_columns (con_result con)"
  "\<lambda>con. current_column (con_result con)" "\<lambda>con. column_count (con_result con)" "\<lambda>con con'. same_status con con' \<and> same_client con con'"
proof (unfold_locales, goal_cases)
  case (1 con catalog c j q rest cols)
  obtain b where b: "read_buffer con = Some b" "buffer_ok b"
    "buffer_bytes b = packet (packet_number con + 1) (enc_column_head catalog c) @ packet j q @ rest"
    using 1(1) by (auto simp: unread_def)
  have good: "column_good catalog c" "length (enc_column_head catalog c) < 2 ^ 24"
    using 1(2) by (auto simp: column_short_def)
  from column_turn[OF b good 1(3,4) refl 1(5-7)] show ?case by (auto simp: same_status_def)
next
  case (2 con con' con'')
  then show ?case by (auto simp: same_status_def intro: same_client_trans)
qed

section \<open>Header, EOF and first row\<close>

lemma taken_ready:
  assumes "expects t con" "queue_fields con' = queue_fields (taken len n b con)" shows "expects_none con'"
proof -
  have "expects_none (taken len n b con)" "next_packet_queue_size con' \<noteq> 0"
    using taken_expects[OF assms(1)] expects_used[OF assms(1)] assms(2) by (auto simp: queue_fields_def taken_def)
  then show ?thesis using queue_frame[OF assms(2)] assms(2)
    by (simp add: expects_none_def queue_room_def queue_fields_def taken_def)
qed

lemma alloc_True:
  assumes "fst (alloc con)" "allocs con' = allocs con" shows "\<exists>as. alloc con' = (True, con'\<lparr>allocs := as\<rparr>)"
proof -
  obtain ok c where c: "alloc con' = (ok, c)" by fastforce
  then have ok using assms by (auto simp: alloc_def split: list.splits)
  then show ?thesis using c alloc_only[OF c] by auto
qed

lemma header_turn:
  assumes u: "unread con (packet (packet_number con + 1) (enc_length (of_nat k)) @ rest)" and k: "0 < k" "k < 128"
    and e: "expects ATTACHSQL_PACKET_TYPE_RESPONSE con" and n: "packet_number con + 1 < 0x80" and ok: "fst (alloc con)"
  shows "\<exists>con'. process_loop con = process_loop con' \<and> unread con' rest \<and>
    expects ATTACHSQL_PACKET_TYPE_COLUMN con' \<and> packet_number con' = packet_number con + 1 \<and>
    command_status con' = ATTACHSQL_COMMAND_STATUS_READ_COLUMN \<and> con_status con' = con_status con \<and>
    con_result con' = (con_result con)\<lparr>column_count := of_nat k, result_columns := Some (replicate k None)\<rparr> \<and>
    same_client con con'"
proof -
  let ?n = "packet_number con + 1" and ?v = "of_nat k :: uint64"
  have v: "unat ?v = k" using k by (simp add: unat_of_nat take_bit_nat_eq_self)
  then have enc: "enc_length ?v = [ucast ?v]" using k by (simp add: enc_length_def word_le_nat_alt)
  have u8: "unat (ucast ?v :: byte) = k" using k v by (simp add: unsigned_ucast_eq take_bit_nat_eq_self)
  have byte: "(ucast ?v :: byte) \<noteq> 0" "(ucast ?v :: byte) \<noteq> 0xff" "(ucast ?v :: byte) \<noteq> 0xfe"
    using u8 k by (metis unat_0 neq0_conv) (use u8 k in \<open>auto simp: word_unat_eq_iff\<close>)
  have c16: "ucast ?v = (of_nat k :: uint16)" "unat (of_nat k :: uint16) = k"
    using k by (simp_all add: unat_of_nat take_bit_nat_eq_self unsigned_of_nat)
  obtain b where b: "read_buffer con = Some b" "buffer_ok b" "buffer_bytes b = packet ?n (enc_length ?v) @ rest"
    using u by (auto simp: unread_def)
  have len: "length (enc_length ?v) < 2 ^ 24" by (simp add: enc)
  let ?b = "packet_body (of_nat (length (enc_length ?v))) b" and ?c2 = "taken (length (enc_length ?v)) ?n b con"
  have pin: "packet_in ?b (enc_length ?v) rest" by (rule packet_body_in[OF b(2,3) len])
  have a: "ahead ?b (enc_length ?v @ rest)" using packet_in_ahead[OF pin] .
  have good: "len_good ?v" using k v by (simp add: len_good_def word_less_nat_alt)
  have g0: "get_byte ?b = Some (ucast ?v)" using a unfolding enc by (simp add: ahead_byte)
  obtain as where as: "alloc (?c2\<lparr>read_buffer := Some (skip (length (enc_length ?v)) ?b)\<rparr>) =
      (True, ?c2\<lparr>read_buffer := Some (skip (length (enc_length ?v)) ?b), allocs := as\<rparr>)"
    using alloc_True[OF ok, of "?c2\<lparr>read_buffer := Some (skip (length (enc_length ?v)) ?b)\<rparr>"] by (auto simp: taken_def)
  have none_left: "as = []" if "allocs con = []" using as that by (auto simp: alloc_def taken_def dest: arg_cong[of _ _ allocs])
  let ?c3 = "?c2\<lparr>allocs := as,
      con_result := (con_result con)\<lparr>column_count := of_nat k, result_columns := Some (replicate k None)\<rparr>,
      read_buffer := Some (past_packet ?b)\<rparr>"
  have "expects_none ?c3" by (rule taken_ready[OF e]) (simp add: queue_fields_def)
  then obtain con' where p: "queue_push ATTACHSQL_PACKET_TYPE_COLUMN ?c3 = Some con'" "expects ATTACHSQL_PACKET_TYPE_COLUMN con'"
    using push_expects by blast
  have r2: "read_buffer ?c2 = Some ?b" "con_result ?c2 = con_result con" by (simp_all add: taken_def)
  have gl: "\<exists>x. get_length ?b = Some (?v, x, skip (length (enc_length ?v)) ?b)"
    using ahead_length[OF a good] by blast
  have "read_result_packet ?b ?c2 = Some (con'\<lparr>command_status := ATTACHSQL_COMMAND_STATUS_READ_COLUMN\<rparr>)"
    using gl p(1) by (auto simp: read_result_packet_def as attachsql_packet_read_end_def read_end_past[OF pin] r2 c16 Let_def)
  then have "attachsql_packet_read_response ?c2 = Some (con'\<lparr>command_status := ATTACHSQL_COMMAND_STATUS_READ_COLUMN\<rparr>)"
    using g0 byte by (simp add: attachsql_packet_read_response_def r2)
  then have "process_loop con = process_loop (con'\<lparr>command_status := ATTACHSQL_COMMAND_STATUS_READ_COLUMN\<rparr>)"
    using loop_turn[OF b len e] n by (simp add: next_number_def stops_def)
  moreover have "unread (con'\<lparr>command_status := ATTACHSQL_COMMAND_STATUS_READ_COLUMN\<rparr>) rest"
    using past_packet_ok[OF pin] queue_push_rb[OF p(1)] by (simp add: unread_def)
  moreover have "expects ATTACHSQL_PACKET_TYPE_COLUMN (con'\<lparr>command_status := ATTACHSQL_COMMAND_STATUS_READ_COLUMN\<rparr>)"
    using p(2) queue_frame[of "con'\<lparr>command_status := ATTACHSQL_COMMAND_STATUS_READ_COLUMN\<rparr>" con']
    by (simp add: expects_def queue_fields_def)
  ultimately show ?thesis using queue_push_frame[OF p(1)] queue_push_same[OF p(1)] b(1) none_left
    by (intro exI[of _ "con'\<lparr>command_status := ATTACHSQL_COMMAND_STATUS_READ_COLUMN\<rparr>"])
       (simp add: taken_def same_defs)
qed

text \<open>The EOF packet behind the column definitions: a row is expected.\<close>

lemma eof_turn:
  assumes u: "unread con (packet (packet_number con + 1) (eof_payload warnings sstatus) @ rest)"
    and e: "expects ATTACHSQL_PACKET_TYPE_RESPONSE con" and n: "packet_number con + 1 < 0x80"
    and st: "command_status con = ATTACHSQL_COMMAND_STATUS_READ_COLUMN"
  shows "\<exists>con'. process_loop con = process_loop con' \<and> unread con' rest \<and>
    expects ATTACHSQL_PACKET_TYPE_ROW con' \<and> packet_number con' = packet_number con + 1 \<and>
    command_status con' = ATTACHSQL_COMMAND_STATUS_READ_ROW \<and> con_status con' = con_status con \<and>
    con_result con' = con_result con \<and> server_status con' = sstatus \<and> warning_count con' = warnings \<and>
    same_client con con'"
proof -
  let ?n = "packet_number con + 1" and ?p = "eof_payload warnings sstatus"
  obtain b where b: "read_buffer con = Some b" "buffer_ok b" "buffer_bytes b = packet ?n ?p @ rest"
    using u by (auto simp: unread_def)
  have len: "length ?p = 5" "length ?p < 2 ^ 24" by (simp_all add: eof_payload_def)
  let ?b = "packet_body (of_nat (length ?p)) b" and ?c2 = "taken (length ?p) ?n b con"
  have pin: "packet_in ?b ?p rest" by (rule packet_body_in[OF b(2,3) len(2)])
  note f = eof_fields[OF packet_in_ahead[OF pin]]
  let ?c3 = "?c2\<lparr>warning_count := warnings, server_status := sstatus, read_buffer := Some (skip 2 (skip 2 (skip 1 ?b))),
      command_status := ATTACHSQL_COMMAND_STATUS_READ_ROW\<rparr>"
  have "expects_none ?c3" by (rule taken_ready[OF e]) (simp add: queue_fields_def)
  then obtain con1 where p: "queue_push ATTACHSQL_PACKET_TYPE_ROW ?c3 = Some con1" "expects ATTACHSQL_PACKET_TYPE_ROW con1"
    using push_expects by blast
  let ?con' = "con1\<lparr>read_buffer := Some (past_packet ?b)\<rparr>"
  have rb: "read_buffer con1 = Some (skip (2 + (2 + 1)) ?b)" using queue_push_rb[OF p(1)] by (simp only: skip_skip) simp
  have c2: "read_buffer ?c2 = Some ?b" "command_status ?c2 = ATTACHSQL_COMMAND_STATUS_READ_COLUMN"
    using st by (simp_all add: taken_def)
  have "read_eof_packet ?b ?c2 = Some ?con'"
    using f read_end_at[OF rb pin] p(1) c2
    by (simp add: read_eof_packet_def Let_def numeral_3_eq_3)
  then have "attachsql_packet_read_response ?c2 = Some ?con'"
    using f c2 by (simp add: attachsql_packet_read_response_def)
  then have "process_loop con = process_loop ?con'"
    using loop_turn[OF b len(2) e] n by (simp add: next_number_def stops_def)
  moreover have "unread ?con' rest" using past_packet_ok[OF pin] by (simp add: unread_def)
  moreover have "expects ATTACHSQL_PACKET_TYPE_ROW ?con'"
    using p(2) queue_frame[of ?con' con1] by (simp add: expects_def queue_fields_def)
  ultimately show ?thesis using queue_push_frame[OF p(1)] queue_push_same[OF p(1)] b(1)
    by (intro exI[of _ ?con']) (simp add: taken_def same_defs)
qed

text \<open>The first row: the loop stops with it in the buffer.\<close>

lemma row_turn:
  assumes u: "unread con (packet (packet_number con + 1) row @ rest)" and n: "packet_number con + 1 < 0x80"
    and e: "expects ATTACHSQL_PACKET_TYPE_ROW con" and comp: "\<not> opt_compression con"
    and row: "row \<noteq> []" "hd row \<noteq> 0xfe" "length row < 2 ^ 24"
  shows "\<exists>con'. process_loop con = Some (True, con') \<and> row_held row rest con' \<and>
    packet_number con' = packet_number con + 1 \<and>
    con_result con' = (con_result con)\<lparr>row_data := row_data (con_result con'), row_length := length row\<rparr> \<and>
    server_status con' = server_status con \<and> warning_count con' = warning_count con \<and> same_client con con'"
proof -
  let ?n = "packet_number con + 1"
  obtain b where b: "read_buffer con = Some b" "buffer_ok b" "buffer_bytes b = packet ?n row @ rest"
    using u by (auto simp: unread_def)
  let ?b = "packet_body (of_nat (length row)) b" and ?c2 = "taken (length row) ?n b con"
  have pin: "packet_in ?b row rest" by (rule packet_body_in[OF b(2,3) row(3)])
  have byte: "get_byte ?b = Some (hd row)"
    using packet_in_ahead[OF pin] row(1) by (cases row) (auto intro: ahead_byte)
  let ?c3 = "?c2\<lparr>con_result := (con_result ?c2)\<lparr>row_data := Some (buffer_gen ?b, buffer_read_ptr ?b),
      row_length := unat (packet_size ?c2)\<rparr>, command_status := ATTACHSQL_COMMAND_STATUS_ROW_IN_BUFFER,
      con_status := ATTACHSQL_CON_STATUS_IDLE\<rparr>"
  have rb2: "read_buffer ?c2 = Some ?b" by (simp add: taken_def)
  have size: "unat (packet_size ?c2) = length row"
    using row(3) by (simp add: taken_def unat_of_nat take_bit_nat_eq_self)
  have "attachsql_packet_read_row ?c2 = Some ?c3"
    using byte row(2) by (simp add: attachsql_packet_read_row_def rb2)
  then have "process_packet con = Some (Some True, ?c3)"
    using turn_packet[OF b row(3) e] n by (simp add: stops_def next_number_def)
  then have "process_loop con = Some (True, ?c3)" by (simp add: process_loop.simps[of con])
  moreover have "expects_none ?c3" by (rule taken_ready[OF e]) (simp add: queue_fields_def)
  moreover have "next_packet_queue_size ?c3 \<noteq> 0" using expects_used[OF e] by (simp add: taken_def)
  ultimately show ?thesis using pin comp size b(1)
    by (intro exI[of _ ?c3]) (simp add: row_held_def taken_def same_defs)
qed

section \<open>The result set\<close>

definition result_stream :: "byte \<Rightarrow> byte list \<Rightarrow> column_t list \<Rightarrow> byte list \<Rightarrow> byte list \<Rightarrow> byte list \<Rightarrow> byte list" where
  "result_stream n catalog cs eof row rest =
     packet n (enc_length (of_nat (length cs))) @
     column_stream (n + 1) catalog cs
       (packet (n + 1 + of_nat (length cs)) eof @ packet (n + 2 + of_nat (length cs)) row @ rest)"

lemma result_set_loop:
  assumes u: "unread con (result_stream (packet_number con + 1) catalog cs (eof_payload warnings sstatus) row rest)"
    and cs: "cs \<noteq> []" "\<forall>c \<in> set cs. column_short catalog c" "unat (packet_number con) + length cs + 3 < 128"
    and e: "expects ATTACHSQL_PACKET_TYPE_RESPONSE con" and ok: "fst (alloc con)"
    and fresh: "current_column (con_result con) = 0" and comp: "\<not> opt_compression con"
    and row: "row \<noteq> []" "hd row \<noteq> 0xfe" "length row < 2 ^ 24"
  shows "\<exists>con'. attachsql_con_process_packets con = Some (True, con') \<and> row_held row rest con' \<and>
    packet_number con' = packet_number con + of_nat (length cs) + 3 \<and>
    column_count (con_result con') = of_nat (length cs) \<and>
    result_columns (con_result con') =
      Some (map Some (columns_read (packet_number con + 2) catalog cs (eof_payload warnings sstatus))) \<and>
    server_status con' = sstatus \<and> warning_count con' = warnings \<and> same_client con con'"
proof -
  let ?n = "packet_number con" and ?eof = "eof_payload warnings sstatus"
  have small: "m < 0x80" if "unat m < 128" for m :: byte using that by (simp add: word_less_nat_alt)
  have plus: "unat (?n + of_nat m) = unat ?n + m" if "unat ?n + m < 128" for m
    using that by (simp add: unat_word_ariths unat_of_nat)
  have k: "length cs < 128" "0 < length cs" using cs by simp_all
  obtain c1 where c1: "process_loop con = process_loop c1"
    "unread c1 (column_stream (?n + 1 + 1) catalog cs
       (packet (?n + 1 + 1 + of_nat (length cs)) ?eof @ packet (?n + 1 + 2 + of_nat (length cs)) row @ rest))"
    "expects ATTACHSQL_PACKET_TYPE_COLUMN c1" "packet_number c1 = ?n + 1"
    "command_status c1 = ATTACHSQL_COMMAND_STATUS_READ_COLUMN" "con_status c1 = con_status con"
    "con_result c1 = (con_result con)\<lparr>column_count := of_nat (length cs), result_columns := Some (replicate (length cs) None)\<rparr>"
    "same_client con c1"
    using header_turn[OF u[unfolded result_stream_def] k(2,1) e _ ok] plus[of 1] small[of "?n + 1"] cs(3) by auto
  have "length ?eof < 128" by (simp add: eof_payload_def)
  moreover have "unat (packet_number c1) + length cs + 1 < 128" using plus[of 1] cs(3) c1(4) by simp
  ultimately obtain c2 where c2: "process_loop c1 = process_loop c2"
    "unread c2 (packet (?n + 1 + 1 + of_nat (length cs)) ?eof @ packet (?n + 1 + 2 + of_nat (length cs)) row @ rest)"
    "expects ATTACHSQL_PACKET_TYPE_RESPONSE c2" "packet_number c2 = ?n + 1 + of_nat (length cs)"
    "command_status c2 = ATTACHSQL_COMMAND_STATUS_READ_COLUMN"
    "result_columns (con_result c2) = Some (map Some ([] @ columns_read (?n + 1 + 1) catalog cs ?eof))"
    "column_count (con_result c2) = of_nat (length cs)" "same_client c1 c2"
    using result_columns.definitions_loop[of c1 catalog cs ?eof "packet (?n + 1 + 2 + of_nat (length cs)) row @ rest" "[]"]
      c1(2-8) cs(1,2) k fresh by (auto simp: same_status_def)
  have n2: "packet_number c2 + 1 < 0x80" "packet_number c2 + 1 + 1 < 0x80"
    "packet_number c2 + 1 = ?n + 1 + 1 + of_nat (length cs)" "packet_number c2 + 1 + 1 = ?n + 1 + 2 + of_nat (length cs)"
    using plus[of "length cs + 2"] plus[of "length cs + 3"] cs(3) c2(4) by (auto intro: small simp: algebra_simps)
  have u2: "unread c2 (packet (packet_number c2 + 1) ?eof @ packet (packet_number c2 + 1 + 1) row @ rest)"
    by (subst n2(4), subst n2(3), rule c2(2))
  obtain c3 where c3: "process_loop c2 = process_loop c3" "unread c3 (packet (packet_number c2 + 1 + 1) row @ rest)"
    "expects ATTACHSQL_PACKET_TYPE_ROW c3" "packet_number c3 = packet_number c2 + 1"
    "con_result c3 = con_result c2" "server_status c3 = sstatus" "warning_count c3 = warnings" "same_client c2 c3"
    using eof_turn[OF u2 c2(3) n2(1) c2(5)] by (elim exE conjE) (rule that)
  have comp3: "\<not> opt_compression c3" using comp c1(8) c2(8) c3(8) by (simp add: same_defs)
  obtain c4 where c4: "process_loop c3 = Some (True, c4)" "row_held row rest c4" "packet_number c4 = packet_number c3 + 1"
    "con_result c4 = (con_result c3)\<lparr>row_data := row_data (con_result c4), row_length := length row\<rparr>"
    "server_status c4 = server_status c3" "warning_count c4 = warning_count c3" "same_client c3 c4"
    using row_turn[OF _ _ c3(3) comp3 row, of rest] c3(2,4) n2(2) by auto
  have "attachsql_con_process_packets con = Some (True, c4)"
    using c1(1) c2(1) c3(1) c4(1) u comp by (auto simp: attachsql_con_process_packets_def unread_def)
  moreover have "column_count (con_result c4) = of_nat (length cs)"
    "result_columns (con_result c4) = Some (map Some (columns_read (?n + 2) catalog cs ?eof))"
    using arg_cong[OF c4(4), of column_count] arg_cong[OF c4(4), of result_columns] c3(5) c2(6,7) by (simp_all add: add.assoc)
  moreover have "packet_number c4 = ?n + of_nat (length cs) + 3" using c4(3) c3(4) c2(4) by (simp add: algebra_simps)
  moreover have "same_client con c4" using c1(8) c2(8) c3(8) c4(7) by (simp add: same_defs)
  ultimately show ?thesis using c4(2,5,6) c3(6,7) by (intro exI[of _ c4]) simp
qed

section \<open>Property\<close>

definition result_con :: "byte \<Rightarrow> byte list \<Rightarrow> attachsql_connect_t" where
  "result_con n bytes = (row_con [] bytes)
     \<lparr>con_status := ATTACHSQL_CON_STATUS_BUSY, packet_number := n, con_result := result_init,
      command_status := ATTACHSQL_COMMAND_STATUS_READ_RESPONSE,
      next_packet_queue := Some (Some ATTACHSQL_PACKET_TYPE_RESPONSE # replicate 63 None), next_packet_queue_used := 1\<rparr>"

text \<open>
  C11. An answer of up to 127 packets received whole: \<open>attachsql_con_process_packets\<close> reads the number of
  columns, every column definition (its default value from the packet behind it) and the EOF packet,
  and stops with the first row; the caller's loop then returns the values of all rows in order.
\<close>

theorem result_set_received:
  assumes "unread con (result_stream (packet_number con + 1) catalog cs (eof_payload w1 s1) (row_payload r)
      (row_stream (packet_number con + 4 + of_nat (length cs)) rs (eof_payload w2 s2) @ rest))"
    and "cs \<noteq> []" "\<forall>c \<in> set cs. column_short catalog c" "\<forall>row \<in> set (r # rs). row_good (length cs) row"
    and "hd (row_payload r) \<noteq> 0xfe" "unat (packet_number con) + length cs + length rs + 4 < 128"
    and "expects ATTACHSQL_PACKET_TYPE_RESPONSE con" "allocs con = []" "\<not> opt_compression con"
    and "current_column (con_result con) = 0" "con_row con = None" "\<not> buffer_rows con"
  shows "\<exists>con1 con2. attachsql_con_process_packets con = Some (True, con1) \<and>
    con_status con1 = ATTACHSQL_CON_STATUS_IDLE \<and> command_status con1 = ATTACHSQL_COMMAND_STATUS_ROW_IN_BUFFER \<and>
    result_columns (con_result con1) =
      Some (map Some (columns_read (packet_number con + 2) catalog cs (eof_payload w1 s1))) \<and>
    fetch_rows (length (r # rs)) con1 = Some (map (map Some) (r # rs), con2) \<and>
    command_status con2 = ATTACHSQL_COMMAND_STATUS_EOF \<and> server_status con2 = s2 \<and> warning_count con2 = w2 \<and>
    unread con2 rest"
proof -
  let ?n = "packet_number con" and ?rest = "row_stream (packet_number con + 4 + of_nat (length cs)) rs (eof_payload w2 s2) @ rest"
  have r: "row_payload r \<noteq> []" "length (row_payload r) < 2 ^ 24"
    using assms(4) by (auto simp: row_good_def row_payload_def enc_string_def enc_length_def neq_Nil_conv split: if_splits)
  obtain con1 where c1: "attachsql_con_process_packets con = Some (True, con1)" "row_held (row_payload r) ?rest con1"
    "packet_number con1 = ?n + of_nat (length cs) + 3" "column_count (con_result con1) = of_nat (length cs)"
    "result_columns (con_result con1) = Some (map Some (columns_read (?n + 2) catalog cs (eof_payload w1 s1)))"
    "same_client con con1"
    using result_set_loop[OF assms(1-3) _ assms(7) _ assms(10,9) r(1) assms(5) r(2)] assms(6,8) by (auto simp: alloc_def)
  have k: "unat (of_nat (length cs) :: uint16) = length cs"
    using assms(6) by (simp add: unat_of_nat take_bit_nat_eq_self)
  have n: "unat (packet_number con1) = unat ?n + length cs + 3"
    using assms(6) by (simp add: c1(3) unat_word_ariths unat_of_nat)
  have num: "?n + 4 + of_nat (length cs) = packet_number con1 + 1" using c1(3) by simp
  have more: "con_row con1 = con_row con" "buffer_rows con1 = buffer_rows con" "allocs con1 = []"
    using c1(6) assms(8) by (cases con; cases con1; simp add: same_defs)+
  have "row_array_ok (length r) con1" using more assms(11) by (simp add: row_array_ok_def alloc_def)
  from fetch_rows_ok[OF c1(2)[unfolded num] _ _ _ this] show ?thesis
    using c1 k n assms(4,6,12) more by (auto simp: row_held_def)
qed

theorem result_set_received_witness:
  "\<exists>con1 con2. attachsql_con_process_packets (result_con 0 (result_stream 1 [0x64, 0x65, 0x66] [sample_column]
       (eof_payload 0 2) (row_payload [[0x61]]) (row_stream 5 [[[0x62, 0x63]]] (eof_payload 0 2)))) = Some (True, con1) \<and>
     fetch_rows 2 con1 = Some ([[Some [0x61]], [Some [0x62, 0x63]]], con2) \<and> server_status con2 = 2"
proof -
  let ?cat = "[0x64, 0x65, 0x66] :: byte list" and ?r = "[[0x61]] :: byte list list" and ?rs = "[[[0x62, 0x63]]] :: byte list list list"
  let ?bytes = "result_stream 1 ?cat [sample_column] (eof_payload 0 2) (row_payload ?r) (row_stream 5 ?rs (eof_payload 0 2))"
  let ?c = "result_con 0 ?bytes"
  have "length ?bytes \<le> 4096"
    by (simp add: result_stream_def packet_def row_payload_def enc_string_def enc_length_def eof_payload_def sample_column_length)
  then have "packet_in (packet_buffer [] ?bytes) [] ?bytes" by (intro packet_buffer_in) simp
  then have u: "unread ?c (result_stream (packet_number ?c + 1) ?cat [sample_column] (eof_payload 0 2) (row_payload ?r)
      (row_stream (packet_number ?c + 4 + of_nat (length [sample_column])) ?rs (eof_payload 0 2) @ []))"
    by (simp add: unread_def result_con_def row_con_def packet_in_def)
  have cols: "\<forall>c \<in> set [sample_column]. column_short ?cat c"
    using sample_column_good by (simp add: column_short_def sample_column_length)
  have rows: "\<forall>row \<in> set (?r # ?rs). row_good (length [sample_column]) row" "hd (row_payload ?r) \<noteq> 0xfe"
    by (simp_all add: row_good_def short_string_good row_payload_def enc_string_def enc_length_def)
  have e: "expects ATTACHSQL_PACKET_TYPE_RESPONSE ?c"
    by (simp add: expects_def result_con_def row_con_def queue_ok_def expected_def)
  have "current_column result_init = 0" by (simp add: result_init_def)
  with result_set_received[OF u _ cols rows _ e] show ?thesis
    by (auto simp: numeral_2_eq_2 result_con_def row_con_def simp del: fetch_rows.simps)
qed

end
