(* ===== verification/Answers.thy ===== *)
theory Answers
  imports Result_Set
begin

text \<open>
  The answers of one packet, OK and error, taken by the packet loop: the end of a handshake, of a
  command without rows, and of a command that failed.
\<close>

section \<open>One packet that ends the answer\<close>

lemma last_turn:
  assumes u: "unread con (packet (packet_number con + 1) payload @ rest)" and len: "length payload < 2 ^ 24"
    and e: "expects ATTACHSQL_PACKET_TYPE_RESPONSE con" and n: "packet_number con + 1 < 0x80"
    and comp: "\<not> opt_compression con"
  obtains b where "packet_in (packet_body (of_nat (length payload)) b) payload rest" "buffer_size b = capacity con"
    "\<And>con'. attachsql_packet_read_response (taken (length payload) (packet_number con + 1) b con) = Some con' \<Longrightarrow>
       attachsql_con_process_packets con = process_loop con'"
proof -
  let ?n = "packet_number con + 1"
  obtain b where b: "read_buffer con = Some b" "buffer_ok b" "buffer_bytes b = packet ?n payload @ rest"
    using u by (auto simp: unread_def)
  have "attachsql_con_process_packets con = process_loop con'"
    if "attachsql_packet_read_response (taken (length payload) ?n b con) = Some con'" for con'
    using loop_turn[OF b len e, of con'] n that comp b(1)
    by (simp add: next_number_def stops_def attachsql_con_process_packets_def)
  moreover have "buffer_size b = capacity con" using b(1) by (simp add: capacity_def)
  ultimately show thesis using that packet_body_in[OF b(2,3) len] by blast
qed

text \<open>With nothing expected the loop waits.\<close>

lemma loop_waits: "attachsql_packet_queue_peek con = Some ATTACHSQL_PACKET_TYPE_NONE \<Longrightarrow> process_loop con = Some (False, con)"
  by (subst process_loop.simps) (simp add: process_packet_unfold)

lemma loop_ends: "next_packet_queue_used con = 0 \<Longrightarrow> process_loop con = Some (False, con)"
  by (rule loop_waits) (simp add: attachsql_packet_queue_peek_def)

lemma unread_past: "packet_in b payload rest \<Longrightarrow> read_buffer con = Some (past_packet b) \<Longrightarrow> unread con rest"
  using past_packet_ok by (simp add: unread_def)

text \<open>An OK packet, as the whole state it leaves.\<close>

lemma ok_loop:
  assumes "unread con (packet (packet_number con + 1) (ok_payload affected inserted sstatus warnings msg) @ rest)"
    and "length (ok_payload affected inserted sstatus warnings msg) < 2 ^ 24"
    and "len_good affected" "len_good inserted" "0 \<notin> set msg" "packet_number con + 1 < 0x80"
    and "expects ATTACHSQL_PACKET_TYPE_RESPONSE con" "\<not> opt_compression con"
  shows "\<exists>b. attachsql_con_process_packets con = Some (False, ok_received affected inserted sstatus warnings msg
      (taken (length (ok_payload affected inserted sstatus warnings msg)) (packet_number con + 1) b con)) \<and>
    packet_in (packet_body (of_nat (length (ok_payload affected inserted sstatus warnings msg))) b)
      (ok_payload affected inserted sstatus warnings msg) rest \<and> buffer_size b = capacity con"
proof -
  let ?p = "ok_payload affected inserted sstatus warnings msg"
  obtain b where b: "packet_in (packet_body (of_nat (length ?p)) b) ?p rest" "buffer_size b = capacity con"
    and l: "\<And>con'. attachsql_packet_read_response (taken (length ?p) (packet_number con + 1) b con) = Some con' \<Longrightarrow>
       attachsql_con_process_packets con = process_loop con'"
    using last_turn[OF assms(1,2,7,6,8)] by blast
  let ?c2 = "taken (length ?p) (packet_number con + 1) b con"
  let ?c = "ok_received affected inserted sstatus warnings msg ?c2"
  have rb: "read_buffer ?c2 = Some (packet_body (of_nat (length ?p)) b)" "packet_size ?c2 = of_nat (length ?p)"
    by (simp_all add: taken_def)
  have f: "next_packet_queue_used ?c = 0" using expects_used[OF assms(7)] by (simp add: ok_received_def taken_def)
  have "attachsql_con_process_packets con = Some (False, ?c)"
    using l[OF read_ok_packet_ok[OF rb(1) b(1) rb(2) assms(2-5)]] loop_ends[OF f] by simp
  then show ?thesis using b by blast
qed

section \<open>Properties\<close>

text \<open>
  C28. An OK packet: the counters, the status of the server and the message are taken over, the
  connection is idle, connected when it was connecting and otherwise at the end of the result, and
  compression starts exactly with the OK of a handshake that asked for it.
\<close>

theorem ok_answer:
  assumes "unread con (packet (packet_number con + 1) (ok_payload affected inserted sstatus warnings msg) @ rest)"
    and "length (ok_payload affected inserted sstatus warnings msg) < 2 ^ 24"
    and "len_good affected" "len_good inserted" "0 \<notin> set msg" "packet_number con + 1 < 0x80"
    and "expects ATTACHSQL_PACKET_TYPE_RESPONSE con" "\<not> opt_compression con"
  shows "\<exists>con'. attachsql_con_process_packets con = Some (False, con') \<and>
    con_status con' = ATTACHSQL_CON_STATUS_IDLE \<and>
    command_status con' = (if con_status con = ATTACHSQL_CON_STATUS_CONNECTING
                           then ATTACHSQL_COMMAND_STATUS_CONNECTED else ATTACHSQL_COMMAND_STATUS_EOF) \<and>
    opt_compression con' = (con_status con = ATTACHSQL_CON_STATUS_CONNECTING \<and>
                            client_capabilities con AND ATTACHSQL_CAPABILITY_COMPRESS \<noteq> 0) \<and>
    affected_rows con' = affected \<and> insert_id con' = inserted \<and> server_status con' = sstatus \<and>
    warning_count con' = warnings \<and> server_message con' = take (ATTACHSQL_MAX_MESSAGE_LEN - 1) msg \<and>
    server_errno con' = server_errno con \<and> expects_none con' \<and> unread con' rest"
proof -
  let ?p = "ok_payload affected inserted sstatus warnings msg"
  obtain b where l: "attachsql_con_process_packets con = Some (False, ok_received affected inserted sstatus warnings msg
      (taken (length ?p) (packet_number con + 1) b con))"
    and b: "packet_in (packet_body (of_nat (length ?p)) b) ?p rest"
    using ok_loop[OF assms] by blast
  let ?c = "ok_received affected inserted sstatus warnings msg (taken (length ?p) (packet_number con + 1) b con)"
  have "expects_none ?c"
    using taken_ready[OF assms(7), of ?c] by (simp add: queue_fields_def ok_received_def)
  moreover have "unread ?c rest" by (rule unread_past[OF b]) (simp add: ok_received_def taken_def)
  ultimately show ?thesis using l assms(8) by (intro exI[of _ ?c]) (simp add: ok_received_def taken_def)
qed

text \<open>
  C29. An error packet: the number, the SQL state and the message are kept for the caller, the
  status of the server is not touched, nothing more is expected, and the connection is idle unless the answer was that of a handshake or of a
  further result, which count as a failed connection.
\<close>

theorem error_answer:
  assumes "unread con (packet (packet_number con + 1) (error_payload code state msg) @ rest)"
    and "length (error_payload code state msg) < 2 ^ 24" "length state = 5" "0 \<notin> set msg"
    and "blk_size (con_sqlstate con) = ATTACHSQL_SQLSTATE_SIZE" "packet_number con + 1 < 0x80"
    and "expects ATTACHSQL_PACKET_TYPE_RESPONSE con" "\<not> opt_compression con"
  shows "\<exists>con'. attachsql_con_process_packets con = Some (False, con') \<and>
    con_status con' = (if command_status con = ATTACHSQL_COMMAND_STATUS_READ_RESPONSE
                       then ATTACHSQL_CON_STATUS_CONNECT_FAILED else ATTACHSQL_CON_STATUS_IDLE) \<and>
    command_status con' = ATTACHSQL_COMMAND_STATUS_EOF \<and> server_errno con' = code \<and>
    blk_read (con_sqlstate con') 0 5 = Some state \<and>
    server_message con' = take (ATTACHSQL_MAX_MESSAGE_LEN - 1) msg \<and> server_status con' = server_status con \<and>
    next_packet_queue_used con' = 0 \<and> unread con' rest"
proof -
  let ?p = "error_payload code state msg"
  obtain b where b: "packet_in (packet_body (of_nat (length ?p)) b) ?p rest"
    and l: "\<And>con'. attachsql_packet_read_response (taken (length ?p) (packet_number con + 1) b con) = Some con' \<Longrightarrow>
       attachsql_con_process_packets con = process_loop con'"
    using last_turn[OF assms(1,2,7,6,8)] by blast
  let ?c2 = "taken (length ?p) (packet_number con + 1) b con"
  have rb: "read_buffer ?c2 = Some (packet_body (of_nat (length ?p)) b)" "packet_size ?c2 = of_nat (length ?p)"
    "blk_size (con_sqlstate ?c2) = ATTACHSQL_SQLSTATE_SIZE" using assms(5) by (simp_all add: taken_def)
  obtain sq where sq: "attachsql_packet_read_response ?c2 = Some (error_received code state msg sq ?c2)" "blk_has sq 0 state"
    using read_error_packet_ok[OF rb(1) b rb(2) assms(2,3,4) rb(3)] by blast
  let ?c = "error_received code state msg sq ?c2"
  have "attachsql_con_process_packets con = Some (False, ?c)"
    using l[OF sq(1)] loop_ends[of ?c] by (simp add: error_received_def)
  moreover have "unread ?c rest" by (rule unread_past[OF b]) (simp add: error_received_def rb)
  ultimately show ?thesis using blk_read_has[OF sq(2)] assms(3)
    by (intro exI[of _ ?c]) (simp add: error_received_def taken_def)
qed

text \<open>Both on a connection that waits for the answer to a command.\<close>

lemma result_con_unread:
  assumes "length bytes \<le> 4096" shows "unread (result_con n bytes) bytes"
proof -
  have "packet_in (packet_buffer [] bytes) [] bytes" using assms by (intro packet_buffer_in) simp
  then show ?thesis by (simp add: unread_def result_con_def row_con_def packet_in_def)
qed

lemma result_con_fields:
  "expects ATTACHSQL_PACKET_TYPE_RESPONSE (result_con n bytes)" "packet_number (result_con n bytes) = n"
  "\<not> opt_compression (result_con n bytes)" "con_status (result_con n bytes) = ATTACHSQL_CON_STATUS_BUSY"
  "command_status (result_con n bytes) = ATTACHSQL_COMMAND_STATUS_READ_RESPONSE"
  "blk_size (con_sqlstate (result_con n bytes)) = ATTACHSQL_SQLSTATE_SIZE"
  by (simp_all add: expects_def result_con_def row_con_def queue_ok_def expected_def)
     (simp add: connect_init_def con_core.defs core_init_def)

theorem ok_answer_witness:
  "\<exists>con'. attachsql_con_process_packets (result_con 0 (packet 1 (ok_payload 3 7 2 0 [0x6f, 0x6b]))) = Some (False, con') \<and>
     affected_rows con' = 3 \<and> insert_id con' = 7 \<and> server_message con' = [0x6f, 0x6b] \<and>
     command_status con' = ATTACHSQL_COMMAND_STATUS_EOF"
proof -
  let ?p = "ok_payload 3 7 2 0 [0x6f, 0x6b]"
  let ?c = "result_con 0 (packet 1 ?p)"
  have len: "length ?p < 2 ^ 24" "length (packet 1 ?p) \<le> 4096"
    by (simp_all add: ok_payload_def enc_length_def packet_def)
  have u: "unread ?c (packet (packet_number ?c + 1) ?p @ [])"
    using result_con_unread[OF len(2), of 0] by (simp add: result_con_fields)
  from ok_answer[OF u len(1)] show ?thesis
    by (force simp: result_con_fields len_good_def)
qed

theorem error_answer_witness:
  "\<exists>con'. attachsql_con_process_packets (result_con 0 (packet 1 (error_payload 1064 [52, 50, 48, 48, 48] [0x62])))
      = Some (False, con') \<and> server_errno con' = 1064 \<and> con_status con' = ATTACHSQL_CON_STATUS_CONNECT_FAILED"
proof -
  let ?p = "error_payload 1064 [52, 50, 48, 48, 48] [0x62]"
  let ?c = "result_con 0 (packet 1 ?p)"
  have len: "length ?p < 2 ^ 24" "length (packet 1 ?p) \<le> 4096"
    by (simp_all add: error_payload_def packet_def)
  have u: "unread ?c (packet (packet_number ?c + 1) ?p @ [])"
    using result_con_unread[OF len(2), of 0] by (simp add: result_con_fields)
  from error_answer[OF u len(1)] show ?thesis
    by (force simp: result_con_fields)
qed

text \<open>
  A server that refuses the connection answers with an error packet in place of the greeting. The
  error is kept, but the reader goes on with the emptied buffer, takes the low byte of the packet's
  length for a protocol version, and the connection is left idle as if it were ready for commands.
\<close>

theorem greeting_refused:
  assumes "read_buffer con = Some b" "buffer_ok b" "buffer_read_ptr b = 0"
    and "buffer_bytes b = packet (packet_number con) (error_payload code state msg)"
    and "length (error_payload code state msg) < 2 ^ 24" "length state = 5" "0 \<notin> set msg"
    and "length (error_payload code state msg) mod 256 \<noteq> 10" "packet_number con < 0x80"
    and "blk_size (con_sqlstate con) = ATTACHSQL_SQLSTATE_SIZE" "expects ATTACHSQL_PACKET_TYPE_HANDSHAKE con"
    and "\<not> opt_compression con" "command_status con = ATTACHSQL_COMMAND_STATUS_EOF"
  shows "\<exists>con'. attachsql_con_process_packets con = Some (False, con') \<and> con_status con' = ATTACHSQL_CON_STATUS_IDLE \<and>
    command_status con' = ATTACHSQL_COMMAND_STATUS_EOF \<and> server_errno con' = code \<and>
    local_errcode con' = ATTACHSQL_RET_BAD_PROTOCOL \<and> sent con' = sent con \<and> next_packet_queue_used con' = 0"
proof -
  let ?p = "error_payload code state msg" and ?n = "packet_number con"
  let ?b = "packet_body (of_nat (length ?p)) b" and ?c2 = "taken (length ?p) ?n b con"
  have bytes: "buffer_bytes b = packet ?n ?p @ []" using assms(4) by simp
  have pin: "packet_in ?b ?p []" by (rule packet_body_in[OF assms(2) bytes assms(5)])
  have rb: "read_buffer ?c2 = Some ?b" "packet_size ?c2 = of_nat (length ?p)"
    "blk_size (con_sqlstate ?c2) = ATTACHSQL_SQLSTATE_SIZE" "command_status ?c2 = ATTACHSQL_COMMAND_STATUS_EOF"
    using assms(10,13) by (simp_all add: taken_def)
  obtain sq where sq: "attachsql_packet_read_response ?c2 = Some (error_received code state msg sq ?c2)"
    using read_error_packet_ok[OF rb(1) pin rb(2) assms(5-7) rb(3)] by blast
  let ?c3 = "error_received code state msg sq ?c2"
  have h: "ahead b (packet ?n ?p)" using buffer_ok_has[OF assms(2)] assms(4) by (simp add: ahead_def)
  have low: "get_byte b = Some (of_nat (length ?p))"
    using ahead_byte[OF h[unfolded packet_def le_bytes_3, simplified]] assms(5)
    by (simp add: unsigned_of_nat take_bit_nat_eq_self)
  have "packet_end_ptr ?b = Some (buffer_write_ptr ?b)"
    using pin buffer_bytes_length[of ?b] by (auto simp: packet_in_def buffer_ok_def)
  then have past: "get_byte (past_packet ?b) = Some (of_nat (length ?p))"
    using assms(3) low by (simp add: past_packet_def get_byte_def packet_body_def Let_def)
  have ff: "get_byte ?b = Some 0xff"
    using packet_in_ahead[OF pin] ahead_byte[of ?b "0xff"] by (simp add: error_payload_def)
  have rb3: "read_buffer ?c3 = Some (past_packet ?b)" by (simp add: error_received_def rb)
  have "(of_nat (length ?p) :: byte) \<noteq> 10"
    using assms(8) by (simp add: word_unat_eq_iff unat_of_nat take_bit_eq_mod)
  then have "attachsql_packet_read_handshake ?c2 = Some (?c3\<lparr>local_errcode := ATTACHSQL_RET_BAD_PROTOCOL,
      errmsg := text_array ATTACHSQL_ERROR_BUFFER_SIZE (str ''Incompatible protocol version'')\<rparr>)"
    using ff past sq rb(1) rb3 by (simp add: packet_read_handshake_unfold)
  then have "attachsql_con_process_packets con = process_loop (?c3\<lparr>local_errcode := ATTACHSQL_RET_BAD_PROTOCOL,
      errmsg := text_array ATTACHSQL_ERROR_BUFFER_SIZE (str ''Incompatible protocol version'')\<rparr>)"
    using loop_turn[OF assms(1,2) bytes assms(5,11)] assms(1,9,12)
    by (simp add: next_number_def stops_def attachsql_con_process_packets_def)
  then show ?thesis using rb(4)
    by (subst (asm) loop_ends) (simp_all add: error_received_def taken_def)
qed

theorem greeting_refused_witness:
  "\<exists>con'. attachsql_con_process_packets
     ((result_con 0 (packet 0 (error_payload 1040 [48, 56, 48, 48, 52] [0x54, 0x6f, 0x6f])))
       \<lparr>command_status := ATTACHSQL_COMMAND_STATUS_EOF, con_status := ATTACHSQL_CON_STATUS_CONNECTING,
        next_packet_queue := Some (Some ATTACHSQL_PACKET_TYPE_HANDSHAKE # replicate 63 None)\<rparr>) = Some (False, con') \<and>
     con_status con' = ATTACHSQL_CON_STATUS_IDLE \<and> server_errno con' = 1040"
proof -
  let ?p = "error_payload 1040 [48, 56, 48, 48, 52] [0x54, 0x6f, 0x6f]"
  let ?c = "(result_con 0 (packet 0 ?p))\<lparr>command_status := ATTACHSQL_COMMAND_STATUS_EOF,
    con_status := ATTACHSQL_CON_STATUS_CONNECTING,
    next_packet_queue := Some (Some ATTACHSQL_PACKET_TYPE_HANDSHAKE # replicate 63 None)\<rparr>"
  have len: "length ?p < 2 ^ 24" "length (packet 0 ?p) \<le> 4096" "length ?p mod 256 \<noteq> 10"
    by (simp_all add: error_payload_def packet_def)
  obtain b where b: "read_buffer ?c = Some b" "buffer_ok b" "buffer_bytes b = packet 0 ?p" "buffer_read_ptr b = 0"
    using result_con_unread[OF len(2), of 0] by (auto simp: unread_def result_con_def row_con_def packet_buffer_def)
  have e: "expects ATTACHSQL_PACKET_TYPE_HANDSHAKE ?c"
    by (simp add: expects_def result_con_def row_con_def queue_ok_def expected_def)
  have "buffer_bytes b = packet (packet_number ?c) ?p" using b(3) by (simp add: result_con_fields)
  from greeting_refused[OF b(1,2,4) this len(1) _ _ len(3) _ _ e] show ?thesis
    using result_con_fields[of 0 "packet 0 ?p"] by auto
qed

end
