(* ===== verification/Events.thy ===== *)
theory Events
  imports Answers
begin

text \<open>
  A connection under any sequence of network events and commands: the steps of the connection as a
  relation, and what they keep of the expected-packet queue. The packet loop ends within as
  many turns as the read buffer holds bytes.
\<close>

section \<open>The packet loop ends\<close>

text \<open>The connection after \<open>n\<close> turns that go on.\<close>

fun loop_state :: "nat \<Rightarrow> 'a con_core_scheme \<Rightarrow> 'a con_core_scheme option" where
  "loop_state 0 con = Some con"
| "loop_state (Suc n) con = (case process_packet con of Some (None, con') \<Rightarrow> loop_state n con' | _ \<Rightarrow> None)"

definition turn_ends :: "'a con_core_scheme \<Rightarrow> bool" where
  "turn_ends con \<longleftrightarrow> (case process_packet con of Some (None, _) \<Rightarrow> False | _ \<Rightarrow> True)"

lemma loop_ends_within:
  "\<exists>n con'. n \<le> loop_measure con \<and> loop_state n con = Some con' \<and> turn_ends con' \<and> process_loop con = process_loop con'"
proof (induction "loop_measure con" arbitrary: con rule: less_induct)
  case less
  show ?case
  proof (cases "turn_ends con")
    case True
    then show ?thesis by (intro exI[of _ 0] exI[of _ con]) simp
  next
    case False
    then obtain con1 where t: "process_packet con = Some (None, con1)"
      by (auto simp: turn_ends_def split: option.splits)
    from process_packet_decreases[OF t] less obtain n con' where
      n: "n \<le> loop_measure con1" "loop_state n con1 = Some con'" "turn_ends con'" "process_loop con1 = process_loop con'"
      by blast
    have "process_loop con = process_loop con1" using t by (subst process_loop.simps) simp
    then show ?thesis using n t process_packet_decreases[OF t]
      by (intro exI[of _ "Suc n"] exI[of _ con']) simp
  qed
qed

section \<open>One packet expected\<close>

text \<open>
  The three fields of the queue, with at most \<open>k\<close> packets expected. The array is missing before the
  first push and after a push that could not allocate it.
\<close>

definition at_most :: "nat \<Rightarrow> attachsql_packet_type_t option list option \<times> nat \<times> nat \<Rightarrow> bool" where
  "at_most k f \<longleftrightarrow> (case f of (q, s, used) \<Rightarrow>
     used \<le> k \<and> (s = 0 \<or> s = ATTACHSQL_DEFAULT_PACKET_QUEUE_SIZE) \<and> (s = 0 \<longrightarrow> used = 0) \<and>
     (case q of None \<Rightarrow> used = 0
      | Some q \<Rightarrow> length q = ATTACHSQL_DEFAULT_PACKET_QUEUE_SIZE \<and> (\<forall>i < used. q ! i \<noteq> None)))"

definition expects_at_most :: "nat \<Rightarrow> 'a con_core_scheme \<Rightarrow> bool" where
  "expects_at_most k con \<longleftrightarrow> at_most k (queue_fields con)"

text \<open>An operation that leaves the queue alone or empties it, and one that may add a packet to an empty one.\<close>

definition kept :: "'a con_core_scheme \<Rightarrow> 'b con_core_scheme \<Rightarrow> bool" where
  "kept con con' \<longleftrightarrow> next_packet_queue con' = next_packet_queue con \<and>
     next_packet_queue_size con' = next_packet_queue_size con \<and>
     (next_packet_queue_used con' = next_packet_queue_used con \<or> next_packet_queue_used con' = 0)"

definition pushed :: "'a con_core_scheme \<Rightarrow> 'b con_core_scheme \<Rightarrow> bool" where
  "pushed con con' \<longleftrightarrow> (expects_at_most 0 con \<longrightarrow> expects_at_most 1 con')"

lemma at_most_emptied: "at_most k (q, s, u) \<Longrightarrow> at_most l (q, s, 0)"
  by (auto simp: at_most_def split: option.splits)

lemma at_most_mono: "at_most 0 f \<Longrightarrow> at_most k f"
  by (auto simp: at_most_def split: option.splits)

lemma kept_at_most: "kept con con' \<Longrightarrow> expects_at_most k con \<Longrightarrow> expects_at_most k con'"
  by (auto simp: kept_def expects_at_most_def queue_fields_def intro: at_most_emptied)

lemma kept_trans: "kept a b \<Longrightarrow> kept b c \<Longrightarrow> kept a c"
  by (auto simp: kept_def)

lemma kept_pushed: "kept con con' \<Longrightarrow> pushed con con'"
  using kept_at_most[of con con' 0] by (auto simp: pushed_def expects_at_most_def intro: at_most_mono)

lemma pushed_kept: "pushed a b \<Longrightarrow> kept b c \<Longrightarrow> pushed a c"
  using kept_at_most by (auto simp: pushed_def)

lemma kept_then_pushed: "kept a b \<Longrightarrow> pushed b c \<Longrightarrow> pushed a c"
  using kept_at_most by (auto simp: pushed_def)

lemma push_pushed: "queue_push t con = Some con' \<Longrightarrow> pushed con con'"
  by (auto simp: queue_push_def attachsql_packet_queue_push_def queue_create_def queue_enlarge_def Let_def pushed_def
      expects_at_most_def queue_fields_def at_most_def alloc_def split: if_splits prod.splits option.splits list.splits)

section \<open>What the operations keep\<close>

text \<open>Operations that only use the environment, and those that may report a failed send.\<close>

named_theorems keeps

lemma kept_refl [simp]: "kept con con"
  by (simp add: kept_def)

lemma alloc_kept [keeps]: "alloc con = (ok, con') \<Longrightarrow> kept con con'"
  by (auto simp: alloc_def kept_def split: list.splits)

lemma uv_write_kept [keeps]: "uv_write bufs con = Some (r, con') \<Longrightarrow> kept con con'"
  by (auto simp: uv_write_def uv_call_def alloc_def Let_def kept_def split: list.splits if_splits)

lemma write_packet_kept [keeps]: "write_packet bufs con = Some con' \<Longrightarrow> kept con con'"
  by (auto simp: write_packet_def send_failed_def kept_def split: bind_splits dest!: uv_write_kept)

lemma grow_kept [keeps]:
  "grow_uncompressed n con = (ok, con') \<Longrightarrow> kept con con'" "grow_compressed n con = (ok, con') \<Longrightarrow> kept con con'"
  by (auto simp: grow_uncompressed_def grow_compressed_def send_failed_def kept_def split: if_splits prod.splits dest!: alloc_kept)

lemma fill_uncompressed_kept [keeps]: "fill_uncompressed d c con = Some con' \<Longrightarrow> kept con con'"
  by (auto simp: fill_uncompressed_def Let_def kept_def split: bind_splits if_splits)

lemma compressed_header_kept [keeps]: "compressed_header n k con = Some con' \<Longrightarrow> kept con con'"
  by (auto simp: compressed_header_def kept_def split: bind_splits)

lemma compress_and_write_kept [keeps]: "compress_and_write src large n con = Some con' \<Longrightarrow> kept con con'"
  by (auto simp: compress_and_write_unfold send_failed_def Let_def kept_def split: bind_splits if_splits prod.splits option.splits
      dest!: keeps)

lemma send_compressed_kept [keeps]: "attachsql_send_compressed_packet d c con = Some con' \<Longrightarrow> kept con con'"
  by (auto simp: send_compressed_packet_unfold Let_def kept_def split: bind_splits if_splits prod.splits dest!: keeps)

lemma send_data_kept [keeps]: "attachsql_send_data d con = Some con' \<Longrightarrow> kept con con'"
  by (auto simp: attachsql_send_data_def Let_def kept_def split: bind_splits if_splits dest!: keeps)

lemma read_end_kept [keeps]: "attachsql_packet_read_end con = Some con' \<Longrightarrow> kept con con'"
  by (auto simp: attachsql_packet_read_end_def kept_def split: bind_splits)

lemma read_message_kept [keeps]: "read_message n b con = Some con' \<Longrightarrow> kept con con'"
  by (auto simp: read_message_def Let_def kept_def split: bind_splits)

lemma read_ok_kept [keeps]: "read_ok_packet b con = Some con' \<Longrightarrow> kept con con'"
  by (auto simp: read_ok_packet_def Let_def kept_def split: bind_splits if_splits prod.splits dest!: keeps)

lemma read_error_kept [keeps]: "read_error_packet b con = Some con' \<Longrightarrow> kept con con'"
  by (auto simp: read_error_packet_def Let_def kept_def split: bind_splits dest!: keeps)

lemma get_column_kept [keeps]: "attachsql_packet_get_column con = Some (c, con') \<Longrightarrow> kept con con'"
  by (auto simp: attachsql_packet_get_column_def kept_def split: bind_splits)

lemma prepare_arrays_kept [keeps]: "prepare_arrays stmt con = (stmt', con') \<Longrightarrow> kept con con'"
  by (auto simp: prepare_arrays_def Let_def kept_def split: if_splits prod.splits dest!: alloc_kept)

lemma buffer_prepare_kept [keeps]: "buffer_prepare n buf con = Some (k, b, con') \<Longrightarrow> kept con con'"
  by (auto simp: buffer_prepare_def buffer_new_def Let_def kept_def split: bind_splits if_splits prod.splits option.splits
      dest!: alloc_kept)

lemma on_alloc_kept [keeps]: "on_alloc n con = Some (k, con') \<Longrightarrow> kept con con'"
  by (auto simp: on_alloc_def kept_def split: bind_splits if_splits prod.splits dest!: buffer_prepare_kept)

lemma decompress_body_kept [keeps]: "decompress_body a b c con = Some (r, con') \<Longrightarrow> kept con con'"
  by (auto simp: decompress_body_def Let_def kept_def split: bind_splits if_splits option.splits)

lemma decompress_kept [keeps]: "attachsql_con_decompress_read_buffer con = Some (r, con') \<Longrightarrow> kept con con'"
  by (auto simp: attachsql_con_decompress_read_buffer_def out_of_sequence_def Let_def kept_def
      split: bind_splits if_splits prod.splits simp del: skip_skip dest!: keeps)

lemma uv_store_kept [keeps]: "uv_store xs con = Some con' \<Longrightarrow> kept con con'"
  by (auto simp: uv_store_def kept_def split: bind_splits if_splits)

lemma on_write_kept [keeps]: "on_write status con = Some con' \<Longrightarrow> kept con con'"
  by (auto simp: on_write_def net_error_def Let_def kept_def split: bind_splits if_splits)

text \<open>The readers: each expects at most one packet more.\<close>

lemma at_most_less:
  "at_most k (q, s, u) \<Longrightarrow> at_most k (q, s, 0)" "at_most 0 f \<Longrightarrow> at_most (Suc 0) f"
  "at_most 0 (q, s, u) \<Longrightarrow> at_most (Suc 0) (q, s, 0)"
  by (auto simp: at_most_def split: option.splits)

named_theorems pushes
declare push_pushed [pushes]

lemmas queue_change = kept_def pushed_def expects_at_most_def queue_fields_def

lemma handshake_response_pushed [pushes]: "attachsql_handshake_response con = Some con' \<Longrightarrow> pushed con con'"
  by (auto simp: attachsql_handshake_response_def queue_change split: bind_splits option.splits
      dest!: keeps pushes;
      auto intro: at_most_less)

lemma read_eof_pushed [pushes]: "read_eof_packet b con = Some con' \<Longrightarrow> pushed con con'"
  by (auto simp: read_eof_packet_def Let_def queue_change split: bind_splits if_splits
      dest!: keeps pushes;
      auto intro: at_most_less)

lemma read_result_pushed [pushes]: "read_result_packet b con = Some con' \<Longrightarrow> pushed con con'"
  by (auto simp: read_result_packet_def Let_def queue_change split: bind_splits if_splits prod.splits
      dest!: keeps pushes;
      auto intro: at_most_less)

lemma read_response_pushed [pushes]: "attachsql_packet_read_response con = Some con' \<Longrightarrow> pushed con con'"
  by (auto simp: attachsql_packet_read_response_def split: bind_splits if_splits
      dest: keeps pushes intro: kept_pushed)

lemma read_row_pushed [pushes]: "attachsql_packet_read_row con = Some con' \<Longrightarrow> pushed con con'"
  by (auto simp: attachsql_packet_read_row_def queue_change split: bind_splits if_splits dest!: pushes;
      auto intro: at_most_less)

lemma prepare_expect_pushed [pushes]: "prepare_expect stmt con = Some con' \<Longrightarrow> pushed con con'"
  by (auto simp: prepare_expect_def queue_change split: bind_splits if_splits dest!: keeps pushes;
      auto intro: at_most_less)

lemma prepare_response_pushed [pushes]: "attachsql_packet_read_prepare_response con = Some con' \<Longrightarrow> pushed con con'"
  by (auto simp: attachsql_packet_read_prepare_response_def Let_def queue_change split: bind_splits if_splits prod.splits
      simp del: skip_skip dest!: keeps pushes;
      auto intro: at_most_less)

lemma prepare_parameter_pushed [pushes]: "attachsql_packet_read_prepare_parameter con = Some con' \<Longrightarrow> pushed con con'"
  by (auto simp: attachsql_packet_read_prepare_parameter_def Let_def queue_change split: bind_splits prod.splits
      dest!: keeps pushes cong: if_cong;
      auto intro: at_most_less)

lemma prepare_column_pushed [pushes]: "attachsql_packet_read_prepare_column con = Some con' \<Longrightarrow> pushed con con'"
  by (auto simp: attachsql_packet_read_prepare_column_def Let_def queue_change split: bind_splits
      dest!: keeps pushes;
      auto intro: at_most_less)

lemma read_column_pushed [pushes]: "attachsql_packet_read_column con = Some con' \<Longrightarrow> pushed con con'"
  by (auto simp: attachsql_packet_read_column_def Let_def queue_change split: bind_splits prod.splits
      dest!: keeps pushes;
      auto intro: at_most_less)

lemma read_handshake_pushed [pushes]:
  assumes "attachsql_packet_read_handshake con = Some con'" shows "pushed con con'"
proof -
  from assms obtain b c con1 where b: "read_buffer con = Some b" "get_byte b = Some c"
    and con1: "(if c = 0xff then attachsql_packet_read_response con else Some con) = Some con1"
    unfolding packet_read_handshake_unfold by (auto split: bind_splits)
  have "kept con con1"
    using con1 b by (auto simp: attachsql_packet_read_response_def split: if_splits dest: read_error_kept)
  moreover have "pushed con1 con'"
  proof -
    have "con' = con1\<lparr>local_errcode := ATTACHSQL_RET_BAD_PROTOCOL, errmsg := errmsg con'\<rparr> \<or>
      (\<exists>c3. attachsql_handshake_response c3 = Some con' \<and> kept con1 c3)"
      using assms unfolding packet_read_handshake_unfold b Option.bind.simps con1 Let_def
      by (elim bind_SomeE) (auto split: if_splits elim!: bind_SomeE dest!: read_end_kept intro!: exI simp del: skip_skip simp: kept_def)
    then show ?thesis
    proof
      assume "con' = con1\<lparr>local_errcode := ATTACHSQL_RET_BAD_PROTOCOL, errmsg := errmsg con'\<rparr>"
      from arg_cong[OF this, of queue_fields] show ?thesis
        by (auto simp: pushed_def expects_at_most_def queue_fields_def intro: at_most_less)
    qed (auto intro: kept_then_pushed handshake_response_pushed)
  qed
  ultimately show ?thesis by (rule kept_then_pushed)
qed

lemma read_packet_pushed: "read_packet t con = Some con' \<Longrightarrow> pushed con con'"
  by (cases t) (auto intro: kept_pushed dest: pushes)

section \<open>The packet loop and the callbacks\<close>

lemma pop_one:
  assumes "attachsql_packet_queue_pop con = Some (t, con')" "expects_at_most 1 con" shows "expects_at_most 0 con'"
  using assms by (auto simp: attachsql_packet_queue_pop_def expects_at_most_def queue_fields_def at_most_def Let_def
      split: if_splits bind_splits option.splits)

lemma process_packet_one:
  assumes "process_packet con = Some (r, con')" "expects_at_most 1 con" shows "expects_at_most 1 con'"
proof -
  have f: "expects_at_most 1 (con\<lparr>packet_size := n\<rparr>)" "expects_at_most 1 (con\<lparr>packet_size := n, packet_number := m\<rparr>)" for n m
    using assms(2) by (simp_all del: One_nat_def add: expects_at_most_def queue_fields_def)
  have z: "expects_at_most 0 c \<Longrightarrow> expects_at_most 1 (out_of_sequence c)" for c :: "'a con_core_scheme"
    by (auto simp: expects_at_most_def queue_fields_def out_of_sequence_def intro: at_most_less)
  have r: "read_packet t (c\<lparr>read_buffer := Some b\<rparr>) = Some con' \<Longrightarrow> expects_at_most 0 c \<Longrightarrow> expects_at_most 1 con'" for t c b
    using read_packet_pushed[of t "c\<lparr>read_buffer := Some b\<rparr>" con'] by (simp add: pushed_def expects_at_most_def queue_fields_def)
  show ?thesis using assms unfolding process_packet_unfold Let_def
    by (elim bind_SomeE)
       (auto simp: f simp del: read_packet.simps One_nat_def elim!: bind_SomeE dest!: pop_one split: if_splits;
        blast intro: z r)
qed

lemma process_loop_one:
  "process_loop con = Some (r, con') \<Longrightarrow> expects_at_most 1 con \<Longrightarrow> expects_at_most 1 con'"
proof (induction con arbitrary: r con' rule: process_loop.induct)
  case (1 con)
  from "1.prems"(1) obtain r1 con1 where p: "process_packet con = Some (r1, con1)"
    and l: "(case r1 of Some x \<Rightarrow> Some (x, con1) | None \<Rightarrow> process_loop con1) = Some (r, con')"
    by (subst (asm) process_loop.simps) (auto split: bind_splits)
  have "expects_at_most 1 con1" using process_packet_one[OF p "1.prems"(2)] .
  then show ?case using l "1.IH"[OF p] by (cases r1) auto
qed

lemma process_packets_one:
  assumes "attachsql_con_process_packets con = Some (r, con')" "expects_at_most 1 con" shows "expects_at_most 1 con'"
proof -
  have "expects_at_most 1 con1" if "attachsql_con_decompress_read_buffer con = Some (x, con1)" for x con1
    using kept_at_most[OF decompress_kept[OF that] assms(2)] .
  then show ?thesis using assms
    by (auto simp: attachsql_con_process_packets_def simp del: One_nat_def split: if_splits bind_splits
        elim!: process_loop_one)
qed

lemma read_data_one:
  assumes "attachsql_read_data_cb n con = Some con'" "expects_at_most 1 con" shows "expects_at_most 1 con'"
proof -
  have f: "expects_at_most 1 (con\<lparr>read_buffer := x\<rparr>)" "expects_at_most 1 (con\<lparr>read_buffer_compress := x\<rparr>)" for x
    using assms(2) by (simp_all del: One_nat_def add: expects_at_most_def queue_fields_def)
  have "expects_at_most 1 (net_error c s m con)" for c s m
    using assms(2) by (auto simp: net_error_def expects_at_most_def queue_fields_def intro: at_most_less)
  then show ?thesis using assms(1) f
    by (auto simp: attachsql_read_data_cb_def data_received_def simp del: One_nat_def split: if_splits bind_splits dest: process_packets_one)
qed

lemma receive_one:
  "receive n xs con = Some (ys, con') \<Longrightarrow> expects_at_most 1 con \<Longrightarrow> expects_at_most 1 con'"
  unfolding receive_def
  by (auto simp del: One_nat_def split: if_splits bind_splits dest!: kept_at_most[OF on_alloc_kept] kept_at_most[OF uv_store_kept]
      dest: read_data_one)

lemma receive_all_one:
  "receive_all n xs con = Some con' \<Longrightarrow> expects_at_most 1 con \<Longrightarrow> expects_at_most 1 con'"
proof (induction n xs con arbitrary: con' rule: receive_all.induct)
  case (1 n xs con)
  show ?case
  proof (cases "xs = [] \<or> stream_closed con")
    case True
    then show ?thesis using "1.prems" by (simp add: receive_all.simps[of n xs con] del: One_nat_def)
  next
    case False
    then obtain ys con1 where r: "receive n xs con = Some (ys, con1)" "receive_all n ys con1 = Some con'"
      using "1.prems"(1) by (auto simp: receive_all.simps[of n xs con] split: bind_splits)
    then show ?thesis using "1.IH"[OF False r(1) refl r(2)] receive_one[OF r(1) "1.prems"(2)] by simp
  qed
qed

section \<open>The steps of a connection\<close>

text \<open>
  What happens to a connection: an event of its loop, and what the client asks for. The client
  sends a command, or asks for a row or a further result, when no packet is expected any more, and
  the loop connects once, at the beginning.
\<close>

inductive con_step :: "attachsql_connect_t \<Rightarrow> attachsql_connect_t \<Rightarrow> bool" where
  con_event: "con_step con con'" if "dispatch e con = Some con'"
    "next_packet_queue_used con = 0 \<or> (\<forall>status. e \<noteq> Connected status)"
| con_command: "con_step con con'" if "attachsql_command_send c data con = Some (r, con')" "next_packet_queue_used con = 0"
| con_row: "con_step con con'" if "attachsql_get_next_row con = Some (r, con')" "next_packet_queue_used con = 0"
| con_stmt_row: "con_step con con'" if "attachsql_stmt_fetch con = Some (r, con')" "next_packet_queue_used con = 0"
| con_result_set: "con_step con con'" if "attachsql_command_next_result (Some con) = Some (r, Some con')"
    "next_packet_queue_used con = 0"

inductive_cases con_stepE: "con_step con con'"

lemma none_expected: "expects_at_most 1 con \<Longrightarrow> next_packet_queue_used con = 0 \<Longrightarrow> expects_at_most 0 con"
  by (auto simp: expects_at_most_def queue_fields_def at_most_def split: option.splits)

lemma pushed_one: "pushed con con' \<Longrightarrow> expects_at_most 1 con \<Longrightarrow> next_packet_queue_used con = 0 \<Longrightarrow> expects_at_most 1 con'"
  using none_expected unfolding pushed_def by blast

lemma command_send_pushed: "attachsql_command_send c data con = Some (r, con') \<Longrightarrow> pushed con con'"
  unfolding command_send_unfold command_send_compressed_unfold Let_def reset_result_def send_failed_def
  by (elim bind_SomeE)
     (auto simp: queue_change split: if_splits elim!: bind_SomeE dest!: keeps pushes;
      auto intro: at_most_less)

lemma more_of_result:
  assumes "queue_push t con1 = Some con2" "kept con con1" "expects_at_most 1 con" "next_packet_queue_used con = 0"
  shows "expects_at_most 1 con2"
  using pushed_one[OF kept_then_pushed[OF assms(2) push_pushed[OF assms(1)]] assms(3,4)] .

lemma fetch_one:
  assumes "(do { con \<leftarrow> attachsql_packet_read_end con; con \<leftarrow> queue_push t con;
      (_, con) \<leftarrow> attachsql_con_process_packets (con\<lparr>command_status := s\<rparr>); Some (command_status con, con) }) = Some (r, con')"
    and "expects_at_most 1 con" "next_packet_queue_used con = 0"
  shows "expects_at_most 1 con'"
proof -
  from assms(1) obtain con1 con2 x where c: "attachsql_packet_read_end con = Some con1" "queue_push t con1 = Some con2"
    "attachsql_con_process_packets (con2\<lparr>command_status := s\<rparr>) = Some (x, con')"
    by (auto elim!: bind_SomeE)
  have "expects_at_most 1 (con2\<lparr>command_status := s\<rparr>)"
    using more_of_result[OF c(2) read_end_kept[OF c(1)] assms(2,3)] by (simp add: expects_at_most_def queue_fields_def)
  then show ?thesis by (rule process_packets_one[OF c(3)])
qed

lemma dispatch_one:
  assumes "dispatch e con = Some con'" "expects_at_most 1 con"
    and "next_packet_queue_used con = 0 \<or> (\<forall>status. e \<noteq> Connected status)"
  shows "expects_at_most 1 con'"
proof (cases e)
  case (Resolved s)
  then show ?thesis using assms(1,2) by (auto simp: on_resolved_def expects_at_most_def queue_fields_def)
next
  case (Connected s)
  then have u: "next_packet_queue_used con = 0" "on_connect s con = Some con'" using assms by auto
  show ?thesis
  proof (cases "s < 0")
    case True
    then show ?thesis using u(2) assms(2) by (auto simp: on_connect_def expects_at_most_def queue_fields_def)
  next
    case False
    then obtain c where "queue_push ATTACHSQL_PACKET_TYPE_HANDSHAKE con = Some c" "con' = c\<lparr>stream_present := True\<rparr>"
      using u(2) by (auto simp: on_connect_def elim!: bind_SomeE)
    then show ?thesis using more_of_result[OF _ kept_refl assms(2) u(1)] by (auto simp: expects_at_most_def queue_fields_def)
  qed
next
  case (Received n xs)
  then show ?thesis using assms receive_all_one by simp
next
  case (ReadError n)
  then show ?thesis using assms(1,2) by (auto split: if_splits simp del: One_nat_def elim: read_data_one)
next
  case (Written s)
  then show ?thesis using assms(1) kept_at_most[OF on_write_kept assms(2)] by simp
next
  case Checked
  then show ?thesis using assms(1) process_packets_one[OF _ assms(2)] by (auto simp: attachsql_check_for_data_cb_def)
qed

lemma con_step_one:
  assumes "con_step con con'" "expects_at_most 1 con" shows "expects_at_most 1 con'"
  using assms(1)
proof (rule con_stepE)
  fix e assume "dispatch e con = Some con'" "next_packet_queue_used con = 0 \<or> (\<forall>status. e \<noteq> Connected status)"
  then show ?thesis using dispatch_one assms(2) by blast
next
  fix c data r assume "attachsql_command_send c data con = Some (r, con')" "next_packet_queue_used con = 0"
  then show ?thesis using pushed_one command_send_pushed assms(2) by blast
next
  fix r assume "attachsql_get_next_row con = Some (r, con')" "next_packet_queue_used con = 0"
  then show ?thesis using fetch_one assms(2) unfolding attachsql_get_next_row_def by blast
next
  fix r assume "attachsql_stmt_fetch con = Some (r, con')" "next_packet_queue_used con = 0"
  then show ?thesis using fetch_one assms(2) unfolding attachsql_stmt_fetch_def by blast
next
  fix r assume r: "attachsql_command_next_result (Some con) = Some (r, Some con')" and u: "next_packet_queue_used con = 0"
  show ?thesis
  proof (cases "server_status con AND ATTACHSQL_SERVER_STATUS_MORE_RESULTS = 0")
    case True
    then show ?thesis using r assms(2) by (simp add: attachsql_command_next_result_def)
  next
    case False
    then obtain c where c: "queue_push ATTACHSQL_PACKET_TYPE_RESPONSE (reset_result con) = Some c"
      "con' = c\<lparr>command_status := ATTACHSQL_COMMAND_STATUS_READ_RESPONSE, con_status := ATTACHSQL_CON_STATUS_BUSY\<rparr>"
      using r by (auto simp: attachsql_command_next_result_def elim!: bind_SomeE)
    have "kept con (reset_result con)" by (simp add: kept_def reset_result_def)
    from more_of_result[OF c(1) this assms(2) u] show ?thesis
      using c(2) by (simp add: expects_at_most_def queue_fields_def)
  qed
qed

lemma con_steps_one:
  assumes "con_step\<^sup>*\<^sup>* con con'" "expects_at_most 1 con" shows "expects_at_most 1 con'"
  using assms by (induction rule: rtranclp_induct) (auto intro: con_step_one simp del: One_nat_def)

lemma connect_init_expects: "expects_at_most 1 (connect_init l as rs es)"
  by (simp add: expects_at_most_def queue_fields_def at_most_def connect_init_def con_core.defs core_init_def)

lemma one_expected_safe:
  assumes "expects_at_most 1 con"
  shows "length (expected con) \<le> 1" "attachsql_packet_queue_peek con \<noteq> None" "attachsql_packet_queue_pop con \<noteq> None"
  using assms by (auto simp: expects_at_most_def queue_fields_def at_most_def expected_def attachsql_packet_queue_peek_def
      attachsql_packet_queue_pop_def queue_at_def Let_def split: option.splits)

section \<open>Properties\<close>

text \<open>
  C27. The packet loop ends whatever the server has sent: after at most as many turns as there are
  bytes between the read pointer and the end of the read buffer, and one more, a turn returns, or
  the code has left a buffer.
\<close>

theorem packet_loop_terminates:
  "\<exists>n con'. n \<le> loop_measure con \<and> loop_state n con = Some con' \<and> turn_ends con' \<and> process_loop con = process_loop con'"
  by (rule loop_ends_within)

text \<open>
  C15. A client that waits until no packet is expected before it sends the next command keeps the
  queue of expected packets at one entry or none, whatever the server sends and however the events
  and calls interleave: looking at the queue and taking from it stay inside its array, and it never
  grows to the size at which a push overruns it.
\<close>

theorem one_packet_expected:
  assumes "con_step\<^sup>*\<^sup>* (connect_init l as rs es) con"
  shows "length (expected con) \<le> 1 \<and> attachsql_packet_queue_peek con \<noteq> None \<and> attachsql_packet_queue_pop con \<noteq> None"
  using one_expected_safe[OF con_steps_one[OF assms connect_init_expects]] by blast

theorem one_packet_expected_witness:
  "\<exists>con. dispatch (Connected 0) (connect_init plain_lib [] [] []) = Some con \<and>
     expected con = [ATTACHSQL_PACKET_TYPE_HANDSHAKE] \<and> length (expected con) \<le> 1 \<and> attachsql_packet_queue_pop con \<noteq> None"
proof -
  let ?c = "connect_init plain_lib [] [] []"
  have "queue_ok ?c" "queue_room ?c" "expected ?c = []"
    by (simp_all add: queue_ok_def queue_room_def expected_def connect_init_def con_core.defs core_init_def alloc_def)
  then obtain c where c: "queue_push ATTACHSQL_PACKET_TYPE_HANDSHAKE ?c = Some c" "expected c = [ATTACHSQL_PACKET_TYPE_HANDSHAKE]"
    using queue_push_ok[of ?c ATTACHSQL_PACKET_TYPE_HANDSHAKE] by auto
  let ?d = "c\<lparr>stream_present := True\<rparr>"
  have d: "dispatch (Connected 0) ?c = Some ?d" using c(1) by (simp add: on_connect_def)
  have "con_step\<^sup>*\<^sup>* ?c ?d" by (rule r_into_rtranclp, rule con_event[OF d]) simp
  from one_packet_expected[OF this] show ?thesis
    using d c(2) queue_frame(1)[of ?d c] by (intro exI[of _ ?d]) (simp add: queue_fields_def)
qed

end
