(* ===== verification/Fragments.thy ===== *)
theory Fragments
  imports Exchange
begin

text \<open>
  How the bytes of a packet arrive makes no difference: in pieces of any size, between other events of
  the loop, they leave the connection in the very state the packet in one piece does. The queue
  contract of the read buffer gives the contents, the packet loop waits until the packet is whole.
\<close>

section \<open>Storing in pieces\<close>

lemma buffer_store_Nil: "buffer_store [] b = Some b"
  by (simp add: buffer_store_def attachsql_buffer_move_write_ptr_def)

lemma buffer_store_append:
  "buffer_store xs b = Some b1 \<Longrightarrow> buffer_store ys b1 = buffer_store (xs @ ys) b"
  by (auto simp: buffer_store_def attachsql_buffer_move_write_ptr_def blk_write_append add.assoc elim!: bind_SomeE)

lemma buffer_store_fields:
  "buffer_store xs b = Some b' \<Longrightarrow> buffer_size b' = buffer_size b \<and> buffer_read_ptr b' = buffer_read_ptr b \<and>
   buffer_used b' = buffer_used b + length xs \<and> buffer_write_ptr b' = buffer_write_ptr b + length xs"
  by (auto simp: buffer_store_def attachsql_buffer_move_write_ptr_def bind_Some_iff)

lemma skip_ok:
  assumes "buffer_ok b" "buffer_bytes b = xs @ ys"
  shows "buffer_ok (skip (length xs) b)" "buffer_bytes (skip (length xs) b) = ys"
proof -
  have l: "length xs \<le> buffer_write_ptr b - buffer_read_ptr b"
    using assms(2) buffer_bytes_length[of b] by simp
  then show "buffer_ok (skip (length xs) b)" using assms(1) by (auto simp: buffer_ok_def)
  have "buffer_bytes (skip (length xs) b) = drop (length xs) (buffer_bytes b)"
    by (simp add: buffer_bytes_def drop_map)
  then show "buffer_bytes (skip (length xs) b) = ys" by (simp add: assms(2))
qed

text \<open>
  The room libuv asks for is there without enlarging the buffer, also after \<open>m\<close> more bytes. The space
  reported counts the bytes read twice, hence the two offsets.
\<close>

definition roomy :: "nat \<Rightarrow> nat \<Rightarrow> buffer_st \<Rightarrow> bool" where
  "roomy wanted m b \<longleftrightarrow> buffer_read_ptr b + buffer_write_ptr b + m + wanted \<le> buffer_size b"

lemma roomy_available:
  "buffer_ok b \<Longrightarrow> roomy wanted m b \<Longrightarrow>
   wanted + m \<le> attachsql_buffer_get_available (Some b) \<and> m \<le> buffer_room b"
  by (auto simp: buffer_ok_def roomy_def attachsql_buffer_get_available_def buffer_room_def size_sub_le)

lemma roomy_stored: "buffer_store xs b = Some b' \<Longrightarrow> roomy wanted (length xs + m) b \<Longrightarrow> roomy wanted m b'"
  using buffer_store_fields[of xs b b'] by (simp add: roomy_def)

lemma roomy_less: "roomy wanted m b \<Longrightarrow> wanted' \<le> wanted \<Longrightarrow> m' \<le> m \<Longrightarrow> roomy wanted' m' b"
  by (simp add: roomy_def)

section \<open>One piece\<close>

text \<open>A connection whose stream is open and uncompressed, with \<open>b\<close> its read buffer.\<close>

definition listening :: "attachsql_connect_t \<Rightarrow> buffer_st \<Rightarrow> bool" where
  "listening con b \<longleftrightarrow> read_buffer con = Some b \<and> buffer_ok b \<and> \<not> opt_compression con \<and> \<not> stream_closed con"

lemma receive_piece:
  assumes "listening con b" "roomy wanted (length xs) b" "xs \<noteq> []" "buffer_store xs b = Some b'"
  shows "receive_all wanted xs con = map_option snd (process_loop (con\<lparr>read_buffer := Some b'\<rparr>))"
proof -
  note l = assms(1)[unfolded listening_def]
  have room: "wanted + length xs \<le> attachsql_buffer_get_available (Some b)"
    using roomy_available[of b wanted "length xs"] l assms(2) by simp
  have alloc: "on_alloc wanted con = Some (attachsql_buffer_get_available (Some b), con)"
    using l room by (simp add: on_alloc_def buffer_prepare_def)
  obtain mem where mem: "blk_write (buffer b) (buffer_write_ptr b) xs = Some mem"
    "b' = attachsql_buffer_move_write_ptr (b\<lparr>buffer := mem\<rparr>) (length xs)"
    using assms(4) by (auto simp: buffer_store_def bind_Some_iff)
  have "0 < length xs" using assms(3) by simp
  then have "0 < attachsql_buffer_get_available (Some b)" using room by linarith
  with l mem have "receive wanted xs con = map_option (\<lambda>(_, con). ([], con)) (process_loop (con\<lparr>read_buffer := Some b'\<rparr>))"
    using room by (auto simp: receive_def alloc uv_store_def attachsql_read_data_cb_def data_received_def attachsql_con_process_packets_def
        map_option_case split: option.splits)
  then show ?thesis using l assms(3)
    by (subst receive_all.simps) (auto simp: receive_all.simps[of _ "[]"] map_option_case split: option.splits)
qed

text \<open>What has arrived while a packet is awaited.\<close>

definition heard :: "attachsql_connect_t \<Rightarrow> uint32 \<Rightarrow> buffer_st \<Rightarrow> attachsql_connect_t" where
  "heard con len b = con\<lparr>packet_size := len, read_buffer := Some b\<rparr>"

lemma heard_expects: "expects t (heard con len b) = expects t con"
proof -
  have "queue_fields (heard con len b) = queue_fields con" by (simp add: heard_def queue_fields_def)
  then show ?thesis using queue_frame[of "heard con len b" con] by (simp add: expects_def)
qed

lemma heard_listening: "listening con b \<Longrightarrow> buffer_ok b' \<Longrightarrow> listening (heard con len b') b'"
  by (simp add: listening_def heard_def)

text \<open>The size of a packet seen so far is overwritten with its real size.\<close>

lemma heard_turn:
  assumes "listening con b0" "buffer_ok b" "buffer_bytes b = packet n payload @ rest"
    and "length payload < 2 ^ 24" "expects t con" "t \<noteq> ATTACHSQL_PACKET_TYPE_NONE" "n = next_number t con"
  shows "process_loop (heard con len b) = process_loop (con\<lparr>read_buffer := Some b\<rparr>)"
proof -
  have turn: "process_packet (heard con l b) =
      (if n < 0x80 then do { con' \<leftarrow> read_packet t (taken (length payload) n b con); Some (if stops t then Some True else None, con') }
       else Some (Some True, out_of_sequence (con\<lparr>read_buffer := Some b, packet_size := of_nat (length payload),
         packet_number := n, next_packet_queue_used := next_packet_queue_used con - 1\<rparr>)))" for l
  proof -
    have "taken (length payload) n b (heard con l b) = taken (length payload) n b con"
      "out_of_sequence ((heard con l b)\<lparr>packet_size := of_nat (length payload), packet_number := n,
         next_packet_queue_used := next_packet_queue_used (heard con l b) - 1\<rparr>) =
       out_of_sequence (con\<lparr>read_buffer := Some b, packet_size := of_nat (length payload),
         packet_number := n, next_packet_queue_used := next_packet_queue_used con - 1\<rparr>)"
      "read_buffer (heard con l b) = Some b" "expects t (heard con l b)"
      using assms(5) heard_expects[of t con l b] by (simp_all add: heard_def taken_def)
    moreover have "n = next_number t (heard con l b)" using assms(7) by (auto simp: next_number_def heard_def)
    ultimately show ?thesis using turn_packet[of "heard con l b" b n payload rest t] assms(2-4,6) by simp
  qed
  have "con\<lparr>read_buffer := Some b\<rparr> = heard con (packet_size con) b" by (simp add: heard_def)
  then show ?thesis by (subst (1 2) process_loop.simps) (simp add: turn)
qed

lemma heard_partial:
  assumes "listening con b0" "buffer_ok b" "buffer_bytes b = take k (packet n payload)" "k < length (packet n payload)"
    and "length payload < 2 ^ 24" "expects t con" "t \<noteq> ATTACHSQL_PACKET_TYPE_NONE"
  shows "\<exists>len'. process_loop (heard con len b) = Some (False, heard con len' b)"
proof -
  obtain len' where "process_packet (heard con len b) = Some (Some False, (heard con len b)\<lparr>packet_size := len'\<rparr>)"
    using turn_partial[of "heard con len b" b k n payload t] assms(2-7) heard_expects by (auto simp: heard_def)
  then have "process_loop (heard con len b) = Some (False, heard con len' b)"
    by (subst process_loop.simps) (simp add: heard_def)
  then show ?thesis by blast
qed

section \<open>Events while a packet is awaited\<close>

text \<open>The events of a loop that goes well: bytes, of which at most \<open>wanted\<close> are asked for, and completed writes.\<close>

fun arrives :: "nat \<Rightarrow> uv_event \<Rightarrow> bool" where
  "arrives wanted (Received n xs) = (n \<le> wanted)"
| "arrives wanted (Written status) = (0 \<le> status)"
| "arrives wanted Checked = True"
| "arrives wanted _ = False"

fun bytes_of :: "uv_event \<Rightarrow> byte list" where
  "bytes_of (Received n xs) = xs"
| "bytes_of _ = []"

definition arrived :: "uv_event list \<Rightarrow> byte list" where
  "arrived evs = concat (map bytes_of evs)"

lemma dispatch_all_append: "dispatch_all (es @ fs) con = do { con \<leftarrow> dispatch_all es con; dispatch_all fs con }"
proof (induction es arbitrary: con)
  case (Cons e es)
  then show ?case by (cases "dispatch e con") auto
qed simp

lemma awaiting_event:
  assumes "listening con b" "arrives wanted e" "roomy wanted (length (bytes_of e)) b" "buffer_store (bytes_of e) b = Some b'"
    and "buffer_ok b'" "buffer_bytes b' = take k (packet n payload)" "k < length (packet n payload)"
    and "length payload < 2 ^ 24" "expects t con" "t \<noteq> ATTACHSQL_PACKET_TYPE_NONE"
  shows "\<exists>len. dispatch e con = Some (heard con len b')"
proof -
  have rb: "read_buffer con = Some b" "\<not> opt_compression con" using assms(1) by (simp_all add: listening_def)
  then have same: "heard con (packet_size con) b = con" by (simp add: heard_def)
  have loop: "\<exists>len'. process_loop (heard con (packet_size con) b') = Some (False, heard con len' b')"
    using heard_partial[OF assms(1,5-10)] by blast
  show ?thesis
  proof (cases e)
    case (Received m xs)
    then have room: "roomy m (length xs) b" using roomy_less[OF assms(3)] assms(2) by simp
    show ?thesis
    proof (cases "xs = []")
      case True
      then have "b' = b" using assms(4) Received by (simp add: buffer_store_Nil)
      then show ?thesis using True Received same by (auto simp: receive_all.simps intro!: exI[of _ "packet_size con"])
    next
      case False
      then show ?thesis using receive_piece[OF assms(1) room] assms(4) Received loop by (auto simp: heard_def)
    qed
  next
    case (Written status)
    then have "b' = b" "0 \<le> status" using assms(2,4) by (simp_all add: buffer_store_Nil)
    then show ?thesis using Written same expects_peek[OF assms(9)] assms(10)
      by (auto simp: on_write_def Let_def intro!: exI[of _ "packet_size con"])
  next
    case Checked
    then have "b' = b" using assms(4) by (simp add: buffer_store_Nil)
    then show ?thesis using Checked loop same rb
      by (auto simp: attachsql_check_for_data_cb_def attachsql_con_process_packets_def)
  qed (use assms(2) in auto)
qed

lemma take_front:
  assumes "xs @ ys @ zs = take k ps"
  shows "xs @ ys = take (length (xs @ ys)) ps"
proof -
  have "take (length (xs @ ys)) (xs @ ys @ zs) = take (length (xs @ ys)) (take k ps)" by (simp only: assms)
  moreover have "length (xs @ ys) \<le> k" using arg_cong[OF assms, of length] by simp
  ultimately show ?thesis by (simp add: min_def)
qed

lemma awaiting_events:
  assumes "listening con b" "list_all (arrives wanted) evs" "roomy wanted (length (arrived evs)) b"
    and "buffer_bytes b @ arrived evs = take k (packet n payload)" "k < length (packet n payload)"
    and "length payload < 2 ^ 24" "expects t con" "t \<noteq> ATTACHSQL_PACKET_TYPE_NONE"
  shows "\<exists>len b'. dispatch_all evs con = Some (heard con len b') \<and> buffer_store (arrived evs) b = Some b' \<and> buffer_ok b'"
  using assms
proof (induction evs arbitrary: con b)
  case Nil
  then show ?case
    by (intro exI[of _ "packet_size con"] exI[of _ b]) (simp add: arrived_def buffer_store_Nil heard_def listening_def)
next
  case (Cons e es)
  let ?xs = "bytes_of e"
  have ok: "buffer_ok b" using Cons.prems(1) by (simp add: listening_def)
  have all: "arrived (e # es) = ?xs @ arrived es" by (simp add: arrived_def)
  have room: "roomy wanted (length ?xs) b" using roomy_less[OF Cons.prems(3)] by (simp add: all)
  have "length ?xs \<le> buffer_room b" using roomy_available[OF ok room] by simp
  then obtain b1 where b1: "buffer_store ?xs b = Some b1" "buffer_ok b1" "buffer_bytes b1 = buffer_bytes b @ ?xs"
    using buffer_store_ok[OF ok] by blast
  have part: "buffer_bytes b1 = take (length (buffer_bytes b1)) (packet n payload)"
    using Cons.prems(4) unfolding all b1(3) by (rule take_front)
  have less: "length (buffer_bytes b1) < length (packet n payload)"
    using arg_cong[OF Cons.prems(4), of length] Cons.prems(5) by (simp add: all b1(3))
  obtain len where d: "dispatch e con = Some (heard con len b1)"
    using awaiting_event[OF Cons.prems(1) _ room b1(1,2) part less Cons.prems(6-8)] Cons.prems(2) by auto
  have "\<exists>len' b'. dispatch_all es (heard con len b1) = Some (heard (heard con len b1) len' b') \<and>
      buffer_store (arrived es) b1 = Some b' \<and> buffer_ok b'"
  proof (rule Cons.IH[OF heard_listening[OF Cons.prems(1) b1(2)] _ roomy_stored[OF b1(1)] _ Cons.prems(5,6) _ Cons.prems(8)])
    show "list_all (arrives wanted) es" "roomy wanted (length ?xs + length (arrived es)) b"
      "buffer_bytes b1 @ arrived es = take k (packet n payload)" "expects t (heard con len b1)"
      using Cons.prems(2,3,4,7) by (simp_all add: all b1(3) heard_expects)
  qed
  then show ?case using d buffer_store_append[OF b1(1)] by (auto simp: all heard_def)
qed

section \<open>Properties\<close>

text \<open>
  C10. A packet that is awaited may arrive in any number of pieces, with completed writes and check
  callbacks between them, and with more bytes behind it: as long as the read buffer has room for
  them, the connection ends in the same state, byte for byte, as when everything arrives at once.
\<close>

theorem pieces_make_no_difference:
  assumes "listening con b" "expects t con" "t \<noteq> ATTACHSQL_PACKET_TYPE_NONE"
    and "buffer_bytes b @ arrived evs @ xs = packet (next_number t con) payload @ rest" "length payload < 2 ^ 24"
    and "length (buffer_bytes b @ arrived evs) < length (packet (next_number t con) payload)"
    and "list_all (arrives wanted) evs" "roomy wanted (length (arrived evs @ xs)) b"
  shows "dispatch_all (evs @ [Received wanted xs]) con = dispatch (Received wanted (arrived evs @ xs)) con"
proof -
  let ?p = "packet (next_number t con) payload" and ?ys = "arrived evs"
  let ?k = "length (buffer_bytes b @ ?ys)"
  have ok: "buffer_ok b" using assms(1) by (simp add: listening_def)
  have "take ?k (buffer_bytes b @ ?ys @ xs) = take ?k (?p @ rest)" by (simp only: assms(4))
  then have part: "buffer_bytes b @ ?ys = take ?k ?p" using assms(6) by simp
  have xs: "xs \<noteq> []"
  proof
    assume "xs = []"
    then show False using arg_cong[OF assms(4), of length] assms(6) by simp
  qed
  have room: "roomy wanted (length ?ys) b" using roomy_less[OF assms(8)] by simp
  obtain len b1 where e: "dispatch_all evs con = Some (heard con len b1)" "buffer_store ?ys b = Some b1" "buffer_ok b1"
    using awaiting_events[OF assms(1,7) room part assms(6,5,2,3)] by blast
  have "length (?ys @ xs) \<le> buffer_room b" using roomy_available[OF ok assms(8)] by simp
  then obtain b2 where b2: "buffer_store (?ys @ xs) b = Some b2" "buffer_ok b2" "buffer_bytes b2 = ?p @ rest"
    using buffer_store_ok[OF ok, of "?ys @ xs"] assms(4) by auto
  have store: "buffer_store xs b1 = Some b2" using buffer_store_append[OF e(2)] b2(1) by simp
  have "receive_all wanted xs (heard con len b1) = map_option snd (process_loop (heard con len b2))"
    using receive_piece[OF heard_listening[OF assms(1) e(3)] roomy_stored[OF e(2)] xs store] assms(8)
    by (simp add: heard_def)
  also have "\<dots> = map_option snd (process_loop (con\<lparr>read_buffer := Some b2\<rparr>))"
    using heard_turn[OF assms(1) b2(2,3) assms(5,2,3)] by simp
  also have "\<dots> = receive_all wanted (?ys @ xs) con"
    using receive_piece[OF assms(1,8) _ b2(1)] xs by simp
  finally have "receive_all wanted xs (heard con len b1) = receive_all wanted (?ys @ xs) con" .
  then show ?thesis using e(1)
    by (cases "receive_all wanted (?ys @ xs) con") (simp_all add: dispatch_all_append)
qed

lemma connect_init_open [simp]: "\<not> stream_closed (connect_init l as rs es)"
  by (simp add: connect_init_def con_core.defs core_init_def)

theorem pieces_make_no_difference_witness:
  "dispatch_all [Received 16 [2, 0], Checked, Written 0, Received 16 [0, 1, 1], Received 16 [0x61]] (answer_con 0 []) =
   dispatch (Received 16 [2, 0, 0, 1, 1, 0x61]) (answer_con 0 [])"
proof -
  let ?c = "answer_con 0 []" and ?b = "packet_buffer [] []"
  let ?evs = "[Received 16 [2, 0], Checked, Written 0, Received 16 [0, 1, 1]]"
  have "packet_in ?b [] []" by (rule packet_buffer_in) simp
  then have b: "buffer_ok ?b" "buffer_bytes ?b = []" by (simp_all add: packet_in_def)
  have l: "listening ?c ?b" using b(1) by (simp add: listening_def answer_con_def row_con_def)
  have e: "expects ATTACHSQL_PACKET_TYPE_ROW ?c"
    by (simp add: expects_def answer_con_def row_con_def queue_ok_def expected_def)
  have n: "next_number ATTACHSQL_PACKET_TYPE_ROW ?c = 1" by (simp add: next_number_def answer_con_def)
  have bytes: "buffer_bytes ?b @ arrived ?evs @ [0x61] = packet (next_number ATTACHSQL_PACKET_TYPE_ROW ?c) [1, 0x61] @ []"
    "length (buffer_bytes ?b @ arrived ?evs) < length (packet (next_number ATTACHSQL_PACKET_TYPE_ROW ?c) [1, 0x61])"
    unfolding b(2) n by (simp_all add: arrived_def packet_def le_bytes_3)
  have r: "roomy 16 (length (arrived ?evs @ [0x61])) ?b" by (simp add: roomy_def arrived_def packet_buffer_def)
  have "dispatch_all (?evs @ [Received 16 [0x61]]) ?c = dispatch (Received 16 (arrived ?evs @ [0x61])) ?c"
    by (rule pieces_make_no_difference[OF l e _ bytes(1) _ bytes(2) _ r]) simp_all
  then show ?thesis by (simp add: arrived_def)
qed

end
