(* ===== verification/Inflate.thy ===== *)
theory Inflate
  imports Fragments
begin

text \<open>
  Receiving with compression: a compressed packet in its buffer is opened into the read buffer, and from
  there the packet loop goes on as without compression. What a compressed packet holds is
  \<open>open_compressed\<close>, which also says what the server makes of the packets the library sends.
\<close>

section \<open>A compressed packet\<close>

definition wrapped :: "byte \<Rightarrow> nat \<Rightarrow> byte list \<Rightarrow> byte list" where
  "wrapped seq n body =
     le_bytes 3 (of_nat (length body) :: uint64) @ [seq] @ le_bytes 3 (of_nat n :: uint64) @ body"

lemma wrapped_length [simp]: "length (wrapped seq n body) = 7 + length body"
  by (simp add: wrapped_def)

lemma get_int3_nat: "ahead b (le_bytes 3 (of_nat n :: uint64) @ ys) \<Longrightarrow> n < 2 ^ 24 \<Longrightarrow> get_int3 b = Some (of_nat n)"
proof -
  assume a: "ahead b (le_bytes 3 (of_nat n :: uint64) @ ys)" and n: "n < 2 ^ 24"
  have "take_bit 24 (of_nat n :: uint64) = of_nat n"
    using take_bit_of_nat[of 24 n, where 'a = uint64] n by (simp add: take_bit_nat_eq_self)
  then have "(ucast (take_bit 24 (of_nat n :: uint64)) :: uint32) = of_nat n"
    using n by (simp add: unsigned_of_nat take_bit_nat_eq_self)
  then show ?thesis using ahead_int3[OF a] by simp
qed

lemma wrapped_head:
  assumes "ahead b (wrapped seq n body @ rest)" "length body < 2 ^ 24" "n < 2 ^ 24"
  shows "get_int3 b = Some (of_nat (length body))" "get_byte (skip 3 b) = Some seq"
    "get_int3 (skip 4 b) = Some (of_nat n)" "get_bytes (length body) (skip 7 b) = Some body"
proof -
  have a: "ahead b (le_bytes 3 (of_nat (length body) :: uint64) @ seq # le_bytes 3 (of_nat n :: uint64) @ body @ rest)"
    using assms(1) by (simp add: wrapped_def)
  show "get_int3 b = Some (of_nat (length body))" using get_int3_nat[OF a assms(2)] .
  have a3: "ahead (skip 3 b) (seq # le_bytes 3 (of_nat n :: uint64) @ body @ rest)" using ahead_skip[OF a] by simp
  then show "get_byte (skip 3 b) = Some seq" by (rule ahead_byte)
  have a4: "ahead (skip 4 b) (le_bytes 3 (of_nat n :: uint64) @ body @ rest)" using ahead_Cons[OF a3] by simp
  then show "get_int3 (skip 4 b) = Some (of_nat n)" using get_int3_nat assms(3) by blast
  have "ahead (skip 7 b) (body @ rest)" using ahead_skip[OF a4] by simp
  then show "get_bytes (length body) (skip 7 b) = Some body" using ahead_bytes by blast
qed

section \<open>Opening it\<close>

text \<open>The buffer of compressed bytes behind the packet.\<close>

definition opened :: "nat \<Rightarrow> buffer_st \<Rightarrow> buffer_st" where
  "opened n rc = (skip (7 + n) rc)\<lparr>packet_end_ptr := Some (buffer_read_ptr rc + 7 + n)\<rparr>"

lemma opened_ok:
  assumes "buffer_ok rc" "buffer_bytes rc = wrapped seq n body @ rest"
  shows "buffer_ok (opened (length body) rc) \<and> buffer_bytes (opened (length body) rc) = rest"
  using skip_ok[OF assms] by (simp add: opened_def buffer_ok_def buffer_bytes_def)

lemma prepare_roomy:
  "buffer_ok b \<Longrightarrow> roomy 0 m b \<Longrightarrow> wanted \<le> m \<Longrightarrow>
   buffer_prepare wanted (Some b) con = Some (attachsql_buffer_get_available (Some b), b, con)"
  using roomy_available[of b 0 m] by (simp add: buffer_prepare_def)

lemma decompress_opens:
  assumes rc: "read_buffer_compress con = Some rc" "buffer_ok rc" "buffer_bytes rc = wrapped seq n body @ rest"
    and len: "length body < 2 ^ 24" "n < 2 ^ 24" and seq: "seq = compressed_packet_number con + 1" "seq < 0x80"
    and src: "open_compressed (lib con) (wrapped seq n body) = Some (seq, src)"
    and b: "read_buffer con = Some b" "buffer_ok b" "roomy 0 (length src) b" "buffer_store src b = Some b'"
  shows "attachsql_con_decompress_read_buffer con = Some (True,
    con\<lparr>compressed_packet_number := seq, read_buffer_compress := Some (opened (length body) rc), read_buffer := Some b'\<rparr>)"
proof -
  have a: "ahead rc (wrapped seq n body @ rest)" using buffer_ok_has[OF rc(2)] rc(3) by (simp add: ahead_def)
  note h = wrapped_head[OF a len]
  have u: "attachsql_buffer_unread_data rc = 7 + length body + length rest"
    using unread_data_length[OF rc(2)] rc(3) by simp
  have "unat (of_nat (length body + 7) :: uint32) = length body + 7"
    using len(1) by (simp add: unat_of_nat take_bit_nat_eq_self del: of_nat_add)
  then have u7: "unat (of_nat (length body) + 7 :: uint32) = length body + 7" by simp
  have un: "unat (of_nat (length body) :: uint32) = length body" "unat (of_nat n :: uint32) = n"
    using len by (simp_all add: unat_of_nat take_bit_nat_eq_self)
  have body: "if n = 0 then src = body else zlib_uncompress (lib con) body = Some src \<and> length src = n"
    using src open_compressed_packet[OF len, of "lib con" seq] by (auto simp: wrapped_def split: if_splits bind_splits)
  obtain mem where mem: "blk_write (buffer b) (buffer_write_ptr b) src = Some mem"
    "b' = attachsql_buffer_move_write_ptr (b\<lparr>buffer := mem\<rparr>) (length src)"
    using b(4) by (auto simp: buffer_store_def elim!: bind_SomeE)
  have prep: "buffer_prepare n (Some b) c = Some (attachsql_buffer_get_available (Some b), b, c)"
    for c :: "'a con_core_scheme"
    using prepare_roomy[OF b(2,3), of n] body by (auto split: if_splits)
  have fits: "length src \<le> attachsql_buffer_get_available (Some b)" using roomy_available[OF b(2,3)] by simp
  let ?c = "con\<lparr>compressed_packet_number := seq\<rparr>"
  let ?rc = "(skip 7 rc)\<lparr>packet_end_ptr := Some (buffer_read_ptr rc + 7 + length body)\<rparr>"
  have sk: "skip (length body) ?rc = opened (length body) rc" by (simp add: opened_def skip_def)
  have gb: "get_bytes (length body) ?rc = Some body" using h(4) by (simp add: get_bytes_def)
  have "attachsql_con_decompress_read_buffer con =
      decompress_body (attachsql_buffer_get_available (Some b)) (length body) n
        (?c\<lparr>read_buffer_compress := Some ?rc, read_buffer := Some b\<rparr>)"
    using seq by (simp add: attachsql_con_decompress_read_buffer_def rc(1) u h u7 un number_matches_small b(1) prep Let_def
        del: skip_skip)
  also have "\<dots> = Some (True, ?c\<lparr>read_buffer_compress := Some (opened (length body) rc), read_buffer := Some b'\<rparr>)"
    using body fits mem(1) by (cases "n = 0") (simp_all add: decompress_body_def gb mem sk)
  finally show ?thesis by simp
qed

section \<open>Properties\<close>

text \<open>
  C18. With compression, the next compressed packet is opened and what it holds is put behind the bytes
  that have not been read yet; then the packet loop reads from the read buffer as it does without
  compression. What lies behind the compressed packet stays for the next call.
\<close>

theorem compressed_packet_opened:
  assumes "opt_compression con" "read_buffer_compress con = Some rc" "buffer_ok rc" "buffer_bytes rc = wrapped seq n body @ rest"
    and "length body < 2 ^ 24" "n < 2 ^ 24" "seq = compressed_packet_number con + 1" "seq < 0x80"
    and "open_compressed (lib con) (wrapped seq n body) = Some (seq, src)"
    and "read_buffer con = Some b" "buffer_ok b" "roomy 0 (length src) b"
  shows "\<exists>b' rc'. attachsql_con_process_packets con =
      process_loop (con\<lparr>compressed_packet_number := seq, read_buffer_compress := Some rc', read_buffer := Some b'\<rparr>) \<and>
    buffer_ok b' \<and> buffer_bytes b' = buffer_bytes b @ src \<and> buffer_ok rc' \<and> buffer_bytes rc' = rest"
proof -
  have "length src \<le> buffer_room b" using roomy_available[OF assms(11,12)] by simp
  then obtain b' where b': "buffer_store src b = Some b'" "buffer_ok b'" "buffer_bytes b' = buffer_bytes b @ src"
    using buffer_store_ok[OF assms(11)] by blast
  have "attachsql_con_process_packets con = process_loop (con\<lparr>compressed_packet_number := seq,
      read_buffer_compress := Some (opened (length body) rc), read_buffer := Some b'\<rparr>)"
    using decompress_opens[OF assms(2-12) b'(1)] assms(1,2) by (simp add: attachsql_con_process_packets_def)
  then show ?thesis using b'(2,3) opened_ok[OF assms(3,4)] by blast
qed

theorem compressed_packet_opened_witness:
  "\<exists>b' rc'. attachsql_con_process_packets ((answer_con 0 [])\<lparr>opt_compression := True,
       read_buffer_compress := Some (packet_buffer [] (wrapped 1 0 (packet 1 [1, 0x61])))\<rparr>) =
     process_loop ((answer_con 0 [])\<lparr>opt_compression := True, compressed_packet_number := 1,
       read_buffer_compress := Some rc', read_buffer := Some b'\<rparr>) \<and>
     buffer_bytes b' = packet 1 [1, 0x61] \<and> buffer_bytes rc' = []"
proof -
  let ?w = "wrapped 1 0 (packet 1 [1, 0x61])" and ?b = "packet_buffer [] []"
  let ?rc = "packet_buffer [] ?w"
  let ?c = "(answer_con 0 [])\<lparr>opt_compression := True, read_buffer_compress := Some ?rc\<rparr>"
  have l: "length (packet 1 [1, 0x61]) = 6" by (simp add: packet_def)
  have "packet_in ?rc [] ?w" "packet_in ?b [] []" by (rule packet_buffer_in, simp add: l)+
  then have b: "buffer_ok ?rc" "buffer_bytes ?rc = ?w @ []" "buffer_ok ?b" "buffer_bytes ?b = []"
    by (simp_all add: packet_in_def)
  have c: "opt_compression ?c" "read_buffer_compress ?c = Some ?rc" "read_buffer ?c = Some ?b"
    "1 = compressed_packet_number ?c + 1"
    by (simp_all add: answer_con_def row_con_def connect_init_def con_core.defs core_init_def)
  have o: "open_compressed (lib ?c) ?w = Some (1, packet 1 [1, 0x61])"
    using open_compressed_packet[of "packet 1 [1, 0x61]" 0 "lib ?c" 1] by (simp add: wrapped_def l)
  have r: "roomy 0 (length (packet 1 [1, 0x61])) ?b" by (simp add: roomy_def packet_buffer_def l)
  from compressed_packet_opened[OF c(1,2) b(1,2) _ _ c(4) _ o c(3) b(3) r] show ?thesis
    by (auto simp: b(4) l)
qed

end
