(* ===== verification/Ssl.thy ===== *)
theory Ssl
  imports Poll
begin

text \<open>
  The build with OpenSSL, \<open>src/net.cc\<close> and \<open>src/connect.cc\<close>: an encrypted connection gives what it writes
  to the TLS library through a write buffer of its own, and passes the encrypted bytes between the
  library and the network. The TLS library is a parameter, \<open>'s\<close> the state of an \<open>SSL\<close> object with its two
  memory BIOs and the library's error queue; its functions return the \<open>int\<close> of the C functions and the bytes
  they store. The state \<open>con->ssl\<close> is kept beside the connection, whose other parts are those of the build
  without OpenSSL.
\<close>

section \<open>The library and the state\<close>

text \<open>\<open>BIO_read\<close> of the write BIO is the bytes read, none for a result of 0 or less.\<close>

record 's ssl_library =
  SSL_is_init_finished :: "'s \<Rightarrow> bool"
  SSL_connect :: "'s \<Rightarrow> int \<times> 's"
  SSL_read :: "nat \<Rightarrow> 's \<Rightarrow> int \<times> byte list \<times> 's"
  SSL_write :: "byte list \<Rightarrow> 's \<Rightarrow> int \<times> 's"
  SSL_get_error :: "int \<Rightarrow> 's \<Rightarrow> int"
  ERR_get_error :: "'s \<Rightarrow> nat \<times> 's"
  ERR_reason_error_string :: "nat \<Rightarrow> byte list"
  BIO_read :: "nat \<Rightarrow> 's \<Rightarrow> byte list \<times> 's"
  BIO_write :: "byte list \<Rightarrow> 's \<Rightarrow> 's"
  start_handshake :: "'s \<Rightarrow> 's"

abbreviation (input) SSL_ERROR_WANT_READ :: int where "SSL_ERROR_WANT_READ \<equiv> 2"
abbreviation (input) SSL_BUFFER_SIZE :: nat where "SSL_BUFFER_SIZE \<equiv> 16384"

record 's ssl_t =
  ssl :: "'s option"
  ssl_enabled :: bool
  handshake_done :: bool
  ssl_write_buffer :: "buffer_st option"
  bio_buffer_size :: nat

type_synonym ('s, 'a) secure = "'s ssl_t \<times> 'a con_core_scheme"

definition ssl_init :: "'s ssl_t" where
  "ssl_init = \<lparr>ssl = None, ssl_enabled = False, handshake_done = False, ssl_write_buffer = None, bio_buffer_size = 0\<rparr>"

section \<open>Between the library and the network\<close>

text \<open>A failure reported with the reason of the library's last error.\<close>

definition ssl_failed :: "'s ssl_library \<Rightarrow> string \<Rightarrow> 's \<Rightarrow> 'a con_core_scheme \<Rightarrow> 's \<times> 'a con_core_scheme" where
  "ssl_failed l msg s con =
     (let (errcode, s) = ERR_get_error l s
      in (s, (send_failed ATTACHSQL_RET_NET_SSL_ERROR con)
               \<lparr>con_status := ATTACHSQL_CON_STATUS_SSL_ERROR,
                errmsg := text_array (ATTACHSQL_ERROR_BUFFER_SIZE - 1) (str msg @ ERR_reason_error_string l errcode)\<rparr>))"

text \<open>What has not been given to the library yet; an \<open>int\<close> must hold its length.\<close>

definition ssl_push ::
  "'s ssl_library \<Rightarrow> 's ssl_t \<Rightarrow> 'a con_core_scheme \<Rightarrow> ('s, 'a) secure option" where
  "ssl_push l t con =
     (case ssl_write_buffer t of
        None \<Rightarrow> Some (t, con)
      | Some b \<Rightarrow>
          let len = attachsql_buffer_unread_data b
          in if len = 0 then Some (t, con)
             else if 2 ^ 31 \<le> len then None
             else do {
               xs \<leftarrow> get_bytes len b;
               s \<leftarrow> ssl t;
               let (r, s) = SSL_write l xs s;
               if r < 0 then
                 if SSL_get_error l r s \<noteq> SSL_ERROR_WANT_READ
                 then let (s, con) = ssl_failed l ''SSL write fail: '' s con in Some (t\<lparr>ssl := Some s\<rparr>, con)
                 else Some (t\<lparr>ssl := Some s\<rparr>, con)
               else Some (t\<lparr>ssl := Some s, ssl_write_buffer := Some (skip (nat r) b)\<rparr>, con) })"

text \<open>The encrypted bytes sent, as many as the library has; a failed write does not stop the loop.\<close>

partial_function (option) flush_bio ::
  "'s ssl_library \<Rightarrow> 's \<Rightarrow> 'a con_core_scheme \<Rightarrow> ('s \<times> 'a con_core_scheme) option" where
  "flush_bio l s con =
     (if fst (BIO_read l SSL_BUFFER_SIZE s) = [] then Some (snd (BIO_read l SSL_BUFFER_SIZE s), con)
      else Option.bind (uv_write [fst (BIO_read l SSL_BUFFER_SIZE s)] con) (\<lambda>x.
        flush_bio l (snd (BIO_read l SSL_BUFFER_SIZE s))
          (if fst x < 0 then send_failed ATTACHSQL_RET_NET_WRITE_ERROR (snd x) else snd x)))"

definition attachsql_ssl_data_check ::
  "'s ssl_library \<Rightarrow> 's ssl_t \<Rightarrow> 'a con_core_scheme \<Rightarrow> ('s, 'a) secure option" where
  "attachsql_ssl_data_check l t con =
     do { (t, con) \<leftarrow> ssl_push l t con;
          s \<leftarrow> ssl t;
          (s, con) \<leftarrow> flush_bio l s con;
          Some (t\<lparr>ssl := Some s\<rparr>, con) }"

definition attachsql_ssl_handle_error ::
  "'s ssl_library \<Rightarrow> int \<Rightarrow> 's ssl_t \<Rightarrow> 'a con_core_scheme \<Rightarrow> ('s, 'a) secure option" where
  "attachsql_ssl_handle_error l r t con =
     do { s \<leftarrow> ssl t;
          if SSL_get_error l r s = SSL_ERROR_WANT_READ then attachsql_ssl_data_check l t con
          else let (s, con) = ssl_failed l ''SSL read/write fail: '' s con in Some (t\<lparr>ssl := Some s\<rparr>, con) }"

text \<open>
  Driving the library: the handshake as long as it lasts, afterwards a read whose bytes go to
  \<open>ssl_read_buffer\<close>, which nothing reads.
\<close>

definition attachsql_ssl_run ::
  "'s ssl_library \<Rightarrow> 's ssl_t \<Rightarrow> 'a con_core_scheme \<Rightarrow> ('s, 'a) secure option" where
  "attachsql_ssl_run l t con =
     do { s \<leftarrow> ssl t;
          let (r, s) = (if \<not> SSL_is_init_finished l s then SSL_connect l s
                        else let (r, _, s) = SSL_read l SSL_BUFFER_SIZE s in (r, s));
          let t = t\<lparr>ssl := Some s\<rparr>;
          (t, con) \<leftarrow> (if r < 0 then attachsql_ssl_handle_error l r t con else Some (t, con));
          attachsql_ssl_data_check l t con }"

section \<open>Writing\<close>

fun store_bufs :: "byte list list \<Rightarrow> buffer_st \<Rightarrow> buffer_st option" where
  "store_bufs [] b = Some b"
| "store_bufs (x # xs) b = do { b \<leftarrow> buffer_store x b; store_bufs xs b }"

definition attachsql_ssl_buffer_write ::
  "'s ssl_library \<Rightarrow> byte list list \<Rightarrow> 's ssl_t \<Rightarrow> 'a con_core_scheme \<Rightarrow> (int \<times> ('s, 'a) secure) option" where
  "attachsql_ssl_buffer_write l bufs t con =
     do { (_, b, con) \<leftarrow> buffer_prepare (sum_list (map length bufs)) (ssl_write_buffer t) con;
          b \<leftarrow> store_bufs bufs b;
          x \<leftarrow> attachsql_ssl_run l (t\<lparr>ssl_write_buffer := Some b\<rparr>) con;
          Some (0, x) }"

text \<open>The writes of \<open>attachsql_send_data\<close> and \<open>attachsql_command_send\<close>.\<close>

definition secure_write ::
  "'s ssl_library \<Rightarrow> byte list list \<Rightarrow> 's ssl_t \<Rightarrow> 'a con_core_scheme \<Rightarrow> (int \<times> ('s, 'a) secure) option" where
  "secure_write l bufs t con =
     (if handshake_done t then attachsql_ssl_buffer_write l bufs t con
      else do { (ret, con) \<leftarrow> uv_write bufs con; Some (ret, t, con) })"

text \<open>
  The start of \<open>attachsql_send_data\<close>: the first time after encryption has been agreed on, the library
  is given its BIOs and begins its handshake; all that is written from then on goes to the library.
\<close>

definition secure_start :: "'s ssl_library \<Rightarrow> 's ssl_t \<Rightarrow> 'a con_core_scheme \<Rightarrow> ('s, 'a) secure option" where
  "secure_start l t con =
     (if ssl_enabled t \<and> \<not> handshake_done t then
        do { s \<leftarrow> ssl t;
             (t, con) \<leftarrow> attachsql_ssl_run l (t\<lparr>ssl := Some (start_handshake l s)\<rparr>) con;
             Some (t\<lparr>handshake_done := True\<rparr>, con) }
      else Some (t, con))"

text \<open>A packet written, and the outcome.\<close>

definition secure_write_packet ::
  "'s ssl_library \<Rightarrow> byte list list \<Rightarrow> 's ssl_t \<Rightarrow> 'a con_core_scheme \<Rightarrow> ('s, 'a) secure option" where
  "secure_write_packet l bufs t con =
     do { (r, t, con) \<leftarrow> secure_write l bufs t (con\<lparr>command_status := ATTACHSQL_COMMAND_STATUS_READ_RESPONSE\<rparr>);
          Some (t, if r < 0 then send_failed ATTACHSQL_RET_NET_WRITE_ERROR con else con) }"

definition secure_send_compressed_packet ::
  "'s ssl_library \<Rightarrow> byte list \<Rightarrow> byte \<Rightarrow> 's ssl_t \<Rightarrow> 'a con_core_scheme \<Rightarrow> ('s, 'a) secure option" where
  "secure_send_compressed_packet l data command t con =
     do { (bufs, con) \<leftarrow> prepare_compressed data command con;
          case bufs of None \<Rightarrow> Some (t, con) | Some bufs \<Rightarrow> secure_write_packet l bufs t con }"

definition secure_send_data ::
  "'s ssl_library \<Rightarrow> byte list \<Rightarrow> 's ssl_t \<Rightarrow> 'a con_core_scheme \<Rightarrow> ('s, 'a) secure option" where
  "secure_send_data l data t con =
     do { (t, con) \<leftarrow> secure_start l t con;
          h \<leftarrow> attachsql_pack_int3 (packet_header con) 0 (of_nat (length data) :: uint64);
          let con = con\<lparr>packet_number := packet_number con + 1\<rparr>;
          h \<leftarrow> blk_put h 3 (packet_number con);
          let con = con\<lparr>packet_header := h\<rparr>;
          if client_capabilities con AND ATTACHSQL_CAPABILITY_COMPRESS \<noteq> 0 \<and>
             con_status con \<noteq> ATTACHSQL_CON_STATUS_CONNECTING
          then secure_send_compressed_packet l data 0 t con
          else do { header \<leftarrow> blk_read (packet_header con) 0 4; secure_write_packet l [header, data] t con } }"

text \<open>
  \<open>attachsql_command_send\<close>. The functions that send commands differ from those of the build without
  OpenSSL in calling this one.
\<close>

definition secure_command_send ::
  "'s ssl_library \<Rightarrow> attachsql_command_t \<Rightarrow> byte list \<Rightarrow> 's ssl_t \<Rightarrow> 'a con_core_scheme \<Rightarrow>
   (attachsql_command_status_t \<times> ('s, 'a) secure) option" where
  "secure_command_send l command data t con =
     do { con \<leftarrow> command_start data con;
          if client_capabilities con AND ATTACHSQL_CAPABILITY_COMPRESS \<noteq> 0
          then do { (t, con) \<leftarrow> secure_send_compressed_packet l data (command_code command) t con;
                    (status, con) \<leftarrow> compressed_command_end command con;
                    Some (status, t, con) }
          else do { (bufs, con) \<leftarrow> command_bufs command data con;
                    (ret, t, con) \<leftarrow> secure_write l bufs t con;
                    (status, con) \<leftarrow> command_end command ret con;
                    Some (status, t, con) } }"

section \<open>Agreeing on encryption\<close>

text \<open>
  \<open>attachsql_handshake_response\<close> with an \<open>SSL\<close> object: the server must be able to encrypt. A first packet, the
  head of the response with the capability, is sent in the clear, and then the whole response
  encrypted. The head is written as without encryption, with the capability added.
\<close>

definition secure_response_head :: "'a con_core_scheme \<Rightarrow> block option" where
  "secure_response_head con =
     response_head (con\<lparr>client_capabilities := client_capabilities con OR ATTACHSQL_CAPABILITY_SSL\<rparr>)"

definition secure_response_end ::
  "'s ssl_library \<Rightarrow> block \<Rightarrow> 's ssl_t \<Rightarrow> 'a con_core_scheme \<Rightarrow> ('s, 'a) secure option" where
  "secure_response_end l w t con =
     do { (data, w) \<leftarrow> response_rest w con;
          case data of
            None \<Rightarrow> Some (t, con\<lparr>write_buffer := w, local_errcode := ATTACHSQL_RET_BAD_SCRAMBLE\<rparr>)
          | Some data \<Rightarrow>
              do { (t, con) \<leftarrow> secure_send_data l data t (con\<lparr>write_buffer := w\<rparr>);
                   con \<leftarrow> queue_push ATTACHSQL_PACKET_TYPE_RESPONSE con;
                   Some (t, con) } }"

text \<open>The second entry, with the packet type of the first on top of the queue.\<close>

definition secure_response_again ::
  "'s ssl_library \<Rightarrow> 's ssl_t \<Rightarrow> 'a con_core_scheme \<Rightarrow> ('s, 'a) secure option" where
  "secure_response_again l t con =
     do { w \<leftarrow> secure_response_head con;
          (_, con) \<leftarrow> attachsql_packet_queue_pop con;
          secure_response_end l w (t\<lparr>ssl_enabled := True\<rparr>) con }"

definition secure_handshake_response ::
  "'s ssl_library \<Rightarrow> 's ssl_t \<Rightarrow> 'a con_core_scheme \<Rightarrow> ('s, 'a) secure option" where
  "secure_handshake_response l t con =
     (if ssl t = None then map_option (Pair t) (attachsql_handshake_response con)
      else if server_capabilities con AND ATTACHSQL_CAPABILITY_SSL = 0 then
        Some (t, (send_failed ATTACHSQL_RET_NET_SSL_ERROR con)
                   \<lparr>errmsg := text_array ATTACHSQL_ERROR_BUFFER_SIZE (str ''SSL auth not supported enabled on server''),
                    con_status := ATTACHSQL_CON_STATUS_CONNECT_FAILED\<rparr>)
      else do {
        next \<leftarrow> attachsql_packet_queue_peek con;
        if next = ATTACHSQL_PACKET_TYPE_HANDSHAKE_SSL then secure_response_again l t con
        else do {
          w \<leftarrow> secure_response_head con;
          data \<leftarrow> blk_read w 0 32;
          (t, con) \<leftarrow> secure_send_data l data t (con\<lparr>write_buffer := w\<rparr>);
          con \<leftarrow> queue_push ATTACHSQL_PACKET_TYPE_HANDSHAKE_SSL con;
          next \<leftarrow> attachsql_packet_queue_peek con;
          if server_capabilities con AND ATTACHSQL_CAPABILITY_SSL \<noteq> 0 \<and> next = ATTACHSQL_PACKET_TYPE_HANDSHAKE_SSL
          then secure_response_again l t con else None } })"

section \<open>The packet loop\<close>

definition secure_packet_read_handshake ::
  "'s ssl_library \<Rightarrow> 's ssl_t \<Rightarrow> 'a con_core_scheme \<Rightarrow> ('s, 'a) secure option" where
  "secure_packet_read_handshake l t con =
     do { (answer, con) \<leftarrow> read_greeting con;
          if answer then secure_handshake_response l t con else Some (t, con) }"

text \<open>Only the packets of the handshake are answered, and so involve the library.\<close>

definition secure_read_packet ::
  "'s ssl_library \<Rightarrow> attachsql_packet_type_t \<Rightarrow> 's ssl_t \<Rightarrow> 'a con_core_scheme \<Rightarrow> ('s, 'a) secure option" where
  "secure_read_packet l p t con =
     (if p = ATTACHSQL_PACKET_TYPE_HANDSHAKE then secure_packet_read_handshake l t con
      else if p = ATTACHSQL_PACKET_TYPE_HANDSHAKE_SSL then secure_handshake_response l t con
      else map_option (Pair t) (read_packet p con))"

definition secure_process_packet ::
  "'s ssl_library \<Rightarrow> 's ssl_t \<Rightarrow> 'a con_core_scheme \<Rightarrow> (bool option \<times> ('s, 'a) secure) option" where
  "secure_process_packet l t con =
     do { (head, con) \<leftarrow> packet_head con;
          case head of
            Inl r \<Rightarrow> Some (Some r, t, con)
          | Inr p \<Rightarrow> do { (t, con) \<leftarrow> secure_read_packet l p t con;
                         Some (if stops p then Some True else None, t, con) } }"

text \<open>The library and what is sent to it leave the read buffer alone, so the loop ends as without encryption.\<close>

lemma ssl_failed_rb: "ssl_failed l msg s con = (s', con') \<Longrightarrow> read_buffer con' = read_buffer con"
  by (auto simp: ssl_failed_def Let_def send_failed_def split: prod.splits)

lemma ssl_push_rb: "ssl_push l t con = Some (t', con') \<Longrightarrow> read_buffer con' = read_buffer con"
  by (auto simp: ssl_push_def Let_def split: option.splits if_splits bind_splits prod.splits dest: ssl_failed_rb)

lemma flush_bio_rb: "flush_bio l s con = Some x \<Longrightarrow> read_buffer (snd x) = read_buffer con"
  by (erule flush_bio.raw_induct[where P = "\<lambda>l s con x. read_buffer (snd x) = read_buffer con", rotated])
    (fastforce simp: send_failed_def split: if_splits bind_splits dest: uv_write_rb)

lemma data_check_rb: "attachsql_ssl_data_check l t con = Some (t', con') \<Longrightarrow> read_buffer con' = read_buffer con"
  by (auto simp: attachsql_ssl_data_check_def split: bind_splits dest!: ssl_push_rb flush_bio_rb)

lemma handle_error_rb: "attachsql_ssl_handle_error l r t con = Some (t', con') \<Longrightarrow> read_buffer con' = read_buffer con"
  by (auto simp: attachsql_ssl_handle_error_def Let_def split: bind_splits if_splits prod.splits
      dest: data_check_rb ssl_failed_rb)

lemma ssl_run_rb: "attachsql_ssl_run l t con = Some (t', con') \<Longrightarrow> read_buffer con' = read_buffer con"
  by (auto simp: attachsql_ssl_run_def Let_def split: bind_splits if_splits prod.splits
      dest!: data_check_rb handle_error_rb)

lemma secure_start_rb: "secure_start l t con = Some (t', con') \<Longrightarrow> read_buffer con' = read_buffer con"
  by (auto simp: secure_start_def split: bind_splits if_splits dest!: ssl_run_rb)

lemma prepare_rb:
  assumes "buffer_prepare n buf con = Some (k, b, con')" shows "read_buffer con' = read_buffer con"
proof -
  have "buffer_new con = (x, c) \<Longrightarrow> read_buffer c = read_buffer con" for x c
    by (auto simp: buffer_new_def Let_def split: prod.splits if_splits dest!: alloc_rb)
  then show ?thesis using assms
    by (auto simp: buffer_prepare_def Let_def split: bind_splits if_splits prod.splits option.splits dest!: alloc_rb)
qed

lemma secure_write_rb: "secure_write l bufs t con = Some (r, t', con') \<Longrightarrow> read_buffer con' = read_buffer con"
  by (auto simp: secure_write_def attachsql_ssl_buffer_write_def split: bind_splits if_splits
      dest!: ssl_run_rb prepare_rb uv_write_rb)

lemma secure_write_packet_rb: "secure_write_packet l bufs t con = Some (t', con') \<Longrightarrow> read_buffer con' = read_buffer con"
  by (auto simp: secure_write_packet_def send_failed_def split: bind_splits if_splits dest!: secure_write_rb)

lemma compress_packet_rb: "compress_packet src large n con = Some (bufs, con') \<Longrightarrow> read_buffer con' = read_buffer con"
  by (auto simp: compress_packet_def send_failed_def Let_def split: bind_splits if_splits prod.splits option.splits
      dest!: rb_frames)

lemma prepare_compressed_rb: "prepare_compressed d c con = Some (bufs, con') \<Longrightarrow> read_buffer con' = read_buffer con"
  by (auto simp: prepare_compressed_def Let_def split: bind_splits if_splits prod.splits
      dest!: rb_frames compress_packet_rb)

lemma secure_send_data_rb: "secure_send_data l d t con = Some (t', con') \<Longrightarrow> read_buffer con' = read_buffer con"
  by (auto simp: secure_send_data_def secure_send_compressed_packet_def Let_def
      split: bind_splits if_splits option.splits
      dest!: secure_start_rb secure_write_packet_rb prepare_compressed_rb)

lemma secure_response_end_rb: "secure_response_end l w t con = Some (t', con') \<Longrightarrow> read_buffer con' = read_buffer con"
  by (auto simp: secure_response_end_def Let_def split: bind_splits if_splits option.splits
      dest!: secure_send_data_rb queue_push_rb)

lemma secure_response_again_rb: "secure_response_again l t con = Some (t', con') \<Longrightarrow> read_buffer con' = read_buffer con"
  by (auto simp: secure_response_again_def split: bind_splits dest!: secure_response_end_rb queue_pop_rb)

lemma secure_handshake_response_rb:
  "secure_handshake_response l t con = Some (t', con') \<Longrightarrow> read_buffer con' = read_buffer con"
  by (auto simp: secure_handshake_response_def send_failed_def split: bind_splits if_splits
      dest!: secure_response_again_rb secure_send_data_rb queue_push_rb handshake_response_rb)

lemma secure_read_packet_settled:
  assumes "secure_read_packet l p t con = Some (t', con')" "\<not> stops p" "rb (settled k m) con"
  shows "rb (settled k m) con'"
proof -
  have "rb (settled k m) con'" if "secure_packet_read_handshake l t con = Some (t', con')"
  proof -
    from that obtain answer con1 where g: "read_greeting con = Some (answer, con1)"
      and r: "(if answer then secure_handshake_response l t con1 else Some (t, con1)) = Some (t', con')"
      by (auto simp: secure_packet_read_handshake_def split: bind_splits)
    have "read_buffer con' = read_buffer con1" using r secure_handshake_response_rb by (auto split: if_splits)
    then show ?thesis using read_greeting_settled[OF g assms(3)] by (simp add: rb_def)
  qed
  moreover have "rb (settled k m) con'" if "secure_handshake_response l t con = Some (t', con')"
    using secure_handshake_response_rb[OF that] assms(3) by (simp add: rb_def)
  ultimately show ?thesis using assms read_packet_settled by (auto simp: secure_read_packet_def split: if_splits)
qed

lemma secure_process_packet_decreases:
  assumes "secure_process_packet l t con = Some (None, t', con')"
  shows "loop_measure con' < loop_measure con"
proof -
  from assms obtain p con1 where h: "packet_head con = Some (Inr p, con1)"
    and r: "secure_read_packet l p t con1 = Some (t', con')" and p: "\<not> stops p"
    by (auto simp: secure_process_packet_def split: bind_splits sum.splits if_splits)
  obtain k m where "rb (settled k m) con1" "rb (settled k m) con' \<Longrightarrow> loop_measure con' < loop_measure con"
    using packet_head_decreases[OF h] by metis
  then show ?thesis using secure_read_packet_settled[OF r p] by blast
qed

function secure_process_loop ::
  "'s ssl_library \<Rightarrow> 's ssl_t \<Rightarrow> 'a con_core_scheme \<Rightarrow> (bool \<times> ('s, 'a) secure) option" where
  "secure_process_loop l t con =
     do { (r, t', con') \<leftarrow> secure_process_packet l t con;
          case r of Some x \<Rightarrow> Some (x, t', con') | None \<Rightarrow> secure_process_loop l t' con' }"
  by pat_completeness auto
termination
  by (relation "measure (\<lambda>(l, t, con). loop_measure con)") (auto dest: secure_process_packet_decreases)

declare secure_process_loop.simps [simp del]

definition secure_process_packets ::
  "'s ssl_library \<Rightarrow> 's ssl_t \<Rightarrow> 'a con_core_scheme \<Rightarrow> (bool \<times> ('s, 'a) secure) option" where
  "secure_process_packets l t con =
     (if \<not> opt_compression con then
        if read_buffer con = None then Some (False, t, con) else secure_process_loop l t con
      else if read_buffer_compress con = None then Some (False, t, con)
      else do { (done, con) \<leftarrow> attachsql_con_decompress_read_buffer con;
                if \<not> done \<and> read_buffer con = None then Some (False, t, con) else secure_process_loop l t con })"

section \<open>Reading\<close>

text \<open>
  The allocation callback: encrypted bytes go to a buffer of their own, of the size libuv asks for;
  the read buffers are prepared as without encryption. The first result is the room for libuv.
\<close>

definition secure_on_alloc ::
  "nat \<Rightarrow> 's ssl_t \<Rightarrow> 'a con_core_scheme \<Rightarrow> (nat \<times> ('s, 'a) secure) option" where
  "secure_on_alloc suggested_size t con =
     (let (t, con) =
            (if handshake_done t \<and> bio_buffer_size t < suggested_size then
               let (ok, con) = alloc con
               in if ok then (t\<lparr>bio_buffer_size := suggested_size\<rparr>, con)
                  else (t, send_failed ATTACHSQL_RET_OUT_OF_MEMORY_ERROR con)
             else (t, con))
      in do { (room, con) \<leftarrow> on_alloc suggested_size con;
              Some (if handshake_done t then bio_buffer_size t else room, t, con) })"

text \<open>
  The read callback with the encrypted bytes \<open>xs\<close>: one read from the library into the read buffer; its
  packets are left for the check callback. Before the handshake libuv has stored the bytes in the read buffer.
\<close>

definition secure_read_data_cb ::
  "'s ssl_library \<Rightarrow> int \<Rightarrow> byte list \<Rightarrow> 's ssl_t \<Rightarrow> 'a con_core_scheme \<Rightarrow> ('s, 'a) secure option" where
  "secure_read_data_cb l read_size xs t con =
     (if read_size < 0 then map_option (Pair t) (attachsql_read_data_cb read_size con)
      else if handshake_done t then do {
        s \<leftarrow> ssl t;
        b \<leftarrow> (if opt_compression con then read_buffer_compress con else read_buffer con);
        let (r, ys, s) = SSL_read l (attachsql_buffer_get_available (Some b)) (BIO_write l xs s);
        let t = t\<lparr>ssl := Some s\<rparr>;
        if r < 0 then attachsql_ssl_handle_error l r t con
        else if 0 < r then
          do { b \<leftarrow> buffer_store ys b;
               Some (t, if opt_compression con then con\<lparr>read_buffer_compress := Some b\<rparr>
                        else con\<lparr>read_buffer := Some b\<rparr>) }
        else Some (t, con) }
      else do {
        con \<leftarrow> data_received read_size con;
        (_, x) \<leftarrow> secure_process_packets l t con;
        Some x })"

definition secure_check_for_data_cb :: "'s ssl_library \<Rightarrow> 's ssl_t \<Rightarrow> 'a con_core_scheme \<Rightarrow> ('s, 'a) secure option" where
  "secure_check_for_data_cb l t con = map_option snd (secure_process_packets l t con)"

text \<open>The event loop with these callbacks; other events are handled as without encryption.\<close>

definition secure_receive ::
  "'s ssl_library \<Rightarrow> nat \<Rightarrow> byte list \<Rightarrow> 's ssl_t \<Rightarrow> attachsql_connect_t \<Rightarrow>
   (byte list \<times> 's ssl_t \<times> attachsql_connect_t) option" where
  "secure_receive l suggested_size xs t con =
     do { (room, t, con) \<leftarrow> secure_on_alloc suggested_size t con;
          if room = 0 then
            do { (t, con) \<leftarrow> secure_read_data_cb l (- 105) [] t con; Some ([], t, con) }
          else do {
            con \<leftarrow> (if handshake_done t then Some con else uv_store (take room xs) con);
            (t, con) \<leftarrow> secure_read_data_cb l (int (length (take room xs))) (take room xs) t con;
            Some (drop room xs, t, con) } }"

lemma secure_receive_less: "secure_receive l n xs t con = Some (ys, x) \<Longrightarrow> xs \<noteq> [] \<Longrightarrow> length ys < length xs"
  by (auto simp: secure_receive_def split: bind_splits if_splits)

function secure_receive_all ::
  "'s ssl_library \<Rightarrow> nat \<Rightarrow> byte list \<Rightarrow> 's ssl_t \<Rightarrow> attachsql_connect_t \<Rightarrow> ('s ssl_t \<times> attachsql_connect_t) option" where
  "secure_receive_all l n xs t con =
     (if xs = [] \<or> stream_closed con then Some (t, con)
      else do { (ys, t, con) \<leftarrow> secure_receive l n xs t con; secure_receive_all l n ys t con })"
  by pat_completeness auto
termination
  by (relation "measure (\<lambda>(l, n, xs, t, con). length xs)") (auto dest: secure_receive_less)

declare secure_receive_all.simps [simp del]

fun secure_dispatch ::
  "'s ssl_library \<Rightarrow> uv_event \<Rightarrow> 's ssl_t \<Rightarrow> attachsql_connect_t \<Rightarrow> ('s ssl_t \<times> attachsql_connect_t) option" where
  "secure_dispatch l (Received n xs) t con = secure_receive_all l n xs t con"
| "secure_dispatch l Checked t con = secure_check_for_data_cb l t con"
| "secure_dispatch l e t con = map_option (Pair t) (dispatch e con)"

fun secure_dispatch_all ::
  "'s ssl_library \<Rightarrow> uv_event list \<Rightarrow> 's ssl_t \<Rightarrow> attachsql_connect_t \<Rightarrow> ('s ssl_t \<times> attachsql_connect_t) option" where
  "secure_dispatch_all l [] t con = Some (t, con)"
| "secure_dispatch_all l (e # es) t con =
     do { (t, con) \<leftarrow> secure_dispatch l e t con; secure_dispatch_all l es t con }"

definition secure_run_uv_loop ::
  "'s ssl_library \<Rightarrow> 's ssl_t \<Rightarrow> attachsql_connect_t \<Rightarrow> ('s ssl_t \<times> attachsql_connect_t) option" where
  "secure_run_uv_loop l t con =
     (if con_pool con \<noteq> None then Some (t, con)
      else case uv_events con of
             [] \<Rightarrow> Some (t, con)
           | batch # later \<Rightarrow> secure_dispatch_all l batch t (con\<lparr>uv_events := later\<rparr>))"

definition secure_do_poll ::
  "'s ssl_library \<Rightarrow> 's ssl_t \<Rightarrow> attachsql_connect_t \<Rightarrow> (attachsql_con_status_t \<times> 's ssl_t \<times> attachsql_connect_t) option" where
  "secure_do_poll l t con =
     (if con_status con \<in> {ATTACHSQL_CON_STATUS_NOT_CONNECTED, ATTACHSQL_CON_STATUS_CONNECT_FAILED,
                            ATTACHSQL_CON_STATUS_IDLE, ATTACHSQL_CON_STATUS_SSL_ERROR}
      then Some (con_status con, t, con)
      else do { (t, con) \<leftarrow> (if handshake_done t then attachsql_ssl_run l t con else Some (t, con));
                (t, con) \<leftarrow> secure_run_uv_loop l t con;
                Some (con_status con, t, con) })"

section \<open>Setting it up\<close>

text \<open>Contexts of the library, \<open>'c\<close>; the context is kept only to be freed. \<open>SSL_new\<close> stands for the object set to
  client mode, which fails on a NULL object. A cipher, key or path may be NULL.\<close>

record ('c, 's) ssl_contexts =
  SSL_CTX_new :: "'c"
  SSL_CTX_set_cipher_list :: "byte list \<Rightarrow> 'c \<Rightarrow> int \<times> 'c"
  SSL_CTX_load_verify_locations :: "byte list option \<Rightarrow> byte list option \<Rightarrow> 'c \<Rightarrow> int \<times> 'c"
  SSL_CTX_use_certificate_file :: "byte list \<Rightarrow> 'c \<Rightarrow> int \<times> 'c"
  SSL_CTX_use_PrivateKey_file :: "byte list \<Rightarrow> 'c \<Rightarrow> int \<times> 'c"
  SSL_CTX_check_private_key :: "'c \<Rightarrow> int"
  SSL_CTX_set_verify :: "'c \<Rightarrow> 'c"
  SSL_new :: "'c \<Rightarrow> 's option"

definition ssl_setup_failed ::
  "string \<Rightarrow> error_ptr \<Rightarrow> 's ssl_t \<Rightarrow> attachsql_connect_t \<Rightarrow> (bool \<times> error_ptr \<times> 's ssl_t \<times> con_ptr) option" where
  "ssl_setup_failed msg error t con =
     do { let con = con\<lparr>errmsg := text_array ATTACHSQL_ERROR_BUFFER_SIZE (str msg)\<rparr>;
          (r, error, c) \<leftarrow> fail_with False ATTACHSQL_ERROR_CODE_SSL ''22023'' (errmsg con) error con;
          Some (r, error, t, c) }"

text \<open>The certificate and its key, which is the certificate file when there is none: the message of the call that fails.\<close>

definition set_certificate ::
  "('c, 's) ssl_contexts \<Rightarrow> byte list option \<Rightarrow> byte list option \<Rightarrow> 'c \<Rightarrow> string option \<times> 'c" where
  "set_certificate l key cert ctx =
     (case cert of
        None \<Rightarrow> (None, ctx)
      | Some cert \<Rightarrow>
          let (r, ctx) = SSL_CTX_use_certificate_file l cert ctx
          in if r \<noteq> 1 then (Some ''Error loading the SSL certificate file'', ctx)
             else
               let (r, ctx) = SSL_CTX_use_PrivateKey_file l (case key of None \<Rightarrow> cert | Some k \<Rightarrow> k) ctx
               in if r \<noteq> 1 then (Some ''Cannot load the SSL key file'', ctx)
                  else if SSL_CTX_check_private_key l ctx \<noteq> 1 then (Some ''Error validating the SSL private key'', ctx)
                  else (None, ctx))"

definition secure_set_ssl ::
  "('c, 's) ssl_contexts \<Rightarrow> con_ptr \<Rightarrow> byte list option \<Rightarrow> byte list option \<Rightarrow> byte list option \<Rightarrow>
   byte list option \<Rightarrow> byte list option \<Rightarrow> bool \<Rightarrow> error_ptr \<Rightarrow> 's ssl_t \<Rightarrow>
   (bool \<times> error_ptr \<times> 's ssl_t \<times> con_ptr) option" where
  "secure_set_ssl c cptr key cert ca capath cipher verify error t =
     (case cptr of
        None \<Rightarrow>
          do { e \<leftarrow> null_error ATTACHSQL_ERROR_CODE_PARAMETER ''22023'' ''Connection parameter not valid'' error;
               Some (False, e, t, None) }
      | Some con \<Rightarrow>
          let (r, ctx) = (case cipher of None \<Rightarrow> (1, SSL_CTX_new c) | Some names \<Rightarrow> SSL_CTX_set_cipher_list c names (SSL_CTX_new c))
          in if r \<noteq> 1 then ssl_setup_failed ''Error setting SSL cipher list'' error t con
             else
               let (r, ctx) = SSL_CTX_load_verify_locations c ca capath ctx
               in if r \<noteq> 1 then ssl_setup_failed ''Error loading the SSL certificate authority file'' error t con
                  else
                    let (failure, ctx) = set_certificate c key cert ctx
                    in (case failure of
                          Some msg \<Rightarrow> ssl_setup_failed msg error t con
                        | None \<Rightarrow>
                            do { s \<leftarrow> SSL_new c (if verify then SSL_CTX_set_verify c ctx else ctx);
                                 Some (True, error, t\<lparr>ssl := Some s\<rparr>, Some con) }))"

end
