(* ===== verification/Ssl_Plain.thy ===== *)
theory Ssl_Plain
  imports Ssl
begin

text \<open>
  A connection without an \<open>SSL\<close> object in the build with OpenSSL: every function with an OpenSSL branch
  does what it does in the build without, and leaves the state of the encryption as it is.
\<close>

definition unencrypted :: "'s ssl_t \<Rightarrow> bool" where
  "unencrypted t \<longleftrightarrow> ssl t = None \<and> \<not> ssl_enabled t \<and> \<not> handshake_done t"

lemma unencrypted_write:
  "unencrypted t \<Longrightarrow> secure_write l bufs t con = map_option (\<lambda>(r, con). (r, t, con)) (uv_write bufs con)"
  by (cases "uv_write bufs con") (auto simp: unencrypted_def secure_write_def)

lemma unencrypted_write_packet:
  "unencrypted t \<Longrightarrow> secure_write_packet l bufs t con = map_option (Pair t) (write_packet bufs con)"
  by (auto simp: secure_write_packet_def write_packet_def unencrypted_write map_option_case split: option.splits)

lemma unencrypted_compressed:
  "unencrypted t \<Longrightarrow>
   secure_send_compressed_packet l data c t con = map_option (Pair t) (attachsql_send_compressed_packet data c con)"
  by (auto simp: secure_send_compressed_packet_def attachsql_send_compressed_packet_def unencrypted_write_packet
      split: option.splits bind_splits)

lemma unencrypted_command:
  "unencrypted t \<Longrightarrow> secure_command_send l command data t con =
     map_option (\<lambda>(status, con). (status, t, con)) (attachsql_command_send command data con)"
  by (auto simp: secure_command_send_def attachsql_command_send_def attachsql_command_send_compressed_def
      unencrypted_compressed unencrypted_write map_option_case split: option.splits bind_splits)

lemma unencrypted_read_packet:
  "unencrypted t \<Longrightarrow> secure_read_packet l p t con = map_option (Pair t) (read_packet p con)"
  by (cases p) (auto simp: secure_read_packet_def secure_packet_read_handshake_def attachsql_packet_read_handshake_def
      secure_handshake_response_def unencrypted_def split: option.splits bind_splits)

lemma unencrypted_process_packet:
  "unencrypted t \<Longrightarrow> secure_process_packet l t con =
     map_option (\<lambda>(r, con). (r, t, con)) (process_packet con)"
  by (auto simp: secure_process_packet_def process_packet_def unencrypted_read_packet map_option_case
      split: option.splits bind_splits sum.splits)

lemma unencrypted_process_loop:
  "unencrypted t \<Longrightarrow> secure_process_loop l t con = map_option (\<lambda>(r, con). (r, t, con)) (process_loop con)"
proof (induction con rule: process_loop.induct)
  case (1 con)
  show ?case
  proof (cases "process_packet con")
    case None
    then show ?thesis using 1(2)
      by (simp add: secure_process_loop.simps[of l t con] process_loop.simps[of con] unencrypted_process_packet)
  next
    case (Some x)
    obtain r con' where x: "x = (r, con')" by fastforce
    show ?thesis using 1(1)[OF Some x[symmetric]] 1(2) Some x
      by (cases r) (simp_all add: secure_process_loop.simps[of l t con] process_loop.simps[of con] unencrypted_process_packet)
  qed
qed

lemma unencrypted_process_packets:
  "unencrypted t \<Longrightarrow> secure_process_packets l t con =
     map_option (\<lambda>(r, con). (r, t, con)) (attachsql_con_process_packets con)"
  by (auto simp: secure_process_packets_def attachsql_con_process_packets_def unencrypted_process_loop
      split: option.splits bind_splits)

lemma unencrypted_read_data_cb:
  "unencrypted t \<Longrightarrow> secure_read_data_cb l n xs t con = map_option (Pair t) (attachsql_read_data_cb n con)"
  by (cases "n < 0") (auto simp: secure_read_data_cb_def attachsql_read_data_cb_def unencrypted_process_packets
      unencrypted_def[of t] map_option_case split: option.splits bind_splits)

lemma unencrypted_receive:
  "unencrypted t \<Longrightarrow> secure_receive l n xs t con = map_option (\<lambda>(ys, con). (ys, t, con)) (receive n xs con)"
  by (auto simp: secure_receive_def receive_def secure_on_alloc_def unencrypted_read_data_cb unencrypted_def[of t]
      map_option_case split: option.splits bind_splits)

lemma unencrypted_receive_all:
  "unencrypted t \<Longrightarrow> secure_receive_all l n xs t con = map_option (Pair t) (receive_all n xs con)"
proof (induction n xs con rule: receive_all.induct)
  case (1 n xs con)
  show ?case
  proof (cases "receive n xs con")
    case None
    then show ?thesis using 1(2)
      by (simp add: secure_receive_all.simps[of l n xs t con] receive_all.simps[of n xs con] unencrypted_receive)
  next
    case (Some x)
    obtain r con' where x: "x = (r, con')" by fastforce
    show ?thesis using 1(1)[OF _ Some x[symmetric]] 1(2) Some x
      by (simp add: secure_receive_all.simps[of l n xs t con] receive_all.simps[of n xs con] unencrypted_receive)
  qed
qed

lemma unencrypted_dispatch:
  "unencrypted t \<Longrightarrow> secure_dispatch l e t con = map_option (Pair t) (dispatch e con)"
  by (cases e) (auto simp: unencrypted_receive_all unencrypted_process_packets secure_check_for_data_cb_def
      attachsql_check_for_data_cb_def option.map_comp comp_def split_beta)

lemma unencrypted_dispatch_all:
  "unencrypted t \<Longrightarrow> secure_dispatch_all l es t con = map_option (Pair t) (dispatch_all es con)"
proof (induction es arbitrary: con)
  case (Cons e es)
  then show ?case by (cases "dispatch e con") (simp_all add: unencrypted_dispatch)
qed simp

text \<open>
  C20. As long as \<open>attachsql_connect_set_ssl\<close> has not been called, sending a command and polling in
  the build with OpenSSL have the same result as in the build without it, for every sequence of
  events, and never turn the encryption on.
\<close>

theorem unencrypted_as_plain_build:
  assumes "unencrypted t"
  shows "secure_command_send l command data t con =
      map_option (\<lambda>(status, con). (status, t, con)) (attachsql_command_send command data con) \<and>
    secure_do_poll l t con2 = map_option (\<lambda>(status, con). (status, t, con)) (attachsql_do_poll con2)"
proof -
  have "secure_run_uv_loop l t con2 = map_option (Pair t) (attachsql_run_uv_loop con2)"
    by (auto simp: secure_run_uv_loop_def attachsql_run_uv_loop_def uv_run_def unencrypted_dispatch_all[OF assms]
        split: list.splits)
  then have "secure_do_poll l t con2 = map_option (\<lambda>(status, con). (status, t, con)) (attachsql_do_poll con2)"
    using assms by (auto simp: secure_do_poll_def attachsql_do_poll_def unencrypted_def map_option_case split: option.splits)
  then show ?thesis using unencrypted_command[OF assms] by blast
qed

text \<open>
  A library that takes at most 4 bytes at once and sends them as they are. Its state is what it has taken,
  what is to be sent and what has been.
\<close>

definition sample_tls :: "(byte list \<times> byte list \<times> byte list) ssl_library" where
  "sample_tls = \<lparr>SSL_is_init_finished = (\<lambda>_. True), SSL_connect = Pair 1, SSL_read = (\<lambda>_ s. (0, [], s)),
     SSL_write = (\<lambda>xs (a, out, e). (int (length (take 4 xs)), a @ take 4 xs, out @ take 4 xs, e)),
     SSL_get_error = (\<lambda>_ _. 2), ERR_get_error = Pair 0, ERR_reason_error_string = (\<lambda>_. []),
     BIO_read = (\<lambda>n (a, out, e). (take n out, a, drop n out, e @ take n out)), BIO_write = (\<lambda>_ s. s),
     start_handshake = (\<lambda>s. s)\<rparr>"

text \<open>The state every connection starts with.\<close>

theorem unencrypted_as_plain_build_witness:
  "\<exists>con'. secure_command_send sample_tls ATTACHSQL_COMMAND_PING [] ssl_init (idle_con False) =
     Some (ATTACHSQL_COMMAND_STATUS_SEND, ssl_init, con') \<and> sent con' = [[1, 0, 0, 0, 0x0e]]"
proof -
  have t: "unencrypted ssl_init" by (simp add: unencrypted_def ssl_init_def)
  have c: "client_capabilities (idle_con False) AND ATTACHSQL_CAPABILITY_COMPRESS = 0" by (simp add: idle_con_def)
  obtain con' where "attachsql_command_send ATTACHSQL_COMMAND_PING [] (idle_con False) = Some (ATTACHSQL_COMMAND_STATUS_SEND, con')"
    "sent con' = sent (idle_con False) @ [packet 0 (command_code ATTACHSQL_COMMAND_PING # [] @ [])]"
    using command_send_plain[OF c idle_con_ok(1-5)[of False]] by blast
  then show ?thesis
    using unencrypted_as_plain_build[OF t, of sample_tls ATTACHSQL_COMMAND_PING "[]" "idle_con False"]
    by (simp add: packet_def le_bytes_3 idle_con_ok(9))
qed

end
