(* ===== verification/Stmt_Set.thy ===== *)
theory Stmt_Set
  imports Statement
begin

text \<open>
  Binding the parameters of a prepared statement, the first part of \<open>src/statement_getset.cc\<close>. The
  \<open>void *\<close> argument is the value it points to.
\<close>

definition set_param_at ::
  "uint16 \<Rightarrow> (attachsql_stmt_param_st \<Rightarrow> attachsql_stmt_param_st) \<Rightarrow> 'a con_core_scheme \<Rightarrow> 'a con_core_scheme option" where
  "set_param_at param f con =
     do { stmt \<leftarrow> con_stmt con;
          ps \<leftarrow> param_data stmt;
          if unat param < length ps
          then Some (con\<lparr>con_stmt := Some (stmt\<lparr>param_data := Some (ps[unat param := f (ps ! unat param)])\<rparr>)\<rparr>)
          else None }"

text \<open>The checks all setters begin with.\<close>

definition with_param ::
  "con_ptr \<Rightarrow> uint16 \<Rightarrow> error_ptr \<Rightarrow> (attachsql_connect_t \<Rightarrow> bool call) \<Rightarrow> bool call" where
  "with_param c param error store =
     (case c of
        None \<Rightarrow> null_con False ATTACHSQL_ERROR_CODE_PARAMETER ''22023'' ''Connection parameter not valid'' error
      | Some con \<Rightarrow>
          case con_stmt con of
            None \<Rightarrow> fail_with False ATTACHSQL_ERROR_CODE_PARAMETER ''22023'' (str ''Connection parameter not valid'') error con
          | Some stmt \<Rightarrow>
              if param_count stmt \<le> param then
                fail_with False ATTACHSQL_ERROR_CODE_PARAMETER ''22023''
                  (str ''Param '' @ dec_int (uint param) @ str '' does not exist'') error con
              else store con)"

definition store_param ::
  "uint16 \<Rightarrow> (attachsql_stmt_param_st \<Rightarrow> attachsql_stmt_param_st) \<Rightarrow> error_ptr \<Rightarrow> attachsql_connect_t \<Rightarrow> bool call" where
  "store_param param f error con = do { con \<leftarrow> set_param_at param f con; Some (True, error, Some con) }"

definition attachsql_statement_set_param ::
  "con_ptr \<Rightarrow> attachsql_column_type_t \<Rightarrow> uint16 \<Rightarrow> nat \<Rightarrow> data_t \<Rightarrow> bool \<Rightarrow> error_ptr \<Rightarrow> bool call" where
  "attachsql_statement_set_param c type param len value uns error =
     with_param c param error (\<lambda>con.
       if type = ATTACHSQL_COLUMN_TYPE_LONG then
         case value of
           IntData v \<Rightarrow> store_param param (\<lambda>p. p\<lparr>param_value := IntData v, is_unsigned := uns, param_type := type\<rparr>) error con
         | _ \<Rightarrow> None
       else if type = ATTACHSQL_COLUMN_TYPE_LONGLONG then
         case value of
           BigintData v \<Rightarrow> store_param param (\<lambda>p. p\<lparr>param_value := BigintData v, is_unsigned := uns, param_type := type\<rparr>) error con
         | _ \<Rightarrow> None
       else if type = ATTACHSQL_COLUMN_TYPE_FLOAT then
         case value of
           FloatData v \<Rightarrow> store_param param (\<lambda>p. p\<lparr>param_value := FloatData v, is_unsigned := False, param_type := type\<rparr>) error con
         | _ \<Rightarrow> None
       else if type = ATTACHSQL_COLUMN_TYPE_DOUBLE then
         case value of
           DoubleData v \<Rightarrow> store_param param (\<lambda>p. p\<lparr>param_value := DoubleData v, is_unsigned := False, param_type := type\<rparr>) error con
         | _ \<Rightarrow> None
       else if string_type type then
         case value of
           StringData v \<Rightarrow> store_param param (\<lambda>p. p\<lparr>param_value := StringData v, param_length := len, param_type := type\<rparr>) error con
         | _ \<Rightarrow> None
       else if type = ATTACHSQL_COLUMN_TYPE_NULL then store_param param (\<lambda>p. p\<lparr>param_type := type\<rparr>) error con
       else Some (True, error, Some con))"

definition attachsql_statement_set_int :: "con_ptr \<Rightarrow> uint16 \<Rightarrow> uint32 \<Rightarrow> error_ptr \<Rightarrow> bool call" where
  "attachsql_statement_set_int c param value =
     attachsql_statement_set_param c ATTACHSQL_COLUMN_TYPE_LONG param 0 (IntData value) False"

definition attachsql_statement_set_unsigned_int :: "con_ptr \<Rightarrow> uint16 \<Rightarrow> uint32 \<Rightarrow> error_ptr \<Rightarrow> bool call" where
  "attachsql_statement_set_unsigned_int c param value =
     attachsql_statement_set_param c ATTACHSQL_COLUMN_TYPE_LONG param 0 (IntData value) True"

definition attachsql_statement_set_bigint :: "con_ptr \<Rightarrow> uint16 \<Rightarrow> uint64 \<Rightarrow> error_ptr \<Rightarrow> bool call" where
  "attachsql_statement_set_bigint c param value =
     attachsql_statement_set_param c ATTACHSQL_COLUMN_TYPE_LONGLONG param 0 (BigintData value) False"

definition attachsql_statement_set_unsigned_bigint :: "con_ptr \<Rightarrow> uint16 \<Rightarrow> uint64 \<Rightarrow> error_ptr \<Rightarrow> bool call" where
  "attachsql_statement_set_unsigned_bigint c param value =
     attachsql_statement_set_param c ATTACHSQL_COLUMN_TYPE_LONGLONG param 0 (BigintData value) True"

text \<open>A \<open>double\<close> is its 64 bits.\<close>

definition attachsql_statement_set_double :: "con_ptr \<Rightarrow> uint16 \<Rightarrow> uint64 \<Rightarrow> error_ptr \<Rightarrow> bool call" where
  "attachsql_statement_set_double c param value =
     attachsql_statement_set_param c ATTACHSQL_COLUMN_TYPE_DOUBLE param 0 (DoubleData value) False"

definition attachsql_statement_set_string :: "con_ptr \<Rightarrow> uint16 \<Rightarrow> nat \<Rightarrow> byte list option \<Rightarrow> error_ptr \<Rightarrow> bool call" where
  "attachsql_statement_set_string c param len value =
     attachsql_statement_set_param c ATTACHSQL_COLUMN_TYPE_STRING param len (StringData value) False"

definition attachsql_statement_set_binary :: "con_ptr \<Rightarrow> uint16 \<Rightarrow> nat \<Rightarrow> byte list option \<Rightarrow> error_ptr \<Rightarrow> bool call" where
  "attachsql_statement_set_binary c param len value =
     attachsql_statement_set_param c ATTACHSQL_COLUMN_TYPE_BLOB param len (StringData value) False"

definition attachsql_statement_set_null :: "con_ptr \<Rightarrow> uint16 \<Rightarrow> error_ptr \<Rightarrow> bool call" where
  "attachsql_statement_set_null c param =
     attachsql_statement_set_param c ATTACHSQL_COLUMN_TYPE_NULL param 0 NoData False"

text \<open>The date comes from a \<open>new\<close> that throws; nobody catches it.\<close>

definition attachsql_statement_set_datetime ::
  "con_ptr \<Rightarrow> uint16 \<Rightarrow> uint16 \<Rightarrow> byte \<Rightarrow> byte \<Rightarrow> byte \<Rightarrow> byte \<Rightarrow> byte \<Rightarrow> uint32 \<Rightarrow> error_ptr \<Rightarrow> bool call" where
  "attachsql_statement_set_datetime c param yr mon dy hr mi sec us error =
     with_param c param error (\<lambda>con.
       let (ok, con) = alloc con
       in if \<not> ok then None
          else store_param param (\<lambda>p. p\<lparr>
                 param_value := DatetimeData (Some (datetime_init\<lparr>year := yr, month := mon, day := ucast dy, hour := hr,
                   minute := mi, second := sec, microsecond := us\<rparr>)),
                 datetime_alloc := True, param_type := ATTACHSQL_COLUMN_TYPE_DATETIME\<rparr>) error con)"

definition attachsql_statement_set_time ::
  "con_ptr \<Rightarrow> uint16 \<Rightarrow> byte \<Rightarrow> byte \<Rightarrow> byte \<Rightarrow> uint32 \<Rightarrow> bool \<Rightarrow> error_ptr \<Rightarrow> bool call" where
  "attachsql_statement_set_time c param hr mi sec us neg error =
     with_param c param error (\<lambda>con.
       let (ok, con) = alloc con
       in if \<not> ok then None
          else store_param param (\<lambda>p. p\<lparr>
                 param_value := DatetimeData (Some (datetime_init\<lparr>hour := hr, minute := mi, second := sec,
                   microsecond := us, is_negative := neg\<rparr>)),
                 datetime_alloc := False, param_type := ATTACHSQL_COLUMN_TYPE_TIME\<rparr>) error con)"

definition attachsql_statement_get_param_count :: "con_ptr \<Rightarrow> uint16" where
  "attachsql_statement_get_param_count c =
     (case c of
        None \<Rightarrow> 0
      | Some con \<Rightarrow> (case con_stmt con of None \<Rightarrow> 0 | Some stmt \<Rightarrow> param_count stmt))"

end
