(* ===== verification/Params.thy ===== *)
theory Params
  imports Stmt_Set
begin

text \<open>
  What the setters keep of a statement's parameters: the type of a parameter is that of the member of
  the union stored last, so \<open>attachsql_stmt_execute\<close> never reads another member, and never fails on a
  type it does not know.
\<close>

section \<open>The type of a parameter\<close>

definition param_typed :: "attachsql_stmt_param_st \<Rightarrow> bool" where
  "param_typed p \<longleftrightarrow>
     (if param_type p = ATTACHSQL_COLUMN_TYPE_NULL then True
      else case param_value p of
        IntData _ \<Rightarrow> param_type p = ATTACHSQL_COLUMN_TYPE_LONG
      | BigintData _ \<Rightarrow> param_type p = ATTACHSQL_COLUMN_TYPE_LONGLONG
      | DoubleData _ \<Rightarrow> param_type p = ATTACHSQL_COLUMN_TYPE_DOUBLE
      | StringData _ \<Rightarrow> string_type (param_type p)
      | DatetimeData t \<Rightarrow> t \<noteq> None \<and> param_type p \<in> {ATTACHSQL_COLUMN_TYPE_DATETIME, ATTACHSQL_COLUMN_TYPE_TIME}
      | _ \<Rightarrow> False)"

definition params_typed :: "'a con_core_scheme \<Rightarrow> bool" where
  "params_typed con \<longleftrightarrow>
     (\<forall>stmt ps. con_stmt con = Some stmt \<longrightarrow> param_data stmt = Some ps \<longrightarrow> list_all param_typed ps)"

text \<open>The bytes of a parameter, as the server expects them.\<close>

definition param_bytes :: "attachsql_stmt_param_st \<Rightarrow> byte list" where
  "param_bytes p =
     (case param_value p of
        IntData v \<Rightarrow> le_bytes 4 v
      | BigintData v \<Rightarrow> le_bytes 8 v
      | DoubleData v \<Rightarrow> le_bytes 8 v
      | StringData s \<Rightarrow> enc_length (of_nat (param_length p)) @ take (param_length p) (case s of Some xs \<Rightarrow> xs | None \<Rightarrow> [])
      | DatetimeData (Some t) \<Rightarrow> if param_type p = ATTACHSQL_COLUMN_TYPE_TIME then enc_time t else enc_datetime False t
      | _ \<Rightarrow> [])"

text \<open>A string has at least the bytes its length says.\<close>

definition param_whole :: "attachsql_stmt_param_st \<Rightarrow> bool" where
  "param_whole p \<longleftrightarrow>
     (case param_value p of
        StringData (Some xs) \<Rightarrow> param_length p \<le> length xs \<and> param_length p < 2 ^ 64
      | StringData None \<Rightarrow> param_length p = 0
      | _ \<Rightarrow> True)"

lemma pack_data_ok:
  assumes "p + length (enc_length (of_nat n)) + n \<le> blk_size b" "n \<le> length data" "n < 2 ^ 64"
  shows "\<exists>b'. attachsql_pack_data b p (of_nat n) data = Some (b', p + length (enc_length (of_nat n)) + n) \<and>
    writes_at b p (enc_length (of_nat n) @ take n data) b'"
proof -
  have n: "unat (of_nat n :: uint64) = n" using assms(3) by (simp add: unat_of_nat take_bit_nat_eq_self)
  obtain b1 where b1: "attachsql_pack_length b p (of_nat n) = Some (b1, p + length (enc_length (of_nat n)))"
    "blk_size b1 = blk_size b"
    using lenc.pack_total[of p "of_nat n" b] lenc.pack_writes[of b p "of_nat n"] assms(1) by (fastforce dest: writes_at_size)
  have "attachsql_pack_data b p (of_nat n) data \<noteq> None"
    using b1 blk_write_total[of "p + length (enc_length (of_nat n))" "take n data" b1] assms n
    by (auto simp: attachsql_pack_data_def)
  then obtain b' q where b': "attachsql_pack_data b p (of_nat n) data = Some (b', q)" by auto
  from pack_data_writes[OF this] show ?thesis using b' n by simp
qed

lemma put_value_bytes:
  assumes "param_typed p" "param_type p \<noteq> ATTACHSQL_COLUMN_TYPE_NULL" "param_whole p"
    and "pos + length (param_bytes p) \<le> blk_size b"
  shows "\<exists>b'. put_value p pos b = Some (b', pos + length (param_bytes p)) \<and> writes_at b pos (param_bytes p) b'"
proof -
  have w: "\<exists>b'. (do { b \<leftarrow> blk_write b pos xs; Some (b, pos + n) }) = Some (b', pos + n) \<and> writes_at b pos xs b'"
    if "pos + length xs \<le> blk_size b" for xs n
    using blk_write_total[OF that] blk_write_writes_at by fastforce
  show ?thesis
  proof (cases "param_value p")
    case (DatetimeData d)
    then obtain t where t: "d = Some t" using assms(1,2) by (auto simp: param_typed_def)
    show ?thesis
    proof (cases "param_type p = ATTACHSQL_COLUMN_TYPE_TIME")
      case True
      then have "param_bytes p = enc_time t" using DatetimeData t by (simp add: param_bytes_def)
      then show ?thesis using True DatetimeData t assms(4) tmc.pack_total[of pos t b] tmc.pack_writes[of b pos t]
        by (fastforce simp: put_value_def)
    next
      case False
      then have "param_bytes p = enc_datetime False t" using DatetimeData t by (simp add: param_bytes_def)
      then show ?thesis using False DatetimeData t assms(1,2,4) pack_datetime_total[of pos False t b] pack_datetime_writes[of b pos t False]
        by (fastforce simp: put_value_def param_typed_def)
    qed
  next
    case (StringData s)
    let ?xs = "case s of Some xs \<Rightarrow> xs | None \<Rightarrow> []"
    have n: "param_length p \<le> length ?xs" "param_length p < 2 ^ 64"
      using StringData assms(3) by (auto simp: param_whole_def split: option.splits)
    then show ?thesis using StringData assms(1,2,4) pack_data_ok[OF _ n, of pos b]
      by (auto simp: put_value_def param_bytes_def param_typed_def)
  qed (use assms in \<open>auto simp: param_typed_def put_value_def param_bytes_def pack_eqs
         intro: w\<close>)
qed

section \<open>The setters\<close>

inductive set_step :: "attachsql_connect_t \<Rightarrow> attachsql_connect_t \<Rightarrow> bool" where
  step_int: "set_step con con'" if "attachsql_statement_set_int (Some con) i v e = Some (r, e', Some con')"
| step_unsigned_int: "set_step con con'" if "attachsql_statement_set_unsigned_int (Some con) i v e = Some (r, e', Some con')"
| step_bigint: "set_step con con'" if "attachsql_statement_set_bigint (Some con) i w e = Some (r, e', Some con')"
| step_unsigned_bigint: "set_step con con'" if "attachsql_statement_set_unsigned_bigint (Some con) i w e = Some (r, e', Some con')"
| step_double: "set_step con con'" if "attachsql_statement_set_double (Some con) i w e = Some (r, e', Some con')"
| step_string: "set_step con con'" if "attachsql_statement_set_string (Some con) i n s e = Some (r, e', Some con')"
| step_binary: "set_step con con'" if "attachsql_statement_set_binary (Some con) i n s e = Some (r, e', Some con')"
| step_null: "set_step con con'" if "attachsql_statement_set_null (Some con) i e = Some (r, e', Some con')"
| step_datetime: "set_step con con'" if "attachsql_statement_set_datetime (Some con) i y m d h mi sec us e = Some (r, e', Some con')"
| step_time: "set_step con con'" if "attachsql_statement_set_time (Some con) i h mi sec us neg e = Some (r, e', Some con')"

inductive_cases set_stepE: "set_step con con'"

lemma params_typed_frame: "con_stmt con' = con_stmt con \<Longrightarrow> params_typed con' = params_typed con"
  by (simp add: params_typed_def)

lemma alloc_stmt: "alloc con = (ok, con') \<Longrightarrow> con_stmt con' = con_stmt con"
  by (auto simp: alloc_def split: list.splits)

lemma fail_with_stmt: "fail_with r code st msg e con = Some (r', e', Some con') \<Longrightarrow> con_stmt con' = con_stmt con"
  by (auto simp: fail_with_def client_error_def Let_def split: if_splits prod.splits elim!: bind_SomeE dest: alloc_stmt)

lemma store_param_typed:
  assumes "store_param i f e con = Some (r, e', Some con')" "params_typed con" "\<And>p. param_typed (f p)"
  shows "params_typed con'"
proof -
  from assms(1) obtain stmt ps where s: "con_stmt con = Some stmt" "param_data stmt = Some ps"
    "con_stmt con' = Some (stmt\<lparr>param_data := Some (ps[unat i := f (ps ! unat i)])\<rparr>)"
    by (auto simp: store_param_def set_param_at_def elim!: bind_SomeE split: if_splits)
  then have "list_all param_typed ps" using assms(2) by (simp add: params_typed_def)
  then have "list_all param_typed (ps[unat i := f (ps ! unat i)])"
    using assms(3) set_update_subset_insert[of ps "unat i" "f (ps ! unat i)"] by (auto simp: list_all_iff)
  then show ?thesis using s by (simp add: params_typed_def)
qed

lemma with_param_typed:
  assumes "with_param (Some con) i e g = Some (r, e', Some con')" "params_typed con"
    and "g con = Some (r, e', Some con') \<Longrightarrow> params_typed con'"
  shows "params_typed con'"
  using assms params_typed_frame fail_with_stmt by (fastforce simp: with_param_def split: option.splits if_splits)

lemma set_step_typed:
  assumes "set_step con con'" "params_typed con" shows "params_typed con'"
proof -
  have a: "params_typed c" if "alloc con = (ok, c)" for ok c
    using params_typed_frame[OF alloc_stmt[OF that]] assms(2) by simp
  show ?thesis using assms(1)
    by (rule set_stepE)
       (auto simp: attachsql_statement_set_int_def attachsql_statement_set_unsigned_int_def attachsql_statement_set_bigint_def
          attachsql_statement_set_unsigned_bigint_def attachsql_statement_set_double_def attachsql_statement_set_string_def
          attachsql_statement_set_binary_def attachsql_statement_set_null_def attachsql_statement_set_datetime_def
          attachsql_statement_set_time_def attachsql_statement_set_param_def string_type_def Let_def
        split: prod.splits if_splits elim!: with_param_typed[OF _ assms(2)];
        auto simp: param_typed_def string_type_def intro: assms(2) a elim!: store_param_typed)+
qed

lemma set_steps_typed:
  assumes "set_step\<^sup>*\<^sup>* con con'" "params_typed con" shows "params_typed con'"
  using assms by (induction rule: rtranclp_induct) (auto intro: set_step_typed)

lemma params_fresh:
  "con_stmt con = Some stmt \<Longrightarrow> param_data stmt = Some (replicate n param_init) \<Longrightarrow> params_typed con"
  by (simp add: params_typed_def list_all_iff param_typed_def param_init_def)

lemma typed_type: "param_typed p \<Longrightarrow> param_type p \<noteq> ATTACHSQL_COLUMN_TYPE_NULL \<Longrightarrow> fixed_type (param_type p) \<or> string_type (param_type p)"
  by (auto simp: param_typed_def fixed_type_def split: data_t.splits)

section \<open>Property\<close>

text \<open>
  C30. Whatever setters have been called since the statement was prepared, a parameter that is not
  NULL has a type \<open>attachsql_stmt_execute\<close> accepts, its value is in the member of the union that
  belongs to the type, and with room in the buffer and a string as long as its length says it is stored
  as the bytes the server expects.
\<close>

theorem setters_well_typed:
  assumes "set_step\<^sup>*\<^sup>* con con'" "con_stmt con = Some stmt" "param_data stmt = Some (replicate n param_init)"
    and "con_stmt con' = Some stmt'" "param_at stmt' i = Some p" "param_type p \<noteq> ATTACHSQL_COLUMN_TYPE_NULL"
  shows "param_typed p \<and> (fixed_type (param_type p) \<or> string_type (param_type p)) \<and>
    (\<forall>pos b. param_whole p \<longrightarrow> pos + length (param_bytes p) \<le> blk_size b \<longrightarrow>
       (\<exists>b'. put_value p pos b = Some (b', pos + length (param_bytes p)) \<and> writes_at b pos (param_bytes p) b'))"
proof -
  have "params_typed con'" using set_steps_typed[OF assms(1) params_fresh[OF assms(2,3)]] .
  then have "param_typed p"
    using assms(4,5) by (auto simp: params_typed_def param_at_def list_all_length split: bind_splits if_splits)
  then show ?thesis using typed_type put_value_bytes assms(6) by blast
qed

text \<open>A connection with a prepared statement of \<open>n\<close> parameters.\<close>

definition stmt_con :: "nat \<Rightarrow> attachsql_connect_t" where
  "stmt_con n = (connect_init \<lparr>zlib_compressBound = (\<lambda>n. n), zlib_compress = Some, zlib_uncompress = Some, uv_err_name = (\<lambda>_. [])\<rparr>
     [] [] [])\<lparr>con_stmt := Some (stmt_init\<lparr>param_count := of_nat n, param_data := Some (replicate n param_init)\<rparr>)\<rparr>"

theorem setters_well_typed_witness:
  "\<exists>con' b'. attachsql_statement_set_int (Some (stmt_con 1)) 0 258 (Some None) = Some (True, Some None, Some con') \<and>
     put_value (param_init\<lparr>param_value := IntData 258, param_type := ATTACHSQL_COLUMN_TYPE_LONG\<rparr>) 3 (blk_alloc 8) = Some (b', 7)"
proof -
  let ?p = "param_init\<lparr>param_value := IntData 258, param_type := ATTACHSQL_COLUMN_TYPE_LONG\<rparr>"
  let ?s = "stmt_init\<lparr>param_count := 1, param_data := Some (replicate 1 param_init)\<rparr>"
  let ?c = "(stmt_con 1)\<lparr>con_stmt := Some (?s\<lparr>param_data := Some [?p]\<rparr>)\<rparr>"
  have set: "attachsql_statement_set_int (Some (stmt_con 1)) 0 258 (Some None) = Some (True, Some None, Some ?c)"
    by (simp add: attachsql_statement_set_int_def attachsql_statement_set_param_def with_param_def store_param_def
        set_param_at_def stmt_con_def param_init_def)
  have s: "con_stmt (stmt_con 1) = Some ?s" by (simp add: stmt_con_def)
  have "set_step\<^sup>*\<^sup>* (stmt_con 1) ?c" by (rule r_into_rtranclp, rule step_int[OF set])
  from setters_well_typed[OF this s, of 1 "?s\<lparr>param_data := Some [?p]\<rparr>" 0 ?p]
  have "\<forall>pos b. param_whole ?p \<longrightarrow> pos + length (param_bytes ?p) \<le> blk_size b \<longrightarrow>
       (\<exists>b'. put_value ?p pos b = Some (b', pos + length (param_bytes ?p)) \<and> writes_at b pos (param_bytes ?p) b')"
    by (simp add: param_at_def)
  from this[rule_format, of 3 "blk_alloc 8"] have "\<exists>b'. put_value ?p 3 (blk_alloc 8) = Some (b', 3 + length (param_bytes ?p))"
    by (auto simp: param_whole_def param_bytes_def blk_alloc_def)
  then show ?thesis using set by (simp add: param_bytes_def)
qed

end
