(* ===== verification/Execute.thy ===== *)
theory Execute
  imports Params
begin

text \<open>
  Executing a prepared statement: the packet \<open>attachsql_stmt_execute\<close> sends when the parameters fit in
  the buffer, and what happens when one of them is NULL or does not fit.
\<close>

section \<open>The packet\<close>

definition exec_bytes :: "attachsql_stmt_st \<Rightarrow> byte list" where
  "exec_bytes stmt = le_bytes 4 (stmt_id stmt) @ [0] @ le_bytes 4 (1 :: uint32) @
     replicate ((unat (param_count stmt) + 7) div 8) 0 @ [if new_bind stmt then 1 else 0]"

definition types_bytes :: "attachsql_stmt_param_st list \<Rightarrow> byte list" where
  "types_bytes ps = concat (map (\<lambda>p. le_bytes 2 (type_word p)) ps)"

definition values_bytes :: "attachsql_stmt_param_st list \<Rightarrow> byte list" where
  "values_bytes ps = concat (map param_bytes ps)"

definition exec_payload :: "attachsql_stmt_st \<Rightarrow> attachsql_stmt_param_st list \<Rightarrow> byte list" where
  "exec_payload stmt ps = exec_bytes stmt @ types_bytes ps @ values_bytes ps"

text \<open>A parameter bound by the setters, not NULL, that fits in a buffer of \<open>n\<close> bytes.\<close>

definition param_bound :: "nat \<Rightarrow> attachsql_stmt_param_st \<Rightarrow> bool" where
  "param_bound n p \<longleftrightarrow> param_typed p \<and> param_type p \<noteq> ATTACHSQL_COLUMN_TYPE_NULL \<and> param_whole p \<and>
     \<not> is_long_data p \<and> (string_type (param_type p) \<longrightarrow> param_length p \<le> n)"

lemma types_length: "length (types_bytes ps) = 2 * length ps"
  by (induction ps) (auto simp: types_bytes_def)

section \<open>One parameter\<close>

definition with_exec :: "attachsql_stmt_st \<Rightarrow> block \<Rightarrow> 'a con_core_scheme \<Rightarrow> 'a con_core_scheme" where
  "with_exec stmt b con = con\<lparr>con_stmt := Some (stmt\<lparr>exec_buffer := Some b\<rparr>)\<rparr>"

lemma check_enough:
  "required \<le> exec_buffer_length stmt \<Longrightarrow>
   attachsql_stmt_check_buffer_size required (with_exec stmt b con) = Some (True, with_exec stmt b con)"
  by (simp add: attachsql_stmt_check_buffer_size_def with_exec_def)

lemma in_exec:
  "f b = Some (b', r) \<Longrightarrow> in_exec_buffer f (with_exec stmt b con) = Some (r, with_exec stmt b' con)"
  by (simp add: in_exec_buffer_def with_exec_def)

lemma bind_param_ok:
  assumes size: "exec_buffer_length stmt = blk_size b" "20 \<le> blk_size b"
    and p: "param_at stmt i = Some p" "param_bound (blk_size b) p"
    and room: "tp + i * 2 + 2 \<le> blk_size b" "pos + length (param_bytes p) \<le> blk_size b"
  shows "\<exists>b1 b2. bind_param tp i pos (with_exec stmt b con) =
      Some (Some (pos + length (param_bytes p)), with_exec stmt b2 con) \<and>
    writes_at b (tp + i * 2) (le_bytes 2 (type_word p)) b1 \<and> writes_at b1 pos (param_bytes p) b2"
proof -
  have p2: "param_typed p" "param_type p \<noteq> ATTACHSQL_COLUMN_TYPE_NULL" "param_whole p" "\<not> is_long_data p"
    "string_type (param_type p) \<longrightarrow> param_length p \<le> blk_size b"
    using p(2) by (simp_all add: param_bound_def)
  obtain b1 where b1: "blk_write b (tp + i * 2) (le_bytes 2 (type_word p)) = Some b1"
    using blk_write_total[of "tp + i * 2" "le_bytes 2 (type_word p)" b] room(1) by auto
  note s1 = writes_at_size[OF blk_write_writes_at[OF b1]]
  have "pos + length (param_bytes p) \<le> blk_size b1" using room(2) s1 by simp
  then obtain b2 where b2: "put_value p pos b1 = Some (b2, pos + length (param_bytes p))" "writes_at b1 pos (param_bytes p) b2"
    using put_value_bytes[OF p2(1-3)] by blast
  have "param_at (stmt\<lparr>exec_buffer := Some x\<rparr>) i = Some p" for x using p(1) by (simp add: param_at_def)
  then have st: "con_stmt (with_exec stmt b con) = Some (stmt\<lparr>exec_buffer := Some b\<rparr>)"
    "param_at (stmt\<lparr>exec_buffer := Some b\<rparr>) i = Some p" by (simp_all add: with_exec_def)
  have i1: "in_exec_buffer (\<lambda>b. map_option (\<lambda>b. (b, ())) (attachsql_pack_int2 b (tp + i * 2) (type_word p)))
      (with_exec stmt b con) = Some ((), with_exec stmt b1 con)"
    by (rule in_exec) (simp add: pack_int2_eq b1)
  have i2: "in_exec_buffer (put_value p pos) (with_exec stmt b1 con) = Some (pos + length (param_bytes p), with_exec stmt b2 con)"
    by (rule in_exec) (rule b2(1))
  have "bind_param tp i pos (with_exec stmt b con) = Some (Some (pos + length (param_bytes p)), with_exec stmt b2 con)"
  proof (cases "string_type (param_type p)")
    case True
    then show ?thesis using p2 size st i1 i2 by (simp add: bind_param_def check_enough)
  next
    case False
    then have "fixed_type (param_type p)" using typed_type[OF p2(1,2)] by blast
    then show ?thesis using False p2 size st i1 i2 by (simp add: bind_param_def check_enough)
  qed
  then show ?thesis using blk_write_writes_at[OF b1] b2(2) by blast
qed

section \<open>All parameters\<close>

lemma bind_params_ok:
  assumes "exec_buffer_length stmt = blk_size b" "20 \<le> blk_size b" "ps \<noteq> [] \<longrightarrow> param_data stmt = Some ps"
    and "\<forall>p \<in> set ps. param_bound (blk_size b) p" "k \<le> length ps"
    and "tp + 2 * length ps + length (values_bytes ps) \<le> blk_size b"
    and "length head = tp" "blk_has b 0 head" "blk_has b tp (types_bytes (take k ps))"
    and "blk_has b (tp + 2 * length ps) (values_bytes (take k ps))"
  shows "\<exists>b'. bind_params tp [k..<length ps] (tp + 2 * length ps + length (values_bytes (take k ps))) (with_exec stmt b con) =
      Some (Some (tp + 2 * length ps + length (values_bytes ps)), with_exec stmt b' con) \<and>
    blk_has b' 0 (head @ types_bytes ps @ values_bytes ps) \<and> blk_size b' = blk_size b"
  using assms
proof (induction "length ps - k" arbitrary: k b)
  case 0
  then have "k = length ps" by simp
  then show ?case using "0.prems" by (intro exI[of _ b]) (simp add: blk_has_append types_length)
next
  case (Suc d)
  let ?p = "ps ! k" and ?vp = "tp + 2 * length ps" and ?done = "values_bytes (take k ps)"
  have k: "k < length ps" "[k..<length ps] = k # [Suc k..<length ps]" "d = length ps - Suc k"
    using Suc.hyps(2) by (auto simp: upt_conv_Cons)
  have t: "take (Suc k) ps = take k ps @ [?p]" using k(1) by (simp add: take_Suc_conv_app_nth)
  have v: "values_bytes (take (Suc k) ps) = ?done @ param_bytes ?p" "types_bytes (take (Suc k) ps) = types_bytes (take k ps) @ le_bytes 2 (type_word ?p)"
    by (simp_all add: t values_bytes_def types_bytes_def)
  have "ps = take (Suc k) ps @ drop (Suc k) ps" by simp
  then have "values_bytes ps = values_bytes (take (Suc k) ps) @ values_bytes (drop (Suc k) ps)"
    unfolding values_bytes_def by (metis concat_append map_append)
  then have len: "length ?done + length (param_bytes ?p) \<le> length (values_bytes ps)" using v(1) by simp
  have bound: "param_bound (blk_size b) ?p" "param_at stmt k = Some ?p"
    using Suc.prems(3,4) k(1) by (auto simp: param_at_def)
  obtain b1 b2 where b2: "bind_param tp k (?vp + length ?done) (with_exec stmt b con) =
      Some (Some (?vp + length ?done + length (param_bytes ?p)), with_exec stmt b2 con)"
    "writes_at b (tp + k * 2) (le_bytes 2 (type_word ?p)) b1" "writes_at b1 (?vp + length ?done) (param_bytes ?p) b2"
    using bind_param_ok[OF Suc.prems(1,2) bound(2,1), of tp "?vp + length ?done" con] Suc.prems(6) k(1) len by auto
  have s: "blk_size b1 = blk_size b" "blk_size b2 = blk_size b"
    using writes_at_size[OF b2(2)] writes_at_size[OF b2(3)] by simp_all
  have tl: "length (types_bytes (take k ps)) = 2 * k" using k(1) by (simp add: types_length)
  have keep: "blk_has b2 q xs = blk_has b q xs" if "q + length xs \<le> tp + k * 2 \<or> tp + k * 2 + 2 \<le> q \<and> q + length xs \<le> ?vp + length ?done"
    for q xs
    using that k(1) writes_at_frame[OF b2(2), of q xs] writes_at_frame[OF b2(3), of q xs] by (auto simp: algebra_simps)
  have h1: "blk_has b2 0 head" using keep[of 0 head] Suc.prems(7,8) by simp
  have h2: "blk_has b2 tp (types_bytes (take k ps))" using keep[of tp "types_bytes (take k ps)"] tl Suc.prems(9) by simp
  have "blk_has b2 (tp + k * 2) (le_bytes 2 (type_word ?p))"
    using writes_at_has[OF b2(2)] writes_at_frame[OF b2(3), of "tp + k * 2" "le_bytes 2 (type_word ?p)"] k(1) by auto
  then have h3: "blk_has b2 tp (types_bytes (take (Suc k) ps))"
    using h2 tl unfolding v(2) by (simp add: blk_has_append mult.commute)
  have "blk_has b2 ?vp ?done" using keep[of ?vp ?done] k(1) Suc.prems(10) by auto
  then have h4: "blk_has b2 ?vp (values_bytes (take (Suc k) ps))"
    using writes_at_has[OF b2(3)] unfolding v(1) by (simp add: blk_has_append)
  show ?case
    using Suc.hyps(1)[OF k(3), of b2] Suc.prems k b2(1) s h1 h3 h4 v(1)
    by (simp add: add.assoc)
qed

section \<open>The head, and the whole packet\<close>

lemma null_bits_none:
  assumes "\<forall>i \<in> set is. \<exists>p. param_at stmt i = Some p \<and> param_type p \<noteq> ATTACHSQL_COLUMN_TYPE_NULL"
  shows "null_bits stmt pos is count b = Some (b, count)"
  using assms by (induction "is") auto

lemma put_ok: "p < blk_size b \<Longrightarrow> \<exists>b'. blk_put b p x = Some b' \<and> writes_at b p [x] b'"
  using blk_put_writes_at[of b p x] by (auto simp: blk_put_def)

lemma exec_head_ok:
  assumes "ps \<noteq> [] \<longrightarrow> param_data stmt = Some ps" "length ps = unat (param_count stmt)"
    and "\<forall>p \<in> set ps. param_type p \<noteq> ATTACHSQL_COLUMN_TYPE_NULL" "length (exec_bytes stmt) \<le> blk_size b"
  shows "\<exists>b'. exec_head stmt b = Some (b', length (exec_bytes stmt), param_count stmt) \<and>
    blk_has b' 0 (exec_bytes stmt) \<and> blk_size b' = blk_size b"
proof -
  let ?nb = "(unat (param_count stmt) + 7) div 8" and ?nulls = "replicate ((unat (param_count stmt) + 7) div 8) 0 :: byte list"
  have len: "length (exec_bytes stmt) = 10 + ?nb" by (simp add: exec_bytes_def)
  have nul: "null_bits stmt 9 [0..<unat (param_count stmt)] c b = Some (b, c)" for c b
    using assms(1-3) by (intro null_bits_none) (auto simp: param_at_def)
  obtain b1 where b1: "attachsql_pack_int4 b 0 (stmt_id stmt) = Some b1" "writes_at b 0 (le_bytes 4 (stmt_id stmt)) b1"
    using blk_write_total[of 0 "le_bytes 4 (stmt_id stmt)" b] assms(4) len by (auto simp: pack_int4_eq blk_write_writes_at)
  note s1 = writes_at_size[OF b1(2)]
  obtain b2 where b2: "blk_put b1 4 0 = Some b2" "writes_at b1 4 [0] b2"
    using put_ok[of 4 b1 0] assms(4) len s1 by auto
  note s2 = writes_at_size[OF b2(2)]
  obtain b3 where b3: "attachsql_pack_int4 b2 5 (1 :: uint32) = Some b3" "writes_at b2 5 (le_bytes 4 (1 :: uint32)) b3"
    using blk_write_total[of 5 "le_bytes 4 (1 :: uint32)" b2] assms(4) len s1 s2 by (auto simp: pack_int4_eq blk_write_writes_at)
  note s3 = writes_at_size[OF b3(2)]
  obtain b4 where b4: "blk_write b3 9 ?nulls = Some b4" "writes_at b3 9 ?nulls b4"
    using blk_write_total[of 9 ?nulls b3] assms(4) len s1 s2 s3 by (auto simp: blk_write_writes_at)
  note s4 = writes_at_size[OF b4(2)]
  obtain b5 where b5: "blk_put b4 (9 + ?nb) (if new_bind stmt then 1 else 0) = Some b5"
    "writes_at b4 (9 + ?nb) [if new_bind stmt then 1 else 0] b5"
    using put_ok[of "9 + ?nb" b4 "if new_bind stmt then 1 else 0"] assms(4) len s1 s2 s3 s4 by auto
  have w: "writes_at b 0 (exec_bytes stmt) b5"
    unfolding exec_bytes_def
    by (intro writes_at_append[OF b1(2)] writes_at_append[where ?b1.0 = b2] writes_at_append[where ?b1.0 = b3]
        writes_at_append[where ?b1.0 = b4]) (use b2(2) b3(2) b4(2) b5(2) in \<open>simp_all\<close>)
  have "exec_head stmt b = Some (b5, length (exec_bytes stmt), param_count stmt)"
  proof (cases "0 < param_count stmt")
    case True
    then show ?thesis using b1(1) b2(1) b3(1) b4(1) b5(1) nul by (simp add: exec_head_def len Let_def)
  next
    case False
    then have z: "param_count stmt = 0" by (simp flip: word_neq_0_conv)
    then have "b4 = b3" "b5 = b5" using b4(1) by simp_all
    then show ?thesis using False b1(1) b2(1) b3(1) b5(1) z by (simp add: exec_head_def len)
  qed
  then show ?thesis using writes_at_has[OF w] writes_at_size[OF w] by blast
qed

text \<open>Room for the whole packet: a buffer that is there, or the one the first check allocates.\<close>

definition exec_room :: "attachsql_stmt_st \<Rightarrow> nat \<Rightarrow> bool" where
  "exec_room stmt n \<longleftrightarrow>
     (case exec_buffer stmt of
        None \<Rightarrow> exec_buffer_length stmt = 0 \<and> n = ATTACHSQL_STMT_EXEC_DEFAULT_SIZE
      | Some b \<Rightarrow> exec_buffer_length stmt = blk_size b \<and> n = blk_size b \<and> 2060 \<le> n)"

definition exec_ready :: "attachsql_stmt_st \<Rightarrow> attachsql_stmt_param_st list \<Rightarrow> bool" where
  "exec_ready stmt ps \<longleftrightarrow> (\<exists>n. exec_room stmt n \<and> (\<forall>p \<in> set ps. param_bound n p) \<and> length (exec_payload stmt ps) \<le> n)"

lemma execute_sends:
  assumes s: "con_stmt con = Some stmt" "ps \<noteq> [] \<longrightarrow> param_data stmt = Some ps" "length ps = unat (param_count stmt)"
    and ready: "exec_ready stmt ps" and calm: "calm con"
  obtains b n where "attachsql_stmt_execute con =
    do { (st, con) \<leftarrow> attachsql_command_send ATTACHSQL_COMMAND_STMT_EXECUTE (exec_payload stmt ps)
           (with_exec (stmt\<lparr>exec_buffer_length := n\<rparr>) b con);
         Some (st = ATTACHSQL_COMMAND_STATUS_SEND, con) }"
    "exec_ready (stmt\<lparr>exec_buffer_length := n, exec_buffer := Some b\<rparr>) ps"
proof -
  obtain n where n: "exec_room stmt n" "\<forall>p \<in> set ps. param_bound n p" "length (exec_payload stmt ps) \<le> n"
    using ready by (auto simp: exec_ready_def)
  let ?s = "stmt\<lparr>exec_buffer_length := n\<rparr>"
  obtain b where b: "attachsql_stmt_check_buffer_size 2060 con = Some (True, with_exec ?s b con)" "blk_size b = n" "2060 \<le> n"
  proof (cases "exec_buffer stmt")
    case None
    then show ?thesis using n(1) that[of "blk_alloc n"] s(1) calm
      by (simp add: exec_room_def attachsql_stmt_check_buffer_size_def with_exec_def blk_alloc_def)
  next
    case (Some b)
    then have l: "n = blk_size b" "exec_buffer_length stmt = n" "2060 \<le> n" using n(1) by (simp_all add: exec_room_def)
    then have "?s\<lparr>exec_buffer := Some b\<rparr> = stmt" using Some by (cases stmt) simp
    moreover have "con\<lparr>con_stmt := con_stmt con\<rparr> = con" by simp
    ultimately have w: "with_exec ?s b con = con" unfolding with_exec_def using s(1) by simp
    have "attachsql_stmt_check_buffer_size 2060 con = Some (True, con)"
      using l(2,3) s(1) by (simp add: attachsql_stmt_check_buffer_size_def)
    then show ?thesis by (intro that[of b]) (simp_all only: w l(1)[symmetric] l(3))
  qed
  have e: "exec_bytes ?s = exec_bytes stmt" "exec_bytes (?s\<lparr>exec_buffer := x\<rparr>) = exec_bytes stmt" for x by (simp_all add: exec_bytes_def)
  have len: "length (exec_bytes stmt) + 2 * length ps + length (values_bytes ps) \<le> n"
    using n(3) by (simp add: exec_payload_def types_length)
  let ?h = "length (exec_bytes stmt)"
  obtain b1 where b1: "exec_head (?s\<lparr>exec_buffer := Some b\<rparr>) b = Some (b1, ?h, param_count stmt)" "blk_has b1 0 (exec_bytes stmt)"
    "blk_size b1 = blk_size b"
    using exec_head_ok[of ps "?s\<lparr>exec_buffer := Some b\<rparr>" b] s(2,3) n(2) b(2) len by (auto simp: e param_bound_def)
  have "\<exists>b'. bind_params ?h [0..<length ps] (?h + 2 * length ps + length (values_bytes (take 0 ps))) (with_exec ?s b1 con) =
      Some (Some (?h + 2 * length ps + length (values_bytes ps)), with_exec ?s b' con) \<and>
    blk_has b' 0 (exec_bytes stmt @ types_bytes ps @ values_bytes ps) \<and> blk_size b' = blk_size b1"
    using b b1 s(2) n(2) len by (intro bind_params_ok) (simp_all add: types_bytes_def values_bytes_def)
  then obtain b2 where b2: "bind_params ?h [0..<length ps] (?h + length ps * 2) (with_exec ?s b1 con) =
      Some (Some (?h + 2 * length ps + length (values_bytes ps)), with_exec ?s b2 con)"
    "blk_has b2 0 (exec_payload stmt ps)" "blk_size b2 = n"
    using b1(3) b(2) by (auto simp: values_bytes_def exec_payload_def mult.commute)
  have read: "blk_read b2 0 (?h + 2 * length ps + length (values_bytes ps)) = Some (exec_payload stmt ps)"
    using blk_read_has[OF b2(2)] by (simp add: exec_payload_def types_length add.assoc)
  have i: "in_exec_buffer (exec_head (?s\<lparr>exec_buffer := Some b\<rparr>)) (with_exec ?s b con) = Some ((?h, param_count stmt), with_exec ?s b1 con)"
    by (rule in_exec) (simp add: b1(1))
  have c: "con_stmt (with_exec ?s b con) = Some (?s\<lparr>exec_buffer := Some b\<rparr>)" "con_stmt (with_exec ?s b2 con) = Some (?s\<lparr>exec_buffer := Some b2\<rparr>)"
    by (simp_all add: with_exec_def)
  have "attachsql_stmt_execute con =
    do { (st, con) \<leftarrow> attachsql_command_send ATTACHSQL_COMMAND_STMT_EXECUTE (exec_payload stmt ps) (with_exec ?s b2 con);
         Some (st = ATTACHSQL_COMMAND_STATUS_SEND, con) }"
    using b2(1) read by (simp add: attachsql_stmt_execute_def b(1) c i s(3)[symmetric])
  moreover have "exec_ready (?s\<lparr>exec_buffer := Some b2\<rparr>) ps"
    using n b(3) b2(3) by (auto simp: exec_ready_def exec_room_def exec_payload_def e)
  ultimately show ?thesis by (rule that)
qed

section \<open>A string that does not fit\<close>

lemma string_overruns:
  assumes s: "con_stmt con = Some stmt" "param_data stmt = Some [p]" "param_count stmt = 1"
    and fresh: "exec_buffer stmt = None" "exec_buffer_length stmt = 0" and calm: "calm con"
    and p: "string_type (param_type p)" "param_value p = StringData (Some xs)" "\<not> is_long_data p"
    and n: "param_length p < 2 ^ 64" "16368 < param_length p \<and> param_length p \<le> 16384 \<or> 32752 < param_length p"
  shows "attachsql_stmt_execute con = None"
proof -
  let ?n = "param_length p" and ?L = "16384 :: nat"
  let ?s = "stmt\<lparr>exec_buffer_length := ?L\<rparr>" and ?b = "blk_alloc 16384"
  have c0: "attachsql_stmt_check_buffer_size 2060 con = Some (True, with_exec ?s ?b con)"
    using s(1) fresh calm by (simp add: attachsql_stmt_check_buffer_size_def with_exec_def)
  have t: "param_type p \<noteq> ATTACHSQL_COLUMN_TYPE_NULL" using p(1) by (auto simp: string_type_def)
  have h: "length (exec_bytes stmt) = 11" by (simp add: exec_bytes_def s(3))
  have e: "exec_bytes (?s\<lparr>exec_buffer := x\<rparr>) = exec_bytes stmt" for x by (simp add: exec_bytes_def)
  obtain b1 where b1: "exec_head (?s\<lparr>exec_buffer := Some ?b\<rparr>) ?b = Some (b1, 11, 1)" "blk_size b1 = ?L"
    using exec_head_ok[of "[p]" "?s\<lparr>exec_buffer := Some ?b\<rparr>" ?b] s t by (auto simp: e h blk_alloc_def)
  have i: "in_exec_buffer (exec_head (?s\<lparr>exec_buffer := Some ?b\<rparr>)) (with_exec ?s ?b con) = Some ((11, 1), with_exec ?s b1 con)"
    by (rule in_exec) (simp add: b1(1))
  obtain b2 where b2: "blk_write b1 11 (le_bytes 2 (type_word p)) = Some b2" "blk_size b2 = ?L"
    using blk_write_total[of 11 "le_bytes 2 (type_word p)" b1] b1(2) blk_write_size by fastforce
  have i2: "in_exec_buffer (\<lambda>b. map_option (\<lambda>b. (b, ())) (attachsql_pack_int2 b 11 (type_word p))) (with_exec ?s b1 con) =
      Some ((), with_exec ?s b2 con)" by (rule in_exec) (simp add: pack_int2_eq b2(1))
  have full: "put_value p 13 b = None" if "blk_size b < 16 + ?n" for b
  proof (rule ccontr)
    assume "put_value p 13 b \<noteq> None"
    then obtain b' q where "attachsql_pack_data b 13 (of_nat ?n) xs = Some (b', q)"
      using p(1,2) by (auto simp: put_value_def)
    from pack_data_writes[OF this] have w: "writes_at b 13 (enc_length (of_nat ?n) @ take ?n xs) b'" "?n \<le> length xs"
      using n(1) by (simp_all add: unat_of_nat take_bit_nat_eq_self)
    have "unat (of_nat ?n :: uint64) = ?n" using n(1) by (simp add: unat_of_nat take_bit_nat_eq_self)
    then have "3 \<le> length (enc_length (of_nat ?n))" using n(2) by (auto simp: enc_length_def word_le_nat_alt)
    then have "16 + ?n \<le> 13 + length (enc_length (of_nat ?n) @ take ?n xs)" using w(2) by simp
    also have "\<dots> \<le> blk_size b'" using writes_at_has[OF w(1)] n(2) w(2) by (intro blk_has_bound) auto
    finally show False using that writes_at_size[OF w(1)] by simp
  qed
  show ?thesis
  proof (cases "?n \<le> ?L")
    case True
    then have "attachsql_stmt_check_buffer_size ?n (with_exec ?s b2 con) = Some (True, with_exec ?s b2 con)"
      by (simp add: check_enough)
    moreover have "in_exec_buffer (put_value p 13) (with_exec ?s b2 con) = None"
      using full[of b2] b2(2) n(2) True by (simp add: in_exec_buffer_def with_exec_def)
    ultimately have "bind_param 11 0 13 (with_exec ?s b1 con) = None"
      using s(2) t p i2 by (simp add: bind_param_def with_exec_def param_at_def check_enough[unfolded with_exec_def])
    then show ?thesis using s(3) i by (simp add: attachsql_stmt_execute_def c0 with_exec_def)
  next
    case False
    let ?s2 = "stmt\<lparr>exec_buffer_length := 2 * ?L\<rparr>" and ?b3 = "blk_realloc b2 (2 * ?L)"
    have "attachsql_stmt_check_buffer_size ?n (with_exec ?s b2 con) = Some (True, with_exec ?s2 ?b3 con)"
      using False calm by (simp add: attachsql_stmt_check_buffer_size_def with_exec_def calm_def alloc_def)
    moreover have "in_exec_buffer (put_value p 13) (with_exec ?s2 ?b3 con) = None"
      using full[of ?b3] n(2) False by (simp add: in_exec_buffer_def with_exec_def)
    ultimately have "bind_param 11 0 13 (with_exec ?s b1 con) = None"
      using s(2) t p i2 by (simp add: bind_param_def with_exec_def param_at_def check_enough[unfolded with_exec_def])
    then show ?thesis using s(3) i by (simp add: attachsql_stmt_execute_def c0 with_exec_def)
  qed
qed

section \<open>Properties\<close>

lemma ready_frame:
  assumes "con1 = (attachsql_command_free con)\<lparr>con_stmt := x\<rparr>"
  shows "calm con1 = calm con" "buffers_ok con1 = buffers_ok con" "extra_bytes con1 xs = extra_bytes con xs"
    "queue_ok con1 = queue_ok con" "queue_room con1 = queue_room con" "client_capabilities con1 = client_capabilities con"
    "sent con1 = sent con" "expected con1 = expected con"
  using assms queue_frame[of con1 con]
  by (simp_all add: attachsql_command_free_def calm_def buffers_ok_def extra_bytes_def queue_fields_def queue_room_def
      alloc_def split: list.split)

text \<open>
  \<open>attachsql_statement_execute\<close> of a statement without NULL parameters that fits in its buffer sends
  one command: the identifier, the empty NULL bitmap, the type of every parameter and every value in
  order; the connection waits for one answer.
\<close>

theorem execute_sends_parameters:
  assumes "con_stmt con = Some stmt" "param_data stmt = Some ps" "length ps = unat (param_count stmt)" "exec_ready stmt ps"
    and "calm con" "buffers_ok con" "extra_bytes con []" "queue_ok con" "queue_room con"
    and "client_capabilities con AND ATTACHSQL_CAPABILITY_COMPRESS = 0"
  shows "\<exists>con'. attachsql_statement_execute (Some con) error = Some (True, error, Some con') \<and>
    sent con' = sent con @ [packet 0 (command_code ATTACHSQL_COMMAND_STMT_EXECUTE # exec_payload stmt ps)] \<and>
    expected con' = ATTACHSQL_PACKET_TYPE_RESPONSE # expected con \<and> con_status con' = ATTACHSQL_CON_STATUS_BUSY"
proof -
  let ?c = "attachsql_command_free con"
  have s: "con_stmt ?c = Some stmt" using assms(1) by (simp add: attachsql_command_free_def)
  have "?c = ?c\<lparr>con_stmt := con_stmt ?c\<rparr>" by simp
  from ready_frame(1)[OF this] have "calm ?c" using assms(5) by simp
  from execute_sends[OF s _ assms(3,4) this] obtain b n where
    e: "attachsql_stmt_execute ?c =
      do { (st, con) \<leftarrow> attachsql_command_send ATTACHSQL_COMMAND_STMT_EXECUTE (exec_payload stmt ps)
             (with_exec (stmt\<lparr>exec_buffer_length := n\<rparr>) b ?c);
           Some (st = ATTACHSQL_COMMAND_STATUS_SEND, con) }" using assms(2) by blast
  let ?d = "with_exec (stmt\<lparr>exec_buffer_length := n\<rparr>) b ?c"
  have d: "?d = ?c\<lparr>con_stmt := Some (stmt\<lparr>exec_buffer_length := n, exec_buffer := Some b\<rparr>)\<rparr>" by (simp add: with_exec_def)
  note f = ready_frame[OF d]
  obtain con' where "attachsql_command_send ATTACHSQL_COMMAND_STMT_EXECUTE (exec_payload stmt ps) ?d =
      Some (ATTACHSQL_COMMAND_STATUS_SEND, con')"
    "sent con' = sent ?d @ [packet 0 (command_code ATTACHSQL_COMMAND_STMT_EXECUTE # [] @ exec_payload stmt ps)]"
    "con_status con' = ATTACHSQL_CON_STATUS_BUSY" "expected con' = response_of ATTACHSQL_COMMAND_STMT_EXECUTE @ expected ?d"
    using command_send_plain[of ?d "[]" ATTACHSQL_COMMAND_STMT_EXECUTE "exec_payload stmt ps"] assms(5-10) f by auto
  then show ?thesis using e f assms(1) by (simp add: attachsql_statement_execute_def response_of_def)
qed

lemma stmt_con_ready:
  "calm (stmt_con n)" "buffers_ok (stmt_con n)" "extra_bytes (stmt_con n) []" "queue_ok (stmt_con n)" "queue_room (stmt_con n)"
  "client_capabilities (stmt_con n) = 0" "sent (stmt_con n) = []"
  by (simp_all add: stmt_con_def connect_init_def con_core.defs core_init_def calm_def buffers_ok_def extra_bytes_def
      queue_ok_def queue_room_def alloc_def)

definition int_param :: "uint32 \<Rightarrow> attachsql_stmt_param_st" where
  "int_param v = param_init\<lparr>param_value := IntData v, param_type := ATTACHSQL_COLUMN_TYPE_LONG\<rparr>"

definition bound_con :: "attachsql_stmt_param_st list \<Rightarrow> attachsql_connect_t" where
  "bound_con ps = (stmt_con 1)\<lparr>con_stmt := Some (stmt_init\<lparr>param_count := of_nat (length ps), param_data := Some ps\<rparr>)\<rparr>"

lemma param_init_fields:
  "is_long_data param_init = False" "param_type param_init = ATTACHSQL_COLUMN_TYPE_NULL"
  by (simp_all add: param_init_def)

lemma bound_con_ready:
  "calm (bound_con ps)" "buffers_ok (bound_con ps)" "extra_bytes (bound_con ps) []" "queue_ok (bound_con ps)"
  "queue_room (bound_con ps)" "client_capabilities (bound_con ps) = 0" "sent (bound_con ps) = []"
  "con_stmt (bound_con ps) = Some (stmt_init\<lparr>param_count := of_nat (length ps), param_data := Some ps\<rparr>)"
  using stmt_con_ready[of 1] queue_frame(2)[of "bound_con ps" "stmt_con 1"]
  by (simp_all add: bound_con_def calm_def buffers_ok_def extra_bytes_def queue_fields_def queue_room_def alloc_def)

lemma int_param_ready:
  "exec_payload (stmt_init\<lparr>param_count := 1, param_data := Some [int_param v]\<rparr>) [int_param v] =
     [0, 0, 0, 0, 0, 1, 0, 0, 0, 0, 1, 3, 0] @ le_bytes 4 v"
  "exec_ready (stmt_init\<lparr>param_count := 1, param_data := Some [int_param v]\<rparr>) [int_param v]"
proof -
  let ?s = "stmt_init\<lparr>param_count := 1, param_data := Some [int_param v]\<rparr>"
  show pay: "exec_payload ?s [int_param v] = [0, 0, 0, 0, 0, 1, 0, 0, 0, 0, 1, 3, 0] @ le_bytes 4 v"
    by (simp add: exec_payload_def exec_bytes_def types_bytes_def values_bytes_def int_param_def param_init_def stmt_init_def
        type_word_def param_bytes_def le_bytes_4 le_bytes_2)
  have "exec_room ?s 16384" by (simp add: exec_room_def stmt_init_def)
  moreover have "param_bound 16384 (int_param v)"
    by (simp add: param_bound_def int_param_def param_init_def param_typed_def param_whole_def string_type_def)
  ultimately show "exec_ready ?s [int_param v]" unfolding exec_ready_def pay by (intro exI[of _ 16384]) simp
qed

theorem execute_sends_parameters_witness:
  "\<exists>con'. attachsql_statement_execute (Some (bound_con [int_param 5])) None = Some (True, None, Some con') \<and>
     sent con' = [[18, 0, 0, 0, 0x17, 0, 0, 0, 0, 0, 1, 0, 0, 0, 0, 1, 3, 0, 5, 0, 0, 0]]"
proof -
  let ?ps = "[int_param 5]"
  let ?s = "stmt_init\<lparr>param_count := of_nat (length ?ps), param_data := Some ?ps\<rparr>"
  have pay: "exec_payload ?s ?ps = [0, 0, 0, 0, 0, 1, 0, 0, 0, 0, 1, 3, 0, 5, 0, 0, 0]"
    using int_param_ready(1)[of 5] by (simp add: le_bytes_4)
  have r: "exec_ready ?s ?ps" using int_param_ready(2)[of 5] by simp
  note c = bound_con_ready[of ?ps]
  from execute_sends_parameters[OF c(8) _ _ r c(1-5), of None] show ?thesis
    unfolding pay using c(6,7) by (auto simp: packet_def le_bytes_3)
qed

text \<open>
  C36. The check of the buffer's size compares the length of a string with the size of the whole
  buffer, and doubles it once: a string as long as what is left of the default buffer, up to the
  buffer, and any string beyond twice its size are stored over the end of it.
\<close>

theorem execute_string_overruns:
  assumes "con_stmt con = Some stmt" "param_data stmt = Some [p]" "param_count stmt = 1"
    and "exec_buffer stmt = None" "exec_buffer_length stmt = 0" "calm con"
    and "string_type (param_type p)" "param_value p = StringData (Some xs)" "\<not> is_long_data p" "param_length p < 2 ^ 64"
    and "16368 < param_length p \<and> param_length p \<le> 16384 \<or> 32752 < param_length p"
  shows "attachsql_stmt_execute con = None"
  using assms by (rule string_overruns)

theorem execute_string_overruns_witness:
  "attachsql_stmt_execute (bound_con [param_init\<lparr>param_type := ATTACHSQL_COLUMN_TYPE_STRING,
     param_value := StringData (Some (replicate 16384 0x61)), param_length := 16384\<rparr>]) = None"
  by (rule execute_string_overruns[OF bound_con_ready(8), where p = "param_init\<lparr>param_type := ATTACHSQL_COLUMN_TYPE_STRING,
     param_value := StringData (Some (replicate 16384 0x61)), param_length := 16384\<rparr>" and xs = "replicate 16384 0x61"])
     (simp_all add: stmt_init_def bound_con_ready string_type_def param_init_fields)

lemma blk_read_missing:
  assumes "blk_get b (p + i) = None" "i < n" shows "blk_read b p n = None"
proof (rule ccontr)
  assume "blk_read b p n \<noteq> None"
  then obtain xs where "blk_read b p n = Some xs" by auto
  then have "blk_has b p xs" "length xs = n" using blk_read_Some[of b p n xs] by auto
  then show False using assms by (auto simp: blk_has_nth)
qed

lemma missing_type_slot:
  assumes s: "con_stmt con = Some stmt" "param_data stmt = Some [p, int_param v]" "param_count stmt = 2"
    and fresh: "exec_buffer stmt = None" "exec_buffer_length stmt = 0" and calm: "calm con"
    and p: "param_type p = ATTACHSQL_COLUMN_TYPE_NULL"
  shows "attachsql_stmt_execute con = None"
proof -
  have r: "blk_read \<lparr>blk_size = 16384, blk_mem = m\<rparr> 0 17 = None" if "m 11 = None" for m
    using that by (intro blk_read_missing[of _ 0 11]) (simp_all add: blk_get_def)
  have upt: "[0..<2] = [0, 1 :: nat]" by (simp add: upt_rec)
  show ?thesis using assms upt
    by (simp add: attachsql_stmt_execute_def attachsql_stmt_check_buffer_size_def in_exec_buffer_def exec_head_def
      param_at_def bind_param_def type_word_def int_param_def put_value_def pack_eqs le_bytes_4 le_bytes_2 blk_alloc_def blk_put_def blk_get_def param_init_def
      string_type_def fixed_type_def Let_def r)
qed

text \<open>
  A NULL parameter has no place among the types, but the types of the others are stored at the
  number of the parameter: behind a NULL the type slot of the next parameter is left unset and its
  type is overwritten by its value.
\<close>

theorem null_parameter_shifts_types:
  assumes "con_stmt con = Some stmt" "param_data stmt = Some [p, int_param v]" "param_count stmt = 2"
    and "exec_buffer stmt = None" "exec_buffer_length stmt = 0" "calm con" "param_type p = ATTACHSQL_COLUMN_TYPE_NULL"
  shows "attachsql_stmt_execute con = None"
  using assms by (rule missing_type_slot)

theorem null_parameter_shifts_types_witness: "attachsql_stmt_execute (bound_con [param_init, int_param 7]) = None"
  by (rule null_parameter_shifts_types[OF bound_con_ready(8), where p = param_init and v = 7])
     (simp_all add: stmt_init_def bound_con_ready param_init_fields)

text \<open>
  A date marks its parameter as allocated, and a number stored in the same parameter afterwards
  leaves the mark: closing the statement deletes the number as if it were the address of a date.
\<close>

theorem close_deletes_number:
  assumes "attachsql_statement_set_datetime (Some con) i yr mon dy hr mi sec us e = Some (True, e1, Some con1)"
    and "attachsql_statement_set_int (Some con1) i v e1 = Some (True, e2, Some con2)"
  shows "attachsql_statement_close (Some con2) = None"
proof -
  from assms(1) obtain c stmt0 ps0 where c: "alloc con = (True, c)" "con_stmt con = Some stmt0" "i < param_count stmt0"
    "param_data stmt0 = Some ps0" "unat i < length ps0"
    and 0: "con_stmt con1 = Some (stmt0\<lparr>param_data := Some (ps0[unat i := (ps0 ! unat i)\<lparr>
      param_value := DatetimeData (Some (datetime_init\<lparr>year := yr, month := mon, day := ucast dy, hour := hr,
        minute := mi, second := sec, microsecond := us\<rparr>)),
      datetime_alloc := True, param_type := ATTACHSQL_COLUMN_TYPE_DATETIME\<rparr>])\<rparr>)"
    by (cases "alloc con")
       (auto simp: attachsql_statement_set_datetime_def with_param_def fail_with_def store_param_def set_param_at_def alloc_stmt
        split: option.splits if_splits elim!: bind_SomeE)
  then obtain stmt ps where 1: "con_stmt con1 = Some stmt" "param_data stmt = Some ps" "i < param_count stmt"
    "unat i < length ps" "datetime_alloc (ps ! unat i)" by simp
  from assms(2) 1 have 2: "con_stmt con2 = Some (stmt\<lparr>param_data := Some (ps[unat i := (ps ! unat i)
      \<lparr>param_value := IntData v, is_unsigned := False, param_type := ATTACHSQL_COLUMN_TYPE_LONG\<rparr>])\<rparr>)"
    by (auto simp: attachsql_statement_set_int_def attachsql_statement_set_param_def with_param_def store_param_def
        set_param_at_def split: if_splits elim!: bind_SomeE)
  have "unat i < unat (param_count stmt)" using 1(3) by (simp add: word_less_nat_alt)
  then have "\<not> params_freed (stmt\<lparr>param_data := Some (ps[unat i := (ps ! unat i)
      \<lparr>param_value := IntData v, is_unsigned := False, param_type := ATTACHSQL_COLUMN_TYPE_LONG\<rparr>])\<rparr>)"
    using 1(4,5) by (auto simp: params_freed_def list_all_length param_freed_def intro!: exI[of _ "unat i"])
  then show ?thesis using 2 by (simp add: attachsql_statement_close_def)
qed

theorem close_deletes_number_witness:
  "\<exists>con1 con2. attachsql_statement_set_datetime (Some (stmt_con 1)) 0 2014 1 2 3 4 5 0 None = Some (True, None, Some con1) \<and>
     attachsql_statement_set_int (Some con1) 0 42 None = Some (True, None, Some con2) \<and>
     attachsql_statement_close (Some con2) = None"
proof -
  let ?dt = "datetime_init\<lparr>year := 2014, month := 1, day := 2, hour := 3, minute := 4, second := 5, microsecond := 0\<rparr>"
  let ?p = "param_init\<lparr>param_value := DatetimeData (Some ?dt), datetime_alloc := True, param_type := ATTACHSQL_COLUMN_TYPE_DATETIME\<rparr>"
  let ?q = "?p\<lparr>param_value := IntData 42, is_unsigned := False, param_type := ATTACHSQL_COLUMN_TYPE_LONG\<rparr>"
  let ?s = "\<lambda>p. stmt_init\<lparr>param_count := 1, param_data := Some [p]\<rparr>"
  let ?c = "\<lambda>p. (stmt_con 1)\<lparr>con_stmt := Some (?s p)\<rparr>"
  have s: "con_stmt (stmt_con 1) = Some (?s param_init)" by (simp add: stmt_con_def)
  have c: "attachsql_statement_set_datetime (Some (stmt_con 1)) 0 2014 1 2 3 4 5 0 None = Some (True, None, Some (?c ?p))"
    "attachsql_statement_set_int (Some (?c ?p)) 0 42 None = Some (True, None, Some (?c ?q))"
    using stmt_con_ready(1)[of 1] s
    by (simp_all add: attachsql_statement_set_datetime_def attachsql_statement_set_int_def attachsql_statement_set_param_def
        with_param_def store_param_def set_param_at_def)
  from close_deletes_number[OF this] show ?thesis using c by blast
qed

end
