(* ===== verification/Ssl_Stream.thy ===== *)
theory Ssl_Stream
  imports Ssl_Plain Fragments Execute
begin

text \<open>
  What an encrypted connection writes reaches the TLS library as one stream of bytes: whatever the library
  takes at once, waits for or fails at, what it has accepted so far and what is still in the write
  buffer are together all that has been written, in order.
\<close>

section \<open>What is relied on of the library\<close>

text \<open>
  \<open>accepted\<close> is the data \<open>SSL_write\<close> has taken so far, a prefix of each offer and nothing when it
  fails; \<open>outgoing\<close> the content of the write BIO, which is read from its front.
\<close>

definition tls_ok :: "'s ssl_library \<Rightarrow> ('s \<Rightarrow> byte list) \<Rightarrow> ('s \<Rightarrow> byte list) \<Rightarrow> bool" where
  "tls_ok l accepted outgoing \<longleftrightarrow>
     (\<forall>xs s r s'. SSL_write l xs s = (r, s') \<longrightarrow>
        (if r < 0 then accepted s' = accepted s
         else nat r \<le> length xs \<and> accepted s' = accepted s @ take (nat r) xs)) \<and>
     (\<forall>s. accepted (snd (SSL_connect l s)) = accepted s) \<and>
     (\<forall>n s. accepted (snd (snd (SSL_read l n s))) = accepted s) \<and>
     (\<forall>s. accepted (snd (ERR_get_error l s)) = accepted s) \<and>
     (\<forall>n s. fst (BIO_read l n s) = take n (outgoing s) \<and> outgoing (snd (BIO_read l n s)) = drop n (outgoing s) \<and>
        accepted (snd (BIO_read l n s)) = accepted s)"

lemma tls_okD:
  assumes "tls_ok l accepted outgoing"
  shows "SSL_write l xs s = (r, s') \<Longrightarrow> r < 0 \<Longrightarrow> accepted s' = accepted s"
    "SSL_write l xs s = (r, s') \<Longrightarrow> \<not> r < 0 \<Longrightarrow> nat r \<le> length xs \<and> accepted s' = accepted s @ take (nat r) xs"
    "accepted (snd (SSL_connect l s)) = accepted s" "accepted (snd (snd (SSL_read l n s))) = accepted s"
    "accepted (snd (ERR_get_error l s)) = accepted s" "fst (BIO_read l n s) = take n (outgoing s)"
    "outgoing (snd (BIO_read l n s)) = drop n (outgoing s)" "accepted (snd (BIO_read l n s)) = accepted s"
  using assms unfolding tls_ok_def by fastforce+

section \<open>The stream\<close>

definition held :: "'s ssl_t \<Rightarrow> byte list" where
  "held t = (case ssl_write_buffer t of None \<Rightarrow> [] | Some b \<Rightarrow> buffer_bytes b)"

definition stream :: "('s \<Rightarrow> byte list) \<Rightarrow> 's ssl_t \<Rightarrow> byte list" where
  "stream accepted t = (case ssl t of None \<Rightarrow> [] | Some s \<Rightarrow> accepted s) @ held t"

definition secure_ok :: "'s ssl_t \<Rightarrow> bool" where
  "secure_ok t \<longleftrightarrow> ssl t \<noteq> None \<and> (\<forall>b. ssl_write_buffer t = Some b \<longrightarrow> buffer_ok b \<and> length (buffer_bytes b) < 2 ^ 31)"

text \<open>A step of the connection that keeps the stream.\<close>

definition keeps_stream ::
  "('s \<Rightarrow> byte list) \<Rightarrow> 's ssl_t \<Rightarrow> ('s ssl_t \<times> 'a con_core_scheme) \<Rightarrow> bool" where
  "keeps_stream accepted t x \<longleftrightarrow> secure_ok (fst x) \<and> stream accepted (fst x) = stream accepted t \<and> calm (snd x)"

lemma ssl_failed_calm: "calm con \<Longrightarrow> ssl_failed l msg s con = (s', con') \<Longrightarrow> calm con' \<and> s' = snd (ERR_get_error l s)"
  by (auto simp: ssl_failed_def Let_def split_beta send_failed_def calm_def)

lemma with_session: "secure_ok t \<Longrightarrow> secure_ok (t\<lparr>ssl := Some s\<rparr>)"
  by (simp add: secure_ok_def)

lemma stream_session:
  "ssl t = Some s \<Longrightarrow> accepted s' = accepted s \<Longrightarrow> stream accepted (t\<lparr>ssl := Some s'\<rparr>) = stream accepted t"
  by (simp add: stream_def held_def)

lemma push_keeps:
  assumes l: "tls_ok l accepted outgoing" and t: "secure_ok t" "calm con"
  shows "\<exists>x. ssl_push l t con = Some x \<and> keeps_stream accepted t x"
proof (cases "ssl_write_buffer t")
  case None
  then show ?thesis using t by (simp add: ssl_push_def keeps_stream_def)
next
  case (Some b)
  let ?xs = "buffer_bytes b"
  obtain s where s: "ssl t = Some s" using t(1) by (auto simp: secure_ok_def)
  have b: "buffer_ok b" "length ?xs < 2 ^ 31" using t(1) Some by (simp_all add: secure_ok_def)
  have u: "attachsql_buffer_unread_data b = length ?xs" by (rule unread_data_length[OF b(1)])
  have g: "get_bytes (length ?xs) b = Some ?xs"
    using ahead_bytes[of b ?xs "[]"] buffer_ok_has[OF b(1)] by (simp add: ahead_def)
  show ?thesis
  proof (cases "?xs = []")
    case True
    then show ?thesis using t Some u by (simp add: ssl_push_def keeps_stream_def)
  next
    case False
    obtain r s' where w: "SSL_write l ?xs s = (r, s')" by fastforce
    show ?thesis
    proof (cases "r < 0")
      case True
      have a: "accepted s' = accepted s" by (rule tls_okD(1)[OF l w True])
      obtain s2 con2 where f: "ssl_failed l ''SSL write fail: '' s' con = (s2, con2)" by fastforce
      have a2: "accepted s2 = accepted s" "calm con2"
        using ssl_failed_calm[OF t(2) f] tls_okD(5)[OF l] a by simp_all
      show ?thesis using True b(2) False Some s u g w f t a a2
        by (simp add: ssl_push_def keeps_stream_def with_session stream_session Let_def)
    next
      case False
      note a = tls_okD(2)[OF l w False]
      let ?t = "t\<lparr>ssl := Some s', ssl_write_buffer := Some (skip (nat r) b)\<rparr>"
      have sk: "buffer_ok (skip (nat r) b)" "buffer_bytes (skip (nat r) b) = drop (nat r) ?xs"
      proof -
        have l: "length (take (nat r) ?xs) = nat r" using a(1) by simp
        show "buffer_ok (skip (nat r) b)" "buffer_bytes (skip (nat r) b) = drop (nat r) ?xs"
          using skip_ok[OF b(1), of "take (nat r) ?xs" "drop (nat r) ?xs"]
          unfolding l append_take_drop_id by simp_all
      qed
      have "secure_ok ?t" using sk b(2) by (simp add: secure_ok_def)
      moreover have "stream accepted ?t = stream accepted t"
        using s Some a sk(2) by (simp add: stream_def held_def)
      ultimately show ?thesis using False \<open>?xs \<noteq> []\<close> b(2) Some s u g w t(2)
        by (simp add: ssl_push_def keeps_stream_def)
    qed
  qed
qed

text \<open>The loop over the write BIO ends, and everything in it is sent.\<close>

lemma flush_keeps:
  assumes l: "tls_ok l accepted outgoing"
  shows "calm con \<Longrightarrow> \<exists>s' con' pieces. flush_bio l s con = Some (s', con') \<and> accepted s' = accepted s \<and>
    outgoing s' = [] \<and> calm con' \<and> sent con' = sent con @ pieces \<and> concat pieces = outgoing s"
proof (induction "length (outgoing s)" arbitrary: s con rule: less_induct)
  case less
  let ?p = "fst (BIO_read l SSL_BUFFER_SIZE s)" and ?s = "snd (BIO_read l SSL_BUFFER_SIZE s)"
  note r = tls_okD(6-8)[OF l, of SSL_BUFFER_SIZE s]
  show ?case
  proof (cases "outgoing s = []")
    case True
    then show ?thesis using r less.prems by (subst flush_bio.simps) auto
  next
    case False
    let ?con = "con\<lparr>sent := sent con @ [concat [?p]]\<rparr>"
    have "length (outgoing ?s) < length (outgoing s)" using False r(2) by simp
    moreover have "calm ?con" using less.prems by (simp add: calm_def)
    ultimately obtain s' con' pieces where ih: "flush_bio l ?s ?con = Some (s', con')" "accepted s' = accepted ?s"
      "outgoing s' = []" "calm con'" "sent con' = sent ?con @ pieces" "concat pieces = outgoing ?s"
      using less.hyps by blast
    have "?p \<noteq> []" using False r(1) by simp
    then have "flush_bio l s con = Some (s', con')"
      using ih(1) less.prems by (subst flush_bio.simps) simp
    then show ?thesis using ih r by (intro exI[of _ s'] exI[of _ con'] exI[of _ "?p # pieces"]) simp
  qed
qed

definition drained :: "('s \<Rightarrow> byte list) \<Rightarrow> 's ssl_t \<Rightarrow> bool" where
  "drained outgoing t \<longleftrightarrow> (\<exists>s. ssl t = Some s \<and> outgoing s = [])"

lemma data_check_keeps:
  assumes l: "tls_ok l accepted outgoing" and t: "secure_ok t" "calm con"
  shows "\<exists>x. attachsql_ssl_data_check l t con = Some x \<and> keeps_stream accepted t x \<and> drained outgoing (fst x)"
proof -
  obtain t1 con1 where p: "ssl_push l t con = Some (t1, con1)" "keeps_stream accepted t (t1, con1)"
    using push_keeps[OF assms] by auto
  then obtain s where s: "ssl t1 = Some s" by (auto simp: keeps_stream_def secure_ok_def)
  obtain s' con' where f: "flush_bio l s con1 = Some (s', con')" "accepted s' = accepted s" "outgoing s' = []" "calm con'"
    using flush_keeps[OF l, of con1 s] p(2) by (auto simp: keeps_stream_def)
  have "stream accepted (t1\<lparr>ssl := Some s'\<rparr>) = stream accepted t1" using stream_session[OF s f(2)] .
  then show ?thesis using p s f
    by (simp add: attachsql_ssl_data_check_def keeps_stream_def drained_def with_session)
qed

lemma handle_error_keeps:
  assumes l: "tls_ok l accepted outgoing" and t: "secure_ok t" "calm con"
  shows "\<exists>x. attachsql_ssl_handle_error l r t con = Some x \<and> keeps_stream accepted t x"
proof -
  obtain s where s: "ssl t = Some s" using t(1) by (auto simp: secure_ok_def)
  show ?thesis
  proof (cases "SSL_get_error l r s = SSL_ERROR_WANT_READ")
    case True
    then show ?thesis using data_check_keeps[OF assms] s by (auto simp: attachsql_ssl_handle_error_def)
  next
    case False
    obtain s2 con2 where f: "ssl_failed l ''SSL read/write fail: '' s con = (s2, con2)" by fastforce
    have "accepted s2 = accepted s" "calm con2" using ssl_failed_calm[OF t(2) f] tls_okD(5)[OF l] by simp_all
    then show ?thesis using False s f t
      by (simp add: attachsql_ssl_handle_error_def keeps_stream_def with_session stream_session)
  qed
qed

lemma run_keeps:
  assumes l: "tls_ok l accepted outgoing" and t: "secure_ok t" "calm con"
  shows "\<exists>x. attachsql_ssl_run l t con = Some x \<and> keeps_stream accepted t x \<and> drained outgoing (fst x)"
proof -
  obtain s where s: "ssl t = Some s" using t(1) by (auto simp: secure_ok_def)
  obtain r s1 where r: "(if \<not> SSL_is_init_finished l s then SSL_connect l s
      else let (r, _, s) = SSL_read l SSL_BUFFER_SIZE s in (r, s)) = (r, s1)" by fastforce
  have a: "accepted s1 = accepted s"
    using r tls_okD(3)[OF l, of s] tls_okD(4)[OF l, of SSL_BUFFER_SIZE s] by (auto simp: split_beta split: if_splits)
  let ?t = "t\<lparr>ssl := Some s1\<rparr>"
  have t1: "secure_ok ?t" "stream accepted ?t = stream accepted t"
    using with_session[OF t(1)] stream_session[OF s a] by simp_all
  obtain t2 con2 where e: "(if r < 0 then attachsql_ssl_handle_error l r ?t con else Some (?t, con)) = Some (t2, con2)"
    "keeps_stream accepted ?t (t2, con2)"
    using handle_error_keeps[OF l t1(1) t(2), of r] t1 t(2) by (cases "r < 0") (auto simp: keeps_stream_def)
  then have "secure_ok t2" "calm con2" by (simp_all add: keeps_stream_def)
  from data_check_keeps[OF l this] obtain x where
    "attachsql_ssl_data_check l t2 con2 = Some x" "keeps_stream accepted t2 x" "drained outgoing (fst x)" by blast
  then show ?thesis using s r e t1(2) by (simp add: attachsql_ssl_run_def keeps_stream_def)
qed

section \<open>Writing\<close>

lemma store_bufs_ok:
  "buffer_ok b \<Longrightarrow> length (concat bufs) \<le> buffer_room b \<Longrightarrow>
   \<exists>b'. store_bufs bufs b = Some b' \<and> buffer_ok b' \<and> buffer_bytes b' = buffer_bytes b @ concat bufs"
proof (induction bufs arbitrary: b)
  case (Cons x xs)
  then obtain b1 where b1: "buffer_store x b = Some b1" "buffer_ok b1" "buffer_bytes b1 = buffer_bytes b @ x"
    using buffer_store_ok[of b x] by auto
  have "buffer_room b1 = buffer_room b - length x" using buffer_store_fields[OF b1(1)] by (simp add: buffer_room_def)
  then show ?case using Cons.IH[OF b1(2)] Cons.prems b1 by auto
qed simp

text \<open>Room for \<open>n\<close> more bytes, in the write buffer or in a new one.\<close>

definition ssl_room :: "nat \<Rightarrow> 's ssl_t \<Rightarrow> bool" where
  "ssl_room n t \<longleftrightarrow> length (held t) + n < 2 ^ 31 \<and>
     (case ssl_write_buffer t of None \<Rightarrow> n \<le> ATTACHSQL_DEFAULT_BUFFER_SIZE | Some b \<Rightarrow> roomy 0 n b)"

lemma prepare_room:
  assumes "secure_ok t" "calm con" "ssl_room n t"
  shows "\<exists>k b. buffer_prepare n (ssl_write_buffer t) con = Some (k, b, con) \<and> buffer_ok b \<and> n \<le> buffer_room b \<and>
    buffer_bytes b = held t"
proof (cases "ssl_write_buffer t")
  case None
  obtain b where b: "attachsql_buffer_create True True = Some b" by (auto simp: attachsql_buffer_create_def)
  then have f: "buffer_ok b" "buffer_bytes b = []" "buffer_size b = ATTACHSQL_DEFAULT_BUFFER_SIZE"
    "buffer_read_ptr b = 0" "buffer_write_ptr b = 0" "buffer_used b = 0"
    using buffer_create_ok[OF b] by (auto simp: attachsql_buffer_create_def)
  have "attachsql_buffer_get_available (Some b) = ATTACHSQL_DEFAULT_BUFFER_SIZE"
    using f by (simp add: attachsql_buffer_get_available_def size_sub_le)
  then show ?thesis using None assms(2,3) b f
    by (simp add: buffer_prepare_def buffer_new_def ssl_room_def held_def buffer_room_def)
next
  case (Some b)
  then have b: "buffer_ok b" "roomy 0 n b" using assms(1,3) by (simp_all add: secure_ok_def ssl_room_def)
  then show ?thesis using Some roomy_available[of b 0 n] by (auto simp: buffer_prepare_def held_def)
qed

lemma buffer_write_keeps:
  assumes "tls_ok l accepted outgoing" "secure_ok t" "calm con" "ssl_room (length (concat bufs)) t"
  shows "\<exists>t' con'. attachsql_ssl_buffer_write l bufs t con = Some (0, t', con') \<and>
    stream accepted t' = stream accepted t @ concat bufs \<and> drained outgoing t' \<and> secure_ok t' \<and> calm con'"
proof -
  let ?n = "length (concat bufs)"
  have n: "sum_list (map length bufs) = ?n" by (simp add: length_concat)
  obtain k b where b: "buffer_prepare ?n (ssl_write_buffer t) con = Some (k, b, con)" "buffer_ok b" "?n \<le> buffer_room b"
    "buffer_bytes b = held t"
    using prepare_room[OF assms(2-4)] by blast
  obtain b' where b': "store_bufs bufs b = Some b'" "buffer_ok b'" "buffer_bytes b' = held t @ concat bufs"
    using store_bufs_ok[OF b(2,3)] b(4) by auto
  let ?t = "t\<lparr>ssl_write_buffer := Some b'\<rparr>"
  have "secure_ok ?t" using assms(2,4) b'(2,3) by (simp add: secure_ok_def ssl_room_def)
  moreover have "stream accepted ?t = stream accepted t @ concat bufs" using b'(3) by (simp add: stream_def held_def)
  ultimately show ?thesis using run_keeps[OF assms(1) _ assms(3), of ?t] b(1) b'(1)
    by (auto simp: attachsql_ssl_buffer_write_def n keeps_stream_def)
qed

section \<open>Properties\<close>

text \<open>
  C19. With a TLS library that takes a prefix of what it is offered and keeps its output in order,
  \<open>attachsql_ssl_buffer_write\<close> returns: the data goes behind all that has been written before, none lost,
  repeated or out of order whatever the library takes or fails at, and everything the library has
  for the network has been sent.
\<close>

theorem secure_write_in_order:
  assumes "tls_ok l accepted outgoing" "secure_ok t" "calm con" "ssl_room (length (concat bufs)) t"
  shows "\<exists>t' con'. attachsql_ssl_buffer_write l bufs t con = Some (0, t', con') \<and>
    stream accepted t' = stream accepted t @ concat bufs \<and> drained outgoing t' \<and> secure_ok t' \<and> calm con'"
  using buffer_write_keeps[OF assms] .

lemma sample_tls_ok: "tls_ok sample_tls fst (fst \<circ> snd)"
  by (auto simp: tls_ok_def sample_tls_def min_def)

theorem secure_write_in_order_witness:
  "\<exists>t' con'. attachsql_ssl_buffer_write sample_tls [[1, 2, 3], [4, 5]] (ssl_init\<lparr>ssl := Some ([], [], []), handshake_done := True\<rparr>)
       (stmt_con 0) = Some (0, t', con') \<and> stream fst t' = [1, 2, 3, 4, 5] \<and> drained (fst \<circ> snd) t'"
proof -
  let ?t = "ssl_init\<lparr>ssl := Some ([], [], []), handshake_done := True\<rparr> :: (byte list \<times> byte list \<times> byte list) ssl_t"
  have t: "secure_ok ?t" "ssl_room (length (concat [[1, 2, 3], [4, 5 :: byte]])) ?t" "stream fst ?t = []"
    by (simp_all add: secure_ok_def ssl_room_def ssl_init_def held_def stream_def)
  from secure_write_in_order[OF sample_tls_ok t(1) stmt_con_ready(1)[of 0] t(2)] show ?thesis
    unfolding t(3) by auto
qed

end
