(* ===== verification/Ssl_Login.thy ===== *)
theory Ssl_Login
  imports Ssl_Stream
begin

text \<open>
  The login of an encrypted connection: after the request to encrypt, which names no user,
  everything the connection sends is output of the TLS library, and the library is given the response
  with user and password exactly once.
\<close>

section \<open>What is relied on of the library\<close>

text \<open>
  \<open>emitted\<close> is all that has been read from the write BIO so far; only reading it adds to it. Starting
  the handshake takes no data. Nothing is relied on about failures.
\<close>

definition tls_wire :: "'s ssl_library \<Rightarrow> ('s \<Rightarrow> byte list) \<Rightarrow> ('s \<Rightarrow> byte list) \<Rightarrow> bool" where
  "tls_wire l accepted emitted \<longleftrightarrow>
     (\<forall>xs s. emitted (snd (SSL_write l xs s)) = emitted s) \<and> (\<forall>s. emitted (snd (SSL_connect l s)) = emitted s) \<and>
     (\<forall>n s. emitted (snd (snd (SSL_read l n s))) = emitted s) \<and> (\<forall>s. emitted (snd (ERR_get_error l s)) = emitted s) \<and>
     (\<forall>n s. emitted (snd (BIO_read l n s)) = emitted s @ fst (BIO_read l n s)) \<and>
     (\<forall>s. emitted (start_handshake l s) = emitted s \<and> accepted (start_handshake l s) = accepted s)"

lemma tls_wireD:
  assumes "tls_wire l accepted emitted"
  shows "SSL_write l xs s = (r, s') \<Longrightarrow> emitted s' = emitted s" "emitted (snd (SSL_connect l s)) = emitted s"
    "emitted (snd (snd (SSL_read l n s))) = emitted s" "emitted (snd (ERR_get_error l s)) = emitted s"
    "emitted (snd (BIO_read l n s)) = emitted s @ fst (BIO_read l n s)"
    "emitted (start_handshake l s) = emitted s" "accepted (start_handshake l s) = accepted s"
proof -
  show "SSL_write l xs s = (r, s') \<Longrightarrow> emitted s' = emitted s"
    using conjunct1[OF assms[unfolded tls_wire_def]] by (metis snd_conv)
qed (use assms in \<open>simp_all add: tls_wire_def\<close>)

text \<open>
  States in which the library, as long as it is only called, at worst has to wait for the server: a set that no
  call leaves, in which every negative result is \<open>SSL_ERROR_WANT_READ\<close>. The empty set always is one.
\<close>

definition only_waits :: "'s ssl_library \<Rightarrow> ('s \<Rightarrow> bool) \<Rightarrow> bool" where
  "only_waits l I \<longleftrightarrow> (\<forall>s. I s \<longrightarrow>
     I (start_handshake l s) \<and> (\<forall>n. I (snd (BIO_read l n s))) \<and>
     (\<forall>r s'. SSL_connect l s = (r, s') \<longrightarrow> I s' \<and> (r < 0 \<longrightarrow> SSL_get_error l r s' = SSL_ERROR_WANT_READ)) \<and>
     (\<forall>n r xs s'. SSL_read l n s = (r, xs, s') \<longrightarrow> I s' \<and> (r < 0 \<longrightarrow> SSL_get_error l r s' = SSL_ERROR_WANT_READ)) \<and>
     (\<forall>xs r s'. SSL_write l xs s = (r, s') \<longrightarrow> I s' \<and> (r < 0 \<longrightarrow> SSL_get_error l r s' = SSL_ERROR_WANT_READ)))"

lemma only_waitsD:
  assumes "only_waits l I" "I s"
  shows "I (start_handshake l s)" "I (snd (BIO_read l n s))"
    "SSL_connect l s = (r, s') \<Longrightarrow> I s' \<and> (r < 0 \<longrightarrow> SSL_get_error l r s' = SSL_ERROR_WANT_READ)"
    "SSL_read l n s = (r, xs, s') \<Longrightarrow> I s' \<and> (r < 0 \<longrightarrow> SSL_get_error l r s' = SSL_ERROR_WANT_READ)"
    "SSL_write l xs s = (r, s') \<Longrightarrow> I s' \<and> (r < 0 \<longrightarrow> SSL_get_error l r s' = SSL_ERROR_WANT_READ)"
  using assms unfolding only_waits_def by blast+

section \<open>Steps that only send what the library gives out\<close>

text \<open>The pieces have been sent; otherwise the connection is as before, or an error of the library has been noted.\<close>

definition ssl_broken :: "attachsql_command_status_t \<Rightarrow> byte list \<Rightarrow> 'a con_core_scheme \<Rightarrow> 'a con_core_scheme" where
  "ssl_broken st msg con = con\<lparr>local_errcode := ATTACHSQL_RET_NET_SSL_ERROR, command_status := st,
     next_packet_queue_used := 0, con_status := ATTACHSQL_CON_STATUS_SSL_ERROR, errmsg := msg\<rparr>"

definition sent_on :: "byte list list \<Rightarrow> 'a con_core_scheme \<Rightarrow> 'a con_core_scheme \<Rightarrow> bool" where
  "sent_on pieces con con' \<longleftrightarrow>
     con' = con\<lparr>sent := sent con @ pieces\<rparr> \<or>
     (\<exists>st msg. con' = ssl_broken st msg (con\<lparr>sent := sent con @ pieces\<rparr>))"

lemma sent_onI: "sent_on pieces con (con\<lparr>sent := sent con @ pieces\<rparr>)"
  by (simp add: sent_on_def)

lemma sent_on_refl: "sent_on [] con con"
  using sent_onI[of "[]" con] by simp

lemma broken_facts:
  "ssl_broken st msg (ssl_broken st' msg' con) = ssl_broken st msg con"
  "ssl_broken st msg (con\<lparr>sent := ps\<rparr>) = (ssl_broken st msg con)\<lparr>sent := ps\<rparr>"
  "sent (ssl_broken st msg con) = sent con" "con_status (ssl_broken st msg con) = ATTACHSQL_CON_STATUS_SSL_ERROR"
  "(ssl_broken st msg con)\<lparr>packet_number := n\<rparr> = ssl_broken st msg (con\<lparr>packet_number := n\<rparr>)"
  "(ssl_broken st msg con)\<lparr>packet_header := h\<rparr> = ssl_broken st msg (con\<lparr>packet_header := h\<rparr>)"
  "(ssl_broken st msg con)\<lparr>command_status := st'\<rparr> = ssl_broken st' msg con"
  "ssl_broken st msg (con\<lparr>command_status := st'\<rparr>) = ssl_broken st msg con"
  by (simp_all add: ssl_broken_def)

lemma sent_on_trans: "sent_on p a b \<Longrightarrow> sent_on q b c \<Longrightarrow> sent_on (p @ q) a c"
  unfolding sent_on_def by (elim disjE exE) (simp, (force simp: broken_facts)+)

lemma sent_on_calm: "sent_on p con con' \<Longrightarrow> calm con \<Longrightarrow> calm con'"
  by (auto simp: sent_on_def calm_def ssl_broken_def)

lemma sent_on_stays_broken:
  "sent_on p con con' \<Longrightarrow> con_status con = ATTACHSQL_CON_STATUS_SSL_ERROR \<Longrightarrow> con_status con' = ATTACHSQL_CON_STATUS_SSL_ERROR"
  by (auto simp: sent_on_def ssl_broken_def)

lemma ssl_failed_on:
  "ssl_failed l msg s con = (s', con') \<Longrightarrow>
   sent_on [] con con' \<and> con_status con' = ATTACHSQL_CON_STATUS_SSL_ERROR \<and> s' = snd (ERR_get_error l s)"
  by (auto simp: ssl_failed_def Let_def split_beta send_failed_def sent_on_def ssl_broken_def)

definition quiet ::
  "('s \<Rightarrow> byte list) \<Rightarrow> ('s \<Rightarrow> bool) \<Rightarrow> 's ssl_t \<Rightarrow> 'a con_core_scheme \<Rightarrow> ('s, 'a) secure \<Rightarrow> bool" where
  "quiet emitted I t con x \<longleftrightarrow>
     (\<exists>s s' wb pieces. ssl t = Some s \<and> fst x = t\<lparr>ssl := Some s', ssl_write_buffer := wb\<rparr> \<and>
        sent_on pieces con (snd x) \<and> (ssl_write_buffer t = None \<longrightarrow> wb = None) \<and> emitted s' = emitted s @ concat pieces \<and>
        (I s \<longrightarrow> I s' \<and> con_status (snd x) = con_status con))"

lemma quietI:
  assumes "ssl t = Some s" "fst x = t\<lparr>ssl := Some s', ssl_write_buffer := wb\<rparr>" "sent_on pieces con (snd x)"
    and "emitted s' = emitted s @ concat pieces" "ssl_write_buffer t = None \<longrightarrow> wb = None"
    and "I s \<Longrightarrow> I s' \<and> con_status (snd x) = con_status con"
  shows "quiet emitted I t con x"
  using assms unfolding quiet_def by metis

lemma quietE:
  assumes "quiet emitted I t con x"
  obtains s s' wb pieces where "ssl t = Some s" "fst x = t\<lparr>ssl := Some s', ssl_write_buffer := wb\<rparr>"
    "sent_on pieces con (snd x)" "emitted s' = emitted s @ concat pieces"
    "ssl_write_buffer t = None \<longrightarrow> wb = None" "I s \<longrightarrow> I s' \<and> con_status (snd x) = con_status con"
  using assms unfolding quiet_def by metis

lemma quiet_session:
  assumes "ssl t = Some s" "emitted s' = emitted s" "sent_on [] con con'" "I s \<Longrightarrow> I s' \<and> con_status con' = con_status con"
  shows "quiet emitted I t con (t\<lparr>ssl := Some s'\<rparr>, con')"
  using quietI[of t s "(t\<lparr>ssl := Some s'\<rparr>, con')" "ssl_write_buffer t" s' "[]" con] assms by simp

lemma quiet_refl:
  assumes "ssl t = Some s" shows "quiet emitted I t con (t, con)"
  using quietI[of t s "(t, con)" "ssl_write_buffer t" s "[]" con] assms by (simp add: sent_on_refl)

lemma quiet_calm: "quiet emitted I t con (t', con') \<Longrightarrow> calm con \<Longrightarrow> ssl t' \<noteq> None \<and> calm con'"
  by (elim quietE) (auto dest: sent_on_calm)

lemma quiet_trans:
  assumes "quiet emitted I t con (t1, con1)" "quiet emitted I t1 con1 x" shows "quiet emitted I t con x"
proof -
  from assms(1) obtain s s1 wb1 p1 where 1: "ssl t = Some s" "t1 = t\<lparr>ssl := Some s1, ssl_write_buffer := wb1\<rparr>"
    "sent_on p1 con con1" "emitted s1 = emitted s @ concat p1" "ssl_write_buffer t = None \<longrightarrow> wb1 = None"
    "I s \<longrightarrow> I s1 \<and> con_status con1 = con_status con"
    by (elim quietE) simp
  from assms(2) obtain s2 wb2 p2 where 2: "fst x = t1\<lparr>ssl := Some s2, ssl_write_buffer := wb2\<rparr>"
    "sent_on p2 con1 (snd x)" "emitted s2 = emitted s1 @ concat p2" "wb1 = None \<longrightarrow> wb2 = None"
    "I s1 \<longrightarrow> I s2 \<and> con_status (snd x) = con_status con1"
    unfolding 1(2) by (elim quietE) simp
  show ?thesis
    by (rule quietI[of t s x wb2 s2 "p1 @ p2" con]) (use 1 2 sent_on_trans in simp_all)
qed

lemma push_quiet:
  assumes w: "tls_wire l accepted emitted" "only_waits l I" and t: "ssl t = Some s" and x: "ssl_push l t con = Some x"
  shows "quiet emitted I t con x"
proof -
  consider "x = (t, con)"
    | xs r s' where "SSL_write l xs s = (r, s')" "r < 0" "SSL_get_error l r s' = SSL_ERROR_WANT_READ" "x = (t\<lparr>ssl := Some s'\<rparr>, con)"
    | xs r s' s2 con2 where "SSL_write l xs s = (r, s')" "r < 0" "SSL_get_error l r s' \<noteq> SSL_ERROR_WANT_READ"
        "ssl_failed l ''SSL write fail: '' s' con = (s2, con2)" "x = (t\<lparr>ssl := Some s2\<rparr>, con2)"
    | xs r s' b where "SSL_write l xs s = (r, s')" "ssl_write_buffer t = Some b"
        "x = (t\<lparr>ssl := Some s', ssl_write_buffer := Some (skip (nat r) b)\<rparr>, con)"
    using x t by (auto simp: ssl_push_def Let_def split: option.splits if_splits bind_splits prod.splits)
  then show ?thesis
  proof cases
    case 1
    then show ?thesis using quiet_refl[OF t] by simp
  next
    case 2
    then show ?thesis using quiet_session[OF t tls_wireD(1)[OF w(1) 2(1)] sent_on_refl, of I con] only_waitsD(5)[OF w(2) _ 2(1)] by simp
  next
    case 3
    note f = ssl_failed_on[OF 3(4)]
    have "emitted s2 = emitted s" using f tls_wireD(1)[OF w(1) 3(1)] tls_wireD(4)[OF w(1)] by simp
    then show ?thesis using quiet_session[OF t _ conjunct1[OF f]] only_waitsD(5)[OF w(2) _ 3(1)] 3(2,3,5) by auto
  next
    case 4
    then show ?thesis
      using quietI[OF t, of x "Some (skip (nat r) b)" s' "[]" con] tls_wireD(1)[OF w(1) 4(1)] only_waitsD(5)[OF w(2) _ 4(1)]
      by (simp add: sent_on_refl)
  qed
qed

lemma flush_quiet:
  fixes con :: "'a con_core_scheme"
  assumes "tls_wire l accepted emitted" "only_waits l I" "calm con" "flush_bio l s con = Some x"
  shows "\<exists>pieces. snd x = con\<lparr>sent := sent con @ pieces\<rparr> \<and> emitted (fst x) = emitted s @ concat pieces \<and> (I s \<longrightarrow> I (fst x))"
proof -
  let ?P = "\<lambda>l s con x. tls_wire l accepted emitted \<longrightarrow> only_waits l I \<longrightarrow> calm con \<longrightarrow>
    (\<exists>pieces. snd x = con\<lparr>sent := sent con @ pieces\<rparr> \<and> emitted (fst x) = emitted s @ concat pieces \<and> (I s \<longrightarrow> I (fst x)))"
  have step: "?P l s con x"
    if ih: "\<And>l s con x. flush l s con = Some x \<Longrightarrow> ?P l s con x"
      and eq: "(if fst (BIO_read l SSL_BUFFER_SIZE s) = [] then Some (snd (BIO_read l SSL_BUFFER_SIZE s), con)
      else Option.bind (uv_write [fst (BIO_read l SSL_BUFFER_SIZE s)] con) (\<lambda>x.
        flush l (snd (BIO_read l SSL_BUFFER_SIZE s))
          (if fst x < 0 then send_failed ATTACHSQL_RET_NET_WRITE_ERROR (snd x) else snd x))) = Some x"
    for flush l s and con :: "'a con_core_scheme" and x
  proof (intro impI)
    assume w: "tls_wire l accepted emitted" "only_waits l I" and c: "calm con"
    let ?p = "fst (BIO_read l SSL_BUFFER_SIZE s)" and ?s = "snd (BIO_read l SSL_BUFFER_SIZE s)"
    have e: "emitted ?s = emitted s @ ?p" "I s \<longrightarrow> I ?s" using tls_wireD(5)[OF w(1)] only_waitsD(2)[OF w(2)] by auto
    show "\<exists>pieces. snd x = con\<lparr>sent := sent con @ pieces\<rparr> \<and> emitted (fst x) = emitted s @ concat pieces \<and> (I s \<longrightarrow> I (fst x))"
    proof (cases "?p = []")
      case True
      then show ?thesis using eq e by (intro exI[of _ "[]"]) auto
    next
      case False
      let ?con = "con\<lparr>sent := sent con @ [?p]\<rparr>"
      have "flush l ?s ?con = Some x" "calm ?con" using eq False c by (simp_all add: calm_def)
      then obtain pieces where "snd x = ?con\<lparr>sent := sent ?con @ pieces\<rparr>" "emitted (fst x) = emitted ?s @ concat pieces"
        "I ?s \<longrightarrow> I (fst x)"
        using ih w by blast
      then show ?thesis using e by (intro exI[of _ "?p # pieces"]) simp
    qed
  qed
  have "?P l s con x" by (rule flush_bio.raw_induct[where P = ?P, OF step assms(4)])
  then show ?thesis using assms(1-3) by blast
qed

lemma data_check_quiet:
  assumes w: "tls_wire l accepted emitted" "only_waits l I" and t: "ssl t \<noteq> None" "calm con"
    and x: "attachsql_ssl_data_check l t con = Some x"
  shows "quiet emitted I t con x"
proof -
  obtain s0 where s0: "ssl t = Some s0" using t(1) by auto
  obtain t1 con1 s s' con' where p: "ssl_push l t con = Some (t1, con1)" and s: "ssl t1 = Some s"
    and f: "flush_bio l s con1 = Some (s', con')" and x: "x = (t1\<lparr>ssl := Some s'\<rparr>, con')"
    using x by (auto simp: attachsql_ssl_data_check_def split: bind_splits)
  note q = push_quiet[OF w s0 p]
  then have "calm con1" using quiet_calm t(2) by blast
  from flush_quiet[OF w this f] obtain pieces where "con' = con1\<lparr>sent := sent con1 @ pieces\<rparr>"
    "emitted s' = emitted s @ concat pieces" "I s \<longrightarrow> I s'" by auto
  then have "quiet emitted I t1 con1 x"
    using quietI[OF s, of x "ssl_write_buffer t1" s' pieces con1] x by (simp add: sent_onI)
  then show ?thesis using quiet_trans[OF q] by blast
qed

lemma handle_error_quiet:
  assumes w: "tls_wire l accepted emitted" "only_waits l I" and s: "ssl t = Some s" "calm con"
    and e: "I s \<Longrightarrow> SSL_get_error l r s = SSL_ERROR_WANT_READ" and x: "attachsql_ssl_handle_error l r t con = Some x"
  shows "quiet emitted I t con x"
proof (cases "SSL_get_error l r s = SSL_ERROR_WANT_READ")
  case True
  then show ?thesis using data_check_quiet[OF w _ s(2)] s(1) x by (simp add: attachsql_ssl_handle_error_def)
next
  case False
  obtain s2 con2 where f: "ssl_failed l ''SSL read/write fail: '' s con = (s2, con2)" by fastforce
  then have "x = (t\<lparr>ssl := Some s2\<rparr>, con2)" using x s(1) False by (simp add: attachsql_ssl_handle_error_def)
  moreover note f = ssl_failed_on[OF f]
  moreover have "emitted s2 = emitted s" using f tls_wireD(4)[OF w(1)] by simp
  ultimately show ?thesis using quiet_session[OF s(1) _ conjunct1[OF f]] e False by auto
qed

lemma run_quiet:
  assumes w: "tls_wire l accepted emitted" "only_waits l I" and t: "ssl t = Some s" "calm con"
    and x: "attachsql_ssl_run l t con = Some x"
  shows "quiet emitted I t con x"
proof -
  obtain r s1 where r: "(if \<not> SSL_is_init_finished l s then SSL_connect l s
      else let (r, _, s) = SSL_read l SSL_BUFFER_SIZE s in (r, s)) = (r, s1)" by fastforce
  have e: "emitted s1 = emitted s" using r tls_wireD(2)[OF w(1), of s] tls_wireD(3)[OF w(1), of SSL_BUFFER_SIZE s]
    by (auto simp: split_beta split: if_splits)
  have i: "I s1 \<and> (r < 0 \<longrightarrow> SSL_get_error l r s1 = SSL_ERROR_WANT_READ)" if "I s"
    using r only_waitsD(3,4)[OF w(2) that] by (auto split: if_splits prod.splits)
  note q = quiet_session[OF t(1) e sent_on_refl, of I con]
  let ?t = "t\<lparr>ssl := Some s1\<rparr>"
  obtain t2 con2 where e2: "(if r < 0 then attachsql_ssl_handle_error l r ?t con else Some (?t, con)) = Some (t2, con2)"
    and d: "attachsql_ssl_data_check l t2 con2 = Some x"
    using x unfolding attachsql_ssl_run_def t(1) Option.bind.simps unfolding r unfolding Let_def by (auto split: bind_splits)
  have "quiet emitted I t con (t2, con2)"
  proof (cases "r < 0")
    case True
    then have x2: "attachsql_ssl_handle_error l r ?t con = Some (t2, con2)" and t1: "ssl ?t = Some s1" using e2 by simp_all
    show ?thesis
    proof (cases "I s")
      case True
      then have "quiet emitted I ?t con (t2, con2)" using handle_error_quiet[OF w t1 t(2) _ x2] i \<open>r < 0\<close> by blast
      then show ?thesis using quiet_trans q i by blast
    next
      case False
      have "quiet emitted (\<lambda>_. False) ?t con (t2, con2)"
        by (rule handle_error_quiet[OF w(1) _ t1 t(2) _ x2]) (simp_all add: only_waits_def)
      then have "quiet emitted (\<lambda>_. False) t con (t2, con2)"
        using quiet_trans quiet_session[OF t(1) e sent_on_refl, of "\<lambda>_. False" con] by blast
      then show ?thesis using False t(1) by (auto simp: quiet_def)
    qed
  next
    case False
    then show ?thesis using e2 q i by simp
  qed
  then show ?thesis using quiet_trans data_check_quiet[OF w _ _ d] quiet_calm[OF _ t(2)] by blast
qed

text \<open>A first call that fails for good leaves the connection with an error.\<close>

definition refuses :: "'s ssl_library \<Rightarrow> 's \<Rightarrow> bool" where
  "refuses l s \<longleftrightarrow> \<not> SSL_is_init_finished l s \<and> fst (SSL_connect l s) < 0 \<and>
     SSL_get_error l (fst (SSL_connect l s)) (snd (SSL_connect l s)) \<noteq> SSL_ERROR_WANT_READ"

lemma run_refused:
  assumes w: "tls_wire l accepted emitted" and t: "ssl t = Some s" "calm con" "refuses l s"
    and x: "attachsql_ssl_run l t con = Some x"
  shows "con_status (snd x) = ATTACHSQL_CON_STATUS_SSL_ERROR"
proof -
  let ?s = "snd (SSL_connect l s)"
  obtain s2 con2 where f: "ssl_failed l ''SSL read/write fail: '' ?s con = (s2, con2)" by fastforce
  then have "attachsql_ssl_data_check l (t\<lparr>ssl := Some s2\<rparr>) con2 = Some x"
    using x t(1,3) by (simp add: attachsql_ssl_run_def attachsql_ssl_handle_error_def refuses_def Let_def split_beta)
  moreover note f = ssl_failed_on[OF f]
  moreover have "only_waits l (\<lambda>_. False)" "calm con2" using sent_on_calm[OF conjunct1[OF f] t(2)] by (simp_all add: only_waits_def)
  ultimately have "quiet emitted (\<lambda>_. False) (t\<lparr>ssl := Some s2\<rparr>) con2 x" using f by (intro data_check_quiet[OF w]) simp_all
  then show ?thesis using sent_on_stays_broken f by (elim quietE) blast
qed

section \<open>The first packet after encryption has been agreed on\<close>

text \<open>A TLS library with its ghost functions.\<close>

definition tls_good :: "'s ssl_library \<Rightarrow> ('s \<Rightarrow> byte list) \<Rightarrow> ('s \<Rightarrow> byte list) \<Rightarrow> ('s \<Rightarrow> byte list) \<Rightarrow> bool" where
  "tls_good l accepted outgoing emitted \<longleftrightarrow> tls_ok l accepted outgoing \<and> tls_wire l accepted emitted"

lemma run_total:
  assumes l: "tls_good l accepted outgoing emitted" "only_waits l I" and t: "secure_ok t" "calm con"
  shows "\<exists>t' con'. attachsql_ssl_run l t con = Some (t', con') \<and> secure_ok t' \<and>
    stream accepted t' = stream accepted t \<and> quiet emitted I t con (t', con')"
proof -
  obtain s where s: "ssl t = Some s" using t(1) by (auto simp: secure_ok_def)
  obtain t' con' where r: "attachsql_ssl_run l t con = Some (t', con')" "keeps_stream accepted t (t', con')"
    using run_keeps[OF _ t, of l accepted outgoing] l by (auto simp: tls_good_def)
  moreover have "quiet emitted I t con (t', con')"
    using run_quiet[OF _ l(2) s t(2) r(1), of accepted emitted] l(1) by (simp add: tls_good_def)
  ultimately show ?thesis by (auto simp: keeps_stream_def)
qed

lemma no_write_buffer: "ssl_write_buffer t = None \<Longrightarrow> t\<lparr>ssl := x, ssl_write_buffer := None\<rparr> = t\<lparr>ssl := x\<rparr>"
  by (cases t) simp

lemma start_total:
  assumes l: "tls_good l accepted outgoing emitted" "only_waits l I" and s: "ssl t = Some s" "ssl_write_buffer t = None"
    and t: "ssl_enabled t" "\<not> handshake_done t" "calm con"
  shows "\<exists>s' con' pieces. secure_start l t con = Some (t\<lparr>ssl := Some s', handshake_done := True\<rparr>, con') \<and>
    sent_on pieces con con' \<and> accepted s' = accepted s \<and> emitted s' = emitted s @ concat pieces \<and>
    (I s \<longrightarrow> I s' \<and> con_status con' = con_status con) \<and>
    (refuses l (start_handshake l s) \<longrightarrow> con_status con' = ATTACHSQL_CON_STATUS_SSL_ERROR)"
proof -
  let ?t = "t\<lparr>ssl := Some (start_handshake l s)\<rparr>"
  have ok: "secure_ok ?t" using s by (simp add: secure_ok_def)
  obtain t' con' where r: "attachsql_ssl_run l ?t con = Some (t', con')" "stream accepted t' = stream accepted ?t"
    "quiet emitted I ?t con (t', con')"
    using run_total[OF l ok t(3)] by blast
  have w: "tls_wire l accepted emitted" using l(1) by (simp add: tls_good_def)
  note h = tls_wireD(6,7)[OF w, of s]
  have broken: "refuses l (start_handshake l s) \<Longrightarrow> con_status con' = ATTACHSQL_CON_STATUS_SSL_ERROR"
    using run_refused[OF w _ t(3) _ r(1)] by simp
  from r(3) obtain s' pieces where q: "t' = t\<lparr>ssl := Some s'\<rparr>" "sent_on pieces con con'" "emitted s' = emitted s @ concat pieces"
    "I (start_handshake l s) \<longrightarrow> I s' \<and> con_status con' = con_status con"
    using s(2) h(1) by (elim quietE) (simp add: no_write_buffer)
  moreover have "accepted s' = accepted s" using r(2) q(1) s h(2) by (simp add: stream_def held_def)
  ultimately show ?thesis using r(1) s t broken only_waitsD(1)[OF l(2), of s]
    by (intro exI[of _ s'] exI[of _ con'] exI[of _ pieces]) (simp add: secure_start_def)
qed

lemma write_total:
  assumes l: "tls_good l accepted outgoing emitted" "only_waits l I" and t: "secure_ok t" "calm con" "ssl_room (length (concat bufs)) t"
    and s: "ssl t = Some s"
  shows "\<exists>t' con' s' pieces. attachsql_ssl_buffer_write l bufs t con = Some (0, t', con') \<and>
    stream accepted t' = stream accepted t @ concat bufs \<and> ssl t' = Some s' \<and>
    handshake_done t' = handshake_done t \<and> sent_on pieces con con' \<and> emitted s' = emitted s @ concat pieces \<and>
    (I s \<longrightarrow> con_status con' = con_status con)"
proof -
  have ok: "tls_ok l accepted outgoing" using l by (simp add: tls_good_def)
  obtain t' con' where w: "attachsql_ssl_buffer_write l bufs t con = Some (0, t', con')"
    "stream accepted t' = stream accepted t @ concat bufs"
    using buffer_write_keeps[OF ok t] by blast
  have n: "sum_list (map length bufs) = length (concat bufs)" by (simp add: length_concat)
  obtain k b0 where b0: "buffer_prepare (length (concat bufs)) (ssl_write_buffer t) con = Some (k, b0, con)"
    using prepare_room[OF t] by blast
  obtain b where r: "attachsql_ssl_run l (t\<lparr>ssl_write_buffer := Some b\<rparr>) con = Some (t', con')"
    using w(1) unfolding attachsql_ssl_buffer_write_def n b0 Option.bind.simps prod.case
    by (auto split: bind_splits)
  have "quiet emitted I (t\<lparr>ssl_write_buffer := Some b\<rparr>) con (t', con')"
    using run_quiet[OF _ l(2) _ t(2) r, of accepted emitted s] l(1) s by (simp add: tls_good_def)
  then obtain s0 s' wb pieces where q: "ssl (t\<lparr>ssl_write_buffer := Some b\<rparr>) = Some s0"
    "fst (t', con') = t\<lparr>ssl_write_buffer := Some b, ssl := Some s', ssl_write_buffer := wb\<rparr>"
    "sent_on pieces con (snd (t', con'))" "emitted s' = emitted s0 @ concat pieces"
    "I s0 \<longrightarrow> I s' \<and> con_status (snd (t', con')) = con_status con"
    by (rule quietE)
  then have "s0 = s" "ssl t' = Some s'" "handshake_done t' = handshake_done t" "sent_on pieces con con'"
    using s by simp_all
  then show ?thesis using w q by (intro exI[of _ t'] exI[of _ con'] exI[of _ s'] exI[of _ pieces]) simp
qed

text \<open>A packet sent while connecting, when the encryption begins with it.\<close>

lemma sent_on_header:
  "sent_on p con con' \<Longrightarrow>
   sent_on p (con\<lparr>packet_number := n, packet_header := h, command_status := st\<rparr>)
     (con'\<lparr>packet_number := n, packet_header := h, command_status := st\<rparr>)"
  by (cases con) (auto simp: sent_on_def ssl_broken_def)

lemma first_secure_packet:
  assumes l: "tls_good l accepted outgoing emitted" "only_waits l I" and s: "ssl t = Some s" "ssl_write_buffer t = None"
    and t: "ssl_enabled t" "\<not> handshake_done t" "calm con"
    and con: "con_status con = ATTACHSQL_CON_STATUS_CONNECTING" "blk_size (packet_header con) = 4" "length data < 1000"
    and plain: "client_capabilities con AND ATTACHSQL_CAPABILITY_COMPRESS = 0 \<or> I s"
  shows "\<exists>t' con' s' h pieces. secure_send_data l data t con = Some (t', con') \<and>
    sent_on pieces (con\<lparr>packet_number := packet_number con + 1, packet_header := h,
                        command_status := ATTACHSQL_COMMAND_STATUS_READ_RESPONSE\<rparr>) con' \<and>
    ssl t' = Some s' \<and> handshake_done t' \<and> emitted s' = emitted s @ concat pieces \<and>
    stream accepted t' = accepted s @ packet (packet_number con + 1) data \<and>
    (I s \<longrightarrow> con_status con' = ATTACHSQL_CON_STATUS_CONNECTING) \<and>
    (refuses l (start_handshake l s) \<longrightarrow> con_status con' = ATTACHSQL_CON_STATUS_SSL_ERROR)"
proof -
  obtain s1 con1 p1 where 1: "secure_start l t con = Some (t\<lparr>ssl := Some s1, handshake_done := True\<rparr>, con1)"
    "sent_on p1 con con1" "accepted s1 = accepted s" "emitted s1 = emitted s @ concat p1"
    "I s \<longrightarrow> I s1 \<and> con_status con1 = con_status con"
    "refuses l (start_handshake l s) \<longrightarrow> con_status con1 = ATTACHSQL_CON_STATUS_SSL_ERROR"
    using start_total[OF l s t] by blast
  let ?t1 = "t\<lparr>ssl := Some s1, handshake_done := True\<rparr>"
  have same: "packet_header con1 = packet_header con" "packet_number con1 = packet_number con"
    "client_capabilities con1 = client_capabilities con"
    using 1(2) by (auto simp: sent_on_def ssl_broken_def)
  obtain h1 h2 where h: "attachsql_pack_int3 (packet_header con) 0 (of_nat (length data) :: uint64) = Some h1"
    "blk_put h1 3 (packet_number con + 1) = Some h2"
    "blk_read h2 0 4 = Some (le_bytes 3 (of_nat (length data) :: uint64) @ [packet_number con + 1])"
    using header_write[OF con(2)] by blast
  let ?bufs = "[le_bytes 3 (of_nat (length data) :: uint64) @ [packet_number con + 1], data]"
  let ?head = "\<lambda>c. c\<lparr>packet_number := packet_number con + 1, packet_header := h2,
    command_status := ATTACHSQL_COMMAND_STATUS_READ_RESPONSE\<rparr>"
  note head = sent_on_header[OF 1(2), where n = "packet_number con + 1" and h = h2 and st = ATTACHSQL_COMMAND_STATUS_READ_RESPONSE]
  have p: "concat ?bufs = packet (packet_number con + 1) data" by (simp add: packet_def)
  have ok: "secure_ok ?t1" "calm (?head con1)" using s sent_on_calm[OF 1(2) t(3)] by (simp_all add: secure_ok_def calm_def)
  have room: "ssl_room (length (concat ?bufs)) ?t1" using s(2) con(3) by (simp add: ssl_room_def held_def)
  obtain t' con' s' pieces where w: "attachsql_ssl_buffer_write l ?bufs ?t1 (?head con1) = Some (0, t', con')"
    "stream accepted t' = stream accepted ?t1 @ concat ?bufs" "ssl t' = Some s'" "handshake_done t'"
    "sent_on pieces (?head con1) con'" "emitted s' = emitted s1 @ concat pieces"
    "I s1 \<longrightarrow> con_status con' = con_status con1"
    using write_total[OF l ok room, of s1] by auto
  have "stream accepted ?t1 = accepted s" using 1(3) s(2) by (simp add: stream_def held_def)
  moreover have "secure_send_data l data t con = Some (t', con')"
    using 1(1,5) h w(1) con(1) same plain by (auto simp: secure_send_data_def secure_write_packet_def secure_write_def Let_def)
  moreover have "sent_on (p1 @ pieces) (?head con) con'" by (rule sent_on_trans[OF head w(5)])
  moreover have "refuses l (start_handshake l s) \<longrightarrow> con_status con' = ATTACHSQL_CON_STATUS_SSL_ERROR"
    using 1(6) sent_on_stays_broken[OF w(5)] by simp
  moreover have "I s \<longrightarrow> con_status con' = ATTACHSQL_CON_STATUS_CONNECTING" using 1(5) w(7) con(1) by simp
  ultimately show ?thesis using w 1(4) unfolding p
    by (intro exI[of _ t'] exI[of _ con'] exI[of _ s'] exI[of _ h2] exI[of _ "p1 @ pieces"]) simp
qed

section \<open>The two responses\<close>

text \<open>The request to encrypt, the head of the response.\<close>

definition ssl_request :: "uint32 \<Rightarrow> byte list" where
  "ssl_request caps = le_bytes 4 caps @ le_bytes 4 (0x100000 :: uint32) @ [0] @ replicate 23 0"

lemma ssl_request_length [simp]: "length (ssl_request caps) = 32"
  by (simp add: ssl_request_def)

definition secure_capabilities :: "'a con_core_scheme \<Rightarrow> uint32" where
  "secure_capabilities con = capabilities_sent con OR ATTACHSQL_CAPABILITY_SSL"

lemma secure_head_ok:
  assumes "blk_size (write_buffer con) = ATTACHSQL_WRITE_BUFFER_SIZE"
  shows "\<exists>w. secure_response_head con = Some w \<and> writes_at (write_buffer con) 0 (ssl_request (secure_capabilities con)) w"
  using response_head_ok[of "con\<lparr>client_capabilities := client_capabilities con OR ATTACHSQL_CAPABILITY_SSL\<rparr>"] assms
  by (simp add: secure_response_head_def ssl_request_def secure_capabilities_def capabilities_sent_def or.assoc)

lemma clear_packet:
  assumes "\<not> ssl_enabled t" "\<not> handshake_done t" "calm con" "blk_size (packet_header con) = 4"
    and "con_status con = ATTACHSQL_CON_STATUS_CONNECTING"
  shows "\<exists>h. secure_send_data l data t con = Some (t, con\<lparr>packet_number := packet_number con + 1, packet_header := h,
     command_status := ATTACHSQL_COMMAND_STATUS_READ_RESPONSE,
     sent := sent con @ [packet (packet_number con + 1) data]\<rparr>) \<and> blk_size h = 4"
proof -
  obtain h1 h2 where h: "attachsql_pack_int3 (packet_header con) 0 (of_nat (length data) :: uint64) = Some h1"
    "blk_put h1 3 (packet_number con + 1) = Some h2" "blk_size h2 = 4"
    "blk_read h2 0 4 = Some (le_bytes 3 (of_nat (length data) :: uint64) @ [packet_number con + 1])"
    using header_write[OF assms(4)] by blast
  let ?c = "con\<lparr>packet_number := packet_number con + 1, packet_header := h2,
    command_status := ATTACHSQL_COMMAND_STATUS_READ_RESPONSE\<rparr>"
  have "calm ?c" using assms(3) by (simp add: calm_def)
  then have "secure_send_data l data t con = Some (t, ?c\<lparr>sent := sent con @ [packet (packet_number con + 1) data]\<rparr>)"
    using h assms(1,2,5)
    by (simp add: secure_send_data_def secure_start_def secure_write_packet_def secure_write_def Let_def packet_def)
  then show ?thesis using h(3) by auto
qed

text \<open>A type pushed and popped again.\<close>

lemma push_and_pop:
  assumes "calm con" "queue_ok con" "expected con = []"
  shows "\<exists>con1 con2 q n u. queue_push t con = Some con1 \<and> expected con1 = [t] \<and> queue_ok con1 \<and>
    attachsql_packet_queue_pop con1 = Some (t, con2) \<and> queue_ok con2 \<and> expected con2 = [] \<and> write_buffer con1 = write_buffer con \<and>
    secure_capabilities con1 = secure_capabilities con \<and>
    con2 = con\<lparr>next_packet_queue := q, next_packet_queue_size := n, next_packet_queue_used := u\<rparr>"
proof -
  have "next_packet_queue_used con = 0"
    using expected_top[OF assms(2)] assms(3) by fastforce
  then have room: "queue_room con" using assms(1) by (simp add: queue_room_def)
  obtain con1 where 1: "queue_push t con = Some con1" "queue_ok con1" "expected con1 = [t]"
    using queue_push_ok[OF assms(2) room, of t] assms(3) by auto
  obtain con2 where 2: "attachsql_packet_queue_pop con1 = Some (t, con2)" "queue_ok con2" "expected con2 = []"
    using queue_pop_ok[OF 1(2)] 1(3) by auto
  obtain q n u as where c1: "con1 = con\<lparr>next_packet_queue := q, next_packet_queue_size := n, next_packet_queue_used := u, allocs := as\<rparr>"
    using queue_push_only[OF 1(1)] by (auto simp: queue_only_def)
  have "as = []" using queue_push_allocs[OF 1(1)] assms(1) c1 by (simp add: calm_def)
  then have "con1 = con\<lparr>next_packet_queue := q, next_packet_queue_size := n, next_packet_queue_used := u\<rparr>"
    using c1 assms(1) by (cases con) (simp add: calm_def)
  then have "\<exists>u. con2 = con\<lparr>next_packet_queue := q, next_packet_queue_size := n, next_packet_queue_used := u\<rparr>"
    using 2(1) by (auto simp: attachsql_packet_queue_pop_def Let_def split: if_splits bind_splits)
  moreover have "write_buffer con1 = write_buffer con" "secure_capabilities con1 = secure_capabilities con"
    using c1 by (simp_all add: secure_capabilities_def capabilities_sent_def)
  ultimately show ?thesis using 1 2 by blast
qed

text \<open>The response behind the request, which begins the encryption.\<close>

lemma response_encrypted:
  assumes l: "tls_good l accepted outgoing emitted" "only_waits l I" and s: "ssl t = Some s" "ssl_write_buffer t = None"
    and t: "ssl_enabled t" "\<not> handshake_done t" and c: "connecting user pass con" "expected con = []"
    and sc: "blk_read (scramble_buffer con) 0 20 = Some scramble" "pass \<noteq> [] \<Longrightarrow> scramble ! 0 \<noteq> 0"
    and w0: "writes_at (write_buffer con) 0 (ssl_request caps) w0"
    and plain: "client_capabilities con AND ATTACHSQL_CAPABILITY_COMPRESS = 0 \<or> I s"
  shows "\<exists>t' s' con' pieces. secure_response_end l w0 t con = Some (t', con') \<and> ssl t' = Some s' \<and> handshake_done t' \<and>
    sent con' = sent con @ pieces \<and> emitted s' = emitted s @ concat pieces \<and>
    stream accepted t' = accepted s @ packet (packet_number con + 1)
      (response_payload caps user (auth_of pass scramble) (schema_bytes con)) \<and>
    expected con' = [ATTACHSQL_PACKET_TYPE_RESPONSE] \<and>
    con_status con' \<in> {ATTACHSQL_CON_STATUS_CONNECTING, ATTACHSQL_CON_STATUS_SSL_ERROR} \<and>
    (I s \<longrightarrow> con_status con' = ATTACHSQL_CON_STATUS_CONNECTING) \<and>
    (refuses l (start_handshake l s) \<longrightarrow> con_status con' = ATTACHSQL_CON_STATUS_SSL_ERROR)"
proof -
  let ?pay = "response_payload caps user (auth_of pass scramble) (schema_bytes con)"
  have q: "calm con" "queue_ok con" and st: "con_status con = ATTACHSQL_CON_STATUS_CONNECTING"
    and h: "blk_size (packet_header con) = 4" and u: "length user \<le> 16" "length (schema_bytes con) \<le> 64"
    using c(1) by (simp_all add: connecting_def)
  obtain w where w: "response_rest w0 con = Some (Some ?pay, w)"
    using response_rest_ok[OF _ _ _ _ _ _ w0 _ sc, of user] c(1)
    by (auto simp: connecting_def response_payload_def ssl_request_def)
  let ?c1 = "con\<lparr>write_buffer := w\<rparr>"
  have len: "length ?pay < 1000" using u by (simp add: response_payload_def auth_of_def password_token_length)
  have c1: "calm ?c1" "con_status ?c1 = ATTACHSQL_CON_STATUS_CONNECTING" "blk_size (packet_header ?c1) = 4"
    "client_capabilities ?c1 AND ATTACHSQL_CAPABILITY_COMPRESS = 0 \<or> I s"
    using q(1) st h plain by (simp_all add: calm_def)
  obtain t' con2 s' h' pieces where x: "secure_send_data l ?pay t ?c1 = Some (t', con2)"
    "sent_on pieces (?c1\<lparr>packet_number := packet_number ?c1 + 1, packet_header := h',
       command_status := ATTACHSQL_COMMAND_STATUS_READ_RESPONSE\<rparr>) con2"
    "ssl t' = Some s'" "handshake_done t'" "emitted s' = emitted s @ concat pieces"
    "stream accepted t' = accepted s @ packet (packet_number ?c1 + 1) ?pay"
    "I s \<longrightarrow> con_status con2 = ATTACHSQL_CON_STATUS_CONNECTING"
    "refuses l (start_handshake l s) \<longrightarrow> con_status con2 = ATTACHSQL_CON_STATUS_SSL_ERROR"
    using first_secure_packet[OF l s t c1(1-3) len c1(4)] by blast
  have "next_packet_queue_used con = 0" using expected_top[OF q(2)] c(2) by fastforce
  then have f: "queue_fields con2 = queue_fields con" "sent con2 = sent con @ pieces"
    "con_status con2 \<in> {ATTACHSQL_CON_STATUS_CONNECTING, ATTACHSQL_CON_STATUS_SSL_ERROR}"
    using x(2) st by (auto simp: sent_on_def ssl_broken_def queue_fields_def)
  have "calm con2" using sent_on_calm[OF x(2)] q(1) by (simp add: calm_def)
  then have "calm con2" "queue_ok con2" "expected con2 = []"
    using q c(2) queue_frame(1,2)[OF f(1)] by simp_all
  then obtain con' where p: "queue_push ATTACHSQL_PACKET_TYPE_RESPONSE con2 = Some con'" "expected con' = [ATTACHSQL_PACKET_TYPE_RESPONSE]"
    using push_and_pop[of con2 ATTACHSQL_PACKET_TYPE_RESPONSE] by blast
  have "secure_response_end l w0 t con = Some (t', con')"
    using w x(1) p(1) by (simp add: secure_response_end_def)
  then show ?thesis using x(3-8) p(2) f(2,3) queue_push_frame[OF p(1)]
    by (intro exI[of _ t'] exI[of _ s'] exI[of _ con'] exI[of _ pieces]) simp
qed

section \<open>Properties\<close>

text \<open>
  C9. A connection with an \<open>SSL\<close> object answers the greeting of a server that can encrypt with one
  packet in the clear, the head of the response with the capability set, which names no user.
  Whatever the TLS library then does, failing included, all that is sent after that is output of the library, byte for byte,
  and what the library takes and what still waits for it are exactly the next packet, the whole response
  with the user and the token. The connection goes on connecting as long as the library at worst has to wait; when
  it refuses the handshake for good, the connection has the status of an SSL error. A connection for which
  compression has been agreed on is covered only for a library that does not fail: after a failure
  the code sends the response as a compressed packet.
\<close>

theorem login_encrypted:
  assumes "tls_good l accepted outgoing emitted" "only_waits l I" "ssl t = Some s" "ssl_write_buffer t = None"
    and "\<not> ssl_enabled t" "\<not> handshake_done t" "connecting user pass con" "expected con = []"
    and "server_capabilities con AND ATTACHSQL_CAPABILITY_SSL \<noteq> 0"
    and "client_capabilities con AND ATTACHSQL_CAPABILITY_COMPRESS = 0 \<or> I s"
    and "blk_read (scramble_buffer con) 0 20 = Some scramble" "pass \<noteq> [] \<Longrightarrow> scramble ! 0 \<noteq> 0"
  shows "\<exists>t' s' con' pieces. secure_handshake_response l t con = Some (t', con') \<and>
    sent con' = sent con @ [packet (packet_number con + 1) (ssl_request (secure_capabilities con))] @ pieces \<and>
    ssl t' = Some s' \<and> handshake_done t' \<and> emitted s' = emitted s @ concat pieces \<and>
    stream accepted t' = accepted s @ packet (packet_number con + 2)
      (response_payload (secure_capabilities con) user (auth_of pass scramble) (schema_bytes con)) \<and>
    expected con' = [ATTACHSQL_PACKET_TYPE_RESPONSE] \<and>
    con_status con' \<in> {ATTACHSQL_CON_STATUS_CONNECTING, ATTACHSQL_CON_STATUS_SSL_ERROR} \<and>
    (I s \<longrightarrow> con_status con' = ATTACHSQL_CON_STATUS_CONNECTING) \<and>
    (refuses l (start_handshake l s) \<longrightarrow> con_status con' = ATTACHSQL_CON_STATUS_SSL_ERROR)"
proof -
  let ?req = "ssl_request (secure_capabilities con)" and ?n = "packet_number con + 1"
  note c = assms(7)[unfolded connecting_def]
  have sz: "blk_size (write_buffer con) = ATTACHSQL_WRITE_BUFFER_SIZE" using c by simp
  obtain w where w: "secure_response_head con = Some w" "writes_at (write_buffer con) 0 ?req w"
    using secure_head_ok[OF sz] by blast
  have r: "blk_read w 0 32 = Some ?req" using blk_read_has[OF writes_at_has[OF w(2)], of 32] by simp
  let ?c1 = "con\<lparr>write_buffer := w\<rparr>"
  have c1: "calm ?c1" "blk_size (packet_header ?c1) = 4" "con_status ?c1 = ATTACHSQL_CON_STATUS_CONNECTING"
    using c by (simp_all add: calm_def)
  obtain h where h: "secure_send_data l ?req t ?c1 = Some (t, ?c1\<lparr>packet_number := ?n, packet_header := h,
      command_status := ATTACHSQL_COMMAND_STATUS_READ_RESPONSE, sent := sent con @ [packet ?n ?req]\<rparr>)" "blk_size h = 4"
    using clear_packet[OF assms(5,6) c1, of l ?req] by auto
  let ?c2 = "?c1\<lparr>packet_number := ?n, packet_header := h,
      command_status := ATTACHSQL_COMMAND_STATUS_READ_RESPONSE, sent := sent con @ [packet ?n ?req]\<rparr>"
  have f: "queue_fields ?c2 = queue_fields con" by (simp add: queue_fields_def)
  have c2: "calm ?c2" "queue_ok ?c2" "expected ?c2 = []"
    using c assms(8) queue_frame(1,2)[OF f] by (simp_all add: calm_def)
  obtain con1 con2 q n u where p: "queue_push ATTACHSQL_PACKET_TYPE_HANDSHAKE_SSL ?c2 = Some con1"
    "expected con1 = [ATTACHSQL_PACKET_TYPE_HANDSHAKE_SSL]" "queue_ok con1"
    "attachsql_packet_queue_pop con1 = Some (ATTACHSQL_PACKET_TYPE_HANDSHAKE_SSL, con2)" "queue_ok con2" "expected con2 = []"
    and v: "write_buffer con1 = write_buffer ?c2" "secure_capabilities con1 = secure_capabilities ?c2"
    and con2: "con2 = ?c2\<lparr>next_packet_queue := q, next_packet_queue_size := n, next_packet_queue_used := u\<rparr>"
    using push_and_pop[OF c2, of ATTACHSQL_PACKET_TYPE_HANDSHAKE_SSL] by blast
  have v: "write_buffer con1 = w" "secure_capabilities con1 = secure_capabilities con"
    using v by (simp_all add: secure_capabilities_def capabilities_sent_def)
  have peek: "attachsql_packet_queue_peek con = Some ATTACHSQL_PACKET_TYPE_NONE"
    "attachsql_packet_queue_peek con1 = Some ATTACHSQL_PACKET_TYPE_HANDSHAKE_SSL"
    using queue_peek_ok[of con] queue_peek_ok[OF p(3)] c assms(8) p(2) by simp_all
  have size_w: "blk_size w = ATTACHSQL_WRITE_BUFFER_SIZE" using writes_at_size[OF w(2)] sz by simp
  then obtain w1 where w1: "secure_response_head con1 = Some w1" "writes_at w 0 ?req w1"
    using secure_head_ok[of con1] v by auto
  have room: "queue_room con2"
    using p(5,6) expected_top[OF p(5)] con2 c2(1) by (fastforce simp: queue_room_def calm_def)
  have c3: "connecting user pass con2" "blk_read (scramble_buffer con2) 0 20 = Some scramble"
    "schema_bytes con2 = schema_bytes con" "packet_number con2 = ?n" "sent con2 = sent con @ [packet ?n ?req]"
    "client_capabilities con2 AND ATTACHSQL_CAPABILITY_COMPRESS = 0 \<or> I s"
    using c assms(10,11) h(2) size_w p(5) room unfolding con2 connecting_def by (simp_all add: calm_def schema_bytes_def)
  let ?t = "t\<lparr>ssl_enabled := True\<rparr>"
  have t: "ssl ?t = Some s" "ssl_write_buffer ?t = None" "ssl_enabled ?t" "\<not> handshake_done ?t" using assms(3,4,6) by simp_all
  have w2: "writes_at (write_buffer con2) 0 ?req w1" using w1(2) con2 by simp
  obtain t' s' con' pieces where e: "secure_response_end l w1 ?t con2 = Some (t', con')" "ssl t' = Some s'" "handshake_done t'"
    "sent con' = sent con2 @ pieces" "emitted s' = emitted s @ concat pieces"
    "stream accepted t' = accepted s @ packet (packet_number con2 + 1)
      (response_payload (secure_capabilities con) user (auth_of pass scramble) (schema_bytes con2))"
    "expected con' = [ATTACHSQL_PACKET_TYPE_RESPONSE]"
    "con_status con' \<in> {ATTACHSQL_CON_STATUS_CONNECTING, ATTACHSQL_CON_STATUS_SSL_ERROR}"
    "I s \<longrightarrow> con_status con' = ATTACHSQL_CON_STATUS_CONNECTING"
    "refuses l (start_handshake l s) \<longrightarrow> con_status con' = ATTACHSQL_CON_STATUS_SSL_ERROR"
    using response_encrypted[OF assms(1,2) t c3(1) p(6) c3(2) assms(12) w2 c3(6)] by blast
  have "secure_response_again l t con1 = Some (t', con')" using w1(1) p(4) e(1) by (simp add: secure_response_again_def)
  moreover have "server_capabilities con1 = server_capabilities con" using queue_push_frame[OF p(1)] by simp
  ultimately have "secure_handshake_response l t con = Some (t', con')"
    using assms(3,9) peek w(1) r h(1) p(1) by (simp add: secure_handshake_response_def)
  then show ?thesis using e c3
    by (intro exI[of _ t'] exI[of _ s'] exI[of _ con'] exI[of _ pieces]) (simp add: add.assoc)
qed

text \<open>
  A library in the middle of its handshake: each \<open>SSL_connect\<close> has a byte for the server and waits, and no data
  is taken; and one that reports a failure of the protocol, \<open>SSL_ERROR_SSL\<close>, instead.
\<close>

definition handshaking :: "int \<Rightarrow> (byte list \<times> byte list \<times> byte list) ssl_library" where
  "handshaking code = sample_tls\<lparr>SSL_is_init_finished := (\<lambda>_. False), SSL_connect := (\<lambda>(a, out, e). (- 1, a, out @ [0x16], e)),
     SSL_write := (\<lambda>_ s. (- 1, s)), SSL_get_error := (\<lambda>_ _. code)\<rparr>"

lemma handshaking_good: "tls_good (handshaking code) fst (fst \<circ> snd) (snd \<circ> snd)"
  by (auto simp: tls_good_def tls_ok_def tls_wire_def handshaking_def sample_tls_def)

definition secure_con :: con_core where
  "secure_con = (greeted [])\<lparr>server_capabilities := ATTACHSQL_CAPABILITY_SSL, scramble_buffer := blk_of (replicate 20 0x42)\<rparr>"

theorem login_encrypted_witness:
  "\<exists>t1 con1 t2 con2 pieces.
     secure_handshake_response (handshaking 2) (ssl_init\<lparr>ssl := Some ([], [], [])\<rparr>) secure_con = Some (t1, con1) \<and>
     sent con1 = packet 1 (ssl_request (ATTACHSQL_CAPABILITY_SSL OR ATTACHSQL_CAPABILITY_MULTI_RESULTS OR
       client_capabilities secure_con)) # pieces \<and>
     stream fst t1 = packet 2 (response_payload (ATTACHSQL_CAPABILITY_SSL OR ATTACHSQL_CAPABILITY_MULTI_RESULTS OR
       client_capabilities secure_con) (str ''root'') (20 # password_token (str ''secret'') (replicate 20 0x42)) []) \<and>
     con_status con1 = ATTACHSQL_CON_STATUS_CONNECTING \<and>
     secure_handshake_response (handshaking 1) (ssl_init\<lparr>ssl := Some ([], [], [])\<rparr>) secure_con = Some (t2, con2) \<and>
     con_status con2 = ATTACHSQL_CON_STATUS_SSL_ERROR"
proof -
  let ?t = "ssl_init\<lparr>ssl := Some ([], [], [])\<rparr> :: (byte list \<times> byte list \<times> byte list) ssl_t"
  have waits: "only_waits (handshaking 2) (\<lambda>_. True)" "only_waits (handshaking 1) (\<lambda>_. False)"
    by (auto simp: only_waits_def handshaking_def sample_tls_def)
  have refused: "refuses (handshaking 1) (start_handshake (handshaking 1) ([], [], []))"
    by (simp add: refuses_def handshaking_def sample_tls_def)
  have t: "ssl ?t = Some ([], [], [])" "ssl_write_buffer ?t = None" "\<not> ssl_enabled ?t" "\<not> handshake_done ?t"
    by (simp_all add: ssl_init_def)
  have c: "connecting (str ''root'') (str ''secret'') secure_con" "expected secure_con = []"
    using greeted_ok[of "[]"] queue_frame(2)[of secure_con "greeted []"]
    by (simp_all add: connecting_def secure_con_def calm_def queue_fields_def queue_room_def alloc_def
        schema_bytes_def expected_def greeted_def core_init_def)
  have cap: "server_capabilities secure_con AND ATTACHSQL_CAPABILITY_SSL \<noteq> 0" by (simp add: secure_con_def)
  have plain: "client_capabilities secure_con AND ATTACHSQL_CAPABILITY_COMPRESS = 0 \<or> I ([], [], [])" for I
    by (simp add: secure_con_def greeted_def core_init_def)
  have sc: "blk_read (scramble_buffer secure_con) 0 20 = Some (replicate 20 0x42)"
    using blk_read_has[OF blk_of_has[of "replicate 20 0x42"], of 20] by (simp add: secure_con_def)
  have k: "secure_capabilities secure_con =
    ATTACHSQL_CAPABILITY_SSL OR ATTACHSQL_CAPABILITY_MULTI_RESULTS OR client_capabilities secure_con"
    by (simp add: secure_capabilities_def capabilities_sent_def secure_con_def greeted_def core_init_def
        ATTACHSQL_CAPABILITY_CLIENT_def)
  have n: "packet_number secure_con = 0" "sent secure_con = []" "schema_bytes secure_con = []"
    by (simp_all add: secure_con_def greeted_def core_init_def schema_bytes_def)
  show ?thesis
    using login_encrypted[OF handshaking_good waits(1) t c cap plain sc]
      login_encrypted[OF handshaking_good waits(2) t c cap plain sc] refused
    unfolding k n by (fastforce simp: auth_of_def str_def)
qed

end
