(* ===== verification/Query_Send.thy ===== *)
theory Query_Send
  imports Execute Query
begin

text \<open>
  What \<open>attachsql_query\<close> sends for a statement with parameters, and what the server makes of it in a
  quoting mode the library does not know of.
\<close>

section \<open>The command\<close>

definition quoting_mode :: "'a con_core_scheme \<Rightarrow> bool" where
  "quoting_mode con \<longleftrightarrow> server_status con AND ATTACHSQL_SERVER_STATUS_NO_BACKSLASH_ESCAPES \<noteq> 0"

text \<open>A connection that can send a query.\<close>

definition query_ready :: "attachsql_connect_t \<Rightarrow> bool" where
  "query_ready con \<longleftrightarrow> con_status con \<noteq> ATTACHSQL_CON_STATUS_NOT_CONNECTED \<and> \<not> in_query con \<and> calm con \<and>
     buffers_ok con \<and> extra_bytes con [] \<and> queue_ok con \<and> queue_room con \<and>
     client_capabilities con AND ATTACHSQL_CAPABILITY_COMPRESS = 0"

lemma query_sends:
  assumes ready: "query_ready con" and ps: "\<forall>p \<in> set ps. param_ok p" "unat count = length ps" "ps \<noteq> []"
    and st: "len \<le> length statement" "questions (take len statement) \<le> length ps"
  shows "\<exists>con'. attachsql_query (Some con) len statement count ps error = Some (True, error, Some con') \<and>
    sent con' = sent con @ [packet 0 (command_code ATTACHSQL_COMMAND_QUERY # query_of (quoting_mode con) (take len statement) ps)] \<and>
    expected con' = ATTACHSQL_PACKET_TYPE_RESPONSE # expected con \<and> con_status con' = ATTACHSQL_CON_STATUS_BUSY"
proof -
  let ?q = "query_of (quoting_mode con) (take len statement) ps"
  have r: "calm con" "buffers_ok con" "extra_bytes con []" "queue_ok con" "queue_room con"
    "client_capabilities con AND ATTACHSQL_CAPABILITY_COMPRESS = 0" "con_status con \<noteq> ATTACHSQL_CON_STATUS_NOT_CONNECTED" "\<not> in_query con"
    using ready by (simp_all add: query_ready_def)
  have "length ps < 2 ^ 16" using ps(2) unsigned_less[of count, where 'a = nat] by simp
  from query_text_ok[OF ps(1) this st, of "quoting_mode con"] obtain b where
    b: "query_text (quoting_mode con) statement len ps (length ps) = Some (b, length ?q)" "blk_has b 0 ?q" by blast
  have c0: "count \<noteq> 0" using ps(2,3) by auto
  let ?c = "con\<lparr>in_query := True, query_buffer := Some b, query_buffer_length := length ?q, query_buffer_alloc := True,
      query_buffer_statement := False\<rparr>"
  have calm: "calm (con\<lparr>in_query := True\<rparr>)" using r(1) by (simp add: calm_def)
  have f: "calm ?c" "buffers_ok ?c" "extra_bytes ?c []" "queue_ok ?c" "queue_room ?c" "expected ?c = expected con"
    using r queue_frame[of ?c con] by (simp_all add: calm_def buffers_ok_def extra_bytes_def queue_fields_def queue_room_def alloc_def)
  obtain con' where s: "attachsql_command_send ATTACHSQL_COMMAND_QUERY ?q ?c = Some (ATTACHSQL_COMMAND_STATUS_SEND, con')"
    "sent con' = sent ?c @ [packet 0 (command_code ATTACHSQL_COMMAND_QUERY # [] @ ?q)]"
    "con_status con' = ATTACHSQL_CON_STATUS_BUSY" "expected con' = response_of ATTACHSQL_COMMAND_QUERY @ expected ?c"
    using command_send_plain[of ?c "[]" ATTACHSQL_COMMAND_QUERY ?q] f r(6) by auto
  have "attachsql_query (Some con) len statement count ps error = send_query ?q error ?c"
    using r(7,8) b c0 calm blk_read_has[OF b(2) refl]
    by (simp add: attachsql_query_def ps(2) Let_def quoting_mode_def)
  then show ?thesis using s f(6) by (simp add: send_query_def response_of_def)
qed

section \<open>The wrong quoting mode\<close>

lemma query_of_last:
  "questions before = 0 \<Longrightarrow> questions after = 0 \<Longrightarrow>
   query_of nb (before @ 0x3F # after) [p] = before @ param_text nb p @ query_of nb after []"
  by (induction before) (auto simp: questions_def)

lemma query_of_none: "questions after = 0 \<Longrightarrow> query_of nb after [] = after"
  by (induction after) (auto simp: questions_def)

lemma esc1_quote: "esc1 0x27 = [0x5C, 0x27]"
  by (simp add: esc1_def escape_newchar_def)

lemma esc1_no_quote: "hd (esc1 c) \<noteq> 0x27 \<and> esc1 c \<noteq> []"
  by (auto simp: esc1_def escape_newchar_def)

lemma escaped_in_other_mode:
  assumes "evil \<noteq> []"
  shows "lex_literal True (escaped False (0x27 # evil) @ rest) = Some ([0x5C], escaped False evil @ rest)"
proof -
  obtain c cs where e: "evil = c # cs" using assms by (cases evil) auto
  obtain d ds where d: "esc1 c = d # ds" "d \<noteq> 0x27" using esc1_no_quote[of c] by (cases "esc1 c") auto
  then show ?thesis by (simp add: e esc1_quote)
qed

section \<open>Properties\<close>

text \<open>
  \<open>attachsql_query\<close> with a parameter for each question mark sends one packet, the query command with
  the statement and its parameters quoted for the mode of the last status the server has sent, and
  waits for one answer.
\<close>

theorem query_sent:
  assumes "query_ready con" "\<forall>p \<in> set ps. param_ok p" "unat count = length ps" "ps \<noteq> []"
    and "len \<le> length statement" "questions (take len statement) \<le> length ps"
  shows "\<exists>con'. attachsql_query (Some con) len statement count ps error = Some (True, error, Some con') \<and>
    sent con' = sent con @ [packet 0 (command_code ATTACHSQL_COMMAND_QUERY # query_of (quoting_mode con) (take len statement) ps)] \<and>
    expected con' = ATTACHSQL_PACKET_TYPE_RESPONSE # expected con \<and> con_status con' = ATTACHSQL_CON_STATUS_BUSY"
  using assms by (rule query_sends)

text \<open>
  C34. The status of the server is 0 before the first answer and after an error, whatever its mode. A
  server that does not take a backslash for an escape then sees the literal of a parameter that begins
  with a quote end after the backslash: the rest of the parameter is read as SQL.
\<close>

theorem query_quoted_for_other_mode:
  assumes "query_ready con" "server_status con = 0" "q_type p = ATTACHSQL_ESCAPE_TYPE_CHAR" "q_length p = length (q_data p)"
    and "q_data p = 0x27 # evil" "evil \<noteq> []" "questions before = 0" "questions after = 0"
  shows "\<exists>con' lit. attachsql_query (Some con) (length (before @ 0x3F # after)) (before @ 0x3F # after) 1 [p] error =
      Some (True, error, Some con') \<and>
    sent con' = sent con @ [packet 0 (command_code ATTACHSQL_COMMAND_QUERY # before @ 0x27 # lit)] \<and>
    lex_literal True lit = Some ([0x5C], escaped False evil @ 0x27 # after)"
proof -
  let ?st = "before @ 0x3F # after" and ?lit = "escaped False (0x27 # evil) @ 0x27 # after"
  have ok: "\<forall>p' \<in> set [p]. param_ok p'" using assms(3,4) by (simp add: param_ok_def)
  have n: "questions (take (length ?st) ?st) \<le> length [p]" using assms(7,8) by (simp add: questions_def)
  have nb: "quoting_mode con = False" using assms(2) by (simp add: quoting_mode_def)
  have "query_of False ?st [p] = before @ 0x27 # ?lit"
    using query_of_last[OF assms(7,8)] query_of_none[OF assms(8)] assms(3-5) by (simp add: param_text_def)
  then show ?thesis
    using query_sends[OF assms(1) ok, of 1 "length ?st" ?st error] n escaped_in_other_mode[OF assms(6), of "0x27 # after"]
    by (auto simp: nb)
qed

definition query_con :: attachsql_connect_t where
  "query_con = (stmt_con 0)\<lparr>con_status := ATTACHSQL_CON_STATUS_IDLE\<rparr>"

lemma query_con_ready: "query_ready query_con" "sent query_con = []" "server_status query_con = 0"
proof -
  have "\<not> in_query (stmt_con 0)" "server_status (stmt_con 0) = 0"
    by (simp_all add: stmt_con_def connect_init_def con_core.defs core_init_def)
  moreover have "queue_ok query_con = queue_ok (stmt_con 0)"
    by (rule queue_frame(2)) (simp add: query_con_def queue_fields_def)
  ultimately show "query_ready query_con" "sent query_con = []" "server_status query_con = 0"
    using stmt_con_ready[of 0]
    by (simp_all add: query_ready_def query_con_def calm_def buffers_ok_def extra_bytes_def queue_room_def alloc_def)
qed

theorem query_sent_witness:
  "\<exists>con'. attachsql_query (Some query_con) 5 [0x28, 0x3F, 0x2C, 0x3F, 0x29] 2 sample_params None = Some (True, None, Some con') \<and>
     sent con' = [packet 0 [0x03, 0x28, 0x27, 0x61, 0x5C, 0x27, 0x5C, 0x6E, 0x27, 0x2C, 0x2D, 0x37, 0x29]]"
proof -
  let ?st = "[0x28, 0x3F, 0x2C, 0x3F, 0x29] :: byte list"
  have q: "query_of False (take 5 ?st) sample_params = [0x28, 0x27, 0x61, 0x5C, 0x27, 0x5C, 0x6E, 0x27, 0x2C, 0x2D, 0x37, 0x29]"
    by (simp add: sample_params_def param_text_def esc1_def escape_newchar_def dec_int_def dec_digits.simps Let_def)
  have ok: "\<forall>p \<in> set sample_params. param_ok p" by (simp add: sample_params_def param_ok_def)
  have n: "questions (take 5 ?st) \<le> length sample_params" by (simp add: questions_def sample_length)
  have nb: "quoting_mode query_con = False" using query_con_ready(3) by (simp add: quoting_mode_def)
  have c: "unat (2 :: uint16) = length sample_params" "sample_params \<noteq> []" by (simp_all add: sample_length) (simp add: sample_params_def)
  from query_sent[OF query_con_ready(1) ok c _ n, of None] show ?thesis
    unfolding nb q using query_con_ready(2) by auto
qed

theorem query_quoted_for_other_mode_witness:
  "\<exists>con' lit. attachsql_query (Some query_con) 1 [0x3F] 1
      [\<lparr>q_type = ATTACHSQL_ESCAPE_TYPE_CHAR, q_data = [0x27, 0x4F, 0x52], q_length = 3, q_is_unsigned = False\<rparr>] None =
        Some (True, None, Some con') \<and>
     sent con' = [packet 0 (0x03 # 0x27 # lit)] \<and> lex_literal True lit = Some ([0x5C], [0x4F, 0x52, 0x27])"
proof -
  let ?p = "\<lparr>q_type = ATTACHSQL_ESCAPE_TYPE_CHAR, q_data = [0x27, 0x4F, 0x52], q_length = 3, q_is_unsigned = False\<rparr>"
  have "escaped False [0x4F, 0x52] = [0x4F, 0x52]" by (simp add: esc1_def escape_newchar_def)
  then show ?thesis
    using query_quoted_for_other_mode[OF query_con_ready(1,3), of ?p "[0x4F, 0x52]" "[]" "[]" None] query_con_ready(2)
    by (simp add: questions_def)
qed

end
