(* ===== verification/Session.thy ===== *)
theory Session
  imports Query_Send Result_Set Fragments
begin

text \<open>
  A whole query, from the command to a connection that is ready for the next one: sent, its answer
  received in a run of the event loop, polled, its rows fetched, polled to the end and closed.
\<close>

section \<open>Ready, and asked\<close>

definition session_idle :: "attachsql_connect_t \<Rightarrow> bool" where
  "session_idle con \<longleftrightarrow> query_ready con \<and> con_status con = ATTACHSQL_CON_STATUS_IDLE \<and> expects_none con \<and> unread con [] \<and>
     con_pool con = None \<and> \<not> opt_compression con \<and> \<not> stream_closed con \<and> con_row con = None \<and> row_buffer_alloc_size con = 0"

definition session_ready :: "attachsql_connect_t \<Rightarrow> bool" where
  "session_ready con \<longleftrightarrow> session_idle con \<and> \<not> buffer_rows con"

lemma idle_frame:
  assumes "session_idle con" "queue_fields con' = queue_fields con" "allocs con' = allocs con" "writer con' = writer con"
    "con_status con' = con_status con" "read_buffer con' = read_buffer con" "opt_compression con' = opt_compression con"
    "in_query con' = in_query con" "con_pool con' = con_pool con" "con_row con' = con_row con"
    "row_buffer_alloc_size con' = row_buffer_alloc_size con"
  shows "session_idle con'"
proof -
  have "fst (alloc con') = fst (alloc con)" using assms(3) by (simp add: alloc_def split: list.split)
  then have "expects_none con' = expects_none con" "queue_ok con' = queue_ok con" "queue_room con' = queue_room con"
    using queue_frame[OF assms(2)] expects_none_frame[OF assms(2,3)] assms(2)
    by (simp_all add: queue_room_def queue_fields_def)
  then show ?thesis using assms
    by (simp add: session_idle_def query_ready_def unread_def calm_def buffers_ok_def extra_bytes_def writer_def)
qed

text \<open>The rows kept by the client.\<close>

definition row_view :: "attachsql_connect_t \<Rightarrow> bool \<times> rows_ptr \<times> nat \<times> nat \<times> nat" where
  "row_view con = (buffer_rows con, row_buffer con, row_buffer_alloc_size con, row_buffer_count con, row_buffer_position con)"

lemma client_row_view: "client_view con' = client_view con \<Longrightarrow> row_view con' = row_view con"
  by (simp add: client_view_def row_view_def)

text \<open>The command is out, its answer is expected and nothing of it has been received.\<close>

definition asked_by :: "attachsql_command_t \<Rightarrow> attachsql_connect_t \<Rightarrow> byte list \<Rightarrow> attachsql_connect_t \<Rightarrow> bool" where
  "asked_by cmd con sql con' \<longleftrightarrow>
     sent con' = sent con @ [packet 0 (command_code cmd # sql)] \<and>
     expects (hd (response_of cmd)) con' \<and> packet_number con' = 0 \<and> con_status con' = ATTACHSQL_CON_STATUS_BUSY \<and>
     calm con' \<and> buffers_ok con' \<and> extra_bytes con' [] \<and> read_buffer con' = read_buffer con \<and>
     \<not> opt_compression con' \<and> \<not> stream_closed con' \<and> current_column (con_result con') = 0 \<and> server_errno con' = 0 \<and>
     client_capabilities con' = client_capabilities con \<and> con_pool con' = None \<and> con_row con' = None \<and>
     row_buffer_alloc_size con' = 0 \<and> row_view con' = row_view con \<and> uv_events con' = uv_events con \<and>
     stmt_row con' = stmt_row con \<and> loop_present con' = loop_present con"

abbreviation "asked \<equiv> asked_by ATTACHSQL_COMMAND_QUERY"

lemmas asked_def = asked_by_def[of ATTACHSQL_COMMAND_QUERY, unfolded response_of_def, simplified]

lemma more_view:
  "con_core.more con' = con_core.more con \<Longrightarrow> client_view con' = client_view con \<and> con_row con' = con_row con \<and>
   stmt_row con' = stmt_row con"
  by (cases con; cases con') (simp add: client_view_def)

lemma asked_command:
  assumes ready: "session_idle con" and c: "c = con\<lparr>in_query := i, query_buffer := q, query_buffer_length := n,
      query_buffer_alloc := a, query_buffer_statement := s, con_stmt := stmt\<rparr>" and cmd: "response_of cmd = [t]"
  shows "\<exists>con'. attachsql_command_send cmd sql c = Some (ATTACHSQL_COMMAND_STATUS_SEND, con') \<and>
    asked_by cmd con sql con' \<and> con_stmt con' = stmt \<and> in_query con' = i"
proof -
  have r: "query_ready con" "expects_none con" "con_pool con = None" "\<not> opt_compression con" "\<not> stream_closed con"
    "con_row con = None" "row_buffer_alloc_size con = 0"
    using ready by (simp_all add: session_idle_def)
  have q: "calm con" "buffers_ok con" "extra_bytes con []" "queue_ok con" "queue_room con"
    "client_capabilities con AND ATTACHSQL_CAPABILITY_COMPRESS = 0" using r(1) by (simp_all add: query_ready_def)
  have qf: "queue_fields c = queue_fields con" by (simp add: c queue_fields_def)
  have cf: "allocs c = allocs con" "uv_results c = uv_results con" "sent c = sent con" "client_view c = (con_pool con, loop_present con, i,
      buffer_rows con, q, a, n, row_buffer con, row_buffer_alloc_size con, row_buffer_count con,
      row_buffer_position con, uv_events con, callbacks con, s)"
    "con_row c = con_row con" "stmt_row c = stmt_row con" "read_buffer c = read_buffer con" "opt_compression c = opt_compression con"
    "stream_closed c = stream_closed con" "client_capabilities c = client_capabilities con" "writer c = writer con" "con_stmt c = stmt"
    by (simp_all add: c client_view_def writer_def)
  have f: "calm c" "buffers_ok c" "extra_bytes c []" "queue_ok c" "queue_room c"
    "client_capabilities c AND ATTACHSQL_CAPABILITY_COMPRESS = 0"
    using q qf queue_frame[OF qf] cf(1,11)
    by (simp_all add: calm_def buffers_ok_def extra_bytes_def queue_room_def alloc_def queue_fields_def writer_def)
  obtain con' where s: "attachsql_command_send cmd sql c = Some (ATTACHSQL_COMMAND_STATUS_SEND, con')"
    "sent con' = sent c @ [packet 0 (command_code cmd # [] @ sql)]"
    "con_status con' = ATTACHSQL_CON_STATUS_BUSY" "expected con' = response_of cmd @ expected c"
    "queue_ok con'" "packet_number con' = 0" "command_written c con'"
    using command_send_plain[OF f(6) f(1) f(2) f(3) f(4) f(5), of cmd sql] by blast
  have "expected c = []" using queue_frame(1)[OF qf] r(2) by (simp add: expects_none_def)
  then have "expects (hd (response_of cmd)) con'" using s(4,5) cmd by (simp add: expects_def)
  moreover have "con_pool con' = None" "con_row con' = None" "row_buffer_alloc_size con' = 0" "row_view con' = row_view con"
    "uv_events con' = uv_events con" "in_query con' = i" "stmt_row con' = stmt_row con" "loop_present con' = loop_present con"
    using more_view[of con' c] s(7) r(3,6,7) cf(4-6) by (simp_all add: command_written_def client_view_def row_view_def)
  ultimately show ?thesis using s cf r(4,5) by (intro exI[of _ con']) (simp add: asked_by_def command_written_def)
qed

lemma asked_query:
  assumes ready: "session_idle con" and c: "c = con\<lparr>in_query := True, query_buffer := q, query_buffer_length := n,
      query_buffer_alloc := a, query_buffer_statement := s\<rparr>"
  shows "\<exists>con'. attachsql_command_send ATTACHSQL_COMMAND_QUERY sql c = Some (ATTACHSQL_COMMAND_STATUS_SEND, con') \<and>
    asked con sql con'"
proof -
  have "c = con\<lparr>in_query := True, query_buffer := q, query_buffer_length := n, query_buffer_alloc := a,
      query_buffer_statement := s, con_stmt := con_stmt con\<rparr>" by (simp add: c)
  from asked_command[OF ready this, of ATTACHSQL_COMMAND_QUERY] show ?thesis by (auto simp: response_of_def)
qed

definition query_command :: "bool \<Rightarrow> byte list \<Rightarrow> attachsql_query_parameter_st list \<Rightarrow> byte list" where
  "query_command nb statement ps = (if ps = [] then statement else query_of nb statement ps)"

lemma query_asks:
  assumes ready: "session_idle con" and ps: "\<forall>p \<in> set ps. param_ok p" "unat count = length ps"
    and st: "len \<le> length statement" "ps \<noteq> [] \<Longrightarrow> questions (take len statement) \<le> length ps"
  shows "\<exists>con'. attachsql_query (Some con) len statement count ps error = Some (True, error, Some con') \<and>
    asked con (query_command (quoting_mode con) (take len statement) ps) con'"
proof -
  have idle: "con_status con = ATTACHSQL_CON_STATUS_IDLE" "\<not> in_query con" "calm con"
    using ready by (simp_all add: session_idle_def query_ready_def)
  show ?thesis
  proof (cases "ps = []")
    case True
    then have c0: "count = 0" using ps(2) by (simp add: unat_eq_0)
    have "con\<lparr>in_query := True\<rparr> = con\<lparr>in_query := True, query_buffer := query_buffer con,
        query_buffer_length := query_buffer_length con, query_buffer_alloc := query_buffer_alloc con,
        query_buffer_statement := query_buffer_statement con\<rparr>" by simp
    then obtain con' where "attachsql_command_send ATTACHSQL_COMMAND_QUERY (take len statement) (con\<lparr>in_query := True\<rparr>) =
        Some (ATTACHSQL_COMMAND_STATUS_SEND, con')" "asked con (take len statement) con'"
      using asked_query[OF ready] by blast
    then show ?thesis using True c0 idle st(1)
      by (simp add: attachsql_query_def send_query_def query_command_def object_bytes_def)
  next
    case False
    let ?q = "query_of (quoting_mode con) (take len statement) ps"
    have "length ps < 2 ^ 16" using ps(2) unsigned_less[of count, where 'a = nat] by simp
    from query_text_ok[OF ps(1) this st(1), of "quoting_mode con"] obtain b where
      b: "query_text (quoting_mode con) statement len ps (length ps) = Some (b, length ?q)" "blk_has b 0 ?q"
      using st(2) False by blast
    have c0: "count \<noteq> 0" using ps(2) False by auto
    have calm: "calm (con\<lparr>in_query := True\<rparr>)" using idle(3) by (simp add: calm_def)
    let ?c = "con\<lparr>in_query := True, query_buffer := Some b, query_buffer_length := length ?q, query_buffer_alloc := True,
        query_buffer_statement := False\<rparr>"
    have "attachsql_query (Some con) len statement count ps error = send_query ?q error ?c"
      using idle b c0 calm blk_read_has[OF b(2) refl] by (simp add: attachsql_query_def ps(2) Let_def quoting_mode_def)
    moreover obtain con' where "attachsql_command_send ATTACHSQL_COMMAND_QUERY ?q ?c = Some (ATTACHSQL_COMMAND_STATUS_SEND, con')"
      "asked con ?q con'"
      using asked_query[OF ready refl] by blast
    ultimately show ?thesis using False by (simp add: send_query_def query_command_def)
  qed
qed

section \<open>Received and polled\<close>

lemma send_event_alone: "con_pool con = None \<Longrightarrow> send_event e (Some err) con = Some con"
  by (simp add: send_event_def attachsql_send_callback_def)

lemma poll_busy:
  assumes "con_status con = ATTACHSQL_CON_STATUS_BUSY" "con_pool con = None" "uv_events con = evs # later"
    and "dispatch_all evs (con\<lparr>uv_events := later\<rparr>) = Some con'"
    and "con_status con' = ATTACHSQL_CON_STATUS_IDLE"
  shows "attachsql_connect_poll (Some con) error = poll_idle con' error"
  using assms
  by (simp add: attachsql_connect_poll_def attachsql_do_poll_def attachsql_run_uv_loop_def uv_run_def Let_def)

lemma poll_resting:
  "con_status con = ATTACHSQL_CON_STATUS_IDLE \<Longrightarrow> attachsql_connect_poll (Some con) error = poll_idle con error"
  by (simp add: attachsql_connect_poll_def attachsql_do_poll_def Let_def)

definition answer_stream ::
  "byte list \<Rightarrow> column_t list \<Rightarrow> byte list list list \<Rightarrow> uint16 \<Rightarrow> uint16 \<Rightarrow> uint16 \<Rightarrow> uint16 \<Rightarrow> byte list" where
  "answer_stream catalog cs rows w1 s1 w2 s2 =
     result_stream 1 catalog cs (eof_payload w1 s1) (row_payload (hd rows))
       (row_stream (4 + of_nat (length cs)) (tl rows) (eof_payload w2 s2))"

definition answer_good :: "byte list \<Rightarrow> column_t list \<Rightarrow> byte list list list \<Rightarrow> bool" where
  "answer_good catalog cs rows \<longleftrightarrow> cs \<noteq> [] \<and> rows \<noteq> [] \<and> (\<forall>c \<in> set cs. column_short catalog c) \<and>
     (\<forall>row \<in> set rows. row_good (length cs) row) \<and> length cs + length rows + 3 < 128"

text \<open>The whole answer arrives in one event: the packet loop runs over it, and then the poll reports.\<close>

lemma unread_nothing:
  assumes "unread con []" "n + wanted \<le> capacity con"
  obtains b where "read_buffer con = Some b" "buffer_ok b" "rewound b" "buffer_bytes b = []" "roomy wanted n b" "capacity con = buffer_size b"
proof -
  obtain b where b: "read_buffer con = Some b" "buffer_ok b" "rewound b" "buffer_bytes b = []" using assms(1) by (auto simp: unread_def)
  moreover from this have "buffer_read_ptr b = 0" "buffer_write_ptr b = 0"
    using buffer_bytes_length[of b] by (auto simp: rewound_def buffer_ok_def)
  ultimately show thesis using that assms(2) by (simp add: roomy_def capacity_def)
qed

text \<open>Bytes that arrive where nothing is unread and the read buffer has room.\<close>

lemma bytes_arrive:
  assumes none: "unread con []" and fits: "length bytes + wanted \<le> capacity con" and ne: "bytes \<noteq> []"
    and open_: "\<not> opt_compression con" "\<not> stream_closed con"
  obtains b where "unread (con\<lparr>read_buffer := Some b\<rparr>) bytes" "buffer_size b = capacity con"
    "receive_all wanted bytes con = map_option snd (process_loop (con\<lparr>read_buffer := Some b\<rparr>))"
proof -
  obtain b where b: "read_buffer con = Some b" "buffer_ok b" "rewound b" "buffer_bytes b = []"
    and room: "roomy wanted (length bytes) b" and size: "capacity con = buffer_size b"
    using unread_nothing[OF none fits] .
  have "length bytes \<le> buffer_room b" using roomy_available[OF b(2) room] by simp
  then obtain b' where b': "buffer_store bytes b = Some b'" "buffer_ok b'" "buffer_bytes b' = bytes"
    using buffer_store_ok[OF b(2)] b(4) by auto
  have "buffer_read_ptr b' \<noteq> buffer_write_ptr b'" using b'(3) ne buffer_bytes_length[of b'] by auto
  then have "unread (con\<lparr>read_buffer := Some b'\<rparr>) bytes" using b'(2,3) by (simp add: unread_def rewound_def)
  moreover have "buffer_size b' = capacity con" using buffer_store_fields[OF b'(1)] size by simp
  moreover have "listening con b" using b(1,2) open_ by (simp add: listening_def)
  ultimately show thesis using that receive_piece[OF _ room ne b'(1)] by blast
qed

lemma answer_arrives:
  assumes asked: "asked_by cmd con sql con1" and none: "unread con []"
    and ev: "uv_events con = [Received wanted bytes] # later" and fits: "length bytes + wanted \<le> capacity con" and ne: "bytes \<noteq> []"
  obtains b' where "buffer_size b' = capacity con" "unread (con1\<lparr>uv_events := later, read_buffer := Some b'\<rparr>) bytes"
    "expects (hd (response_of cmd)) (con1\<lparr>uv_events := later, read_buffer := Some b'\<rparr>)"
    "\<forall>r con2 error. process_loop (con1\<lparr>uv_events := later, read_buffer := Some b'\<rparr>) = Some (r, con2) \<longrightarrow>
      con_status con2 = ATTACHSQL_CON_STATUS_IDLE \<longrightarrow> attachsql_connect_poll (Some con1) error = poll_idle con2 error"
proof -
  let ?c = "con1\<lparr>uv_events := later\<rparr>"
  have a: "expects (hd (response_of cmd)) con1" "con_status con1 = ATTACHSQL_CON_STATUS_BUSY" "con_pool con1 = None"
    "uv_events con1 = [Received wanted bytes] # later" "\<not> opt_compression ?c" "\<not> stream_closed ?c" "read_buffer ?c = read_buffer con"
    using asked ev by (simp_all add: asked_by_def)
  have "unread ?c []" "length bytes + wanted \<le> capacity ?c" "capacity ?c = capacity con"
    using none fits a(7) by (simp_all add: unread_def capacity_def)
  then obtain b' where b': "unread (?c\<lparr>read_buffer := Some b'\<rparr>) bytes" "buffer_size b' = capacity con"
    "receive_all wanted bytes ?c = map_option snd (process_loop (?c\<lparr>read_buffer := Some b'\<rparr>))"
    using bytes_arrive[OF _ _ ne a(5,6)] by metis
  have "expects (hd (response_of cmd)) (?c\<lparr>read_buffer := Some b'\<rparr>)"
    using a(1) queue_frame[of "?c\<lparr>read_buffer := Some b'\<rparr>" con1] by (simp add: expects_def queue_fields_def)
  then show thesis using that b'(1,2) poll_busy[OF a(2-4)] b'(3) by fastforce
qed

text \<open>A result set that arrives whole, with its first row and what comes behind it.\<close>

lemma result_arrives:
  assumes asked: "asked_by cmd con sql con1" and cmd: "response_of cmd = [ATTACHSQL_PACKET_TYPE_RESPONSE]"
    and none: "unread con []" and ev: "uv_events con = [Received wanted bytes] # later"
    and fits: "length bytes + wanted \<le> capacity con"
    and bytes: "bytes = result_stream 1 catalog cs (eof_payload w1 s1) row rest"
    and cs: "cs \<noteq> []" "\<forall>c \<in> set cs. column_short catalog c" "length cs + 3 < 128"
    and row: "row \<noteq> []" "hd row \<noteq> 0xfe" "length row < 2 ^ 24"
  shows "\<exists>con2. attachsql_connect_poll (Some con1) error = poll_idle con2 error \<and> row_held row rest con2 \<and>
    packet_number con2 = 3 + of_nat (length cs) \<and> unat (column_count (con_result con2)) = length cs \<and>
    result_columns (con_result con2) = Some (map Some (columns_read 2 catalog cs (eof_payload w1 s1))) \<and>
    con_row con2 = None \<and> stmt_row con2 = stmt_row con \<and> con_stmt con2 = con_stmt con1 \<and> server_errno con2 = 0 \<and> con_pool con2 = None \<and>
    same_session (con1\<lparr>uv_events := later\<rparr>) con2"
proof -
  have a: "packet_number con1 = 0" "calm con1" "\<not> opt_compression con1" "current_column (con_result con1) = 0"
    "server_errno con1 = 0" "con_pool con1 = None" "con_row con1 = None" "stmt_row con1 = stmt_row con"
    using asked by (simp_all add: asked_by_def)
  have ne: "bytes \<noteq> []" by (simp add: bytes result_stream_def packet_def)
  obtain b' where size: "buffer_size b' = capacity con" and b': "unread (con1\<lparr>uv_events := later, read_buffer := Some b'\<rparr>) bytes"
    "expects (hd (response_of cmd)) (con1\<lparr>uv_events := later, read_buffer := Some b'\<rparr>)"
    "\<forall>r con2 error. process_loop (con1\<lparr>uv_events := later, read_buffer := Some b'\<rparr>) = Some (r, con2) \<longrightarrow>
      con_status con2 = ATTACHSQL_CON_STATUS_IDLE \<longrightarrow> attachsql_connect_poll (Some con1) error = poll_idle con2 error"
    using answer_arrives[OF asked none ev fits ne] .
  let ?c = "con1\<lparr>uv_events := later\<rparr>"
  let ?c1 = "?c\<lparr>read_buffer := Some b'\<rparr>"
  have e1: "expects ATTACHSQL_PACKET_TYPE_RESPONSE ?c1" using b'(2) cmd by simp
  have u: "unread ?c1 (result_stream (packet_number ?c1 + 1) catalog cs (eof_payload w1 s1) row rest)"
    using b'(1) a(1) by (simp add: bytes)
  have al: "fst (alloc ?c1)" using a(2) by (simp add: calm_def alloc_def)
  obtain con2 where c2: "attachsql_con_process_packets ?c1 = Some (True, con2)" "row_held row rest con2"
    "packet_number con2 = packet_number ?c1 + of_nat (length cs) + 3" "column_count (con_result con2) = of_nat (length cs)"
    "result_columns (con_result con2) = Some (map Some (columns_read (packet_number ?c1 + 2) catalog cs (eof_payload w1 s1)))"
    "same_client ?c1 con2"
    using result_set_loop[OF u cs(1,2) _ e1 al _ _ row] cs(3) a(1,3,4) by auto
  have k: "unat (column_count (con_result con2)) = length cs"
    using cs(3) by (simp add: c2(4) unat_of_nat take_bit_nat_eq_self)
  have more: "con_row con2 = None" "con_pool con2 = None" "stmt_row con2 = stmt_row con" "con_stmt con2 = con_stmt con1"
    using more_view[of con2 ?c1] c2(6) a(6-8) by (simp_all add: same_client_def same_but_stmt_def client_view_def)
  have st: "con_status con2 = ATTACHSQL_CON_STATUS_IDLE" "server_errno con2 = 0"
    using c2(2,6) a(5) by (simp_all add: row_held_def same_defs)
  have "process_loop ?c1 = Some (True, con2)" using c2(1) a(3) by (simp add: attachsql_con_process_packets_def)
  then have "attachsql_connect_poll (Some con1) error = poll_idle con2 error" using b'(3) st(1) by blast
  moreover have "same_session ?c con2"
    using same_client_session[OF c2(6)] size asked
    by (simp add: same_session_def same_core_def writer_def client_view_def capacity_def asked_by_def)
  ultimately show ?thesis using c2(2,3,5) k more st(2) a(1) by (intro exI[of _ con2]) (simp add: add.commute)
qed

lemma answer_received:
  assumes asked: "asked con sql con1" and none: "unread con []"
    and ev: "uv_events con = [Received wanted (answer_stream catalog cs rows w1 s1 w2 s2)] # later"
    and fits: "length (answer_stream catalog cs rows w1 s1 w2 s2) + wanted \<le> capacity con"
    and good: "answer_good catalog cs rows"
  shows "\<exists>con2. attachsql_connect_poll (Some con1) error = poll_idle con2 error \<and>
    row_held (row_payload (hd rows)) (row_stream (packet_number con2 + 1) (tl rows) (eof_payload w2 s2) @ []) con2 \<and>
    unat (packet_number con2) = length cs + 3 \<and> unat (column_count (con_result con2)) = length cs \<and>
    con_row con2 = None \<and> server_errno con2 = 0 \<and> con_pool con2 = None \<and> same_session (con1\<lparr>uv_events := later\<rparr>) con2"
proof -
  have g: "cs \<noteq> []" "\<forall>c \<in> set cs. column_short catalog c" "row_good (length cs) (hd rows)" "length cs + 3 < 128"
    using good by (auto simp: answer_good_def)
  have row: "row_payload (hd rows) \<noteq> []" "hd (row_payload (hd rows)) \<noteq> 0xfe" "length (row_payload (hd rows)) < 2 ^ 24"
    using row_payload_starts[OF g(3)] g(3) by (simp_all add: row_good_def)
  have "response_of ATTACHSQL_COMMAND_QUERY = [ATTACHSQL_PACKET_TYPE_RESPONSE]" by (simp add: response_of_def)
  from result_arrives[OF asked this none ev fits answer_stream_def g(1,2,4) row, of error] obtain con2 where
    c2: "attachsql_connect_poll (Some con1) error = poll_idle con2 error"
    "row_held (row_payload (hd rows)) (row_stream (4 + of_nat (length cs)) (tl rows) (eof_payload w2 s2)) con2"
    "packet_number con2 = 3 + of_nat (length cs)" "unat (column_count (con_result con2)) = length cs"
    "con_row con2 = None" "server_errno con2 = 0" "con_pool con2 = None" "same_session (con1\<lparr>uv_events := later\<rparr>) con2"
    by blast
  have "unat (packet_number con2) = length cs + 3" using g(4) by (simp add: c2(3) unat_word_ariths unat_of_nat)
  moreover have "4 + of_nat (length cs) = packet_number con2 + 1" by (simp add: c2(3))
  ultimately show ?thesis using c2 by (intro exI[of _ con2]) simp
qed

lemma nothing_awaited:
  assumes "expects_none con" "read_buffer con \<noteq> None" shows "process_loop con = Some (False, con)"
proof -
  have "attachsql_packet_queue_peek con = Some ATTACHSQL_PACKET_TYPE_NONE"
    using assms(1) queue_peek_ok[of con] by (simp add: expects_none_def)
  then show ?thesis by (simp add: process_loop.simps[of con] process_packet_unfold)
qed

lemma poll_row_ready:
  assumes "command_status con = ATTACHSQL_COMMAND_STATUS_ROW_IN_BUFFER" "server_errno con = 0" "con_pool con = None" "\<not> buffer_rows con"
  shows "poll_idle con (Some e) = Some (ATTACHSQL_RETURN_ROW_READY, Some e, Some con)"
  using assms send_event_alone by (simp add: poll_idle_def)

section \<open>Closed\<close>

text \<open>Closing a query whose rows have not been buffered frees nothing of them.\<close>

definition closed :: "attachsql_connect_t \<Rightarrow> attachsql_connect_t" where
  "closed con = con
     \<lparr>query_buffer := (if query_buffer_alloc con \<and> query_buffer_length con \<noteq> 0 then None else query_buffer con),
      query_buffer_alloc := False, query_buffer_length := 0, con_columns := None, con_row := None,
      in_query := (server_status con AND ATTACHSQL_SERVER_STATUS_MORE_RESULTS \<noteq> 0 \<and> in_query con),
      con_result := (con_result con)\<lparr>result_columns := None\<rparr>, row_buffer_alloc_size := 0, row_buffer_count := 0,
      row_buffer_position := 0, all_rows_buffered := False\<rparr>"

lemma free_rows_frame: "row_view con' = row_view con \<Longrightarrow> free_rows con' = free_rows con"
  by (simp add: row_view_def free_rows_def split: rows_ptr.split)

lemma query_close_rows:
  assumes "free_rows con = Some rows" shows "attachsql_query_close con = Some (closed con\<lparr>row_buffer := rows\<rparr>)"
proof -
  have upd: "(if P then c\<lparr>query_buffer := None\<rparr> else c) = c\<lparr>query_buffer := (if P then None else query_buffer c)\<rparr>"
    "(if Q then c\<lparr>in_query := False\<rparr> else c) = c\<lparr>in_query := (\<not> Q \<and> in_query c)\<rparr>" for P Q and c :: attachsql_connect_t
    by simp_all
  have "free_rows (con\<lparr>query_buffer := q, query_buffer_alloc := a, query_buffer_length := n, con_columns := cs, con_row := r,
      in_query := i, con_result := res\<rparr>) = Some rows" for q a n cs r i res
    using assms by (subst free_rows_frame[of _ con]) (simp_all add: row_view_def)
  then show ?thesis
    unfolding attachsql_query_close_def Let_def upd by (simp add: closed_def attachsql_command_free_def)
qed

lemma query_close_unbuffered:
  assumes "row_buffer_alloc_size con = 0" shows "attachsql_query_close con = Some (closed con)"
proof -
  have "free_rows con = Some (row_buffer con)" using assms by (simp add: free_rows_def)
  moreover have "closed con\<lparr>row_buffer := row_buffer con\<rparr> = closed con" by (simp add: closed_def)
  ultimately show ?thesis using query_close_rows by metis
qed

lemma closed_fields:
  "allocs (closed con) = allocs con" "opt_compression (closed con) = opt_compression con" "writer (closed con) = writer con"
  "con_pool (closed con) = con_pool con" "buffer_rows (closed con) = buffer_rows con" "con_row (closed con) = None"
  "row_buffer_alloc_size (closed con) = 0" "con_status (closed con) = con_status con"
  "read_buffer (closed con) = read_buffer con" "queue_fields (closed con) = queue_fields con"
  "uv_events (closed con) = uv_events con" "capacity (closed con) = capacity con" "loop_present (closed con) = loop_present con"
  by (simp_all add: capacity_def closed_def writer_def queue_fields_def)

lemma closed_idle:
  assumes con: "con_status con = ATTACHSQL_CON_STATUS_IDLE" "expects_none con" "unread con []"
      "server_status con AND ATTACHSQL_SERVER_STATUS_MORE_RESULTS = 0"
    and w: "calm con" "buffers_ok con" "extra_bytes con []" "\<not> opt_compression con" "\<not> stream_closed con"
      "client_capabilities con AND ATTACHSQL_CAPABILITY_COMPRESS = 0" "con_pool con = None"
  shows "session_idle (closed con\<lparr>row_buffer := rows\<rparr>)"
proof -
  let ?c = "closed con\<lparr>row_buffer := rows\<rparr>"
  have f: "queue_fields ?c = queue_fields con" "allocs ?c = allocs con" "writer ?c = writer con"
    by (simp_all add: closed_def queue_fields_def writer_def)
  then have "expects_none ?c" using con(2) expects_none_frame[of ?c con] by simp
  moreover have "unread ?c []" using con(3) by (simp add: unread_def closed_fields)
  moreover have "calm ?c" "buffers_ok ?c" "extra_bytes ?c []" "\<not> stream_closed ?c" "client_capabilities ?c = client_capabilities con"
    using f w by (simp_all add: writer_def calm_def buffers_ok_def extra_bytes_def)
  moreover have "\<not> in_query ?c" using con(4) by (simp add: closed_def)
  ultimately show ?thesis using con(1) w(4,6,7)
    by (simp add: session_idle_def query_ready_def expects_none_def closed_fields)
qed

text \<open>The poll behind the last row, after any command: the end is reported, and the connection can be written to.\<close>

definition at_end :: "attachsql_connect_t \<Rightarrow> attachsql_connect_t" where
  "at_end con = con\<lparr>all_rows_buffered := True, command_status := ATTACHSQL_COMMAND_STATUS_EOF\<rparr>"

lemma eof_polled:
  assumes ready: "session_idle con" and asked: "asked_by cmd con sql con1" and same: "same_session (con1\<lparr>uv_events := later\<rparr>) con3"
    and end3: "con_status con3 = ATTACHSQL_CON_STATUS_IDLE" "command_status con3 = ATTACHSQL_COMMAND_STATUS_EOF"
      "expects_none con3" "unread con3 []"
  shows "attachsql_connect_poll (Some con3) (Some e) = Some (ATTACHSQL_RETURN_EOF, Some e, Some (at_end con3))"
    "con_status (at_end con3) = ATTACHSQL_CON_STATUS_IDLE" "expects_none (at_end con3)" "unread (at_end con3) []"
    "calm (at_end con3)" "buffers_ok (at_end con3)" "extra_bytes (at_end con3) []" "\<not> opt_compression (at_end con3)"
    "\<not> stream_closed (at_end con3)" "client_capabilities (at_end con3) AND ATTACHSQL_CAPABILITY_COMPRESS = 0"
    "con_pool (at_end con3) = None" "row_view (at_end con3) = row_view con" "uv_events (at_end con3) = later"
    "sent (at_end con3) = sent con1" "in_query (at_end con3) = in_query con1" "server_status (at_end con3) = server_status con3"
    "con_row (at_end con3) = con_row con3" "stmt_row (at_end con3) = stmt_row con3" "capacity (at_end con3) = capacity con"
    "loop_present (at_end con3) = loop_present con"
proof -
  have a: "calm con1" "buffers_ok con1" "extra_bytes con1 []" "\<not> opt_compression con1" "\<not> stream_closed con1"
    "server_errno con1 = 0" "client_capabilities con1 = client_capabilities con" "con_pool con1 = None" "row_view con1 = row_view con"
    using asked by (simp_all add: asked_by_def)
  have c: "writer con3 = writer con1" "server_errno con3 = server_errno con1" "allocs con3 = []"
    "opt_compression con3 = opt_compression con1"
    using same a(1) by (simp_all add: same_session_def same_core_def writer_def calm_def)
  have v: "con_pool con3 = None" "row_view con3 = row_view con" "uv_events con3 = later" "in_query con3 = in_query con1"
    using same a(8,9) by (simp_all add: same_session_def client_view_def row_view_def)
  show "attachsql_connect_poll (Some con3) (Some e) = Some (ATTACHSQL_RETURN_EOF, Some e, Some (at_end con3))"
    using poll_resting[OF end3(1)] end3(2) c(2) a(6) v(1) send_event_alone by (simp add: poll_idle_def at_end_def)
  have "queue_fields (at_end con3) = queue_fields con3" "allocs (at_end con3) = allocs con3"
    by (simp_all add: queue_fields_def at_end_def)
  then show "expects_none (at_end con3)" using end3(3) expects_none_frame[of "at_end con3" con3] by simp
  show "unread (at_end con3) []" using end3(4) by (simp add: unread_def at_end_def)
  have "writer (at_end con3) = writer con1" "allocs (at_end con3) = []" using c by (simp_all add: writer_def at_end_def)
  then show "calm (at_end con3)" "buffers_ok (at_end con3)" "extra_bytes (at_end con3) []" "\<not> stream_closed (at_end con3)"
    "client_capabilities (at_end con3) AND ATTACHSQL_CAPABILITY_COMPRESS = 0" "sent (at_end con3) = sent con1"
    using a ready by (simp_all add: writer_def calm_def buffers_ok_def extra_bytes_def session_idle_def query_ready_def)
  have "capacity con3 = capacity con"
    using same asked by (simp add: same_session_def same_core_def asked_by_def capacity_def)
  then show "capacity (at_end con3) = capacity con" by (simp add: capacity_def at_end_def)
  show "loop_present (at_end con3) = loop_present con"
    using same asked by (simp add: same_session_def client_view_def asked_by_def at_end_def)
  show "con_status (at_end con3) = ATTACHSQL_CON_STATUS_IDLE" "\<not> opt_compression (at_end con3)" "con_pool (at_end con3) = None"
    "row_view (at_end con3) = row_view con" "uv_events (at_end con3) = later" "in_query (at_end con3) = in_query con1"
    "server_status (at_end con3) = server_status con3" "con_row (at_end con3) = con_row con3" "stmt_row (at_end con3) = stmt_row con3"
    using end3(1) c(4) a(4) v by (simp_all add: at_end_def row_view_def)
qed

lemma at_end_idle:
  assumes idle: "session_idle con" and asked: "asked_by cmd con sql con1" and same: "same_session (con1\<lparr>uv_events := later\<rparr>) con3"
    and end3: "con_status con3 = ATTACHSQL_CON_STATUS_IDLE" "command_status con3 = ATTACHSQL_COMMAND_STATUS_EOF"
      "expects_none con3" "unread con3 []" and quiet: "\<not> in_query con1" "con_row con3 = None"
  shows "session_idle (at_end con3)"
proof -
  note p = eof_polled[OF idle asked same end3]
  have "row_buffer_alloc_size (at_end con3) = 0" using p(12) idle by (simp add: row_view_def session_idle_def)
  then show ?thesis using p(2-11,15,17) quiet by (simp add: session_idle_def query_ready_def expects_none_def)
qed

lemma ready_again:
  assumes ready: "session_ready con" and asked: "asked con sql con1" and same: "same_session (con1\<lparr>uv_events := later\<rparr>) con3"
    and end3: "con_status con3 = ATTACHSQL_CON_STATUS_IDLE" "command_status con3 = ATTACHSQL_COMMAND_STATUS_EOF"
      "expects_none con3" "unread con3 []" "server_status con3 AND ATTACHSQL_SERVER_STATUS_MORE_RESULTS = 0"
  shows "\<exists>con4 con5. attachsql_connect_poll (Some con3) (Some e) = Some (ATTACHSQL_RETURN_EOF, Some e, Some con4) \<and>
    attachsql_query_close con4 = Some con5 \<and> session_ready con5 \<and> uv_events con5 = later \<and> sent con5 = sent con1 \<and>
    capacity con5 = capacity con \<and> loop_present con5 = loop_present con"
proof -
  have idle: "session_idle con" using ready by (simp add: session_ready_def)
  note p = eof_polled[OF idle asked same end3(1-4)]
  have rows: "row_buffer_alloc_size (at_end con3) = 0" "\<not> buffer_rows (at_end con3)"
    using p(12) ready by (simp_all add: row_view_def session_ready_def session_idle_def)
  have "session_idle (closed (at_end con3)\<lparr>row_buffer := row_buffer (closed (at_end con3))\<rparr>)"
    using p(16) end3(5) by (intro closed_idle p) simp
  then have "session_ready (closed (at_end con3))" using rows(2) by (simp add: session_ready_def closed_fields)
  moreover have "sent (closed (at_end con3)) = sent con1" using p(14) by (simp add: closed_def)
  ultimately show ?thesis using p(1)[of e] p(13,19,20) query_close_unbuffered[OF rows(1)] by (auto simp: closed_fields)
qed

section \<open>Properties\<close>

text \<open>
  C1. A query from beginning to end: \<open>attachsql_query\<close> sends the statement, the next poll finds the
  answer of the server and reports a row, the caller's loop gets the values of all rows in order, the
  poll after them reports the end, and closing the query leaves the connection ready for the next one.
\<close>

theorem query_session:
  assumes "session_ready con" "\<forall>p \<in> set ps. param_ok p" "unat count = length ps" "len \<le> length statement"
    and "ps \<noteq> [] \<longrightarrow> questions (take len statement) \<le> length ps"
    and "uv_events con = [Received wanted (answer_stream catalog cs rows w1 s1 w2 s2)] # later"
    and "answer_good catalog cs rows" "s2 AND ATTACHSQL_SERVER_STATUS_MORE_RESULTS = 0"
    and "length (answer_stream catalog cs rows w1 s1 w2 s2) + wanted \<le> capacity con"
  shows "\<exists>con1 con2 con3 con4 con5.
    attachsql_query (Some con) len statement count ps (Some e) = Some (True, Some e, Some con1) \<and>
    sent con1 = sent con @ [packet 0 (command_code ATTACHSQL_COMMAND_QUERY #
      query_command (quoting_mode con) (take len statement) ps)] \<and>
    attachsql_connect_poll (Some con1) (Some e) = Some (ATTACHSQL_RETURN_ROW_READY, Some e, Some con2) \<and>
    fetch_rows (length rows) con2 = Some (map (map Some) rows, con3) \<and>
    attachsql_connect_poll (Some con3) (Some e) = Some (ATTACHSQL_RETURN_EOF, Some e, Some con4) \<and>
    attachsql_query_close con4 = Some con5 \<and> session_ready con5 \<and> uv_events con5 = later \<and> sent con5 = sent con1 \<and>
    capacity con5 = capacity con"
proof -
  let ?sql = "query_command (quoting_mode con) (take len statement) ps"
  obtain con1 where c1: "attachsql_query (Some con) len statement count ps (Some e) = Some (True, Some e, Some con1)"
    "asked con ?sql con1"
    using query_asks[OF _ assms(2-4)] assms(1,5) unfolding session_ready_def by blast
  have none: "unread con []" using assms(1) by (simp add: session_ready_def session_idle_def)
  obtain con2 where c2: "attachsql_connect_poll (Some con1) (Some e) = poll_idle con2 (Some e)"
    "row_held (row_payload (hd rows)) (row_stream (packet_number con2 + 1) (tl rows) (eof_payload w2 s2) @ []) con2"
    "unat (packet_number con2) = length cs + 3" "unat (column_count (con_result con2)) = length cs"
    "con_row con2 = None" "server_errno con2 = 0" "con_pool con2 = None" "same_session (con1\<lparr>uv_events := later\<rparr>) con2"
    using answer_received[OF c1(2) none assms(6,9,7)] by blast
  have rows: "hd rows # tl rows = rows" "\<forall>row \<in> set rows. row_good (length cs) row" "length cs + length rows + 3 < 128"
    using assms(7) by (auto simp: answer_good_def)
  have s2: "\<not> buffer_rows con2" "allocs con2 = []"
    using c2(8) c1(2) assms(1)
    by (auto simp: asked_def same_session_def same_core_def client_view_def calm_def session_ready_def row_view_def)
  have ready: "poll_idle con2 (Some e) = Some (ATTACHSQL_RETURN_ROW_READY, Some e, Some con2)"
    using c2(2) s2(1) by (intro poll_row_ready[OF _ c2(6,7)]) (simp_all add: row_held_def)
  have "row_array_ok (length (hd rows)) con2" using s2(2) c2(5) by (simp add: row_array_ok_def alloc_def)
  moreover have "unat (packet_number con2) + length (tl rows) + 1 < 128" using rows(1,3) c2(3) by (cases rows) auto
  ultimately obtain con3 where c3: "fetch_rows (length rows) con2 = Some (map (map Some) rows, con3)"
    "con_status con3 = ATTACHSQL_CON_STATUS_IDLE" "command_status con3 = ATTACHSQL_COMMAND_STATUS_EOF"
    "server_status con3 = s2" "expects_none con3" "unread con3 []" "same_session con2 con3"
    using fetch_rows_ok[OF c2(2) _ _ s2(1)] rows(1,2) c2(4) by auto
  have "server_status con3 AND ATTACHSQL_SERVER_STATUS_MORE_RESULTS = 0" using c3(4) assms(8) by simp
  from ready_again[OF assms(1) c1(2) same_session_trans[OF c2(8) c3(7)] c3(2,3,5,6) this, of e]
  show ?thesis using c1 c2(1) ready c3(1) by (auto simp: asked_def)
qed

definition sample_answer :: "byte list" where
  "sample_answer = answer_stream [0x64, 0x65, 0x66] [sample_column] [[[0x61]], [[0x62, 0x63]]] 0 0 0 2"

definition session_con :: attachsql_connect_t where
  "session_con = query_con\<lparr>read_buffer := Some (packet_buffer [] []), uv_events := [[Received 16 sample_answer]]\<rparr>"

lemma session_con_ready: "session_ready session_con"
proof -
  have f: "\<not> opt_compression query_con" "\<not> stream_closed query_con" "\<not> buffer_rows query_con" "con_pool query_con = None"
    "con_row query_con = None" "row_buffer_alloc_size query_con = 0" "next_packet_queue_used query_con = 0"
    by (simp_all add: query_con_def stmt_con_def connect_init_def con_core.defs core_init_def)
  have "packet_in (packet_buffer [] []) [] []" by (rule packet_buffer_in) simp
  then have "unread session_con []" by (simp add: unread_def session_con_def packet_in_def)
  moreover have qf: "queue_fields session_con = queue_fields query_con" by (simp add: session_con_def queue_fields_def)
  have r: "query_ready query_con" by (rule query_con_ready)
  moreover have "query_ready session_con" "queue_ok session_con" "queue_room session_con"
    using r queue_frame[OF qf]
    by (simp_all add: query_ready_def session_con_def calm_def buffers_ok_def extra_bytes_def queue_room_def alloc_def)
  moreover have "expected session_con = []" using queue_frame(1)[OF qf] f(7) by (simp add: expected_empty)
  moreover have "con_status session_con = ATTACHSQL_CON_STATUS_IDLE" by (simp add: session_con_def query_con_def)
  ultimately show ?thesis using f by (simp add: session_ready_def session_idle_def expects_none_def session_con_def)
qed

lemma sample_answer_good: "answer_good [0x64, 0x65, 0x66] [sample_column] [[[0x61]], [[0x62, 0x63]]]"
  using sample_column_good
  by (simp add: answer_good_def column_short_def sample_column_length row_good_def short_string_good row_payload_def
      enc_string_def enc_length_def)

lemma sample_answer_events:
  "uv_events session_con = [Received 16 (answer_stream [0x64, 0x65, 0x66] [sample_column] [[[0x61]], [[0x62, 0x63]]] 0 0 0 2)] # []"
  by (simp add: session_con_def sample_answer_def)

lemma sample_answer_room:
  "length (answer_stream [0x64, 0x65, 0x66] [sample_column] [[[0x61]], [[0x62, 0x63]]] 0 0 0 2) + 16 \<le> capacity session_con"
  by (simp add: session_con_def capacity_def packet_buffer_def answer_stream_def result_stream_def packet_def row_payload_def
      enc_string_def enc_length_def eof_payload_def sample_column_length)

lemma sample_sql: "6 \<le> length (str ''SELECT'')" "take 6 (str ''SELECT'') = str ''SELECT''"
  by (simp_all add: str_def)

theorem query_session_witness:
  "\<exists>con1 con2 con3 con4 con5.
    attachsql_query (Some session_con) 6 (str ''SELECT'') 0 [] (Some None) = Some (True, Some None, Some con1) \<and>
    sent con1 = [packet 0 (3 # str ''SELECT'')] \<and>
    attachsql_connect_poll (Some con1) (Some None) = Some (ATTACHSQL_RETURN_ROW_READY, Some None, Some con2) \<and>
    fetch_rows 2 con2 = Some ([[Some [0x61]], [Some [0x62, 0x63]]], con3) \<and>
    attachsql_connect_poll (Some con3) (Some None) = Some (ATTACHSQL_RETURN_EOF, Some None, Some con4) \<and>
    attachsql_query_close con4 = Some con5 \<and> session_ready con5"
proof -
  have st: "sent session_con = []" using query_con_ready(2) by (simp add: session_con_def)
  from query_session[OF session_con_ready _ _ sample_sql(1) _ sample_answer_events sample_answer_good _ sample_answer_room, of "[]" 0 None]
  show ?thesis by (auto simp: query_command_def st sample_sql numeral_2_eq_2 simp del: fetch_rows.simps)
qed

end
