(* ===== verification/Login.thy ===== *)
theory Login
  imports Session Answers
begin

text \<open>
  Making a connection, from \<open>attachsql_connect_create\<close> to one that is ready for its first query: name
  resolved, stream opened, greeting received and answered, the server's OK received.
\<close>

section \<open>The first bytes\<close>

text \<open>The read buffer is created when the first bytes arrive, and is then like one that was there before.\<close>

lemma first_receive:
  assumes "read_buffer con = None" "calm con" "\<not> opt_compression con" "xs \<noteq> []" "attachsql_buffer_create True True = Some b"
    and "\<not> stream_closed con"
  shows "receive_all wanted xs con = receive_all wanted xs (con\<lparr>read_buffer := Some b\<rparr>)"
proof -
  have "calm (con\<lparr>read_buffer := Some b\<rparr>)" using assms(2) by (simp add: calm_def)
  then have "on_alloc wanted con = on_alloc wanted (con\<lparr>read_buffer := Some b\<rparr>)"
    using assms by (auto simp: on_alloc_def buffer_prepare_def buffer_new_def Let_def split: if_splits bind_splits option.splits)
  then have "receive wanted xs con = receive wanted xs (con\<lparr>read_buffer := Some b\<rparr>)" by (simp add: receive_def)
  then show ?thesis using assms(4,6) by (subst (1 2) receive_all.simps) simp
qed

lemma fresh_buffer:
  obtains b where "attachsql_buffer_create True True = Some b" "buffer_ok b" "buffer_bytes b = []" "buffer_read_ptr b = 0"
    "buffer_write_ptr b = 0" "buffer_size b = ATTACHSQL_DEFAULT_BUFFER_SIZE"
proof -
  obtain b where b: "attachsql_buffer_create True True = Some b" by (auto simp: attachsql_buffer_create_def)
  then show thesis using buffer_create_ok[OF b] by (intro that[of b]) (auto simp: attachsql_buffer_create_def)
qed

section \<open>The greeting\<close>

lemma loop_awaits:
  assumes "unread con []" "expects t con" "t \<noteq> ATTACHSQL_PACKET_TYPE_NONE"
  shows "process_loop con = Some (False, con)"
proof -
  obtain b where b: "read_buffer con = Some b" "buffer_ok b" "buffer_bytes b = []" using assms(1) by (auto simp: unread_def)
  then have "attachsql_buffer_unread_data b = 0" using unread_data_length[of b] by simp
  then show ?thesis using b(1) expects_peek[OF assms(2)] assms(3)
    by (subst process_loop.simps) (simp add: process_packet_unfold)
qed

text \<open>What the server is sent for a greeting, and the connection afterwards.\<close>

definition login_answer :: "byte list \<Rightarrow> byte list \<Rightarrow> byte list \<Rightarrow> byte list \<Rightarrow> uint16 \<Rightarrow> uint32 \<Rightarrow> byte list" where
  "login_answer user pass schema scramble caps client =
     response_payload ((ucast caps AND ATTACHSQL_CAPABILITY_CLIENT) OR ATTACHSQL_CAPABILITY_MULTI_RESULTS OR client)
       user (auth_of pass scramble) schema"

lemma greeting_loop:
  assumes c: "connecting user pass con" and u: "read_buffer con = Some b" "buffer_ok b"
      "buffer_bytes b = packet (packet_number con) (handshake_payload version tid scramble caps cs sstatus filler extra)"
    and len: "length (handshake_payload version tid scramble caps cs sstatus filler extra) < 2 ^ 24"
    and v: "length version < ATTACHSQL_MAX_SERVER_VERSION_LEN" "0 \<notin> set version"
    and l: "length scramble = 20" "length filler = 13" "pass \<noteq> [] \<Longrightarrow> scramble ! 0 \<noteq> 0"
    and caps: "(ucast caps :: uint32) AND ATTACHSQL_CAPABILITY_PROTOCOL_41 \<noteq> 0"
    and e: "expects ATTACHSQL_PACKET_TYPE_HANDSHAKE con" and n: "packet_number con < 0x80"
  shows "\<exists>con'. process_loop con = Some (False, con') \<and>
     sent con' = sent con @ [packet (packet_number con + 1)
       (login_answer user pass (schema_bytes con) scramble caps (client_capabilities con))] \<and>
     server_version con' = version \<and> thread_id con' = tid \<and> expects ATTACHSQL_PACKET_TYPE_RESPONSE con' \<and>
     con_status con' = ATTACHSQL_CON_STATUS_CONNECTING \<and> unread con' [] \<and>
     capacity con' = capacity con \<and>
     packet_number con' = packet_number con + 1 \<and> login_frame con con' \<and> con_core.more con' = con_core.more con"
proof -
  let ?p = "handshake_payload version tid scramble caps cs sstatus filler extra"
  let ?body = "handshake_body tid (take 8 scramble) 0 caps cs sstatus filler (drop 8 scramble) (0 # extra)"
  let ?b = "packet_body (of_nat (length ?p)) b" and ?c1 = "taken (length ?p) (packet_number con) b con"
  have bytes: "buffer_bytes b = packet (packet_number con) ?p @ []" using u(3) by simp
  have pin: "packet_in ?b ?p []" by (rule packet_body_in[OF u(2) bytes len])
  then have p: "packet_in ?b (10 # version @ 0 # ?body) []" by (simp add: handshake_payload_def)
  have "ahead (skip 1 ?b) ((version @ [0]) @ ?body @ [])" using ahead_Cons[of ?b 10] packet_in_ahead[OF p] by simp
  then have cs: "blk_cstr (buffer ?b) (Suc (buffer_read_ptr ?b)) ATTACHSQL_MAX_SERVER_VERSION_LEN = Some version"
    using blk_cstr_terminated[OF _ v(2,1)] ahead_append by (fastforce simp: ahead_def)
  have t: "text_array ATTACHSQL_MAX_SERVER_VERSION_LEN version = version" using v(1) by (simp add: text_array_def)
  have sc: "length (take 8 scramble) = 8" "length (drop 8 scramble) = 12" "pass \<noteq> [] \<Longrightarrow> take 8 scramble ! 0 \<noteq> 0"
    using l by simp_all
  have ready: "expects_none ?c1" using taken_ready[OF e, of ?c1] by (simp add: queue_fields_def taken_def)
  have f: "allocs ?c1 = allocs con" "uv_results ?c1 = uv_results con" "packet_header ?c1 = packet_header con"
    "write_buffer ?c1 = write_buffer con" "scramble_buffer ?c1 = scramble_buffer con" "con_status ?c1 = con_status con"
    "con_user ?c1 = con_user con" "con_pass ?c1 = con_pass con" "schema_bytes ?c1 = schema_bytes con"
    by (simp_all add: taken_def schema_bytes_def)
  have c1: "connecting user pass ?c1" using c ready f by (simp add: connecting_def expects_none_def calm_def)
  have r1: "read_buffer ?c1 = Some ?b" by (simp add: taken_def)
  obtain con' where h: "attachsql_packet_read_handshake ?c1 = Some con'"
     "sent con' = sent ?c1 @ [packet (packet_number ?c1 + 1)
       (response_payload ((ucast caps AND ATTACHSQL_CAPABILITY_CLIENT) OR ATTACHSQL_CAPABILITY_MULTI_RESULTS OR
          client_capabilities ?c1) user (auth_of pass (take 8 scramble @ drop 8 scramble)) (schema_bytes ?c1))]"
     "server_version con' = version" "thread_id con' = tid"
     "expected con' = ATTACHSQL_PACKET_TYPE_RESPONSE # expected ?c1" "queue_ok con'"
     "con_status con' = ATTACHSQL_CON_STATUS_CONNECTING" "read_buffer con' = Some (past_packet ?b)"
     "packet_number con' = packet_number ?c1 + 1" "login_frame ?c1 con'" "con_core.more con' = con_core.more ?c1"
    using handshake_read_answered[OF c1 r1 p cs t sc(1,2) l(2) sc(3) caps] by blast
  have e': "expects ATTACHSQL_PACKET_TYPE_RESPONSE con'" using h(5,6) ready by (simp add: expects_def expects_none_def)
  have u': "unread con' []" by (rule unread_past[OF pin h(8)])
  have "process_loop con = process_loop con'"
    using loop_turn[OF u(1,2) bytes len e, of con'] n h(1) by (simp add: next_number_def stops_def)
  then have "process_loop con = Some (False, con')" using loop_awaits[OF u' e'] by simp
  moreover have "capacity con' = capacity con" using h(8) u(1) by (simp add: capacity_def)
  moreover have "con_core.more ?c1 = con_core.more con" by (simp add: taken_def)
  ultimately show ?thesis using h e' u'
    by (intro exI[of _ con']) (simp add: login_answer_def taken_def schema_bytes_def login_frame_def)
qed

section \<open>Opening the connection\<close>

lemma connect_begins:
  assumes "calm con" "con_status con = ATTACHSQL_CON_STATUS_NOT_CONNECTED" "con_pool con = None" "con_port con \<noteq> 0"
    and "opt_protocol con = ATTACHSQL_CON_PROTOCOL_UNKNOWN" "uv_events con = [Resolved status] # later" "0 \<le> status"
  shows "attachsql_connect (Some con) error = Some (True, error, Some (con\<lparr>loop_present := True,
      opt_protocol := ATTACHSQL_CON_PROTOCOL_TCP, con_status := ATTACHSQL_CON_STATUS_CONNECTING, uv_events := later\<rparr>))"
proof -
  have c: "allocs con = []" "uv_results con = []" using assms(1) by (simp_all add: calm_def)
  show ?thesis
    using assms(2-7) c
    by (simp add: attachsql_connect_def attachsql_do_connect_def loop_init_def start_connect_def uv_call_def alloc_def
        attachsql_run_uv_loop_def uv_run_def on_resolved_def Let_def)
qed

lemma poll_connecting:
  assumes "con_status con = ATTACHSQL_CON_STATUS_CONNECTING" "con_pool con = None" "uv_events con = evs # later"
    and "dispatch_all evs (con\<lparr>uv_events := later\<rparr>) = Some con'"
  shows "con_status con' = ATTACHSQL_CON_STATUS_CONNECTING \<Longrightarrow>
      attachsql_connect_poll (Some con) error = Some (ATTACHSQL_RETURN_CONNECTING, error, Some con')"
    "con_status con' = ATTACHSQL_CON_STATUS_IDLE \<Longrightarrow> attachsql_connect_poll (Some con) error = poll_idle con' error"
  using assms
  by (simp_all add: attachsql_connect_poll_def attachsql_do_poll_def attachsql_run_uv_loop_def uv_run_def Let_def)

text \<open>A connection that is being made and has received nothing yet.\<close>

definition dialing :: "byte list \<Rightarrow> byte list \<Rightarrow> attachsql_connect_t \<Rightarrow> bool" where
  "dialing user pass con \<longleftrightarrow> connecting user pass con \<and> buffers_ok con \<and> write_buffer_extra con = 0 \<and> expected con = [] \<and>
     read_buffer con = None \<and> packet_number con = 0 \<and> \<not> opt_compression con \<and> \<not> stream_closed con \<and>
     client_capabilities con AND ATTACHSQL_CAPABILITY_COMPRESS = 0 \<and> server_errno con = 0 \<and>
     con_pool con = None \<and> con_row con = None \<and> row_buffer_alloc_size con = 0"

text \<open>The stream is open: the greeting is expected.\<close>

lemma stream_opened:
  assumes "dialing user pass con" "0 \<le> status"
  shows "\<exists>con1. dispatch (Connected status) con = Some con1 \<and> connecting user pass con1 \<and>
    expects ATTACHSQL_PACKET_TYPE_HANDSHAKE con1 \<and> read_buffer con1 = None \<and> packet_number con1 = 0 \<and>
    sent con1 = sent con \<and> schema_bytes con1 = schema_bytes con \<and> login_frame con con1 \<and> client_view con1 = client_view con \<and>
    con_row con1 = con_row con \<and> stmt_row con1 = stmt_row con"
proof -
  have c: "connecting user pass con" "expected con = []" "read_buffer con = None" "packet_number con = 0"
    using assms(1) by (simp_all add: dialing_def)
  then have q: "queue_ok con" "queue_room con" "calm con" by (simp_all add: connecting_def)
  obtain c1 where c1: "queue_push ATTACHSQL_PACKET_TYPE_HANDSHAKE con = Some c1" "queue_ok c1"
    "expected c1 = [ATTACHSQL_PACKET_TYPE_HANDSHAKE]"
    using queue_push_ok[OF q(1,2)] c(2) by auto
  note f = queue_push_frame[OF c1(1)] queue_push_more[OF c1(1)] queue_push_allocs[OF c1(1)]
  let ?c = "c1\<lparr>stream_present := True\<rparr>"
  have qf: "queue_fields ?c = queue_fields c1" by (simp add: queue_fields_def)
  have e: "expects ATTACHSQL_PACKET_TYPE_HANDSHAKE ?c"
    using c1(2,3) queue_frame(1,2)[OF qf] by (simp add: expects_def)
  have "allocs c1 = []" using f q(3) by (simp add: calm_def)
  have g: "allocs ?c = []" "uv_results ?c = []" "packet_header ?c = packet_header con" "write_buffer ?c = write_buffer con"
    "scramble_buffer ?c = scramble_buffer con" "con_status ?c = con_status con" "con_user ?c = con_user con"
    "con_pass ?c = con_pass con" "schema_bytes ?c = schema_bytes con"
    using f \<open>allocs c1 = []\<close> q(3) by (simp_all add: schema_bytes_def calm_def)
  have "connecting user pass ?c" using c(1) e expects_room[OF e] g
    by (simp add: connecting_def expects_def calm_def)
  moreover have "login_frame con ?c"
    using c(1) f g by (simp add: login_frame_def calm_def connecting_def)
  moreover have "client_view ?c = client_view con" "con_row ?c = con_row con" "stmt_row ?c = stmt_row con"
    using more_view[OF queue_push_more[OF c1(1)]] by (simp_all add: client_view_def)
  ultimately show ?thesis using assms(2) c c1(1) e f g
    by (intro exI[of _ ?c]) (simp add: on_connect_def)
qed

text \<open>The greeting, received in one piece on a stream that has just been opened, and answered.\<close>

definition greeting_good :: "byte list \<Rightarrow> byte list \<Rightarrow> byte list \<Rightarrow> uint16 \<Rightarrow> byte list \<Rightarrow> bool" where
  "greeting_good version pass scramble caps filler \<longleftrightarrow> length version < ATTACHSQL_MAX_SERVER_VERSION_LEN \<and> 0 \<notin> set version \<and>
     length scramble = 20 \<and> (pass \<noteq> [] \<longrightarrow> scramble ! 0 \<noteq> 0) \<and> length filler = 13 \<and>
     (ucast caps :: uint32) AND ATTACHSQL_CAPABILITY_PROTOCOL_41 \<noteq> 0"

lemma greeted_after_opening:
  assumes d: "dialing user pass con" and good: "greeting_good version pass scramble caps filler"
    and len: "wanted + length (handshake_payload version tid scramble caps cs sstatus filler extra) + 4 \<le> ATTACHSQL_DEFAULT_BUFFER_SIZE"
  shows "\<exists>con'. dispatch_all [Connected 0, Received wanted (packet 0 (handshake_payload version tid scramble caps cs sstatus filler extra))] con =
      Some con' \<and>
    sent con' = sent con @ [packet 1 (login_answer user pass (schema_bytes con) scramble caps (client_capabilities con))] \<and>
    server_version con' = version \<and> thread_id con' = tid \<and> expects ATTACHSQL_PACKET_TYPE_RESPONSE con' \<and>
    con_status con' = ATTACHSQL_CON_STATUS_CONNECTING \<and> unread con' [] \<and>
    capacity con' = ATTACHSQL_DEFAULT_BUFFER_SIZE \<and>
    packet_number con' = 1 \<and> login_frame con con' \<and> client_view con' = client_view con \<and> con_row con' = con_row con \<and>
    stmt_row con' = stmt_row con"
proof -
  let ?p = "handshake_payload version tid scramble caps cs sstatus filler extra"
  have g: "length version < ATTACHSQL_MAX_SERVER_VERSION_LEN" "0 \<notin> set version" "length scramble = 20"
    "pass \<noteq> [] \<Longrightarrow> scramble ! 0 \<noteq> 0" "length filler = 13" "(ucast caps :: uint32) AND ATTACHSQL_CAPABILITY_PROTOCOL_41 \<noteq> 0"
    using good by (simp_all add: greeting_good_def)
  obtain c1 where c1: "dispatch (Connected 0) con = Some c1" "connecting user pass c1"
    "expects ATTACHSQL_PACKET_TYPE_HANDSHAKE c1" "read_buffer c1 = None" "packet_number c1 = 0" "sent c1 = sent con"
    "schema_bytes c1 = schema_bytes con" "login_frame con c1" "client_view c1 = client_view con" "con_row c1 = con_row con"
    "stmt_row c1 = stmt_row con"
    using stream_opened[OF d, of 0] by auto
  obtain b where b: "attachsql_buffer_create True True = Some b" "buffer_ok b" "buffer_bytes b = []" "buffer_read_ptr b = 0"
    "buffer_write_ptr b = 0" "buffer_size b = ATTACHSQL_DEFAULT_BUFFER_SIZE"
    using fresh_buffer by blast
  have o: "calm c1" "\<not> opt_compression c1" "\<not> stream_closed c1"
    using c1(2,8) d by (simp_all add: login_frame_def dialing_def)
  let ?c2 = "c1\<lparr>read_buffer := Some b\<rparr>"
  have none: "unread ?c2 []" using b(2-5) by (simp add: unread_def rewound_def)
  have fits: "length (packet 0 ?p) + wanted \<le> capacity ?c2" using len b(6) by (simp add: capacity_def packet_def)
  have ne: "packet 0 ?p \<noteq> []" by (simp add: packet_def)
  have o2: "\<not> opt_compression ?c2" "\<not> stream_closed ?c2" using o by simp_all
  obtain b1 where b1: "unread (?c2\<lparr>read_buffer := Some b1\<rparr>) (packet 0 ?p)" "buffer_size b1 = capacity ?c2"
    "receive_all wanted (packet 0 ?p) ?c2 = map_option snd (process_loop (?c2\<lparr>read_buffer := Some b1\<rparr>))"
    using bytes_arrive[OF none fits ne o2] .
  have ok1: "buffer_ok b1" "buffer_bytes b1 = packet 0 ?p" using b1(1) by (simp_all add: unread_def)
  let ?c3 = "c1\<lparr>read_buffer := Some b1\<rparr>"
  have f: "allocs ?c3 = allocs c1" "uv_results ?c3 = uv_results c1" "packet_header ?c3 = packet_header c1"
    "write_buffer ?c3 = write_buffer c1" "scramble_buffer ?c3 = scramble_buffer c1" "con_status ?c3 = con_status c1"
    "con_user ?c3 = con_user c1" "con_pass ?c3 = con_pass c1" "schema_bytes ?c3 = schema_bytes c1" "queue_fields ?c3 = queue_fields c1"
    by (simp_all add: schema_bytes_def queue_fields_def)
  have e3: "expects ATTACHSQL_PACKET_TYPE_HANDSHAKE ?c3" using c1(3) queue_frame(1,2)[OF f(10)] by (simp add: expects_def)
  have c3: "connecting user pass ?c3"
    using c1(2) e3 expects_room[OF e3] f by (simp add: connecting_def expects_def calm_def)
  have small: "length ?p < 2 ^ 24" using len by simp
  have n3: "packet_number ?c3 = 0" "read_buffer ?c3 = Some b1" using c1(5) by simp_all
  obtain con' where con': "process_loop ?c3 = Some (False, con')"
     "sent con' = sent ?c3 @ [packet (packet_number ?c3 + 1)
       (login_answer user pass (schema_bytes ?c3) scramble caps (client_capabilities ?c3))]"
     "server_version con' = version" "thread_id con' = tid" "expects ATTACHSQL_PACKET_TYPE_RESPONSE con'"
     "con_status con' = ATTACHSQL_CON_STATUS_CONNECTING" "unread con' []"
     "capacity con' = capacity ?c3"
     "packet_number con' = packet_number ?c3 + 1" "login_frame ?c3 con'" "con_core.more con' = con_core.more ?c3"
    using greeting_loop[OF c3 n3(2) ok1(1) _ small g(1-3) g(5) g(4) g(6) e3] ok1(2) n3(1) by auto
  have "receive_all wanted (packet 0 ?p) ?c2 = Some con'"
    using b1(3) con'(1) by simp
  then have "dispatch_all [Connected 0, Received wanted (packet 0 ?p)] con = Some con'"
    using c1(1) first_receive[OF c1(4) o(1,2) ne b(1) o(3), of wanted] by simp
  moreover have "client_view con' = client_view con" "con_row con' = con_row con" "stmt_row con' = stmt_row con"
    using more_view[OF con'(11)] c1(9-11) by (simp_all add: client_view_def)
  moreover have "login_frame con con'" using con'(10) c1(8) by (simp add: login_frame_def)
  moreover have "client_capabilities ?c3 = client_capabilities con" "sent ?c3 = sent con"
    using c1(6,8) by (simp_all add: login_frame_def)
  moreover have "capacity ?c3 = ATTACHSQL_DEFAULT_BUFFER_SIZE" using b1(2) b(6) by (simp add: capacity_def)
  ultimately show ?thesis using con' c1(7) n3(1) f(9) by (intro exI[of _ con']) simp
qed

section \<open>The server's OK\<close>

definition ok_good :: "uint64 \<Rightarrow> uint64 \<Rightarrow> byte list \<Rightarrow> bool" where
  "ok_good affected inserted msg \<longleftrightarrow> len_good affected \<and> len_good inserted \<and> 0 \<notin> set msg"

lemma login_done:
  assumes con: "con_status con = ATTACHSQL_CON_STATUS_CONNECTING" "expects ATTACHSQL_PACKET_TYPE_RESPONSE con"
      "packet_number con = 1" "calm con" "\<not> opt_compression con" "\<not> stream_closed con" "buffers_ok con" "write_buffer_extra con = 0"
      "client_capabilities con AND ATTACHSQL_CAPABILITY_COMPRESS = 0" "server_errno con = 0"
    and view: "con_pool con = None" "con_row con = None" "row_buffer_alloc_size con = 0"
    and b: "unread con []" "capacity con = ATTACHSQL_DEFAULT_BUFFER_SIZE"
    and ev: "uv_events con = [Received wanted (packet 2 (ok_payload affected inserted sstatus warnings msg))] # later"
    and good: "ok_good affected inserted msg"
      "wanted + length (ok_payload affected inserted sstatus warnings msg) + 4 \<le> ATTACHSQL_DEFAULT_BUFFER_SIZE"
  shows "\<exists>con'. attachsql_connect_poll (Some con) (Some e) = poll_idle con' (Some e) \<and>
    command_status con' = ATTACHSQL_COMMAND_STATUS_CONNECTED \<and> server_errno con' = 0 \<and>
    session_idle (con'\<lparr>in_query := False\<rparr>) \<and> client_view con' = client_view (con\<lparr>uv_events := later\<rparr>) \<and>
    sent con' = sent con \<and> server_version con' = server_version con \<and> thread_id con' = thread_id con \<and>
    server_status con' = sstatus \<and> stmt_row con' = stmt_row con \<and> capacity con' = ATTACHSQL_DEFAULT_BUFFER_SIZE"
proof -
  let ?p = "ok_payload affected inserted sstatus warnings msg" and ?c = "con\<lparr>uv_events := later\<rparr>"
  have ne: "packet 2 ?p \<noteq> []" by (simp add: packet_def)
  have fits: "unread ?c []" "length (packet 2 ?p) + wanted \<le> capacity ?c" "\<not> opt_compression ?c" "\<not> stream_closed ?c"
    using b con(5,6) good(2) by (simp_all add: unread_def capacity_def packet_def)
  obtain b1 where b1: "unread (?c\<lparr>read_buffer := Some b1\<rparr>) (packet 2 ?p)" "buffer_size b1 = capacity ?c"
    "receive_all wanted (packet 2 ?p) ?c = map_option snd (process_loop (?c\<lparr>read_buffer := Some b1\<rparr>))"
    using bytes_arrive[OF fits(1,2) ne fits(3,4)] .
  let ?c1 = "?c\<lparr>read_buffer := Some b1\<rparr>"
  have qf: "queue_fields ?c1 = queue_fields con" by (simp add: queue_fields_def)
  have e1: "expects ATTACHSQL_PACKET_TYPE_RESPONSE ?c1" using con(2) queue_frame(1,2)[OF qf] by (simp add: expects_def)
  have u: "unread ?c1 (packet (packet_number ?c1 + 1) ?p @ [])" using b1(1) con(3) by simp
  have small: "length ?p < 2 ^ 24" using good(2) by simp
  have n: "packet_number ?c1 + 1 < 0x80" "\<not> opt_compression ?c1" using con(3,5) by simp_all
  obtain b2 where r: "attachsql_con_process_packets ?c1 = Some (False, ok_received affected inserted sstatus warnings msg
      (taken (length ?p) (packet_number ?c1 + 1) b2 ?c1))"
    and b2: "packet_in (packet_body (of_nat (length ?p)) b2) ?p []" "buffer_size b2 = capacity ?c1"
    using ok_loop[OF u small _ _ _ n(1) e1 n(2)] good(1) by (auto simp: ok_good_def)
  let ?c2 = "ok_received affected inserted sstatus warnings msg (taken (length ?p) (packet_number ?c1 + 1) b2 ?c1)"
  have f: "con_status ?c2 = ATTACHSQL_CON_STATUS_IDLE" "command_status ?c2 = ATTACHSQL_COMMAND_STATUS_CONNECTED"
    "server_errno ?c2 = 0" "\<not> opt_compression ?c2" "con_row ?c2 = con_row con" "stmt_row ?c2 = stmt_row con" "writer ?c2 = writer con"
    "allocs ?c2 = allocs con" "client_view ?c2 = client_view ?c" "server_status ?c2 = sstatus"
    "server_version ?c2 = server_version con" "thread_id ?c2 = thread_id con" "sent ?c2 = sent con"
    using con view by (simp_all add: ok_received_def taken_def writer_def client_view_def)
  have "process_loop ?c1 = Some (False, ?c2)" using r n(2) by (simp add: attachsql_con_process_packets_def)
  then have "dispatch_all [Received wanted (packet 2 ?p)] ?c = Some ?c2"
    using b1(3) by simp
  then have "attachsql_connect_poll (Some con) (Some e) = poll_idle ?c2 (Some e)"
    using poll_connecting(2)[OF con(1) view(1) ev] f(1) by blast
  moreover have "session_idle (?c2\<lparr>in_query := False\<rparr>)"
  proof -
    let ?d = "?c2\<lparr>in_query := False\<rparr>"
    have w: "writer ?d = writer con" "allocs ?d = allocs con" "client_view ?d = client_view (?c\<lparr>in_query := False\<rparr>)"
      using f(7-9) by (simp_all add: writer_def client_view_def)
    have "expects_none ?d" using taken_ready[OF e1, of ?d] by (simp add: queue_fields_def ok_received_def)
    moreover have "unread ?d []" by (rule unread_past[OF b2(1)]) (simp add: ok_received_def taken_def)
    moreover have "calm ?d" "buffers_ok ?d" "extra_bytes ?d []" "\<not> stream_closed ?d"
      "client_capabilities ?d AND ATTACHSQL_CAPABILITY_COMPRESS = 0"
      using w(1,2) con by (simp_all add: writer_def calm_def buffers_ok_def extra_bytes_def)
    moreover have "row_buffer_alloc_size ?d = 0" "con_pool ?d = None"
      using w(3) view by (simp_all add: client_view_def)
    moreover have "con_status ?d = ATTACHSQL_CON_STATUS_IDLE" "\<not> opt_compression ?d" "con_row ?d = None" "\<not> in_query ?d"
      using f(1,4,5) view(2) by simp_all
    ultimately show ?thesis by (simp add: session_idle_def query_ready_def expects_none_def)
  qed
  moreover have "capacity ?c2 = ATTACHSQL_DEFAULT_BUFFER_SIZE"
    using b(2) b1(2) b2(2) by (simp add: capacity_def ok_received_def taken_def)
  ultimately show ?thesis using f by blast
qed

text \<open>The two polls between opening the stream and a connection that is idle; what then happens depends on what waits.\<close>

definition login_events ::
  "nat \<Rightarrow> byte list \<Rightarrow> nat \<Rightarrow> byte list \<Rightarrow> uv_event list list \<Rightarrow> uv_event list list" where
  "login_events n1 greet n2 ok later =
     [Resolved 0] # [Connected 0, Received n1 (packet 0 greet)] # [Received n2 (packet 2 ok)] # later"

lemma login_polls:
  assumes d: "dialing user pass con"
    and ev: "uv_events con = [Connected 0, Received n1 (packet 0 (handshake_payload version tid scramble caps cs sstatus filler extra))] #
      [Received n2 (packet 2 (ok_payload affected inserted s2 warnings msg))] # later"
    and good: "greeting_good version pass scramble caps filler" "ok_good affected inserted msg"
    and n1: "n1 + length (handshake_payload version tid scramble caps cs sstatus filler extra) + 4 \<le> ATTACHSQL_DEFAULT_BUFFER_SIZE"
    and n2: "n2 + length (ok_payload affected inserted s2 warnings msg) + 4 \<le> ATTACHSQL_DEFAULT_BUFFER_SIZE"
  shows "\<exists>con2 con3. attachsql_connect_poll (Some con) (Some e) = Some (ATTACHSQL_RETURN_CONNECTING, Some e, Some con2) \<and>
    sent con2 = sent con @ [packet 1 (login_answer user pass (schema_bytes con) scramble caps (client_capabilities con))] \<and>
    attachsql_connect_poll (Some con2) (Some e) = poll_idle con3 (Some e) \<and>
    command_status con3 = ATTACHSQL_COMMAND_STATUS_CONNECTED \<and> server_errno con3 = 0 \<and>
    session_idle (con3\<lparr>in_query := False\<rparr>) \<and> client_view con3 = client_view (con\<lparr>uv_events := later\<rparr>) \<and>
    sent con3 = sent con2 \<and> server_version con3 = version \<and> thread_id con3 = tid \<and> server_status con3 = s2 \<and>
    stmt_row con3 = stmt_row con \<and> capacity con3 = ATTACHSQL_DEFAULT_BUFFER_SIZE"
proof -
  let ?greet = "handshake_payload version tid scramble caps cs sstatus filler extra" and ?ok = "ok_payload affected inserted s2 warnings msg"
  let ?d = "con\<lparr>uv_events := [Received n2 (packet 2 ?ok)] # later\<rparr>"
  have qf: "queue_fields ?d = queue_fields con" "fst (alloc ?d) = fst (alloc con)"
    by (simp_all add: queue_fields_def alloc_def split: list.split)
  have "queue_room ?d = queue_room con" using qf by (simp add: queue_room_def queue_fields_def)
  then have d': "dialing user pass ?d" "schema_bytes ?d = schema_bytes con"
    using d queue_frame(1,2)[OF qf(1)] by (simp_all add: dialing_def connecting_def calm_def buffers_ok_def schema_bytes_def)
  obtain c2 where c2: "dispatch_all [Connected 0, Received n1 (packet 0 ?greet)] ?d = Some c2"
    "sent c2 = sent ?d @ [packet 1 (login_answer user pass (schema_bytes ?d) scramble caps (client_capabilities ?d))]"
    "server_version c2 = version" "thread_id c2 = tid" "expects ATTACHSQL_PACKET_TYPE_RESPONSE c2"
    "con_status c2 = ATTACHSQL_CON_STATUS_CONNECTING" "unread c2 []" "capacity c2 = ATTACHSQL_DEFAULT_BUFFER_SIZE"
    "packet_number c2 = 1" "login_frame ?d c2" "client_view c2 = client_view ?d" "con_row c2 = con_row ?d" "stmt_row c2 = stmt_row ?d"
    using greeted_after_opening[OF d'(1) good(1) n1] by blast
  have p1: "con_status con = ATTACHSQL_CON_STATUS_CONNECTING" "con_pool con = None"
    using d by (simp_all add: dialing_def connecting_def)
  have poll1: "attachsql_connect_poll (Some con) (Some e) = Some (ATTACHSQL_RETURN_CONNECTING, Some e, Some c2)"
    by (rule poll_connecting(1)[OF p1 ev c2(1,6)])
  have f: "calm c2" "\<not> opt_compression c2" "\<not> stream_closed c2" "buffers_ok c2" "write_buffer_extra c2 = 0"
    "client_capabilities c2 AND ATTACHSQL_CAPABILITY_COMPRESS = 0" "server_errno c2 = 0"
    using c2(10) d'(1) by (simp_all add: login_frame_def dialing_def buffers_ok_def)
  have v: "con_pool c2 = None" "con_row c2 = None" "row_buffer_alloc_size c2 = 0" "uv_events c2 = [Received n2 (packet 2 ?ok)] # later"
    using c2(11,12) d'(1) by (simp_all add: client_view_def dialing_def)
  have later: "client_view (c2\<lparr>uv_events := later\<rparr>) = client_view (con\<lparr>uv_events := later\<rparr>)"
    using c2(11) by (simp add: client_view_def)
  obtain c3 where c3: "attachsql_connect_poll (Some c2) (Some e) = poll_idle c3 (Some e)"
    "command_status c3 = ATTACHSQL_COMMAND_STATUS_CONNECTED" "server_errno c3 = 0" "session_idle (c3\<lparr>in_query := False\<rparr>)"
    "client_view c3 = client_view (c2\<lparr>uv_events := later\<rparr>)" "sent c3 = sent c2" "server_version c3 = server_version c2"
    "thread_id c3 = thread_id c2" "server_status c3 = s2" "stmt_row c3 = stmt_row c2" "capacity c3 = ATTACHSQL_DEFAULT_BUFFER_SIZE"
    using login_done[OF c2(6,5,9) f(1-7) v(1-3) c2(7,8) v(4) good(2) n2, of e] by blast
  show ?thesis using poll1 c3 later c2(2-4,13) d'(2) by (intro exI[of _ c2] exI[of _ c3]) simp
qed

section \<open>Properties\<close>

text \<open>
  C2. A connection from its creation on: \<open>attachsql_connect\<close> begins, the first poll answers the greeting of
  the server with one packet whose token the server accepts for the password, the second poll finds the
  server's OK and reports it, and the connection is ready for its first query.
\<close>

theorem login_session:
  assumes "length user \<le> ATTACHSQL_MAX_USER_SIZE" "length schema \<le> ATTACHSQL_MAX_SCHEMA_SIZE" "length pass \<le> 2 ^ 32 - 64" "pass \<noteq> []"
    and "port \<noteq> 0" "greeting_good version pass scramble caps filler" "ok_good affected inserted msg"
    and "n1 + length (handshake_payload version tid scramble caps cs sstatus filler extra) + 4 \<le> ATTACHSQL_DEFAULT_BUFFER_SIZE"
    and "n2 + length (ok_payload affected inserted s2 warnings msg) + 4 \<le> ATTACHSQL_DEFAULT_BUFFER_SIZE"
  shows "\<exists>con0 con1 con2 con3 token.
    attachsql_connect_create (connect_init l [] [] (login_events n1 (handshake_payload version tid scramble caps cs sstatus filler extra)
      n2 (ok_payload affected inserted s2 warnings msg) later)) host port (Some user) (Some pass) (Some schema) (Some e) =
      Some (Some e, Some con0) \<and>
    attachsql_connect (Some con0) (Some e) = Some (True, Some e, Some con1) \<and>
    attachsql_connect_poll (Some con1) (Some e) = Some (ATTACHSQL_RETURN_CONNECTING, Some e, Some con2) \<and>
    sent con2 = [packet 1 (response_payload ((ucast caps AND ATTACHSQL_CAPABILITY_CLIENT) OR ATTACHSQL_CAPABILITY_MULTI_RESULTS)
      user (20 # token) schema)] \<and> server_accepts (sha1 (sha1 pass)) scramble token \<and>
    attachsql_connect_poll (Some con2) (Some e) = Some (ATTACHSQL_RETURN_EOF, Some e, Some con3) \<and>
    session_ready con3 \<and> uv_events con3 = later \<and> sent con3 = sent con2 \<and>
    server_version con3 = version \<and> thread_id con3 = tid \<and> server_status con3 = s2 \<and>
    capacity con3 = ATTACHSQL_DEFAULT_BUFFER_SIZE"
proof -
  let ?greet = "handshake_payload version tid scramble caps cs sstatus filler extra" and ?ok = "ok_payload affected inserted s2 warnings msg"
  let ?fresh = "connect_init l [] [] (login_events n1 ?greet n2 ?ok later)"
  let ?c0 = "?fresh\<lparr>con_host := host, con_port := port, con_user := Some user, con_pass := Some pass, con_schema := Some schema\<rparr>"
  have fresh: "calm ?fresh" by (simp add: calm_def connect_init_def con_core.defs core_init_def)
  have create: "attachsql_connect_create ?fresh host port (Some user) (Some pass) (Some schema) (Some e) = Some (Some e, Some ?c0)"
    using fresh assms(1,2) by (simp add: attachsql_connect_create_def Let_def)
  have c0: "calm ?c0" "con_status ?c0 = ATTACHSQL_CON_STATUS_NOT_CONNECTED" "con_pool ?c0 = None" "con_port ?c0 \<noteq> 0"
    "opt_protocol ?c0 = ATTACHSQL_CON_PROTOCOL_UNKNOWN"
    "uv_events ?c0 = [Resolved 0] # [Connected 0, Received n1 (packet 0 ?greet)] # [Received n2 (packet 2 ?ok)] # later"
    using assms(5) by (simp_all add: calm_def connect_init_def con_core.defs core_init_def login_events_def)
  let ?c1 = "?c0\<lparr>loop_present := True, opt_protocol := ATTACHSQL_CON_PROTOCOL_TCP, con_status := ATTACHSQL_CON_STATUS_CONNECTING,
    uv_events := [Connected 0, Received n1 (packet 0 ?greet)] # [Received n2 (packet 2 ?ok)] # later\<rparr>"
  have conn: "attachsql_connect (Some ?c0) (Some e) = Some (True, Some e, Some ?c1)"
    by (rule connect_begins[OF c0]) simp
  have d: "dialing user pass ?c1" "client_capabilities ?c1 = 0" "schema_bytes ?c1 = schema" "sent ?c1 = []"
    using assms(1-3)
    by (simp_all add: dialing_def connecting_def calm_def buffers_ok_def queue_ok_def queue_room_def alloc_def expected_def
        schema_bytes_def connect_init_def con_core.defs core_init_def)
  have ev: "uv_events ?c1 = [Connected 0, Received n1 (packet 0 ?greet)] # [Received n2 (packet 2 ?ok)] # later" by simp
  obtain c2 c3 where c: "attachsql_connect_poll (Some ?c1) (Some e) = Some (ATTACHSQL_RETURN_CONNECTING, Some e, Some c2)"
    "sent c2 = sent ?c1 @ [packet 1 (login_answer user pass (schema_bytes ?c1) scramble caps (client_capabilities ?c1))]"
    "attachsql_connect_poll (Some c2) (Some e) = poll_idle c3 (Some e)" "command_status c3 = ATTACHSQL_COMMAND_STATUS_CONNECTED"
    "server_errno c3 = 0" "session_idle (c3\<lparr>in_query := False\<rparr>)" "client_view c3 = client_view (?c1\<lparr>uv_events := later\<rparr>)"
    "sent c3 = sent c2" "server_version c3 = version" "thread_id c3 = tid" "server_status c3 = s2"
    "capacity c3 = ATTACHSQL_DEFAULT_BUFFER_SIZE"
    using login_polls[OF d(1) ev assms(6-9), of e] by blast
  have v: "\<not> in_query c3" "con_pool c3 = None" "\<not> buffer_rows c3" "query_buffer_length c3 = 0" "uv_events c3 = later"
    using c(7) by (simp_all add: client_view_def connect_init_def con_core.defs)
  then have "c3\<lparr>in_query := False\<rparr> = c3" by simp
  then have ready: "session_ready c3" using c(6) v(3) by (simp add: session_ready_def)
  have "poll_idle c3 (Some e) = Some (ATTACHSQL_RETURN_EOF, Some e, Some c3)"
    using c(4,5) v(2,4) send_event_alone by (simp add: poll_idle_def)
  moreover have "sent c2 = [packet 1 (response_payload ((ucast caps AND ATTACHSQL_CAPABILITY_CLIENT) OR ATTACHSQL_CAPABILITY_MULTI_RESULTS)
      user (20 # password_token pass scramble) schema)]"
    using c(2) d(2-4) assms(4) by (simp add: login_answer_def auth_of_def)
  moreover have "server_accepts (sha1 (sha1 pass)) scramble (password_token pass scramble)"
    using token_accepted[of pass scramble] by simp
  ultimately show ?thesis using create conn c(1,3,8-12) ready v(5)
    by (intro exI[of _ ?c0] exI[of _ ?c1] exI[of _ c2] exI[of _ c3] exI[of _ "password_token pass scramble"]) simp
qed

theorem login_session_witness:
  "\<exists>con0 con1 con2 con3.
    attachsql_connect_create (connect_init (lib one_expected) [] [] (login_events 65536 (greeting (str ''5.5'')) 65536
      (ok_payload 0 0 2 0 []) [])) (Some (str ''db'')) 3306 (Some (str ''root'')) (Some (str ''secret'')) (Some (str ''test''))
      (Some None) = Some (Some None, Some con0) \<and>
    attachsql_connect (Some con0) (Some None) = Some (True, Some None, Some con1) \<and>
    attachsql_connect_poll (Some con1) (Some None) = Some (ATTACHSQL_RETURN_CONNECTING, Some None, Some con2) \<and>
    attachsql_connect_poll (Some con2) (Some None) = Some (ATTACHSQL_RETURN_EOF, Some None, Some con3) \<and>
    session_ready con3 \<and> server_version con3 = str ''5.5'' \<and> thread_id con3 = 7"
proof -
  have g: "greeting_good (str ''5.5'') (str ''secret'') (replicate 20 0x42) 0xf7ff (replicate 13 0)"
    by (simp add: greeting_good_def str_def)
  have o: "ok_good 0 0 []" by (simp add: ok_good_def len_good_def)
  have l: "length (str ''root'') \<le> ATTACHSQL_MAX_USER_SIZE" "length (str ''test'') \<le> ATTACHSQL_MAX_SCHEMA_SIZE"
    "length (str ''secret'') \<le> 2 ^ 32 - 64" "str ''secret'' \<noteq> []" "(3306 :: uint16) \<noteq> 0" by (simp_all add: str_def)
  have n1: "65536 + length (handshake_payload (str ''5.5'') 7 (replicate 20 0x42) 0xf7ff 8 2 (replicate 13 0) []) + 4 \<le>
      ATTACHSQL_DEFAULT_BUFFER_SIZE"
    by (simp add: handshake_payload_def handshake_body_def str_def)
  have n2: "65536 + length (ok_payload 0 0 2 0 []) + 4 \<le> ATTACHSQL_DEFAULT_BUFFER_SIZE"
    by (simp add: ok_payload_def enc_length_def)
  from login_session[OF l g o n1 n2] show ?thesis unfolding greeting_def by fast
qed

end
