(* ===== verification/Buffered.thy ===== *)
theory Buffered
  imports Session
begin

text \<open>
  Results whose rows are buffered: each poll stores one row of those received, the one after the last
  reports the end, and then the client takes the rows, which are pointers into the read buffer.
\<close>

section \<open>The array of rows\<close>

text \<open>
  The rows \<open>ds\<close> have been stored and can be read. The array is not there before the first of them.
\<close>

definition rows_stored :: "byte list list list \<Rightarrow> attachsql_connect_t \<Rightarrow> bool" where
  "rows_stored ds con \<longleftrightarrow>
     row_buffer_count con = length ds \<and>
     (case row_buffer con of
        NullRows \<Rightarrow> ds = [] \<and> row_buffer_alloc_size con = 0
      | Rows rows \<Rightarrow> length rows = row_buffer_alloc_size con \<and> length ds \<le> length rows
      | FreedRows \<Rightarrow> False) \<and>
     (\<forall>i < length ds. \<exists>row. buffered_row i con = Some row \<and> map (value_bytes con) row = map Some (ds ! i))"

lemma rows_stored_frame:
  assumes "rows_stored ds con" "same_memory con con'" "row_view con' = row_view con"
  shows "rows_stored ds con'"
proof -
  have "value_bytes con' = value_bytes con"
    using assms(2) by (auto simp: fun_eq_iff value_bytes_def deref_def same_memory_def split: bind_splits)
  moreover have "buffered_row i con' = buffered_row i con" for i using assms(3) by (simp add: buffered_row_def row_view_def)
  ultimately show ?thesis using assms(1,3) by (simp add: rows_stored_def row_view_def split: rows_ptr.splits)
qed

text \<open>Memory for the array is there when it is needed.\<close>

lemma enlarge_ok:
  assumes "rows_stored ds con" "allocs con = []"
  shows "\<exists>rows. enlarge_rows con = Some (True, con\<lparr>row_buffer := Rows rows, row_buffer_alloc_size := length rows\<rparr>) \<and>
    rows_stored ds (con\<lparr>row_buffer := Rows rows, row_buffer_alloc_size := length rows\<rparr>) \<and> length ds < length rows"
proof -
  have a: "alloc (con\<lparr>row_buffer_alloc_size := n\<rparr>) = (True, con\<lparr>row_buffer_alloc_size := n\<rparr>)" for n
    using assms(2) by (simp add: alloc_def)
  let ?c = "\<lambda>rows. con\<lparr>row_buffer := Rows rows, row_buffer_alloc_size := length rows\<rparr>"
  have v: "value_bytes (con\<lparr>row_buffer := r, row_buffer_alloc_size := n\<rparr>) = value_bytes con" for r n
    by (rule values_frame) simp
  show ?thesis
  proof (cases "row_buffer con")
    case NullRows
    then have ds: "ds = []" "row_buffer_alloc_size con = 0" "row_buffer_count con = 0" using assms(1) by (simp_all add: rows_stored_def)
    then have "enlarge_rows con = Some (True, ?c (replicate ATTACHSQL_BUFFER_ROW_ALLOC_SIZE None))"
      using a NullRows by (simp add: enlarge_rows_def Let_def)
    then show ?thesis using ds
      by (intro exI[of _ "replicate ATTACHSQL_BUFFER_ROW_ALLOC_SIZE None"]) (simp add: rows_stored_def)
  next
    case (Rows rows)
    let ?more = "rows @ replicate ATTACHSQL_BUFFER_ROW_ALLOC_SIZE None"
    have r: "length rows = row_buffer_alloc_size con" "length ds \<le> length rows" "row_buffer_count con = length ds"
      using assms(1) Rows by (simp_all add: rows_stored_def)
    have same: "buffered_row i (con\<lparr>row_buffer := Rows (rows @ xs), row_buffer_alloc_size := n\<rparr>) = buffered_row i con"
      if "i < length ds" for i xs n
      using that r(2) Rows by (simp add: buffered_row_def nth_append)
    have keeps: "rows_stored ds (?c (rows @ xs))" for xs
      using assms(1) r same v by (simp add: rows_stored_def)
    show ?thesis
    proof (cases "length rows \<le> length ds")
      case True
      then have "enlarge_rows con = Some (True, ?c ?more)"
        using a Rows r by (simp add: enlarge_rows_def Let_def)
      then show ?thesis using keeps[of "replicate ATTACHSQL_BUFFER_ROW_ALLOC_SIZE None"] r(2)
        by (intro exI[of _ ?more]) simp
    next
      case False
      moreover have c: "?c rows = con" using Rows r(1) by (cases con) simp
      ultimately have "enlarge_rows con = Some (True, ?c rows)" using r by (simp only: c) (simp add: enlarge_rows_def)
      then show ?thesis using False assms(1) c by (intro exI[of _ rows]) simp
    qed
  next
    case FreedRows
    then show ?thesis using assms(1) by (simp add: rows_stored_def)
  qed
qed

lemma store_ok:
  assumes "rows_stored ds con" "row_buffer con = Rows rows" "length ds < length rows" "map (value_bytes con) row = map Some vs"
  shows "\<exists>rows'. store_row row con = Some (con\<lparr>row_buffer := Rows rows', row_buffer_count := length ds + 1\<rparr>) \<and>
    rows_stored (ds @ [vs]) (con\<lparr>row_buffer := Rows rows', row_buffer_count := length ds + 1\<rparr>)"
proof -
  let ?c = "con\<lparr>row_buffer := Rows (rows[length ds := Some row]), row_buffer_count := length ds + 1\<rparr>"
  have v: "value_bytes ?c = value_bytes con" by (rule values_frame) simp
  have n: "row_buffer_count con = length ds" using assms(1) by (simp add: rows_stored_def)
  have "buffered_row i ?c = (if i = length ds then Some row else buffered_row i con)" if "i < Suc (length ds)" for i
    using that assms(2,3) by (simp add: buffered_row_def)
  then have "rows_stored (ds @ [vs]) ?c"
    using assms v by (auto simp: rows_stored_def nth_append less_Suc_eq)
  then show ?thesis using assms(2,3) n by (intro exI[of _ "rows[length ds := Some row]"]) (simp add: store_row_def)
qed

section \<open>Polling\<close>

lemma nothing_expected:
  assumes "expects_none con" "read_buffer con \<noteq> None" "\<not> opt_compression con"
  shows "attachsql_con_process_packets con = Some (False, con)"
  using assms nothing_awaited[of con] by (auto simp: attachsql_con_process_packets_def)

text \<open>A poll with a row in the buffer stores it and takes the next packet, if it is there.\<close>

lemma poll_stores:
  assumes held: "row_held (row_payload r) rest con" and good: "row_good (unat (column_count (con_result con))) r"
    and stored: "rows_stored ds con" and calm: "allocs con = []" and idle: "server_errno con = 0" "buffer_rows con"
  shows "\<exists>con1. (\<forall>st con2. attachsql_get_next_row con1 = Some (st, con2) \<longrightarrow> read_buffer con2 \<noteq> None \<longrightarrow> expects_none con2 \<longrightarrow>
      con_status con2 = ATTACHSQL_CON_STATUS_IDLE \<longrightarrow> \<not> opt_compression con2 \<longrightarrow>
      attachsql_connect_poll (Some con) error = Some (ATTACHSQL_RETURN_PROCESSING, error, Some con2)) \<and>
    row_held (row_payload r) rest con1 \<and> rows_stored (ds @ [r]) con1 \<and>
    (\<exists>x n m. con1 = con\<lparr>row_buffer := x, row_buffer_alloc_size := n, row_buffer_count := m\<rparr>)"
proof -
  obtain rows where e: "enlarge_rows con = Some (True, con\<lparr>row_buffer := Rows rows, row_buffer_alloc_size := length rows\<rparr>)"
    "rows_stored ds (con\<lparr>row_buffer := Rows rows, row_buffer_alloc_size := length rows\<rparr>)" "length ds < length rows"
    using enlarge_ok[OF stored calm] by blast
  let ?a = "con\<lparr>row_buffer := Rows rows, row_buffer_alloc_size := length rows\<rparr>"
  have len: "length r = unat (column_count (con_result con))" "r \<noteq> []" "\<forall>v \<in> set r. string_good v"
    using good by (simp_all add: row_good_def)
  obtain row where row: "row_values con = Some row" "map (value_bytes con) row = map Some r"
    using held_values[OF held len] by blast
  have v: "row_values ?a = Some row" "map (value_bytes ?a) row = map Some r"
    using row values_frame[of ?a con] by simp_all
  obtain rows' where s: "store_row row ?a = Some (?a\<lparr>row_buffer := Rows rows', row_buffer_count := length ds + 1\<rparr>)"
    "rows_stored (ds @ [r]) (?a\<lparr>row_buffer := Rows rows', row_buffer_count := length ds + 1\<rparr>)"
    using store_ok[OF e(2) _ e(3) v(2)] by auto
  let ?b = "?a\<lparr>row_buffer := Rows rows', row_buffer_count := length ds + 1\<rparr>"
  have al: "alloc ?a = (True, ?a)" using calm by (simp add: alloc_def)
  have st: "con_status con = ATTACHSQL_CON_STATUS_IDLE" "command_status con = ATTACHSQL_COMMAND_STATUS_ROW_IN_BUFFER"
    using held by (simp_all add: row_held_def)
  have "attachsql_connect_poll (Some con) error = Some (ATTACHSQL_RETURN_PROCESSING, error, Some con2)"
    if "attachsql_get_next_row ?b = Some (st, con2)" "read_buffer con2 \<noteq> None" "expects_none con2"
      "con_status con2 = ATTACHSQL_CON_STATUS_IDLE" "\<not> opt_compression con2" for st con2
  proof -
    have "buffer_one_row error con = Some (Some ATTACHSQL_RETURN_PROCESSING, error, con2)"
      using e(1) al v(1) s(1) that nothing_expected[OF that(3,2,5)] by (simp add: buffer_one_row_def)
    then have "attachsql_query_row_buffer con error = Some (ATTACHSQL_RETURN_PROCESSING, error, con2)"
      by (simp add: attachsql_query_row_buffer.simps)
    then show ?thesis using poll_resting[OF st(1)] st(2) idle by (simp add: poll_idle_def)
  qed
  moreover have "row_held (row_payload r) rest ?b" by (rule row_held_frame[OF held]) (simp_all add: queue_fields_def)
  moreover have "?b = con\<lparr>row_buffer := Rows rows', row_buffer_alloc_size := length rows, row_buffer_count := length ds + 1\<rparr>"
    by simp
  ultimately show ?thesis using s(2) by (intro exI[of _ ?b]) blast
qed

text \<open>What buffering leaves alone.\<close>

definition same_buffering :: "attachsql_connect_t \<Rightarrow> attachsql_connect_t \<Rightarrow> bool" where
  "same_buffering con con' \<longleftrightarrow> same_core con con' \<and> con_pool con' = con_pool con \<and> buffer_rows con' = buffer_rows con \<and>
     uv_events con' = uv_events con \<and> row_buffer_position con' = row_buffer_position con \<and> loop_present con' = loop_present con"

lemma same_buffering_trans: "same_buffering a b \<Longrightarrow> same_buffering b c \<Longrightarrow> same_buffering a c"
  by (simp add: same_buffering_def same_core_def)

lemma same_session_buffering: "same_session con con' \<Longrightarrow> same_buffering con con'"
  by (simp add: same_session_def same_buffering_def client_view_def)

lemma same_buffering_rows:
  "same_buffering con (con\<lparr>row_buffer := x, row_buffer_alloc_size := n, row_buffer_count := m\<rparr>)"
  by (simp add: same_buffering_def same_defs)

text \<open>A client that polls so many times, or until an error is reported.\<close>

fun poll_times ::
  "nat \<Rightarrow> error_ptr \<Rightarrow> attachsql_connect_t \<Rightarrow> (attachsql_return_t list \<times> error_ptr \<times> attachsql_connect_t) option" where
  "poll_times 0 error con = Some ([], error, con)"
| "poll_times (Suc k) error con =
     do { (r, error', c) \<leftarrow> attachsql_connect_poll (Some con) error;
          con \<leftarrow> c;
          if error' \<noteq> error then Some ([r], error', con)
          else do { (rs, error', con) \<leftarrow> poll_times k error con;
                    Some (r # rs, error', con) } }"

lemma poll_times_Suc:
  "attachsql_connect_poll (Some con) error = Some (r, error, Some con1) \<Longrightarrow> poll_times k error con1 = Some (rs, x, con') \<Longrightarrow>
    poll_times (Suc k) error con = Some (r # rs, x, con')"
  by simp

lemma rows_polled:
  assumes "row_held (row_payload r) (row_stream (packet_number con + 1) rs (eof_payload warnings sstatus) @ rest) con"
    and "\<forall>row \<in> set (r # rs). row_good (unat (column_count (con_result con))) row"
    and "unat (packet_number con) + length rs + 1 < 128"
    and "rows_stored ds con" "allocs con = []" "server_errno con = 0" "buffer_rows con"
  shows "\<exists>con'. poll_times (length (r # rs)) error con =
      Some (replicate (length (r # rs)) ATTACHSQL_RETURN_PROCESSING, error, con') \<and>
    con_status con' = ATTACHSQL_CON_STATUS_IDLE \<and> command_status con' = ATTACHSQL_COMMAND_STATUS_EOF \<and>
    server_status con' = sstatus \<and> expects_none con' \<and> unread con' rest \<and> rows_stored (ds @ r # rs) con' \<and>
    column_count (con_result con') = column_count (con_result con) \<and> same_buffering con con'"
  using assms
proof (induction rs arbitrary: r con ds)
  case Nil
  let ?n = "packet_number con + 1" and ?eof = "eof_payload warnings sstatus"
  have r: "row_good (unat (column_count (con_result con))) r" using Nil.prems(2) by simp
  obtain con1 where c1: "\<And>st con2. attachsql_get_next_row con1 = Some (st, con2) \<Longrightarrow> read_buffer con2 \<noteq> None \<Longrightarrow> expects_none con2 \<Longrightarrow>
      con_status con2 = ATTACHSQL_CON_STATUS_IDLE \<Longrightarrow> \<not> opt_compression con2 \<Longrightarrow>
      attachsql_connect_poll (Some con) error = Some (ATTACHSQL_RETURN_PROCESSING, error, Some con2)"
    "row_held (row_payload r) (packet ?n ?eof @ rest) con1" "rows_stored (ds @ [r]) con1"
    "\<exists>x n m. con1 = con\<lparr>row_buffer := x, row_buffer_alloc_size := n, row_buffer_count := m\<rparr>"
    using poll_stores[OF Nil.prems(1) r Nil.prems(4-7)] by (simp only: row_stream.simps) blast
  have f: "packet_number con1 = packet_number con" "same_buffering con con1" "con_result con1 = con_result con"
    using c1(4) same_buffering_rows by auto
  have n: "?n = packet_number con1 + 1" "?n < 0x80" using f(1) unat_plus1[OF Nil.prems(3)] by simp_all
  obtain con2 where e: "attachsql_get_next_row con1 = Some (ATTACHSQL_COMMAND_STATUS_EOF, con2)"
    "con_status con2 = ATTACHSQL_CON_STATUS_IDLE" "command_status con2 = ATTACHSQL_COMMAND_STATUS_EOF"
    "server_status con2 = sstatus" "expects_none con2" "unread con2 rest" "same_client con1 con2" "same_memory con1 con2"
    "column_count (con_result con2) = column_count (con_result con1)"
    using next_row_eof[OF c1(2) n] by blast
  have x: "read_buffer con2 \<noteq> None" "\<not> opt_compression con2"
    using e(6,7) c1(2) by (auto simp: unread_def row_held_def same_defs)
  have s: "same_session con1 con2" by (rule same_client_session[OF e(7)])
  then have "rows_stored (ds @ [r]) con2"
    using rows_stored_frame[OF c1(3) e(8)] client_row_view[of con2 con1] by (simp add: same_session_def)
  then show ?case using c1(1)[OF e(1) x(1) e(5,2) x(2)] e f(3) same_buffering_trans[OF f(2) same_session_buffering[OF s]] by simp
next
  case (Cons r' rs)
  let ?n = "packet_number con + 1" and ?eof = "eof_payload warnings sstatus"
  let ?s = "row_stream (?n + 1) rs ?eof @ rest"
  have r: "row_good (unat (column_count (con_result con))) r" "row_good (unat (column_count (con_result con))) r'"
    using Cons.prems(2) by simp_all
  obtain con1 where c1: "\<And>st con2. attachsql_get_next_row con1 = Some (st, con2) \<Longrightarrow> read_buffer con2 \<noteq> None \<Longrightarrow> expects_none con2 \<Longrightarrow>
      con_status con2 = ATTACHSQL_CON_STATUS_IDLE \<Longrightarrow> \<not> opt_compression con2 \<Longrightarrow>
      attachsql_connect_poll (Some con) error = Some (ATTACHSQL_RETURN_PROCESSING, error, Some con2)"
    "row_held (row_payload r) (row_stream ?n (r' # rs) ?eof @ rest) con1" "rows_stored (ds @ [r]) con1"
    "\<exists>x n m. con1 = con\<lparr>row_buffer := x, row_buffer_alloc_size := n, row_buffer_count := m\<rparr>"
    using poll_stores[OF Cons.prems(1) r(1) Cons.prems(4-7)] by blast
  have f: "packet_number con1 = packet_number con" "con_result con1 = con_result con" "same_buffering con con1"
    "allocs con1 = []" "server_errno con1 = 0" "buffer_rows con1"
    using c1(4) same_buffering_rows Cons.prems(5-7) by auto
  have held: "row_held (row_payload r) (packet ?n (row_payload r') @ ?s) con1" using c1(2) by simp
  have n: "?n = packet_number con1 + 1" "?n < 0x80" "unat ?n + length rs + 1 < 128"
    using f(1) unat_plus1[OF Cons.prems(3)] Cons.prems(3) by simp_all
  have p: "row_payload r' \<noteq> []" "hd (row_payload r') \<noteq> 0xfe" "length (row_payload r') < 2 ^ 24"
    using row_payload_starts[OF r(2)] r(2) by (simp_all add: row_good_def)
  obtain con2 where e: "attachsql_get_next_row con1 = Some (ATTACHSQL_COMMAND_STATUS_ROW_IN_BUFFER, con2)"
    "row_held (row_payload r') ?s con2" "packet_number con2 = ?n"
    "column_count (con_result con2) = column_count (con_result con1)" "same_client con1 con2" "same_memory con1 con2"
    using next_row[OF held n(1,2) p] by blast
  have x: "read_buffer con2 \<noteq> None" "expects_none con2" "con_status con2 = ATTACHSQL_CON_STATUS_IDLE" "\<not> opt_compression con2"
    using e(2) by (auto simp: row_held_def)
  have s: "same_session con1 con2" by (rule same_client_session[OF e(5)])
  then have st: "rows_stored (ds @ [r]) con2" "buffer_rows con2"
    using rows_stored_frame[OF c1(3) e(6)] client_row_view[of con2 con1] f(6) by (simp_all add: same_session_def row_view_def)
  have c: "allocs con2 = []" "server_errno con2 = 0" using e(5) f(4,5) by (simp_all add: same_defs)
  obtain con' where i: "poll_times (length (r' # rs)) error con2 =
      Some (replicate (length (r' # rs)) ATTACHSQL_RETURN_PROCESSING, error, con')"
    "con_status con' = ATTACHSQL_CON_STATUS_IDLE" "command_status con' = ATTACHSQL_COMMAND_STATUS_EOF"
    "server_status con' = sstatus" "expects_none con'" "unread con' rest" "rows_stored ((ds @ [r]) @ r' # rs) con'"
    "column_count (con_result con') = column_count (con_result con2)" "same_buffering con2 con'"
    using Cons.IH[of r' con2 "ds @ [r]"] e(2,3,4) f(2) n(3) Cons.prems(2) st c by auto
  have "same_buffering con con'"
    by (rule same_buffering_trans[OF f(3) same_buffering_trans[OF same_session_buffering[OF s] i(9)]])
  then show ?case using poll_times_Suc[OF c1(1)[OF e(1) x] i(1)] i(2-8) e(4) f(2) by (intro exI[of _ con']) simp
qed

section \<open>Taking the rows\<close>

fun fetch_buffered :: "nat \<Rightarrow> attachsql_connect_t \<Rightarrow> (byte list option list list \<times> attachsql_connect_t) option" where
  "fetch_buffered 0 con = Some ([], con)"
| "fetch_buffered (Suc k) con =
     do { (row, c) \<leftarrow> attachsql_query_buffer_row_get (Some con);
          row \<leftarrow> row;
          con \<leftarrow> c;
          let vs = map (value_bytes con) row;
          (rs, con) \<leftarrow> fetch_buffered k con;
          Some (vs # rs, con) }"

lemma rows_stored_position: "rows_stored ds (con\<lparr>con_row := x, row_buffer_position := j\<rparr>) = rows_stored ds con"
proof -
  have "value_bytes (con\<lparr>con_row := x, row_buffer_position := j\<rparr>) = value_bytes con" by (rule values_frame) simp
  moreover have "buffered_row i (con\<lparr>con_row := x, row_buffer_position := j\<rparr>) = buffered_row i con" for i
    by (simp add: buffered_row_def)
  ultimately show ?thesis by (simp add: rows_stored_def cong: rows_ptr.case_cong)
qed

lemma rows_taken:
  assumes "rows_stored ds con" "row_buffer_position con + k = length ds"
  shows "\<exists>row. fetch_buffered k con = Some (map (map Some) (drop (row_buffer_position con) ds),
      con\<lparr>con_row := row, row_buffer_position := length ds\<rparr>)"
  using assms
proof (induction k arbitrary: con)
  case 0
  then show ?case by (intro exI[of _ "con_row con"]) simp
next
  case (Suc k)
  let ?i = "row_buffer_position con"
  have i: "?i < length ds" using Suc.prems(2) by simp
  obtain row where row: "buffered_row ?i con = Some row" "map (value_bytes con) row = map Some (ds ! ?i)"
    using Suc.prems(1) i by (auto simp: rows_stored_def)
  let ?c = "con\<lparr>con_row := Some row, row_buffer_position := ?i + 1\<rparr>"
  have v: "value_bytes ?c = value_bytes con" by (rule values_frame) simp
  have "rows_stored ds ?c" using Suc.prems(1) by (simp only: rows_stored_position)
  then obtain row' where f: "fetch_buffered k ?c = Some (map (map Some) (drop (Suc ?i) ds),
      con\<lparr>con_row := row', row_buffer_position := length ds\<rparr>)"
    using Suc.IH[of ?c] Suc.prems(2) by auto
  have "attachsql_query_buffer_row_get (Some con) = Some (Some row, Some ?c)"
    using row(1) i Suc.prems(1) by (simp add: attachsql_query_buffer_row_get_def rows_stored_def)
  moreover have "map Some (ds ! ?i) # map (map Some) (drop (Suc ?i) ds) = map (map Some) (drop ?i ds)"
    using i by (simp add: Cons_nth_drop_Suc[symmetric])
  ultimately show ?case using f row(2) v by (intro exI[of _ row']) (simp add: Let_def)
qed

lemma stored_freed:
  assumes "rows_stored ds con" "ds \<noteq> []" shows "free_rows con = Some FreedRows"
proof -
  obtain rows where r: "row_buffer con = Rows rows" "length rows = row_buffer_alloc_size con" "length ds \<le> length rows"
    "row_buffer_count con = length ds"
    using assms by (auto simp: rows_stored_def split: rows_ptr.splits)
  have "rows ! i \<noteq> None" if "i < length ds" for i
    using assms(1) that r(1) by (auto simp: rows_stored_def buffered_row_def split: if_splits)
  then have "list_all (\<lambda>r. r \<noteq> None) (take (length ds) rows)" using r(3) by (simp add: list_all_length)
  moreover have "0 < row_buffer_alloc_size con" using assms(2) r(2,3) by (cases ds) auto
  ultimately show ?thesis using r by (simp add: free_rows_def)
qed

section \<open>Properties\<close>

lemma idle_rows: "session_idle con \<Longrightarrow> session_idle (con\<lparr>buffer_rows := b\<rparr>)" "session_idle con \<Longrightarrow> session_idle (con\<lparr>row_buffer := r\<rparr>)"
  by (erule idle_frame; simp add: queue_fields_def writer_def)+

text \<open>The answer to a query with buffered rows: a poll for every row.\<close>

lemma buffered_answer:
  assumes idle: "session_idle base" and asked: "asked base sql con1"
    and rows0: "buffer_rows base" "row_buffer base = NullRows" "row_buffer_count base = 0" "row_buffer_position base = 0"
    and ev: "uv_events base = [Received wanted (answer_stream catalog cs rows w1 s1 w2 s2)] # later"
    and good: "answer_good catalog cs rows"
    and fits: "length (answer_stream catalog cs rows w1 s1 w2 s2) + wanted \<le> capacity base"
  obtains con2 where "poll_times (length rows) (Some e) con1 = Some (replicate (length rows) ATTACHSQL_RETURN_PROCESSING, Some e, con2)"
    "attachsql_connect_poll (Some con2) (Some e) = Some (ATTACHSQL_RETURN_EOF, Some e, Some (at_end con2))"
    "rows_stored rows (at_end con2)" "buffer_rows con2" "row_buffer_position con2 = 0" "uv_events con2 = later"
    "unat (column_count (con_result con2)) = length cs" "server_status con2 = s2" "capacity con2 = capacity base"
    "loop_present con2 = loop_present base" "sent con2 = sent con1" "session_idle (con2\<lparr>in_query := False, con_row := None, row_buffer_alloc_size := 0\<rparr>)"
proof -
  have none: "unread base []" using idle by (simp add: session_idle_def)
  obtain c where c: "attachsql_connect_poll (Some con1) (Some e) = poll_idle c (Some e)"
    "row_held (row_payload (hd rows)) (row_stream (packet_number c + 1) (tl rows) (eof_payload w2 s2) @ []) c"
    "unat (packet_number c) = length cs + 3" "unat (column_count (con_result c)) = length cs"
    "server_errno c = 0" "con_pool c = None" "same_session (con1\<lparr>uv_events := later\<rparr>) c"
    using answer_received[OF asked none ev fits good] by blast
  have rows: "hd rows # tl rows = rows" "\<forall>row \<in> set rows. row_good (length cs) row" "length cs + length rows + 3 < 128" "rows \<noteq> []"
    using good by (auto simp: answer_good_def)
  have view: "row_view c = row_view base" "same_buffering (con1\<lparr>uv_events := later\<rparr>) c"
    using c(7) asked same_session_buffering by (auto simp: same_session_def client_view_def row_view_def asked_def)
  have al: "allocs c = []" using c(7) asked by (simp add: same_session_def same_core_def asked_def calm_def)
  have br: "buffer_rows c" "row_buffer_position c = 0" using view(1) rows0 by (simp_all add: row_view_def)
  have "row_buffer_alloc_size base = 0" using idle by (simp add: session_idle_def)
  then have s0: "rows_stored [] c" using view(1) rows0 by (simp add: rows_stored_def row_view_def)
  have n: "unat (packet_number c) + length (tl rows) + 1 < 128" using rows(3,4) c(3) by (cases rows) simp_all
  obtain con2 where c2: "poll_times (length rows) (Some e) c = Some (replicate (length rows) ATTACHSQL_RETURN_PROCESSING, Some e, con2)"
    "con_status con2 = ATTACHSQL_CON_STATUS_IDLE" "command_status con2 = ATTACHSQL_COMMAND_STATUS_EOF"
    "server_status con2 = s2" "expects_none con2" "unread con2 []" "rows_stored rows con2"
    "column_count (con_result con2) = column_count (con_result c)" "same_buffering c con2"
    using rows_polled[OF c(2) _ n s0 al c(5) br(1), of "Some e"] rows(1,2) c(4) by auto
  have "con_status c = ATTACHSQL_CON_STATUS_IDLE" using c(2) by (simp add: row_held_def)
  then have "poll_times (length rows) (Some e) con1 = poll_times (length rows) (Some e) c"
    using c(1) poll_resting[of c "Some e"] rows(4) by (cases rows) simp_all
  then have polls: "poll_times (length rows) (Some e) con1 = Some (replicate (length rows) ATTACHSQL_RETURN_PROCESSING, Some e, con2)"
    using c2(1) by simp
  have k: "con_pool con2 = None" "buffer_rows con2" "uv_events con2 = later" "row_buffer_position con2 = 0" "server_errno con2 = 0"
    "allocs con2 = []" "writer con2 = writer con1" "opt_compression con2 = opt_compression con1" "capacity con2 = capacity base"
    "loop_present con2 = loop_present base"
    using same_buffering_trans[OF view(2) c2(9)] c(5,6) br asked
    by (simp_all add: same_buffering_def same_core_def asked_def capacity_def calm_def writer_def row_view_def rows0)
  have last: "attachsql_connect_poll (Some con2) (Some e) = Some (ATTACHSQL_RETURN_EOF, Some e, Some (at_end con2))"
    using poll_resting[OF c2(2)] c2(3) k(1,5) send_event_alone by (simp add: poll_idle_def at_end_def)
  have s3: "rows_stored rows (at_end con2)" by (rule rows_stored_frame[OF c2(7)]) (simp_all add: same_memory_def row_view_def at_end_def)
  let ?q = "con2\<lparr>in_query := False, con_row := None, row_buffer_alloc_size := 0\<rparr>"
  have "session_idle ?q"
  proof -
    have qf: "queue_fields ?q = queue_fields con2" "allocs ?q = allocs con2" by (simp_all add: queue_fields_def)
    have w: "writer ?q = writer con1" "allocs ?q = []" using k(6,7) by (simp_all add: writer_def)
    have "calm ?q" "buffers_ok ?q" "extra_bytes ?q []" "\<not> stream_closed ?q" "client_capabilities ?q AND ATTACHSQL_CAPABILITY_COMPRESS = 0"
      using w asked idle
      by (simp_all add: writer_def calm_def buffers_ok_def extra_bytes_def asked_def session_idle_def query_ready_def)
    moreover have "expects_none ?q" using expects_none_frame[OF qf] c2(5) by simp
    moreover have "unread ?q []" using c2(6) by (simp add: unread_def)
    moreover have "\<not> opt_compression ?q" using k(8) asked by (simp add: asked_def)
    ultimately show ?thesis using c2(2) k(1) by (simp add: session_idle_def query_ready_def expects_none_def)
  qed
  moreover have "sent con2 = sent con1" using k(7) by (simp add: writer_def)
  ultimately show thesis using that polls last s3 k(2-4,9,10) c2(4,8) c(4) by simp
qed

text \<open>The rows have been fetched, and the query is closed.\<close>

lemma buffered_closed:
  assumes idle: "session_idle (con\<lparr>in_query := False, con_row := None, row_buffer_alloc_size := 0\<rparr>)"
    and more: "server_status con AND ATTACHSQL_SERVER_STATUS_MORE_RESULTS = 0"
    and c: "c = (at_end con)\<lparr>con_row := row, row_buffer_position := n\<rparr>" and stored: "rows_stored rows c" "rows \<noteq> []"
  shows "attachsql_query_close c = Some (closed c\<lparr>row_buffer := FreedRows\<rparr>)" "session_idle (closed c\<lparr>row_buffer := FreedRows\<rparr>)"
proof -
  show "attachsql_query_close c = Some (closed c\<lparr>row_buffer := FreedRows\<rparr>)" by (rule query_close_rows[OF stored_freed[OF stored]])
  show "session_idle (closed c\<lparr>row_buffer := FreedRows\<rparr>)"
    by (rule idle_frame[OF idle]) (use more in \<open>simp_all add: c closed_def at_end_def queue_fields_def writer_def\<close>)
qed

text \<open>
  C8. A query with buffered rows: while rows are being received every poll reports that the result is
  being processed and stores one of them, the poll after that reports the end, the number of rows is
  right, the client is given the values of all of them in order and then none, and closing the query
  leaves the connection idle, with the array of rows freed.
\<close>

theorem buffered_session:
  assumes "session_idle con" "row_buffer con = NullRows" "row_buffer_count con = 0" "row_buffer_position con = 0"
    and "\<forall>p \<in> set ps. param_ok p" "unat count = length ps" "len \<le> length statement"
    and "ps \<noteq> [] \<longrightarrow> questions (take len statement) \<le> length ps"
    and "uv_events con = [Received wanted (answer_stream catalog cs rows w1 s1 w2 s2)] # later"
    and "answer_good catalog cs rows" "s2 AND ATTACHSQL_SERVER_STATUS_MORE_RESULTS = 0"
    and "length (answer_stream catalog cs rows w1 s1 w2 s2) + wanted \<le> capacity con"
  shows "\<exists>con0 con1 con2 con3 con4 con5.
    attachsql_query_buffer_rows (Some con) True = (True, Some con0) \<and>
    attachsql_query (Some con0) len statement count ps (Some e) = Some (True, Some e, Some con1) \<and>
    poll_times (length rows) (Some e) con1 = Some (replicate (length rows) ATTACHSQL_RETURN_PROCESSING, Some e, con2) \<and>
    attachsql_connect_poll (Some con2) (Some e) = Some (ATTACHSQL_RETURN_EOF, Some e, Some con3) \<and>
    attachsql_query_row_count (Some con3) = length rows \<and>
    fetch_buffered (length rows) con3 = Some (map (map Some) rows, con4) \<and>
    attachsql_query_buffer_row_get (Some con4) = Some (None, Some con4) \<and>
    attachsql_query_close con4 = Some con5 \<and> session_idle con5 \<and> row_buffer con5 = FreedRows \<and> uv_events con5 = later \<and>
    capacity con5 = capacity con"
proof -
  let ?c0 = "con\<lparr>buffer_rows := True\<rparr>"
  have "\<not> in_query con" using assms(1) by (simp add: session_idle_def query_ready_def)
  then have set: "attachsql_query_buffer_rows (Some con) True = (True, Some ?c0)" by (simp add: attachsql_query_buffer_rows_def)
  have idle: "session_idle ?c0" by (rule idle_rows(1)[OF assms(1)])
  obtain con1 sql where c1: "attachsql_query (Some ?c0) len statement count ps (Some e) = Some (True, Some e, Some con1)"
    "asked ?c0 sql con1"
    using query_asks[OF idle assms(5-7)] assms(8) by blast
  have in0: "buffer_rows ?c0" "row_buffer ?c0 = NullRows" "row_buffer_count ?c0 = 0" "row_buffer_position ?c0 = 0"
    "uv_events ?c0 = [Received wanted (answer_stream catalog cs rows w1 s1 w2 s2)] # later"
    "length (answer_stream catalog cs rows w1 s1 w2 s2) + wanted \<le> capacity ?c0"
    using assms(2-4,9,12) by (simp_all add: capacity_def)
  obtain con2 where c2: "poll_times (length rows) (Some e) con1 = Some (replicate (length rows) ATTACHSQL_RETURN_PROCESSING, Some e, con2)"
    "attachsql_connect_poll (Some con2) (Some e) = Some (ATTACHSQL_RETURN_EOF, Some e, Some (at_end con2))"
    "rows_stored rows (at_end con2)" "buffer_rows con2" "row_buffer_position con2 = 0" "uv_events con2 = later"
    "server_status con2 = s2" "capacity con2 = capacity ?c0"
    "session_idle (con2\<lparr>in_query := False, con_row := None, row_buffer_alloc_size := 0\<rparr>)"
    using buffered_answer[OF idle c1(2) in0(1-5) assms(10) in0(6)] by metis
  have num: "attachsql_query_row_count (Some (at_end con2)) = length rows"
    using c2(3,4) by (simp add: attachsql_query_row_count_def rows_stored_def at_end_def)
  obtain row where f: "fetch_buffered (length rows) (at_end con2) = Some (map (map Some) rows,
      (at_end con2)\<lparr>con_row := row, row_buffer_position := length rows\<rparr>)"
    using rows_taken[OF c2(3), of "length rows"] c2(5) by (auto simp: at_end_def)
  let ?c4 = "(at_end con2)\<lparr>con_row := row, row_buffer_position := length rows\<rparr>"
  have s4: "rows_stored rows ?c4" using c2(3) by (simp only: rows_stored_position)
  then have none: "attachsql_query_buffer_row_get (Some ?c4) = Some (None, Some ?c4)"
    by (simp add: attachsql_query_buffer_row_get_def rows_stored_def)
  have "server_status con2 AND ATTACHSQL_SERVER_STATUS_MORE_RESULTS = 0" "rows \<noteq> []"
    using c2(7) assms(10,11) by (simp_all add: answer_good_def)
  note close = buffered_closed[OF c2(9) this(1) refl s4 this(2)]
  have "uv_events (closed ?c4\<lparr>row_buffer := FreedRows\<rparr>) = later" "capacity (closed ?c4\<lparr>row_buffer := FreedRows\<rparr>) = capacity con"
    "row_buffer (closed ?c4\<lparr>row_buffer := FreedRows\<rparr>) = FreedRows"
    using c2(6,8) by (simp_all add: closed_def capacity_def at_end_def)
  then show ?thesis
    by (intro exI[of _ ?c0] exI[of _ con1] exI[of _ con2] exI[of _ "at_end con2"] exI[of _ ?c4]
        exI[of _ "closed ?c4\<lparr>row_buffer := FreedRows\<rparr>"] conjI set c1(1) c2(1,2) num f none close)
qed

theorem buffered_session_witness:
  "\<exists>con0 con1 con2 con3 con4.
    attachsql_query_buffer_rows (Some session_con) True = (True, Some con0) \<and>
    attachsql_query (Some con0) 6 (str ''SELECT'') 0 [] (Some None) = Some (True, Some None, Some con1) \<and>
    poll_times 2 (Some None) con1 = Some ([ATTACHSQL_RETURN_PROCESSING, ATTACHSQL_RETURN_PROCESSING], Some None, con2) \<and>
    attachsql_connect_poll (Some con2) (Some None) = Some (ATTACHSQL_RETURN_EOF, Some None, Some con3) \<and>
    fetch_buffered 2 con3 = Some ([[Some [0x61]], [Some [0x62, 0x63]]], con4)"
proof -
  let ?rows = "[[[0x61]], [[0x62, 0x63]]] :: byte list list list" and ?cat = "[0x64, 0x65, 0x66] :: byte list"
  have ready: "session_idle session_con" using session_con_ready by (simp add: session_ready_def)
  have init: "row_buffer session_con = NullRows" "row_buffer_count session_con = 0" "row_buffer_position session_con = 0"
    by (simp_all add: session_con_def query_con_def stmt_con_def connect_init_def con_core.defs core_init_def)
  from buffered_session[OF ready init _ _ sample_sql(1) _ sample_answer_events sample_answer_good _ sample_answer_room, of "[]" 0 None]
  show ?thesis by (auto simp: sample_sql numeral_2_eq_2 simp del: fetch_buffered.simps poll_times.simps)
qed

text \<open>
  C40. \<open>row_buffer\<close> still points to the rows that closing a query has freed. When the next query with
  buffered rows has its answer, the poll gives that pointer to \<open>realloc\<close> and has no defined result,
  whatever the query and its rows are.
\<close>

theorem buffered_again_undefined:
  assumes "session_idle con" "buffer_rows con" "row_buffer con = FreedRows" "row_buffer_count con = 0"
    and "\<forall>p \<in> set ps. param_ok p" "unat count = length ps" "len \<le> length statement"
    and "ps \<noteq> [] \<longrightarrow> questions (take len statement) \<le> length ps"
    and "uv_events con = [Received wanted (answer_stream catalog cs rows w1 s1 w2 s2)] # later"
    and "answer_good catalog cs rows" "length (answer_stream catalog cs rows w1 s1 w2 s2) + wanted \<le> capacity con"
  shows "\<exists>con1. attachsql_query (Some con) len statement count ps (Some e) = Some (True, Some e, Some con1) \<and>
    attachsql_connect_poll (Some con1) (Some e) = None"
proof -
  obtain con1 sql where c1: "attachsql_query (Some con) len statement count ps (Some e) = Some (True, Some e, Some con1)"
    "asked con sql con1"
    using query_asks[OF assms(1,5-7)] assms(8) by blast
  have none: "unread con []" using assms(1) by (simp add: session_idle_def)
  obtain c where c: "attachsql_connect_poll (Some con1) (Some e) = poll_idle c (Some e)"
    "command_status c = ATTACHSQL_COMMAND_STATUS_ROW_IN_BUFFER" "server_errno c = 0" "same_session (con1\<lparr>uv_events := later\<rparr>) c"
    using answer_received[OF c1(2) none assms(9,11,10)] unfolding row_held_def by blast
  have "row_view c = row_view con" using c(4) c1(2) by (simp add: same_session_def client_view_def row_view_def asked_def)
  then have r: "buffer_rows c" "row_buffer c = FreedRows" "row_buffer_count c \<le> row_buffer_alloc_size c"
    "row_buffer_alloc_size c = 0"
    using assms(1-4) by (simp_all add: row_view_def session_idle_def)
  then have "enlarge_rows c = None" by (simp add: enlarge_rows_def Let_def split_beta alloc_def split: list.split)
  then have "attachsql_query_row_buffer c (Some e) = None"
    by (simp add: attachsql_query_row_buffer.simps buffer_one_row_def)
  then have "attachsql_connect_poll (Some con1) (Some e) = None" using c(1-3) r(1) by (simp add: poll_idle_def)
  then show ?thesis using c1(1) by blast
qed

theorem buffered_again_undefined_witness:
  "\<exists>con con1. attachsql_query (Some con) 6 (str ''SELECT'') 0 [] (Some None) = Some (True, Some None, Some con1) \<and>
    attachsql_connect_poll (Some con1) (Some None) = None"
proof -
  let ?c = "session_con\<lparr>buffer_rows := True, row_buffer := FreedRows\<rparr>"
  have "session_idle (session_con\<lparr>buffer_rows := True\<rparr>)"
    using session_con_ready by (intro idle_rows(1)) (simp add: session_ready_def)
  then have ready: "session_idle ?c" by (rule idle_rows(2))
  have init: "buffer_rows ?c" "row_buffer ?c = FreedRows" "row_buffer_count ?c = 0"
    by (simp_all add: session_con_def query_con_def stmt_con_def connect_init_def con_core.defs core_init_def)
  have ev: "uv_events ?c = [Received 16 (answer_stream [0x64, 0x65, 0x66] [sample_column] [[[0x61]], [[0x62, 0x63]]] 0 0 0 2)] # []"
    "length (answer_stream [0x64, 0x65, 0x66] [sample_column] [[[0x61]], [[0x62, 0x63]]] 0 0 0 2) + 16 \<le> capacity ?c"
    using sample_answer_events sample_answer_room by (simp_all add: capacity_def)
  from buffered_again_undefined[OF ready init _ _ sample_sql(1) _ ev(1) sample_answer_good ev(2), of "[]" 0 None]
  show ?thesis by auto
qed

end
