(* ===== verification/Prepare.thy ===== *)
theory Prepare
  imports Session
begin

text \<open>
  Preparing a statement: what is sent, and the answer of the server, which is a header with the
  number of the statement, a definition for each parameter, and a definition for each column, which the
  code does not look at.
\<close>

section \<open>The header\<close>

definition prepared_payload :: "uint32 \<Rightarrow> uint16 \<Rightarrow> uint16 \<Rightarrow> uint16 \<Rightarrow> byte list" where
  "prepared_payload sid columns params warnings =
     0 # le_bytes 4 sid @ le_bytes 2 columns @ le_bytes 2 params @ 0 # le_bytes 2 warnings"

lemma prepared_payload_length: "length (prepared_payload sid columns params warnings) = 12"
  by (simp add: prepared_payload_def)

lemma prepared_fields:
  assumes "ahead b (prepared_payload sid columns params warnings @ rest)"
  shows "get_byte b = Some 0" "get_int4 (skip 1 b) = Some sid" "get_int2 (skip 4 (skip 1 b)) = Some columns"
    "get_int2 (skip 2 (skip 4 (skip 1 b))) = Some params" "get_int2 (skip 3 (skip 2 (skip 4 (skip 1 b)))) = Some warnings"
proof -
  have a0: "ahead b (0 # le_bytes 4 sid @ le_bytes 2 columns @ le_bytes 2 params @ 0 # le_bytes 2 warnings @ rest)"
    using assms by (simp add: prepared_payload_def)
  have a1: "ahead (skip 1 b) (le_bytes 4 sid @ le_bytes 2 columns @ le_bytes 2 params @ 0 # le_bytes 2 warnings @ rest)"
    using ahead_Cons[OF a0] by simp
  have a2: "ahead (skip 4 (skip 1 b)) (le_bytes 2 columns @ le_bytes 2 params @ 0 # le_bytes 2 warnings @ rest)"
    using ahead_skip[OF a1] by simp
  have a3: "ahead (skip 2 (skip 4 (skip 1 b))) (le_bytes 2 params @ 0 # le_bytes 2 warnings @ rest)"
    using ahead_skip[OF a2] by simp
  have a4: "ahead (skip 3 (skip 2 (skip 4 (skip 1 b)))) (le_bytes 2 warnings @ rest)"
    using ahead_Cons[OF ahead_skip[OF a3]] by (simp add: numeral_3_eq_3 numeral_2_eq_2)
  show "get_byte b = Some 0" by (rule ahead_byte[OF a0])
  show "get_int4 (skip 1 b) = Some sid" by (rule ahead_int4[OF a1])
  show "get_int2 (skip 4 (skip 1 b)) = Some columns" by (rule ahead_int2[OF a2])
  show "get_int2 (skip 2 (skip 4 (skip 1 b))) = Some params" by (rule ahead_int2[OF a3])
  show "get_int2 (skip 3 (skip 2 (skip 4 (skip 1 b)))) = Some warnings" by (rule ahead_int2[OF a4])
qed

text \<open>The statement when its header has been read; \<open>expecting\<close> is what comes next.\<close>

definition fresh_stmt :: "uint32 \<Rightarrow> uint16 \<Rightarrow> uint16 \<Rightarrow> attachsql_stmt_st" where
  "fresh_stmt sid columns params = stmt_init\<lparr>stmt_id := sid, stmt_column_count := columns, param_count := params,
     stmt_params := (if params = 0 then None else Some (replicate (unat params) None)),
     param_data := (if params = 0 then None else Some (replicate (unat params) param_init)),
     stmt_state := ATTACHSQL_STMT_STATE_PREPARED\<rparr>"

definition columns_next :: "'a con_core_scheme \<Rightarrow> 'a con_core_scheme \<Rightarrow> uint16 \<Rightarrow> bool" where
  "columns_next con con' columns \<longleftrightarrow>
     (if columns \<noteq> 0 then expects ATTACHSQL_PACKET_TYPE_PREPARE_COLUMN con' \<and>
        command_status con' = ATTACHSQL_COMMAND_STATUS_READ_STMT_COLUMN \<and> con_status con' = con_status con
      else expects_none con' \<and> command_status con' = ATTACHSQL_COMMAND_STATUS_EOF \<and>
        con_status con' = ATTACHSQL_CON_STATUS_IDLE)"

definition params_next :: "'a con_core_scheme \<Rightarrow> 'a con_core_scheme \<Rightarrow> uint16 \<Rightarrow> uint16 \<Rightarrow> bool" where
  "params_next con con' columns params \<longleftrightarrow>
     (if params \<noteq> 0 then expects ATTACHSQL_PACKET_TYPE_PREPARE_PARAMETER con' \<and>
        command_status con' = ATTACHSQL_COMMAND_STATUS_READ_STMT_PARAM \<and> con_status con' = con_status con
      else columns_next con con' columns)"

lemma past_packet_again: "packet_in b p rest \<Longrightarrow> attachsql_buffer_packet_read_end (past_packet b) = Some (past_packet b)"
  by (auto simp: past_packet_def attachsql_buffer_packet_read_end_def packet_in_def)

text \<open>What is expected after the header, with the read pointer still in the packet or behind it.\<close>

lemma prepare_expect_ok:
  assumes "expects_none con" "read_buffer con = Some (skip 12 b)" "packet_in b p rest"
  shows "\<exists>con' b'. prepare_expect stmt con = Some con' \<and> read_buffer con' = Some b' \<and>
    attachsql_buffer_packet_read_end b' = Some (past_packet b) \<and>
    params_next con con' (stmt_column_count stmt) (param_count stmt) \<and>
    packet_number con' = packet_number con \<and> warning_count con' = warning_count con \<and>
    packet_size con' = packet_size con \<and> same_but_stmt con con'"
proof -
  let ?push = "\<lambda>t st. \<exists>con'. queue_push t con = Some con' \<and> expects t (con'\<lparr>command_status := st\<rparr>) \<and>
      read_buffer con' = Some (skip 12 b) \<and> con_status con' = con_status con \<and> packet_number con' = packet_number con \<and>
      warning_count con' = warning_count con \<and> packet_size con' = packet_size con \<and> same_but_stmt con (con'\<lparr>command_status := st\<rparr>)"
  have push: "?push t st" for t st
  proof -
    obtain c where c: "queue_push t con = Some c" "expects t c" using push_expects[OF assms(1)] by blast
    have "expects t (c\<lparr>command_status := st\<rparr>)"
      using c(2) queue_frame[of "c\<lparr>command_status := st\<rparr>" c] by (simp add: expects_def queue_fields_def)
    then show ?thesis using c(1) queue_push_frame[OF c(1)] queue_push_same[OF c(1)] assms(2) by (auto simp: same_defs)
  qed
  have past: "attachsql_buffer_packet_read_end (skip 12 b) = Some (past_packet b)" by (rule read_end_past[OF assms(3)])
  consider "0 < param_count stmt" | "param_count stmt = 0" "0 < stmt_column_count stmt" | "param_count stmt = 0" "stmt_column_count stmt = 0"
    by (metis word_gt_0)
  then show ?thesis
  proof cases
    case 1
    then show ?thesis using push[of ATTACHSQL_PACKET_TYPE_PREPARE_PARAMETER ATTACHSQL_COMMAND_STATUS_READ_STMT_PARAM] past
      by (auto simp: prepare_expect_def params_next_def)
  next
    case 2
    then show ?thesis using push[of ATTACHSQL_PACKET_TYPE_PREPARE_COLUMN ATTACHSQL_COMMAND_STATUS_READ_STMT_COLUMN] past
      by (auto simp: prepare_expect_def params_next_def columns_next_def)
  next
    case 3
    let ?c = "con\<lparr>command_status := ATTACHSQL_COMMAND_STATUS_EOF, con_status := ATTACHSQL_CON_STATUS_IDLE\<rparr>"
    have "expects_none (?c\<lparr>read_buffer := Some (past_packet b)\<rparr>)"
      using assms(1) expects_none_frame[of "?c\<lparr>read_buffer := Some (past_packet b)\<rparr>" con] by (simp add: queue_fields_def)
    moreover have "prepare_expect stmt con = Some (?c\<lparr>read_buffer := Some (past_packet b)\<rparr>)"
      using 3 read_end_at[of ?c 12 b] assms(2,3) by (simp add: prepare_expect_def)
    ultimately show ?thesis using past_packet_again[OF assms(3)] 3
        assms(2) by (auto simp: params_next_def columns_next_def same_defs)
  qed
qed

lemma params_next_frame:
  assumes "params_next con con' columns params" "queue_fields con'' = queue_fields con'" "allocs con'' = allocs con'"
    "command_status con'' = command_status con'" "con_status con'' = con_status con'"
  shows "params_next con con'' columns params"
  using assms queue_frame[OF assms(2)] expects_none_frame[OF assms(2,3)]
  by (auto simp: params_next_def columns_next_def expects_def)

lemma prepare_turn:
  assumes u: "unread con (packet (packet_number con + 1) (prepared_payload sid columns params warnings) @ rest)"
    and e: "expects ATTACHSQL_PACKET_TYPE_PREPARE_RESPONSE con" and n: "packet_number con + 1 < 0x80"
    and stmt: "con_stmt con = Some stmt_init" and calm: "allocs con = []"
  shows "\<exists>con'. process_loop con = process_loop con' \<and> unread con' rest \<and> packet_number con' = packet_number con + 1 \<and>
    con_stmt con' = Some (fresh_stmt sid columns params) \<and> warning_count con' = warnings \<and>
    params_next con con' columns params \<and> same_but_stmt con con'"
proof -
  let ?n = "packet_number con + 1" and ?p = "prepared_payload sid columns params warnings"
  obtain b where b: "read_buffer con = Some b" "buffer_ok b" "buffer_bytes b = packet ?n ?p @ rest"
    using u by (auto simp: unread_def)
  have len: "length ?p = 12" "length ?p < 2 ^ 24" by (simp_all add: prepared_payload_length)
  let ?b = "packet_body (of_nat (length ?p)) b" and ?c2 = "taken (length ?p) ?n b con"
  have pin: "packet_in ?b ?p rest" by (rule packet_body_in[OF b(2,3) len(2)])
  note f = prepared_fields[OF packet_in_ahead[OF pin]]
  let ?s = "(fresh_stmt sid columns params)\<lparr>stmt_state := ATTACHSQL_STMT_STATE_NONE\<rparr>"
  let ?c3 = "?c2\<lparr>warning_count := warnings, read_buffer := Some (skip 12 ?b)\<rparr>"
  have arrays: "prepare_arrays (stmt_init\<lparr>stmt_id := sid, stmt_column_count := columns, param_count := params\<rparr>) ?c3 = (?s, ?c3)"
    using calm by (simp add: prepare_arrays_def fresh_stmt_def alloc_def taken_def stmt_init_def Let_def)
  let ?c4 = "?c3\<lparr>con_stmt := Some ?s\<rparr>"
  have none: "expects_none ?c4" by (rule taken_ready[OF e]) (simp add: queue_fields_def)
  have rb: "read_buffer ?c4 = Some (skip 12 ?b)" by simp
  obtain c5 b5 where c5: "prepare_expect ?s ?c4 = Some c5" "read_buffer c5 = Some b5"
    "attachsql_buffer_packet_read_end b5 = Some (past_packet ?b)" "params_next ?c4 c5 columns params"
    "packet_number c5 = ?n" "warning_count c5 = warnings" "packet_size c5 = 12" "same_but_stmt ?c4 c5"
    using prepare_expect_ok[OF none rb pin, of ?s] by (auto simp: fresh_stmt_def taken_def len(1))
  let ?c6 = "c5\<lparr>read_buffer := Some (past_packet ?b), con_stmt := Some (fresh_stmt sid columns params)\<rparr>"
  have st: "?s\<lparr>stmt_state := ATTACHSQL_STMT_STATE_PREPARED\<rparr> = fresh_stmt sid columns params" by (simp add: fresh_stmt_def)
  have c2: "read_buffer ?c2 = Some ?b" "con_stmt ?c2 = Some stmt_init" using stmt by (simp_all add: taken_def)
  have "attachsql_packet_read_prepare_response ?c2 = Some ?c6"
    using f c2 arrays c5(1-3,7) st
    by (simp add: attachsql_packet_read_prepare_response_def attachsql_packet_read_end_def Let_def)
  then have "process_loop con = process_loop ?c6"
    using loop_turn[OF b len(2) e] n by (simp add: next_number_def stops_def)
  moreover have "unread ?c6 rest" using past_packet_ok[OF pin] by (simp add: unread_def)
  moreover have "params_next ?c4 ?c6 columns params"
    by (rule params_next_frame[OF c5(4)]) (simp_all add: queue_fields_def)
  then have "params_next con ?c6 columns params" by (simp add: params_next_def columns_next_def taken_def cong: if_cong)
  moreover have "same_but_stmt con ?c6" using c5(8) b(1) by (simp add: same_defs taken_def)
  ultimately show ?thesis using c5(5,6) by (intro exI[of _ ?c6]) simp
qed

section \<open>Definitions of the parameters\<close>

definition stmt_of :: "'a con_core_scheme \<Rightarrow> attachsql_stmt_st" where
  "stmt_of con = (case con_stmt con of Some stmt \<Rightarrow> stmt | None \<Rightarrow> stmt_init)"

definition param_defs :: "'a con_core_scheme \<Rightarrow> column_t option list option" where
  "param_defs con = (case con_stmt con of Some stmt \<Rightarrow> stmt_params stmt | None \<Rightarrow> None)"

text \<open>What reading a definition leaves alone: all of the statement but the definitions and their count.\<close>

definition param_kept :: "'a con_core_scheme \<Rightarrow> 'a con_core_scheme \<Rightarrow> bool" where
  "param_kept con con' \<longleftrightarrow> same_status con con' \<and> same_but_stmt con con' \<and>
     (stmt_of con')\<lparr>stmt_params := None, current_param := 0\<rparr> = (stmt_of con)\<lparr>stmt_params := None, current_param := 0\<rparr> \<and>
     con_stmt con' \<noteq> None"

lemma param_kept_trans: "param_kept a b \<Longrightarrow> param_kept b c \<Longrightarrow> param_kept a c"
  using same_but_stmt_trans[of a b c] by (simp add: param_kept_def same_status_def)

lemma param_turn:
  assumes u: "unread con (packet (packet_number con + 1) (enc_column_head catalog c) @ packet j q @ rest)"
    and good: "column_short catalog c" "length q < 128"
    and e: "expects ATTACHSQL_PACKET_TYPE_PREPARE_PARAMETER con" and n: "packet_number con + 1 < 0x80"
    and cols: "param_defs con = Some cols" "unat (current_param (stmt_of con)) < length cols"
  shows "\<exists>con'. process_loop con = process_loop con' \<and> unread con' (packet j q @ rest) \<and>
    expects (if current_param (stmt_of con) + 1 = param_count (stmt_of con)
             then ATTACHSQL_PACKET_TYPE_RESPONSE else ATTACHSQL_PACKET_TYPE_PREPARE_PARAMETER) con' \<and>
    packet_number con' = packet_number con + 1 \<and>
    param_defs con' = Some (cols[unat (current_param (stmt_of con)) := Some (column_read c (packet j q))]) \<and>
    current_param (stmt_of con') = current_param (stmt_of con) + 1 \<and>
    param_count (stmt_of con') = param_count (stmt_of con) \<and> param_kept con con'"
proof -
  let ?n = "packet_number con + 1" and ?h = "enc_column_head catalog c"
  obtain stmt where stmt: "con_stmt con = Some stmt" "stmt_params stmt = Some cols" "stmt_of con = stmt"
    using cols(1) by (auto simp: param_defs_def stmt_of_def split: option.splits)
  obtain b where b: "read_buffer con = Some b" "buffer_ok b" "buffer_bytes b = packet ?n ?h @ packet j q @ rest"
    using u by (auto simp: unread_def)
  have len: "length ?h < 2 ^ 24" "column_good catalog c" using good(1) by (auto simp: column_short_def)
  let ?b = "packet_body (of_nat (length ?h)) b" and ?c2 = "taken (length ?h) ?n b con"
  have pin: "packet_in ?b ?h (packet j q @ rest)" by (rule packet_body_in[OF b(2,3) len(1)])
  let ?s = "stmt\<lparr>stmt_params := Some (cols[unat (current_param stmt) := Some (column_read c (packet j q))]),
      current_param := current_param stmt + 1\<rparr>"
  let ?t = "if current_param stmt + 1 = param_count stmt then ATTACHSQL_PACKET_TYPE_RESPONSE else ATTACHSQL_PACKET_TYPE_PREPARE_PARAMETER"
  let ?c3 = "?c2\<lparr>read_buffer := Some (past_packet ?b), con_stmt := Some ?s\<rparr>"
  have "expects_none ?c3" by (rule taken_ready[OF e]) (simp add: queue_fields_def)
  then obtain con' where p: "queue_push ?t ?c3 = Some con'" "expects ?t con'" using push_expects by blast
  have get: "attachsql_packet_get_column ?c2 = Some (column_read c (packet j q), ?c2\<lparr>read_buffer := Some (past_packet ?b)\<rparr>)"
    using column_before_packet[OF len(2) pin good(2)] by (simp add: attachsql_packet_get_column_def taken_def)
  have c2: "con_stmt ?c2 = Some stmt" using stmt(1) by (simp add: taken_def)
  have "attachsql_packet_read_prepare_parameter ?c2 = Some con'"
    using p(1) stmt(2) cols(2) stmt(3)
    by (simp add: attachsql_packet_read_prepare_parameter_def get c2 set_column_def Let_def cong: if_cong)
  then have "process_loop con = process_loop con'"
    using loop_turn[OF b len(1) e] n by (simp add: next_number_def stops_def)
  moreover have "unread con' (packet j q @ rest)" using past_packet_ok[OF pin] queue_push_rb[OF p(1)] by (simp add: unread_def)
  moreover have "con_stmt con' = Some ?s" using queue_push_frame[OF p(1)] by simp
  moreover have "param_kept con con'"
    using queue_push_frame[OF p(1)] queue_push_same[OF p(1)] stmt(1) b(1)
    by (auto simp: param_kept_def same_status_def same_defs taken_def stmt_of_def)
  ultimately show ?thesis using p(2) queue_push_frame[OF p(1)] stmt(3)
    by (intro exI[of _ con']) (simp add: taken_def param_defs_def stmt_of_def)
qed

interpretation stmt_params: definition_reader ATTACHSQL_PACKET_TYPE_PREPARE_PARAMETER param_defs
  "\<lambda>con. current_param (stmt_of con)" "\<lambda>con. param_count (stmt_of con)" param_kept
proof (unfold_locales, goal_cases)
  case (1 con catalog c j q rest cols)
  then show ?case by (rule param_turn)
next
  case (2 con con' con'')
  then show ?case by (rule param_kept_trans)
qed

section \<open>Definitions of the columns\<close>

fun payload_stream :: "byte \<Rightarrow> byte list list \<Rightarrow> byte list \<Rightarrow> byte list" where
  "payload_stream n [] rest = rest"
| "payload_stream n (p # ps) rest = packet n p @ payload_stream (n + 1) ps rest"

lemma skip_turn:
  assumes u: "unread con (packet (packet_number con + 1) p @ rest)" and len: "length p < 2 ^ 24"
    and e: "expects ATTACHSQL_PACKET_TYPE_PREPARE_COLUMN con" and n: "packet_number con + 1 < 0x80"
    and stmt: "con_stmt con = Some stmt"
  shows "\<exists>con'. process_loop con = process_loop con' \<and> unread con' rest \<and>
    expects (if stmt_current_column stmt + 1 = stmt_column_count stmt
             then ATTACHSQL_PACKET_TYPE_RESPONSE else ATTACHSQL_PACKET_TYPE_PREPARE_COLUMN) con' \<and>
    packet_number con' = packet_number con + 1 \<and>
    con_stmt con' = Some (stmt\<lparr>stmt_current_column := stmt_current_column stmt + 1\<rparr>) \<and>
    same_status con con' \<and> same_but_stmt con con'"
proof -
  let ?n = "packet_number con + 1"
  obtain b where b: "read_buffer con = Some b" "buffer_ok b" "buffer_bytes b = packet ?n p @ rest"
    using u by (auto simp: unread_def)
  let ?b = "packet_body (of_nat (length p)) b" and ?c2 = "taken (length p) ?n b con"
  have pin: "packet_in ?b p rest" by (rule packet_body_in[OF b(2,3) len])
  let ?s = "stmt\<lparr>stmt_current_column := stmt_current_column stmt + 1\<rparr>"
  let ?t = "if stmt_current_column stmt + 1 = stmt_column_count stmt then ATTACHSQL_PACKET_TYPE_RESPONSE else ATTACHSQL_PACKET_TYPE_PREPARE_COLUMN"
  let ?c3 = "?c2\<lparr>read_buffer := Some (past_packet ?b), con_stmt := Some ?s\<rparr>"
  have "expects_none ?c3" by (rule taken_ready[OF e]) (simp add: queue_fields_def)
  then obtain con' where p: "queue_push ?t ?c3 = Some con'" "expects ?t con'" using push_expects by blast
  have "read_buffer ?c2 = Some (skip 0 ?b)" by (simp add: taken_def)
  then have r: "attachsql_packet_read_end ?c2 = Some (?c2\<lparr>read_buffer := Some (past_packet ?b)\<rparr>)"
    using read_end_at[OF _ pin] by blast
  have "con_stmt ?c2 = Some stmt" using stmt by (simp add: taken_def)
  then have "attachsql_packet_read_prepare_column ?c2 = Some con'"
    using p(1) by (simp add: attachsql_packet_read_prepare_column_def r Let_def cong: if_cong)
  then have "process_loop con = process_loop con'"
    using loop_turn[OF b len e] n by (simp add: next_number_def stops_def)
  moreover have "unread con' rest" using past_packet_ok[OF pin] queue_push_rb[OF p(1)] by (simp add: unread_def)
  ultimately show ?thesis using p(2) queue_push_frame[OF p(1)] queue_push_same[OF p(1)] b(1)
    by (intro exI[of _ con']) (simp add: taken_def same_status_def same_defs)
qed

lemma skip_loop:
  assumes "unread con (payload_stream (packet_number con + 1) ps (packet (packet_number con + 1 + of_nat (length ps)) eof @ rest))"
    and "ps \<noteq> []" "\<forall>p \<in> set ps. length p < 2 ^ 24" "expects ATTACHSQL_PACKET_TYPE_PREPARE_COLUMN con"
    and "unat (packet_number con) + length ps + 1 < 128" "con_stmt con = Some stmt"
    and "stmt_current_column stmt = of_nat k" "stmt_column_count stmt = of_nat (k + length ps)" "k + length ps < 128"
  shows "\<exists>con'. process_loop con = process_loop con' \<and>
    unread con' (packet (packet_number con + 1 + of_nat (length ps)) eof @ rest) \<and>
    expects ATTACHSQL_PACKET_TYPE_RESPONSE con' \<and> packet_number con' = packet_number con + of_nat (length ps) \<and>
    con_stmt con' = Some (stmt\<lparr>stmt_current_column := stmt_column_count stmt\<rparr>) \<and> same_status con con' \<and> same_but_stmt con con'"
  using assms
proof (induction ps arbitrary: con stmt k)
  case Nil
  then show ?case by simp
next
  case (Cons p ps)
  let ?n = "packet_number con + 1" and ?tail = "packet (packet_number con + 1 + of_nat (length (p # ps))) eof @ rest"
  have num: "?n < 0x80" "unat ?n = unat (packet_number con) + 1" using unat_plus1[OF Cons.prems(5)] by simp_all
  have u: "unread con (packet ?n p @ payload_stream (?n + 1) ps ?tail)" using Cons.prems(1) by simp
  have last: "(stmt_current_column stmt + 1 = stmt_column_count stmt) = (ps = [])"
    unfolding Cons.prems(7,8) using count_last[of k "length (p # ps)"] Cons.prems(9) by simp
  let ?s = "stmt\<lparr>stmt_current_column := stmt_current_column stmt + 1\<rparr>"
  obtain con1 where t: "process_loop con = process_loop con1" "unread con1 (payload_stream (?n + 1) ps ?tail)"
    "expects (if stmt_current_column stmt + 1 = stmt_column_count stmt
       then ATTACHSQL_PACKET_TYPE_RESPONSE else ATTACHSQL_PACKET_TYPE_PREPARE_COLUMN) con1"
    "packet_number con1 = ?n" "con_stmt con1 = Some ?s" "same_status con con1" "same_but_stmt con con1"
    using skip_turn[OF u _ Cons.prems(4) num(1) Cons.prems(6)] Cons.prems(3) by auto
  show ?case
  proof (cases "ps = []")
    case True
    then show ?thesis using t last by (intro exI[of _ con1]) (simp add: add.assoc)
  next
    case False
    have "unread con1 (payload_stream (packet_number con1 + 1) ps (packet (packet_number con1 + 1 + of_nat (length ps)) eof @ rest))"
      using t(2,4) by (simp add: add.assoc)
    moreover have "expects ATTACHSQL_PACKET_TYPE_PREPARE_COLUMN con1" using t(3) last False by simp
    ultimately obtain con' where "process_loop con1 = process_loop con'"
      "unread con' (packet (packet_number con1 + 1 + of_nat (length ps)) eof @ rest)"
      "expects ATTACHSQL_PACKET_TYPE_RESPONSE con'" "packet_number con' = packet_number con1 + of_nat (length ps)"
      "con_stmt con' = Some (?s\<lparr>stmt_current_column := stmt_column_count ?s\<rparr>)" "same_status con1 con'" "same_but_stmt con1 con'"
      using Cons.IH[of con1 ?s "Suc k"] False Cons.prems(3,5,7,8,9) num t(4,5) by (auto simp: add.commute)
    then show ?thesis using t same_but_stmt_trans[OF t(7)] by (intro exI[of _ con']) (simp add: add.assoc same_status_def)
  qed
qed

section \<open>The EOF packets\<close>

text \<open>An EOF packet, behind the parameters or behind the columns, while a statement is prepared.\<close>

lemma stmt_eof_turn:
  assumes u: "unread con (packet (packet_number con + 1) (eof_payload warnings sstatus) @ rest)"
    and e: "expects ATTACHSQL_PACKET_TYPE_RESPONSE con" and n: "packet_number con + 1 < 0x80"
    and st: "command_status con = ATTACHSQL_COMMAND_STATUS_READ_STMT_PARAM \<or> command_status con = ATTACHSQL_COMMAND_STATUS_READ_STMT_COLUMN"
    and stmt: "con_stmt con = Some stmt"
  shows "\<exists>con'. process_loop con = process_loop con' \<and> unread con' rest \<and> packet_number con' = packet_number con + 1 \<and>
    con_stmt con' = Some stmt \<and> server_status con' = sstatus \<and> warning_count con' = warnings \<and> same_but_stmt con con' \<and>
    columns_next con con' (if command_status con = ATTACHSQL_COMMAND_STATUS_READ_STMT_PARAM then stmt_column_count stmt else 0)"
proof -
  let ?n = "packet_number con + 1" and ?p = "eof_payload warnings sstatus"
  let ?more = "command_status con = ATTACHSQL_COMMAND_STATUS_READ_STMT_PARAM \<and> stmt_column_count stmt \<noteq> 0"
  obtain b where b: "read_buffer con = Some b" "buffer_ok b" "buffer_bytes b = packet ?n ?p @ rest"
    using u by (auto simp: unread_def)
  have len: "length ?p < 2 ^ 24" by (simp add: eof_payload_def)
  let ?b = "packet_body (of_nat (length ?p)) b" and ?c2 = "taken (length ?p) ?n b con"
  have pin: "packet_in ?b ?p rest" by (rule packet_body_in[OF b(2,3) len])
  let ?c3 = "?c2\<lparr>warning_count := warnings, server_status := sstatus, read_buffer := Some (skip 2 (skip 2 (skip 1 ?b)))\<rparr>"
  have f: "get_byte ?b = Some 0xfe" "get_int2 (skip 1 ?b) = Some warnings" "get_int2 (skip 2 (skip 1 ?b)) = Some sstatus"
    using eof_fields[OF packet_in_ahead[OF pin]] by (simp_all add: numeral_3_eq_3)
  have none: "expects_none (?c3\<lparr>command_status := x, con_status := y, read_buffer := z\<rparr>)" for x y z
    by (rule taken_ready[OF e]) (simp add: queue_fields_def)
  have c2: "read_buffer ?c2 = Some ?b" "command_status ?c2 = command_status con" "con_stmt ?c2 = Some stmt"
    using stmt by (simp_all add: taken_def)
  have s5: "skip 2 (skip 2 (skip 1 ?b)) = skip 5 ?b" by simp
  show ?thesis
  proof (cases ?more)
    case True
    then have pos: "0 < stmt_column_count stmt" by (simp add: word_gt_0)
    let ?c4 = "?c3\<lparr>command_status := ATTACHSQL_COMMAND_STATUS_READ_STMT_COLUMN\<rparr>"
    have "expects_none ?c4" by (rule taken_ready[OF e]) (simp add: queue_fields_def)
    then obtain con1 where p: "queue_push ATTACHSQL_PACKET_TYPE_PREPARE_COLUMN ?c4 = Some con1"
      "expects ATTACHSQL_PACKET_TYPE_PREPARE_COLUMN con1" using push_expects by blast
    let ?con' = "con1\<lparr>read_buffer := Some (past_packet ?b)\<rparr>"
    have rb: "read_buffer con1 = Some (skip 5 ?b)" unfolding s5[symmetric] using queue_push_rb[OF p(1)] by simp
    have "attachsql_packet_read_response ?c2 = Some ?con'"
      using f c2 True pos read_end_at[OF rb pin] p(1)[unfolded s5]
      by (auto simp: attachsql_packet_read_response_def read_eof_packet_def Let_def)
    then have "process_loop con = process_loop ?con'"
      using loop_turn[OF b len e] n by (simp add: next_number_def stops_def)
    moreover have "unread ?con' rest" using past_packet_ok[OF pin] by (simp add: unread_def)
    moreover have "expects ATTACHSQL_PACKET_TYPE_PREPARE_COLUMN ?con'"
      using p(2) queue_frame[of ?con' con1] by (simp add: expects_def queue_fields_def)
    ultimately show ?thesis using True queue_push_frame[OF p(1)] queue_push_same[OF p(1)] stmt b(1)
      by (intro exI[of _ ?con']) (simp add: taken_def same_defs columns_next_def)
  next
    case False
    let ?con' = "?c3\<lparr>command_status := ATTACHSQL_COMMAND_STATUS_EOF, con_status := ATTACHSQL_CON_STATUS_IDLE,
        read_buffer := Some (past_packet ?b)\<rparr>"
    let ?d = "?c3\<lparr>command_status := ATTACHSQL_COMMAND_STATUS_EOF, con_status := ATTACHSQL_CON_STATUS_IDLE\<rparr>"
    have rb: "read_buffer ?d = Some (skip 5 ?b)" unfolding s5[symmetric] by simp
    have d: "attachsql_packet_read_end ?d = Some ?con'" using read_end_at[OF rb pin] by simp
    have "command_status con = ATTACHSQL_COMMAND_STATUS_READ_STMT_COLUMN \<or> stmt_column_count stmt = 0"
      using st False by auto
    then have "attachsql_packet_read_response ?c2 = attachsql_packet_read_end ?d"
      using st f c2 by (auto simp: attachsql_packet_read_response_def read_eof_packet_def Let_def)
    then have "attachsql_packet_read_response ?c2 = Some ?con'" using d by simp
    then have "process_loop con = process_loop ?con'"
      using loop_turn[OF b len e] n by (simp add: next_number_def stops_def)
    moreover have "unread ?con' rest" using past_packet_ok[OF pin] by (simp add: unread_def)
    ultimately show ?thesis using False none stmt b(1)
      by (intro exI[of _ ?con']) (auto simp: taken_def same_defs columns_next_def)
  qed
qed

section \<open>The whole answer\<close>

definition columns_part :: "byte \<Rightarrow> byte list list \<Rightarrow> uint16 \<Rightarrow> uint16 \<Rightarrow> byte list \<Rightarrow> byte list" where
  "columns_part n cols warnings sstatus rest =
     (if cols = [] then rest
      else payload_stream n cols (packet (n + of_nat (length cols)) (eof_payload warnings sstatus) @ rest))"

definition params_part :: "byte \<Rightarrow> byte list \<Rightarrow> column_t list \<Rightarrow> uint16 \<Rightarrow> uint16 \<Rightarrow> byte list \<Rightarrow> byte list" where
  "params_part n catalog ps warnings sstatus rest =
     (if ps = [] then rest
      else column_stream n catalog ps (packet (n + of_nat (length ps)) (eof_payload warnings sstatus) @ rest))"

text \<open>The end: nothing is expected, the statement is there and the connection idle.\<close>

definition prepare_done :: "attachsql_stmt_st \<Rightarrow> byte list \<Rightarrow> 'a con_core_scheme \<Rightarrow> bool" where
  "prepare_done stmt rest con \<longleftrightarrow> expects_none con \<and> unread con rest \<and> con_status con = ATTACHSQL_CON_STATUS_IDLE \<and>
     command_status con = ATTACHSQL_COMMAND_STATUS_EOF \<and> con_stmt con = Some stmt"

lemma columns_phase:
  assumes now: "columns_next con0 con (stmt_column_count stmt)" and stmt: "con_stmt con = Some stmt"
      "stmt_current_column stmt = 0" "stmt_column_count stmt = of_nat (length cols)"
    and u: "unread con (columns_part (packet_number con + 1) cols warnings sstatus rest)"
    and cols: "length cols < 128" "\<forall>p \<in> set cols. length p < 2 ^ 24" "unat (packet_number con) + length cols + 1 < 128"
  shows "\<exists>con'. process_loop con = process_loop con' \<and> prepare_done (stmt\<lparr>stmt_current_column := stmt_column_count stmt\<rparr>) rest con' \<and>
    same_but_stmt con con'"
proof (cases "cols = []")
  case True
  have "stmt\<lparr>stmt_current_column := 0\<rparr> = stmt" using stmt(2) by (cases stmt) simp
  then have "prepare_done (stmt\<lparr>stmt_current_column := stmt_column_count stmt\<rparr>) rest con"
    using True now u stmt by (simp add: prepare_done_def columns_next_def columns_part_def)
  then show ?thesis by (auto simp: same_defs)
next
  case False
  have "unat (of_nat (length cols) :: uint16) = length cols" using cols(1) by (simp add: unat_of_nat take_bit_nat_eq_self)
  then have "stmt_column_count stmt \<noteq> 0" using False stmt(3) by auto
  then have c: "expects ATTACHSQL_PACKET_TYPE_PREPARE_COLUMN con" "command_status con = ATTACHSQL_COMMAND_STATUS_READ_STMT_COLUMN"
    using now by (simp_all add: columns_next_def)
  let ?n = "packet_number con + 1 + of_nat (length cols)"
  have "unread con (payload_stream (packet_number con + 1) cols (packet ?n (eof_payload warnings sstatus) @ rest))"
    using u False by (simp add: columns_part_def)
  from skip_loop[OF this False cols(2) c(1) cols(3) stmt(1), of 0] stmt(2,3) cols(1) obtain con1 where
    c1: "process_loop con = process_loop con1" "unread con1 (packet ?n (eof_payload warnings sstatus) @ rest)"
    "expects ATTACHSQL_PACKET_TYPE_RESPONSE con1" "packet_number con1 = packet_number con + of_nat (length cols)"
    "con_stmt con1 = Some (stmt\<lparr>stmt_current_column := stmt_column_count stmt\<rparr>)" "same_status con con1" "same_but_stmt con con1"
    by auto
  have n: "packet_number con1 + 1 = ?n" by (simp add: c1(4))
  have "unat (packet_number con1) = unat (packet_number con) + length cols"
    using cols(3) by (simp add: c1(4) unat_word_ariths unat_of_nat)
  then have "packet_number con1 + 1 < 0x80" using unat_plus1[of "packet_number con1" 0] cols(3) by simp
  moreover have "unread con1 (packet (packet_number con1 + 1) (eof_payload warnings sstatus) @ rest)" by (subst n) (rule c1(2))
  ultimately obtain con' where "process_loop con1 = process_loop con'" "unread con' rest"
    "con_stmt con' = con_stmt con1" "same_but_stmt con1 con'" "columns_next con1 con' 0"
    using stmt_eof_turn[of con1 warnings sstatus rest] c1(3,5,6) c(2) by (auto simp: same_status_def)
  then show ?thesis using c1(1,5) same_but_stmt_trans[OF c1(7)]
    by (intro exI[of _ con']) (simp add: prepare_done_def columns_next_def)
qed

text \<open>The number of the first packet behind the parameters.\<close>

definition behind_params :: "byte \<Rightarrow> column_t list \<Rightarrow> byte" where
  "behind_params n ps = (if ps = [] then n else n + of_nat (length ps) + 1)"

definition params_read :: "byte \<Rightarrow> byte list \<Rightarrow> column_t list \<Rightarrow> byte list \<Rightarrow> attachsql_stmt_st \<Rightarrow> attachsql_stmt_st" where
  "params_read n catalog ps eof stmt =
     (if ps = [] then stmt
      else stmt\<lparr>stmt_params := Some (map Some (columns_read n catalog ps eof)), current_param := param_count stmt\<rparr>)"

lemma params_phase:
  assumes now: "params_next con0 con (of_nat k) (of_nat (length ps))"
    and stmt: "con_stmt con = Some (fresh_stmt sid (of_nat k) (of_nat (length ps)))"
    and u: "unread con (params_part (packet_number con + 1) catalog ps warnings sstatus rest)"
    and ps: "length ps < 128" "\<forall>c \<in> set ps. column_short catalog c" "unat (packet_number con) + length ps + 1 < 128"
  shows "\<exists>con1 con'. process_loop con = process_loop con' \<and> unread con' rest \<and> columns_next con1 con' (of_nat k) \<and>
    con_stmt con' = Some (params_read (packet_number con + 1) catalog ps (eof_payload warnings sstatus)
      (fresh_stmt sid (of_nat k) (of_nat (length ps)))) \<and>
    packet_number con' + 1 = behind_params (packet_number con + 1) ps \<and> same_but_stmt con con'"
proof (cases "ps = []")
  case True
  then show ?thesis using now u stmt
    by (intro exI[of _ con0] exI[of _ con])
       (simp add: params_part_def params_next_def params_read_def behind_params_def same_defs)
next
  case False
  have small: "unat (of_nat (length ps) :: uint16) = length ps" using ps(1) by (simp add: unat_of_nat take_bit_nat_eq_self)
  then have nz: "(of_nat (length ps) :: uint16) \<noteq> 0" using False by auto
  have c: "expects ATTACHSQL_PACKET_TYPE_PREPARE_PARAMETER con" "command_status con = ATTACHSQL_COMMAND_STATUS_READ_STMT_PARAM"
    using now nz by (simp_all add: params_next_def)
  let ?s = "fresh_stmt sid (of_nat k) (of_nat (length ps))" and ?eof = "eof_payload warnings sstatus"
  let ?n = "packet_number con + 1 + of_nat (length ps)"
  have f: "param_defs con = Some (map Some [] @ replicate (length ps) None)" "current_param (stmt_of con) = of_nat (length [])"
    "param_count (stmt_of con) = of_nat (length [] + length ps)"
    using stmt nz small by (simp_all add: param_defs_def stmt_of_def fresh_stmt_def stmt_init_def)
  have "unread con (column_stream (packet_number con + 1) catalog ps (packet ?n ?eof @ rest))"
    using u False by (simp add: params_part_def)
  from stmt_params.definitions_loop[OF this False ps(2) _ c(1) ps(3) f] ps(1) obtain con1 where
    c1: "process_loop con = process_loop con1" "unread con1 (packet ?n ?eof @ rest)"
    "expects ATTACHSQL_PACKET_TYPE_RESPONSE con1" "packet_number con1 = packet_number con + of_nat (length ps)"
    "param_defs con1 = Some (map Some (columns_read (packet_number con + 1) catalog ps ?eof))"
    "current_param (stmt_of con1) = param_count (stmt_of con)" "param_kept con con1"
    by (auto simp: eof_payload_def)
  have st1: "con_stmt con1 = Some (params_read (packet_number con + 1) catalog ps ?eof ?s)"
  proof -
    obtain s1 where s1: "con_stmt con1 = Some s1" using c1(7) by (auto simp: param_kept_def)
    have "s1\<lparr>stmt_params := None, current_param := 0\<rparr> = ?s\<lparr>stmt_params := None, current_param := 0\<rparr>"
      using c1(7) s1 stmt by (simp add: param_kept_def stmt_of_def)
    moreover have "stmt_params s1 = Some (map Some (columns_read (packet_number con + 1) catalog ps ?eof))"
      "current_param s1 = param_count ?s"
      using c1(5,6) s1 stmt by (simp_all add: param_defs_def stmt_of_def)
    ultimately have "s1 = params_read (packet_number con + 1) catalog ps ?eof ?s"
      using False by (cases s1) (simp add: params_read_def fresh_stmt_def stmt_init_def)
    then show ?thesis using s1 by simp
  qed
  have n: "packet_number con1 + 1 = ?n" by (simp add: c1(4))
  have "unat (packet_number con1) = unat (packet_number con) + length ps"
    using ps(3) by (simp add: c1(4) unat_word_ariths unat_of_nat)
  then have "packet_number con1 + 1 < 0x80" using unat_plus1[of "packet_number con1" 0] ps(3) by simp
  moreover have "unread con1 (packet (packet_number con1 + 1) ?eof @ rest)" by (subst n) (rule c1(2))
  moreover have "command_status con1 = ATTACHSQL_COMMAND_STATUS_READ_STMT_PARAM"
    using c1(7) c(2) by (simp add: param_kept_def same_status_def)
  ultimately obtain con' where "process_loop con1 = process_loop con'" "unread con' rest" "packet_number con' = ?n"
    "con_stmt con' = con_stmt con1" "same_but_stmt con1 con'" "columns_next con1 con' (of_nat k)"
    using stmt_eof_turn[of con1 warnings sstatus rest] c1(3) st1 n
    by (auto simp: params_read_def fresh_stmt_def False)
  then show ?thesis using c1(1,7) st1 False same_but_stmt_trans[of con con1 con']
    by (intro exI[of _ con1] exI[of _ con']) (simp add: behind_params_def param_kept_def)
qed

definition prepare_stream ::
  "byte \<Rightarrow> uint32 \<Rightarrow> uint16 \<Rightarrow> byte list \<Rightarrow> column_t list \<Rightarrow> uint16 \<Rightarrow> uint16 \<Rightarrow> byte list list \<Rightarrow> uint16 \<Rightarrow> uint16 \<Rightarrow> byte list" where
  "prepare_stream n sid warnings catalog ps w1 s1 cols w2 s2 =
     packet n (prepared_payload sid (of_nat (length cols)) (of_nat (length ps)) warnings) @
     params_part (n + 1) catalog ps w1 s1 (columns_part (behind_params (n + 1) ps) cols w2 s2 [])"

definition prepare_good :: "byte list \<Rightarrow> column_t list \<Rightarrow> byte list list \<Rightarrow> bool" where
  "prepare_good catalog ps cols \<longleftrightarrow> (\<forall>c \<in> set ps. column_short catalog c) \<and> (\<forall>p \<in> set cols. length p < 2 ^ 24) \<and>
     length ps + length cols + 4 < 128"

definition prepared_stmt :: "byte \<Rightarrow> uint32 \<Rightarrow> byte list \<Rightarrow> column_t list \<Rightarrow> byte list \<Rightarrow> nat \<Rightarrow> attachsql_stmt_st" where
  "prepared_stmt n sid catalog ps eof k =
     (params_read n catalog ps eof (fresh_stmt sid (of_nat k) (of_nat (length ps))))\<lparr>stmt_current_column := of_nat k\<rparr>"

lemma prepare_loop:
  assumes u: "unread con (prepare_stream (packet_number con + 1) sid warnings catalog ps w1 s1 cols w2 s2)"
    and good: "prepare_good catalog ps cols" and e: "expects ATTACHSQL_PACKET_TYPE_PREPARE_RESPONSE con"
    and con: "packet_number con = 0" "con_stmt con = Some stmt_init" "allocs con = []"
  shows "\<exists>con'. process_loop con = Some (False, con') \<and> same_but_stmt con con' \<and>
    prepare_done (prepared_stmt 2 sid catalog ps (eof_payload w1 s1) (length cols)) [] con'"
proof -
  have g: "\<forall>c \<in> set ps. column_short catalog c" "\<forall>p \<in> set cols. length p < 2 ^ 24" "length ps < 128" "length cols < 128"
    "length ps + length cols + 4 < 128" using good by (auto simp: prepare_good_def)
  obtain c1 where c1: "process_loop con = process_loop c1"
    "unread c1 (params_part 2 catalog ps w1 s1 (columns_part (behind_params 2 ps) cols w2 s2 []))"
    "packet_number c1 = 1" "con_stmt c1 = Some (fresh_stmt sid (of_nat (length cols)) (of_nat (length ps)))"
    "params_next con c1 (of_nat (length cols)) (of_nat (length ps))" "same_but_stmt con c1"
    using prepare_turn[OF u[unfolded prepare_stream_def] e _ con(2,3)] con(1) by auto
  have pp: "packet_number c1 + 1 = 2" using c1(3) by simp
  have u1: "unread c1 (params_part (packet_number c1 + 1) catalog ps w1 s1 (columns_part (behind_params 2 ps) cols w2 s2 []))"
    unfolding pp by (rule c1(2))
  have n1: "unat (packet_number c1) + length ps + 1 < 128" using c1(3) g(5) by simp
  obtain c2 c3 where
    c3: "process_loop c1 = process_loop c3" "unread c3 (columns_part (behind_params 2 ps) cols w2 s2 [])"
    "columns_next c2 c3 (of_nat (length cols))"
    "con_stmt c3 = Some (params_read 2 catalog ps (eof_payload w1 s1) (fresh_stmt sid (of_nat (length cols)) (of_nat (length ps))))"
    "packet_number c3 + 1 = behind_params 2 ps" "same_but_stmt c1 c3"
    using params_phase[OF c1(5,4) u1 g(3,1) n1, unfolded pp] by blast
  let ?s = "params_read 2 catalog ps (eof_payload w1 s1) (fresh_stmt sid (of_nat (length cols)) (of_nat (length ps)))"
  have s: "stmt_current_column ?s = 0" "stmt_column_count ?s = of_nat (length cols)"
    by (simp_all add: params_read_def fresh_stmt_def stmt_init_def)
  have "packet_number c3 = behind_params 2 ps - 1" using c3(5) by (metis add_diff_cancel_right')
  also have "\<dots> = of_nat (if ps = [] then 1 else length ps + 2)" by (simp add: behind_params_def)
  finally have "unat (packet_number c3) = (if ps = [] then 1 else length ps + 2)"
    using g(5) by (simp add: unat_of_nat take_bit_nat_eq_self del: of_nat_add)
  then have n: "unat (packet_number c3) + length cols + 1 < 128" using g(5) by (simp split: if_splits)
  have nx: "columns_next c2 c3 (stmt_column_count ?s)" unfolding s(2) by (rule c3(3))
  have u3: "unread c3 (columns_part (packet_number c3 + 1) cols w2 s2 [])" unfolding c3(5) by (rule c3(2))
  obtain c4 where c4: "process_loop c3 = process_loop c4" "same_but_stmt c3 c4"
    "prepare_done (?s\<lparr>stmt_current_column := stmt_column_count ?s\<rparr>) [] c4"
    using columns_phase[OF nx c3(4) s u3 g(4,2) n] by blast
  have "process_loop c4 = Some (False, c4)"
    using c4(3) by (intro nothing_awaited) (auto simp: prepare_done_def unread_def)
  moreover have "same_but_stmt con c4" using c1(6) c3(6) c4(2) same_but_stmt_trans by blast
  ultimately show ?thesis using c1(1) c3(1) c4(1,3) s(2) by (intro exI[of _ c4]) (simp add: prepared_stmt_def)
qed

lemma statement_prepared_ok:
  assumes "session_idle con" "len \<le> length statement"
    and "uv_events con = [Received wanted (prepare_stream 1 sid warnings catalog ps w1 s1 cols w2 s2)] # later"
    and "length (prepare_stream 1 sid warnings catalog ps w1 s1 cols w2 s2) + wanted \<le> capacity con"
    and "prepare_good catalog ps cols"
  shows "\<exists>con1 con2 stmt.
    attachsql_statement_prepare con len statement (Some e) = Some (True, Some e, Some con1) \<and>
    sent con1 = sent con @ [packet 0 (command_code ATTACHSQL_COMMAND_STMT_PREPARE # take len statement)] \<and>
    attachsql_connect_poll (Some con1) (Some e) = Some (ATTACHSQL_RETURN_EOF, Some e, Some con2) \<and>
    con_stmt con2 = Some stmt \<and> stmt_id stmt = sid \<and> stmt_state stmt = ATTACHSQL_STMT_STATE_PREPARED \<and>
    stmt_column_count stmt = of_nat (length cols) \<and> param_count stmt = of_nat (length ps) \<and>
    (if ps = [] then stmt_params stmt = None \<and> param_data stmt = None
     else stmt_params stmt = Some (map Some (columns_read 2 catalog ps (eof_payload w1 s1))) \<and>
          param_data stmt = Some (replicate (length ps) param_init)) \<and>
    exec_buffer stmt = None \<and> exec_buffer_length stmt = 0 \<and> new_bind stmt \<and>
    session_idle con2 \<and> buffer_rows con2 = buffer_rows con \<and> stmt_row con2 = stmt_row con \<and> uv_events con2 = later \<and> sent con2 = sent con1 \<and>
    capacity con2 = capacity con"
proof -
  let ?bytes = "prepare_stream 1 sid warnings catalog ps w1 s1 cols w2 s2"
  have none: "unread con []" using assms(1) by (simp add: session_idle_def)
  have idle: "con_status con = ATTACHSQL_CON_STATUS_IDLE" "calm con" "\<not> in_query con" "con_pool con = None"
    using assms(1) by (simp_all add: session_idle_def query_ready_def)
  have "con\<lparr>con_stmt := Some stmt_init\<rparr> = con\<lparr>in_query := False, query_buffer := query_buffer con,
      query_buffer_length := query_buffer_length con, query_buffer_alloc := query_buffer_alloc con,
      query_buffer_statement := query_buffer_statement con, con_stmt := Some stmt_init\<rparr>" using idle(3) by (cases con) simp
  from asked_command[OF assms(1) this, of ATTACHSQL_COMMAND_STMT_PREPARE _ "take len statement"] obtain con1 where
    c1: "attachsql_command_send ATTACHSQL_COMMAND_STMT_PREPARE (take len statement) (con\<lparr>con_stmt := Some stmt_init\<rparr>) =
      Some (ATTACHSQL_COMMAND_STATUS_SEND, con1)"
    "asked_by ATTACHSQL_COMMAND_STMT_PREPARE con (take len statement) con1" "con_stmt con1 = Some stmt_init"
    "in_query con1 = False"
    by (auto simp: response_of_def)
  have prep: "attachsql_statement_prepare con len statement (Some e) = Some (True, Some e, Some con1)"
    using idle(1,2) c1(1) assms(2) by (simp add: attachsql_statement_prepare_def calm_def alloc_def object_bytes_def)
  have ne: "?bytes \<noteq> []" by (simp add: prepare_stream_def packet_def)
  obtain b' where size: "buffer_size b' = capacity con" and b': "unread (con1\<lparr>uv_events := later, read_buffer := Some b'\<rparr>) ?bytes"
    "expects (hd (response_of ATTACHSQL_COMMAND_STMT_PREPARE)) (con1\<lparr>uv_events := later, read_buffer := Some b'\<rparr>)"
    "\<forall>r con2 error. process_loop (con1\<lparr>uv_events := later, read_buffer := Some b'\<rparr>) = Some (r, con2) \<longrightarrow>
      con_status con2 = ATTACHSQL_CON_STATUS_IDLE \<longrightarrow> attachsql_connect_poll (Some con1) error = poll_idle con2 error"
    using answer_arrives[OF c1(2) none assms(3,4) ne] .
  let ?c = "con1\<lparr>uv_events := later, read_buffer := Some b'\<rparr>"
  have a: "packet_number ?c = 0" "con_stmt ?c = Some stmt_init" "allocs ?c = []"
    using c1(2,3) by (simp_all add: asked_by_def calm_def)
  have u: "unread ?c (prepare_stream (packet_number ?c + 1) sid warnings catalog ps w1 s1 cols w2 s2)" using b'(1) a(1) by simp
  have ex: "expects ATTACHSQL_PACKET_TYPE_PREPARE_RESPONSE ?c" using b'(2) by (simp add: response_of_def)
  obtain con2 where c2: "process_loop ?c = Some (False, con2)" "same_but_stmt ?c con2"
    "prepare_done (prepared_stmt 2 sid catalog ps (eof_payload w1 s1) (length cols)) [] con2"
    using prepare_loop[OF u assms(5) ex a] by blast
  have done_: "con_status con2 = ATTACHSQL_CON_STATUS_IDLE" "command_status con2 = ATTACHSQL_COMMAND_STATUS_EOF"
    "expects_none con2" "unread con2 []"
    using c2(3) by (simp_all add: prepare_done_def)
  have more: "con_row con2 = None" "stmt_row con2 = stmt_row con"
    using more_view[of con2 ?c] c2(2) c1(2) by (simp_all add: same_but_stmt_def asked_by_def)
  have same: "same_session (con1\<lparr>uv_events := later\<rparr>) con2"
    using same_but_stmt_session[OF c2(2)] size c1(2)
    by (simp add: same_session_def same_core_def writer_def client_view_def capacity_def asked_by_def)
  note p = eof_polled[OF assms(1) c1(2) same done_]
  have "attachsql_connect_poll (Some con1) (Some e) = poll_idle con2 (Some e)" using b'(3) c2(1) done_(1) by blast
  then have poll: "attachsql_connect_poll (Some con1) (Some e) = Some (ATTACHSQL_RETURN_EOF, Some e, Some (at_end con2))"
    using poll_resting[OF done_(1)] p(1) by simp
  have "session_idle (at_end con2)" using at_end_idle[OF assms(1) c1(2) same done_] c1(4) more(1) by simp
  moreover have "con_stmt (at_end con2) = con_stmt con2" by (simp add: at_end_def)
  moreover have "unat (of_nat (length ps) :: uint16) = length ps" "ps \<noteq> [] \<Longrightarrow> (of_nat (length ps) :: uint16) \<noteq> 0"
    using assms(5) by (auto simp: prepare_good_def unat_of_nat take_bit_nat_eq_self dest: arg_cong[of _ _ unat])
  ultimately show ?thesis using prep poll c1(2) c2(3) p(12-14,18,19) more(2)
    by (intro exI[of _ con1] exI[of _ "at_end con2"] exI[of _ "prepared_stmt 2 sid catalog ps (eof_payload w1 s1) (length cols)"])
       (simp add: prepare_done_def asked_by_def prepared_stmt_def params_read_def fresh_stmt_def stmt_init_def row_view_def)
qed

section \<open>Property\<close>

text \<open>
  C5. Preparing a statement: the text is sent, the next poll takes the whole answer of the server and
  reports the end, and then the connection has a prepared statement with the server's number, the
  number of columns, the definitions of all parameters in order and room for their values, and is ready
  for the next command.
\<close>

theorem statement_prepared:
  assumes "session_idle con" "len \<le> length statement"
    and "uv_events con = [Received wanted (prepare_stream 1 sid warnings catalog ps w1 s1 cols w2 s2)] # later"
    and "length (prepare_stream 1 sid warnings catalog ps w1 s1 cols w2 s2) + wanted \<le> capacity con"
    and "prepare_good catalog ps cols"
  shows "\<exists>con1 con2 stmt.
    attachsql_statement_prepare con len statement (Some e) = Some (True, Some e, Some con1) \<and>
    sent con1 = sent con @ [packet 0 (command_code ATTACHSQL_COMMAND_STMT_PREPARE # take len statement)] \<and>
    attachsql_connect_poll (Some con1) (Some e) = Some (ATTACHSQL_RETURN_EOF, Some e, Some con2) \<and>
    con_stmt con2 = Some stmt \<and> stmt_id stmt = sid \<and> stmt_state stmt = ATTACHSQL_STMT_STATE_PREPARED \<and>
    stmt_column_count stmt = of_nat (length cols) \<and> param_count stmt = of_nat (length ps) \<and>
    (if ps = [] then stmt_params stmt = None \<and> param_data stmt = None
     else stmt_params stmt = Some (map Some (columns_read 2 catalog ps (eof_payload w1 s1))) \<and>
          param_data stmt = Some (replicate (length ps) param_init)) \<and>
    exec_buffer stmt = None \<and> exec_buffer_length stmt = 0 \<and> new_bind stmt \<and>
    session_idle con2 \<and> buffer_rows con2 = buffer_rows con \<and> stmt_row con2 = stmt_row con \<and> uv_events con2 = later \<and> sent con2 = sent con1 \<and>
    capacity con2 = capacity con"
  using assms by (rule statement_prepared_ok)

definition prepare_con :: attachsql_connect_t where
  "prepare_con = session_con\<lparr>uv_events :=
     [[Received 16 (prepare_stream 1 7 0 [0x64, 0x65, 0x66] [sample_column] 0 0 [[1, 2, 3]] 0 2)]]\<rparr>"

theorem statement_prepared_witness:
  "\<exists>con1 con2 stmt.
    attachsql_statement_prepare prepare_con 8 (str ''SELECT ?'') (Some None) = Some (True, Some None, Some con1) \<and>
    attachsql_connect_poll (Some con1) (Some None) = Some (ATTACHSQL_RETURN_EOF, Some None, Some con2) \<and>
    con_stmt con2 = Some stmt \<and> stmt_id stmt = 7 \<and> stmt_column_count stmt = 1 \<and> param_count stmt = 1 \<and>
    param_data stmt = Some [param_init] \<and> session_idle con2"
proof -
  let ?s = "prepare_stream 1 7 0 [0x64, 0x65, 0x66] [sample_column] 0 0 [[1, 2, 3]] 0 2"
  have ready: "session_idle session_con" using session_con_ready by (simp add: session_ready_def)
  have idle: "session_idle prepare_con"
    by (rule idle_frame[OF ready]) (simp_all add: prepare_con_def queue_fields_def writer_def)
  have ev: "uv_events prepare_con = [Received 16 ?s] # []" by (simp add: prepare_con_def)
  have good: "prepare_good [0x64, 0x65, 0x66] [sample_column] [[1, 2, 3]]"
    using sample_column_good by (simp add: prepare_good_def column_short_def sample_column_length)
  have room: "length ?s + 16 \<le> capacity prepare_con"
    by (simp add: prepare_con_def session_con_def capacity_def packet_buffer_def prepare_stream_def params_part_def columns_part_def packet_def
        prepared_payload_length eof_payload_def sample_column_length)
  have st: "8 \<le> length (str ''SELECT ?'')" by (simp add: str_def)
  from statement_prepared[OF idle st ev room good, of None] show ?thesis by fastforce
qed

end
