(* ===== verification/Stmt_Get.thy ===== *)
theory Stmt_Get
  imports Stmt_Set Query
begin

text \<open>
  The rows of a prepared statement, the second part of \<open>src/statement_getset.cc\<close>: splitting a binary
  row into its values, and reading a value as a number or as text. A \<open>float\<close> or \<open>double\<close> is its
  bits.
\<close>

section \<open>Splitting a row\<close>

definition counted_type :: "attachsql_column_type_t \<Rightarrow> bool" where
  "counted_type t \<longleftrightarrow> t \<in> {ATTACHSQL_COLUMN_TYPE_STRING, ATTACHSQL_COLUMN_TYPE_VARCHAR, ATTACHSQL_COLUMN_TYPE_VARSTRING,
     ATTACHSQL_COLUMN_TYPE_ENUM, ATTACHSQL_COLUMN_TYPE_SET, ATTACHSQL_COLUMN_TYPE_LONG_BLOB,
     ATTACHSQL_COLUMN_TYPE_MEDIUM_BLOB, ATTACHSQL_COLUMN_TYPE_TINY_BLOB, ATTACHSQL_COLUMN_TYPE_BLOB,
     ATTACHSQL_COLUMN_TYPE_GEOMETRY, ATTACHSQL_COLUMN_TYPE_BIT, ATTACHSQL_COLUMN_TYPE_DECIMAL,
     ATTACHSQL_COLUMN_TYPE_NEWDECIMAL}"

definition date_type :: "attachsql_column_type_t \<Rightarrow> bool" where
  "date_type t \<longleftrightarrow> t \<in> {ATTACHSQL_COLUMN_TYPE_DATE, ATTACHSQL_COLUMN_TYPE_DATETIME,
     ATTACHSQL_COLUMN_TYPE_TIMESTAMP, ATTACHSQL_COLUMN_TYPE_TIME}"

fun fixed_length :: "attachsql_column_type_t \<Rightarrow> nat option" where
  "fixed_length ATTACHSQL_COLUMN_TYPE_LONGLONG = Some 8"
| "fixed_length ATTACHSQL_COLUMN_TYPE_DOUBLE = Some 8"
| "fixed_length ATTACHSQL_COLUMN_TYPE_LONG = Some 4"
| "fixed_length ATTACHSQL_COLUMN_TYPE_INT24 = Some 4"
| "fixed_length ATTACHSQL_COLUMN_TYPE_FLOAT = Some 4"
| "fixed_length ATTACHSQL_COLUMN_TYPE_SHORT = Some 2"
| "fixed_length ATTACHSQL_COLUMN_TYPE_YEAR = Some 2"
| "fixed_length ATTACHSQL_COLUMN_TYPE_TINY = Some 1"
| "fixed_length ATTACHSQL_COLUMN_TYPE_NULL = Some 0"
| "fixed_length _ = None"

text \<open>
  The length of a value and where it starts, or none for a type the \<open>switch\<close> does not know. The
  length byte of a date is a signed \<open>char\<close>, widened to 64 bits.
\<close>

definition value_at :: "attachsql_column_type_t \<Rightarrow> block \<Rightarrow> nat \<Rightarrow> (nat \<times> nat) option option" where
  "value_at t b p =
     (if counted_type t then do { (len, bytes) \<leftarrow> unpack_length_at b p; Some (Some (unat len, p + bytes)) }
      else if date_type t then do { c \<leftarrow> blk_get b p; Some (Some (unat (scast c :: uint64), p + 1)) }
      else Some (map_option (\<lambda>n. (n, p)) (fixed_length t)))"

definition is_null :: "block \<Rightarrow> nat \<Rightarrow> nat \<Rightarrow> bool option" where
  "is_null b bitmap column = map_option (\<lambda>x. bit x ((column + 2) mod 8)) (blk_get b (bitmap + (column + 2) div 8))"

text \<open>The loop over the columns; it stops at an unknown type, with the rows stored so far.\<close>

fun split_values ::
  "block \<Rightarrow> nat \<Rightarrow> nat \<Rightarrow> column_t option list \<Rightarrow> nat list \<Rightarrow> nat \<Rightarrow> attachsql_stmt_row_st list
   \<Rightarrow> (bool \<times> attachsql_stmt_row_st list) option" where
  "split_values b gen bitmap cols [] p rows = Some (True, rows)"
| "split_values b gen bitmap cols (i # is) p rows =
     do { col \<leftarrow> (if i < length cols then cols ! i else None);
          null \<leftarrow> is_null b bitmap i;
          let t = (if null then ATTACHSQL_COLUMN_TYPE_NULL else c_type col);
          v \<leftarrow> value_at t b p;
          case v of
            None \<Rightarrow> Some (False, rows)
          | Some (len, p) \<Rightarrow>
              if i < length rows then
                split_values b gen bitmap cols is ((p + len) mod 2 ^ 64)
                  (rows[i := \<lparr>sr_data = Some (gen, p), sr_length = len, sr_type = t\<rparr>])
              else None }"

definition attachsql_statement_row_get :: "con_ptr \<Rightarrow> error_ptr \<Rightarrow> bool call" where
  "attachsql_statement_row_get c error =
     (case c of
        None \<Rightarrow> null_con False ATTACHSQL_ERROR_CODE_PARAMETER ''22023'' ''Connection parameter not valid'' error
      | Some con \<Rightarrow>
          let total = unat (column_count (con_result con));
              (ok, con) = (if stmt_row con = None then alloc con else (True, con))
          in if \<not> ok then
               fail_with False ATTACHSQL_ERROR_CODE_ALLOC ''82100'' (str ''Allocation failure for row'') error con
             else do {
               let rows = (case stmt_row con of None \<Rightarrow> replicate total stmt_row_init | Some rows \<Rightarrow> rows);
               p \<leftarrow> row_data (con_result con);
               let bitmap = snd p + 1;
               let bitmap_length = (total + 7 + 2) div 8;
               let con = con\<lparr>stmt_row := Some rows, stmt_null_bitmap := Some (fst p, bitmap),
                             stmt_null_bitmap_length := bitmap_length\<rparr>;
               if total = 0 then Some (True, error, Some con)
               else do {
                 (b, off) \<leftarrow> deref con p;
                 cols \<leftarrow> result_columns (con_result con);
                 (ok, rows) \<leftarrow> split_values b (fst p) (off + 1) cols [0..<total] (off + 1 + bitmap_length) rows;
                 let con = con\<lparr>stmt_row := Some rows\<rparr>;
                 if ok then Some (True, error, Some con)
                 else fail_with False ATTACHSQL_ERROR_CODE_UNKNOWN ''60000'' (str ''Bad data in statement result'') error con } })"

section \<open>Values as numbers\<close>

text \<open>The checks all getters begin with, and the value of the column.\<close>

definition with_column ::
  "'r \<Rightarrow> con_ptr \<Rightarrow> uint16 \<Rightarrow> error_ptr \<Rightarrow> (attachsql_stmt_row_st \<Rightarrow> attachsql_connect_t \<Rightarrow> 'r call) \<Rightarrow> 'r call" where
  "with_column r c column error get =
     (case c of
        None \<Rightarrow> null_con r ATTACHSQL_ERROR_CODE_PARAMETER ''22023'' ''Connection parameter not valid'' error
      | Some con \<Rightarrow>
          case stmt_row con of
            None \<Rightarrow> fail_with r ATTACHSQL_ERROR_CODE_PARAMETER ''22023'' (str ''Statement row has not been processed'') error con
          | Some rows \<Rightarrow>
              if column_count (con_result con) \<le> column then
                fail_with r ATTACHSQL_ERROR_CODE_PARAMETER ''22023''
                  (str ''Column '' @ dec_int (uint column) @ str '' does not exist'') error con
              else if unat column < length rows then get (rows ! unat column) con
              else None)"

definition cannot_convert :: "'r \<Rightarrow> error_ptr \<Rightarrow> attachsql_connect_t \<Rightarrow> 'r call" where
  "cannot_convert r error con =
     fail_with r ATTACHSQL_ERROR_CODE_PARAMETER ''22023'' (str ''Cannot convert to int'') error con"

text \<open>The whole part of an IEEE 754 number; infinities and NaN have none.\<close>

definition fp_trunc :: "nat \<Rightarrow> nat \<Rightarrow> nat \<Rightarrow> int option" where
  "fp_trunc mbits ebits w =
     (let sign = odd (w div 2 ^ (mbits + ebits));
          e = w div 2 ^ mbits mod 2 ^ ebits;
          f = w mod 2 ^ mbits;
          m = (if e = 0 then f else 2 ^ mbits + f);
          x = (if e = 0 then 1 else e);
          bias = 2 ^ (ebits - 1) - 1 + mbits;
          n = int (if bias \<le> x then m * 2 ^ (x - bias) else m div 2 ^ (bias - x))
      in if e = 2 ^ ebits - 1 then None else Some (if sign then - n else n))"

text \<open>The conversion to an integer type has a result when the number fits.\<close>

definition to_signed :: "int option \<Rightarrow> 'a::len word option" where
  "to_signed i = do { i \<leftarrow> i; if - (2 ^ (LENGTH('a) - 1)) \<le> i \<and> i < 2 ^ (LENGTH('a) - 1) then Some (word_of_int i) else None }"

definition to_unsigned :: "int option \<Rightarrow> 'a::len word option" where
  "to_unsigned i = do { i \<leftarrow> i; if 0 \<le> i \<and> i < 2 ^ LENGTH('a) then Some (word_of_int i) else None }"

text \<open>The bytes of a value in the read buffer, the block and the offset.\<close>

definition row_bytes :: "attachsql_stmt_row_st \<Rightarrow> 'a con_core_scheme \<Rightarrow> (block \<times> nat) option" where
  "row_bytes v con = do { p \<leftarrow> sr_data v; deref con p }"

definition float_at :: "block \<Rightarrow> nat \<Rightarrow> uint32 option" where
  "float_at b p = map_option le_word (blk_read b p 4)"

definition double_at :: "block \<Rightarrow> nat \<Rightarrow> uint64 option" where
  "double_at b p = map_option le_word (blk_read b p 8)"

definition float_trunc :: "block \<Rightarrow> nat \<Rightarrow> int option" where
  "float_trunc b p = do { f \<leftarrow> float_at b p; fp_trunc 23 8 (unat f) }"

definition double_trunc :: "block \<Rightarrow> nat \<Rightarrow> int option" where
  "double_trunc b p = do { d \<leftarrow> double_at b p; fp_trunc 52 11 (unat d) }"

text \<open>
  The four getters differ in the conversions of their \<open>switch\<close> only, which are given to
  \<open>number_of\<close>; a type without a conversion is an error.
\<close>

definition number_of ::
  "(attachsql_column_type_t \<Rightarrow> (block \<Rightarrow> nat \<Rightarrow> 'a::len word option) option) \<Rightarrow> con_ptr \<Rightarrow> uint16 \<Rightarrow> error_ptr \<Rightarrow> 'a word call" where
  "number_of conv c column error =
     with_column 0 c column error (\<lambda>v con.
       if sr_type v = ATTACHSQL_COLUMN_TYPE_NULL then Some (0, error, Some con)
       else case conv (sr_type v) of
         Some read \<Rightarrow> do { (b, p) \<leftarrow> row_bytes v con; n \<leftarrow> read b p; Some (n, error, Some con) }
       | None \<Rightarrow> cannot_convert 0 error con)"

fun int_conv :: "attachsql_column_type_t \<Rightarrow> (block \<Rightarrow> nat \<Rightarrow> uint32 option) option" where
  "int_conv ATTACHSQL_COLUMN_TYPE_TINY = Some (\<lambda>b p. map_option scast (blk_get b p))"
| "int_conv ATTACHSQL_COLUMN_TYPE_YEAR = Some (\<lambda>b p. map_option scast (attachsql_unpack_int2 b p))"
| "int_conv ATTACHSQL_COLUMN_TYPE_SHORT = Some (\<lambda>b p. map_option scast (attachsql_unpack_int2 b p))"
| "int_conv ATTACHSQL_COLUMN_TYPE_LONG = Some attachsql_unpack_int4"
| "int_conv ATTACHSQL_COLUMN_TYPE_LONGLONG = Some (\<lambda>b p. map_option ucast (attachsql_unpack_int8 b p))"
| "int_conv ATTACHSQL_COLUMN_TYPE_FLOAT = Some (\<lambda>b p. to_signed (float_trunc b p))"
| "int_conv ATTACHSQL_COLUMN_TYPE_DOUBLE = Some (\<lambda>b p. to_signed (double_trunc b p))"
| "int_conv ATTACHSQL_COLUMN_TYPE_INT24 = Some attachsql_unpack_int3"
| "int_conv _ = None"

definition attachsql_statement_get_int :: "con_ptr \<Rightarrow> uint16 \<Rightarrow> error_ptr \<Rightarrow> uint32 call" where
  "attachsql_statement_get_int = number_of int_conv"

fun int_unsigned_conv :: "attachsql_column_type_t \<Rightarrow> (block \<Rightarrow> nat \<Rightarrow> uint32 option) option" where
  "int_unsigned_conv ATTACHSQL_COLUMN_TYPE_TINY = Some (\<lambda>b p. map_option ucast (blk_get b p))"
| "int_unsigned_conv ATTACHSQL_COLUMN_TYPE_YEAR = Some (\<lambda>b p. map_option ucast (attachsql_unpack_int2 b p))"
| "int_unsigned_conv ATTACHSQL_COLUMN_TYPE_SHORT = Some (\<lambda>b p. map_option ucast (attachsql_unpack_int2 b p))"
| "int_unsigned_conv ATTACHSQL_COLUMN_TYPE_LONG = Some attachsql_unpack_int4"
| "int_unsigned_conv ATTACHSQL_COLUMN_TYPE_LONGLONG = Some (\<lambda>b p. map_option ucast (attachsql_unpack_int8 b p))"
| "int_unsigned_conv ATTACHSQL_COLUMN_TYPE_FLOAT = Some (\<lambda>b p. to_unsigned (float_trunc b p))"
| "int_unsigned_conv ATTACHSQL_COLUMN_TYPE_DOUBLE = Some (\<lambda>b p. to_unsigned (double_trunc b p))"
| "int_unsigned_conv ATTACHSQL_COLUMN_TYPE_INT24 = Some attachsql_unpack_int3"
| "int_unsigned_conv _ = None"

definition attachsql_statement_get_int_unsigned :: "con_ptr \<Rightarrow> uint16 \<Rightarrow> error_ptr \<Rightarrow> uint32 call" where
  "attachsql_statement_get_int_unsigned = number_of int_unsigned_conv"

fun bigint_conv :: "attachsql_column_type_t \<Rightarrow> (block \<Rightarrow> nat \<Rightarrow> uint64 option) option" where
  "bigint_conv ATTACHSQL_COLUMN_TYPE_TINY = Some (\<lambda>b p. map_option scast (blk_get b p))"
| "bigint_conv ATTACHSQL_COLUMN_TYPE_YEAR = Some (\<lambda>b p. map_option scast (attachsql_unpack_int2 b p))"
| "bigint_conv ATTACHSQL_COLUMN_TYPE_SHORT = Some (\<lambda>b p. map_option scast (attachsql_unpack_int2 b p))"
| "bigint_conv ATTACHSQL_COLUMN_TYPE_LONG = Some (\<lambda>b p. map_option scast (attachsql_unpack_int4 b p))"
| "bigint_conv ATTACHSQL_COLUMN_TYPE_LONGLONG = Some attachsql_unpack_int8"
| "bigint_conv ATTACHSQL_COLUMN_TYPE_FLOAT = Some (\<lambda>b p. to_signed (float_trunc b p))"
| "bigint_conv ATTACHSQL_COLUMN_TYPE_DOUBLE = Some (\<lambda>b p. to_signed (double_trunc b p))"
| "bigint_conv ATTACHSQL_COLUMN_TYPE_INT24 = Some (\<lambda>b p. map_option scast (attachsql_unpack_int3 b p))"
| "bigint_conv _ = None"

definition attachsql_statement_get_bigint :: "con_ptr \<Rightarrow> uint16 \<Rightarrow> error_ptr \<Rightarrow> uint64 call" where
  "attachsql_statement_get_bigint = number_of bigint_conv"

text \<open>Here a \<open>float\<close> or \<open>double\<close> is converted to 32 bits, and then widened.\<close>

fun bigint_unsigned_conv :: "attachsql_column_type_t \<Rightarrow> (block \<Rightarrow> nat \<Rightarrow> uint64 option) option" where
  "bigint_unsigned_conv ATTACHSQL_COLUMN_TYPE_TINY = Some (\<lambda>b p. map_option ucast (blk_get b p))"
| "bigint_unsigned_conv ATTACHSQL_COLUMN_TYPE_YEAR = Some (\<lambda>b p. map_option ucast (attachsql_unpack_int2 b p))"
| "bigint_unsigned_conv ATTACHSQL_COLUMN_TYPE_SHORT = Some (\<lambda>b p. map_option ucast (attachsql_unpack_int2 b p))"
| "bigint_unsigned_conv ATTACHSQL_COLUMN_TYPE_LONG = Some (\<lambda>b p. map_option ucast (attachsql_unpack_int4 b p))"
| "bigint_unsigned_conv ATTACHSQL_COLUMN_TYPE_LONGLONG = Some attachsql_unpack_int8"
| "bigint_unsigned_conv ATTACHSQL_COLUMN_TYPE_FLOAT = Some (\<lambda>b p. map_option ucast (to_unsigned (float_trunc b p) :: uint32 option))"
| "bigint_unsigned_conv ATTACHSQL_COLUMN_TYPE_DOUBLE = Some (\<lambda>b p. map_option ucast (to_unsigned (double_trunc b p) :: uint32 option))"
| "bigint_unsigned_conv ATTACHSQL_COLUMN_TYPE_INT24 = Some (\<lambda>b p. map_option ucast (attachsql_unpack_int3 b p))"
| "bigint_unsigned_conv _ = None"

definition attachsql_statement_get_bigint_unsigned :: "con_ptr \<Rightarrow> uint16 \<Rightarrow> error_ptr \<Rightarrow> uint64 call" where
  "attachsql_statement_get_bigint_unsigned = number_of bigint_unsigned_conv"

text \<open>A \<open>double\<close> by what it is converted from: a whole number, a \<open>float\<close> or itself.\<close>

datatype double_value =
    OfInt int
  | OfFloat uint32
  | OfDouble uint64

fun double_conv :: "attachsql_column_type_t \<Rightarrow> (block \<Rightarrow> nat \<Rightarrow> double_value option) option" where
  "double_conv ATTACHSQL_COLUMN_TYPE_TINY = Some (\<lambda>b p. map_option (\<lambda>x. OfInt (sint x)) (blk_get b p))"
| "double_conv ATTACHSQL_COLUMN_TYPE_YEAR = Some (\<lambda>b p. map_option (\<lambda>x. OfInt (uint x)) (attachsql_unpack_int2 b p))"
| "double_conv ATTACHSQL_COLUMN_TYPE_SHORT = Some (\<lambda>b p. map_option (\<lambda>x. OfInt (uint x)) (attachsql_unpack_int2 b p))"
| "double_conv ATTACHSQL_COLUMN_TYPE_LONG = Some (\<lambda>b p. map_option (\<lambda>x. OfInt (uint x)) (attachsql_unpack_int4 b p))"
| "double_conv ATTACHSQL_COLUMN_TYPE_LONGLONG = Some (\<lambda>b p. map_option (\<lambda>x. OfInt (uint x)) (attachsql_unpack_int8 b p))"
| "double_conv ATTACHSQL_COLUMN_TYPE_FLOAT = Some (\<lambda>b p. map_option OfFloat (float_at b p))"
| "double_conv ATTACHSQL_COLUMN_TYPE_DOUBLE = Some (\<lambda>b p. map_option OfDouble (double_at b p))"
| "double_conv ATTACHSQL_COLUMN_TYPE_INT24 = Some (\<lambda>b p. map_option (\<lambda>x. OfInt (uint x)) (attachsql_unpack_int3 b p))"
| "double_conv _ = None"

definition attachsql_statement_get_double :: "con_ptr \<Rightarrow> uint16 \<Rightarrow> error_ptr \<Rightarrow> double_value call" where
  "attachsql_statement_get_double c column error =
     with_column (OfInt 0) c column error (\<lambda>v con.
       if sr_type v = ATTACHSQL_COLUMN_TYPE_NULL then Some (OfInt 0, error, Some con)
       else case double_conv (sr_type v) of
         Some read \<Rightarrow> do { (b, p) \<leftarrow> row_bytes v con; d \<leftarrow> read b p; Some (d, error, Some con) }
       | None \<Rightarrow> cannot_convert (OfInt 0) error con)"

end
