(* ===== verification/Stmt_Text.thy ===== *)
theory Stmt_Text
  imports Stmt_Get
begin

text \<open>
  Reading a value of a statement's row as text, the last part of \<open>src/statement_getset.cc\<close>. Numbers
  and dates are printed into \<open>stmt_tmp_buffer\<close> of the connection, strings stay in the read buffer. The
  formats \<open>PRIu8\<close>, \<open>PRId8\<close>, \<open>PRIu16\<close> and \<open>PRId16\<close> are those of glibc, plain \<open>%u\<close> and \<open>%d\<close>, so they
  print the \<open>int\<close> their argument is promoted to.
\<close>

datatype text_ptr =
    TmpBuffer
  | InRow buffer_ptr

text \<open>\<open>%u\<close> and \<open>%d\<close> of a 32-bit argument, and \<open>%0nu\<close>.\<close>

definition fmt_u :: "uint32 \<Rightarrow> byte list" where
  "fmt_u v = dec_int (uint v)"

definition fmt_d :: "uint32 \<Rightarrow> byte list" where
  "fmt_d v = dec_int (sint v)"

definition fmt_0u :: "nat \<Rightarrow> uint32 \<Rightarrow> byte list" where
  "fmt_0u n v = replicate (n - length (fmt_u v)) 0x30 @ fmt_u v"

text \<open>\<open>*length += snprintf(con->stmt_tmp_buffer + (*length), SIZE - (*length), ...)\<close>.\<close>

definition print_at :: "nat \<Rightarrow> byte list \<Rightarrow> attachsql_connect_t \<Rightarrow> (nat \<times> attachsql_connect_t) option" where
  "print_at len text con =
     do { (b, n) \<leftarrow> c_snprintf (stmt_tmp_buffer con) len (size_sub ATTACHSQL_STMT_CHAR_BUFFER_SIZE len) text;
          Some (len + n, con\<lparr>stmt_tmp_buffer := b\<rparr>) }"

text \<open>A number by its column type and whether the column is unsigned, from the bytes of the row.\<close>

fun number_text :: "attachsql_column_type_t \<Rightarrow> bool \<Rightarrow> block \<Rightarrow> nat \<Rightarrow> byte list option" where
  "number_text ATTACHSQL_COLUMN_TYPE_TINY uns b p =
     map_option (\<lambda>x. if uns then fmt_u (scast x) else fmt_d (scast x)) (blk_get b p)"
| "number_text ATTACHSQL_COLUMN_TYPE_YEAR uns b p =
     map_option (\<lambda>x. if uns then fmt_u (ucast x) else fmt_d (ucast x)) (attachsql_unpack_int2 b p)"
| "number_text ATTACHSQL_COLUMN_TYPE_SHORT uns b p =
     map_option (\<lambda>x. if uns then fmt_u (ucast x) else fmt_d (ucast x)) (attachsql_unpack_int2 b p)"
| "number_text ATTACHSQL_COLUMN_TYPE_LONG uns b p =
     map_option (\<lambda>x. if uns then fmt_u x else fmt_d x) (attachsql_unpack_int4 b p)"
| "number_text ATTACHSQL_COLUMN_TYPE_LONGLONG uns b p =
     map_option (\<lambda>x. if uns then dec_int (uint x) else dec_int (sint x)) (attachsql_unpack_int8 b p)"
| "number_text ATTACHSQL_COLUMN_TYPE_INT24 uns b p =
     map_option (\<lambda>x. if uns then fmt_u x else fmt_d x) (attachsql_unpack_int3 b p)"
| "number_text _ uns b p = None"

definition number_type :: "attachsql_column_type_t \<Rightarrow> bool" where
  "number_type t \<longleftrightarrow> t \<in> {ATTACHSQL_COLUMN_TYPE_TINY, ATTACHSQL_COLUMN_TYPE_YEAR, ATTACHSQL_COLUMN_TYPE_SHORT,
     ATTACHSQL_COLUMN_TYPE_LONG, ATTACHSQL_COLUMN_TYPE_LONGLONG, ATTACHSQL_COLUMN_TYPE_INT24}"

definition is_unsigned_column :: "uint16 \<Rightarrow> 'a con_core_scheme \<Rightarrow> bool option" where
  "is_unsigned_column column con =
     do { cols \<leftarrow> result_columns (con_result con);
          col \<leftarrow> (if unat column < length cols then cols ! unat column else None);
          Some (c_flags col AND ATTACHSQL_COLUMN_FLAGS_UNSIGNED \<noteq> 0) }"

definition time_text :: "attachsql_datetime_st \<Rightarrow> byte list" where
  "time_text t =
     (if is_negative t then str ''-'' else []) @ fmt_0u 2 (ucast (hour t) + 24 * day t) @ str '':'' @
     fmt_0u 2 (ucast (minute t)) @ str '':'' @ fmt_0u 2 (ucast (second t))"

definition date_text :: "attachsql_datetime_st \<Rightarrow> byte list" where
  "date_text t = fmt_0u 4 (ucast (year t)) @ str ''-'' @ fmt_0u 2 (ucast (month t)) @ str ''-'' @ fmt_0u 2 (day t)"

definition clock_text :: "attachsql_datetime_st \<Rightarrow> byte list" where
  "clock_text t = str '' '' @ fmt_0u 2 (ucast (hour t)) @ str '':'' @ fmt_0u 2 (ucast (minute t)) @ str '':'' @
     fmt_0u 2 (ucast (second t))"

definition micro_text :: "attachsql_datetime_st \<Rightarrow> byte list" where
  "micro_text t = str ''.'' @ fmt_0u 6 (microsecond t)"

definition print_micro :: "attachsql_datetime_st \<Rightarrow> nat \<Rightarrow> attachsql_connect_t \<Rightarrow> (nat \<times> attachsql_connect_t) option" where
  "print_micro t len con = (if microsecond t \<noteq> 0 then print_at len (micro_text t) con else Some (len, con))"

text \<open>The text and its length; \<open>has_length\<close> says whether there is a place for the length.\<close>

definition attachsql_statement_get_char ::
  "con_ptr \<Rightarrow> uint16 \<Rightarrow> bool \<Rightarrow> error_ptr \<Rightarrow> (text_ptr \<times> nat) option call" where
  "attachsql_statement_get_char c column has_length error =
     with_column None c column error (\<lambda>v con.
       let t = sr_type v;
           printed = (\<lambda>(n, con). Some (Some (TmpBuffer, n), error, Some con))
       in if \<not> has_length then
            fail_with None ATTACHSQL_ERROR_CODE_PARAMETER ''22023'' (str ''Length parameter not valid'') error con
          else if number_type t then
            do { uns \<leftarrow> is_unsigned_column column con;
                 (b, p) \<leftarrow> row_bytes v con;
                 text \<leftarrow> number_text t uns b p;
                 r \<leftarrow> print_at 0 text con;
                 printed r }
          else if t = ATTACHSQL_COLUMN_TYPE_FLOAT then
            do { (b, p) \<leftarrow> row_bytes v con;
                 f \<leftarrow> float_at b p;
                 r \<leftarrow> print_at 0 (fp_text 6 23 8 (unat f)) con;
                 printed r }
          else if t = ATTACHSQL_COLUMN_TYPE_DOUBLE then
            do { (b, p) \<leftarrow> row_bytes v con;
                 d \<leftarrow> double_at b p;
                 r \<leftarrow> print_at 0 (fp_text 6 52 11 (unat d)) con;
                 printed r }
          else if t = ATTACHSQL_COLUMN_TYPE_NULL then Some (None, error, Some con)
          else if counted_type t then
            do { p \<leftarrow> sr_data v; Some (Some (InRow p, sr_length v), error, Some con) }
          else if t = ATTACHSQL_COLUMN_TYPE_TIME then
            do { (b, p) \<leftarrow> row_bytes v con;
                 dt \<leftarrow> attachsql_unpack_time b p (sr_length v) datetime_init;
                 (n, con) \<leftarrow> print_at 0 (time_text dt) con;
                 r \<leftarrow> print_micro dt n con;
                 printed r }
          else if date_type t then
            do { (b, p) \<leftarrow> row_bytes v con;
                 dt \<leftarrow> attachsql_unpack_datetime b p (sr_length v) datetime_init;
                 (n, con) \<leftarrow> print_at 0 (date_text dt) con;
                 if t = ATTACHSQL_COLUMN_TYPE_DATE then printed (n, con)
                 else do { (n, con) \<leftarrow> print_at n (clock_text dt) con;
                           r \<leftarrow> print_micro dt n con;
                           printed r } }
          else if t = ATTACHSQL_COLUMN_TYPE_ERROR then cannot_convert None error con
          else Some (None, error, Some con))"

definition attachsql_statement_get_column_type :: "con_ptr \<Rightarrow> uint16 \<Rightarrow> attachsql_column_type_t option" where
  "attachsql_statement_get_column_type c column =
     (case c of
        None \<Rightarrow> Some ATTACHSQL_COLUMN_TYPE_ERROR
      | Some con \<Rightarrow>
          if column_count (con_result con) \<le> column then Some ATTACHSQL_COLUMN_TYPE_ERROR
          else do { cols \<leftarrow> result_columns (con_result con);
                    col \<leftarrow> (if unat column < length cols then cols ! unat column else None);
                    Some (c_type col) })"

definition attachsql_statement_row_next :: "con_ptr \<Rightarrow> con_ptr option" where
  "attachsql_statement_row_next c =
     (case c of None \<Rightarrow> Some None | Some con \<Rightarrow> map_option (\<lambda>(_, con). Some con) (attachsql_get_next_row con))"

definition attachsql_statement_get_column_count :: "con_ptr \<Rightarrow> uint16" where
  "attachsql_statement_get_column_count c = (case c of None \<Rightarrow> 0 | Some con \<Rightarrow> column_count (con_result con))"

end
