(* ===== verification/Stmt_Rows.thy ===== *)
theory Stmt_Rows
  imports Stmt_Text Exchange
begin

text \<open>
  The binary row of a prepared statement, as a server builds it, and what
  \<open>attachsql_statement_row_get\<close> makes of it.
\<close>

section \<open>Rows as the server sends them\<close>

text \<open>A value is its bytes, or none for NULL, which is a bit of the bitmap only.\<close>

definition enc_value :: "attachsql_column_type_t \<Rightarrow> byte list option \<Rightarrow> byte list" where
  "enc_value t v =
     (case v of
        None \<Rightarrow> []
      | Some xs \<Rightarrow> if counted_type t then enc_string xs
                  else if date_type t then of_nat (length xs) # xs else xs)"

definition value_good :: "attachsql_column_type_t \<Rightarrow> byte list option \<Rightarrow> bool" where
  "value_good t v \<longleftrightarrow>
     (case v of
        None \<Rightarrow> True
      | Some xs \<Rightarrow> if counted_type t then string_good xs
                  else if date_type t then length xs < 128 else fixed_length t = Some (length xs))"

definition enc_values :: "attachsql_column_type_t list \<Rightarrow> byte list option list \<Rightarrow> byte list" where
  "enc_values ts vs = concat (map2 enc_value ts vs)"

text \<open>What is stored for a column.\<close>

definition value_stored ::
  "block \<Rightarrow> nat \<Rightarrow> attachsql_column_type_t \<Rightarrow> byte list option \<Rightarrow> attachsql_stmt_row_st \<Rightarrow> bool" where
  "value_stored b gen t v r \<longleftrightarrow>
     sr_type r = (if v = None then ATTACHSQL_COLUMN_TYPE_NULL else t) \<and>
     (\<exists>q. sr_data r = Some (gen, q) \<and>
          (case v of None \<Rightarrow> sr_length r = 0 | Some xs \<Rightarrow> sr_length r = length xs \<and> blk_has b q xs))"

lemma string_value:
  assumes "string_good xs" "blk_has b p (enc_string xs)"
  shows "unpack_length_at b p = Some (of_nat (length xs), length (enc_string xs) - length xs)"
    "blk_has b (p + (length (enc_string xs) - length xs)) xs" "unat (of_nat (length xs) :: uint64) = length xs"
  using assms unpack_enc_length[of "of_nat (length xs)" b p]
  by (simp_all add: enc_string_def blk_has_append string_good_def unat_of_nat take_bit_nat_eq_self)

lemma value_at_enc:
  assumes "value_good t v" "blk_has b p (enc_value t v)"
  shows "\<exists>n q. value_at (if v = None then ATTACHSQL_COLUMN_TYPE_NULL else t) b p = Some (Some (n, q)) \<and>
    q + n = p + length (enc_value t v) \<and>
    (case v of None \<Rightarrow> n = 0 | Some xs \<Rightarrow> n = length xs \<and> blk_has b q xs)"
proof (cases v)
  case None
  then show ?thesis by (simp add: value_at_def counted_type_def date_type_def enc_value_def)
next
  case (Some xs)
  consider (counted) "counted_type t" | (date) "\<not> counted_type t" "date_type t" | (fixed) "\<not> counted_type t" "\<not> date_type t"
    by blast
  then show ?thesis
  proof cases
    case counted
    then have g: "string_good xs" "blk_has b p (enc_string xs)" using assms Some by (simp_all add: value_good_def enc_value_def)
    have "length xs \<le> length (enc_string xs)" by (simp add: enc_string_def)
    then show ?thesis using counted Some string_value[OF g] by (simp add: value_at_def enc_value_def)
  next
    case date
    then have g: "length xs < 128" "blk_has b p (of_nat (length xs) # xs)" using assms Some by (simp_all add: value_good_def enc_value_def)
    have u: "unat (of_nat (length xs) :: uint64) = length xs" using g(1) by (simp add: unat_of_nat take_bit_nat_eq_self)
    have "ucast (of_nat (length xs) :: uint64) = (of_nat (length xs) :: byte)"
      using g(1) by (simp add: unsigned_of_nat take_bit_nat_eq_self)
    then have "scast (of_nat (length xs) :: byte) = (of_nat (length xs) :: uint64)"
      using scast_low_byte[of "of_nat (length xs)"] u g(1) by (simp add: word_less_nat_alt)
    then show ?thesis using date Some g(2) u by (simp add: value_at_def enc_value_def)
  next
    case fixed
    then show ?thesis using assms Some by (simp add: value_good_def value_at_def enc_value_def)
  qed
qed

section \<open>The loop over the columns\<close>

lemma enc_values_Cons:
  "i < length ts \<Longrightarrow> i < length vs \<Longrightarrow>
   enc_values (drop i ts) (drop i vs) = enc_value (ts ! i) (vs ! i) @ enc_values (drop (Suc i) ts) (drop (Suc i) vs)"
  by (simp add: enc_values_def Cons_nth_drop_Suc[symmetric])

lemma split_values_ok:
  assumes "length ts = n" "length vs = n" "length rows = n" "blk_size b < 2 ^ 62" "p \<le> blk_size b"
    and "\<forall>i < n. i < length cols \<and> (\<exists>c. cols ! i = Some c \<and> c_type c = ts ! i)"
    and "\<forall>i < n. is_null b bitmap i = Some (vs ! i = None)" "\<forall>i < n. value_good (ts ! i) (vs ! i)"
    and "blk_has b p (enc_values (drop k ts) (drop k vs))" "k \<le> n"
  shows "\<exists>rows'. split_values b gen bitmap cols [k..<n] p rows = Some (True, rows') \<and> length rows' = n \<and>
    (\<forall>i < k. rows' ! i = rows ! i) \<and> (\<forall>i. k \<le> i \<longrightarrow> i < n \<longrightarrow> value_stored b gen (ts ! i) (vs ! i) (rows' ! i))"
  using assms
proof (induction "n - k" arbitrary: k p rows)
  case 0
  then show ?case by simp
next
  case (Suc d)
  let ?t = "ts ! k" and ?v = "vs ! k"
  have k: "k < n" "[k..<n] = k # [Suc k..<n]" "d = n - Suc k" using Suc.hyps(2) by (auto simp: upt_conv_Cons)
  have e: "enc_values (drop k ts) (drop k vs) = enc_value ?t ?v @ enc_values (drop (Suc k) ts) (drop (Suc k) vs)"
    using k(1) Suc.prems(1,2) by (simp add: enc_values_Cons)
  have has: "blk_has b p (enc_value ?t ?v)" "blk_has b (p + length (enc_value ?t ?v)) (enc_values (drop (Suc k) ts) (drop (Suc k) vs))"
    using Suc.prems(9) by (simp_all add: e blk_has_append)
  obtain m q where v: "value_at (if ?v = None then ATTACHSQL_COLUMN_TYPE_NULL else ?t) b p = Some (Some (m, q))"
    "q + m = p + length (enc_value ?t ?v)" "case ?v of None \<Rightarrow> m = 0 | Some xs \<Rightarrow> m = length xs \<and> blk_has b q xs"
    using value_at_enc[OF Suc.prems(8)[rule_format, OF k(1)] has(1)] by blast
  have le: "p + length (enc_value ?t ?v) \<le> blk_size b"
    using blk_has_bound[OF has(1)] Suc.prems(5) by (cases "enc_value ?t ?v = []") auto
  then have md: "(q + m) mod 2 ^ 64 = p + length (enc_value ?t ?v)" using v(2) Suc.prems(4) by simp
  obtain c where c: "k < length cols" "cols ! k = Some c" "c_type c = ?t" using Suc.prems(6) k(1) by blast
  let ?r = "\<lparr>sr_data = Some (gen, q), sr_length = m, sr_type = (if ?v = None then ATTACHSQL_COLUMN_TYPE_NULL else ?t)\<rparr>"
  have "length (rows[k := ?r]) = n" "Suc k \<le> n" using Suc.prems(3) k(1) by simp_all
  from Suc.hyps(1)[OF k(3) Suc.prems(1,2) this(1) Suc.prems(4) le Suc.prems(6-8) has(2) this(2)] obtain rows' where
    r: "split_values b gen bitmap cols [Suc k..<n] (p + length (enc_value ?t ?v)) (rows[k := ?r]) = Some (True, rows')"
    "length rows' = n" "\<forall>i < Suc k. rows' ! i = rows[k := ?r] ! i"
    "\<forall>i. Suc k \<le> i \<longrightarrow> i < n \<longrightarrow> value_stored b gen (ts ! i) (vs ! i) (rows' ! i)" by blast
  have "split_values b gen bitmap cols [k..<n] p rows = Some (True, rows')"
    using r(1) v(1) md c k(1) Suc.prems(3,7) by (cases "vs ! k") (simp_all add: k(2) Let_def)
  moreover have "value_stored b gen ?t ?v (rows' ! k)"
    using r(3) v(3) Suc.prems(3) k(1) by (auto simp: value_stored_def split: option.splits)
  then have "\<forall>i. k \<le> i \<longrightarrow> i < n \<longrightarrow> value_stored b gen (ts ! i) (vs ! i) (rows' ! i)"
    using r(4) by (metis le_antisym not_less_eq_eq)
  moreover have "\<forall>i < k. rows' ! i = rows ! i" using r(3) by simp
  ultimately show ?case using r(2) by blast
qed

section \<open>A row in the read buffer\<close>

definition stmt_row_payload :: "byte list \<Rightarrow> attachsql_column_type_t list \<Rightarrow> byte list option list \<Rightarrow> byte list" where
  "stmt_row_payload bitmap ts vs = 0 # bitmap @ enc_values ts vs"

definition bitmap_ok :: "byte list \<Rightarrow> byte list option list \<Rightarrow> bool" where
  "bitmap_ok bitmap vs \<longleftrightarrow> length bitmap = (length vs + 9) div 8 \<and>
     (\<forall>i < length vs. bit (bitmap ! ((i + 2) div 8)) ((i + 2) mod 8) = (vs ! i = None))"

definition columns_typed :: "column_t option list \<Rightarrow> attachsql_column_type_t list \<Rightarrow> bool" where
  "columns_typed cols ts \<longleftrightarrow> (\<forall>i < length ts. i < length cols \<and> (\<exists>c. cols ! i = Some c \<and> c_type c = ts ! i))"

definition row_at :: "byte list \<Rightarrow> buffer_st \<Rightarrow> attachsql_connect_t \<Rightarrow> bool" where
  "row_at row b con \<longleftrightarrow> read_buffer con = Some b \<and> row_data (con_result con) = Some (buffer_gen b, buffer_read_ptr b) \<and>
     blk_has (buffer b) (buffer_read_ptr b) row \<and> blk_size (buffer b) < 2 ^ 62"

text \<open>The caller's array for the row: allocated at the first row, then used again.\<close>

definition stmt_array_ok :: "nat \<Rightarrow> attachsql_connect_t \<Rightarrow> bool" where
  "stmt_array_ok n con \<longleftrightarrow> (case stmt_row con of None \<Rightarrow> fst (alloc con) | Some old \<Rightarrow> length old = n)"

lemma row_get_splits:
  assumes at: "row_at (stmt_row_payload bitmap ts vs) b con" and len: "length ts = length vs"
    and n: "unat (column_count (con_result con)) = length vs" and bm: "bitmap_ok bitmap vs"
    and good: "\<forall>i < length vs. value_good (ts ! i) (vs ! i)"
    and cols: "result_columns (con_result con) = Some cols" "columns_typed cols ts" and arr: "stmt_array_ok (length vs) con"
  shows "\<exists>rows con'. attachsql_statement_row_get (Some con) error = Some (True, error, Some con') \<and>
    stmt_row con' = Some rows \<and> length rows = length vs \<and>
    (\<forall>i < length vs. value_stored (buffer b) (buffer_gen b) (ts ! i) (vs ! i) (rows ! i)) \<and>
    read_buffer con' = Some b \<and> con_result con' = con_result con"
proof -
  let ?b = "buffer b" and ?p = "buffer_read_ptr b" and ?n = "length vs"
  have b: "read_buffer con = Some b" "row_data (con_result con) = Some (buffer_gen b, ?p)" "blk_size ?b < 2 ^ 62"
    and has: "blk_has ?b (?p + 1) bitmap" "blk_has ?b (?p + 1 + length bitmap) (enc_values ts vs)"
    using at by (auto simp: row_at_def stmt_row_payload_def blk_has_append)
  obtain as rows0 where c1: "(if stmt_row con = None then alloc con else (True, con)) = (True, con\<lparr>allocs := as\<rparr>)"
    "(case stmt_row con of None \<Rightarrow> replicate ?n stmt_row_init | Some rows \<Rightarrow> rows) = rows0" "length rows0 = ?n"
  proof (cases "stmt_row con")
    case None
    then obtain c where c: "alloc con = (True, c)" using arr by (cases "alloc con") (simp add: stmt_array_ok_def)
    then show ?thesis using None that alloc_only[OF c] by auto
  next
    case (Some old)
    then show ?thesis using that[of "allocs con"] arr by (simp add: stmt_array_ok_def)
  qed
  have nul: "is_null ?b (?p + 1) i = Some (vs ! i = None)" if "i < ?n" for i
  proof -
    have "(i + 2) div 8 < length bitmap" using bm that by (simp add: bitmap_ok_def)
    then have "blk_get ?b (?p + 1 + (i + 2) div 8) = Some (bitmap ! ((i + 2) div 8))" using has(1) by (simp add: blk_has_nth)
    then show ?thesis using bm that by (simp add: is_null_def bitmap_ok_def)
  qed
  show ?thesis
  proof (cases "?n = 0")
    case True
    then show ?thesis using c1(1,3) c1(2)[unfolded True] b n
      by (intro exI[of _ rows0]) (simp add: attachsql_statement_row_get_def Let_def)
  next
    case False
    have bl: "(?n + 7 + 2) div 8 = length bitmap" using bm by (simp add: bitmap_ok_def)
    then have "bitmap \<noteq> []" by auto
    then have le: "?p + 1 + length bitmap \<le> blk_size ?b" using blk_has_bound[OF has(1)] by simp
    have "\<forall>i < ?n. i < length cols \<and> (\<exists>c. cols ! i = Some c \<and> c_type c = ts ! i)" using cols(2) len by (simp add: columns_typed_def)
    from split_values_ok[OF len refl c1(3) b(3) le this _ good, of "?p + 1" 0 "buffer_gen b"] obtain rows where
      r: "split_values ?b (buffer_gen b) (?p + 1) cols [0..<?n] (?p + 1 + length bitmap) rows0 = Some (True, rows)"
      "length rows = ?n" "\<forall>i < ?n. value_stored ?b (buffer_gen b) (ts ! i) (vs ! i) (rows ! i)"
      using nul has(2) by auto
    then show ?thesis using c1 b n False cols(1) bl
      by (intro exI[of _ rows]) (simp add: attachsql_statement_row_get_def Let_def deref_def)
  qed
qed

section \<open>Property\<close>

text \<open>
  \<open>attachsql_statement_row_get\<close> finds every value of a binary row of 65535 columns or less where the
  server has put it: NULL by the bitmap, the others with their type, their length and their bytes.
  \<open>attachsql_statement_get_int\<close> of an integer column then returns the number.
\<close>

theorem statement_row_split:
  assumes "row_at (stmt_row_payload bitmap ts vs) b con" "length ts = length vs"
    and "unat (column_count (con_result con)) = length vs" "bitmap_ok bitmap vs"
    and "\<forall>i < length vs. value_good (ts ! i) (vs ! i)"
    and "result_columns (con_result con) = Some cols" "columns_typed cols ts" "stmt_array_ok (length vs) con"
  shows "\<exists>rows con'. attachsql_statement_row_get (Some con) error = Some (True, error, Some con') \<and>
    stmt_row con' = Some rows \<and>
    (\<forall>i < length vs. value_stored (buffer b) (buffer_gen b) (ts ! i) (vs ! i) (rows ! i)) \<and>
    (\<forall>i v e. i < length vs \<longrightarrow> ts ! i = ATTACHSQL_COLUMN_TYPE_LONG \<longrightarrow> vs ! i = Some (le_bytes 4 v) \<longrightarrow>
       attachsql_statement_get_int (Some con') (of_nat i) e = Some (v, e, Some con'))"
proof -
  obtain rows con' where r: "attachsql_statement_row_get (Some con) error = Some (True, error, Some con')"
    "stmt_row con' = Some rows" "length rows = length vs"
    "\<forall>i < length vs. value_stored (buffer b) (buffer_gen b) (ts ! i) (vs ! i) (rows ! i)"
    "read_buffer con' = Some b" "con_result con' = con_result con"
    using row_get_splits[OF assms] by blast
  have "attachsql_statement_get_int (Some con') (of_nat i) e = Some (v, e, Some con')"
    if i: "i < length vs" "ts ! i = ATTACHSQL_COLUMN_TYPE_LONG" "vs ! i = Some (le_bytes 4 v)" for i v e
  proof -
    have u: "unat (of_nat i :: uint16) = i"
      using i(1) assms(3) unsigned_less[of "column_count (con_result con)", where 'a = nat] by (simp add: unat_of_nat take_bit_nat_eq_self)
    have lt: "\<not> column_count (con_result con') \<le> of_nat i"
      using i(1) assms(3) r(6) u by (simp add: word_le_nat_alt)
    obtain q where "sr_data (rows ! i) = Some (buffer_gen b, q)" "sr_type (rows ! i) = ATTACHSQL_COLUMN_TYPE_LONG"
      "blk_has (buffer b) q (le_bytes 4 v)"
      using r(4) i by (auto simp: value_stored_def)
    then show ?thesis using r(2,3,5) i(1) lt u unpack_int4_le[of "buffer b" q v]
      by (simp add: attachsql_statement_get_int_def number_of_def with_column_def row_bytes_def deref_def)
  qed
  then show ?thesis using r by blast
qed

definition stmt_row_con :: "attachsql_column_type_t list \<Rightarrow> byte list \<Rightarrow> attachsql_connect_t" where
  "stmt_row_con ts row = (row_con row [])\<lparr>con_result := result_init
     \<lparr>column_count := of_nat (length ts), row_data := Some (0, 0),
      result_columns := Some (map (\<lambda>t. Some (sample_column\<lparr>c_type := t\<rparr>)) ts)\<rparr>\<rparr>"

theorem statement_row_split_witness:
  "\<exists>con'. attachsql_statement_row_get (Some (stmt_row_con [ATTACHSQL_COLUMN_TYPE_LONG, ATTACHSQL_COLUMN_TYPE_STRING]
      [0, 8, 42, 1, 0, 0])) None = Some (True, None, Some con') \<and>
     attachsql_statement_get_int (Some con') 0 None = Some (298, None, Some con')"
proof -
  let ?ts = "[ATTACHSQL_COLUMN_TYPE_LONG, ATTACHSQL_COLUMN_TYPE_STRING]" and ?vs = "[Some (le_bytes 4 (298 :: uint32)), None]"
  let ?c = "stmt_row_con ?ts [0, 8, 42, 1, 0, 0]" and ?b = "packet_buffer [0, 8, 42, 1, 0, 0] []"
  have row: "stmt_row_payload [8] ?ts ?vs = [0, 8, 42, 1, 0, 0]"
    by (simp add: stmt_row_payload_def enc_values_def enc_value_def counted_type_def date_type_def le_bytes_4)
  have in_: "packet_in ?b [0, 8, 42, 1, 0, 0] []" by (rule packet_buffer_in) simp
  have at: "row_at (stmt_row_payload [8] ?ts ?vs) ?b ?c"
    unfolding row using packet_in_ahead[OF in_]
    by (simp add: row_at_def stmt_row_con_def row_con_def ahead_def) (simp add: packet_buffer_def)
  have "\<not> bit (8 :: byte) 2" "bit (8 :: byte) 3" by simp_all
  then have bm: "bitmap_ok [8] ?vs"
    by (auto simp: bitmap_ok_def less_Suc_eq simp del: bit_numeral_simps)
  have good: "\<forall>i < length ?vs. value_good (?ts ! i) (?vs ! i)"
    by (auto simp: less_Suc_eq value_good_def counted_type_def date_type_def)
  have cols: "columns_typed (map (\<lambda>t. Some (sample_column\<lparr>c_type := t\<rparr>)) ?ts) ?ts"
    by (auto simp: columns_typed_def less_Suc_eq)
  have "stmt_row (connect_init plain_lib [] [] []) = None" by (simp add: connect_init_def con_core.defs)
  then have fields: "unat (column_count (con_result ?c)) = length ?vs"
    "result_columns (con_result ?c) = Some (map (\<lambda>t. Some (sample_column\<lparr>c_type := t\<rparr>)) ?ts)" "stmt_array_ok (length ?vs) ?c"
    by (simp_all add: stmt_row_con_def row_con_def stmt_array_ok_def alloc_def)
  from statement_row_split[OF at _ fields(1) bm good fields(2) cols fields(3), of None] obtain con' where
    "attachsql_statement_row_get (Some ?c) None = Some (True, None, Some con')"
    "attachsql_statement_get_int (Some con') (of_nat 0) None = Some (298, None, Some con')"
    by (auto simp del: of_nat_0)
  then show ?thesis by auto
qed

end
