(* ===== verification/Execution.thy ===== *)
theory Execution
  imports Prepare Stmt_Rows
begin

text \<open>
  The execution of a prepared statement, from the command to a connection that is ready for the next
  one: the parameters sent, the answer of the server received, and its binary rows read by the caller's
  loop of \<open>attachsql_statement_row_get\<close> and \<open>attachsql_statement_row_next\<close>.
\<close>

section \<open>Rows with their bitmap\<close>

text \<open>The bit of a column is two bits up; the first two bits are not used.\<close>

definition null_bit :: "byte list option list \<Rightarrow> nat \<Rightarrow> bool" where
  "null_bit vs i \<longleftrightarrow> 2 \<le> i \<and> i - 2 < length vs \<and> vs ! (i - 2) = None"

definition null_bitmap :: "byte list option list \<Rightarrow> byte list" where
  "null_bitmap vs =
     map (\<lambda>j. horner_sum of_bool 2 (map (\<lambda>k. null_bit vs (8 * j + k)) [0..<8])) [0..<(length vs + 9) div 8]"

lemma null_bitmap_ok: "bitmap_ok (null_bitmap vs) vs"
proof -
  have "bit (null_bitmap vs ! ((i + 2) div 8)) ((i + 2) mod 8) = (vs ! i = None)" if "i < length vs" for i
  proof -
    have "(i + 2) div 8 < (length vs + 9) div 8" using that by simp
    moreover have "(i + 2) mod 8 < 8" by simp
    ultimately show ?thesis using that
      by (simp add: null_bitmap_def bit_horner_sum_bit_iff null_bit_def)
  qed
  then show ?thesis by (simp add: bitmap_ok_def null_bitmap_def)
qed

definition stmt_payload :: "attachsql_column_type_t list \<Rightarrow> byte list option list \<Rightarrow> byte list" where
  "stmt_payload ts vs = stmt_row_payload (null_bitmap vs) ts vs"

definition stmt_row_good :: "attachsql_column_type_t list \<Rightarrow> byte list option list \<Rightarrow> bool" where
  "stmt_row_good ts vs \<longleftrightarrow> length vs = length ts \<and> (\<forall>i < length vs. value_good (ts ! i) (vs ! i)) \<and>
     length (stmt_payload ts vs) < 2 ^ 24"

lemma stmt_payload_starts: "stmt_payload ts vs \<noteq> []" "hd (stmt_payload ts vs) \<noteq> 0xfe"
  by (simp_all add: stmt_payload_def stmt_row_payload_def)

fun stmt_row_stream :: "byte \<Rightarrow> attachsql_column_type_t list \<Rightarrow> byte list option list list \<Rightarrow> byte list \<Rightarrow> byte list" where
  "stmt_row_stream n ts [] eof = packet n eof"
| "stmt_row_stream n ts (r # rs) eof = packet n (stmt_payload ts r) @ stmt_row_stream (n + 1) ts rs eof"

section \<open>A row as its reader finds it\<close>

text \<open>The type of a value and its bytes, which are what the \<open>attachsql_statement_get\<close> routines read.\<close>

definition stmt_value :: "'a con_core_scheme \<Rightarrow> attachsql_stmt_row_st \<Rightarrow> (attachsql_column_type_t \<times> byte list) option" where
  "stmt_value con v = do { (b, p) \<leftarrow> row_bytes v con; xs \<leftarrow> blk_read b p (sr_length v); Some (sr_type v, xs) }"

definition value_shown :: "attachsql_column_type_t \<Rightarrow> byte list option \<Rightarrow> attachsql_column_type_t \<times> byte list" where
  "value_shown t v = (case v of None \<Rightarrow> (ATTACHSQL_COLUMN_TYPE_NULL, []) | Some xs \<Rightarrow> (t, xs))"

definition row_shown :: "attachsql_column_type_t list \<Rightarrow> byte list option list \<Rightarrow> (attachsql_column_type_t \<times> byte list) list" where
  "row_shown ts vs = map2 value_shown ts vs"

lemma stored_shown:
  assumes "value_stored (buffer b) (buffer_gen b) t v r" "read_buffer con = Some b"
  shows "stmt_value con r = Some (value_shown t v)"
  using assms by (cases v) (auto simp: value_stored_def stmt_value_def row_bytes_def deref_def value_shown_def blk_read_has)

lemma row_get_frame:
  assumes "attachsql_statement_row_get (Some con) error = Some (True, error', Some con')"
  obtains as rows p n where "con' = con\<lparr>allocs := as, stmt_row := rows, stmt_null_bitmap := p, stmt_null_bitmap_length := n\<rparr>"
    "allocs con = [] \<longrightarrow> as = []"
proof -
  let ?rest = "\<lambda>con. con\<lparr>allocs := [], stmt_row := None, stmt_null_bitmap := None, stmt_null_bitmap_length := 0\<rparr>"
  let ?keep = "\<lambda>con. con\<lparr>allocs := allocs con', stmt_row := stmt_row con', stmt_null_bitmap := stmt_null_bitmap con',
      stmt_null_bitmap_length := stmt_null_bitmap_length con'\<rparr>"
  obtain ok c where a: "(if stmt_row con = None then alloc con else (True, con)) = (ok, c)" by fastforce
  have "\<exists>as. c = con\<lparr>allocs := as\<rparr> \<and> (allocs con = [] \<longrightarrow> as = [])"
    using a by (cases "allocs con") (auto simp: alloc_def split: if_splits intro: exI[of _ "allocs con"])
  then obtain as where as: "c = con\<lparr>allocs := as\<rparr>" "allocs con = [] \<longrightarrow> as = []" by blast
  have r: "?rest con' = ?rest con \<and> (allocs con = [] \<longrightarrow> allocs con' = [])" using assms as
    by (auto simp: attachsql_statement_row_get_def a Let_def fail_with_def split: if_splits Option.bind_splits prod.splits)
  then have "?keep (?rest con') = ?keep (?rest con)" by simp
  then have "con' = ?keep con" by simp
  then show thesis using r that by blast
qed

definition rows_typed :: "attachsql_column_type_t list \<Rightarrow> 'a con_core_scheme \<Rightarrow> bool" where
  "rows_typed ts con \<longleftrightarrow> unat (column_count (con_result con)) = length ts \<and>
     (case result_columns (con_result con) of None \<Rightarrow> False | Some cols \<Rightarrow> columns_typed cols ts)"

lemma statement_row_held:
  assumes held: "row_held (stmt_payload ts vs) rest con" and good: "stmt_row_good ts vs" and cols: "rows_typed ts con"
    and arr: "stmt_array_ok (length ts) con"
  shows "\<exists>rows con'. attachsql_statement_row_get (Some con) error = Some (True, error, Some con') \<and>
    stmt_row con' = Some rows \<and> length rows = length ts \<and> map (stmt_value con') rows = map Some (row_shown ts vs) \<and>
    row_held (stmt_payload ts vs) rest con' \<and> packet_number con' = packet_number con \<and>
    con_result con' = con_result con \<and> con_stmt con' = con_stmt con \<and> con_row con' = con_row con \<and> same_session con con'"
proof -
  obtain b where b: "read_buffer con = Some b" "packet_in b (stmt_payload ts vs) rest"
    "row_data (con_result con) = Some (buffer_gen b, buffer_read_ptr b)"
    using held by (auto simp: row_held_def)
  have at: "row_at (stmt_row_payload (null_bitmap vs) ts vs) b con"
    using packet_in_ahead[OF b(2)] b by (simp add: row_at_def ahead_def blk_has_append packet_in_def buffer_ok_def stmt_payload_def)
  have g: "length ts = length vs" "\<forall>i < length vs. value_good (ts ! i) (vs ! i)" using good by (simp_all add: stmt_row_good_def)
  obtain cols' where c: "result_columns (con_result con) = Some cols'" "columns_typed cols' ts"
    "unat (column_count (con_result con)) = length vs"
    using cols g(1) by (auto simp: rows_typed_def split: option.splits)
  obtain rows con' where r: "attachsql_statement_row_get (Some con) error = Some (True, error, Some con')"
    "stmt_row con' = Some rows" "length rows = length vs"
    "\<forall>i < length vs. value_stored (buffer b) (buffer_gen b) (ts ! i) (vs ! i) (rows ! i)"
    "read_buffer con' = Some b" "con_result con' = con_result con"
    using row_get_splits[OF at g(1) c(3) null_bitmap_ok g(2) c(1,2) arr[unfolded g(1)]] by blast
  obtain as x p n where f: "con' = con\<lparr>allocs := as, stmt_row := x, stmt_null_bitmap := p, stmt_null_bitmap_length := n\<rparr>"
    "allocs con = [] \<longrightarrow> as = []" using row_get_frame[OF r(1)] .
  have "map (stmt_value con') rows = map Some (row_shown ts vs)"
    using g(1) r(3,4,5) by (auto simp: list_eq_iff_nth_eq row_shown_def intro: stored_shown)
  moreover have "row_held (stmt_payload ts vs) rest con'"
    by (rule row_held_frame[OF held]) (simp_all add: f(1) queue_fields_def)
  moreover have "same_session con con'" using f(2) by (simp add: f(1) same_session_def client_view_def same_defs)
  moreover have "packet_number con' = packet_number con" "con_stmt con' = con_stmt con" "con_row con' = con_row con" by (simp_all add: f(1))
  ultimately show ?thesis using r(1-3,6) g(1) by (intro exI[of _ rows] exI[of _ con']) simp
qed

section \<open>All rows\<close>

text \<open>What a caller does: have the row split, read its values, ask for the next one.\<close>

fun fetch_statement_rows ::
  "nat \<Rightarrow> attachsql_connect_t \<Rightarrow> ((attachsql_column_type_t \<times> byte list) option list list \<times> attachsql_connect_t) option" where
  "fetch_statement_rows 0 con = Some ([], con)"
| "fetch_statement_rows (Suc k) con =
     do { (ok, _, c) \<leftarrow> attachsql_statement_row_get (Some con) None;
          con \<leftarrow> c;
          row \<leftarrow> (if ok then stmt_row con else None);
          let vs = map (stmt_value con) row;
          c \<leftarrow> attachsql_statement_row_next (Some con);
          con \<leftarrow> c;
          (rs, con) \<leftarrow> fetch_statement_rows k con;
          Some (vs # rs, con) }"

lemma fetch_statement_rows_ok:
  assumes "row_held (stmt_payload ts r) (stmt_row_stream (packet_number con + 1) ts rs (eof_payload warnings sstatus)) con"
    and "\<forall>row \<in> set (r # rs). stmt_row_good ts row" "unat (packet_number con) + length rs + 1 < 128"
    and "rows_typed ts con" "stmt_array_ok (length ts) con"
  shows "\<exists>con'. fetch_statement_rows (length (r # rs)) con = Some (map (map Some \<circ> row_shown ts) (r # rs), con') \<and>
    con_status con' = ATTACHSQL_CON_STATUS_IDLE \<and> command_status con' = ATTACHSQL_COMMAND_STATUS_EOF \<and>
    server_status con' = sstatus \<and> warning_count con' = warnings \<and> expects_none con' \<and> unread con' [] \<and>
    stmt_array_ok (length ts) con' \<and> con_stmt con' = con_stmt con \<and> con_row con' = con_row con \<and> same_session con con'"
  using assms
proof (induction rs arbitrary: r con)
  case Nil
  let ?n = "packet_number con + 1"
  have good: "stmt_row_good ts r" using Nil.prems(2) by simp
  obtain row con1 where g: "attachsql_statement_row_get (Some con) None = Some (True, None, Some con1)"
    "stmt_row con1 = Some row" "length row = length ts" "map (stmt_value con1) row = map Some (row_shown ts r)"
    "row_held (stmt_payload ts r) (packet ?n (eof_payload warnings sstatus) @ []) con1"
    "packet_number con1 = packet_number con" "same_session con con1" "con_stmt con1 = con_stmt con" "con_row con1 = con_row con"
    using statement_row_held[OF Nil.prems(1) good Nil.prems(4,5), of None] by auto
  have n: "?n = packet_number con1 + 1" "?n < 0x80" using g(6) unat_plus1[OF Nil.prems(3)] by simp_all
  obtain con' where e: "attachsql_get_next_row con1 = Some (ATTACHSQL_COMMAND_STATUS_EOF, con')"
    "con_status con' = ATTACHSQL_CON_STATUS_IDLE" "command_status con' = ATTACHSQL_COMMAND_STATUS_EOF"
    "server_status con' = sstatus" "warning_count con' = warnings" "expects_none con'" "unread con' []" "same_client con1 con'"
    using next_row_eof[OF g(5) n] by blast
  have k: "stmt_row con' = stmt_row con1" "con_row con' = con_row con" "con_stmt con' = con_stmt con"
    using e(8) more_view[of con' con1] g(8,9) by (simp_all add: same_client_def same_but_stmt_def)
  then have "stmt_array_ok (length ts) con'" using g(2,3) by (simp add: stmt_array_ok_def)
  then show ?case using g(1,2,4) e k(2,3) same_session_trans[OF g(7) same_client_session[OF e(8)]]
    by (simp add: attachsql_statement_row_next_def Let_def)
next
  case (Cons r' rs)
  let ?n = "packet_number con + 1"
  let ?s = "stmt_row_stream (?n + 1) ts rs (eof_payload warnings sstatus)"
  have good: "stmt_row_good ts r" "stmt_row_good ts r'" using Cons.prems(2) by simp_all
  obtain row con1 where g: "attachsql_statement_row_get (Some con) None = Some (True, None, Some con1)"
    "stmt_row con1 = Some row" "length row = length ts" "map (stmt_value con1) row = map Some (row_shown ts r)"
    "row_held (stmt_payload ts r) (packet ?n (stmt_payload ts r') @ ?s) con1"
    "packet_number con1 = packet_number con" "con_result con1 = con_result con" "same_session con con1"
    "con_stmt con1 = con_stmt con" "con_row con1 = con_row con"
    using statement_row_held[OF Cons.prems(1) good(1) Cons.prems(4,5), of None] by auto
  have n: "?n = packet_number con1 + 1" "?n < 0x80" "unat ?n + length rs + 1 < 128"
    using g(6) unat_plus1[OF Cons.prems(3)] Cons.prems(3) by simp_all
  have "length (stmt_payload ts r') < 2 ^ 24" using good(2) by (simp add: stmt_row_good_def)
  then obtain con2 where e: "attachsql_get_next_row con1 = Some (ATTACHSQL_COMMAND_STATUS_ROW_IN_BUFFER, con2)"
    "row_held (stmt_payload ts r') ?s con2" "packet_number con2 = ?n"
    "column_count (con_result con2) = column_count (con_result con1)"
    "result_columns (con_result con2) = result_columns (con_result con1)" "same_client con1 con2"
    using next_row[OF g(5) n(1,2) stmt_payload_starts] by blast
  have k: "stmt_row con2 = stmt_row con1" "con_row con2 = con_row con" "con_stmt con2 = con_stmt con"
    using e(6) more_view[of con2 con1] g(9,10) by (simp_all add: same_client_def same_but_stmt_def)
  then have arr: "stmt_array_ok (length ts) con2" using g(2,3) by (simp add: stmt_array_ok_def)
  have typed: "rows_typed ts con2" using Cons.prems(4) e(4,5) g(7) by (simp add: rows_typed_def)
  obtain con' where f: "fetch_statement_rows (length (r' # rs)) con2 = Some (map (map Some \<circ> row_shown ts) (r' # rs), con')"
    "con_status con' = ATTACHSQL_CON_STATUS_IDLE" "command_status con' = ATTACHSQL_COMMAND_STATUS_EOF"
    "server_status con' = sstatus" "warning_count con' = warnings" "expects_none con'" "unread con' []"
    "stmt_array_ok (length ts) con'" "con_stmt con' = con_stmt con2" "con_row con' = con_row con2" "same_session con2 con'"
    using Cons.IH[of r' con2] e(2,3) n(3) typed arr Cons.prems(2) by auto
  have "fetch_statement_rows (Suc k) con =
      do { (rs, con) \<leftarrow> fetch_statement_rows k con2; Some (map Some (row_shown ts r) # rs, con) }" for k
    using g(1,2,4) e(1) by (simp add: attachsql_statement_row_next_def Let_def)
  from this[of "length (r' # rs)"] show ?case
    using f same_session_trans[OF same_session_trans[OF g(8) same_client_session[OF e(6)]] f(11)] k(2,3)
    by (simp del: fetch_statement_rows.simps)
qed

section \<open>Execution\<close>

text \<open>
  A connection with a prepared statement whose parameters are bound and whose values fit in its
  buffer; the array of the row is that of a result of \<open>k\<close> columns, when there is one.
\<close>

definition statement_ready :: "attachsql_stmt_param_st list \<Rightarrow> nat \<Rightarrow> attachsql_connect_t \<Rightarrow> bool" where
  "statement_ready ps k con \<longleftrightarrow> session_ready con \<and> stmt_array_ok k con \<and>
     (case con_stmt con of
        None \<Rightarrow> False
      | Some stmt \<Rightarrow> length ps = unat (param_count stmt) \<and> (ps \<noteq> [] \<longrightarrow> param_data stmt = Some ps) \<and> exec_ready stmt ps)"

lemma statement_asks:
  assumes "statement_ready ps k con" "con_stmt con = Some stmt"
  obtains con' stmt' where "attachsql_statement_execute (Some con) error = Some (True, error, Some con')"
    "asked_by ATTACHSQL_COMMAND_STMT_EXECUTE con (exec_payload stmt ps) con'" "con_stmt con' = Some stmt'"
    "exec_ready stmt' ps" "stmt' = stmt\<lparr>exec_buffer_length := exec_buffer_length stmt', exec_buffer := exec_buffer stmt'\<rparr>"
    "in_query con' = in_query con"
proof -
  let ?c = "attachsql_command_free con"
  have r: "session_idle con" "length ps = unat (param_count stmt)" "ps \<noteq> [] \<longrightarrow> param_data stmt = Some ps" "exec_ready stmt ps"
    using assms by (simp_all add: statement_ready_def session_ready_def)
  have idle: "session_idle ?c"
    by (rule idle_frame[OF r(1)]) (simp_all add: attachsql_command_free_def queue_fields_def writer_def)
  then have calm: "calm ?c" by (simp add: session_idle_def query_ready_def)
  have s: "con_stmt ?c = Some stmt" using assms(2) by (simp add: attachsql_command_free_def)
  obtain b n where e: "attachsql_stmt_execute ?c =
      do { (st, con) \<leftarrow> attachsql_command_send ATTACHSQL_COMMAND_STMT_EXECUTE (exec_payload stmt ps)
             (with_exec (stmt\<lparr>exec_buffer_length := n\<rparr>) b ?c);
           Some (st = ATTACHSQL_COMMAND_STATUS_SEND, con) }"
    "exec_ready (stmt\<lparr>exec_buffer_length := n, exec_buffer := Some b\<rparr>) ps"
    using execute_sends[OF s r(3,2,4) calm] .
  let ?s = "stmt\<lparr>exec_buffer_length := n, exec_buffer := Some b\<rparr>"
  have "with_exec (stmt\<lparr>exec_buffer_length := n\<rparr>) b ?c = ?c\<lparr>in_query := in_query ?c, query_buffer := query_buffer ?c,
      query_buffer_length := query_buffer_length ?c, query_buffer_alloc := query_buffer_alloc ?c,
      query_buffer_statement := query_buffer_statement ?c, con_stmt := Some ?s\<rparr>" by (simp add: with_exec_def)
  from asked_command[OF idle this, of ATTACHSQL_COMMAND_STMT_EXECUTE _ "exec_payload stmt ps"] obtain con' where
    c: "attachsql_command_send ATTACHSQL_COMMAND_STMT_EXECUTE (exec_payload stmt ps) (with_exec (stmt\<lparr>exec_buffer_length := n\<rparr>) b ?c) =
      Some (ATTACHSQL_COMMAND_STATUS_SEND, con')"
    "asked_by ATTACHSQL_COMMAND_STMT_EXECUTE ?c (exec_payload stmt ps) con'" "con_stmt con' = Some ?s" "in_query con' = in_query ?c"
    by (auto simp: response_of_def)
  have "attachsql_statement_execute (Some con) error = Some (True, error, Some con')"
    using assms(2) e(1) c(1) by (simp add: attachsql_statement_execute_def)
  moreover have "asked_by ATTACHSQL_COMMAND_STMT_EXECUTE con (exec_payload stmt ps) con'" "in_query con' = in_query con"
    using c(2,4) by (simp_all add: asked_by_def attachsql_command_free_def row_view_def)
  ultimately show thesis using c(3) e(2) that[of con' ?s] by simp
qed

definition stmt_answer ::
  "byte list \<Rightarrow> column_t list \<Rightarrow> byte list option list list \<Rightarrow> uint16 \<Rightarrow> uint16 \<Rightarrow> uint16 \<Rightarrow> uint16 \<Rightarrow> byte list" where
  "stmt_answer catalog cs rows w1 s1 w2 s2 =
     result_stream 1 catalog cs (eof_payload w1 s1) (stmt_payload (map c_type cs) (hd rows))
       (stmt_row_stream (4 + of_nat (length cs)) (map c_type cs) (tl rows) (eof_payload w2 s2))"

definition stmt_answer_good :: "byte list \<Rightarrow> column_t list \<Rightarrow> byte list option list list \<Rightarrow> bool" where
  "stmt_answer_good catalog cs rows \<longleftrightarrow> cs \<noteq> [] \<and> rows \<noteq> [] \<and> (\<forall>c \<in> set cs. column_short catalog c) \<and>
     (\<forall>row \<in> set rows. stmt_row_good (map c_type cs) row) \<and> length cs + length rows + 3 < 128"

lemma columns_read_types: "map c_type (columns_read n catalog cs eof) = map c_type cs"
  by (induction cs arbitrary: n) (simp_all add: column_read_def column_cut_def Let_def)

lemma columns_read_typed: "columns_typed (map Some (columns_read n catalog cs eof)) (map c_type cs)"
proof -
  let ?cols = "columns_read n catalog cs eof"
  have "length ?cols = length cs" using arg_cong[OF columns_read_types[of n catalog cs eof], of length] by simp
  moreover have "c_type (?cols ! i) = c_type (cs ! i)" if "i < length cs" for i
    using arg_cong[OF columns_read_types[of n catalog cs eof], of "\<lambda>xs. xs ! i"] that calculation by simp
  ultimately show ?thesis by (simp add: columns_typed_def)
qed

lemma statement_executed:
  assumes "statement_ready ps (length cs) con" "con_stmt con = Some stmt"
    and "uv_events con = [Received wanted (stmt_answer catalog cs rows w1 s1 w2 s2)] # later"
    and "stmt_answer_good catalog cs rows" "length (stmt_answer catalog cs rows w1 s1 w2 s2) + wanted \<le> capacity con"
  shows "\<exists>con1 con2 con3 con4.
    attachsql_statement_execute (Some con) (Some e) = Some (True, Some e, Some con1) \<and>
    sent con1 = sent con @ [packet 0 (command_code ATTACHSQL_COMMAND_STMT_EXECUTE # exec_payload stmt ps)] \<and>
    attachsql_connect_poll (Some con1) (Some e) = Some (ATTACHSQL_RETURN_ROW_READY, Some e, Some con2) \<and>
    fetch_statement_rows (length rows) con2 = Some (map (map Some \<circ> row_shown (map c_type cs)) rows, con3) \<and>
    attachsql_connect_poll (Some con3) (Some e) = Some (ATTACHSQL_RETURN_EOF, Some e, Some con4) \<and>
    statement_ready ps (length cs) con4 \<and> uv_events con4 = later \<and> sent con4 = sent con1 \<and>
    capacity con4 = capacity con"
proof -
  let ?ts = "map c_type cs"
  have ready: "session_idle con" "\<not> buffer_rows con" "\<not> in_query con" "stmt_array_ok (length cs) con"
    "length ps = unat (param_count stmt)" "ps \<noteq> [] \<longrightarrow> param_data stmt = Some ps"
    using assms(1,2) by (simp_all add: statement_ready_def session_ready_def session_idle_def query_ready_def)
  have none: "unread con []" using ready(1) by (simp add: session_idle_def)
  have g: "cs \<noteq> []" "\<forall>c \<in> set cs. column_short catalog c" "length cs + 3 < 128" "hd rows # tl rows = rows"
    "\<forall>row \<in> set rows. stmt_row_good ?ts row" "length cs + length rows + 3 < 128"
    using assms(4) by (auto simp: stmt_answer_good_def)
  have len: "length (stmt_payload ?ts (hd rows)) < 2 ^ 24" using g(4,5) by (metis list.set_intros(1) stmt_row_good_def)
  obtain con1 stmt' where c1: "attachsql_statement_execute (Some con) (Some e) = Some (True, Some e, Some con1)"
    "asked_by ATTACHSQL_COMMAND_STMT_EXECUTE con (exec_payload stmt ps) con1" "con_stmt con1 = Some stmt'" "exec_ready stmt' ps"
    "stmt' = stmt\<lparr>exec_buffer_length := exec_buffer_length stmt', exec_buffer := exec_buffer stmt'\<rparr>" "in_query con1 = in_query con"
    using statement_asks[OF assms(1,2)] .
  have a: "buffer_rows con1 = buffer_rows con" "calm con1" "stmt_row con1 = stmt_row con"
    using c1(2) by (simp_all add: asked_by_def row_view_def)
  have "response_of ATTACHSQL_COMMAND_STMT_EXECUTE = [ATTACHSQL_PACKET_TYPE_RESPONSE]" by (simp add: response_of_def)
  from result_arrives[OF c1(2) this none assms(3,5) stmt_answer_def g(1-3) stmt_payload_starts len, of "Some e"] obtain con2 where
    c2: "attachsql_connect_poll (Some con1) (Some e) = poll_idle con2 (Some e)"
    "row_held (stmt_payload ?ts (hd rows)) (stmt_row_stream (4 + of_nat (length cs)) ?ts (tl rows) (eof_payload w2 s2)) con2"
    "packet_number con2 = 3 + of_nat (length cs)" "unat (column_count (con_result con2)) = length cs"
    "result_columns (con_result con2) = Some (map Some (columns_read 2 catalog cs (eof_payload w1 s1)))"
    "con_row con2 = None" "stmt_row con2 = stmt_row con" "con_stmt con2 = con_stmt con1" "server_errno con2 = 0" "con_pool con2 = None"
    "same_session (con1\<lparr>uv_events := later\<rparr>) con2"
    by blast
  have s2: "\<not> buffer_rows con2" "allocs con2 = []"
    using c2(11) a(1,2) ready(2) by (auto simp: same_session_def same_core_def client_view_def calm_def)
  have row: "poll_idle con2 (Some e) = Some (ATTACHSQL_RETURN_ROW_READY, Some e, Some con2)"
    using c2(2) s2(1) by (intro poll_row_ready[OF _ c2(9,10)]) (simp_all add: row_held_def)
  have n: "unat (packet_number con2) = length cs + 3" using g(3) by (simp add: c2(3) unat_word_ariths unat_of_nat)
  have held: "row_held (stmt_payload ?ts (hd rows)) (stmt_row_stream (packet_number con2 + 1) ?ts (tl rows) (eof_payload w2 s2)) con2"
    using c2(2) by (simp add: c2(3))
  have "rows_typed ?ts con2" using c2(4,5) columns_read_typed by (simp add: rows_typed_def)
  moreover have "stmt_array_ok (length ?ts) con2"
    using ready(4) c2(7) s2(2) by (simp add: stmt_array_ok_def alloc_def split: option.splits)
  moreover have "unat (packet_number con2) + length (tl rows) + 1 < 128" using n g(4,6) by (cases rows) auto
  ultimately obtain con3 where c3: "fetch_statement_rows (length rows) con2 = Some (map (map Some \<circ> row_shown ?ts) rows, con3)"
    "con_status con3 = ATTACHSQL_CON_STATUS_IDLE" "command_status con3 = ATTACHSQL_COMMAND_STATUS_EOF"
    "expects_none con3" "unread con3 []" "stmt_array_ok (length ?ts) con3" "con_stmt con3 = con_stmt con2"
    "con_row con3 = con_row con2" "same_session con2 con3"
    using fetch_statement_rows_ok[OF held] g(4,5) by auto
  note same = same_session_trans[OF c2(11) c3(9)]
  note p = eof_polled[OF ready(1) c1(2) same c3(2-5)]
  have "session_idle (at_end con3)"
    using at_end_idle[OF ready(1) c1(2) same c3(2-5)] c1(6) ready(3) c3(8) c2(6) by simp
  moreover have "\<not> buffer_rows (at_end con3)" using p(12) ready(2) by (simp add: row_view_def)
  moreover have "stmt_array_ok (length cs) (at_end con3)" using c3(6) p(5,18) by (simp add: stmt_array_ok_def calm_def alloc_def split: option.splits)
  moreover have "con_stmt (at_end con3) = Some stmt'" using c3(7) c2(8) c1(3) by (simp add: at_end_def)
  moreover have "param_count stmt' = param_count stmt" "param_data stmt' = param_data stmt"
    using arg_cong[OF c1(5), of param_count] arg_cong[OF c1(5), of param_data] by simp_all
  ultimately have "statement_ready ps (length cs) (at_end con3)" using c1(4) ready(5,6) by (simp add: statement_ready_def session_ready_def)
  then show ?thesis using c1(1,2) c2(1) row c3(1) p(1,13,14,19) by (auto simp: asked_by_def)
qed

text \<open>
  C7. The execution of a prepared statement from beginning to end: \<open>attachsql_statement_execute\<close> sends the
  parameters, the next poll finds the answer of the server and reports a row, the caller's loop gets
  the type and the bytes of every value of all rows in order, NULL by the bitmap of its row, the poll
  after them reports the end, and the statement can be executed again.
\<close>

theorem statement_session:
  assumes "statement_ready ps (length cs) con" "con_stmt con = Some stmt"
    and "uv_events con = [Received wanted (stmt_answer catalog cs rows w1 s1 w2 s2)] # later"
    and "stmt_answer_good catalog cs rows" "length (stmt_answer catalog cs rows w1 s1 w2 s2) + wanted \<le> capacity con"
  shows "\<exists>con1 con2 con3 con4.
    attachsql_statement_execute (Some con) (Some e) = Some (True, Some e, Some con1) \<and>
    sent con1 = sent con @ [packet 0 (command_code ATTACHSQL_COMMAND_STMT_EXECUTE # exec_payload stmt ps)] \<and>
    attachsql_connect_poll (Some con1) (Some e) = Some (ATTACHSQL_RETURN_ROW_READY, Some e, Some con2) \<and>
    fetch_statement_rows (length rows) con2 = Some (map (map Some \<circ> row_shown (map c_type cs)) rows, con3) \<and>
    attachsql_connect_poll (Some con3) (Some e) = Some (ATTACHSQL_RETURN_EOF, Some e, Some con4) \<and>
    statement_ready ps (length cs) con4 \<and> uv_events con4 = later \<and> sent con4 = sent con1 \<and>
    capacity con4 = capacity con"
  using assms by (rule statement_executed)

definition execute_con :: attachsql_connect_t where
  "execute_con = session_con\<lparr>con_stmt := Some (stmt_init\<lparr>param_count := 1, param_data := Some [int_param 5]\<rparr>), uv_events :=
     [[Received 16 (stmt_answer [0x64, 0x65, 0x66] [sample_column] [[Some (le_bytes 4 (298 :: uint32))], [None]] 0 0 0 2)]]\<rparr>"

lemma sample_stmt_answer:
  fixes rows :: "byte list option list list"
  defines "rows \<equiv> [[Some (le_bytes 4 (298 :: uint32))], [None]]"
  shows "stmt_answer_good [0x64, 0x65, 0x66] [sample_column] rows"
    "length (stmt_answer [0x64, 0x65, 0x66] [sample_column] rows 0 0 0 2) \<le> 256"
    "map (map Some \<circ> row_shown (map c_type [sample_column])) rows =
      [[Some (ATTACHSQL_COLUMN_TYPE_LONG, [42, 1, 0, 0])], [Some (ATTACHSQL_COLUMN_TYPE_NULL, [])]]"
proof -
  have ty: "c_type sample_column = ATTACHSQL_COLUMN_TYPE_LONG" by (simp add: sample_column_def)
  have len: "length (stmt_payload [ATTACHSQL_COLUMN_TYPE_LONG] [v]) \<le> 6" if "v = None \<or> v = Some (le_bytes 4 (298 :: uint32))" for v
    using that by (auto simp: stmt_payload_def stmt_row_payload_def null_bitmap_def enc_values_def enc_value_def
        counted_type_def date_type_def)
  note lens = len[of None] len[of "Some (le_bytes 4 (298 :: uint32))"]
  show "stmt_answer_good [0x64, 0x65, 0x66] [sample_column] rows"
    using sample_column_good lens
    by (simp add: rows_def stmt_answer_good_def column_short_def sample_column_length stmt_row_good_def ty value_good_def
        counted_type_def date_type_def)
  show "length (stmt_answer [0x64, 0x65, 0x66] [sample_column] rows 0 0 0 2) \<le> 256"
    using lens by (simp add: rows_def stmt_answer_def result_stream_def packet_def ty enc_length_def eof_payload_def sample_column_length)
  show "map (map Some \<circ> row_shown (map c_type [sample_column])) rows =
      [[Some (ATTACHSQL_COLUMN_TYPE_LONG, [42, 1, 0, 0])], [Some (ATTACHSQL_COLUMN_TYPE_NULL, [])]]"
    by (simp add: rows_def row_shown_def value_shown_def ty le_bytes_4)
qed

theorem statement_session_witness:
  "\<exists>con1 con2 con3 con4.
    attachsql_statement_execute (Some execute_con) (Some None) = Some (True, Some None, Some con1) \<and>
    sent con1 = [[18, 0, 0, 0, 0x17, 0, 0, 0, 0, 0, 1, 0, 0, 0, 0, 1, 3, 0, 5, 0, 0, 0]] \<and>
    attachsql_connect_poll (Some con1) (Some None) = Some (ATTACHSQL_RETURN_ROW_READY, Some None, Some con2) \<and>
    fetch_statement_rows 2 con2 = Some ([[Some (ATTACHSQL_COLUMN_TYPE_LONG, [42, 1, 0, 0])],
      [Some (ATTACHSQL_COLUMN_TYPE_NULL, [])]], con3) \<and>
    attachsql_connect_poll (Some con3) (Some None) = Some (ATTACHSQL_RETURN_EOF, Some None, Some con4) \<and>
    statement_ready [int_param 5] 1 con4"
proof -
  let ?rows = "[[Some (le_bytes 4 (298 :: uint32))], [None]]"
  let ?s = "stmt_answer [0x64, 0x65, 0x66] [sample_column] ?rows 0 0 0 2"
  let ?stmt = "stmt_init\<lparr>param_count := 1, param_data := Some [int_param 5]\<rparr>"
  have ready: "session_idle session_con" "\<not> buffer_rows session_con" using session_con_ready by (simp_all add: session_ready_def)
  have idle: "session_idle execute_con"
    by (rule idle_frame[OF ready(1)]) (simp_all add: execute_con_def queue_fields_def writer_def)
  have row: "stmt_row session_con = None"
    by (simp add: session_con_def query_con_def stmt_con_def connect_init_def con_core.defs)
  have calm: "calm execute_con" using idle by (simp add: session_idle_def query_ready_def)
  have st: "statement_ready [int_param 5] (length [sample_column]) execute_con"
    using idle ready(2) row calm int_param_ready(2)[of 5]
    by (simp add: statement_ready_def session_ready_def stmt_array_ok_def execute_con_def calm_def alloc_def)
  have stmt: "con_stmt execute_con = Some ?stmt" by (simp add: execute_con_def)
  have ev: "uv_events execute_con = [Received 16 ?s] # []" by (simp add: execute_con_def)
  note sample = sample_stmt_answer
  have room: "length ?s + 16 \<le> capacity execute_con"
    using sample(2) by (simp add: execute_con_def session_con_def capacity_def packet_buffer_def)
  have sent: "sent execute_con = []" using query_con_ready(2) by (simp add: execute_con_def session_con_def)
  have out: "sent execute_con @ [packet 0 (command_code ATTACHSQL_COMMAND_STMT_EXECUTE # exec_payload ?stmt [int_param 5])] =
      [[18, 0, 0, 0, 0x17, 0, 0, 0, 0, 0, 1, 0, 0, 0, 0, 1, 3, 0, 5, 0, 0, 0]]"
    unfolding sent int_param_ready(1) by (simp add: packet_def le_bytes_3 le_bytes_4)
  have two: "length ?rows = 2" "length [sample_column] = 1" by simp_all
  show ?thesis using statement_session[OF st stmt ev sample(1) room, of None] unfolding sample(3) out two by blast
qed

end
