(* ===== verification/Setters.thy ===== *)
theory Setters
  imports Execute
begin

text \<open>
  The calls that bind the parameters of a prepared statement, as a caller writes them, and what the
  server is to receive of them: for each parameter the type and the value of the last call.
\<close>

section \<open>Calls\<close>

text \<open>A call with the number of its parameter and the value; a string is its length and what its pointer points to.\<close>

datatype set_call =
    SetInt (call_param: uint16) uint32
  | SetUnsignedInt (call_param: uint16) uint32
  | SetBigint (call_param: uint16) uint64
  | SetUnsignedBigint (call_param: uint16) uint64
  | SetDouble (call_param: uint16) uint64
  | SetString (call_param: uint16) nat "byte list option"
  | SetBinary (call_param: uint16) nat "byte list option"
  | SetNull (call_param: uint16)
  | SetDatetime (call_param: uint16) uint16 byte byte byte byte byte uint32
  | SetTime (call_param: uint16) byte byte byte uint32 bool

fun call_setter :: "set_call \<Rightarrow> con_ptr \<Rightarrow> error_ptr \<Rightarrow> bool call" where
  "call_setter (SetInt i v) c = attachsql_statement_set_int c i v"
| "call_setter (SetUnsignedInt i v) c = attachsql_statement_set_unsigned_int c i v"
| "call_setter (SetBigint i v) c = attachsql_statement_set_bigint c i v"
| "call_setter (SetUnsignedBigint i v) c = attachsql_statement_set_unsigned_bigint c i v"
| "call_setter (SetDouble i v) c = attachsql_statement_set_double c i v"
| "call_setter (SetString i n s) c = attachsql_statement_set_string c i n s"
| "call_setter (SetBinary i n s) c = attachsql_statement_set_binary c i n s"
| "call_setter (SetNull i) c = attachsql_statement_set_null c i"
| "call_setter (SetDatetime i y mo d h mi s us) c = attachsql_statement_set_datetime c i y mo d h mi s us"
| "call_setter (SetTime i h mi s us neg) c = attachsql_statement_set_time c i h mi s us neg"

text \<open>The calls one after the other, as long as they succeed.\<close>

fun call_setters :: "set_call list \<Rightarrow> attachsql_connect_t \<Rightarrow> error_ptr \<Rightarrow> attachsql_connect_t option" where
  "call_setters [] con error = Some con"
| "call_setters (x # xs) con error =
     do { (ok, error, c) \<leftarrow> call_setter x (Some con) error;
          con \<leftarrow> c;
          if ok then call_setters xs con error else None }"

section \<open>What the server is to receive\<close>

fun call_type :: "set_call \<Rightarrow> attachsql_column_type_t" where
  "call_type (SetInt i v) = ATTACHSQL_COLUMN_TYPE_LONG"
| "call_type (SetUnsignedInt i v) = ATTACHSQL_COLUMN_TYPE_LONG"
| "call_type (SetBigint i v) = ATTACHSQL_COLUMN_TYPE_LONGLONG"
| "call_type (SetUnsignedBigint i v) = ATTACHSQL_COLUMN_TYPE_LONGLONG"
| "call_type (SetDouble i v) = ATTACHSQL_COLUMN_TYPE_DOUBLE"
| "call_type (SetString i n s) = ATTACHSQL_COLUMN_TYPE_STRING"
| "call_type (SetBinary i n s) = ATTACHSQL_COLUMN_TYPE_BLOB"
| "call_type (SetNull i) = ATTACHSQL_COLUMN_TYPE_NULL"
| "call_type (SetDatetime i y mo d h mi s us) = ATTACHSQL_COLUMN_TYPE_DATETIME"
| "call_type (SetTime i h mi s us neg) = ATTACHSQL_COLUMN_TYPE_TIME"

text \<open>Whether a number is unsigned; the other setters leave the flag of the parameter as it was.\<close>

fun call_sign :: "set_call \<Rightarrow> bool option" where
  "call_sign (SetInt i v) = Some False"
| "call_sign (SetUnsignedInt i v) = Some True"
| "call_sign (SetBigint i v) = Some False"
| "call_sign (SetUnsignedBigint i v) = Some True"
| "call_sign (SetDouble i v) = Some False"
| "call_sign _ = None"

definition pointed :: "byte list option \<Rightarrow> byte list" where
  "pointed s = (case s of Some xs \<Rightarrow> xs | None \<Rightarrow> [])"

text \<open>The binary values of the protocol: dates and times in the shortest of their forms.\<close>

fun call_wire :: "set_call \<Rightarrow> byte list" where
  "call_wire (SetInt i v) = le_bytes 4 v"
| "call_wire (SetUnsignedInt i v) = le_bytes 4 v"
| "call_wire (SetBigint i v) = le_bytes 8 v"
| "call_wire (SetUnsignedBigint i v) = le_bytes 8 v"
| "call_wire (SetDouble i v) = le_bytes 8 v"
| "call_wire (SetString i n s) = enc_length (of_nat n) @ take n (pointed s)"
| "call_wire (SetBinary i n s) = enc_length (of_nat n) @ take n (pointed s)"
| "call_wire (SetNull i) = []"
| "call_wire (SetDatetime i y mo d h mi s us) =
     (if us \<noteq> 0 then 11 # le_bytes 2 y @ [mo, d, h, mi, s] @ le_bytes 4 us
      else if (h, mi, s) \<noteq> (0, 0, 0) then 7 # le_bytes 2 y @ [mo, d, h, mi, s]
      else if (y, mo, d) \<noteq> (0, 0, 0) then 4 # le_bytes 2 y @ [mo, d]
      else [0])"
| "call_wire (SetTime i h mi s us neg) =
     (if us \<noteq> 0 then [12, if neg then 1 else 0] @ le_bytes 4 (0 :: uint32) @ [h, mi, s] @ le_bytes 4 us
      else if (h, mi, s) \<noteq> (0, 0, 0) then [8, if neg then 1 else 0] @ le_bytes 4 (0 :: uint32) @ [h, mi, s]
      else [0])"

text \<open>
  The calls whose value is sent as it is: not NULL, a string of at most the buffer's length of which all bytes are there,
  and no time of whole hours, which \<open>attachsql_pack_time\<close> sends as zero.
\<close>

fun call_good :: "set_call \<Rightarrow> bool" where
  "call_good (SetNull i) = False"
| "call_good (SetString i n s) = (n \<le> length (pointed s) \<and> n \<le> ATTACHSQL_STMT_EXEC_DEFAULT_SIZE)"
| "call_good (SetBinary i n s) = (n \<le> length (pointed s) \<and> n \<le> ATTACHSQL_STMT_EXEC_DEFAULT_SIZE)"
| "call_good (SetTime i h mi s us neg) = (h = 0 \<or> (mi, s, us) \<noteq> (0, 0, 0))"
| "call_good _ = True"

definition calls_for :: "nat \<Rightarrow> set_call list \<Rightarrow> set_call list" where
  "calls_for i calls = filter (\<lambda>c. unat (call_param c) = i) calls"

fun last_sign :: "set_call list \<Rightarrow> bool \<Rightarrow> bool" where
  "last_sign [] f = f"
| "last_sign (c # cs) f = last_sign cs (case call_sign c of Some u \<Rightarrow> u | None \<Rightarrow> f)"

definition bound_type :: "set_call list \<Rightarrow> uint16" where
  "bound_type cs = column_type_code (call_type (last cs)) OR (if last_sign cs False then 0x8000 else 0)"

text \<open>Every parameter of \<open>n\<close> has been set, and last of all by a call whose value is sent.\<close>

definition all_bound :: "nat \<Rightarrow> set_call list \<Rightarrow> bool" where
  "all_bound n calls \<longleftrightarrow> (\<forall>c \<in> set calls. unat (call_param c) < n) \<and>
     (\<forall>i < n. calls_for i calls \<noteq> [] \<and> call_good (last (calls_for i calls)))"

text \<open>The execute packet: the statement, no cursor, one execution, no NULLs, new types, the types and the values.\<close>

definition execute_payload :: "uint32 \<Rightarrow> nat \<Rightarrow> set_call list \<Rightarrow> byte list" where
  "execute_payload sid n calls =
     le_bytes 4 sid @ [0] @ le_bytes 4 (1 :: uint32) @ replicate ((n + 7) div 8) 0 @ [1] @
     concat (map (\<lambda>i. le_bytes 2 (bound_type (calls_for i calls))) [0..<n]) @
     concat (map (\<lambda>i. call_wire (last (calls_for i calls))) [0..<n])"

section \<open>What the setters store\<close>

fun stored :: "set_call \<Rightarrow> attachsql_stmt_param_st \<Rightarrow> attachsql_stmt_param_st" where
  "stored (SetInt i v) p = p\<lparr>param_value := IntData v, is_unsigned := False, param_type := ATTACHSQL_COLUMN_TYPE_LONG\<rparr>"
| "stored (SetUnsignedInt i v) p = p\<lparr>param_value := IntData v, is_unsigned := True, param_type := ATTACHSQL_COLUMN_TYPE_LONG\<rparr>"
| "stored (SetBigint i v) p = p\<lparr>param_value := BigintData v, is_unsigned := False, param_type := ATTACHSQL_COLUMN_TYPE_LONGLONG\<rparr>"
| "stored (SetUnsignedBigint i v) p =
     p\<lparr>param_value := BigintData v, is_unsigned := True, param_type := ATTACHSQL_COLUMN_TYPE_LONGLONG\<rparr>"
| "stored (SetDouble i v) p = p\<lparr>param_value := DoubleData v, is_unsigned := False, param_type := ATTACHSQL_COLUMN_TYPE_DOUBLE\<rparr>"
| "stored (SetString i n s) p = p\<lparr>param_value := StringData s, param_length := n, param_type := ATTACHSQL_COLUMN_TYPE_STRING\<rparr>"
| "stored (SetBinary i n s) p = p\<lparr>param_value := StringData s, param_length := n, param_type := ATTACHSQL_COLUMN_TYPE_BLOB\<rparr>"
| "stored (SetNull i) p = p\<lparr>param_type := ATTACHSQL_COLUMN_TYPE_NULL\<rparr>"
| "stored (SetDatetime i y mo d h mi s us) p = p\<lparr>
     param_value := DatetimeData (Some (datetime_init\<lparr>year := y, month := mo, day := ucast d, hour := h,
       minute := mi, second := s, microsecond := us\<rparr>)),
     datetime_alloc := True, param_type := ATTACHSQL_COLUMN_TYPE_DATETIME\<rparr>"
| "stored (SetTime i h mi s us neg) p = p\<lparr>
     param_value := DatetimeData (Some (datetime_init\<lparr>hour := h, minute := mi, second := s, microsecond := us, is_negative := neg\<rparr>)),
     datetime_alloc := False, param_type := ATTACHSQL_COLUMN_TYPE_TIME\<rparr>"

definition store_at :: "set_call \<Rightarrow> attachsql_stmt_param_st list \<Rightarrow> attachsql_stmt_param_st list" where
  "store_at c ps = ps[unat (call_param c) := stored c (ps ! unat (call_param c))]"

lemma call_setter_ok:
  assumes "con_stmt con = Some stmt" "param_data stmt = Some ps" "length ps = unat (param_count stmt)"
    and "unat (call_param c) < length ps" "allocs con = []"
  shows "call_setter c (Some con) e = Some (True, e, Some (con\<lparr>con_stmt := Some (stmt\<lparr>param_data := Some (store_at c ps)\<rparr>)\<rparr>))"
proof -
  have i: "\<not> param_count stmt \<le> call_param c" using assms(3,4) by (simp add: word_le_nat_alt)
  have a: "alloc con = (True, con)" using assms(5) by (simp add: alloc_def)
  show ?thesis using assms(1-4) i a
    by (cases c) (simp_all add: attachsql_statement_set_int_def attachsql_statement_set_unsigned_int_def
      attachsql_statement_set_bigint_def attachsql_statement_set_unsigned_bigint_def attachsql_statement_set_double_def
      attachsql_statement_set_string_def attachsql_statement_set_binary_def attachsql_statement_set_null_def
      attachsql_statement_set_datetime_def attachsql_statement_set_time_def attachsql_statement_set_param_def
      with_param_def store_param_def set_param_at_def store_at_def string_type_def)
qed

lemma call_setter_step:
  "call_setter c (Some con) e = Some (r, e', Some con') \<Longrightarrow> set_step con con'"
  by (cases c) (auto intro: set_step.intros)

lemma store_at_length [simp]: "length (store_at c ps) = length ps"
  by (simp add: store_at_def)

lemma call_setters_ok:
  assumes "con_stmt con = Some stmt" "param_data stmt = Some ps" "length ps = unat (param_count stmt)"
    and "\<forall>c \<in> set calls. unat (call_param c) < length ps" "allocs con = []"
  shows "\<exists>con'. call_setters calls con e = Some con' \<and> set_step\<^sup>*\<^sup>* con con' \<and>
    con_stmt con' = Some (stmt\<lparr>param_data := Some (fold store_at calls ps)\<rparr>)"
  using assms
proof (induction calls arbitrary: con stmt ps)
  case Nil
  then show ?case by (intro exI[of _ con]) simp
next
  case (Cons c calls)
  let ?stmt = "stmt\<lparr>param_data := Some (store_at c ps)\<rparr>"
  let ?con = "con\<lparr>con_stmt := Some ?stmt\<rparr>"
  have s: "call_setter c (Some con) e = Some (True, e, Some ?con)"
    using call_setter_ok[OF Cons.prems(1-3) _ Cons.prems(5)] Cons.prems(4) by simp
  have "\<exists>con'. call_setters calls ?con e = Some con' \<and> set_step\<^sup>*\<^sup>* ?con con' \<and>
      con_stmt con' = Some (?stmt\<lparr>param_data := Some (fold store_at calls (store_at c ps))\<rparr>)"
    by (rule Cons.IH) (use Cons.prems in simp_all)
  then show ?case using s converse_rtranclp_into_rtranclp[of set_step, OF call_setter_step[OF s]] by auto
qed

lemma fold_store_length [simp]: "length (fold store_at calls ps) = length ps"
  by (induction calls arbitrary: ps) simp_all

text \<open>What a parameter holds depends on the calls for it alone.\<close>

lemma fold_store_nth:
  "\<forall>c \<in> set calls. unat (call_param c) < length ps \<Longrightarrow> i < length ps \<Longrightarrow>
   fold store_at calls ps ! i = fold stored (calls_for i calls) (ps ! i)"
proof (induction calls arbitrary: ps)
  case (Cons c calls)
  then have "fold store_at calls (store_at c ps) ! i = fold stored (calls_for i calls) (store_at c ps ! i)" by simp
  moreover have "store_at c ps ! i = (if unat (call_param c) = i then stored c (ps ! i) else ps ! i)"
    using Cons.prems(2) by (simp add: store_at_def)
  ultimately show ?case by (simp add: calls_for_def)
qed (simp add: calls_for_def)

lemma fold_stored_sign: "is_unsigned (fold stored cs p) = last_sign cs (is_unsigned p)"
proof (induction cs arbitrary: p)
  case (Cons c cs)
  then show ?case by (cases c) simp_all
qed simp

lemma fold_stored_whole: "is_long_data (fold stored cs p) = is_long_data p"
proof (induction cs arbitrary: p)
  case (Cons c cs)
  then show ?case by (cases c) simp_all
qed simp

lemma fold_stored_last: "cs \<noteq> [] \<Longrightarrow> \<exists>q. fold stored cs p = stored (last cs) q"
  by (induction cs rule: rev_induct) auto

lemma date_wire:
  "enc_datetime False (datetime_init\<lparr>year := y, month := mo, day := ucast d, hour := h, minute := mi, second := s,
     microsecond := us\<rparr>) = call_wire (SetDatetime i y mo d h mi s us)"
proof -
  have "(ucast d :: uint32) = 0 \<longleftrightarrow> d = 0" by transfer (simp add: take_bit_take_bit)
  moreover have "ucast (ucast d :: uint32) = d" by (simp add: ucast_up_ucast_id is_up)
  ultimately show ?thesis by (auto simp: enc_datetime_def datetime_init_def simp flip: word_neq_0_conv)
qed

lemma time_wire:
  assumes "call_good (SetTime i h mi s us neg)"
  shows "enc_time (datetime_init\<lparr>hour := h, minute := mi, second := s, microsecond := us, is_negative := neg\<rparr>) =
    call_wire (SetTime i h mi s us neg)"
  using assms by (auto simp: enc_time_def datetime_init_def Let_def simp flip: word_neq_0_conv)

lemma stored_wire:
  assumes "call_good c"
  shows "param_type (stored c p) = call_type c" "param_type (stored c p) \<noteq> ATTACHSQL_COLUMN_TYPE_NULL"
    "param_bytes (stored c p) = call_wire c" "param_whole (stored c p)"
    "string_type (param_type (stored c p)) \<Longrightarrow> param_length (stored c p) \<le> ATTACHSQL_STMT_EXEC_DEFAULT_SIZE"
proof -
  show "param_type (stored c p) = call_type c" by (cases c) simp_all
  show "param_type (stored c p) \<noteq> ATTACHSQL_COLUMN_TYPE_NULL" using assms by (cases c) simp_all
  show "param_bytes (stored c p) = call_wire c"
    using assms date_wire time_wire by (cases c) (simp_all add: param_bytes_def pointed_def del: call_good.simps(4))
  show "param_whole (stored c p)"
    using assms by (cases c) (auto simp: param_whole_def pointed_def split: option.splits)
  show "string_type (param_type (stored c p)) \<Longrightarrow> param_length (stored c p) \<le> ATTACHSQL_STMT_EXEC_DEFAULT_SIZE"
    using assms by (cases c) (simp_all add: string_type_def)
qed

end
