(* ===== verification/Prepared.thy ===== *)
theory Prepared
  imports Execution Setters
begin

text \<open>
  The life of a prepared statement: it is prepared, its parameters are set by any sequence of calls of
  the setters, and it is executed.
\<close>

section \<open>What the setters leave alone\<close>

text \<open>All but the values of the parameters, of which there are as many as before.\<close>

definition set_frame :: "attachsql_connect_t \<Rightarrow> attachsql_connect_t \<Rightarrow> bool" where
  "set_frame con con' \<longleftrightarrow> con'\<lparr>con_stmt := None\<rparr> = con\<lparr>con_stmt := None\<rparr> \<and>
     map_option (\<lambda>s. s\<lparr>param_data := None\<rparr>) (con_stmt con') = map_option (\<lambda>s. s\<lparr>param_data := None\<rparr>) (con_stmt con) \<and>
     map_option (\<lambda>s. map_option length (param_data s)) (con_stmt con') = map_option (\<lambda>s. map_option length (param_data s)) (con_stmt con)"

lemma set_frame_refl: "set_frame con con"
  by (simp add: set_frame_def)

lemma set_frame_trans: "set_frame a b \<Longrightarrow> set_frame b c \<Longrightarrow> set_frame a c"
  by (simp add: set_frame_def)

lemma store_param_frame: "store_param i f e con = Some (r, e', Some con') \<Longrightarrow> set_frame con con'"
  by (auto simp: store_param_def set_param_at_def set_frame_def elim!: bind_SomeE split: if_splits)

lemma with_param_frame:
  assumes "with_param (Some con) i e g = Some (r, e', Some con')" "allocs con = []"
    and "g con = Some (r, e', Some con') \<Longrightarrow> set_frame con con'"
  shows "set_frame con con'"
proof -
  have fail: "set_frame con c" if "fail_with r code st msg e con = Some (r', e2, Some c)" for r' code st msg e2 and c and r :: bool
    using that assms(2) by (auto simp: set_frame_refl fail_with_def client_error_def alloc_def Let_def split: if_splits prod.splits elim!: bind_SomeE)
  show ?thesis using assms(1,3) by (auto simp: with_param_def split: option.splits if_splits intro: fail)
qed

lemma set_step_frame:
  assumes "set_step con con'" "allocs con = []" shows "set_frame con con'"
proof -
  have a: "alloc con = (True, con)" using assms(2) by (simp add: alloc_def)
  show ?thesis using assms(1)
    by (rule set_stepE)
       (auto simp: attachsql_statement_set_int_def attachsql_statement_set_unsigned_int_def attachsql_statement_set_bigint_def
          attachsql_statement_set_unsigned_bigint_def attachsql_statement_set_double_def attachsql_statement_set_string_def
          attachsql_statement_set_binary_def attachsql_statement_set_null_def attachsql_statement_set_datetime_def
          attachsql_statement_set_time_def attachsql_statement_set_param_def string_type_def a
        elim!: with_param_frame[OF _ assms(2)] store_param_frame split: prod.splits)
qed

lemma set_steps_frame: "set_step\<^sup>*\<^sup>* con con' \<Longrightarrow> allocs con = [] \<Longrightarrow> set_frame con con'"
proof (induction rule: rtranclp_induct)
  case base
  show ?case by (rule set_frame_refl)
next
  case (step b c)
  then have "set_frame con b" by simp
  moreover have "allocs b = []" using arg_cong[of _ _ allocs, OF conjunct1[OF calculation[unfolded set_frame_def]]] step.prems by simp
  ultimately show ?case using set_frame_trans set_step_frame step.hyps(2) by blast
qed

section \<open>From prepared to ready\<close>

lemma set_frame_fields:
  assumes "set_frame con con'"
  shows "queue_fields con' = queue_fields con" "allocs con' = allocs con" "writer con' = writer con" "con_status con' = con_status con"
    "read_buffer con' = read_buffer con" "opt_compression con' = opt_compression con" "in_query con' = in_query con"
    "con_pool con' = con_pool con" "con_row con' = con_row con" "row_buffer_alloc_size con' = row_buffer_alloc_size con"
    "buffer_rows con' = buffer_rows con" "stmt_row con' = stmt_row con" "uv_events con' = uv_events con"
proof -
  have f: "con'\<lparr>con_stmt := None\<rparr> = con\<lparr>con_stmt := None\<rparr>" using assms by (simp add: set_frame_def)
  show "queue_fields con' = queue_fields con" "allocs con' = allocs con" "writer con' = writer con" "con_status con' = con_status con"
    "read_buffer con' = read_buffer con" "opt_compression con' = opt_compression con" "in_query con' = in_query con"
    "con_pool con' = con_pool con" "con_row con' = con_row con" "row_buffer_alloc_size con' = row_buffer_alloc_size con"
    "buffer_rows con' = buffer_rows con" "stmt_row con' = stmt_row con" "uv_events con' = uv_events con"
    using arg_cong[OF f, of queue_fields] arg_cong[OF f, of allocs] arg_cong[OF f, of writer] arg_cong[OF f, of con_status]
      arg_cong[OF f, of read_buffer] arg_cong[OF f, of opt_compression] arg_cong[OF f, of in_query] arg_cong[OF f, of con_pool]
      arg_cong[OF f, of con_row] arg_cong[OF f, of row_buffer_alloc_size] arg_cong[OF f, of buffer_rows]
      arg_cong[OF f, of stmt_row] arg_cong[OF f, of uv_events]
    by (simp_all add: queue_fields_def writer_def)
qed

text \<open>A parameter the caller has set, of a length the buffer of the statement holds.\<close>

definition param_set :: "attachsql_stmt_param_st \<Rightarrow> bool" where
  "param_set p \<longleftrightarrow> param_type p \<noteq> ATTACHSQL_COLUMN_TYPE_NULL \<and> param_whole p \<and> \<not> is_long_data p \<and>
     (string_type (param_type p) \<longrightarrow> param_length p \<le> ATTACHSQL_STMT_EXEC_DEFAULT_SIZE)"

lemma set_statement_ready:
  assumes idle: "session_ready con" "stmt_array_ok k con" and stmt: "con_stmt con = Some stmt"
      "if n = 0 then param_data stmt = None else param_data stmt = Some (replicate n param_init)" "unat (param_count stmt) = n"
      "exec_buffer stmt = None" "exec_buffer_length stmt = 0"
    and set: "set_step\<^sup>*\<^sup>* con con'" and stmt': "con_stmt con' = Some stmt'"
    and ps: "length ps = n" "n \<noteq> 0 \<longrightarrow> param_data stmt' = Some ps" "\<forall>p \<in> set ps. param_set p"
      "length (exec_payload stmt' ps) \<le> ATTACHSQL_STMT_EXEC_DEFAULT_SIZE"
  shows "statement_ready ps k con'"
proof -
  have calm: "allocs con = []" using idle(1) by (simp add: session_ready_def session_idle_def query_ready_def calm_def)
  note fr = set_steps_frame[OF set calm]
  note f = set_frame_fields[OF fr]
  have e: "stmt'\<lparr>param_data := None\<rparr> = stmt\<lparr>param_data := None\<rparr>" using fr stmt(1) stmt' by (simp add: set_frame_def)
  have s: "param_count stmt' = param_count stmt" "exec_buffer stmt' = None" "exec_buffer_length stmt' = 0"
    using arg_cong[OF e, of param_count] arg_cong[OF e, of exec_buffer] arg_cong[OF e, of exec_buffer_length] stmt(4,5) by simp_all
  have "params_typed con"
  proof (cases "n = 0")
    case True
    then show ?thesis using stmt(1,2) by (simp add: params_typed_def)
  next
    case False
    then show ?thesis using params_fresh[OF stmt(1)] stmt(2) by simp
  qed
  then have "params_typed con'" by (rule set_steps_typed[OF set])
  then have "\<forall>p \<in> set ps. param_typed p" using ps(1,2) stmt' by (cases "n = 0") (auto simp: params_typed_def list_all_iff)
  then have "\<forall>p \<in> set ps. param_bound ATTACHSQL_STMT_EXEC_DEFAULT_SIZE p" using ps(3) by (simp add: param_bound_def param_set_def)
  moreover have "exec_room stmt' ATTACHSQL_STMT_EXEC_DEFAULT_SIZE" using s(2,3) by (simp add: exec_room_def)
  ultimately have ready: "exec_ready stmt' ps" using ps(4) unfolding exec_ready_def by blast
  have "session_idle con'" by (rule idle_frame[OF _ f(1-10)]) (use idle(1) in \<open>simp add: session_ready_def\<close>)
  then have "session_ready con'" using idle(1) f(11) by (simp add: session_ready_def)
  moreover have "stmt_array_ok k con'" using idle(2) f(2,12) by (simp add: stmt_array_ok_def alloc_def split: option.splits list.splits)
  ultimately show ?thesis using stmt' ready ps(1,2) stmt(3) s(1) by (auto simp: statement_ready_def)
qed

section \<open>What is sent\<close>

lemma bound_params:
  assumes "all_bound n calls" "i < n"
  shows "param_set (fold store_at calls (replicate n param_init) ! i)"
    "le_bytes 2 (type_word (fold store_at calls (replicate n param_init) ! i)) = le_bytes 2 (bound_type (calls_for i calls))"
    "param_bytes (fold store_at calls (replicate n param_init) ! i) = call_wire (last (calls_for i calls))"
proof -
  let ?p = "fold store_at calls (replicate n param_init) ! i" and ?cs = "calls_for i calls"
  have cs: "?cs \<noteq> []" "call_good (last ?cs)" using assms by (simp_all add: all_bound_def)
  have p: "?p = fold stored ?cs param_init"
    using fold_store_nth[of calls "replicate n param_init" i] assms by (simp add: all_bound_def)
  have flags: "is_unsigned ?p = last_sign ?cs False" "\<not> is_long_data ?p"
    unfolding p by (simp_all add: fold_stored_sign fold_stored_whole param_init_def)
  obtain q where q: "?p = stored (last ?cs) q" using fold_stored_last[OF cs(1), of param_init] p by auto
  note w = stored_wire[OF cs(2), of q, folded q]
  show "param_set ?p" using w(2,4,5) flags(2) by (simp add: param_set_def)
  show "le_bytes 2 (type_word ?p) = le_bytes 2 (bound_type ?cs)"
    using w(1) flags(1) by (simp add: type_word_def bound_type_def)
  show "param_bytes ?p = call_wire (last ?cs)" by (rule w(3))
qed

lemma bound_payload:
  assumes "all_bound n calls" "stmt_id stmt = sid" "unat (param_count stmt) = n" "new_bind stmt"
  shows "exec_payload stmt (fold store_at calls (replicate n param_init)) = execute_payload sid n calls"
proof -
  let ?ps = "fold store_at calls (replicate n param_init)"
  have m: "map f ?ps = map (\<lambda>i. f (?ps ! i)) [0..<n]" for f :: "attachsql_stmt_param_st \<Rightarrow> byte list"
    by (rule nth_equalityI) simp_all
  have "types_bytes ?ps = concat (map (\<lambda>i. le_bytes 2 (bound_type (calls_for i calls))) [0..<n])"
    "values_bytes ?ps = concat (map (\<lambda>i. call_wire (last (calls_for i calls))) [0..<n])"
    unfolding types_bytes_def values_bytes_def m
    by (intro arg_cong[of _ _ concat] map_cong refl bound_params[OF assms(1)]; simp)+
  then show ?thesis using assms(2-4) by (simp add: exec_payload_def exec_bytes_def execute_payload_def)
qed

section \<open>Property\<close>

text \<open>
  C6. A prepared statement from preparing it to the end of its rows: the statement is prepared and the poll
  reports the end; then, whatever calls of the setters follow, in whatever order and however often for a parameter, once
  every parameter has a value that is not NULL and all fit in the buffer, executing the statement sends for each parameter
  the type and the value, byte for byte, that the last call for it was given; the rows of the answer are read in order, and
  the statement is ready to be executed again.
\<close>

theorem prepared_session:
  assumes "session_ready con" "stmt_array_ok (length cs) con" "len \<le> length statement"
    and "uv_events con = [Received wanted (prepare_stream 1 sid warnings catalog defs w1 s1 cols w2 s2)] #
      [Received wanted' (stmt_answer catalog' cs rows w3 s3 w4 s4)] # later"
    and "length (prepare_stream 1 sid warnings catalog defs w1 s1 cols w2 s2) + wanted \<le> capacity con"
    and "length (stmt_answer catalog' cs rows w3 s3 w4 s4) + wanted' \<le> capacity con"
    and "prepare_good catalog defs cols" "stmt_answer_good catalog' cs rows"
    and "all_bound (length defs) calls" "length (execute_payload sid (length defs) calls) \<le> ATTACHSQL_STMT_EXEC_DEFAULT_SIZE"
  shows "\<exists>con1 con2 con3 con4 con5 con6 con7.
    attachsql_statement_prepare con len statement (Some e) = Some (True, Some e, Some con1) \<and>
    sent con1 = sent con @ [packet 0 (command_code ATTACHSQL_COMMAND_STMT_PREPARE # take len statement)] \<and>
    attachsql_connect_poll (Some con1) (Some e) = Some (ATTACHSQL_RETURN_EOF, Some e, Some con2) \<and>
    unat (attachsql_statement_get_param_count (Some con2)) = length defs \<and>
    call_setters calls con2 (Some e) = Some con3 \<and>
    attachsql_statement_execute (Some con3) (Some e) = Some (True, Some e, Some con4) \<and>
    sent con4 = sent con1 @ [packet 0 (command_code ATTACHSQL_COMMAND_STMT_EXECUTE # execute_payload sid (length defs) calls)] \<and>
    attachsql_connect_poll (Some con4) (Some e) = Some (ATTACHSQL_RETURN_ROW_READY, Some e, Some con5) \<and>
    fetch_statement_rows (length rows) con5 = Some (map (map Some \<circ> row_shown (map c_type cs)) rows, con6) \<and>
    attachsql_connect_poll (Some con6) (Some e) = Some (ATTACHSQL_RETURN_EOF, Some e, Some con7) \<and>
    (\<exists>ps. statement_ready ps (length cs) con7) \<and> uv_events con7 = later \<and> capacity con7 = capacity con"
proof -
  let ?n = "length defs" and ?ps = "fold store_at calls (replicate (length defs) param_init)"
  have idle: "session_idle con" "\<not> buffer_rows con" using assms(1) by (simp_all add: session_ready_def)
  obtain con1 con2 stmt where c: "attachsql_statement_prepare con len statement (Some e) = Some (True, Some e, Some con1)"
    "sent con1 = sent con @ [packet 0 (command_code ATTACHSQL_COMMAND_STMT_PREPARE # take len statement)]"
    "attachsql_connect_poll (Some con1) (Some e) = Some (ATTACHSQL_RETURN_EOF, Some e, Some con2)"
    "con_stmt con2 = Some stmt" "stmt_id stmt = sid" "param_count stmt = of_nat ?n"
    "if defs = [] then stmt_params stmt = None \<and> param_data stmt = None
     else stmt_params stmt = Some (map Some (columns_read 2 catalog defs (eof_payload w1 s1))) \<and>
          param_data stmt = Some (replicate ?n param_init)"
    "exec_buffer stmt = None" "exec_buffer_length stmt = 0" "new_bind stmt" "session_idle con2" "buffer_rows con2 = buffer_rows con"
    "stmt_row con2 = stmt_row con" "uv_events con2 = [Received wanted' (stmt_answer catalog' cs rows w3 s3 w4 s4)] # later"
    "sent con2 = sent con1" "capacity con2 = capacity con"
    using statement_prepared_ok[OF idle(1) assms(3,4,5,7), of e] by blast
  have ready: "session_ready con2" "allocs con2 = []"
    using c(11,12) idle(2) by (simp_all add: session_ready_def session_idle_def query_ready_def calm_def)
  have arr: "stmt_array_ok (length cs) con2" using assms(2) c(13) ready(2) by (simp add: stmt_array_ok_def alloc_def split: option.splits)
  have "?n < 2 ^ 16" using assms(7) by (simp add: prepare_good_def)
  then have n: "unat (param_count stmt) = ?n" using c(6) by (simp add: unat_of_nat take_bit_nat_eq_self)
  have data: "if ?n = 0 then param_data stmt = None else param_data stmt = Some (replicate ?n param_init)"
    using c(7) by (simp split: if_splits)
  have range: "\<forall>x \<in> set calls. unat (call_param x) < ?n" using assms(9) by (simp add: all_bound_def)
  obtain con3 stmt' where set: "call_setters calls con2 (Some e) = Some con3" "set_step\<^sup>*\<^sup>* con2 con3" "con_stmt con3 = Some stmt'"
    "?n \<noteq> 0 \<longrightarrow> param_data stmt' = Some ?ps"
  proof (cases "?n = 0")
    case True
    then have "calls = []" using range by (cases calls) auto
    then show ?thesis using that[of con2 stmt] c(4) True by simp
  next
    case False
    then show ?thesis using call_setters_ok[OF c(4), of "replicate ?n param_init" calls "Some e"] data range n ready(2) that by auto
  qed
  note fr = set_steps_frame[OF set(2) ready(2)]
  have same: "stmt'\<lparr>param_data := None\<rparr> = stmt\<lparr>param_data := None\<rparr>" using fr c(4) set(3) by (simp add: set_frame_def)
  have pay: "exec_payload stmt' ?ps = execute_payload sid ?n calls"
    using bound_payload[OF assms(9), of stmt'] arg_cong[OF same, of stmt_id] arg_cong[OF same, of param_count]
      arg_cong[OF same, of new_bind] c(5,10) n by simp
  have bound: "\<forall>p \<in> set ?ps. param_set p" using bound_params(1)[OF assms(9)] by (auto simp: in_set_conv_nth)
  have len: "length ?ps = ?n" by simp
  have st: "statement_ready ?ps (length cs) con3"
    by (rule set_statement_ready[OF ready(1) arr c(4) data n c(8,9) set(2,3) len set(4) bound]) (use pay assms(10) in simp)
  have ev: "uv_events con3 = [Received wanted' (stmt_answer catalog' cs rows w3 s3 w4 s4)] # later"
    using set_frame_fields(13)[OF fr] c(14) by simp
  have room: "capacity con3 = capacity con" using set_frame_fields(5)[OF fr] c(16) by (simp add: capacity_def)
  then have fits: "length (stmt_answer catalog' cs rows w3 s3 w4 s4) + wanted' \<le> capacity con3" using assms(6) by simp
  have "sent con3 = sent con1" using set_frame_fields(3)[OF fr] c(15) by (simp add: writer_def)
  then obtain con4 con5 con6 con7 where x:
    "attachsql_statement_execute (Some con3) (Some e) = Some (True, Some e, Some con4)"
    "sent con4 = sent con1 @ [packet 0 (command_code ATTACHSQL_COMMAND_STMT_EXECUTE # execute_payload sid ?n calls)]"
    "attachsql_connect_poll (Some con4) (Some e) = Some (ATTACHSQL_RETURN_ROW_READY, Some e, Some con5)"
    "fetch_statement_rows (length rows) con5 = Some (map (map Some \<circ> row_shown (map c_type cs)) rows, con6)"
    "attachsql_connect_poll (Some con6) (Some e) = Some (ATTACHSQL_RETURN_EOF, Some e, Some con7)"
    "statement_ready ?ps (length cs) con7" "uv_events con7 = later" "capacity con7 = capacity con"
    using statement_executed[OF st set(3) ev assms(8) fits, of e] room pay by auto
  moreover have "unat (attachsql_statement_get_param_count (Some con2)) = ?n"
    using c(4) n by (simp add: attachsql_statement_get_param_count_def)
  ultimately show ?thesis using c(1-3) set(1) by blast
qed

definition prepared_con :: attachsql_connect_t where
  "prepared_con = session_con\<lparr>uv_events :=
     [[Received 16 (prepare_stream 1 7 0 [0x64, 0x65, 0x66] [sample_column, sample_column] 0 0 [[1, 2, 3]] 0 2)],
      [Received 16 (stmt_answer [0x64, 0x65, 0x66] [sample_column] [[Some (le_bytes 4 (298 :: uint32))], [None]] 0 0 0 2)]]\<rparr>"

text \<open>The first parameter is set twice, an unsigned number and then 5; the second to the two bytes of a string.\<close>

theorem prepared_session_witness:
  "\<exists>con1 con2 con3 con4 con5 con6.
    attachsql_statement_prepare prepared_con 12 (str ''SELECT ? + ?'') (Some None) = Some (True, Some None, Some con1) \<and>
    attachsql_connect_poll (Some con1) (Some None) = Some (ATTACHSQL_RETURN_EOF, Some None, Some con2) \<and>
    call_setters [SetUnsignedInt 0 300, SetString 1 2 (Some [0x61, 0x62, 0x63]), SetInt 0 5] con2 (Some None) = Some con3 \<and>
    attachsql_statement_execute (Some con3) (Some None) = Some (True, Some None, Some con4) \<and>
    sent con4 = sent con1 @ [packet 0 ([0x17] @ [7, 0, 0, 0, 0, 1, 0, 0, 0, 0, 1] @ [3, 0, 0xfe, 0] @ [5, 0, 0, 0] @ [2, 0x61, 0x62])] \<and>
    attachsql_connect_poll (Some con4) (Some None) = Some (ATTACHSQL_RETURN_ROW_READY, Some None, Some con5) \<and>
    fetch_statement_rows 2 con5 = Some ([[Some (ATTACHSQL_COLUMN_TYPE_LONG, [42, 1, 0, 0])],
      [Some (ATTACHSQL_COLUMN_TYPE_NULL, [])]], con6)"
proof -
  let ?rows = "[[Some (le_bytes 4 (298 :: uint32))], [None]]" and ?defs = "[sample_column, sample_column]"
  let ?p = "prepare_stream 1 7 0 [0x64, 0x65, 0x66] ?defs 0 0 [[1, 2, 3]] 0 2"
  let ?s = "stmt_answer [0x64, 0x65, 0x66] [sample_column] ?rows 0 0 0 2"
  let ?calls = "[SetUnsignedInt 0 300, SetString 1 2 (Some [0x61, 0x62, 0x63]), SetInt 0 5]"
  have f: "\<not> buffer_rows session_con" "stmt_row session_con = None" "session_idle session_con"
    using session_con_ready
    by (simp_all add: session_ready_def session_con_def query_con_def stmt_con_def connect_init_def con_core.defs)
  have "session_idle prepared_con"
    by (rule idle_frame[OF f(3)]) (simp_all add: prepared_con_def queue_fields_def writer_def)
  then have ready: "session_ready prepared_con" "stmt_array_ok (length [sample_column]) prepared_con"
    using f(1,2)
    by (simp_all add: session_ready_def prepared_con_def stmt_array_ok_def alloc_def session_idle_def query_ready_def calm_def)
  have ev: "uv_events prepared_con = [Received 16 ?p] # [Received 16 ?s] # []" by (simp add: prepared_con_def)
  have st: "12 \<le> length (str ''SELECT ? + ?'')" by (simp add: str_def)
  have good: "prepare_good [0x64, 0x65, 0x66] ?defs [[1, 2, 3]]"
    using sample_column_good by (simp add: prepare_good_def column_short_def sample_column_length)
  have cap: "capacity prepared_con = 4096" by (simp add: prepared_con_def session_con_def capacity_def packet_buffer_def)
  have room: "length ?p + 16 \<le> capacity prepared_con" "length ?s + 16 \<le> capacity prepared_con"
    using sample_stmt_answer(2) unfolding cap
    by (simp_all add: prepare_stream_def params_part_def columns_part_def packet_def prepared_payload_length eof_payload_def
        sample_column_length)
  have for_: "calls_for 0 ?calls = [SetUnsignedInt 0 300, SetInt 0 5]"
    "calls_for (Suc 0) ?calls = [SetString 1 2 (Some [0x61, 0x62, 0x63])]"
    by (simp_all add: calls_for_def)
  have bound: "all_bound (length ?defs) ?calls"
    unfolding all_bound_def using for_ by (auto simp: less_Suc_eq pointed_def)
  have pay: "execute_payload 7 (length ?defs) ?calls =
      [7, 0, 0, 0, 0, 1, 0, 0, 0, 0, 1] @ [3, 0, 0xfe, 0] @ [5, 0, 0, 0] @ [2, 0x61, 0x62]"
    using for_ by (simp add: execute_payload_def bound_type_def pointed_def enc_length_def le_bytes_2 le_bytes_4)
  have n: "length ?rows = 2" by simp
  have small: "length (execute_payload 7 (length ?defs) ?calls) \<le> ATTACHSQL_STMT_EXEC_DEFAULT_SIZE" unfolding pay by simp
  from prepared_session[OF ready st ev room good sample_stmt_answer(1) bound small, of None,
      unfolded sample_stmt_answer(3) pay n]
  show ?thesis by (elim exE conjE) (intro exI conjI, assumption+, simp)
qed

end
