(* ===== verification/Examples.thy ===== *)
theory Examples
  imports Login Buffered Prepared
begin

text \<open>
  Programs that use the library, \<open>src/examples\<close>: a query whose rows are printed one by one, with and
  without parameters, and a query whose rows are buffered. Each begins with a connection that has not
  been made, so that the query waits until the server has accepted the login. The result of a program
  is what it prints and what the server is sent; a program without a result has undefined behaviour or
  does not end. The object \<open>new\<close> delivers for the connection is a parameter.
\<close>

section \<open>Printing\<close>

text \<open>\<open>printf\<close> with a precision: at most so many bytes, and none from a NUL on. A negative one counts as none given.\<close>

definition print_value :: "attachsql_connect_t \<Rightarrow> attachsql_query_row_st \<Rightarrow> byte list option" where
  "print_value con v =
     do { bytes \<leftarrow> value_bytes con v;
          if length bytes < 2 ^ 31 then Some (takeWhile (\<lambda>c. c \<noteq> 0) bytes @ [0x20]) else None }"

definition print_row :: "nat \<Rightarrow> con_ptr \<Rightarrow> attachsql_query_row_st list option \<Rightarrow> byte list option" where
  "print_row columns c row =
     (if columns = 0 then Some [0x0A]
      else do { con \<leftarrow> c;
                vs \<leftarrow> row;
                if columns \<le> length vs
                then map_option (\<lambda>texts. concat texts @ [0x0A]) (those (map (print_value con) (take columns vs)))
                else None })"

definition print_error :: "error_ptr \<Rightarrow> byte list" where
  "print_error error =
     (case error of
        Some (Some e) \<Rightarrow> str ''Error occurred: '' @ takeWhile (\<lambda>c. c \<noteq> 0) (err_msg e)
      | _ \<Rightarrow> [])"

definition row_line :: "byte list list \<Rightarrow> byte list" where
  "row_line vs = concat (map (\<lambda>v. takeWhile (\<lambda>c. c \<noteq> 0) v @ [0x20]) vs) @ [0x0A]"

lemma those_some: "those (map f xs) = Some ys \<longleftrightarrow> map f xs = map Some ys"
  by (induction xs arbitrary: ys) (auto split: option.splits)

lemma value_in_payload: "v \<in> set vs \<Longrightarrow> length v \<le> length (row_payload vs)"
  by (induction vs) (auto simp: row_payload_def enc_string_def)

lemma row_printed:
  assumes "map (value_bytes con) row = map Some vs" "row_good n vs"
  shows "print_row n (Some con) (Some row) = Some (row_line vs)"
proof -
  have l: "length row = n" "length vs = n" "n \<noteq> 0"
    using arg_cong[OF assms(1), of length] assms(2) by (cases vs; simp add: row_good_def)+
  have "length v < 2 ^ 31" if "v \<in> set vs" for v
    using value_in_payload[OF that] assms(2) by (simp add: row_good_def)
  then have "map (print_value con) row = map Some (map (\<lambda>v. takeWhile (\<lambda>c. c \<noteq> 0) v @ [0x20]) vs)"
    using assms(1) by (induction vs arbitrary: row) (auto simp: print_value_def)
  then have "those (map (print_value con) row) = Some (map (\<lambda>v. takeWhile (\<lambda>c. c \<noteq> 0) v @ [0x20]) vs)"
    by (simp only: those_some)
  then show ?thesis using l by (simp add: print_row_def row_line_def)
qed

section \<open>The loop of a query\<close>

definition query_turn :: "error_ptr \<Rightarrow> con_ptr \<Rightarrow> (byte list \<times> attachsql_return_t \<times> error_ptr \<times> con_ptr) option" where
  "query_turn error c =
     do { (ret, error, c) \<leftarrow> attachsql_connect_poll c error;
          if ret \<noteq> ATTACHSQL_RETURN_ROW_READY then Some ([], ret, error, c)
          else do {
            (row, error, c) \<leftarrow> attachsql_query_row_get c error;
            text \<leftarrow> print_row (unat (attachsql_query_column_count c)) c row;
            c \<leftarrow> attachsql_query_row_next c;
            Some (text, ret, error, c) } }"

partial_function (option) query_loop ::
  "attachsql_return_t \<Rightarrow> error_ptr \<Rightarrow> con_ptr \<Rightarrow> (byte list \<times> error_ptr \<times> con_ptr) option" where
  "query_loop ret error c =
     (if ret = ATTACHSQL_RETURN_EOF \<or> error \<noteq> Some None then Some ([], error, c)
      else Option.bind (query_turn error c) (\<lambda>x.
        Option.bind (query_loop (fst (snd x)) (fst (snd (snd x))) (snd (snd (snd x)))) (\<lambda>y.
          Some (fst x @ fst y, snd y))))"

lemma query_loop_end: "query_loop ATTACHSQL_RETURN_EOF error c = Some ([], error, c)"
  by (subst query_loop.simps) simp

lemma query_loop_turn:
  assumes "ret \<noteq> ATTACHSQL_RETURN_EOF" "query_turn (Some None) c = Some (text, ret', error, c')" "query_loop ret' error c' = Some (out, r)"
  shows "query_loop ret (Some None) c = Some (text @ out, r)"
  using assms by (subst query_loop.simps) simp

lemma quiet_turn:
  assumes "attachsql_connect_poll c (Some None) = Some (ret, error, c')" "ret \<noteq> ATTACHSQL_RETURN_ROW_READY"
  shows "query_turn (Some None) c = Some ([], ret, error, c')"
  using assms by (simp add: query_turn_def)

lemma printed_turn:
  assumes "poll_idle con (Some None) = Some (ATTACHSQL_RETURN_ROW_READY, Some None, Some con)" "attachsql_connect_poll c (Some None) = poll_idle con (Some None)"
    and "attachsql_query_row_get (Some con) (Some None) = Some (Some row, Some None, Some con1)"
    and "map (value_bytes con1) row = map Some vs" "column_count (con_result con1) = n" "row_good (unat n) vs"
    and "attachsql_query_row_next (Some con1) = Some (Some con2)"
  shows "query_turn (Some None) c = Some (row_line vs, ATTACHSQL_RETURN_ROW_READY, Some None, Some con2)"
  using assms row_printed[OF assms(4,6)] by (simp add: query_turn_def attachsql_query_column_count_def)

lemma same_session_fields:
  "same_session con con' \<Longrightarrow> server_errno con' = server_errno con \<and> con_pool con' = con_pool con"
  by (simp add: same_session_def same_core_def client_view_def)

lemma rows_printed:
  assumes "row_held (row_payload r) (row_stream (packet_number con + 1) rs (eof_payload warnings sstatus)) con"
    and "\<forall>row \<in> set (r # rs). row_good (unat (column_count (con_result con))) row"
    and "unat (packet_number con) + length rs + 1 < 128" "\<not> buffer_rows con" "row_array_ok (length r) con"
    and "server_errno con = 0" "con_pool con = None"
    and "attachsql_connect_poll c (Some None) = poll_idle con (Some None)" "ret \<noteq> ATTACHSQL_RETURN_EOF"
  shows "\<exists>con'. query_loop ret (Some None) c = Some (concat (map row_line (r # rs)), Some None, Some (at_end con')) \<and>
    con_status con' = ATTACHSQL_CON_STATUS_IDLE \<and> command_status con' = ATTACHSQL_COMMAND_STATUS_EOF \<and>
    server_status con' = sstatus \<and> expects_none con' \<and> unread con' [] \<and> same_session con con'"
  using assms
proof (induction rs arbitrary: r con c ret)
  case Nil
  have r: "row_good (unat (column_count (con_result con))) r" "unat (packet_number con) + 1 < 128" using Nil.prems(2,3) by simp_all
  have held: "row_held (row_payload r) (packet (packet_number con + 1) (eof_payload warnings sstatus) @ []) con" using Nil.prems(1) by simp
  obtain row con1 con2 where g: "attachsql_query_row_get (Some con) (Some None) = Some (Some row, Some None, Some con1)"
    "map (value_bytes con1) row = map Some r" "column_count (con_result con1) = column_count (con_result con)"
    "attachsql_query_row_next (Some con1) = Some (Some con2)"
    "con_status con2 = ATTACHSQL_CON_STATUS_IDLE" "command_status con2 = ATTACHSQL_COMMAND_STATUS_EOF"
    "server_status con2 = sstatus" "warning_count con2 = warnings" "expects_none con2" "unread con2 []" "same_session con con2"
    using row_then_eof[OF held r Nil.prems(4,5)] .
  have ready: "poll_idle con (Some None) = Some (ATTACHSQL_RETURN_ROW_READY, Some None, Some con)"
    using Nil.prems(1,4) by (intro poll_row_ready[OF _ Nil.prems(6,7)]) (simp_all add: row_held_def)
  have "attachsql_connect_poll (Some con2) (Some None) = Some (ATTACHSQL_RETURN_EOF, Some None, Some (at_end con2))"
    using poll_resting[OF g(5)] g(6) same_session_fields[OF g(11)] Nil.prems(6,7) send_event_alone by (simp add: poll_idle_def at_end_def)
  from query_loop_turn[OF _ quiet_turn[OF this] query_loop_end]
  have "query_loop ATTACHSQL_RETURN_ROW_READY (Some None) (Some con2) = Some ([], Some None, Some (at_end con2))" by simp
  then show ?case
    using query_loop_turn[OF Nil.prems(9) printed_turn[OF ready Nil.prems(8) g(1-3) r(1) g(4)]] g(5-11) by (intro exI[of _ con2]) simp
next
  case (Cons r' rs)
  have r: "row_good (unat (column_count (con_result con))) r" "row_good (unat (column_count (con_result con))) r'"
    using Cons.prems(2) by simp_all
  have held: "row_held (row_payload r) (row_stream (packet_number con + 1) (r' # rs) (eof_payload warnings sstatus) @ []) con"
    using Cons.prems(1) by simp
  obtain row con1 con2 where g: "attachsql_query_row_get (Some con) (Some None) = Some (Some row, Some None, Some con1)"
    "map (value_bytes con1) row = map Some r" "column_count (con_result con1) = column_count (con_result con)"
    "attachsql_query_row_next (Some con1) = Some (Some con2)"
    "row_held (row_payload r') (row_stream (packet_number con2 + 1) rs (eof_payload warnings sstatus) @ []) con2"
    "column_count (con_result con2) = column_count (con_result con)" "unat (packet_number con2) + length rs + 1 < 128"
    "row_array_ok (length r') con2" "same_session con con2" "\<not> buffer_rows con2"
    using row_then_row[OF held r Cons.prems(3-5)] .
  have ready: "poll_idle con (Some None) = Some (ATTACHSQL_RETURN_ROW_READY, Some None, Some con)"
    using Cons.prems(1,4) by (intro poll_row_ready[OF _ Cons.prems(6,7)]) (simp_all add: row_held_def)
  have f: "server_errno con2 = 0" "con_pool con2 = None" using same_session_fields[OF g(9)] Cons.prems(6,7) by simp_all
  have "con_status con2 = ATTACHSQL_CON_STATUS_IDLE" using g(5) by (simp add: row_held_def)
  then have poll: "attachsql_connect_poll (Some con2) (Some None) = poll_idle con2 (Some None)" by (rule poll_resting)
  have held2: "row_held (row_payload r') (row_stream (packet_number con2 + 1) rs (eof_payload warnings sstatus)) con2" using g(5) by simp
  have good2: "\<forall>row \<in> set (r' # rs). row_good (unat (column_count (con_result con2))) row" using Cons.prems(2) g(6) by simp
  obtain con' where l: "query_loop ATTACHSQL_RETURN_ROW_READY (Some None) (Some con2) =
      Some (concat (map row_line (r' # rs)), Some None, Some (at_end con'))"
    "con_status con' = ATTACHSQL_CON_STATUS_IDLE" "command_status con' = ATTACHSQL_COMMAND_STATUS_EOF"
    "server_status con' = sstatus" "expects_none con'" "unread con' []" "same_session con2 con'"
    using Cons.IH[OF held2 good2 g(7,10,8) f poll, of ATTACHSQL_RETURN_ROW_READY] by auto
  show ?case
    using query_loop_turn[OF Cons.prems(9) printed_turn[OF ready Cons.prems(8) g(1-3) r(1) g(4)] l(1)] l(2-6)
      same_session_trans[OF g(9) l(7)] by (intro exI[of _ con']) simp
qed

section \<open>The programs\<close>

definition example_connect :: "attachsql_connect_t \<Rightarrow> con_ptr option" where
  "example_connect fresh =
     map_option snd (attachsql_connect_create fresh (Some (str ''localhost'')) 3306 (Some (str ''test'')) (Some (str ''test''))
       (Some (str ''testdb'')) None)"

definition close_query :: "con_ptr \<Rightarrow> con_ptr option" where
  "close_query c = (case c of None \<Rightarrow> Some None | Some con \<Rightarrow> map_option Some (attachsql_query_close con))"

definition wire :: "con_ptr \<Rightarrow> byte list list" where
  "wire c = (case c of None \<Rightarrow> [] | Some con \<Rightarrow> sent con)"

definition query_program ::
  "byte list \<Rightarrow> attachsql_query_parameter_st list \<Rightarrow> attachsql_connect_t \<Rightarrow> (byte list \<times> byte list list) option" where
  "query_program statement params fresh =
     do { c \<leftarrow> example_connect fresh;
          (_, error, c) \<leftarrow> attachsql_query c (length statement) statement (of_nat (length params)) params (Some None);
          (out, error, c) \<leftarrow> query_loop ATTACHSQL_RETURN_NONE error c;
          c \<leftarrow> close_query c;
          _ \<leftarrow> attachsql_connect_destroy c;
          Some (out @ print_error error, wire c) }"

definition basic_query_main :: "attachsql_connect_t \<Rightarrow> (byte list \<times> byte list list) option" where
  "basic_query_main = query_program (str ''SELECT * FROM t1 WHERE name='' @ [0x27] @ str ''fred'' @ [0x27]) []"

text \<open>Members of the parameters that are not set are never read; 0 and \<open>False\<close> stand for them.\<close>

definition escaped_query_main :: "attachsql_connect_t \<Rightarrow> (byte list \<times> byte list list) option" where
  "escaped_query_main = query_program (str ''SELECT * FROM t1 WHERE name = ? AND age > ?'')
     [\<lparr>q_type = ATTACHSQL_ESCAPE_TYPE_CHAR, q_data = str ''fred'', q_length = 4, q_is_unsigned = False\<rparr>,
      \<lparr>q_type = ATTACHSQL_ESCAPE_TYPE_INT, q_data = le_bytes 4 (30 :: uint32), q_length = 0, q_is_unsigned = True\<rparr>]"

section \<open>The query that waits\<close>

lemma query_waits:
  assumes con: "con_status con = ATTACHSQL_CON_STATUS_NOT_CONNECTED" "\<not> in_query con" "calm con"
    and ps: "\<forall>p \<in> set ps. param_ok p" "unat count = length ps"
    and st: "ps \<noteq> [] \<longrightarrow> questions statement \<le> length ps"
  obtains b a where "attachsql_query (Some con) (length statement) statement count ps error =
      attachsql_connect (Some (con\<lparr>in_query := True, query_buffer := Some b,
        query_buffer_length := length (query_command (quoting_mode con) statement ps), query_buffer_alloc := a,
        query_buffer_statement := False\<rparr>)) error"
    "blk_read b 0 (length (query_command (quoting_mode con) statement ps)) = Some (query_command (quoting_mode con) statement ps)"
proof (cases "ps = []")
  case True
  then have c0: "count = 0" using ps(2) by (simp add: unat_eq_0)
  have "blk_read (blk_of statement) 0 (length statement) = Some statement" by (rule blk_read_has[OF blk_of_has refl])
  then show thesis using that[of False "blk_of statement"] True c0 con
    by (simp add: attachsql_query_def query_command_def Let_def)
next
  case False
  let ?q = "query_of (quoting_mode con) statement ps"
  have "length ps < 2 ^ 16" using ps(2) unsigned_less[of count, where 'a = nat] by simp
  from query_text_ok[OF ps(1) this, of "length statement" statement "quoting_mode con"] obtain b where
    b: "query_text (quoting_mode con) statement (length statement) ps (length ps) = Some (b, length ?q)" "blk_has b 0 ?q"
    using st False by auto
  have c0: "count \<noteq> 0" using ps(2) False by auto
  have "calm (con\<lparr>in_query := True\<rparr>)" using con(3) by (simp add: calm_def)
  then have "attachsql_query (Some con) (length statement) statement count ps error =
      attachsql_connect (Some (con\<lparr>in_query := True, query_buffer := Some b, query_buffer_length := length ?q,
        query_buffer_alloc := True, query_buffer_statement := False\<rparr>)) error"
    using con b c0 by (simp add: attachsql_query_def ps(2) Let_def quoting_mode_def)
  then show thesis using that[of True b] blk_read_has[OF b(2) refl] False by (simp add: query_command_def)
qed

lemma waiting_query_sent:
  assumes idle: "session_idle (con\<lparr>in_query := False\<rparr>)" and con: "command_status con = ATTACHSQL_COMMAND_STATUS_CONNECTED"
      "server_errno con = 0" "con_pool con = None" "\<not> query_buffer_statement con" "in_query con"
    and waits: "query_buffer con = Some b" "query_buffer_length con = length text" "blk_read b 0 (length text) = Some text" "text \<noteq> []"
  obtains con' where "poll_idle con (Some e) = Some (ATTACHSQL_RETURN_PROCESSING, Some e, Some con')"
    "asked (con\<lparr>in_query := False\<rparr>) text con'" "in_query con'"
proof -
  let ?base = "con\<lparr>in_query := False\<rparr>"
  have c: "con = ?base\<lparr>in_query := True, query_buffer := query_buffer con, query_buffer_length := query_buffer_length con,
      query_buffer_alloc := query_buffer_alloc con, query_buffer_statement := query_buffer_statement con, con_stmt := con_stmt con\<rparr>"
    using con(5) by (cases con) simp
  from asked_command[OF idle c, of ATTACHSQL_COMMAND_QUERY _ "text"] obtain con' where
    "attachsql_command_send ATTACHSQL_COMMAND_QUERY text con = Some (ATTACHSQL_COMMAND_STATUS_SEND, con')"
    "asked ?base text con'" "in_query con'"
    by (auto simp: response_of_def)
  moreover from this(1) have "poll_idle con (Some e) = Some (ATTACHSQL_RETURN_PROCESSING, Some e, Some con')"
    using con waits send_event_alone by (simp add: poll_idle_def attachsql_connect_query_def)
  ultimately show thesis using that by blast
qed

text \<open>The object \<open>new\<close> delivers, and the connection created from it as the programs do it.\<close>

definition example_con :: "libraries \<Rightarrow> uv_event list list \<Rightarrow> attachsql_connect_t" where
  "example_con l events = (connect_init l [] [] events)\<lparr>con_host := Some (str ''localhost''), con_port := 3306,
     con_user := Some (str ''test''), con_pass := Some (str ''test''), con_schema := Some (str ''testdb'')\<rparr>"

lemma example_created: "example_connect (connect_init l [] [] events) = Some (Some (example_con l events))"
proof -
  have "calm (connect_init l [] [] events)" by (simp add: calm_def connect_init_def con_core.defs core_init_def)
  moreover have "length (str ''test'') \<le> ATTACHSQL_MAX_USER_SIZE" "length (str ''testdb'') \<le> ATTACHSQL_MAX_SCHEMA_SIZE"
    by (simp_all add: str_def)
  ultimately show ?thesis by (simp add: example_connect_def example_con_def attachsql_connect_create_def Let_def)
qed

definition login_packet :: "byte list \<Rightarrow> uint16 \<Rightarrow> byte list" where
  "login_packet scramble caps = packet 1 (response_payload
     ((ucast caps AND ATTACHSQL_CAPABILITY_CLIENT) OR ATTACHSQL_CAPABILITY_MULTI_RESULTS) (str ''test'')
     (20 # password_token (str ''test'') scramble) (str ''testdb''))"

definition server_good :: "byte list \<Rightarrow> byte list \<Rightarrow> uint16 \<Rightarrow> byte list \<Rightarrow> uint64 \<Rightarrow> uint64 \<Rightarrow> byte list \<Rightarrow> bool" where
  "server_good version scramble caps filler affected inserted msg \<longleftrightarrow>
     greeting_good version (str ''test'') scramble caps filler \<and> ok_good affected inserted msg"

lemma query_gets_asked:
  assumes good: "server_good version scramble caps filler affected inserted msg"
    and n1: "n1 + length (handshake_payload version tid scramble caps cs sstatus filler extra) + 4 \<le> ATTACHSQL_DEFAULT_BUFFER_SIZE"
    and n2: "n2 + length (ok_payload affected inserted s2 warnings msg) + 4 \<le> ATTACHSQL_DEFAULT_BUFFER_SIZE"
    and ps: "\<forall>p \<in> set ps. param_ok p" "unat count = length ps"
    and st: "ps \<noteq> [] \<longrightarrow> questions statement \<le> length ps" "query_command False statement ps \<noteq> []"
  shows "\<exists>con1 con2 con3 con4. attachsql_query (Some ((example_con l (login_events n1
        (handshake_payload version tid scramble caps cs sstatus filler extra) n2 (ok_payload affected inserted s2 warnings msg) later))
        \<lparr>buffer_rows := br\<rparr>)) (length statement) statement count ps (Some e) = Some (True, Some e, Some con1) \<and>
    attachsql_connect_poll (Some con1) (Some e) = Some (ATTACHSQL_RETURN_CONNECTING, Some e, Some con2) \<and>
    attachsql_connect_poll (Some con2) (Some e) = Some (ATTACHSQL_RETURN_PROCESSING, Some e, Some con4) \<and>
    asked con3 (query_command False statement ps) con4 \<and> session_idle con3 \<and> uv_events con3 = later \<and>
    sent con3 = [login_packet scramble caps] \<and> capacity con3 = ATTACHSQL_DEFAULT_BUFFER_SIZE \<and> loop_present con3 \<and>
    row_view con3 = (br, NullRows, 0, 0, 0) \<and> in_query con4"
proof -
  let ?greet = "handshake_payload version tid scramble caps cs sstatus filler extra" and ?ok = "ok_payload affected inserted s2 warnings msg"
  let ?q = "query_command False statement ps"
  let ?c0 = "(example_con l (login_events n1 ?greet n2 ?ok later))\<lparr>buffer_rows := br\<rparr>"
  have q0: "con_status ?c0 = ATTACHSQL_CON_STATUS_NOT_CONNECTED" "\<not> in_query ?c0" "calm ?c0" "quoting_mode ?c0 = False"
    by (simp_all add: example_con_def quoting_mode_def calm_def connect_init_def con_core.defs core_init_def)
  obtain b a where w: "attachsql_query (Some ?c0) (length statement) statement count ps (Some e) =
      attachsql_connect (Some (?c0\<lparr>in_query := True, query_buffer := Some b, query_buffer_length := length ?q, query_buffer_alloc := a,
        query_buffer_statement := False\<rparr>)) (Some e)" "blk_read b 0 (length ?q) = Some ?q"
    using query_waits[OF q0(1-3) ps st(1), unfolded q0(4)] .
  let ?w = "?c0\<lparr>in_query := True, query_buffer := Some b, query_buffer_length := length ?q, query_buffer_alloc := a,
      query_buffer_statement := False\<rparr>"
  let ?rest = "[Connected 0, Received n1 (packet 0 ?greet)] # [Received n2 (packet 2 ?ok)] # later"
  have w0: "calm ?w" "con_status ?w = ATTACHSQL_CON_STATUS_NOT_CONNECTED" "con_pool ?w = None" "con_port ?w \<noteq> 0"
    "opt_protocol ?w = ATTACHSQL_CON_PROTOCOL_UNKNOWN" "uv_events ?w = [Resolved 0] # ?rest"
    by (simp_all add: example_con_def calm_def connect_init_def con_core.defs core_init_def login_events_def)
  let ?c1 = "?w\<lparr>loop_present := True, opt_protocol := ATTACHSQL_CON_PROTOCOL_TCP, con_status := ATTACHSQL_CON_STATUS_CONNECTING,
      uv_events := ?rest\<rparr>"
  have conn: "attachsql_connect (Some ?w) (Some e) = Some (True, Some e, Some ?c1)"
    by (rule connect_begins[OF w0]) simp
  have l: "length (str ''test'') \<le> ATTACHSQL_MAX_USER_SIZE" "length (str ''testdb'') \<le> ATTACHSQL_MAX_SCHEMA_SIZE"
    "length (str ''test'') \<le> 2 ^ 32 - 64" "str ''test'' \<noteq> []" by (simp_all add: str_def)
  have d: "dialing (str ''test'') (str ''test'') ?c1" "client_capabilities ?c1 = 0" "schema_bytes ?c1 = str ''testdb''" "sent ?c1 = []"
    using l(1-3)
    by (simp_all add: dialing_def connecting_def calm_def buffers_ok_def queue_ok_def queue_room_def alloc_def expected_def
        schema_bytes_def example_con_def connect_init_def con_core.defs core_init_def)
  have ev: "uv_events ?c1 = ?rest" by simp
  have g: "greeting_good version (str ''test'') scramble caps filler" "ok_good affected inserted msg"
    using good by (simp_all add: server_good_def)
  obtain c2 c3 where c: "attachsql_connect_poll (Some ?c1) (Some e) = Some (ATTACHSQL_RETURN_CONNECTING, Some e, Some c2)"
    "sent c2 = sent ?c1 @ [packet 1 (login_answer (str ''test'') (str ''test'') (schema_bytes ?c1) scramble caps (client_capabilities ?c1))]"
    "attachsql_connect_poll (Some c2) (Some e) = poll_idle c3 (Some e)" "command_status c3 = ATTACHSQL_COMMAND_STATUS_CONNECTED"
    "server_errno c3 = 0" "session_idle (c3\<lparr>in_query := False\<rparr>)" "client_view c3 = client_view (?c1\<lparr>uv_events := later\<rparr>)"
    "sent c3 = sent c2" "capacity c3 = ATTACHSQL_DEFAULT_BUFFER_SIZE"
    using login_polls[OF d(1) ev g n1 n2, of e] by blast
  have v: "in_query c3" "con_pool c3 = None" "\<not> query_buffer_statement c3" "query_buffer c3 = Some b" "query_buffer_length c3 = length ?q"
    "uv_events c3 = later" "loop_present c3" "row_view c3 = (br, NullRows, 0, 0, 0)"
    using c(7) by (simp_all add: client_view_def row_view_def example_con_def connect_init_def con_core.defs)
  obtain c4 where c4: "poll_idle c3 (Some e) = Some (ATTACHSQL_RETURN_PROCESSING, Some e, Some c4)"
    "asked (c3\<lparr>in_query := False\<rparr>) ?q c4" "in_query c4"
    using waiting_query_sent[OF c(6,4,5) v(2,3,1,4,5) w(2) st(2)] .
  have "sent c3 = [login_packet scramble caps]"
    using c(2,8) d(2-4) l(4) by (simp add: login_answer_def auth_of_def login_packet_def)
  then show ?thesis using w(1) conn c(1,3,6,9) c4 v(6-8)
    by (intro exI[of _ ?c1] exI[of _ c2] exI[of _ "c3\<lparr>in_query := False\<rparr>"] exI[of _ c4]) (simp add: capacity_def row_view_def)
qed

lemma example_plain: "(example_con l evs)\<lparr>buffer_rows := False\<rparr> = example_con l evs"
  by (simp add: example_con_def connect_init_def con_core.defs)

lemma idle_destroyed: "session_idle con \<Longrightarrow> loop_present con \<Longrightarrow> attachsql_connect_destroy (Some con) = Some None"
  by (simp add: session_idle_def query_ready_def calm_def attachsql_connect_destroy_def uv_call_def)

text \<open>A query that has been sent: its rows are printed, and it can be closed.\<close>

lemma asked_query_printed:
  assumes ready: "session_ready base" and asked: "asked base sql con4"
    and ev: "uv_events base = [Received n3 (answer_stream catalog columns rows w1 s3 w2 s4)] # later"
    and fits: "length (answer_stream catalog columns rows w1 s3 w2 s4) + n3 \<le> capacity base"
    and good: "answer_good catalog columns rows" and more: "s4 AND ATTACHSQL_SERVER_STATUS_MORE_RESULTS = 0"
  obtains con6 con7 where "query_loop ATTACHSQL_RETURN_PROCESSING (Some None) (Some con4) =
      Some (concat (map row_line rows), Some None, Some (at_end con6))"
    "attachsql_query_close (at_end con6) = Some con7" "session_ready con7" "sent con7 = sent con4" "loop_present con7 = loop_present base"
proof -
  have none: "session_idle base" "unread base []" using ready by (simp_all add: session_ready_def session_idle_def)
  obtain con5 where r: "attachsql_connect_poll (Some con4) (Some None) = poll_idle con5 (Some None)"
    "row_held (row_payload (hd rows)) (row_stream (packet_number con5 + 1) (tl rows) (eof_payload w2 s4) @ []) con5"
    "unat (packet_number con5) = length columns + 3" "unat (column_count (con_result con5)) = length columns"
    "con_row con5 = None" "server_errno con5 = 0" "con_pool con5 = None" "same_session (con4\<lparr>uv_events := later\<rparr>) con5"
    using answer_received[OF asked none(2) ev fits good] by blast
  have rows: "hd rows # tl rows = rows" "\<forall>row \<in> set rows. row_good (length columns) row" "length columns + length rows + 3 < 128"
    using good by (auto simp: answer_good_def)
  have s: "\<not> buffer_rows con5" "allocs con5 = []"
    using r(8) asked ready
    by (auto simp: same_session_def same_core_def client_view_def asked_def calm_def row_view_def session_ready_def)
  have arr: "row_array_ok (length (hd rows)) con5" using s(2) r(5) by (simp add: row_array_ok_def alloc_def)
  have n: "unat (packet_number con5) + length (tl rows) + 1 < 128" using rows(1,3) r(3) by (cases rows) simp_all
  have rgood: "\<forall>row \<in> set (hd rows # tl rows). row_good (unat (column_count (con_result con5))) row" using rows(1,2) r(4) by simp
  have held: "row_held (row_payload (hd rows)) (row_stream (packet_number con5 + 1) (tl rows) (eof_payload w2 s4)) con5" using r(2) by simp
  obtain con6 where p: "query_loop ATTACHSQL_RETURN_PROCESSING (Some None) (Some con4) =
      Some (concat (map row_line (hd rows # tl rows)), Some None, Some (at_end con6))"
    "con_status con6 = ATTACHSQL_CON_STATUS_IDLE" "command_status con6 = ATTACHSQL_COMMAND_STATUS_EOF"
    "server_status con6 = s4" "expects_none con6" "unread con6 []" "same_session con5 con6"
    using rows_printed[OF held rgood n s(1) arr r(6,7,1), of ATTACHSQL_RETURN_PROCESSING] by auto
  note same = same_session_trans[OF r(8) p(7)]
  have fin: "server_status con6 AND ATTACHSQL_SERVER_STATUS_MORE_RESULTS = 0" using p(4) more by simp
  obtain con7 where close: "attachsql_query_close (at_end con6) = Some con7" "session_ready con7" "sent con7 = sent con4"
    "loop_present con7 = loop_present base"
    using ready_again[OF ready asked same p(2,3,5,6) fin, of None] eof_polled(1)[OF none(1) asked same p(2,3,5,6), of None] by auto
  then show thesis using that[of con6 con7] p(1) rows(1) by simp
qed

section \<open>Properties\<close>

text \<open>
  C3. The examples \<open>basic_query\<close> and \<open>escaped_query\<close> from beginning to end: the query waits while the
  connection is made, goes out with its parameters when the server has accepted the login, and the
  program prints the rows of the answer, a line each with its values in order, up to a NUL in them,
  and no error; the server is sent two packets, the login and the query.
\<close>

theorem query_program_prints:
  assumes "server_good version scramble caps filler affected inserted msg"
    and "n1 + length (handshake_payload version tid scramble caps cs sstatus filler extra) + 4 \<le> ATTACHSQL_DEFAULT_BUFFER_SIZE"
    and "n2 + length (ok_payload affected inserted s2 warnings msg) + 4 \<le> ATTACHSQL_DEFAULT_BUFFER_SIZE"
    and "\<forall>p \<in> set ps. param_ok p" "length ps < 2 ^ 16" "ps \<noteq> [] \<longrightarrow> questions statement \<le> length ps"
    and "query_command False statement ps \<noteq> []"
    and "answer_good catalog columns rows" "s4 AND ATTACHSQL_SERVER_STATUS_MORE_RESULTS = 0"
    and "n3 + length (answer_stream catalog columns rows w1 s3 w2 s4) \<le> ATTACHSQL_DEFAULT_BUFFER_SIZE"
  shows "query_program statement ps (connect_init l [] [] (login_events n1
      (handshake_payload version tid scramble caps cs sstatus filler extra) n2 (ok_payload affected inserted s2 warnings msg)
      ([Received n3 (answer_stream catalog columns rows w1 s3 w2 s4)] # later))) =
    Some (concat (map row_line rows),
      [login_packet scramble caps, packet 0 (command_code ATTACHSQL_COMMAND_QUERY # query_command False statement ps)])"
proof -
  let ?answer = "answer_stream catalog columns rows w1 s3 w2 s4" and ?q = "query_command False statement ps"
  let ?count = "of_nat (length ps) :: uint16"
  let ?events = "login_events n1 (handshake_payload version tid scramble caps cs sstatus filler extra) n2
      (ok_payload affected inserted s2 warnings msg) ([Received n3 ?answer] # later)"
  have count: "unat ?count = length ps" using assms(5) by (simp add: unat_of_nat take_bit_nat_eq_self)
  obtain con1 con2 base con4 where c: "attachsql_query (Some (example_con l ?events)) (length statement) statement ?count ps (Some None) =
      Some (True, Some None, Some con1)"
    "attachsql_connect_poll (Some con1) (Some None) = Some (ATTACHSQL_RETURN_CONNECTING, Some None, Some con2)"
    "attachsql_connect_poll (Some con2) (Some None) = Some (ATTACHSQL_RETURN_PROCESSING, Some None, Some con4)"
    "asked base ?q con4" "session_idle base" "uv_events base = [Received n3 ?answer] # later"
    "sent base = [login_packet scramble caps]" "capacity base = ATTACHSQL_DEFAULT_BUFFER_SIZE" "loop_present base"
    "row_view base = (False, NullRows, 0, 0, 0)"
    using query_gets_asked[OF assms(1-4) count assms(6,7), of False l "[Received n3 ?answer] # later" None] by (auto simp: example_plain)
  have ready: "session_ready base" using c(5,10) by (simp add: session_ready_def row_view_def)
  have fits: "length ?answer + n3 \<le> capacity base" using assms(10) c(8) by simp
  obtain con6 con7 where p: "query_loop ATTACHSQL_RETURN_PROCESSING (Some None) (Some con4) =
      Some (concat (map row_line rows), Some None, Some (at_end con6))"
    "attachsql_query_close (at_end con6) = Some con7" "session_ready con7" "sent con7 = sent con4" "loop_present con7 = loop_present base"
    using asked_query_printed[OF ready c(4,6) fits assms(8,9)] .
  have "attachsql_connect_destroy (Some con7) = Some None" using idle_destroyed p(3,5) c(9) by (simp add: session_ready_def)
  moreover have "query_loop ATTACHSQL_RETURN_NONE (Some None) (Some con1) = Some (concat (map row_line rows), Some None, Some (at_end con6))"
    using query_loop_turn[OF _ quiet_turn[OF c(2)] query_loop_turn[OF _ quiet_turn[OF c(3)] p(1)]] by simp
  moreover have "sent con7 = [login_packet scramble caps, packet 0 (command_code ATTACHSQL_COMMAND_QUERY # ?q)]"
    using p(4) c(4,7) by (simp add: asked_def)
  ultimately show ?thesis using c(1) p(2)
    by (simp add: query_program_def example_created close_query_def print_error_def wire_def)
qed

lemma example_server:
  "server_good (str ''5.5'') (replicate 20 0x42) 0xf7ff (replicate 13 0) 0 0 []"
  "65536 + length (handshake_payload (str ''5.5'') 7 (replicate 20 0x42) 0xf7ff 8 2 (replicate 13 0) []) + 4 \<le> ATTACHSQL_DEFAULT_BUFFER_SIZE"
  "65536 + length (ok_payload 0 0 2 0 []) + 4 \<le> ATTACHSQL_DEFAULT_BUFFER_SIZE"
  "65536 + length (answer_stream [0x64, 0x65, 0x66] [sample_column] [[[0x61]], [[0x62, 0x63]]] 0 0 0 2) \<le> ATTACHSQL_DEFAULT_BUFFER_SIZE"
  "concat (map row_line [[[0x61]], [[0x62, 0x63]]]) = str ''a '' @ [0x0A] @ str ''bc '' @ [0x0A]"
  by (simp_all add: server_good_def greeting_good_def ok_good_def len_good_def str_def handshake_payload_def handshake_body_def
      ok_payload_def enc_length_def answer_stream_def result_stream_def packet_def row_payload_def enc_string_def eof_payload_def
      sample_column_length row_line_def)

theorem query_program_prints_witness:
  "escaped_query_main (connect_init (lib one_expected) [] [] (login_events 65536 (greeting (str ''5.5'')) 65536 (ok_payload 0 0 2 0 [])
      [[Received 65536 sample_answer]])) =
   Some (str ''a '' @ [0x0A] @ str ''bc '' @ [0x0A],
     [login_packet (replicate 20 0x42) 0xf7ff,
      packet 0 (3 # str ''SELECT * FROM t1 WHERE name = '' @ [0x27] @ str ''fred'' @ [0x27] @ str '' AND age > 30'')])"
proof -
  let ?ps = "[\<lparr>q_type = ATTACHSQL_ESCAPE_TYPE_CHAR, q_data = str ''fred'', q_length = 4, q_is_unsigned = False\<rparr>,
      \<lparr>q_type = ATTACHSQL_ESCAPE_TYPE_INT, q_data = le_bytes 4 (30 :: uint32), q_length = 0, q_is_unsigned = True\<rparr>]"
  let ?st = "str ''SELECT * FROM t1 WHERE name = ? AND age > ?''"
  have ps: "\<forall>p \<in> set ?ps. param_ok p" "length ?ps < 2 ^ 16" "?ps \<noteq> [] \<longrightarrow> questions ?st \<le> length ?ps"
    by (simp_all add: param_ok_def str_def le_bytes_4 questions_def)
  have q: "query_command False ?st ?ps = str ''SELECT * FROM t1 WHERE name = '' @ [0x27] @ str ''fred'' @ [0x27] @ str '' AND age > 30''"
    by code_simp
  then have ne: "query_command False ?st ?ps \<noteq> []" by (simp add: str_def)
  from query_program_prints[OF example_server(1-3) ps ne sample_answer_good _ example_server(4), of "lib one_expected" "[]"]
  show ?thesis unfolding q example_server(5) by (simp add: escaped_query_main_def greeting_def sample_answer_def)
qed

section \<open>Buffered rows\<close>

partial_function (option) poll_loop :: "attachsql_return_t \<Rightarrow> error_ptr \<Rightarrow> con_ptr \<Rightarrow> (error_ptr \<times> con_ptr) option" where
  "poll_loop ret error c =
     (if ret = ATTACHSQL_RETURN_EOF \<or> error \<noteq> Some None then Some (error, c)
      else Option.bind (attachsql_connect_poll c error) (\<lambda>x. poll_loop (fst x) (fst (snd x)) (snd (snd x))))"

partial_function (option) print_buffered :: "nat \<Rightarrow> con_ptr \<Rightarrow> (byte list \<times> con_ptr) option" where
  "print_buffered columns c =
     Option.bind (attachsql_query_buffer_row_get c) (\<lambda>x.
       if fst x = None then Some ([], snd x)
       else Option.bind (print_row columns (snd x) (fst x)) (\<lambda>text.
         Option.bind (print_buffered columns (snd x)) (\<lambda>y. Some (text @ fst y, snd y))))"

text \<open>An error ends the program at once; the connection is then left as it is.\<close>

definition buffered_program :: "byte list \<Rightarrow> attachsql_connect_t \<Rightarrow> (byte list \<times> byte list list) option" where
  "buffered_program statement fresh =
     do { c \<leftarrow> example_connect fresh;
          let (_, c) = attachsql_query_buffer_rows c True;
          (_, error, c) \<leftarrow> attachsql_query c (length statement) statement 0 [] (Some None);
          (error, c) \<leftarrow> poll_loop ATTACHSQL_RETURN_NONE error c;
          if error \<noteq> Some None then Some (print_error error, wire c)
          else do {
            (out, c) \<leftarrow> print_buffered (unat (attachsql_query_column_count c)) c;
            c \<leftarrow> close_query c;
            _ \<leftarrow> attachsql_connect_destroy c;
            Some (out @ print_error error, wire c) } }"

definition buffered_query_main :: "attachsql_connect_t \<Rightarrow> (byte list \<times> byte list list) option" where
  "buffered_query_main = buffered_program (str ''SELECT * FROM t1 WHERE name='' @ [0x27] @ str ''fred'' @ [0x27])"

lemma poll_loop_turn:
  "ret \<noteq> ATTACHSQL_RETURN_EOF \<Longrightarrow> attachsql_connect_poll c (Some None) = Some (ret', error, c') \<Longrightarrow>
   poll_loop ret (Some None) c = poll_loop ret' error c'"
  by (subst poll_loop.simps) simp

lemma poll_loop_end: "poll_loop ATTACHSQL_RETURN_EOF error c = Some (error, c)"
  by (subst poll_loop.simps) simp

lemma poll_loop_times:
  assumes "poll_times k (Some None) con = Some (replicate k r, Some None, con')" "r \<noteq> ATTACHSQL_RETURN_EOF" "ret \<noteq> ATTACHSQL_RETURN_EOF"
    and "attachsql_connect_poll (Some con') (Some None) = Some (ATTACHSQL_RETURN_EOF, Some None, Some con'')"
  shows "poll_loop ret (Some None) (Some con) = Some (Some None, Some con'')"
  using assms(1,3)
proof (induction k arbitrary: con ret)
  case 0
  then show ?case using poll_loop_turn[OF 0(2)] assms(4) poll_loop_end by simp
next
  case (Suc k)
  then obtain c1 where "attachsql_connect_poll (Some con) (Some None) = Some (r, Some None, Some c1)"
    "poll_times k (Some None) c1 = Some (replicate k r, Some None, con')"
    by (auto simp: bind_Some_iff split: if_splits)
  then show ?case using Suc.IH[of c1 r] poll_loop_turn[OF Suc.prems(2)] assms(2) by simp
qed

text \<open>The buffered rows are printed from the position on.\<close>

lemma print_buffered_step:
  assumes "attachsql_query_buffer_row_get c = Some (Some row, c')" "print_row columns c' (Some row) = Some line"
    and "print_buffered columns c' = Some (out, c'')"
  shows "print_buffered columns c = Some (line @ out, c'')"
  using assms by (subst print_buffered.simps) simp

lemma buffered_printed:
  assumes "rows_stored ds con" "row_buffer_position con + k = length ds" "\<forall>d \<in> set ds. row_good columns d"
  shows "\<exists>row. print_buffered columns (Some con) = Some (concat (map row_line (drop (row_buffer_position con) ds)),
      Some (con\<lparr>con_row := row, row_buffer_position := length ds\<rparr>))"
  using assms(1,2)
proof (induction k arbitrary: con)
  case 0
  then have "attachsql_query_buffer_row_get (Some con) = Some (None, Some con)"
    by (simp add: attachsql_query_buffer_row_get_def rows_stored_def)
  then have "print_buffered columns (Some con) = Some ([], Some con)" by (subst print_buffered.simps) simp
  then show ?case using 0 by (intro exI[of _ "con_row con"]) simp
next
  case (Suc k)
  let ?i = "row_buffer_position con"
  have i: "?i < length ds" using Suc.prems(2) by simp
  obtain row where row: "buffered_row ?i con = Some row" "map (value_bytes con) row = map Some (ds ! ?i)"
    using Suc.prems(1) i by (auto simp: rows_stored_def)
  let ?c = "con\<lparr>con_row := Some row, row_buffer_position := ?i + 1\<rparr>"
  have v: "value_bytes ?c = value_bytes con" by (rule values_frame) simp
  have "rows_stored ds ?c" using Suc.prems(1) by (simp only: rows_stored_position)
  then obtain row' where f: "print_buffered columns (Some ?c) = Some (concat (map row_line (drop (Suc ?i) ds)),
      Some (con\<lparr>con_row := row', row_buffer_position := length ds\<rparr>))"
    using Suc.IH[of ?c] Suc.prems(2) by auto
  have get: "attachsql_query_buffer_row_get (Some con) = Some (Some row, Some ?c)"
    using row(1) i Suc.prems(1) by (simp add: attachsql_query_buffer_row_get_def rows_stored_def)
  have "row_good columns (ds ! ?i)" using assms(3) i by simp
  then have "print_row columns (Some ?c) (Some row) = Some (row_line (ds ! ?i))" using row_printed[of ?c row] row(2) v by simp
  from print_buffered_step[OF get this f] show ?case
    using i by (intro exI[of _ row']) (simp add: Cons_nth_drop_Suc[symmetric])
qed

text \<open>
  C4. The example \<open>buffered_query\<close> from beginning to end: when the loop of polls has ended, the program
  prints all rows of the answer, a line each in order, and no error, and the server has been sent the
  login and the query.
\<close>

theorem buffered_program_prints:
  assumes "server_good version scramble caps filler affected inserted msg"
    and "n1 + length (handshake_payload version tid scramble caps cs sstatus filler extra) + 4 \<le> ATTACHSQL_DEFAULT_BUFFER_SIZE"
    and "n2 + length (ok_payload affected inserted s2 warnings msg) + 4 \<le> ATTACHSQL_DEFAULT_BUFFER_SIZE"
    and "statement \<noteq> []" "answer_good catalog columns rows" "s4 AND ATTACHSQL_SERVER_STATUS_MORE_RESULTS = 0"
    and "n3 + length (answer_stream catalog columns rows w1 s3 w2 s4) \<le> ATTACHSQL_DEFAULT_BUFFER_SIZE"
  shows "buffered_program statement (connect_init l [] [] (login_events n1
      (handshake_payload version tid scramble caps cs sstatus filler extra) n2 (ok_payload affected inserted s2 warnings msg)
      ([Received n3 (answer_stream catalog columns rows w1 s3 w2 s4)] # later))) =
    Some (concat (map row_line rows),
      [login_packet scramble caps, packet 0 (command_code ATTACHSQL_COMMAND_QUERY # statement)])"
proof -
  let ?answer = "answer_stream catalog columns rows w1 s3 w2 s4"
  let ?events = "login_events n1 (handshake_payload version tid scramble caps cs sstatus filler extra) n2
      (ok_payload affected inserted s2 warnings msg) ([Received n3 ?answer] # later)"
  let ?c0 = "(example_con l ?events)\<lparr>buffer_rows := True\<rparr>"
  have set: "attachsql_query_buffer_rows (Some (example_con l ?events)) True = (True, Some ?c0)"
    by (simp add: attachsql_query_buffer_rows_def example_con_def connect_init_def con_core.defs)
  have q: "query_command False statement [] = statement" by (simp add: query_command_def)
  obtain con1 con2 base con4 where c: "attachsql_query (Some ?c0) (length statement) statement 0 [] (Some None) = Some (True, Some None, Some con1)"
    "attachsql_connect_poll (Some con1) (Some None) = Some (ATTACHSQL_RETURN_CONNECTING, Some None, Some con2)"
    "attachsql_connect_poll (Some con2) (Some None) = Some (ATTACHSQL_RETURN_PROCESSING, Some None, Some con4)"
    "asked base statement con4" "session_idle base" "uv_events base = [Received n3 ?answer] # later"
    "sent base = [login_packet scramble caps]" "capacity base = ATTACHSQL_DEFAULT_BUFFER_SIZE" "loop_present base"
    "row_view base = (True, NullRows, 0, 0, 0)"
    using query_gets_asked[OF assms(1-3), of "[]" 0 statement True l "[Received n3 ?answer] # later" None, unfolded q] assms(4) by auto
  have rows0: "buffer_rows base" "row_buffer base = NullRows" "row_buffer_count base = 0" "row_buffer_position base = 0"
    using c(10) by (simp_all add: row_view_def)
  have fits: "length ?answer + n3 \<le> capacity base" using assms(7) c(8) by simp
  obtain con5 where r: "poll_times (length rows) (Some None) con4 = Some (replicate (length rows) ATTACHSQL_RETURN_PROCESSING, Some None, con5)"
    "attachsql_connect_poll (Some con5) (Some None) = Some (ATTACHSQL_RETURN_EOF, Some None, Some (at_end con5))"
    "rows_stored rows (at_end con5)" "buffer_rows con5" "row_buffer_position con5 = 0" "uv_events con5 = later"
    "unat (column_count (con_result con5)) = length columns" "server_status con5 = s4" "capacity con5 = capacity base"
    "loop_present con5 = loop_present base" "sent con5 = sent con4"
    "session_idle (con5\<lparr>in_query := False, con_row := None, row_buffer_alloc_size := 0\<rparr>)"
    using buffered_answer[OF c(5,4) rows0 c(6) assms(5) fits] .
  have "poll_loop ATTACHSQL_RETURN_PROCESSING (Some None) (Some con4) = Some (Some None, Some (at_end con5))"
    by (rule poll_loop_times[OF r(1) _ _ r(2)]) simp_all
  then have loop: "poll_loop ATTACHSQL_RETURN_NONE (Some None) (Some con1) = Some (Some None, Some (at_end con5))"
    using poll_loop_turn[OF _ c(2)] poll_loop_turn[OF _ c(3)] by simp
  have good: "\<forall>row \<in> set rows. row_good (length columns) row" "rows \<noteq> []" using assms(5) by (simp_all add: answer_good_def)
  obtain row where out: "print_buffered (length columns) (Some (at_end con5)) = Some (concat (map row_line rows),
      Some ((at_end con5)\<lparr>con_row := row, row_buffer_position := length rows\<rparr>))"
    using buffered_printed[OF r(3) _ good(1), of "length rows"] r(5) by (auto simp: at_end_def)
  let ?c = "(at_end con5)\<lparr>con_row := row, row_buffer_position := length rows\<rparr>"
  have "rows_stored rows ?c" using r(3) by (simp only: rows_stored_position)
  moreover have "server_status con5 AND ATTACHSQL_SERVER_STATUS_MORE_RESULTS = 0" using r(8) assms(6) by simp
  ultimately have close: "attachsql_query_close ?c = Some (closed ?c\<lparr>row_buffer := FreedRows\<rparr>)" "session_idle (closed ?c\<lparr>row_buffer := FreedRows\<rparr>)"
    using buffered_closed[OF r(12) _ refl _ good(2)] by blast+
  have "loop_present (closed ?c\<lparr>row_buffer := FreedRows\<rparr>)" using r(10) c(9) by (simp add: closed_def at_end_def)
  then have "attachsql_connect_destroy (Some (closed ?c\<lparr>row_buffer := FreedRows\<rparr>)) = Some None" using idle_destroyed close(2) by blast
  moreover have "sent (closed ?c\<lparr>row_buffer := FreedRows\<rparr>) =
      [login_packet scramble caps, packet 0 (command_code ATTACHSQL_COMMAND_QUERY # statement)]"
    using r(11) c(4,7) by (simp add: closed_def at_end_def asked_def)
  moreover have "unat (attachsql_query_column_count (Some (at_end con5))) = length columns"
    using r(7) by (simp add: attachsql_query_column_count_def at_end_def)
  ultimately show ?thesis using c(1) set loop out close(1)
    by (simp add: buffered_program_def example_created close_query_def print_error_def wire_def)
qed

theorem buffered_program_prints_witness:
  "buffered_query_main (connect_init (lib one_expected) [] [] (login_events 65536 (greeting (str ''5.5'')) 65536 (ok_payload 0 0 2 0 [])
      [[Received 65536 sample_answer]])) =
   Some (str ''a '' @ [0x0A] @ str ''bc '' @ [0x0A],
     [login_packet (replicate 20 0x42) 0xf7ff,
      packet 0 (3 # str ''SELECT * FROM t1 WHERE name='' @ [0x27] @ str ''fred'' @ [0x27])])"
proof -
  let ?st = "str ''SELECT * FROM t1 WHERE name='' @ [0x27] @ str ''fred'' @ [0x27]"
  have ne: "?st \<noteq> []" by simp
  from buffered_program_prints[OF example_server(1-3) ne sample_answer_good _ example_server(4), of "lib one_expected" "[]"]
  show ?thesis unfolding example_server(5) by (simp add: buffered_query_main_def greeting_def sample_answer_def)
qed

end
