(* ===== verification/Stmt_Values.thy ===== *)
theory Stmt_Values
  imports Execution
begin

text \<open>
  Integer values of a statement's row: the number the getters return and the text
  \<open>attachsql_statement_get_char\<close> prints, for each integer type of column, signed and unsigned; and where
  they are not the number of the server.
\<close>

section \<open>Integers as the server sends them\<close>

text \<open>A MEDIUMINT has four bytes.\<close>

fun int_bytes :: "attachsql_column_type_t \<Rightarrow> int \<Rightarrow> byte list" where
  "int_bytes ATTACHSQL_COLUMN_TYPE_TINY v = [word_of_int v]"
| "int_bytes ATTACHSQL_COLUMN_TYPE_SHORT v = le_bytes 2 (word_of_int v :: uint16)"
| "int_bytes ATTACHSQL_COLUMN_TYPE_INT24 v = le_bytes 4 (word_of_int v :: uint32)"
| "int_bytes ATTACHSQL_COLUMN_TYPE_LONG v = le_bytes 4 (word_of_int v :: uint32)"
| "int_bytes ATTACHSQL_COLUMN_TYPE_LONGLONG v = le_bytes 8 (word_of_int v :: uint64)"
| "int_bytes _ v = []"

fun int_bits :: "attachsql_column_type_t \<Rightarrow> nat" where
  "int_bits ATTACHSQL_COLUMN_TYPE_TINY = 8"
| "int_bits ATTACHSQL_COLUMN_TYPE_SHORT = 16"
| "int_bits ATTACHSQL_COLUMN_TYPE_INT24 = 24"
| "int_bits ATTACHSQL_COLUMN_TYPE_LONG = 32"
| "int_bits ATTACHSQL_COLUMN_TYPE_LONGLONG = 64"
| "int_bits _ = 0"

definition int_fits :: "attachsql_column_type_t \<Rightarrow> bool \<Rightarrow> int \<Rightarrow> bool" where
  "int_fits t uns v \<longleftrightarrow> int_bits t \<noteq> 0 \<and>
     (if uns then 0 \<le> v \<and> v < 2 ^ int_bits t else - (2 ^ (int_bits t - 1)) \<le> v \<and> v < 2 ^ (int_bits t - 1))"

lemma int_types:
  assumes "int_bits t \<noteq> 0"
  obtains "t = ATTACHSQL_COLUMN_TYPE_TINY" | "t = ATTACHSQL_COLUMN_TYPE_SHORT" | "t = ATTACHSQL_COLUMN_TYPE_INT24"
    | "t = ATTACHSQL_COLUMN_TYPE_LONG" | "t = ATTACHSQL_COLUMN_TYPE_LONGLONG"
  using assms by (cases t) auto

lemma unpack_int24:
  assumes "blk_has b p (le_bytes 4 (w :: uint32))" shows "attachsql_unpack_int3 b p = Some (take_bit 24 w)"
proof -
  have "blk_has b p (le_bytes 3 w)" using assms blk_has_append[of b p "le_bytes 3 w"] by (simp add: le_bytes_3 le_bytes_4)
  then show ?thesis using unpack_int3_le by fastforce
qed

lemma sint_of_int: "- (2 ^ (LENGTH('a) - 1)) \<le> v \<Longrightarrow> v < 2 ^ (LENGTH('a) - 1) \<Longrightarrow> sint (word_of_int v :: 'a::len word) = v"
  by (simp add: sint_sbintrunc' signed_take_bit_int_eq_self)

lemma uint_of_int: "0 \<le> v \<Longrightarrow> v < 2 ^ LENGTH('a) \<Longrightarrow> uint (word_of_int v :: 'a::len word) = v"
  by (simp add: uint_word_of_int_eq take_bit_int_eq_self)

lemma scast_int: "scast (w :: 'a::len word) = (word_of_int (sint w) :: 'b::len word)"
  by simp

lemma ucast_int: "ucast (w :: 'a::len word) = (word_of_int (uint w) :: 'b::len word)"
  by simp

section \<open>Integers in a row\<close>

definition int_at :: "attachsql_connect_t \<Rightarrow> uint16 \<Rightarrow> attachsql_column_type_t \<Rightarrow> int \<Rightarrow> bool" where
  "int_at con column t v \<longleftrightarrow> column < column_count (con_result con) \<and>
     (case stmt_row con of
        None \<Rightarrow> False
      | Some rows \<Rightarrow> unat column < length rows \<and> stmt_value con (rows ! unat column) = Some (t, int_bytes t v))"

definition column_row :: "attachsql_connect_t \<Rightarrow> uint16 \<Rightarrow> attachsql_stmt_row_st" where
  "column_row con column = (case stmt_row con of None \<Rightarrow> stmt_row_init | Some rows \<Rightarrow> rows ! unat column)"

lemma int_at_column: "int_at con column t v \<Longrightarrow> with_column z (Some con) column error get = get (column_row con column) con"
  by (auto simp: int_at_def with_column_def column_row_def dest: leD split: option.splits)

lemma int_at_bytes:
  assumes "int_at con column t v"
  obtains b p where "row_bytes (column_row con column) con = Some (b, p)" "sr_type (column_row con column) = t"
    "blk_has b p (int_bytes t v)"
  using assms blk_read_Some
  by (fastforce simp: int_at_def column_row_def stmt_value_def split: option.splits Option.bind_splits)

text \<open>The number the code makes of the bytes: three bytes of a MEDIUMINT, without its sign.\<close>

definition int_read :: "attachsql_column_type_t \<Rightarrow> int \<Rightarrow> int" where
  "int_read t v = (if t = ATTACHSQL_COLUMN_TYPE_INT24 then v mod 2 ^ 24 else v)"

lemma int24_word: "take_bit 24 (word_of_int v :: uint32) = word_of_int (v mod 2 ^ 24)"
proof (rule bit_word_eqI)
  fix n assume "n < LENGTH(32)"
  then show "bit (take_bit 24 (word_of_int v :: uint32)) n = bit (word_of_int (v mod 2 ^ 24) :: uint32) n"
    unfolding take_bit_eq_mod[symmetric] by (simp add: bit_simps)
qed

lemma int24_value: "uint (take_bit 24 (word_of_int v :: uint32)) = v mod 2 ^ 24" "sint (take_bit 24 (word_of_int v :: uint32)) = v mod 2 ^ 24"
  unfolding int24_word by (simp_all add: uint_of_int sint_of_int)

lemma scast_of_int:
  "- (2 ^ (LENGTH('a) - 1)) \<le> v \<Longrightarrow> v < 2 ^ (LENGTH('a) - 1) \<Longrightarrow> scast (word_of_int v :: 'a::len word) = (word_of_int v :: 'b::len word)"
  by (subst scast_int) (simp only: sint_of_int)

lemma ucast_of_int: "0 \<le> v \<Longrightarrow> v < 2 ^ LENGTH('a) \<Longrightarrow> ucast (word_of_int v :: 'a::len word) = (word_of_int v :: 'b::len word)"
  by (subst ucast_int) (simp only: uint_of_int)

lemma ucast_down_int:
  "LENGTH('b) \<le> LENGTH('a) \<Longrightarrow> ucast (word_of_int v :: 'a::len word) = (word_of_int v :: 'b::len word)"
  by (rule bit_word_eqI) (simp add: bit_simps)

lemma int24_cast:
  "scast (take_bit 24 (word_of_int v :: uint32)) = (word_of_int (v mod 2 ^ 24) :: 'b::len word)"
  "ucast (take_bit 24 (word_of_int v :: uint32)) = (word_of_int (v mod 2 ^ 24) :: 'b::len word)"
  by (subst scast_int, simp only: int24_value) (subst ucast_int, simp only: int24_value)

lemmas int_unpacked = unpack_int2_le unpack_int24 unpack_int4_le unpack_int8_le
lemmas int_words = int_fits_def int_read_def scast_of_int ucast_of_int int24_cast

text \<open>What each conversion makes of an integer, as the integer type of the getter.\<close>

lemma bigint_conv_int:
  assumes "int_fits t False v" "blk_has b p (int_bytes t v)"
  shows "\<exists>f. bigint_conv t = Some f \<and> f b p = Some (word_of_int (int_read t v))"
proof -
  have "int_bits t \<noteq> 0" using assms(1) by (simp add: int_fits_def)
  then show ?thesis using assms
    by (cases rule: int_types) (auto simp: int_unpacked int_words simp del: take_bit_eq_mod)
qed

lemma bigint_unsigned_conv_int:
  assumes "int_fits t True v" "blk_has b p (int_bytes t v)"
  shows "\<exists>f. bigint_unsigned_conv t = Some f \<and> f b p = Some (word_of_int v)"
proof -
  have "int_bits t \<noteq> 0" using assms(1) by (simp add: int_fits_def)
  then show ?thesis using assms
    by (cases rule: int_types) (auto simp: int_unpacked int_words)
qed

lemma int_conv_int:
  assumes "int_fits t False v" "blk_has b p (int_bytes t v)"
  shows "\<exists>f. int_conv t = Some f \<and> f b p = Some (word_of_int (int_read t v))"
proof -
  have "int_bits t \<noteq> 0" using assms(1) by (simp add: int_fits_def)
  then show ?thesis using assms
    by (cases rule: int_types) (auto simp: int_unpacked int_words int24_word ucast_down_int)
qed

lemma int_unsigned_conv_int:
  assumes "int_fits t True v" "blk_has b p (int_bytes t v)"
  shows "\<exists>f. int_unsigned_conv t = Some f \<and> f b p = Some (word_of_int v)"
proof -
  have "int_bits t \<noteq> 0" using assms(1) by (simp add: int_fits_def)
  then show ?thesis using assms
    by (cases rule: int_types) (auto simp: int_unpacked int_words int24_word ucast_down_int)
qed

lemma double_conv_int:
  assumes "int_fits t False v" "blk_has b p (int_bytes t v)"
  shows "\<exists>f. double_conv t = Some f \<and>
    f b p = Some (OfInt (if t = ATTACHSQL_COLUMN_TYPE_TINY then v else v mod 2 ^ int_bits t))"
proof -
  have "int_bits t \<noteq> 0" using assms(1) by (simp add: int_fits_def)
  then show ?thesis using assms
    by (cases rule: int_types) (auto simp: int_unpacked int_fits_def sint_of_int int24_value uint_word_of_int)
qed

lemma number_of_int:
  assumes "int_at con column t v" "\<And>b p. blk_has b p (int_bytes t v) \<Longrightarrow> \<exists>f. conv t = Some f \<and> f b p = Some n" "int_bits t \<noteq> 0"
  shows "number_of conv (Some con) column e = Some (n, e, Some con)"
proof -
  obtain b p where r: "row_bytes (column_row con column) con = Some (b, p)" "sr_type (column_row con column) = t"
    "blk_has b p (int_bytes t v)"
    using int_at_bytes[OF assms(1)] .
  then show ?thesis using assms(2)[OF r(3)] assms(3) by (auto simp: number_of_def int_at_column[OF assms(1)])
qed

lemma getters_of_int:
  assumes at: "int_at con column t v"
  shows "int_fits t False v \<Longrightarrow> attachsql_statement_get_bigint (Some con) column e = Some (word_of_int (int_read t v), e, Some con)"
    "int_fits t False v \<Longrightarrow> attachsql_statement_get_int (Some con) column e = Some (word_of_int (int_read t v), e, Some con)"
    "int_fits t True v \<Longrightarrow> attachsql_statement_get_bigint_unsigned (Some con) column e = Some (word_of_int v, e, Some con)"
    "int_fits t True v \<Longrightarrow> attachsql_statement_get_int_unsigned (Some con) column e = Some (word_of_int v, e, Some con)"
proof -
  show "attachsql_statement_get_bigint (Some con) column e = Some (word_of_int (int_read t v), e, Some con)" if "int_fits t False v"
    unfolding attachsql_statement_get_bigint_def
    by (rule number_of_int[OF at]) (use that bigint_conv_int in \<open>auto simp: int_fits_def\<close>)
  show "attachsql_statement_get_int (Some con) column e = Some (word_of_int (int_read t v), e, Some con)" if "int_fits t False v"
    unfolding attachsql_statement_get_int_def
    by (rule number_of_int[OF at]) (use that int_conv_int in \<open>auto simp: int_fits_def\<close>)
  show "attachsql_statement_get_bigint_unsigned (Some con) column e = Some (word_of_int v, e, Some con)" if "int_fits t True v"
    unfolding attachsql_statement_get_bigint_unsigned_def
    by (rule number_of_int[OF at]) (use that bigint_unsigned_conv_int in \<open>auto simp: int_fits_def\<close>)
  show "attachsql_statement_get_int_unsigned (Some con) column e = Some (word_of_int v, e, Some con)" if "int_fits t True v"
    unfolding attachsql_statement_get_int_unsigned_def
    by (rule number_of_int[OF at]) (use that int_unsigned_conv_int in \<open>auto simp: int_fits_def\<close>)
qed

section \<open>Text\<close>

text \<open>The number that is printed: \<open>char\<close> is signed, the two and three byte numbers are not.\<close>

definition int_printed :: "attachsql_column_type_t \<Rightarrow> bool \<Rightarrow> int \<Rightarrow> int" where
  "int_printed t uns v =
     (if t = ATTACHSQL_COLUMN_TYPE_TINY \<and> uns \<and> 128 \<le> v then v - 2 ^ 8 + 2 ^ 32
      else if t \<in> {ATTACHSQL_COLUMN_TYPE_SHORT, ATTACHSQL_COLUMN_TYPE_INT24} then v mod 2 ^ int_bits t
      else v)"

lemma short_widened:
  "uint (ucast (w :: uint16) :: uint32) = uint w" "sint (ucast (w :: uint16) :: uint32) = uint w"
proof -
  have w: "0 \<le> uint w" "uint w < 2 ^ 16" using uint_bounded[of w] by simp_all
  have l: "- (2 ^ (LENGTH(32) - 1)) \<le> uint w" by (rule order_trans[OF _ w(1)]) simp
  show "uint (ucast w :: uint32) = uint w" "sint (ucast w :: uint32) = uint w"
    unfolding ucast_int[of w] using w l uint_of_int[of "uint w", where 'a = 32] sint_of_int[OF l]
    by (simp_all del: word_of_int_uint)
qed

lemma tiny_widened:
  assumes "- 128 \<le> v" "v < 256"
  shows "uint (scast (word_of_int v :: byte) :: uint32) = (if v < 0 \<or> 128 \<le> v then (if v < 0 then v else v - 2 ^ 8) + 2 ^ 32 else v)"
    "sint (scast (word_of_int v :: byte) :: uint32) = (if 128 \<le> v then v - 2 ^ 8 else v)"
proof -
  let ?v = "if 128 \<le> v then v - 2 ^ 8 else v"
  have "(word_of_int v :: byte) = word_of_int ?v" by (simp add: word_of_int_eq_iff take_bit_eq_mod)
  then have s: "scast (word_of_int v :: byte) = (word_of_int ?v :: uint32)"
    using scast_of_int[of ?v, where 'a = 8 and 'b = 32] assms by simp
  show "sint (scast (word_of_int v :: byte) :: uint32) = ?v" unfolding s using assms by (subst sint_of_int) simp_all
  have wrap: "x mod 2 ^ 32 = x + 2 ^ 32" if "- (2 ^ 32) \<le> x" "x < 0" for x :: int
    using that mod_pos_pos_trivial[of "x + 2 ^ 32" "2 ^ 32"] by simp
  have "uint (word_of_int ?v :: uint32) = ?v mod 2 ^ 32" by (simp add: uint_word_of_int)
  also have "\<dots> = (if v < 0 \<or> 128 \<le> v then (if v < 0 then v else v - 2 ^ 8) + 2 ^ 32 else v)"
    using assms wrap[of v] wrap[of "v - 2 ^ 8"] by (auto simp: algebra_simps)
  finally show "uint (scast (word_of_int v :: byte) :: uint32) = (if v < 0 \<or> 128 \<le> v then (if v < 0 then v else v - 2 ^ 8) + 2 ^ 32 else v)"
    unfolding s .
qed

lemma number_text_int:
  assumes "int_fits t uns v" "blk_has b p (int_bytes t v)"
  shows "number_text t uns b p = Some (dec_int (int_printed t uns v))"
proof -
  have "int_bits t \<noteq> 0" using assms(1) by (simp add: int_fits_def)
  then show ?thesis
  proof (cases rule: int_types)
    case 1
    then have "- 128 \<le> v" "v < 256" "uns \<longrightarrow> 0 \<le> v" "\<not> uns \<longrightarrow> v < 128" using assms(1) by (auto simp: int_fits_def split: if_splits)
    then show ?thesis using assms(2) 1 tiny_widened[of v] by (auto simp: fmt_u_def fmt_d_def int_printed_def)
  next
    case 2
    then show ?thesis using assms by (auto simp: int_unpacked int_printed_def fmt_u_def fmt_d_def short_widened uint_word_of_int)
  qed (use assms in \<open>auto simp: int_unpacked int_fits_def int_printed_def fmt_u_def fmt_d_def sint_of_int uint_of_int int24_value split: if_splits\<close>)
qed

lemma int_printed_short: "int_fits t uns v \<Longrightarrow> length (dec_int (int_printed t uns v)) < ATTACHSQL_STMT_CHAR_BUFFER_SIZE"
proof -
  assume f: "int_fits t uns v"
  then have "int_bits t \<noteq> 0" by (simp add: int_fits_def)
  then have "- (10 ^ 20) < int_printed t uns v" "int_printed t uns v < 10 ^ 20" using f
    by (cases rule: int_types; auto simp: int_fits_def int_printed_def split: if_splits)+
  from dec_int_length[OF this] show ?thesis by simp
qed

lemma print_at_start:
  assumes "blk_size (stmt_tmp_buffer con) = ATTACHSQL_STMT_CHAR_BUFFER_SIZE" "length text < ATTACHSQL_STMT_CHAR_BUFFER_SIZE"
  shows "\<exists>b. print_at 0 text con = Some (length text, con\<lparr>stmt_tmp_buffer := b\<rparr>) \<and> blk_has b 0 (text @ [0])"
proof -
  have "size_sub 40 0 = 40" by (simp add: size_sub_exact)
  moreover obtain b where "blk_write (stmt_tmp_buffer con) 0 (text @ [0]) = Some b"
    using blk_write_total[of 0 "text @ [0]"] assms by fastforce
  ultimately show ?thesis using assms(2) writes_at_has[OF blk_write_writes_at]
    by (auto simp: print_at_def c_snprintf_def)
qed

text \<open>
  A text that does not fit is cut, but \<open>snprintf\<close> returns the length it would have had: a DOUBLE of forty
  characters or more is reported longer than the buffer.
\<close>

lemma double_text_cut:
  assumes con: "stmt_row con = Some rows" "column < column_count (con_result con)" "unat column < length rows"
    and val: "stmt_value con (rows ! unat column) = Some (ATTACHSQL_COLUMN_TYPE_DOUBLE, le_bytes 8 d)"
    and tmp: "blk_size (stmt_tmp_buffer con) = ATTACHSQL_STMT_CHAR_BUFFER_SIZE"
    and long: "ATTACHSQL_STMT_CHAR_BUFFER_SIZE \<le> length (fp_text 6 52 11 (unat (d :: uint64)))"
  shows "\<exists>b. attachsql_statement_get_char (Some con) column True e =
      Some (Some (TmpBuffer, length (fp_text 6 52 11 (unat d))), e, Some (con\<lparr>stmt_tmp_buffer := b\<rparr>)) \<and>
    blk_has b 0 (take 39 (fp_text 6 52 11 (unat d)) @ [0])"
proof -
  let ?text = "fp_text 6 52 11 (unat d)" and ?v = "rows ! unat column"
  obtain b p where r: "row_bytes ?v con = Some (b, p)" "sr_type ?v = ATTACHSQL_COLUMN_TYPE_DOUBLE" "blk_has b p (le_bytes 8 d)"
    using val blk_read_Some by (fastforce simp: stmt_value_def split: Option.bind_splits)
  have d: "double_at b p = Some d" using blk_read_has[OF r(3)] by (simp add: double_at_def le_word_le_bytes_full)
  obtain b' where b': "blk_write (stmt_tmp_buffer con) 0 (take 39 ?text @ [0]) = Some b'"
    using blk_write_total[of 0 "take 39 ?text @ [0]"] tmp by fastforce
  have "size_sub 40 0 = 40" by (simp add: size_sub_exact)
  then have "print_at 0 ?text con = Some (length ?text, con\<lparr>stmt_tmp_buffer := b'\<rparr>)"
    using b' by (simp add: print_at_def c_snprintf_def)
  moreover have "\<not> column_count (con_result con) \<le> column" using con(2) by simp
  ultimately show ?thesis using con(1,3) r(1,2) d writes_at_has[OF blk_write_writes_at[OF b']]
    by (intro exI[of _ b'] conjI) (simp_all add: attachsql_statement_get_char_def with_column_def number_type_def Let_def)
qed

lemma get_char_int:
  assumes at: "int_at con column t v" and fits: "int_fits t uns v" and col: "is_unsigned_column column con = Some uns"
    and tmp: "blk_size (stmt_tmp_buffer con) = ATTACHSQL_STMT_CHAR_BUFFER_SIZE"
  shows "\<exists>b. attachsql_statement_get_char (Some con) column True e =
      Some (Some (TmpBuffer, length (dec_int (int_printed t uns v))), e, Some (con\<lparr>stmt_tmp_buffer := b\<rparr>)) \<and>
    blk_has b 0 (dec_int (int_printed t uns v) @ [0])"
proof -
  obtain b p where r: "row_bytes (column_row con column) con = Some (b, p)" "sr_type (column_row con column) = t"
    "blk_has b p (int_bytes t v)"
    using int_at_bytes[OF at] .
  have "int_bits t \<noteq> 0" using fits by (simp add: int_fits_def)
  then have "number_type t" by (cases rule: int_types) (simp_all add: number_type_def)
  moreover obtain b' where "print_at 0 (dec_int (int_printed t uns v)) con =
      Some (length (dec_int (int_printed t uns v)), con\<lparr>stmt_tmp_buffer := b'\<rparr>)"
    "blk_has b' 0 (dec_int (int_printed t uns v) @ [0])"
    using print_at_start[OF tmp int_printed_short[OF fits]] by blast
  ultimately show ?thesis using r number_text_int[OF fits r(3)] col
    by (intro exI[of _ b'] conjI) (simp_all add: attachsql_statement_get_char_def int_at_column[OF at] Let_def)
qed

definition value_con :: "attachsql_column_type_t \<Rightarrow> byte list \<Rightarrow> attachsql_connect_t" where
  "value_con t xs = (stmt_row_con [t] xs)\<lparr>stmt_row := Some [\<lparr>sr_data = Some (0, 0), sr_length = length xs, sr_type = t\<rparr>]\<rparr>"

lemma value_con_at:
  assumes "length (int_bytes t v) \<le> 4096"
  shows "int_at (value_con t (int_bytes t v)) 0 t v" "is_unsigned_column 0 (value_con t (int_bytes t v)) = Some False"
    "blk_size (stmt_tmp_buffer (value_con t (int_bytes t v))) = ATTACHSQL_STMT_CHAR_BUFFER_SIZE"
proof -
  have "packet_in (packet_buffer (int_bytes t v) []) (int_bytes t v) []" by (rule packet_buffer_in) (use assms in simp)
  then have "blk_has (buffer (packet_buffer (int_bytes t v) [])) 0 (int_bytes t v)"
    using packet_in_ahead by (fastforce simp: ahead_def packet_buffer_def)
  then show "int_at (value_con t (int_bytes t v)) 0 t v"
    by (simp add: int_at_def value_con_def stmt_row_con_def row_con_def stmt_value_def row_bytes_def deref_def blk_read_has)
       (simp add: packet_buffer_def)
  show "is_unsigned_column 0 (value_con t (int_bytes t v)) = Some False"
    by (simp add: is_unsigned_column_def value_con_def stmt_row_con_def sample_column_def)
  show "blk_size (stmt_tmp_buffer (value_con t (int_bytes t v))) = ATTACHSQL_STMT_CHAR_BUFFER_SIZE"
    by (simp add: value_con_def stmt_row_con_def row_con_def connect_init_def con_core.defs char_array_def)
qed

section \<open>Properties\<close>

text \<open>
  C16. An integer of a row is returned as the server has sent it: a signed one by the signed getters, an
  unsigned one by the unsigned getters, with 64 bits, or its low 32 bits; a MEDIUMINT when it is not
  negative.
\<close>

theorem statement_integers_read:
  assumes "int_at con column t v" "int_fits t uns v" "t = ATTACHSQL_COLUMN_TYPE_INT24 \<longrightarrow> 0 \<le> v"
  shows "if uns then attachsql_statement_get_bigint_unsigned (Some con) column e = Some (word_of_int v, e, Some con) \<and>
      attachsql_statement_get_int_unsigned (Some con) column e = Some (word_of_int v, e, Some con)
    else attachsql_statement_get_bigint (Some con) column e = Some (word_of_int v, e, Some con) \<and>
      attachsql_statement_get_int (Some con) column e = Some (word_of_int v, e, Some con)"
proof -
  have "\<not> uns \<Longrightarrow> int_read t v = v" using assms(2,3) by (auto simp: int_read_def int_fits_def)
  then show ?thesis using assms(2) getters_of_int[OF assms(1), of e] by (cases uns) simp_all
qed

theorem statement_integers_read_witness:
  "attachsql_statement_get_bigint (Some (value_con ATTACHSQL_COLUMN_TYPE_SHORT [0xfe, 0xff])) 0 None =
     Some (- 2, None, Some (value_con ATTACHSQL_COLUMN_TYPE_SHORT [0xfe, 0xff]))"
proof -
  have b: "int_bytes ATTACHSQL_COLUMN_TYPE_SHORT (- 2) = [0xfe, 0xff]" by (simp add: le_bytes_2)
  note at = value_con_at(1)[of ATTACHSQL_COLUMN_TYPE_SHORT "- 2", unfolded b, simplified]
  have "int_fits ATTACHSQL_COLUMN_TYPE_SHORT False (- 2)" by (simp add: int_fits_def)
  from statement_integers_read[OF at this, of None] show ?thesis by simp
qed

text \<open>
  C17. \<open>attachsql_statement_get_char\<close> prints an integer of a row in decimal, ended by a zero byte, and
  returns its length: every LONG and LONGLONG, an unsigned SHORT and INT24, a signed TINY, and those
  signed SHORT and INT24 that are not negative and unsigned TINY below 128.
\<close>

theorem statement_integer_text:
  assumes "int_at con column t v" "int_fits t uns v" "is_unsigned_column column con = Some uns"
    and "blk_size (stmt_tmp_buffer con) = ATTACHSQL_STMT_CHAR_BUFFER_SIZE"
    and "\<not> (t = ATTACHSQL_COLUMN_TYPE_TINY \<and> uns \<and> 128 \<le> v)"
    and "\<not> (t \<in> {ATTACHSQL_COLUMN_TYPE_SHORT, ATTACHSQL_COLUMN_TYPE_INT24} \<and> v < 0)"
  shows "\<exists>b. attachsql_statement_get_char (Some con) column True e =
      Some (Some (TmpBuffer, length (dec_int v)), e, Some (con\<lparr>stmt_tmp_buffer := b\<rparr>)) \<and>
    blk_has b 0 (dec_int v @ [0])"
proof -
  have "int_printed t uns v = v" using assms(2,5,6) by (auto simp: int_printed_def int_fits_def split: if_splits)
  then show ?thesis using get_char_int[OF assms(1-4), of e] by simp
qed

theorem statement_integer_text_witness:
  "\<exists>b. attachsql_statement_get_char (Some (value_con ATTACHSQL_COLUMN_TYPE_LONG [0xd6, 0xfe, 0xff, 0xff])) 0 True None =
      Some (Some (TmpBuffer, 4), None, Some ((value_con ATTACHSQL_COLUMN_TYPE_LONG [0xd6, 0xfe, 0xff, 0xff])\<lparr>stmt_tmp_buffer := b\<rparr>)) \<and>
    blk_has b 0 (str ''-298'' @ [0])"
proof -
  have b: "int_bytes ATTACHSQL_COLUMN_TYPE_LONG (- 298) = [0xd6, 0xfe, 0xff, 0xff]" by (simp add: le_bytes_4)
  note at = value_con_at[of ATTACHSQL_COLUMN_TYPE_LONG "- 298", unfolded b, simplified]
  have f: "int_fits ATTACHSQL_COLUMN_TYPE_LONG False (- 298)" by (simp add: int_fits_def)
  have t: "dec_int (- 298) = str ''-298''" by (simp add: dec_int_def dec_digits.simps str_def)
  have l: "length (str ''-298'') = 4" by (simp add: str_def)
  from statement_integer_text[OF at(1) f at(2,3), of None] show ?thesis by (simp add: t l)
qed

text \<open>
  C33. Negative numbers that are returned as others: as a \<open>double\<close>, every one but a TINY is larger by two to
  the power of its bits, as the unpacked integer has no sign; as text, a SHORT and an INT24 are; and
  an INT24 is as a number.
\<close>

theorem negative_integers_misread:
  assumes "int_at con column t v" "int_fits t False v" "v < 0" "is_unsigned_column column con = Some False"
    and "blk_size (stmt_tmp_buffer con) = ATTACHSQL_STMT_CHAR_BUFFER_SIZE"
  shows "(t \<noteq> ATTACHSQL_COLUMN_TYPE_TINY \<longrightarrow>
      attachsql_statement_get_double (Some con) column e = Some (OfInt (v + 2 ^ int_bits t), e, Some con)) \<and>
    (t \<in> {ATTACHSQL_COLUMN_TYPE_SHORT, ATTACHSQL_COLUMN_TYPE_INT24} \<longrightarrow>
      (\<exists>b n. attachsql_statement_get_char (Some con) column True e = Some (Some (TmpBuffer, n), e, Some (con\<lparr>stmt_tmp_buffer := b\<rparr>)) \<and>
         blk_has b 0 (dec_int (v + 2 ^ int_bits t) @ [0]))) \<and>
    (t = ATTACHSQL_COLUMN_TYPE_INT24 \<longrightarrow>
      attachsql_statement_get_bigint (Some con) column e = Some (word_of_int (v + 2 ^ 24), e, Some con))"
proof -
  have bits: "int_bits t \<noteq> 0" using assms(2) by (simp add: int_fits_def)
  then have "(2::int) ^ (int_bits t - 1) + 2 ^ (int_bits t - 1) = 2 ^ int_bits t"
    by (metis mult_2 power_minus_mult neq0_conv mult.commute)
  then have "0 \<le> v + 2 ^ int_bits t" using assms(2) by (simp add: int_fits_def)
  then have m: "v mod 2 ^ int_bits t = v + 2 ^ int_bits t"
    using assms(3) mod_pos_pos_trivial[of "v + 2 ^ int_bits t" "2 ^ int_bits t"] by simp
  obtain b p where r: "row_bytes (column_row con column) con = Some (b, p)" "sr_type (column_row con column) = t"
    "blk_has b p (int_bytes t v)"
    using int_at_bytes[OF assms(1)] .
  have "attachsql_statement_get_double (Some con) column e = Some (OfInt (v + 2 ^ int_bits t), e, Some con)"
    if "t \<noteq> ATTACHSQL_COLUMN_TYPE_TINY"
    using that r double_conv_int[OF assms(2) r(3)] bits m
    by (auto simp: attachsql_statement_get_double_def int_at_column[OF assms(1)])
  moreover have "\<exists>b n. attachsql_statement_get_char (Some con) column True e = Some (Some (TmpBuffer, n), e, Some (con\<lparr>stmt_tmp_buffer := b\<rparr>)) \<and>
      blk_has b 0 (dec_int (v + 2 ^ int_bits t) @ [0])"
    if t: "t \<in> {ATTACHSQL_COLUMN_TYPE_SHORT, ATTACHSQL_COLUMN_TYPE_INT24}"
  proof -
    have "int_printed t False v = v + 2 ^ int_bits t" using t m by (auto simp: int_printed_def)
    then show ?thesis using get_char_int[OF assms(1,2,4,5), of e] by auto
  qed
  moreover have "attachsql_statement_get_bigint (Some con) column e = Some (word_of_int (v + 2 ^ 24), e, Some con)"
    if "t = ATTACHSQL_COLUMN_TYPE_INT24"
    using that m getters_of_int(1)[OF assms(1,2), of e] by (simp add: int_read_def)
  ultimately show ?thesis by blast
qed

theorem negative_integers_misread_witness:
  "attachsql_statement_get_double (Some (value_con ATTACHSQL_COLUMN_TYPE_SHORT [0xff, 0xff])) 0 None =
      Some (OfInt 65535, None, Some (value_con ATTACHSQL_COLUMN_TYPE_SHORT [0xff, 0xff])) \<and>
    (\<exists>b n. attachsql_statement_get_char (Some (value_con ATTACHSQL_COLUMN_TYPE_SHORT [0xff, 0xff])) 0 True None =
        Some (Some (TmpBuffer, n), None, Some ((value_con ATTACHSQL_COLUMN_TYPE_SHORT [0xff, 0xff])\<lparr>stmt_tmp_buffer := b\<rparr>)) \<and>
      blk_has b 0 (str ''65535'' @ [0]))"
proof -
  have b: "int_bytes ATTACHSQL_COLUMN_TYPE_SHORT (- 1) = [0xff, 0xff]" by code_simp
  note at = value_con_at[of ATTACHSQL_COLUMN_TYPE_SHORT "- 1", unfolded b, simplified]
  have f: "int_fits ATTACHSQL_COLUMN_TYPE_SHORT False (- 1)" by (simp add: int_fits_def)
  have t: "dec_int 65535 = str ''65535''" by (simp add: dec_int_def dec_digits.simps str_def)
  have e: "(- 1 :: int) + 2 ^ int_bits ATTACHSQL_COLUMN_TYPE_SHORT = 65535" "(- 1 :: int) < 0" by simp_all
  have k: "ATTACHSQL_COLUMN_TYPE_SHORT \<noteq> ATTACHSQL_COLUMN_TYPE_TINY"
    "ATTACHSQL_COLUMN_TYPE_SHORT \<in> {ATTACHSQL_COLUMN_TYPE_SHORT, ATTACHSQL_COLUMN_TYPE_INT24}" by simp_all
  show ?thesis using negative_integers_misread[OF at(1) f e(2) at(2,3), of None, unfolded e(1) t] k by blast
qed

end
