(* ===== verification/Pool_Run.thy ===== *)
theory Pool_Run
  imports Session
begin

text \<open>
  The pool: one run of its loop, with the events of all its connections in any order, gives every
  connection its own answer and reports it to the callback. What the connections do share is the
  variable for errors.
\<close>

section \<open>Events of several connections\<close>

definition own :: "nat \<Rightarrow> (nat \<times> uv_event) list \<Rightarrow> uv_event list" where
  "own i es = map snd (filter (\<lambda>e. fst e = i) es)"

lemma own_simps [simp]: "own i [] = []" "own i ((j, e) # es) = (if j = i then e # own i es else own i es)"
  by (simp_all add: own_def)

text \<open>Each connection gets its own events, and is polled.\<close>

fun dispatch_each :: "nat \<Rightarrow> (nat \<times> uv_event) list \<Rightarrow> attachsql_connect_t list \<Rightarrow> attachsql_connect_t list option" where
  "dispatch_each i es [] = Some []"
| "dispatch_each i es (con # cons) =
     do { con \<leftarrow> dispatch_all (own i es) con; cons \<leftarrow> dispatch_each (Suc i) es cons; Some (con # cons) }"

fun run_each :: "error_ptr \<Rightarrow> nat \<Rightarrow> (nat \<times> uv_event) list \<Rightarrow> attachsql_connect_t list \<Rightarrow> attachsql_connect_t list option" where
  "run_each error i es [] = Some []"
| "run_each error i es (con # cons) =
     do { con \<leftarrow> dispatch_all (own i es) con;
          (_, error, c) \<leftarrow> attachsql_connect_poll (Some con) error;
          con \<leftarrow> c;
          cons \<leftarrow> run_each error (Suc i) es cons;
          Some (con # cons) }"

lemma bind_swap: "(do { x \<leftarrow> A; y \<leftarrow> B; f x y }) = (do { y \<leftarrow> B; x \<leftarrow> A; f x y })" for A :: "'a option" and B :: "'b option"
  by (cases A; cases B) simp_all

lemma dispatch_each_Nil: "dispatch_each i [] cons = Some cons"
  by (induction cons arbitrary: i) simp_all

lemma dispatch_each_Cons:
  "dispatch_each k ((j, e) # es) cons =
     (if k \<le> j \<and> j < k + length cons
      then do { con \<leftarrow> dispatch e (cons ! (j - k)); dispatch_each k es (cons[j - k := con]) }
      else dispatch_each k es cons)"
proof (induction cons arbitrary: k)
  case (Cons c cs)
  consider "j < k" | "j = k" | "k < j" by arith
  then show ?case
  proof cases
    case 3
    then obtain m where m: "j - k = Suc m" "j - Suc k = m" by (cases "j - k") auto
    show ?thesis
    proof (cases "j < k + length (c # cs)")
      case True
      then have "Suc k \<le> j \<and> j < Suc k + length cs" using 3 by simp
      then show ?thesis using 3 Cons.IH[of "Suc k"] True m
        by (simp add: bind_swap[of "dispatch_all (own k es) c"])
    next
      case False
      then have "\<not> (Suc k \<le> j \<and> j < Suc k + length cs)" by simp
      then show ?thesis using 3 Cons.IH[of "Suc k"] False by simp
    qed
  next
    case 2
    then show ?thesis using Cons.IH[of "Suc k"] by simp
  next
    case 1
    then show ?thesis using Cons.IH[of "Suc k"] by simp
  qed
qed auto

lemma pool_dispatch_each: "pool_dispatch es cons = dispatch_each 0 es cons"
proof (induction es arbitrary: cons)
  case (Cons x es)
  obtain j e where "x = (j, e)" by (cases x)
  then show ?case using Cons by (simp add: dispatch_each_Cons)
qed (simp add: dispatch_each_Nil)

lemma poll_each_run: "do { cons \<leftarrow> dispatch_each i es cons; poll_each error cons } = run_each error i es cons"
proof (induction cons arbitrary: i error)
  case (Cons c cs)
  show ?case
  proof (cases "dispatch_all (own i es) c")
    case (Some con)
    show ?thesis
    proof (cases "attachsql_connect_poll (Some con) error")
      case (Some r)
      obtain a e d where r: "r = (a, e, d)" by (cases r)
      show ?thesis using \<open>dispatch_all (own i es) c = Some con\<close> Some
        by (cases d; cases "dispatch_each (Suc i) es cs") (simp_all add: r Cons.IH[symmetric])
    qed (cases "dispatch_each (Suc i) es cs"; simp add: Some)
  qed simp
qed simp

text \<open>The loop of the pool does to each connection what its own events do to it, and then polls it.\<close>

lemma pool_run_each:
  "attachsql_pool_run (Some pool) =
     map_option (\<lambda>cons. Some (pool\<lparr>pool_connections := cons, pool_events := drop 1 (pool_events pool)\<rparr>))
       (run_each (Some None) 0 (concat (take 1 (pool_events pool))) (pool_connections pool))"
proof -
  have "(case pool_events pool of [] \<Rightarrow> [] | es # _ \<Rightarrow> es) = concat (take 1 (pool_events pool))"
    by (cases "pool_events pool") simp_all
  then show ?thesis
    unfolding poll_each_run[symmetric] pool_dispatch_each[symmetric] attachsql_pool_run_def
    by (simp add: map_conv_bind_option bind_assoc o_def)
qed

section \<open>A connection of a pool that waits for an answer\<close>

definition query_out :: "attachsql_connect_t \<Rightarrow> bool" where
  "query_out con \<longleftrightarrow>
     con_pool con = Some True \<and> con_status con = ATTACHSQL_CON_STATUS_BUSY \<and> expects ATTACHSQL_PACKET_TYPE_RESPONSE con \<and>
     packet_number con = 0 \<and> unread con [] \<and> calm con \<and> \<not> opt_compression con \<and> \<not> stream_closed con \<and>
     current_column (con_result con) = 0 \<and> server_errno con = 0 \<and> con_row con = None \<and> \<not> buffer_rows con \<and>
     last_callback con \<noteq> ATTACHSQL_EVENT_ROW_READY"

text \<open>The events of such a connection: all of an answer with these rows, which the read buffer has room for.\<close>

definition answer_due :: "attachsql_connect_t \<Rightarrow> uv_event list \<Rightarrow> byte list list list \<Rightarrow> bool" where
  "answer_due con es rows \<longleftrightarrow>
     (\<exists>wanted catalog cs w1 s1 w2 s2. es = [Received wanted (answer_stream catalog cs rows w1 s1 w2 s2)] \<and>
        answer_good catalog cs rows \<and> length (answer_stream catalog cs rows w1 s1 w2 s2) + wanted \<le> capacity con)"

lemma same_client_last: "same_client con con' \<Longrightarrow> last_callback con' = last_callback con \<and> callbacks con' = callbacks con"
  by (cases con; cases con') (simp add: same_client_def same_but_stmt_def)

lemma answer_dispatched:
  assumes out: "query_out con" and due: "answer_due con es rows"
  shows "\<exists>con1 con2. dispatch_all es con = Some con1 \<and>
    attachsql_connect_poll (Some con1) (Some None) = Some (ATTACHSQL_RETURN_ROW_READY, Some None, Some con2) \<and>
    callbacks con2 = callbacks con @ [(ATTACHSQL_EVENT_ROW_READY, None)] \<and>
    (\<exists>con3. fetch_rows (length rows) con2 = Some (map (map Some) rows, con3) \<and>
       command_status con3 = ATTACHSQL_COMMAND_STATUS_EOF)"
proof -
  obtain wanted catalog cs w1 s1 w2 s2 where es: "es = [Received wanted (answer_stream catalog cs rows w1 s1 w2 s2)]"
    and good: "answer_good catalog cs rows" and fits: "length (answer_stream catalog cs rows w1 s1 w2 s2) + wanted \<le> capacity con"
    using due by (auto simp: answer_due_def)
  let ?bytes = "answer_stream catalog cs rows w1 s1 w2 s2"
  note o = out[unfolded query_out_def]
  have rows: "hd rows # tl rows = rows" "\<forall>row \<in> set rows. row_good (length cs) row" "cs \<noteq> []"
    "\<forall>c \<in> set cs. column_short catalog c" "length cs + length rows + 3 < 128"
    using good by (auto simp: answer_good_def)
  then have row: "row_good (length cs) (hd rows)" by (metis list.set_intros(1))
  have ne: "?bytes \<noteq> []" by (simp add: answer_stream_def result_stream_def packet_def)
  obtain b where b: "unread (con\<lparr>read_buffer := Some b\<rparr>) ?bytes"
    "receive_all wanted ?bytes con = map_option snd (process_loop (con\<lparr>read_buffer := Some b\<rparr>))"
    using bytes_arrive[OF _ fits ne] o by blast
  let ?c = "con\<lparr>read_buffer := Some b\<rparr>"
  have e: "expects ATTACHSQL_PACKET_TYPE_RESPONSE ?c"
    using o queue_frame[of ?c con] by (simp add: expects_def queue_fields_def)
  have u: "unread ?c (result_stream (packet_number ?c + 1) catalog cs (eof_payload w1 s1) (row_payload (hd rows))
      (row_stream (4 + of_nat (length cs)) (tl rows) (eof_payload w2 s2)))"
    using b(1) o by (simp add: answer_stream_def)
  have small: "unat (packet_number ?c) + length cs + 3 < 128" using o rows(5) by simp
  have start: "row_payload (hd rows) \<noteq> []" "hd (row_payload (hd rows)) \<noteq> 0xfe" "length (row_payload (hd rows)) < 2 ^ 24"
    using row_payload_starts[OF row] row by (simp_all add: row_good_def)
  obtain con1 where c1: "attachsql_con_process_packets ?c = Some (True, con1)"
    "row_held (row_payload (hd rows)) (row_stream (4 + of_nat (length cs)) (tl rows) (eof_payload w2 s2)) con1"
    "packet_number con1 = packet_number ?c + of_nat (length cs) + 3" "column_count (con_result con1) = of_nat (length cs)"
    "same_client ?c con1"
    using result_set_loop[OF u rows(3,4) small e _ _ _ start] o by (auto simp: calm_def alloc_def)
  have d: "dispatch_all es con = Some con1"
    using c1(1) b(2) o by (simp add: es attachsql_con_process_packets_def)
  have f: "con_row con1 = None" "con_pool con1 = Some True" "buffer_rows con1 = False" "allocs con1 = []" "server_errno con1 = 0"
    "last_callback con1 \<noteq> ATTACHSQL_EVENT_ROW_READY" "callbacks con1 = callbacks con"
    using more_view[of con1 ?c] c1(5) same_client_last[OF c1(5)] o
    by (simp_all add: same_client_def same_but_stmt_def client_view_def same_core_def calm_def)
  let ?c2 = "con1\<lparr>last_callback := ATTACHSQL_EVENT_ROW_READY, callbacks := callbacks con1 @ [(ATTACHSQL_EVENT_ROW_READY, None)]\<rparr>"
  have "attachsql_connect_poll (Some con1) (Some None) = Some (ATTACHSQL_RETURN_ROW_READY, Some None, Some ?c2)"
    using f c1(2) by (simp add: attachsql_connect_poll_def poll_idle_def row_held_def send_event_def attachsql_send_callback_def)
  moreover have "\<exists>con3. fetch_rows (length rows) ?c2 = Some (map (map Some) rows, con3) \<and>
      command_status con3 = ATTACHSQL_COMMAND_STATUS_EOF"
  proof -
    have n: "unat (packet_number ?c2) = length cs + 3" "unat (column_count (con_result ?c2)) = length cs"
      using c1(3,4) o rows(5) by (simp_all add: unat_word_ariths unat_of_nat take_bit_nat_eq_self)
    have num: "4 + of_nat (length cs) = packet_number ?c2 + 1" using c1(3) o by simp
    have held: "row_held (row_payload (hd rows)) (row_stream (packet_number ?c2 + 1) (tl rows) (eof_payload w2 s2) @ []) ?c2"
      using row_held_frame[OF c1(2)[unfolded num], of ?c2] by (simp add: queue_fields_def)
    have "unat (packet_number ?c2) + length (tl rows) + 1 < 128" using n(1) rows(1,5) by (cases rows) auto
    from fetch_rows_ok[OF held _ this] show ?thesis
      using rows(1,2) n(2) f by (auto simp: row_array_ok_def alloc_def)
  qed
  ultimately show ?thesis using d f(7) by (intro exI[of _ con1] exI[of _ ?c2]) simp
qed

lemma answers_each:
  assumes "length rows = length cons"
    and "\<forall>i < length cons. query_out (cons ! i) \<and> answer_due (cons ! i) (own (k + i) es) (rows ! i)"
  shows "\<exists>cons'. run_each (Some None) k es cons = Some cons' \<and> length cons' = length cons \<and>
    (\<forall>i < length cons. callbacks (cons' ! i) = callbacks (cons ! i) @ [(ATTACHSQL_EVENT_ROW_READY, None)] \<and>
       (\<exists>con. fetch_rows (length (rows ! i)) (cons' ! i) = Some (map (map Some) (rows ! i), con) \<and>
          command_status con = ATTACHSQL_COMMAND_STATUS_EOF))"
  using assms
proof (induction cons arbitrary: k rows)
  case (Cons c cs)
  obtain r rs where rows: "rows = r # rs" "length rs = length cs" using Cons.prems(1) by (cases rows) auto
  have "query_out c" "answer_due c (own k es) r" using Cons.prems(2) rows by auto
  from answer_dispatched[OF this] obtain c1 c2 c3 where c: "dispatch_all (own k es) c = Some c1"
    "attachsql_connect_poll (Some c1) (Some None) = Some (ATTACHSQL_RETURN_ROW_READY, Some None, Some c2)"
    "callbacks c2 = callbacks c @ [(ATTACHSQL_EVENT_ROW_READY, None)]"
    "fetch_rows (length r) c2 = Some (map (map Some) r, c3)" "command_status c3 = ATTACHSQL_COMMAND_STATUS_EOF" by blast
  have "\<forall>i < length cs. query_out (cs ! i) \<and> answer_due (cs ! i) (own (Suc k + i) es) (rs ! i)"
    using Cons.prems(2) rows by auto
  from Cons.IH[OF rows(2) this] obtain cons' where cons': "run_each (Some None) (Suc k) es cs = Some cons'" "length cons' = length cs"
    "\<forall>i < length cs. callbacks (cons' ! i) = callbacks (cs ! i) @ [(ATTACHSQL_EVENT_ROW_READY, None)] \<and>
       (\<exists>con. fetch_rows (length (rs ! i)) (cons' ! i) = Some (map (map Some) (rs ! i), con) \<and>
          command_status con = ATTACHSQL_COMMAND_STATUS_EOF)" by blast
  show ?case using c cons' rows by (intro exI[of _ "c2 # cons'"]) (auto simp: nth_Cons split: nat.split)
qed simp

section \<open>Properties\<close>

text \<open>
  C21. A pool all of whose connections have a query out: one run of its loop, which delivers the answers of
  the server in any order, gives every connection its own answer, reports a row to the callback once for
  each connection and no error, and each connection then gives the caller the rows of its own answer.
\<close>

theorem pool_reports_rows:
  assumes "length rows = length cons"
    and "\<forall>i < length cons. query_out (cons ! i) \<and> answer_due (cons ! i) (own i es) (rows ! i)"
  shows "\<exists>cons'.
    attachsql_pool_run (Some \<lparr>pool_connections = cons, pool_callback = True, pool_events = es # later\<rparr>) =
      Some (Some \<lparr>pool_connections = cons', pool_callback = True, pool_events = later\<rparr>) \<and> length cons' = length cons \<and>
    (\<forall>i < length cons. callbacks (cons' ! i) = callbacks (cons ! i) @ [(ATTACHSQL_EVENT_ROW_READY, None)] \<and>
       (\<exists>con. fetch_rows (length (rows ! i)) (cons' ! i) = Some (map (map Some) (rows ! i), con) \<and>
          command_status con = ATTACHSQL_COMMAND_STATUS_EOF))"
  using answers_each[of rows cons 0 es] assms by (auto simp: pool_run_each)

definition waiting_con :: attachsql_connect_t where
  "waiting_con = (result_con 0 [])\<lparr>con_pool := Some True\<rparr>"

definition other_answer :: "byte list" where
  "other_answer = answer_stream [0x64, 0x65, 0x66] [sample_column] [[[0x7A]]] 0 0 0 2"

theorem pool_reports_rows_witness:
  "\<exists>con1 con2 con3 con4.
    attachsql_pool_run (Some \<lparr>pool_connections = [waiting_con, waiting_con], pool_callback = True,
      pool_events = [[(1, Received 16 other_answer), (0, Received 16 sample_answer)]]\<rparr>) =
      Some (Some \<lparr>pool_connections = [con1, con2], pool_callback = True, pool_events = []\<rparr>) \<and>
    callbacks con1 = [(ATTACHSQL_EVENT_ROW_READY, None)] \<and> callbacks con2 = [(ATTACHSQL_EVENT_ROW_READY, None)] \<and>
    fetch_rows 2 con1 = Some ([[Some [0x61]], [Some [0x62, 0x63]]], con3) \<and> fetch_rows 1 con2 = Some ([[Some [0x7A]]], con4)"
proof -
  let ?es = "[(1, Received 16 other_answer), (0, Received 16 sample_answer)]" and ?cons = "[waiting_con, waiting_con]"
  let ?rows = "[[[[0x61]], [[0x62, 0x63]]], [[[0x7A]]]] :: byte list list list list"
  have "packet_in (packet_buffer [] []) [] []" by (rule packet_buffer_in) simp
  then have u: "unread waiting_con []" by (simp add: unread_def waiting_con_def result_con_def row_con_def packet_in_def)
  have e: "expects ATTACHSQL_PACKET_TYPE_RESPONSE waiting_con"
    by (simp add: expects_def waiting_con_def result_con_def row_con_def queue_ok_def expected_def)
  have o: "query_out waiting_con" unfolding query_out_def using u e
    by (simp add: waiting_con_def result_con_def row_con_def connect_init_def con_core.defs core_init_def result_init_def calm_def)
  have cap: "capacity waiting_con = 4096" by (simp add: waiting_con_def result_con_def row_con_def capacity_def packet_buffer_def)
  have n: "length sample_answer + 16 \<le> 4096" "length other_answer + 16 \<le> 4096"
    by (simp_all add: sample_answer_def other_answer_def answer_stream_def result_stream_def packet_def row_payload_def
      enc_string_def enc_length_def eof_payload_def sample_column_length)
  have good: "answer_good [0x64, 0x65, 0x66] [sample_column] [[[0x7A]]]"
    using sample_answer_good by (simp add: answer_good_def row_good_def short_string_good row_payload_def enc_string_def enc_length_def)
  have "answer_due waiting_con [Received 16 sample_answer] [[[0x61]], [[0x62, 0x63]]]"
    "answer_due waiting_con [Received 16 other_answer] [[[0x7A]]]"
    using sample_answer_good good n unfolding answer_due_def cap sample_answer_def other_answer_def by blast+
  then have due: "\<forall>i < length ?cons. query_out (?cons ! i) \<and> answer_due (?cons ! i) (own i ?es) (?rows ! i)"
    using o by (auto simp: less_Suc_eq)
  have none: "callbacks waiting_con = []"
    by (simp add: waiting_con_def result_con_def row_con_def connect_init_def con_core.defs core_init_def)
  have len: "length ?rows = length ?cons" by simp
  from pool_reports_rows[OF len due, of "[]"] obtain cons' where r:
    "attachsql_pool_run (Some \<lparr>pool_connections = ?cons, pool_callback = True, pool_events = [?es]\<rparr>) =
      Some (Some \<lparr>pool_connections = cons', pool_callback = True, pool_events = []\<rparr>)" "length cons' = 2"
    "\<forall>i < 2. callbacks (cons' ! i) = callbacks (?cons ! i) @ [(ATTACHSQL_EVENT_ROW_READY, None)] \<and>
       (\<exists>con. fetch_rows (length (?rows ! i)) (cons' ! i) = Some (map (map Some) (?rows ! i), con) \<and>
          command_status con = ATTACHSQL_COMMAND_STATUS_EOF)"
    by (elim exE conjE) (rule that, simp_all add: numeral_2_eq_2)
  then obtain con1 con2 where c: "cons' = [con1, con2]" by (cases cons'; cases "tl cons'") auto
  have "callbacks con1 = callbacks waiting_con @ [(ATTACHSQL_EVENT_ROW_READY, None)]"
    "\<exists>con. fetch_rows 2 con1 = Some ([[Some [0x61]], [Some [0x62, 0x63]]], con)"
    "callbacks con2 = callbacks waiting_con @ [(ATTACHSQL_EVENT_ROW_READY, None)]"
    "\<exists>con. fetch_rows 1 con2 = Some ([[Some [0x7A]]], con)"
    using r(3)[rule_format, of 0] r(3)[rule_format, of 1] c by (auto simp: numeral_2_eq_2 simp del: fetch_rows.simps)
  then show ?thesis using r(1) c none by auto
qed

text \<open>
  \<open>attachsql_pool_run\<close> has one variable for the errors of all connections and does not reset it: when
  a connection has lost its server, the callback for a row of the next connection is given the error
  of the first.
\<close>

theorem error_of_other_connection:
  assumes "con_status con1 = ATTACHSQL_CON_STATUS_NET_ERROR" "con_pool con1 = Some True" "last_callback con1 \<noteq> ATTACHSQL_EVENT_ERROR"
    and "allocs con1 = []" "0x25 \<notin> set (errmsg con1)"
    and "con_status con2 = ATTACHSQL_CON_STATUS_IDLE" "con_pool con2 = Some True" "last_callback con2 \<noteq> ATTACHSQL_EVENT_ROW_READY"
    and "command_status con2 = ATTACHSQL_COMMAND_STATUS_ROW_IN_BUFFER" "server_errno con2 = 0" "\<not> buffer_rows con2"
  shows "\<exists>con1' con2' err.
    attachsql_pool_run (Some \<lparr>pool_connections = [con1, con2], pool_callback = True, pool_events = []\<rparr>) =
      Some (Some \<lparr>pool_connections = [con1', con2'], pool_callback = True, pool_events = []\<rparr>) \<and>
    callbacks con1' = callbacks con1 @ [(ATTACHSQL_EVENT_ERROR, Some err)] \<and>
    callbacks con2' = callbacks con2 @ [(ATTACHSQL_EVENT_ROW_READY, Some err)] \<and> err_code err = ATTACHSQL_ERROR_CODE_SERVER_LOST"
proof -
  let ?err = "error_init\<lparr>err_code := ATTACHSQL_ERROR_CODE_SERVER_LOST, err_level := ATTACHSQL_ERROR_LEVEL_ERROR,
      err_msg := text_array ATTACHSQL_MESSAGE_SIZE (errmsg con1), err_sqlstate := str ''08006''\<rparr>"
  let ?c1 = "con1\<lparr>last_callback := ATTACHSQL_EVENT_ERROR, callbacks := callbacks con1 @ [(ATTACHSQL_EVENT_ERROR, Some ?err)]\<rparr>"
  let ?c2 = "con2\<lparr>last_callback := ATTACHSQL_EVENT_ROW_READY, callbacks := callbacks con2 @ [(ATTACHSQL_EVENT_ROW_READY, Some ?err)]\<rparr>"
  have "attachsql_connect_poll (Some con1) (Some None) = Some (ATTACHSQL_RETURN_ERROR, Some (Some ?err), Some ?c1)"
    using assms(1-5) format_plain_text[OF assms(5)]
    by (simp add: attachsql_connect_poll_def report_error_def client_error_def alloc_def attachsql_error_client_create_def
        send_event_def attachsql_send_callback_def str_def)
  moreover have "attachsql_connect_poll (Some con2) (Some (Some ?err)) = Some (ATTACHSQL_RETURN_ROW_READY, Some (Some ?err), Some ?c2)"
    using assms(6-11)
    by (simp add: attachsql_connect_poll_def poll_idle_def send_event_def attachsql_send_callback_def)
  ultimately show ?thesis
    by (intro exI[of _ ?c1] exI[of _ ?c2] exI[of _ ?err]) (simp add: attachsql_pool_run_def)
qed

definition pooled_con :: "attachsql_con_status_t \<Rightarrow> attachsql_connect_t" where
  "pooled_con s = row_con [1, 0x61] []\<lparr>con_status := s, con_pool := Some True, errmsg := str ''lost''\<rparr>"

theorem error_of_other_connection_witness:
  "\<exists>con1 con2 err.
    attachsql_pool_run (Some \<lparr>pool_connections = [pooled_con ATTACHSQL_CON_STATUS_NET_ERROR, pooled_con ATTACHSQL_CON_STATUS_IDLE],
      pool_callback = True, pool_events = []\<rparr>) =
      Some (Some \<lparr>pool_connections = [con1, con2], pool_callback = True, pool_events = []\<rparr>) \<and>
    callbacks con2 = [(ATTACHSQL_EVENT_ROW_READY, Some err)] \<and> err_code err = ATTACHSQL_ERROR_CODE_SERVER_LOST"
proof -
  have f: "con_status (pooled_con s) = s" "con_pool (pooled_con s) = Some True" "errmsg (pooled_con s) = str ''lost''"
    "allocs (pooled_con s) = []" "last_callback (pooled_con s) = ATTACHSQL_EVENT_NONE" "server_errno (pooled_con s) = 0"
    "command_status (pooled_con s) = ATTACHSQL_COMMAND_STATUS_ROW_IN_BUFFER" "\<not> buffer_rows (pooled_con s)"
    "callbacks (pooled_con s) = []" for s
    by (simp_all add: pooled_con_def row_con_def connect_init_def con_core.defs core_init_def)
  have m: "0x25 \<notin> set (errmsg (pooled_con ATTACHSQL_CON_STATUS_NET_ERROR))" by (simp add: f str_def)
  from error_of_other_connection[OF f(1,2) _ f(4) m f(1,2) _ f(7,6,8)] show ?thesis by (auto simp: f)
qed

end
