(* ===== verification/Out_Of_Sequence.thy ===== *)
theory Out_Of_Sequence
  imports Session
begin

text \<open>
  An answer of more than 127 packets: the packet with the number 128 is refused, and after that nothing
  the server sends is looked at again.
\<close>

section \<open>A connection that expects nothing\<close>

text \<open>What the server causes: bytes, of which libuv asks for at most \<open>wanted\<close>, and the check callback.\<close>

fun from_server :: "nat \<Rightarrow> uv_event \<Rightarrow> bool" where
  "from_server wanted (Received n xs) = (n \<le> wanted)"
| "from_server wanted Checked = True"
| "from_server wanted _ = False"

definition deaf :: "attachsql_connect_t \<Rightarrow> bool" where
  "deaf con \<longleftrightarrow> attachsql_packet_queue_peek con = Some ATTACHSQL_PACKET_TYPE_NONE"

lemma deaf_buffer: "deaf (con\<lparr>read_buffer := b\<rparr>) = deaf con" "deaf (con\<lparr>uv_events := es\<rparr>) = deaf con"
  by (simp_all add: deaf_def attachsql_packet_queue_peek_def queue_at_def)

lemma deaf_loop: "deaf con \<Longrightarrow> read_buffer con = Some b \<Longrightarrow> process_loop con = Some (False, con)"
  by (simp add: deaf_def process_loop.simps[of con] process_packet_unfold)

lemma deaf_event:
  assumes "deaf con" "listening con b" "from_server wanted e" "roomy wanted (length (bytes_of e)) b"
  shows "\<exists>b'. dispatch e con = Some (con\<lparr>read_buffer := Some b'\<rparr>) \<and> buffer_store (bytes_of e) b = Some b' \<and> buffer_ok b'"
proof -
  have b: "read_buffer con = Some b" "buffer_ok b" "\<not> opt_compression con" using assms(2) by (simp_all add: listening_def)
  then have same: "con\<lparr>read_buffer := Some b\<rparr> = con" by simp
  show ?thesis
  proof (cases e)
    case (Received n xs)
    then have room: "roomy n (length xs) b" "length xs \<le> buffer_room b"
      using roomy_less[OF assms(4)] roomy_available[OF b(2) assms(4)] assms(3) by simp_all
    obtain b' where b': "buffer_store xs b = Some b'" "buffer_ok b'" using buffer_store_ok[OF b(2) room(2)] by blast
    show ?thesis
    proof (cases "xs = []")
      case True
      then show ?thesis using Received b(2) same by (intro exI[of _ b]) (simp add: receive_all.simps buffer_store_Nil)
    next
      case False
      have "process_loop (con\<lparr>read_buffer := Some b'\<rparr>) = Some (False, con\<lparr>read_buffer := Some b'\<rparr>)"
        by (rule deaf_loop[of _ b']) (simp_all add: deaf_buffer assms(1))
      then show ?thesis using Received b' receive_piece[OF assms(2) room(1) False b'(1)] by simp
    qed
  next
    case Checked
    then show ?thesis using b same deaf_loop[OF assms(1) b(1)]
      by (intro exI[of _ b]) (simp add: attachsql_check_for_data_cb_def attachsql_con_process_packets_def buffer_store_Nil)
  qed (use assms(3) in auto)
qed

lemma deaf_events:
  assumes "deaf con" "listening con b" "list_all (from_server wanted) es" "roomy wanted (length (arrived es) + m) b"
  shows "\<exists>b'. dispatch_all es con = Some (con\<lparr>read_buffer := Some b'\<rparr>) \<and> buffer_ok b' \<and> roomy wanted m b'"
  using assms
proof (induction es arbitrary: con b)
  case Nil
  then have "con\<lparr>read_buffer := Some b\<rparr> = con" by (simp add: listening_def)
  then show ?case using Nil by (intro exI[of _ b]) (simp add: listening_def arrived_def)
next
  case (Cons e es)
  have all: "length (arrived (e # es)) + m = length (bytes_of e) + (length (arrived es) + m)" by (simp add: arrived_def)
  have room: "roomy wanted (length (bytes_of e)) b" using roomy_less[OF Cons.prems(4)[unfolded all]] by simp
  obtain b1 where b1: "dispatch e con = Some (con\<lparr>read_buffer := Some b1\<rparr>)" "buffer_store (bytes_of e) b = Some b1" "buffer_ok b1"
    using deaf_event[OF Cons.prems(1,2) _ room] Cons.prems(3) by auto
  have "listening (con\<lparr>read_buffer := Some b1\<rparr>) b1" using Cons.prems(2) b1(3) by (simp add: listening_def)
  moreover have "roomy wanted (length (arrived es) + m) b1"
    by (rule roomy_stored[OF b1(2)]) (use Cons.prems(4) in \<open>simp only: all\<close>)
  ultimately show ?case using Cons.IH[of "con\<lparr>read_buffer := Some b1\<rparr>" b1] Cons.prems(1,3) b1(1) by (simp add: deaf_buffer)
qed

section \<open>Polling it\<close>

text \<open>A caller that polls \<open>n\<close> times, and what it is told.\<close>

fun poll_times :: "nat \<Rightarrow> attachsql_connect_t \<Rightarrow> error_ptr \<Rightarrow> (attachsql_return_t list \<times> error_ptr \<times> attachsql_connect_t) option" where
  "poll_times 0 con error = Some ([], error, con)"
| "poll_times (Suc n) con error =
     do { (r, error, c) \<leftarrow> attachsql_connect_poll (Some con) error;
          con \<leftarrow> c;
          (rs, x) \<leftarrow> poll_times n con error;
          Some (r # rs, x) }"

lemma deaf_poll:
  assumes "deaf con" "listening con b" "con_status con = ATTACHSQL_CON_STATUS_BUSY" "con_pool con = None"
    and "list_all (list_all (from_server wanted)) (uv_events con)" "roomy wanted (length (arrived (concat (uv_events con)))) b"
  shows "\<exists>con' b'. attachsql_connect_poll (Some con) error = Some (ATTACHSQL_RETURN_PROCESSING, error, Some con') \<and>
    con' = con\<lparr>read_buffer := Some b', uv_events := drop 1 (uv_events con)\<rparr> \<and> listening con' b' \<and>
    roomy wanted (length (arrived (concat (uv_events con')))) b'"
proof (cases "uv_events con")
  case Nil
  then have "attachsql_connect_poll (Some con) error = Some (ATTACHSQL_RETURN_PROCESSING, error, Some con)"
    using assms(3,4) by (simp add: attachsql_connect_poll_def attachsql_do_poll_def attachsql_run_uv_loop_def uv_run_def)
  moreover have "con = con\<lparr>read_buffer := Some b, uv_events := drop 1 (uv_events con)\<rparr>"
    using Nil assms(2) by (cases con) (simp add: listening_def)
  ultimately show ?thesis using assms(2,6) by blast
next
  case (Cons es later)
  let ?c = "con\<lparr>uv_events := later\<rparr>"
  have l: "deaf ?c" "listening ?c b" using assms(1,2) by (simp_all add: deaf_buffer listening_def)
  have "list_all (from_server wanted) es" "roomy wanted (length (arrived es) + length (arrived (concat later))) b"
    using assms(5,6) Cons by (simp_all add: arrived_def)
  from deaf_events[OF l this] obtain b' where b': "dispatch_all es ?c = Some (?c\<lparr>read_buffer := Some b'\<rparr>)" "buffer_ok b'"
    "roomy wanted (length (arrived (concat later))) b'" by blast
  let ?c' = "con\<lparr>read_buffer := Some b', uv_events := drop 1 (uv_events con)\<rparr>"
  have "?c\<lparr>read_buffer := Some b'\<rparr> = ?c'" using Cons by simp
  then have "attachsql_connect_poll (Some con) error = Some (ATTACHSQL_RETURN_PROCESSING, error, Some ?c')"
    using Cons assms(3,4) b'(1)
    by (simp add: attachsql_connect_poll_def attachsql_do_poll_def attachsql_run_uv_loop_def uv_run_def)
  then show ?thesis using b'(2,3) assms(2) Cons by (simp add: listening_def)
qed

lemma deaf_polls:
  assumes "deaf con" "listening con b" "con_status con = ATTACHSQL_CON_STATUS_BUSY" "con_pool con = None"
    and "list_all (list_all (from_server wanted)) (uv_events con)" "roomy wanted (length (arrived (concat (uv_events con)))) b"
  shows "\<exists>con' b'. poll_times n con error = Some (replicate n ATTACHSQL_RETURN_PROCESSING, error, con') \<and>
    con' = con\<lparr>read_buffer := Some b', uv_events := drop n (uv_events con)\<rparr>"
  using assms
proof (induction n arbitrary: con b)
  case 0
  then have "con\<lparr>read_buffer := Some b, uv_events := drop 0 (uv_events con)\<rparr> = con" by (simp add: listening_def)
  then show ?case by (metis poll_times.simps(1) replicate_0)
next
  case (Suc n)
  obtain c b1 where c: "attachsql_connect_poll (Some con) error = Some (ATTACHSQL_RETURN_PROCESSING, error, Some c)"
    "c = con\<lparr>read_buffer := Some b1, uv_events := drop 1 (uv_events con)\<rparr>" "listening c b1"
    "roomy wanted (length (arrived (concat (uv_events c)))) b1"
    using deaf_poll[OF Suc.prems] by blast
  have "list_all (list_all (from_server wanted)) (uv_events c)" using Suc.prems(5) c(2) by (cases "uv_events con") simp_all
  with Suc.IH[OF _ c(3) _ _ _ c(4)] obtain b' where
    "poll_times n c error = Some (replicate n ATTACHSQL_RETURN_PROCESSING, error,
       c\<lparr>read_buffer := Some b', uv_events := drop n (uv_events c)\<rparr>)"
    using Suc.prems(1,3,4) c(2) by (auto simp: deaf_buffer)
  then show ?case using c(1) by (intro exI conjI) (simp_all add: c(2))
qed

section \<open>Property\<close>

text \<open>
  C37. The packet number 128 is never accepted: the byte of the packet is a signed \<open>char\<close>. An answer
  of more than 127 packets ends with a read failure and nothing expected, but with the connection still
  busy. Whatever the server sends afterwards, in however many batches of events, is stored
  and never looked at, and however often the caller polls it is told that the answer is being processed. Only an event of
  another kind would end this: a write that completes, the end of the stream, or a full read buffer.
\<close>

theorem packet_128_out_of_sequence:
  assumes "listening con b" "buffer_bytes b = packet (packet_number con + 1) payload @ rest" "length payload < 2 ^ 24"
    and "expects t con" "t \<noteq> ATTACHSQL_PACKET_TYPE_NONE" "t \<noteq> ATTACHSQL_PACKET_TYPE_HANDSHAKE"
    and "0x80 \<le> packet_number con + 1" "con_status con = ATTACHSQL_CON_STATUS_BUSY" "con_pool con = None"
    and "list_all (list_all (from_server wanted)) (uv_events con)" "roomy wanted (length (arrived (concat (uv_events con)))) b"
  shows "\<exists>con1. attachsql_con_process_packets con = Some (True, con1) \<and>
    command_status con1 = ATTACHSQL_COMMAND_STATUS_READ_FAILED \<and>
    local_errcode con1 = ATTACHSQL_RET_PACKET_OUT_OF_SEQUENCE \<and>
    (\<exists>con2. poll_times n con1 error = Some (replicate n ATTACHSQL_RETURN_PROCESSING, error, con2) \<and>
      uv_events con2 = drop n (uv_events con) \<and> con_status con2 = ATTACHSQL_CON_STATUS_BUSY \<and>
      attachsql_packet_queue_peek con2 = Some ATTACHSQL_PACKET_TYPE_NONE \<and>
      command_status con2 = ATTACHSQL_COMMAND_STATUS_READ_FAILED)"
proof -
  have b: "read_buffer con = Some b" "buffer_ok b" "\<not> opt_compression con" using assms(1) by (simp_all add: listening_def)
  let ?c = "out_of_sequence (con\<lparr>packet_size := of_nat (length payload), packet_number := packet_number con + 1,
      next_packet_queue_used := next_packet_queue_used con - 1\<rparr>)"
  have "con\<lparr>read_buffer := Some b\<rparr> = con" using b(1) by simp
  then have "process_packet con = Some (Some True, ?c)"
    using turn_packet[OF b(1,2) assms(2-5)] assms(6,7) by (simp add: next_number_def linorder_not_less[symmetric])
  then have step: "attachsql_con_process_packets con = Some (True, ?c)"
    using b(1,3) by (simp add: attachsql_con_process_packets_def process_loop.simps[of con])
  have "deaf ?c" "listening ?c b" "con_status ?c = ATTACHSQL_CON_STATUS_BUSY" "con_pool ?c = None" "uv_events ?c = uv_events con"
    using assms(1,8,9) by (simp_all add: deaf_def attachsql_packet_queue_peek_def out_of_sequence_def listening_def)
  from deaf_polls[OF this(1-4), of wanted n error] this(1,3,5) assms(10,11) obtain b' where
    p: "poll_times n ?c error = Some (replicate n ATTACHSQL_RETURN_PROCESSING, error,
       ?c\<lparr>read_buffer := Some b', uv_events := drop n (uv_events con)\<rparr>)" by auto
  show ?thesis
    using step p \<open>deaf ?c\<close> assms(8)
    by (intro exI conjI) (assumption | simp add: out_of_sequence_def deaf_def attachsql_packet_queue_peek_def)+
qed

theorem packet_128_out_of_sequence_witness:
  "\<exists>con1 con2. attachsql_con_process_packets ((answer_con 127 (packet 128 [1, 0x61]))
       \<lparr>uv_events := [[Received 16 (packet 129 [0xfe, 0, 0, 0, 0]), Checked], [Checked]]\<rparr>) = Some (True, con1) \<and>
     poll_times 3 con1 (Some None) = Some (replicate 3 ATTACHSQL_RETURN_PROCESSING, Some None, con2) \<and>
     con_status con2 = ATTACHSQL_CON_STATUS_BUSY"
proof -
  let ?evs = "[[Received 16 (packet 129 [0xfe, 0, 0, 0, 0]), Checked], [Checked]]"
  let ?c = "(answer_con 127 (packet 128 [1, 0x61]))\<lparr>uv_events := ?evs\<rparr>" and ?b = "packet_buffer [] (packet 128 [1, 0x61])"
  have p: "packet_in ?b [] (packet 128 [1, 0x61])" by (rule packet_buffer_in) (simp add: packet_def)
  have l: "listening ?c ?b"
    using p by (simp add: listening_def answer_con_def row_con_def packet_in_def)
  have u: "buffer_bytes ?b = packet (packet_number ?c + 1) [1, 0x61] @ []"
    using p by (simp add: packet_in_def answer_con_def)
  have e: "expects ATTACHSQL_PACKET_TYPE_ROW ?c"
    by (simp add: expects_def answer_con_def row_con_def queue_ok_def expected_def)
  have evs: "list_all (list_all (from_server 16)) (uv_events ?c)" by simp
  have room: "roomy 16 (length (arrived (concat (uv_events ?c)))) ?b"
    by (simp add: roomy_def packet_buffer_def packet_def arrived_def)
  have f: "0x80 \<le> packet_number ?c + 1" "con_status ?c = ATTACHSQL_CON_STATUS_BUSY" "con_pool ?c = None"
    by (simp_all add: answer_con_def row_con_def)
  from packet_128_out_of_sequence[OF l u _ e _ _ f evs room, of 3 "Some None"] show ?thesis by auto
qed

end
