(* ===== verification/Version.thy ===== *)
theory Version
  imports Ctypes
begin

text \<open>
  The version of the library, \<open>src/utility.cc\<close>. The string and the number come from the file that
  the build makes of \<open>version.h.in\<close>: they are the fields of \<open>build_version\<close>. The number has two
  hexadecimal digits for the major version and three each for the minor version and the patch level.
\<close>

record build_version =
  LIBATTACHSQL_VERSION_STRING :: "byte list"
  LIBATTACHSQL_VERSION_HEX :: uint32

definition attachsql_get_library_version :: "build_version \<Rightarrow> byte list" where
  "attachsql_get_library_version v = LIBATTACHSQL_VERSION_STRING v"

definition attachsql_get_library_version_major :: "build_version \<Rightarrow> byte" where
  "attachsql_get_library_version_major v = ucast (drop_bit 24 (LIBATTACHSQL_VERSION_HEX v AND 0xff000000))"

definition attachsql_get_library_version_minor :: "build_version \<Rightarrow> byte" where
  "attachsql_get_library_version_minor v = ucast (drop_bit 12 (LIBATTACHSQL_VERSION_HEX v AND 0x00fff000))"

definition attachsql_get_library_version_patch :: "build_version \<Rightarrow> byte" where
  "attachsql_get_library_version_patch v = ucast (LIBATTACHSQL_VERSION_HEX v AND 0x00000fff)"

text \<open>
  How the build makes the number (\<open>m4/ax_hex_version.m4\<close>): it prints two and three \<^emph>\<open>decimal\<close> digits
  behind \<open>0x\<close>, so that each digit takes four bits.
\<close>

fun decimal_digits :: "nat \<Rightarrow> nat \<Rightarrow> nat" where
  "decimal_digits 0 n = 0"
| "decimal_digits (Suc d) n = decimal_digits d (n div 10) * 16 + n mod 10"

definition hex_version :: "nat \<Rightarrow> nat \<Rightarrow> nat \<Rightarrow> uint32" where
  "hex_version major minor patch =
     of_nat (decimal_digits 2 major * 2 ^ 24 + decimal_digits 3 minor * 2 ^ 12 + decimal_digits 3 patch)"

lemma decimal_digits_zero [simp]: "decimal_digits d 0 = 0"
  by (induction d) simp_all

lemma decimal_digit: "n < 10 \<Longrightarrow> decimal_digits (Suc d) n = n"
  by simp

lemma version_bytes:
  "attachsql_get_library_version_major v = ucast (drop_bit 24 (LIBATTACHSQL_VERSION_HEX v))"
  "attachsql_get_library_version_minor v = ucast (drop_bit 12 (LIBATTACHSQL_VERSION_HEX v))"
  "attachsql_get_library_version_patch v = ucast (LIBATTACHSQL_VERSION_HEX v)"
proof -
  have m: "(0xff000000 :: uint32) = push_bit 24 (mask 8)" "(0x00fff000 :: uint32) = push_bit 12 (mask 12)"
    "(0x00000fff :: uint32) = mask 12"
    by (simp_all add: mask_eq_exp_minus_1 push_bit_eq_mult)
  show "attachsql_get_library_version_major v = ucast (drop_bit 24 (LIBATTACHSQL_VERSION_HEX v))"
    unfolding attachsql_get_library_version_major_def m by (rule bit_word_eqI) (auto simp: bit_simps)
  show "attachsql_get_library_version_minor v = ucast (drop_bit 12 (LIBATTACHSQL_VERSION_HEX v))"
    unfolding attachsql_get_library_version_minor_def m by (rule bit_word_eqI) (auto simp: bit_simps)
  show "attachsql_get_library_version_patch v = ucast (LIBATTACHSQL_VERSION_HEX v)"
    unfolding attachsql_get_library_version_patch_def m by (rule bit_word_eqI) (auto simp: bit_simps)
qed

text \<open>A version of single digits is read back; a patch level of ten is not, it comes out as sixteen.\<close>

lemma version_roundtrip:
  assumes "LIBATTACHSQL_VERSION_HEX v = hex_version major minor patch" "major < 10" "minor < 10" "patch < 10"
  shows "unat (attachsql_get_library_version_major v) = major" "unat (attachsql_get_library_version_minor v) = minor"
    "unat (attachsql_get_library_version_patch v) = patch"
proof -
  have d: "decimal_digits 2 major = major" "decimal_digits 3 minor = minor" "decimal_digits 3 patch = patch"
    using assms(2-4) decimal_digit[of major 1] decimal_digit[of minor 2] decimal_digit[of patch 2]
    by (simp_all only: numeral_2_eq_2 numeral_3_eq_3 One_nat_def)
  have "major * 2 ^ 24 + minor * 2 ^ 12 + patch < 2 ^ 32" using assms(2-4) by simp
  then have w: "unat (LIBATTACHSQL_VERSION_HEX v) = major * 2 ^ 24 + minor * 2 ^ 12 + patch"
    unfolding assms(1) hex_version_def d by (simp add: unat_of_nat take_bit_nat_eq_self del: of_nat_add of_nat_mult)
  have "unat (ucast (drop_bit 24 (LIBATTACHSQL_VERSION_HEX v)) :: byte) = (unat (LIBATTACHSQL_VERSION_HEX v) div 2 ^ 24) mod 2 ^ 8"
    "unat (ucast (drop_bit 12 (LIBATTACHSQL_VERSION_HEX v)) :: byte) = (unat (LIBATTACHSQL_VERSION_HEX v) div 2 ^ 12) mod 2 ^ 8"
    "unat (ucast (LIBATTACHSQL_VERSION_HEX v) :: byte) = unat (LIBATTACHSQL_VERSION_HEX v) mod 2 ^ 8"
    by (simp_all add: unsigned_ucast_eq unsigned_drop_bit_eq take_bit_eq_mod drop_bit_eq_div unat_div)
  moreover have "(major * 2 ^ 24 + minor * 2 ^ 12 + patch) div 2 ^ 24 = major"
    by (rule div_nat_eqI) (use assms(2-4) in simp_all)
  moreover have "(major * 2 ^ 24 + minor * 2 ^ 12 + patch) div 2 ^ 12 = minor + 2 ^ 8 * (16 * major)"
    by (rule div_nat_eqI) (use assms(2-4) in simp_all)
  moreover have "major * 2 ^ 24 + minor * 2 ^ 12 + patch = patch + 2 ^ 8 * (2 ^ 16 * major + 16 * minor)" by simp
  then have "(major * 2 ^ 24 + minor * 2 ^ 12 + patch) mod 2 ^ 8 = patch mod 2 ^ 8" by (simp only: mod_mult_self2)
  moreover have "(minor + 2 ^ 8 * (16 * major)) mod 2 ^ 8 = minor mod 2 ^ 8" by (simp only: mod_mult_self2)
  ultimately show "unat (attachsql_get_library_version_major v) = major" "unat (attachsql_get_library_version_minor v) = minor"
    "unat (attachsql_get_library_version_patch v) = patch"
    unfolding version_bytes w using assms(2-4) by (simp_all only: mod_less) simp_all
qed

lemma version_patch_ten:
  assumes "LIBATTACHSQL_VERSION_HEX v = hex_version 2 1 10" shows "attachsql_get_library_version_patch v = 16"
proof -
  have d: "decimal_digits (Suc (Suc 0)) 2 = 2" "decimal_digits (Suc (Suc (Suc 0))) 1 = 1" "decimal_digits (Suc (Suc (Suc 0))) 10 = 16"
    by simp_all
  show ?thesis
    unfolding version_bytes assms hex_version_def using d by (simp add: numeral_2_eq_2[symmetric] numeral_3_eq_3[symmetric])
qed

end
