(* ===== verification/Spec2Isabelle.thy ===== *)
theory Spec2Isabelle
  imports Events Inflate Ssl_Login Examples Stmt_Values Pool_Run Out_Of_Sequence Version
begin

text \<open>
  libattachsql, an asynchronous client library for the MySQL protocol (\<open>src/src\<close>, C++ in the style
  of C). A connection is driven by the events of a libuv loop. A call of the interface writes one
  command packet and notes which packet the server will answer with; each poll of the connection runs
  the loop, whose read callback appends bytes to the read buffer and takes whole packets from it as
  long as one is expected.

  \<^bold>\<open>Parts, from the bottom.\<close>

  \<^item> \<open>Prelude\<close>: bounded memory. A \<open>block\<close> has a size and a partial map from offsets to bytes;
    a read of a byte never written or a write outside is \<open>None\<close>. The option monad is the
    possibility of undefined behaviour: \<open>None\<close> in any result of the model is an access outside an
    object, the use of a null, freed or uninitialised object, or a failed assertion.
  \<^item> \<open>Ctypes\<close>: the enumerations and sizes of \<open>constants.h\<close>, \<open>return.h\<close>.
  \<^item> \<open>Pack\<close> (\<open>pack.cc\<close>, \<open>pack_macros.h\<close>): integers, lengths, dates on the wire. The locale
    \<open>block_codec\<close> is the contract of a packing routine, interpreted for each of them.
  \<^item> \<open>Buffer\<close> (\<open>buffer.cc\<close>): the read buffer. The locale \<open>byte_queue\<close> is its contract.
  \<^item> \<open>Sha1\<close> (\<open>sha1.cc\<close>), with the standard as the reference.
  \<^item> \<open>Query_Text\<close> (\<open>query.cc\<close>): escaping and parameter substitution, against the lexer of the
    server in both escaping modes, and against the text the documentation promises. The locale \<open>quoting\<close>
    lifts what the lexer owes to each escaped byte to whole literals.
  \<^item> \<open>Conn\<close> (\<open>structs.h\<close>): the state of a connection as the network code sees it, with the
    environment (allocations, results of libuv, bytes sent) as further fields.
  \<^item> \<open>Packet_Queue\<close> (\<open>net.cc\<close>): the stack of expected packets; the locale \<open>packet_stack\<close>.
  \<^item> \<open>Column\<close>, \<open>Response\<close>, \<open>Handshake\<close>, \<open>Send\<close> (\<open>net.cc\<close>, \<open>connect.cc\<close>, \<open>command.cc\<close>):
    the readers of each kind of packet and the writers of commands, plain and compressed.
  \<^item> \<open>Process\<close> (\<open>net.cc\<close>): allocation and read callbacks, decompression, and the packet loop.
  \<^item> \<open>Command\<close>, \<open>Error\<close>, \<open>Client\<close>, \<open>Connect\<close>, \<open>Statement\<close>, \<open>Query\<close>, \<open>Poll\<close>: the interface:
    rows and results, errors, the rest of the state, connecting and the event loop, prepared
    statements, queries, polling and the pool.
  \<^item> \<open>Stmt_Set\<close>, \<open>Stmt_Get\<close>, \<open>Stmt_Text\<close> (\<open>statement_getset.cc\<close>): binding parameters, reading
    the values of a binary row as numbers and as text.

  \<^item> \<open>Version\<close> (\<open>utility.cc\<close>): the version of the library.
  \<^item> \<open>Ssl\<close>: the build with OpenSSL. The functions of the encryption (\<open>net.cc\<close>), \<open>attachsql_connect_set_ssl\<close>
    (\<open>connect.cc\<close>), and a version, named \<open>secure_\<close>, of each function with an OpenSSL branch. The state
    \<open>con->ssl\<close> is the record \<open>ssl_t\<close>, passed beside the connection; the TLS library is the parameter
    \<open>ssl_library\<close>. The other theories are the build without OpenSSL.

  Every definition carries the name of the C function, type or member it models; a helper without a
  counterpart models the lines of a loop body or a branch.

  \<^bold>\<open>Theories of lemmas over them.\<close> \<open>Exchange\<close> and \<open>Result_Set\<close>: turns of the packet loop, rows,
  whole result sets. \<open>Answers\<close>: OK and error packets. \<open>Events\<close>: the step relation \<open>con_step\<close> of
  events and calls, its invariant, and the termination of the packet loop. \<open>Params\<close> and \<open>Execute\<close>:
  the type invariant of parameters under the step relation \<open>set_step\<close>, and the execute packet.
  \<open>Stmt_Rows\<close>: binary rows. \<open>Query_Send\<close>: what \<open>attachsql_query\<close> sends. \<open>Fragments\<close>: packets that
  arrive in pieces. \<open>Inflate\<close>: compressed packets. \<open>Session\<close>: a query from sending it to closing it,
  composed of the lemmas of the parts; \<open>Login\<close>: a
  connection from creating it to the first query; \<open>Buffered\<close>: a query whose rows are buffered; \<open>Prepare\<close>:
  preparing a statement, with the locale \<open>definition_reader\<close> of \<open>Result_Set\<close> as the contract of the two
  readers of definitions; \<open>Execution\<close>: the execution of a prepared statement, from sending its parameters to
  the end of its rows; \<open>Setters\<close>: calls of the setters as data, \<open>set_call\<close>, with the types and values the server is
  to receive for them, written from the arguments; \<open>Prepared\<close>: preparing, any such calls, and the execution that
  sends them; \<open>Stmt_Values\<close>: the integers of such rows as numbers and as text; \<open>Pool_Run\<close>: a run of a pool gives each
  connection its own answer and reports it; \<open>Out_Of_Sequence\<close>: the packet number 128, after
  which every poll reports that the answer is being processed, whatever bytes the server sends.
  \<open>Examples\<close> (\<open>src/examples\<close>): the programs \<open>basic_query\<close>, \<open>escaped_query\<close> and \<open>buffered_query\<close> from their
  first call to their last, with what they print. Such a session leaves a connection on which the next one can be run: \<open>session_ready\<close> and
  the size of the read buffer, \<open>capacity\<close>, are kept.
  \<open>Ssl_Plain\<close>: the build with OpenSSL does what the other does as
  long as no encryption is set up. \<open>Ssl_Stream\<close>: what is written reaches the TLS library in order.
  \<open>Ssl_Login\<close>: nothing of the login but the request to encrypt goes out in the clear, whatever the TLS library
  does; the hypotheses on it, \<open>tls_ok\<close> and \<open>tls_wire\<close>, say which bytes it takes and gives out and nothing about failures.

  \<^bold>\<open>Loops and bounds.\<close> Loops over a count are structural recursion. The packet loop is a
  total \<open>function\<close>: every turn moves the read pointer towards the end of the buffer or empties it,
  with the TLS library in between as well; \<open>packet_loop_terminates\<close> bounds its turns. The loops over
  buffered rows, over the output of the TLS library and of the examples are \<open>partial_function\<close>s, since a server or a
  library might never end them; the lemmas about them show that they return. \<open>receive_all\<close> terminates as each read takes a
  byte or closes the stream. Answers are followed up to packet number 127, beyond which the code
  refuses every packet.

  \<^bold>\<open>Not modelled.\<close> Debug output and the release of memory that nothing reads again. What a callback of a
  pool does is up to the client: the model records the events it is given, in \<open>callbacks\<close>. zlib, libuv and OpenSSL are parameters: the records \<open>libraries\<close> and
  \<open>ssl_library\<close> hold the functions called, \<open>uv_results\<close> and \<open>uv_events\<close> the outcomes of libuv and what its
  loop delivers. Floating point numbers are their bit patterns, their printing and their whole parts are
  written out. Sizes are natural numbers where the code has \<open>size_t\<close>, so that the sum in \<open>params_size\<close> does not wrap
  around; \<open>SHA1Final\<close> is not called with a NULL digest; of the shutdown of a loop only the outcome of closing it is kept.
  \<open>tests\<close> and the test harness \<open>yatl\<close> are not part of the library; of the examples \<open>prepared_statement\<close>
  is left out, whose calls \<open>Prepared\<close> covers, and \<open>pool_query\<close>, whose callback enters the library again.
\<close>

end
